(* ===== verification/Prelude.thy ===== *)
theory Prelude
  imports Main "HOL-Library.Word" "HOL-Library.Char_ord" "HOL-Library.List_Lexorder"
begin

text \<open>
  Shared vocabulary of the development: results of fallible Python code as a sum whose left
  side is the raised error, identifiers and instants, the field constraints the pydantic
  contracts use (length bounds, the regular expressions of codes and digests), and generic
  lemmas on lists and maps. Every component theory imports this one.
\<close>

named_theorems result_simps \<open>unfolding rules for the error monad\<close>
named_theorems contract_defs \<open>definitions of the validators of frozen contracts\<close>

subsection \<open>Identifiers, instants, strings\<close>

text \<open>
  A Python \<open>UUID\<close> is a 128-bit value. An aware \<open>datetime\<close> is compared and serialised by
  its instant, so it is the number of microseconds since 0001-01-01T00:00 UTC; a value as it
  comes from outside may be naive, which the validators reject.
\<close>

type_synonym uuid = "128 word"
type_synonym instant = int
type_synonym bytes = "8 word list"

datatype py_datetime = Naive int | Aware (wall: int) (utcoffset: int)

definition usec_per_second :: int where "usec_per_second = 1000000"
definition usec_per_minute :: int where "usec_per_minute = 60 * usec_per_second"
definition usec_per_hour :: int where "usec_per_hour = 60 * usec_per_minute"
definition usec_per_day :: int where "usec_per_day = 24 * usec_per_hour"

lemmas usec_defs = usec_per_second_def usec_per_minute_def usec_per_hour_def usec_per_day_def

subsection \<open>Results\<close>

text \<open>\<open>Inl e\<close> is a raised error, \<open>Inr x\<close> a returned value; \<open>rbind\<close> sequences two calls.\<close>

definition rbind :: "'e + 'a \<Rightarrow> ('a \<Rightarrow> 'e + 'b) \<Rightarrow> 'e + 'b" where
  "rbind m f = (case m of Inl e \<Rightarrow> Inl e | Inr x \<Rightarrow> f x)"

definition require :: "bool \<Rightarrow> 'e \<Rightarrow> 'e + unit" where
  "require b e = (if b then Inr () else Inl e)"

definition is_ok :: "'e + 'a \<Rightarrow> bool" where
  "is_ok m = (case m of Inl _ \<Rightarrow> False | Inr _ \<Rightarrow> True)"

lemma rbind_simps [simp, result_simps]:
  "rbind (Inl e) f = Inl e" "rbind (Inr x) f = f x"
  by (simp_all add: rbind_def)

lemma rbind_Inr_iff: "rbind m f = Inr y \<longleftrightarrow> (\<exists>x. m = Inr x \<and> f x = Inr y)"
  by (cases m) simp_all

lemma rbind_Inl_iff: "rbind m f = Inl e \<longleftrightarrow> m = Inl e \<or> (\<exists>x. m = Inr x \<and> f x = Inl e)"
  by (cases m) simp_all

lemma require_simps [simp, result_simps]:
  "require True e = Inr ()" "require False e = Inl e"
  by (simp_all add: require_def)

lemma require_Inr_iff [simp]: "require b e = Inr u \<longleftrightarrow> b"
  by (simp add: require_def)

lemma require_Inl_iff [simp]: "require b e = Inl e' \<longleftrightarrow> \<not> b \<and> e' = e"
  by (auto simp: require_def)

lemma is_ok_simps [simp]: "\<not> is_ok (Inl e)" "is_ok (Inr x)"
  by (simp_all add: is_ok_def)

lemma is_ok_iff: "is_ok m \<longleftrightarrow> (\<exists>x. m = Inr x)"
  by (cases m) simp_all

subsection \<open>Field constraints\<close>

text \<open>
  Character classes of the regular expressions of the contracts, over code points below 256.
  \<open>ident_ok first rest lo hi s\<close> is the shape \<open>^[first][rest]{lo,hi}$\<close>.
\<close>

definition is_lower :: "char \<Rightarrow> bool" where
  "is_lower c \<longleftrightarrow> CHR ''a'' \<le> c \<and> c \<le> CHR ''z''"

definition is_upper :: "char \<Rightarrow> bool" where
  "is_upper c \<longleftrightarrow> CHR ''A'' \<le> c \<and> c \<le> CHR ''Z''"

definition is_digit :: "char \<Rightarrow> bool" where
  "is_digit c \<longleftrightarrow> CHR ''0'' \<le> c \<and> c \<le> CHR ''9''"

definition is_alpha :: "char \<Rightarrow> bool" where
  "is_alpha c \<longleftrightarrow> is_lower c \<or> is_upper c"

definition is_hex :: "char \<Rightarrow> bool" where
  "is_hex c \<longleftrightarrow> is_digit c \<or> CHR ''a'' \<le> c \<and> c \<le> CHR ''f''"

definition len_ok :: "nat \<Rightarrow> nat \<Rightarrow> 'a list \<Rightarrow> bool" where
  "len_ok lo hi s \<longleftrightarrow> lo \<le> length s \<and> length s \<le> hi"

fun ident_ok :: "(char \<Rightarrow> bool) \<Rightarrow> (char \<Rightarrow> bool) \<Rightarrow> nat \<Rightarrow> nat \<Rightarrow> string \<Rightarrow> bool" where
  "ident_ok first rest lo hi [] = False"
| "ident_ok first rest lo hi (c # cs) = (first c \<and> list_all rest cs \<and> len_ok lo hi cs)"

definition code_char :: "char \<Rightarrow> bool" where
  "code_char c \<longleftrightarrow> is_lower c \<or> is_digit c \<or> c = CHR ''_''"

definition ref_char :: "char \<Rightarrow> bool" where
  "ref_char c \<longleftrightarrow> code_char c \<or> c = CHR ''.'' \<or> c = CHR ''-''"

text \<open>\<open>^[a-z][a-z0-9_]{2,127}$\<close>, the shape of every reason code and command type.\<close>

definition reason_code_ok :: "string \<Rightarrow> bool" where
  "reason_code_ok s = ident_ok is_lower code_char 2 127 s"

text \<open>\<open>^[0-9a-f]{64}$\<close>, the shape of a SHA-256 digest in hexadecimal.\<close>

definition hex64 :: "string \<Rightarrow> bool" where
  "hex64 s \<longleftrightarrow> length s = 64 \<and> list_all is_hex s"

subsection \<open>Generic lemmas\<close>

lemma map_upd_other [simp]: "k' \<noteq> k \<Longrightarrow> (m(k \<mapsto> v)) k' = m k'"
  by simp

lemma distinct_length_card: "distinct xs \<longleftrightarrow> card (set xs) = length xs"
  using card_distinct distinct_card by blast

lemma list_all_mem: "list_all P xs \<Longrightarrow> x \<in> set xs \<Longrightarrow> P x"
  by (simp add: list_all_iff)

lemma prefix_cancel:
  "length a = length b \<Longrightarrow> a @ r = b @ s \<longleftrightarrow> a = b \<and> r = s"
  by simp

end
