(* ===== verification/Json.thy ===== *)
theory Json
  imports Prelude "HOL-Library.Multiset"
begin

text \<open>
  JSON values and \<open>json.dumps(v, ensure_ascii=False, sort_keys=True, separators=(",", ":"),
  allow_nan=False)\<close>, the canonical text that every signature, payload digest and audit hash
  of the program is computed over. An object is the insertion-ordered association list of a
  Python dict. \<open>emit\<close> writes a value as it stands, \<open>norm\<close> sorts the keys of every object,
  and \<open>dumps\<close> is their composition. The main result is that the text determines the sorted
  value (\<open>dumps_inject\<close>): two different documents never share a canonical text.
\<close>

datatype json =
    JNull
  | JBool bool
  | JInt int
  | JStr string
  | JList "json list"
  | JObj "(string \<times> json) list"

subsection \<open>Integers\<close>

definition digit_char :: "nat \<Rightarrow> char" where
  "digit_char d = char_of (48 + d)"

function show_nat :: "int \<Rightarrow> string" where
  "show_nat n =
     (if n < 10 then [digit_char (nat n)] else show_nat (n div 10) @ [digit_char (nat (n mod 10))])"
  by pat_completeness auto
termination by (relation "measure nat") auto

declare show_nat.simps [simp del]

definition show_int :: "int \<Rightarrow> string" where
  "show_int i = (if i < 0 then CHR ''-'' # show_nat (- i) else show_nat i)"

definition digit_val :: "char \<Rightarrow> nat" where
  "digit_val c = of_char c - 48"

definition read_nat :: "string \<Rightarrow> int" where
  "read_nat s = foldl (\<lambda>n c. 10 * n + int (digit_val c)) 0 s"

lemma of_char_digit_char: "d < 10 \<Longrightarrow> of_char (digit_char d) = 48 + d"
  by (simp add: digit_char_def)

lemma digit_val_char: "d < 10 \<Longrightarrow> digit_val (digit_char d) = d"
  by (simp add: digit_val_def of_char_digit_char)

lemma is_digit_digit_char: "d < 10 \<Longrightarrow> is_digit (digit_char d)"
  by (simp add: is_digit_def less_eq_char_def of_char_digit_char)

lemma digit_val_digit_char_mod: "digit_val (digit_char (nat (n mod 10))) = nat (n mod 10)" for n :: int
  by (rule digit_val_char) (simp add: nat_less_iff)

lemma show_nat_digits: "0 \<le> n \<Longrightarrow> list_all is_digit (show_nat n)"
proof (induction n rule: show_nat.induct)
  case (1 n)
  moreover have "is_digit (digit_char (nat (n mod 10)))"
    by (rule is_digit_digit_char) (simp add: nat_less_iff)
  ultimately show ?case
    by (cases "n < 10") (simp_all add: show_nat.simps [of n] is_digit_digit_char nat_less_iff)
qed

lemma show_nat_nonempty: "show_nat n \<noteq> []"
  by (subst show_nat.simps) simp

lemma read_show_nat: "0 \<le> n \<Longrightarrow> read_nat (show_nat n) = n"
proof (induction n rule: show_nat.induct)
  case (1 n)
  show ?case
  proof (cases "n < 10")
    case True
    with 1(2) show ?thesis
      by (simp add: show_nat.simps [of n] read_nat_def digit_val_char nat_less_iff)
  next
    case False
    with 1 have "read_nat (show_nat (n div 10)) = n div 10" by simp
    with False show ?thesis
      by (simp add: show_nat.simps [of n] read_nat_def digit_val_digit_char_mod)
  qed
qed

text \<open>A text that continues after a number never starts with another digit.\<close>

definition stops :: "string \<Rightarrow> bool" where
  "stops r \<longleftrightarrow> (case r of [] \<Rightarrow> True | c # _ \<Rightarrow> \<not> is_digit c)"

lemma stops_simps [simp]: "stops []" "stops (c # r) \<longleftrightarrow> \<not> is_digit c"
  by (simp_all add: stops_def)

lemma takeWhile_show_nat:
  assumes "stops r" "0 \<le> n"
  shows "takeWhile is_digit (show_nat n @ r) = show_nat n"
proof -
  from assms(1) have "takeWhile is_digit r = []" by (cases r) auto
  moreover have "\<And>c. c \<in> set (show_nat n) \<Longrightarrow> is_digit c"
    using show_nat_digits [OF assms(2)] by (simp add: list_all_iff)
  ultimately show ?thesis by (simp add: takeWhile_append2)
qed

lemma show_nat_append_inject:
  assumes "show_nat m @ r = show_nat n @ s" "stops r" "stops s" "0 \<le> m" "0 \<le> n"
  shows "m = n \<and> r = s"
proof -
  have "show_nat m = show_nat n"
    using assms takeWhile_show_nat by metis
  then have "m = n" using assms(4,5) read_show_nat by metis
  with assms show ?thesis by simp
qed

lemma hd_show_nat: "0 \<le> n \<Longrightarrow> is_digit (hd (show_nat n))"
  using show_nat_digits [of n] show_nat_nonempty [of n] by (cases "show_nat n") auto

lemma show_nat_not_minus: "0 \<le> n \<Longrightarrow> show_nat n @ r \<noteq> CHR ''-'' # s"
  using hd_show_nat [of n] show_nat_nonempty [of n]
  by (cases "show_nat n") (auto simp: is_digit_def less_eq_char_def)

lemma show_int_append_inject:
  assumes eq: "show_int i @ r = show_int j @ s" and st: "stops r" "stops s"
  shows "i = j \<and> r = s"
proof (cases "i < 0"; cases "j < 0")
  assume "i < 0" "j < 0"
  with eq have "show_nat (- i) @ r = show_nat (- j) @ s" by (simp add: show_int_def)
  with st \<open>i < 0\<close> \<open>j < 0\<close> show ?thesis by (auto dest: show_nat_append_inject)
next
  assume "\<not> i < 0" "\<not> j < 0"
  with eq have "show_nat i @ r = show_nat j @ s" by (simp add: show_int_def)
  with st \<open>\<not> i < 0\<close> \<open>\<not> j < 0\<close> show ?thesis by (auto dest: show_nat_append_inject)
next
  assume "i < 0" "\<not> j < 0"
  with eq show ?thesis using show_nat_not_minus [of j s] by (simp add: show_int_def) metis
next
  assume "\<not> i < 0" "j < 0"
  with eq show ?thesis using show_nat_not_minus [of i r] by (simp add: show_int_def)
qed

subsection \<open>Strings\<close>

text \<open>
  \<open>json.dumps\<close> escapes the quotation mark, the backslash and the control characters below
  0x20, the five common ones by a letter and the rest by four hexadecimal digits.
\<close>

definition hex_char :: "nat \<Rightarrow> char" where
  "hex_char d = (if d < 10 then char_of (48 + d) else char_of (87 + d))"

definition hex_val :: "char \<Rightarrow> nat" where
  "hex_val c = (if of_char c < (58 :: nat) then of_char c - 48 else of_char c - 87)"

definition esc :: "char \<Rightarrow> string" where
  "esc c =
     (let n = of_char c :: nat in
      if n = 0x22 then [CHR 0x5C, CHR 0x22]
      else if n = 0x5C then [CHR 0x5C, CHR 0x5C]
      else if n = 0x0A then [CHR 0x5C, CHR ''n'']
      else if n = 0x0D then [CHR 0x5C, CHR ''r'']
      else if n = 0x09 then [CHR 0x5C, CHR ''t'']
      else if n = 0x08 then [CHR 0x5C, CHR ''b'']
      else if n = 0x0C then [CHR 0x5C, CHR ''f'']
      else if n < 0x20 then
        [CHR 0x5C, CHR ''u'', CHR ''0'', CHR ''0'', hex_char (n div 16), hex_char (n mod 16)]
      else [c])"

definition quote :: "string \<Rightarrow> string" where
  "quote s = CHR 0x22 # concat (map esc s) @ [CHR 0x22]"

text \<open>The decoder of one escaped character, used to show that escapes are unambiguous.\<close>

fun unesc :: "string \<Rightarrow> char \<times> string" where
  "unesc (b # c # r) =
     (if b \<noteq> CHR 0x5C then (b, c # r)
      else if c = CHR ''n'' then (CHR 0x0A, r)
      else if c = CHR ''r'' then (CHR 0x0D, r)
      else if c = CHR ''t'' then (CHR 0x09, r)
      else if c = CHR ''b'' then (CHR 0x08, r)
      else if c = CHR ''f'' then (CHR 0x0C, r)
      else if c = CHR ''u'' then
        (char_of (16 * hex_val (r ! 2) + hex_val (r ! 3)), drop 4 r)
      else (c, r))"
| "unesc [b] = (b, [])"
| "unesc [] = (CHR 0x00, [])"

lemma hex_val_char: "d < 16 \<Longrightarrow> hex_val (hex_char d) = d"
  by (auto simp: hex_val_def hex_char_def)

text \<open>A character test is a test of its code.\<close>

lemma char_code_eqs:
  "c = CHR 0x22 \<longleftrightarrow> of_char c = (0x22::nat)" "c = CHR 0x5C \<longleftrightarrow> of_char c = (0x5C::nat)"
  "c = CHR 0x0A \<longleftrightarrow> of_char c = (0x0A::nat)" "c = CHR 0x0D \<longleftrightarrow> of_char c = (0x0D::nat)"
  "c = CHR 0x09 \<longleftrightarrow> of_char c = (0x09::nat)" "c = CHR 0x08 \<longleftrightarrow> of_char c = (0x08::nat)"
  "c = CHR 0x0C \<longleftrightarrow> of_char c = (0x0C::nat)"
  unfolding of_char_eq_iff [where 'a = nat, symmetric] by simp_all

lemma unesc_esc:
  assumes "r \<noteq> []"
  shows "unesc (esc c @ r) = (c, r)"
proof -
  obtain x xs where r: "r = x # xs" using assms by (cases r) auto
  consider "c \<in> {CHR 0x22, CHR 0x5C, CHR 0x0A, CHR 0x0D, CHR 0x09, CHR 0x08, CHR 0x0C}"
    | (ctl) "c \<notin> {CHR 0x22, CHR 0x5C, CHR 0x0A, CHR 0x0D, CHR 0x09, CHR 0x08, CHR 0x0C}"
        "of_char c < (0x20 :: nat)"
    | (plain) "c \<notin> {CHR 0x22, CHR 0x5C, CHR 0x0A, CHR 0x0D, CHR 0x09, CHR 0x08, CHR 0x0C}"
        "\<not> of_char c < (0x20 :: nat)"
    by blast
  then show ?thesis
  proof cases
    case 1
    then show ?thesis unfolding r by (elim insertE) (simp_all add: esc_def)
  next
    case ctl
    then have "esc c = [CHR 0x5C, CHR ''u'', CHR ''0'', CHR ''0'',
        hex_char (of_char c div 16), hex_char (of_char c mod 16)]"
      unfolding esc_def Let_def char_code_eqs [symmetric] by simp
    moreover have "of_char c div 16 < (16 :: nat)" using ctl(2) by arith
    ultimately show ?thesis unfolding r by (simp add: hex_val_char numeral_3_eq_3)
  next
    case plain
    then have "esc c = [c]"
      unfolding esc_def Let_def char_code_eqs [symmetric] by simp
    with plain show ?thesis unfolding r by simp
  qed
qed

lemma esc_nonempty: "esc c \<noteq> []"
  by (simp add: esc_def Let_def)

lemma hd_esc: "hd (esc c) \<noteq> CHR 0x22"
proof -
  have "of_char c \<noteq> (0x22 :: nat) \<Longrightarrow> c \<noteq> CHR 0x22" by auto
  then show ?thesis by (simp add: esc_def Let_def)
qed

lemma esc_append_inject:
  assumes "esc c @ r = esc d @ s" "r \<noteq> []" "s \<noteq> []"
  shows "c = d \<and> r = s"
  using assms unesc_esc by (metis prod.inject)

lemma esc_not_quote: "esc c @ r \<noteq> CHR 0x22 # s"
  using esc_nonempty [of c] hd_esc [of c] by (cases "esc c") auto

lemma quote_append_inject: "quote s @ r = quote t @ u \<Longrightarrow> s = t \<and> r = u"
  unfolding quote_def
proof (induction s arbitrary: t)
  case Nil
  then show ?case by (cases t) (auto dest: esc_not_quote [THEN notE, OF sym])
next
  case (Cons c s)
  from Cons.prems obtain d t' where t: "t = d # t'"
    by (cases t) (auto simp: esc_not_quote)
  from Cons.prems have "c = d \<and>
      concat (map esc s) @ [CHR 0x22] @ r = concat (map esc t') @ [CHR 0x22] @ u"
    unfolding t by (intro esc_append_inject) simp_all
  with Cons.IH [of t'] show ?case by (simp add: t)
qed

subsection \<open>Separated sequences\<close>

fun sep :: "string list \<Rightarrow> string" where
  "sep [] = []"
| "sep [x] = x"
| "sep (x # y # zs) = x @ CHR '','' # sep (y # zs)"

text \<open>
  A comma-separated sequence up to a closing bracket determines its elements, provided the
  text of one element followed by a non-digit does.
\<close>

lemma sep_append_inject:
  assumes inj: "\<And>v w r s. v \<in> set vs \<Longrightarrow> e v @ r = e w @ s \<Longrightarrow> stops r \<Longrightarrow> stops s \<Longrightarrow> v = w \<and> r = s"
    and start: "\<And>w. \<exists>h t. e w = h # t \<and> h \<noteq> cl"
    and cl: "cl \<noteq> CHR '',''" "\<not> is_digit cl"
    and eq: "sep (map e vs) @ cl # r = sep (map e ws) @ cl # s"
  shows "vs = ws \<and> r = s"
  using inj eq
proof (induction vs arbitrary: ws)
  case Nil
  note Cons_or_Nil = Nil.prems(2)
  show ?case
  proof (cases ws)
    case Nil
    with Cons_or_Nil show ?thesis by simp
  next
    case (Cons w ws')
    obtain h t where "e w = h # t" "h \<noteq> cl" using start by blast
    then have "sep (map e ws) @ cl # s = h # (case ws' of [] \<Rightarrow> t | _ \<Rightarrow> t @ CHR '','' # sep (map e ws')) @ cl # s"
      using Cons by (cases ws') simp_all
    with Cons_or_Nil \<open>h \<noteq> cl\<close> show ?thesis by simp
  qed
next
  case (Cons v vs)
  have comma: "\<not> is_digit CHR '',''" by (simp add: is_digit_def less_eq_char_def)
  obtain w ws' where ws: "ws = w # ws'"
    using Cons.prems(2) start [of v] by (cases ws; cases vs) auto
  define tv where "tv = (if vs = [] then cl # r else CHR '','' # sep (map e vs) @ cl # r)"
  define tw where "tw = (if ws' = [] then cl # s else CHR '','' # sep (map e ws') @ cl # s)"
  have "e v @ tv = e w @ tw"
    using Cons.prems(2) unfolding ws tv_def tw_def by (cases vs; cases ws') auto
  moreover have "stops tv" "stops tw" using cl comma by (auto simp: tv_def tw_def)
  ultimately have vw: "v = w" "tv = tw" using Cons.prems(1) [of v tv w tw] by auto
  then have "vs = [] \<and> ws' = [] \<and> r = s
      \<or> vs \<noteq> [] \<and> ws' \<noteq> [] \<and> sep (map e vs) @ cl # r = sep (map e ws') @ cl # s"
    using cl by (auto simp: tv_def tw_def split: if_splits)
  with Cons.IH [of ws'] Cons.prems(1) vw(1) show ?case unfolding ws by auto
qed

subsection \<open>The canonical text\<close>

definition member :: "string \<times> string \<Rightarrow> string" where
  "member kv = quote (fst kv) @ CHR '':'' # snd kv"

primrec emit :: "json \<Rightarrow> string" where
  "emit JNull = ''null''"
| "emit (JBool b) = (if b then ''true'' else ''false'')"
| "emit (JInt i) = show_int i"
| "emit (JStr s) = quote s"
| "emit (JList vs) = CHR ''['' # sep (map emit vs) @ '']''"
| "emit (JObj kvs) = CHR ''{'' # sep (map member (map (map_prod id emit) kvs)) @ ''}''"

primrec norm :: "json \<Rightarrow> json" where
  "norm JNull = JNull"
| "norm (JBool b) = JBool b"
| "norm (JInt i) = JInt i"
| "norm (JStr s) = JStr s"
| "norm (JList vs) = JList (map norm vs)"
| "norm (JObj kvs) = JObj (sort_key fst (map (map_prod id norm) kvs))"

definition dumps :: "json \<Rightarrow> string" where
  "dumps v = emit (norm v)"

text \<open>The first character tells the kind of a value, and is no closing bracket.\<close>

lemma hd_show_int: "\<exists>h t. show_int i = h # t \<and> (is_digit h \<or> h = CHR ''-'')"
proof (cases "i < 0")
  case True
  then show ?thesis by (simp add: show_int_def)
next
  case False
  then show ?thesis
    using hd_show_nat [of i] show_nat_nonempty [of i] by (cases "show_nat i") (auto simp: show_int_def)
qed

lemma emit_start: "\<exists>h t. emit v = h # t \<and> h \<noteq> CHR '']'' \<and> h \<noteq> CHR ''}''"
  using hd_show_int by (cases v) (fastforce simp: quote_def is_digit_def less_eq_char_def)+

definition kind :: "char \<Rightarrow> nat" where
  "kind c = (if c = CHR ''n'' then 0 else if c = CHR ''t'' then 1 else if c = CHR ''f'' then 2
     else if is_digit c \<or> c = CHR ''-'' then 3 else if c = CHR 0x22 then 4
     else if c = CHR ''['' then 5 else 6)"

definition json_kind :: "json \<Rightarrow> nat" where
  "json_kind v = (case v of JNull \<Rightarrow> 0 | JBool b \<Rightarrow> (if b then 1 else 2) | JInt _ \<Rightarrow> 3
     | JStr _ \<Rightarrow> 4 | JList _ \<Rightarrow> 5 | JObj _ \<Rightarrow> 6)"

lemma kind_emit: "emit v = h # t \<Longrightarrow> kind h = json_kind v"
proof (cases v)
  case (JInt i)
  assume "emit v = h # t"
  with JInt hd_show_int [of i] have "is_digit h \<or> h = CHR ''-''" by auto
  then show ?thesis
    using JInt by (auto simp: kind_def json_kind_def is_digit_def less_eq_char_def)
qed (auto simp: kind_def json_kind_def quote_def is_digit_def less_eq_char_def split: if_splits)

lemma emit_append_kind: "emit v @ r = emit w @ s \<Longrightarrow> json_kind v = json_kind w"
  using emit_start [of v] emit_start [of w] kind_emit [of v] kind_emit [of w] by fastforce

lemma member_append_inject:
  assumes "\<And>w r s. emit v @ r = emit w @ s \<Longrightarrow> stops r \<Longrightarrow> stops s \<Longrightarrow> v = w \<and> r = s"
    and "member (map_prod id emit (k, v)) @ r = member (map_prod id emit kw) @ s"
    and "stops r" "stops s"
  shows "(k, v) = kw \<and> r = s"
proof -
  have "k = fst kw \<and> CHR '':'' # emit v @ r = CHR '':'' # emit (snd kw) @ s"
    using assms(2) quote_append_inject [of k "CHR '':'' # emit v @ r"]
    by (simp add: member_def)
  with assms(1) [of r "snd kw" s] assms(3,4) show ?thesis by auto
qed

theorem emit_append_inject:
  "emit v @ r = emit w @ s \<Longrightarrow> stops r \<Longrightarrow> stops s \<Longrightarrow> v = w \<and> r = s"
proof (induction v arbitrary: w r s)
  case JNull
  with emit_append_kind [OF JNull(1)] show ?case
    by (cases w) (auto simp: json_kind_def split: if_splits)
next
  case (JBool b)
  with emit_append_kind [OF JBool(1)] show ?case
    by (cases w) (auto simp: json_kind_def split: if_splits)
next
  case (JInt i)
  with emit_append_kind [OF JInt(1)] show ?case
    by (cases w) (auto simp: json_kind_def dest: show_int_append_inject split: if_splits)
next
  case (JStr t)
  with emit_append_kind [OF JStr(1)] show ?case
    by (cases w) (auto simp: json_kind_def dest: quote_append_inject split: if_splits)
next
  case (JList vs)
  from emit_append_kind [OF JList(2)] obtain ws where w: "w = JList ws"
    by (cases w) (auto simp: json_kind_def split: if_splits)
  have "vs = ws \<and> r = s"
  proof (rule sep_append_inject [where e = emit and cl = "CHR '']''"])
    fix v w r s
    assume "v \<in> set vs" "emit v @ r = emit w @ s" "stops r" "stops s"
    then show "v = w \<and> r = s" by (rule JList(1))
  next
    show "\<And>w. \<exists>h t. emit w = h # t \<and> h \<noteq> CHR '']''" using emit_start by blast
    show "sep (map emit vs) @ CHR '']'' # r = sep (map emit ws) @ CHR '']'' # s"
      using JList(2) w by simp
  qed (simp_all add: is_digit_def less_eq_char_def)
  with w show ?case by simp
next
  case (JObj kvs)
  from emit_append_kind [OF JObj(2)] obtain kws where w: "w = JObj kws"
    by (cases w) (auto simp: json_kind_def split: if_splits)
  have "kvs = kws \<and> r = s"
  proof (rule sep_append_inject [where e = "member \<circ> map_prod id emit" and cl = "CHR ''}''"])
    fix v w r s
    assume v: "v \<in> set kvs" and "stops r" "stops s"
      and eq: "(member \<circ> map_prod id emit) v @ r = (member \<circ> map_prod id emit) w @ s"
    obtain k u where ku: "v = (k, u)" by (cases v)
    with v have "u \<in> Basic_BNFs.snds (k, u)" "(k, u) \<in> set kvs" by (simp_all add: snds.intros)
    then have "\<And>w r s. emit u @ r = emit w @ s \<Longrightarrow> stops r \<Longrightarrow> stops s \<Longrightarrow> u = w \<and> r = s"
      using JObj(1) by blast
    then show "v = w \<and> r = s"
      using eq \<open>stops r\<close> \<open>stops s\<close> unfolding ku comp_def by (rule member_append_inject)
  next
    show "sep (map (member \<circ> map_prod id emit) kvs) @ CHR ''}'' # r =
        sep (map (member \<circ> map_prod id emit) kws) @ CHR ''}'' # s"
      using JObj(2) w by simp
  qed (simp_all add: is_digit_def less_eq_char_def member_def quote_def)
  with w show ?case by simp
qed

lemma emit_inject: "emit v = emit w \<longleftrightarrow> v = w"
  using emit_append_inject [of v "[]" w "[]"] by auto

theorem dumps_inject: "dumps v = dumps w \<longleftrightarrow> norm v = norm w"
  by (simp add: dumps_def emit_inject)

subsection \<open>Key order\<close>

lemma map_fst_norm: "map fst (map (map_prod id norm) kvs) = map fst kvs"
  by (induction kvs) auto

lemma sort_key_fst_unique:
  assumes "mset xs = mset ys" "distinct (map fst xs)"
  shows "sort_key fst xs = sort_key fst ys"
  using assms by (intro sort_key_inj_key_eq) (auto simp: distinct_map)

text \<open>The canonical text does not depend on the insertion order of an object's keys.\<close>

theorem dumps_key_order:
  assumes "mset kvs = mset kvs'" "distinct (map fst kvs)"
  shows "dumps (JObj kvs) = dumps (JObj kvs')"
proof -
  have "mset (map (map_prod id norm) kvs) = mset (map (map_prod id norm) kvs')"
    using assms(1) by simp
  then have "sort_key fst (map (map_prod id norm) kvs) = sort_key fst (map (map_prod id norm) kvs')"
    using assms(2) by (intro sort_key_fst_unique) (simp_all only: map_fst_norm)
  then show ?thesis by (simp add: dumps_def)
qed

text \<open>UTF-8 over code points below 256: one byte below 0x80, two above.\<close>

definition utf8_char :: "char \<Rightarrow> bytes" where
  "utf8_char c = (let n = of_char c :: nat in
     if n < 0x80 then [of_nat n] else [of_nat (0xC0 + n div 64), of_nat (0x80 + n mod 64)])"

definition utf8 :: "string \<Rightarrow> bytes" where
  "utf8 s = concat (map utf8_char s)"

lemma byte_eq_iff: "(of_nat m :: 8 word) = of_nat n \<longleftrightarrow> m mod 256 = n mod 256"
  by (simp add: word_unat_eq_iff unat_of_nat)

lemma utf8_char_append_inject:
  assumes "utf8_char c @ r = utf8_char d @ s"
  shows "c = d \<and> r = s"
proof -
  define m n where "m = (of_char c :: nat)" and "n = (of_char d :: nat)"
  have lt: "m < 256" "n < 256" by (simp_all add: m_def n_def)
  have hi: "(192 + m div 64) mod 256 = 192 + m div 64" "(192 + n div 64) mod 256 = 192 + n div 64"
    "(128 + m mod 64) mod 256 = 128 + m mod 64" "(128 + n mod 64) mod 256 = 128 + n mod 64"
    using lt less_mult_imp_div_less [of m 4 64] less_mult_imp_div_less [of n 4 64]
      mod_less_divisor [of 64 m] mod_less_divisor [of 64 n] by (simp_all del: mod_less_divisor)
  have "m = n \<and> r = s"
  proof (cases "m < 128"; cases "n < 128")
    assume "m < 128" "n < 128"
    with assms show ?thesis by (simp add: utf8_char_def m_def [symmetric] n_def [symmetric] byte_eq_iff del: of_nat_add)
  next
    assume "m < 128" "\<not> n < 128"
    with assms have "m mod 256 = (192 + n div 64) mod 256"
      by (simp add: utf8_char_def m_def [symmetric] n_def [symmetric] byte_eq_iff del: of_nat_add)
    with lt \<open>m < 128\<close> show ?thesis unfolding hi by simp
  next
    assume "\<not> m < 128" "n < 128"
    with assms have "(192 + m div 64) mod 256 = n mod 256"
      by (simp add: utf8_char_def m_def [symmetric] n_def [symmetric] byte_eq_iff del: of_nat_add)
    with lt \<open>n < 128\<close> show ?thesis unfolding hi by simp
  next
    assume "\<not> m < 128" "\<not> n < 128"
    with assms have "(192 + m div 64) mod 256 = (192 + n div 64) mod 256"
      "(128 + m mod 64) mod 256 = (128 + n mod 64) mod 256" "r = s"
      by (simp_all add: utf8_char_def m_def [symmetric] n_def [symmetric] byte_eq_iff del: of_nat_add)
    then have "m div 64 = n div 64" "m mod 64 = n mod 64" "r = s" unfolding hi by simp_all
    then show ?thesis by (metis div_mult_mod_eq)
  qed
  then show ?thesis by (simp add: m_def n_def)
qed

lemma utf8_inject: "utf8 s = utf8 t \<longleftrightarrow> s = t"
proof
  show "utf8 s = utf8 t \<Longrightarrow> s = t"
  proof (induction s arbitrary: t)
    case Nil
    then show ?case by (cases t) (auto simp: utf8_def utf8_char_def Let_def split: if_splits)
  next
    case (Cons c s)
    then obtain d t' where t: "t = d # t'"
      by (cases t) (auto simp: utf8_def utf8_char_def Let_def split: if_splits)
    with Cons.prems have "c = d \<and> utf8 s = utf8 t'"
      by (intro utf8_char_append_inject) (simp add: utf8_def)
    with Cons.IH t show ?case by simp
  qed
qed simp

end
