(* ===== verification/Decimal.thy ===== *)
theory Decimal
  imports Json
begin

text \<open>
  Python's \<open>decimal.Decimal\<close> as the program uses it: a finite value is a sign, a non-negative
  coefficient and an exponent, so that \<open>as_tuple().exponent\<close> and the printed scale are kept; infinities
  and quiet NaN are separate values. Comparison and \<open>quantize\<close> are computed on scaled
  integers, under the default context (28 digits, ROUND_HALF_EVEN, InvalidOperation trapped).
\<close>

datatype decimal = Dec (neg: bool) (coeff: int) (expo: int) | DInf bool | DNaN

definition dec_finite :: "decimal \<Rightarrow> bool" where
  "dec_finite d = (case d of Dec _ _ _ \<Rightarrow> True | _ \<Rightarrow> False)"

definition signed :: "bool \<Rightarrow> int \<Rightarrow> int" where
  "signed s c = (if s then - c else c)"

text \<open>The value of a finite decimal times \<open>10 ^ k\<close>, for any \<open>k\<close> that makes it integral.\<close>

definition scaled :: "int \<Rightarrow> decimal \<Rightarrow> int" where
  "scaled k d = (case d of Dec s c e \<Rightarrow> signed s c * 10 ^ nat (e + k) | _ \<Rightarrow> 0)"

definition common_scale :: "decimal \<Rightarrow> decimal \<Rightarrow> int" where
  "common_scale a b =
     (case (a, b) of (Dec _ _ e, Dec _ _ f) \<Rightarrow> max 0 (max (- e) (- f)) | _ \<Rightarrow> 0)"

text \<open>
  Order on decimals. Ordering a NaN raises InvalidOperation, so a comparison is \<open>None\<close> there;
  \<open>==\<close> on a NaN is False and never raises.
\<close>

definition dec_cmp :: "(int \<Rightarrow> int \<Rightarrow> bool) \<Rightarrow> decimal \<Rightarrow> decimal \<Rightarrow> bool option" where
  "dec_cmp R a b = (case (a, b) of
       (DNaN, _) \<Rightarrow> None
     | (_, DNaN) \<Rightarrow> None
     | (DInf s, DInf t) \<Rightarrow> Some (R (if s then -1 else 1) (if t then -1 else 1))
     | (DInf s, Dec _ _ _) \<Rightarrow> Some (R (if s then -1 else 1) 0)
     | (Dec _ _ _, DInf t) \<Rightarrow> Some (R 0 (if t then -1 else 1))
     | (Dec _ _ _, Dec _ _ _) \<Rightarrow>
         (let k = common_scale a b in Some (R (scaled k a) (scaled k b))))"

definition dec_le :: "decimal \<Rightarrow> decimal \<Rightarrow> bool" where
  "dec_le a b = (dec_cmp (\<le>) a b = Some True)"

definition dec_lt :: "decimal \<Rightarrow> decimal \<Rightarrow> bool" where
  "dec_lt a b = (dec_cmp (<) a b = Some True)"

definition dec_eq :: "decimal \<Rightarrow> decimal \<Rightarrow> bool" where
  "dec_eq a b = (dec_cmp (=) a b = Some True)"

definition dec_zero :: decimal where "dec_zero = Dec False 0 0"
definition dec_one :: decimal where "dec_one = Dec False 1 0"

definition dec_of_int :: "int \<Rightarrow> decimal" where
  "dec_of_int i = Dec (i < 0) \<bar>i\<bar> 0"

subsection \<open>Rounding\<close>

definition div_half_even :: "int \<Rightarrow> int \<Rightarrow> int" where
  "div_half_even n d =
     (let q = n div d; r = n mod d in
      if 2 * r < d \<or> 2 * r = d \<and> even q then q else q + 1)"

definition prec_limit :: int where "prec_limit = 10 ^ 28"

text \<open>
  \<open>value.quantize(Decimal(1).scaleb(-k))\<close>: None where the result would need more than 28
  digits (InvalidOperation) and for an infinity; a NaN stays a NaN.
\<close>

definition quantize :: "nat \<Rightarrow> decimal \<Rightarrow> decimal option" where
  "quantize k d = (case d of
       DNaN \<Rightarrow> Some DNaN
     | DInf _ \<Rightarrow> None
     | Dec s c e \<Rightarrow>
         (let c' = (if - int k \<le> e then c * 10 ^ nat (e + int k)
                    else div_half_even c (10 ^ nat (- int k - e)))
          in if c' < prec_limit then Some (Dec s c' (- int k)) else None))"

text \<open>\<open>format(x, f".{k}f")\<close> of a value with exponent \<open>-k\<close>: at least \<open>k + 1\<close> digits, a point.\<close>

definition pad_left :: "nat \<Rightarrow> string \<Rightarrow> string" where
  "pad_left w s = replicate (w - length s) CHR ''0'' @ s"

definition fixed_str :: "nat \<Rightarrow> decimal \<Rightarrow> string" where
  "fixed_str k d = (case d of
       Dec s c _ \<Rightarrow>
         (let ds = pad_left (k + 1) (show_nat c); n = length ds - k in
          (if s then ''-'' else []) @ take n ds @ (if k = 0 then [] else ''.'' @ drop n ds))
     | DInf s \<Rightarrow> (if s then ''-Infinity'' else ''Infinity'')
     | DNaN \<Rightarrow> ''NaN'')"

subsection \<open>Lemmas\<close>

lemma dec_finite_simps [simp]:
  "dec_finite (Dec s c e)" "\<not> dec_finite (DInf s)" "\<not> dec_finite DNaN"
  by (simp_all add: dec_finite_def)

lemma scaled_shift:
  "0 \<le> e + k \<Longrightarrow> 0 \<le> j \<Longrightarrow> scaled (k + j) (Dec s c e) = scaled k (Dec s c e) * 10 ^ nat j"
  by (simp add: scaled_def nat_add_distrib power_add add.assoc [symmetric])

lemma dec_le_Dec:
  "dec_le (Dec s c e) (Dec t d f) \<longleftrightarrow>
     scaled (max 0 (max (- e) (- f))) (Dec s c e) \<le> scaled (max 0 (max (- e) (- f))) (Dec t d f)"
  by (simp add: dec_le_def dec_cmp_def common_scale_def Let_def)

lemma dec_lt_Dec:
  "dec_lt (Dec s c e) (Dec t d f) \<longleftrightarrow>
     scaled (max 0 (max (- e) (- f))) (Dec s c e) < scaled (max 0 (max (- e) (- f))) (Dec t d f)"
  by (simp add: dec_lt_def dec_cmp_def common_scale_def Let_def)

lemma dec_le_total: "dec_finite a \<Longrightarrow> dec_finite b \<Longrightarrow> dec_le a b \<or> dec_lt b a"
  by (cases a; cases b) (auto simp: dec_le_Dec dec_lt_Dec max.commute)

lemma div_half_even_le: "0 < d \<Longrightarrow> n \<le> m * d \<Longrightarrow> div_half_even n d \<le> m"
proof -
  assume d: "0 < d" and le: "n \<le> m * d"
  have split: "n = n div d * d + n mod d" "0 \<le> n mod d" using d by simp_all
  have "n div d \<le> m"
    using zdiv_mono1 [OF le d] d by simp
  moreover have "n mod d = 0" if "n div d = m"
    using split le unfolding that by linarith
  ultimately show ?thesis using d by (cases "n div d = m") (auto simp: div_half_even_def Let_def)
qed

lemma div_half_even_nonneg: "0 < d \<Longrightarrow> 0 \<le> n \<Longrightarrow> 0 \<le> div_half_even n d"
  by (simp add: div_half_even_def Let_def pos_imp_zdiv_nonneg_iff)

lemma quantize_exponent: "quantize k (Dec s c e) = Some q \<Longrightarrow> \<exists>c'. q = Dec s c' (- int k)"
  by (auto simp: quantize_def Let_def split: if_splits)


text \<open>The fixed-point text of a quantized value determines its sign and coefficient.\<close>

lemma read_pad_left [simp]: "read_nat (pad_left w s) = read_nat s"
proof -
  have "foldl (\<lambda>n c. 10 * n + int (digit_val c)) 0 (replicate k CHR ''0'') = 0" for k
    by (induction k) (simp_all add: digit_val_def)
  then show ?thesis by (simp add: pad_left_def read_nat_def)
qed

lemma pad_left_digits: "list_all is_digit s \<Longrightarrow> list_all is_digit (pad_left w s)"
  by (auto simp: pad_left_def list_all_iff is_digit_def less_eq_char_def)

lemma length_pad_left: "w \<le> length (pad_left w s)"
  by (simp add: pad_left_def)

theorem fixed_str_inject:
  assumes eq: "fixed_str k (Dec s c e) = fixed_str k (Dec t d f)" and nn: "0 \<le> c" "0 \<le> d" and k: "0 < k"
  shows "s = t \<and> c = d"
proof -
  define x y where "x = pad_left (k + 1) (show_nat c)" and "y = pad_left (k + 1) (show_nat d)"
  define bx where "bx z = take (length z - k) z @ CHR ''.'' # drop (length z - k) z" for z :: string
  have body: "fixed_str k (Dec s c e) = (if s then ''-'' else []) @ bx x"
    "fixed_str k (Dec t d f) = (if t then ''-'' else []) @ bx y"
    using k by (simp_all add: fixed_str_def Let_def bx_def x_def y_def)
  have lens: "k < length x" "k < length y"
    using length_pad_left [of "k + 1"] by (simp_all add: x_def y_def Suc_le_eq)
  have digs: "list_all is_digit x" "list_all is_digit y"
    using pad_left_digits show_nat_digits nn by (auto simp: x_def y_def)
  have nominus: "bx z \<noteq> CHR ''-'' # r" if "k < length z" "list_all is_digit z" for z r
    using that by (cases z; cases "length z - k") (auto simp: bx_def is_digit_def less_eq_char_def)
  have st: "s = t" and bxy: "bx x = bx y"
    using eq nominus [OF lens(1) digs(1)] nominus [OF lens(2) digs(2)] unfolding body
    by (auto split: if_splits) (metis append_Cons append_Nil)+
  have "length x = length y" using arg_cong [OF bxy, of length] lens by (simp add: bx_def)
  with bxy have "x = y" by (auto simp: bx_def) (metis append_take_drop_id)
  then have "read_nat (show_nat c) = read_nat (show_nat d)"
    unfolding x_def y_def by (metis read_pad_left)
  with nn st show ?thesis by (simp add: read_show_nat)
qed

end
