(* ===== verification/Calendar.thy ===== *)
theory Calendar
  imports Json
begin

text \<open>
  The proleptic Gregorian calendar of Python's \<open>datetime\<close>: day numbers (0 is 0001-01-01, a
  Monday), the civil date of a day number by the standard library's 400/100/4/1-year cycles,
  and the ISO text with second resolution that \<open>utc_z\<close> writes.
\<close>

definition leap_year :: "int \<Rightarrow> bool" where
  "leap_year y \<longleftrightarrow> y mod 4 = 0 \<and> (y mod 100 \<noteq> 0 \<or> y mod 400 = 0)"

definition days_before_year :: "int \<Rightarrow> int" where
  "days_before_year y = (let p = y - 1 in p * 365 + p div 4 - p div 100 + p div 400)"

definition month_lengths :: "bool \<Rightarrow> int list" where
  "month_lengths leap = [31, if leap then 29 else 28, 31, 30, 31, 30, 31, 31, 30, 31, 30, 31]"

text \<open>Month and day (both from 1) of a day of the year (from 0).\<close>

fun month_of_day :: "int list \<Rightarrow> int \<Rightarrow> int \<Rightarrow> int \<times> int" where
  "month_of_day [] m d = (m, d + 1)"
| "month_of_day (l # ls) m d = (if d < l \<or> ls = [] then (m, d + 1) else month_of_day ls (m + 1) (d - l))"

definition ord2ymd :: "int \<Rightarrow> int \<times> int \<times> int" where
  "ord2ymd d =
     (let n400 = d div 146097; a = d mod 146097;
          n100 = a div 36524; b = a mod 36524;
          n4 = b div 1461; c = b mod 1461;
          n1 = c div 365; e = c mod 365;
          year = n400 * 400 + 1 + n100 * 100 + n4 * 4 + n1
      in if n1 = 4 \<or> n100 = 4 then (year - 1, 12, 31)
         else let (m, day) = month_of_day (month_lengths (n1 = 3 \<and> (n4 \<noteq> 24 \<or> n100 = 3))) 1 e
              in (year, m, day))"

definition days_before_month :: "int \<Rightarrow> int \<Rightarrow> int" where
  "days_before_month y m = sum_list (take (nat (m - 1)) (month_lengths (leap_year y)))"

definition ymd2ord :: "int \<times> int \<times> int \<Rightarrow> int" where
  "ymd2ord x = (case x of (y, m, d) \<Rightarrow> days_before_year y + days_before_month y m + d - 1)"

definition weekday :: "int \<Rightarrow> int" where "weekday d = d mod 7"

definition two_digits :: "int \<Rightarrow> string" where
  "two_digits n = (let s = show_nat n in replicate (2 - length s) CHR ''0'' @ s)"

definition four_digits :: "int \<Rightarrow> string" where
  "four_digits n = (let s = show_nat n in replicate (4 - length s) CHR ''0'' @ s)"

definition iso_seconds :: "instant \<Rightarrow> string" where
  "iso_seconds t =
     (let (y, m, d) = ord2ymd (t div usec_per_day); s = (t mod usec_per_day) div usec_per_second
      in four_digits y @ ''-'' @ two_digits m @ ''-'' @ two_digits d @ ''T''
         @ two_digits (s div 3600) @ '':'' @ two_digits (s div 60 mod 60) @ '':''
         @ two_digits (s mod 60))"

lemma mod_mult_div: "0 < b \<Longrightarrow> 0 < a \<Longrightarrow> x mod (a * b) div a = x div a mod b" for x a b :: int
  by (simp add: zmod_zmult2_eq)

lemma day_of_second: "x div usec_per_day = x div usec_per_second div 86400" for x :: int
  by (simp add: usec_defs zdiv_zmult2_eq [symmetric])

lemma second_of_day:
  "(x mod usec_per_day) div usec_per_second = x div usec_per_second mod 86400" for x :: int
proof -
  have "usec_per_day = usec_per_second * 86400" by (simp add: usec_defs)
  then show ?thesis
    using mod_mult_div [of 86400 usec_per_second x] by (simp add: usec_per_second_def)
qed

lemma iso_seconds_same_second:
  assumes "t div usec_per_second = t' div usec_per_second"
  shows "iso_seconds t = iso_seconds t'"
  using assms by (simp add: iso_seconds_def day_of_second second_of_day)


subsection \<open>The date of a day determines the day\<close>

lemma month_of_day_sum:
  assumes "0 \<le> e" "ls \<noteq> []" "month_of_day ls m e = (m', d)"
  shows "sum_list (take (nat (m' - m)) ls) + d - 1 = e \<and> m \<le> m' \<and> 1 \<le> d"
  using assms
proof (induction ls m e rule: month_of_day.induct)
  case (2 l ls m e)
  show ?case
  proof (cases "e < l \<or> ls = []")
    case True
    with 2 show ?thesis by auto
  next
    case False
    with 2 have IH: "sum_list (take (nat (m' - (m + 1))) ls) + d - 1 = e - l \<and> m + 1 \<le> m' \<and> 1 \<le> d"
      by auto
    then have "nat (m' - m) = Suc (nat (m' - (m + 1)))" by linarith
    with IH show ?thesis by auto
  qed
qed simp

lemma month_of_day_bounds:
  assumes "0 \<le> e" "e < sum_list ls" "\<forall>l \<in> set ls. l \<le> 31"
    "month_of_day ls m e = (m', d)"
  shows "m \<le> m' \<and> m' < m + int (length ls) \<and> 1 \<le> d \<and> d \<le> 31"
  using assms
proof (induction ls m e rule: month_of_day.induct)
  case (2 l ls m e)
  then show ?case by (cases "e < l"; cases "ls = []") auto
qed simp

text \<open>The year part: the four cycle counts and the leap flag of the year they give.\<close>

lemma year_cycles:
  fixes a b c e q :: int
  assumes "0 \<le> a" "a \<le> 3" "0 \<le> b" "b \<le> 24" "0 \<le> c" "c \<le> 3"
  shows "days_before_year (q * 400 + 1 + a * 100 + b * 4 + c) = q * 146097 + a * 36524 + b * 1461 + c * 365"
    and "leap_year (q * 400 + 1 + a * 100 + b * 4 + c) \<longleftrightarrow> c = 3 \<and> (b \<noteq> 24 \<or> a = 3)"
proof -
  define y where "y = q * 400 + a * 100 + b * 4 + c"
  have "y div 4 = q * 100 + a * 25 + b" using assms by (simp add: y_def)
  moreover have "y div 100 = q * 4 + a" using assms by (simp add: y_def)
  moreover have "y div 400 = q" using assms by (simp add: y_def)
  ultimately show "days_before_year (q * 400 + 1 + a * 100 + b * 4 + c)
      = q * 146097 + a * 36524 + b * 1461 + c * 365"
    using assms by (simp add: days_before_year_def Let_def y_def algebra_simps)
  have red: "(y + 1) mod 4 = (c + 1) mod 4" "(y + 1) mod 100 = (b * 4 + c + 1) mod 100"
    "(y + 1) mod 400 = (a * 100 + b * 4 + c + 1) mod 400"
    using mod_mult_self1 [of "c + 1" "q * 100 + a * 25 + b" 4]
      mod_mult_self1 [of "b * 4 + c + 1" "q * 4 + a" 100]
      mod_mult_self1 [of "a * 100 + b * 4 + c + 1" q 400]
    by (simp_all add: y_def algebra_simps)
  have zero: "x mod m = 0 \<longleftrightarrow> x = m" if "0 < x" "x \<le> m" for x m :: int
    using that by (cases "x = m") simp_all
  have four: "(y + 1) mod 4 = 0 \<longleftrightarrow> c = 3"
    unfolding red by (subst zero) (use assms in auto)
  have "(y + 1) mod 100 = 0 \<longleftrightarrow> b = 24 \<and> c = 3"
    unfolding red by (subst zero) (use assms in presburger)+
  moreover have "(y + 1) mod 400 = 0 \<longleftrightarrow> a = 3 \<and> b = 24 \<and> c = 3"
    unfolding red by (subst zero) (use assms in presburger)+
  moreover have eq: "q * 400 + 1 + a * 100 + b * 4 + c = y + 1" by (simp add: y_def)
  ultimately show "leap_year (q * 400 + 1 + a * 100 + b * 4 + c) \<longleftrightarrow> c = 3 \<and> (b \<noteq> 24 \<or> a = 3)"
    unfolding leap_year_def eq using four by auto
qed

theorem ymd2ord_ord2ymd: "ymd2ord (ord2ymd n) = n"
proof -
  define q a b c d where "q = n div 146097" and "a = n mod 146097" and "b = a div 36524"
    and "c = a mod 36524" and "d = c div 1461"
  define e where "e = c mod 1461"
  define f g where "f = e div 365" and "g = e mod 365"
  have n: "n = q * 146097 + b * 36524 + d * 1461 + f * 365 + g"
    by (simp add: q_def a_def b_def c_def d_def e_def f_def g_def)
  have a: "0 \<le> a" "a \<le> 146096" by (simp_all add: a_def)
  have b: "0 \<le> b" "b \<le> 4" using a by (simp_all add: b_def)
  have c: "0 \<le> c" "c < 36524" by (simp_all add: c_def)
  have d: "0 \<le> d" "d \<le> 24" using c by (simp_all add: d_def)
  have e: "0 \<le> e" "e < 1461" by (simp_all add: e_def)
  have f: "0 \<le> f" "f \<le> 4" using e by (simp_all add: f_def)
  have g: "0 \<le> g" "g < 365" by (simp_all add: g_def)
  define y where "y = q * 400 + 1 + b * 100 + d * 4 + f"
  show ?thesis
  proof (cases "f = 4 \<or> b = 4")
    case True
    have res: "ord2ymd n = (y - 1, 12, 31)"
      using True unfolding ord2ymd_def Let_def q_def a_def b_def c_def d_def e_def f_def y_def by simp
    show ?thesis
    proof (cases "b = 4")
      case b4: True
      have "c = 0" using a b4 unfolding b_def c_def by (simp add: minus_div_mult_eq_mod [symmetric])
      then have "d = 0" "e = 0" "f = 0" "g = 0" by (simp_all add: d_def e_def f_def g_def)
      with b4 res n y_def year_cycles [of 3 24 3 q] show ?thesis
        by (simp add: ymd2ord_def days_before_month_def month_lengths_def)
    next
      case False
      with True b have f4: "f = 4" "b \<le> 3" by auto
      have "g = 0" using e f4 unfolding f_def g_def by (simp add: minus_div_mult_eq_mod [symmetric])
      moreover have "d \<noteq> 24"
      proof
        assume "d = 24"
        then have "c = 24 * 1461 + e" using div_mult_mod_eq [of c 1461] by (simp add: d_def e_def)
        with c have "e < 1460" by simp
        with e f4 show False by (simp add: f_def)
      qed
      ultimately show ?thesis
        using f4 b d res n y_def year_cycles [of b d 3 q] c e
        by (auto simp: ymd2ord_def days_before_month_def month_lengths_def d_def e_def)
    qed
  next
    case False
    with b f have bf: "b \<le> 3" "f \<le> 3" by auto
    obtain m k where mk: "month_of_day (month_lengths (f = 3 \<and> (d \<noteq> 24 \<or> b = 3))) 1 g = (m, k)"
      by fastforce
    have res: "ord2ymd n = (y, m, k)"
      using False mk unfolding ord2ymd_def Let_def q_def a_def b_def c_def d_def e_def f_def g_def y_def
      by simp
    have "sum_list (take (nat (m - 1)) (month_lengths (leap_year y))) + k - 1 = g"
      using month_of_day_sum [OF _ _ mk] g year_cycles(2) [of b d f q] b d f bf
      by (simp add: y_def month_lengths_def)
    then show ?thesis
      using res n year_cycles(1) [of b d f q] b d f bf
      by (simp add: ymd2ord_def days_before_month_def y_def)
  qed
qed

lemma ord2ymd_inject: "ord2ymd m = ord2ymd n \<longleftrightarrow> m = n"
  by (metis ymd2ord_ord2ymd)

lemma ord2ymd_ranges:
  assumes "ord2ymd n = (y, m, d)"
  shows "1 \<le> m \<and> m \<le> 12 \<and> 1 \<le> d \<and> d \<le> 31"
proof -
  define e :: int where "e = (n mod 146097) mod 36524 mod 1461 mod 365"
  have e: "0 \<le> e" "e < 365" by (simp_all add: e_def)
  have "1 \<le> m' \<and> m' \<le> 12 \<and> 1 \<le> d' \<and> d' \<le> 31"
    if "month_of_day (month_lengths leap) 1 e = (m', d')" for leap m' d'
    using month_of_day_bounds [OF _ _ _ that] e
    by (cases leap) (auto simp: month_lengths_def)
  then show ?thesis
    using assms unfolding ord2ymd_def Let_def e_def [symmetric] by (auto split: if_splits prod.splits)
qed

text \<open>The day numbers of the years 1 to 9999, which are all that a Python date can hold.\<close>

definition in_date_range :: "instant \<Rightarrow> bool" where
  "in_date_range t \<longleftrightarrow> 0 \<le> t \<and> t < 3652059 * usec_per_day"

lemma ord2ymd_year:
  assumes "0 \<le> n" "n < 3652059" "ord2ymd n = (y, m, d)"
  shows "0 \<le> y \<and> y < 10000"
proof -
  define q a b c dd f :: int where "q = n div 146097" and "a = n mod 146097" and "b = a div 36524"
    and "c = a mod 36524" and "dd = c div 1461" and "f = c mod 1461 div 365"
  have "y = q * 400 + 1 + b * 100 + dd * 4 + f \<and> \<not> (f = 4 \<or> b = 4)
      \<or> y = q * 400 + b * 100 + dd * 4 + f \<and> (f = 4 \<or> b = 4)"
    using assms(3) unfolding ord2ymd_def Let_def q_def a_def b_def c_def dd_def f_def
    by (auto split: if_splits prod.splits)
  moreover have "0 \<le> q" "q \<le> 24" using assms by (simp_all add: q_def)
  moreover have "0 \<le> b" "b \<le> 4" by (simp_all add: b_def a_def)
  moreover have "0 \<le> dd" "dd \<le> 24" "0 \<le> f" "f \<le> 4" by (simp_all add: dd_def c_def f_def)
  moreover have "b < 4 \<or> dd = 0 \<and> f = 0"
  proof -
    have "c = 0" if "b = 4"
    proof -
      have "a < 146097" "a = b * 36524 + c" by (simp_all add: a_def b_def c_def)
      moreover have "0 \<le> c" by (simp add: c_def)
      ultimately show ?thesis using that by simp
    qed
    then show ?thesis using \<open>b \<le> 4\<close> by (cases "b = 4") (simp_all add: dd_def f_def)
  qed
  moreover have "f < 4 \<or> dd < 24"
  proof -
    have "c = dd * 1461 + c mod 1461" by (simp add: dd_def)
    moreover have "c < 36524" by (simp add: c_def)
    ultimately have "c mod 1461 < 1460" if "dd = 24" using that by simp
    then have "f < 4" if "dd = 24" using that by (simp add: f_def)
    then show ?thesis using \<open>dd \<le> 24\<close> by linarith
  qed
  moreover have "q * 146097 + b * 36524 + dd * 1461 + f * 365 \<le> n"
  proof -
    have "n = q * 146097 + a" "a = b * 36524 + c" "c = dd * 1461 + c mod 1461"
      "c mod 1461 = f * 365 + c mod 1461 mod 365" "0 \<le> c mod 1461 mod 365"
      by (simp_all add: q_def a_def b_def c_def dd_def f_def)
    then show ?thesis by (metis add.assoc add_left_mono le_add_same_cancel1)
  qed
  ultimately show ?thesis using assms(1,2) by (elim disjE conjE) simp_all
qed

lemma read_nat_zeros [simp]: "read_nat (replicate k CHR ''0'' @ s) = read_nat s"
proof -
  have "foldl (\<lambda>n c. 10 * n + int (digit_val c)) 0 (replicate k CHR ''0'') = 0"
    by (induction k) (simp_all add: digit_val_def)
  then show ?thesis by (simp add: read_nat_def)
qed

lemma read_two_digits: "0 \<le> n \<Longrightarrow> read_nat (two_digits n) = n"
  by (simp add: two_digits_def Let_def read_show_nat)

lemma read_four_digits: "0 \<le> n \<Longrightarrow> read_nat (four_digits n) = n"
  by (simp add: four_digits_def Let_def read_show_nat)

lemma length_show_nat: "0 \<le> n \<Longrightarrow> n < 10 ^ Suc k \<Longrightarrow> length (show_nat n) \<le> Suc k"
proof (induction k arbitrary: n)
  case 0
  then show ?case by (simp add: show_nat.simps [of n])
next
  case (Suc k)
  then have "0 \<le> n div 10" "n div 10 < 10 ^ Suc k" by (simp_all add: div_less_iff_less_mult)
  then show ?case using Suc.IH [of "n div 10"] by (simp add: show_nat.simps [of n])
qed

lemma length_two_digits: "0 \<le> n \<Longrightarrow> n < 100 \<Longrightarrow> length (two_digits n) = 2"
  using length_show_nat [of n 1] by (simp add: two_digits_def Let_def)

lemma length_four_digits: "0 \<le> n \<Longrightarrow> n < 10000 \<Longrightarrow> length (four_digits n) = 4"
  using length_show_nat [of n 3] by (simp add: four_digits_def Let_def)

lemma two_digits_append_inject:
  assumes "two_digits m @ r = two_digits n @ s" "0 \<le> m" "m < 100" "0 \<le> n" "n < 100"
  shows "m = n \<and> r = s"
  using assms prefix_cancel [of "two_digits m" "two_digits n"] length_two_digits read_two_digits by metis

lemma four_digits_append_inject:
  assumes "four_digits m @ r = four_digits n @ s" "0 \<le> m" "m < 10000" "0 \<le> n" "n < 10000"
  shows "m = n \<and> r = s"
  using assms prefix_cancel [of "four_digits m" "four_digits n"] length_four_digits read_four_digits by metis

lemma seconds_hms: "x = x div 3600 * 3600 + x div 60 mod 60 * 60 + x mod 60" for x :: int
proof -
  have A: "x div 3600 = x div 60 div 60" using zdiv_zmult2_eq [of 60 x 60] by simp
  have gen: "z = A * 3600 + m * 60 + r" if "A = a" "k = a * 60 + m" "z = k * 60 + r"
    for A a k m r z :: int
    using that by simp
  show ?thesis by (rule gen [OF A]) (rule div_mult_mod_eq [symmetric])+
qed

text \<open>The ISO text with seconds identifies the second.\<close>

theorem iso_seconds_inject:
  assumes "in_date_range t" "in_date_range u"
  shows "iso_seconds t = iso_seconds u \<longleftrightarrow> t div usec_per_second = u div usec_per_second"
proof
  assume eq: "iso_seconds t = iso_seconds u"
  define n k where "n = t div usec_per_day" and "k = u div usec_per_day"
  define s v where "s = t div usec_per_second mod 86400" and "v = u div usec_per_second mod 86400"
  obtain y m d where ymd: "ord2ymd n = (y, m, d)" by (cases "ord2ymd n") auto
  obtain y' m' d' where ymd': "ord2ymd k = (y', m', d')" by (cases "ord2ymd k") auto
  have nk: "0 \<le> n" "n < 3652059" "0 \<le> k" "k < 3652059"
    using assms by (auto simp: in_date_range_def n_def k_def usec_defs pos_imp_zdiv_nonneg_iff)
  note r = ord2ymd_ranges [OF ymd] ord2ymd_ranges [OF ymd'] ord2ymd_year [OF nk(1,2) ymd]
    ord2ymd_year [OF nk(3,4) ymd']
  have sv: "0 \<le> s" "s < 86400" "0 \<le> v" "v < 86400" by (simp_all add: s_def v_def)
  then have h: "0 \<le> s div 3600" "s div 3600 < 100" "0 \<le> v div 3600" "v div 3600 < 100"
    "0 \<le> s div 60 mod 60" "s div 60 mod 60 < 100" "0 \<le> v div 60 mod 60" "v div 60 mod 60 < 100"
    "0 \<le> s mod 60" "s mod 60 < 100" "0 \<le> v mod 60" "v mod 60 < 100"
    by (auto intro: less_trans [OF pos_mod_bound])
  have e1: "four_digits y @ ''-'' @ two_digits m @ ''-'' @ two_digits d @ ''T''
         @ two_digits (s div 3600) @ '':'' @ two_digits (s div 60 mod 60) @ '':'' @ two_digits (s mod 60) @ []
      = four_digits y' @ ''-'' @ two_digits m' @ ''-'' @ two_digits d' @ ''T''
         @ two_digits (v div 3600) @ '':'' @ two_digits (v div 60 mod 60) @ '':'' @ two_digits (v mod 60) @ []"
    using eq ymd ymd' by (simp add: iso_seconds_def n_def k_def s_def v_def second_of_day Let_def)
  note e2 = four_digits_append_inject [OF e1]
  have e3: "y = y' \<and> two_digits m @ ''-'' @ two_digits d @ ''T''
         @ two_digits (s div 3600) @ '':'' @ two_digits (s div 60 mod 60) @ '':'' @ two_digits (s mod 60) @ []
      = two_digits m' @ ''-'' @ two_digits d' @ ''T''
         @ two_digits (v div 3600) @ '':'' @ two_digits (v div 60 mod 60) @ '':'' @ two_digits (v mod 60) @ []"
    using e2 r by simp
  have e4: "m = m' \<and> two_digits d @ ''T''
         @ two_digits (s div 3600) @ '':'' @ two_digits (s div 60 mod 60) @ '':'' @ two_digits (s mod 60) @ []
      = two_digits d' @ ''T''
         @ two_digits (v div 3600) @ '':'' @ two_digits (v div 60 mod 60) @ '':'' @ two_digits (v mod 60) @ []"
    using two_digits_append_inject [OF conjunct2 [OF e3]] r by simp
  have e5: "d = d' \<and> two_digits (s div 3600) @ '':'' @ two_digits (s div 60 mod 60) @ '':'' @ two_digits (s mod 60) @ []
      = two_digits (v div 3600) @ '':'' @ two_digits (v div 60 mod 60) @ '':'' @ two_digits (v mod 60) @ []"
    using two_digits_append_inject [OF conjunct2 [OF e4]] r by simp
  have e6: "s div 3600 = v div 3600 \<and> two_digits (s div 60 mod 60) @ '':'' @ two_digits (s mod 60) @ []
      = two_digits (v div 60 mod 60) @ '':'' @ two_digits (v mod 60) @ []"
    using two_digits_append_inject [OF conjunct2 [OF e5] h(1-4)]
    by (simp only: append_Cons append_Nil list.inject simp_thms)
  have e7: "s div 60 mod 60 = v div 60 mod 60 \<and> two_digits (s mod 60) @ [] = two_digits (v mod 60) @ []"
    using two_digits_append_inject [OF conjunct2 [OF e6] h(5-8)]
    by (simp only: append_Cons append_Nil list.inject simp_thms)
  have e8: "s mod 60 = v mod 60" by (rule conjunct1 [OF two_digits_append_inject [OF conjunct2 [OF e7] h(9-12)]])
  have "s = v" using seconds_hms [of s] seconds_hms [of v] e6 e7 e8 by metis
  moreover have "n = k" using e3 e4 e5 ymd ymd' ord2ymd_inject [of n k] by simp
  moreover have "x = x div 86400 * 86400 + x mod 86400" for x :: int by simp
  ultimately show "t div usec_per_second = u div usec_per_second"
    unfolding n_def k_def s_def v_def day_of_second by metis
qed (rule iso_seconds_same_second)

end
