(* ===== verification/Op_Contracts.thy ===== *)
theory Op_Contracts
  imports Decimal Calendar
begin

text \<open>
  The immutable contracts of \<open>src/commerce_agent/operations/contracts.py\<close> and its error
  classes (\<open>errors.py\<close>). A frozen pydantic class is a record, and \<open>valid_<class>\<close> is the
  conjunction of its field constraints and validators: pydantic raises ValidationError exactly
  when it is false. Instants are already known to be aware (\<open>require_aware\<close> is the shared
  validator that enforces it); the one contract that looks at wall-clock fields, the backtest
  request, keeps the wall time and the offset.
\<close>

subsection \<open>Errors\<close>

datatype error_class =
    OperationContractError
  | OperationAuthorizationError
  | ApprovalError
  | OperationConflictError
  | OperationInfrastructureError
  | OperationOutcomeUnknown

datatype op_error =
    OpError (err_class: error_class) (reason_code: string) (retryable: bool)
  | ValidationError
  | ValueError
  | KeyError
  | TypeError
  | OverflowError
  | InvalidOperation

text \<open>\<open>OperationError.__init__\<close>: a reason code of the wrong shape is itself a ValueError.
  \<open>ValidationError\<close> is pydantic's; \<open>KeyError\<close> is the exception of a dict lookup that finds
  nothing, \<open>InvalidOperation\<close> that of a decimal operation out of its range.\<close>

definition operation_error :: "error_class \<Rightarrow> string \<Rightarrow> bool \<Rightarrow> op_error" where
  "operation_error c code retry =
     (if reason_code_ok code then OpError c code retry else ValueError)"

abbreviation contract_error :: "string \<Rightarrow> op_error" where
  "contract_error code \<equiv> OpError OperationContractError code False"
abbreviation authorization_error :: "string \<Rightarrow> op_error" where
  "authorization_error code \<equiv> OpError OperationAuthorizationError code False"
abbreviation approval_error :: "string \<Rightarrow> op_error" where
  "approval_error code \<equiv> OpError ApprovalError code False"
abbreviation conflict_error :: "string \<Rightarrow> op_error" where
  "conflict_error code \<equiv> OpError OperationConflictError code False"

definition require_aware :: "py_datetime \<Rightarrow> op_error + instant" where
  "require_aware v = (case v of Naive _ \<Rightarrow> Inl ValueError | Aware w off \<Rightarrow> Inr (w - off))"

subsection \<open>Enumerations\<close>

datatype actor_role = ANALYST | APPROVER | DATA_ADMIN

datatype proposal_status = PENDING | APPROVED | REJECTED | EXPIRED | SUPERSEDED

datatype execution_status = NOT_STARTED | SUCCEEDED | FAILED_RETRYABLE | FAILED_FINAL

datatype investigation_status = OPEN | IN_PROGRESS | BLOCKED | RESOLVED | CLOSED

datatype risk_disposition = CONFIRMED | DISMISSED | INCONCLUSIVE

datatype alert_metric = LATE_DELIVERY_RATE | LOW_RATING_RATE | CANCELLATION_RATE

datatype calendar_window = WEEK | MONTH

datatype alert_comparator = GREATER_THAN | GREATER_THAN_OR_EQUAL

text \<open>The \<open>.value\<close> of each enumeration member.\<close>

fun investigation_status_value :: "investigation_status \<Rightarrow> string" where
  "investigation_status_value OPEN = ''open''"
| "investigation_status_value IN_PROGRESS = ''in_progress''"
| "investigation_status_value BLOCKED = ''blocked''"
| "investigation_status_value RESOLVED = ''resolved''"
| "investigation_status_value CLOSED = ''closed''"

fun risk_disposition_value :: "risk_disposition \<Rightarrow> string" where
  "risk_disposition_value CONFIRMED = ''confirmed''"
| "risk_disposition_value DISMISSED = ''dismissed''"
| "risk_disposition_value INCONCLUSIVE = ''inconclusive''"

fun alert_metric_value :: "alert_metric \<Rightarrow> string" where
  "alert_metric_value LATE_DELIVERY_RATE = ''late_delivery_rate''"
| "alert_metric_value LOW_RATING_RATE = ''low_rating_rate''"
| "alert_metric_value CANCELLATION_RATE = ''cancellation_rate''"

fun calendar_window_value :: "calendar_window \<Rightarrow> string" where
  "calendar_window_value WEEK = ''week''"
| "calendar_window_value MONTH = ''month''"

fun alert_comparator_value :: "alert_comparator \<Rightarrow> string" where
  "alert_comparator_value GREATER_THAN = ''greater_than''"
| "alert_comparator_value GREATER_THAN_OR_EQUAL = ''greater_than_or_equal''"

subsection \<open>Actors and references\<close>

record actor_context =
  actor_id :: uuid
  role :: actor_role
  authentication_ref :: string
  authenticated_at :: instant

definition valid_actor_context :: "actor_context \<Rightarrow> bool" where [contract_defs]:
  "valid_actor_context a \<longleftrightarrow> len_ok 1 256 (authentication_ref a)"

record evidence_ref =
  ev_kind :: string
  ev_ref :: string
  ev_digest :: string

definition valid_evidence_ref :: "evidence_ref \<Rightarrow> bool" where [contract_defs]:
  "valid_evidence_ref e \<longleftrightarrow>
     ident_ok is_lower ref_char 1 63 (ev_kind e) \<and> len_ok 1 256 (ev_ref e) \<and> hex64 (ev_digest e)"

record proposal_ref =
  proposal_id :: uuid
  pr_version :: int

definition valid_proposal_ref :: "proposal_ref \<Rightarrow> bool" where [contract_defs]:
  "valid_proposal_ref r \<longleftrightarrow> 1 \<le> pr_version r"

record metric_ref =
  mr_name :: string
  mr_revision :: string

definition valid_metric_ref :: "metric_ref \<Rightarrow> bool" where [contract_defs]:
  "valid_metric_ref m \<longleftrightarrow>
     ident_ok is_lower ref_char 2 127 (mr_name m) \<and> len_ok 1 128 (mr_revision m)"

record seller_ref =
  sr_namespace :: string
  sr_token :: string

definition valid_seller_ref :: "seller_ref \<Rightarrow> bool" where [contract_defs]:
  "valid_seller_ref s \<longleftrightarrow>
     sr_namespace s = ''product:seller-target'' \<and> len_ok 8 4096 (sr_token s)"

record investigation_task_ref =
  tr_task_id :: uuid
  tr_version :: int

definition valid_investigation_task_ref :: "investigation_task_ref \<Rightarrow> bool" where [contract_defs]:
  "valid_investigation_task_ref t \<longleftrightarrow> 0 \<le> tr_version t"

record alert_backtest_ref =
  backtest_id :: uuid
  rule_spec_digest :: string

definition valid_alert_backtest_ref :: "alert_backtest_ref \<Rightarrow> bool" where [contract_defs]:
  "valid_alert_backtest_ref b \<longleftrightarrow> hex64 (rule_spec_digest b)"

record alert_hit_ref =
  hit_id :: uuid
  hit_digest :: string

definition valid_alert_hit_ref :: "alert_hit_ref \<Rightarrow> bool" where [contract_defs]:
  "valid_alert_hit_ref h \<longleftrightarrow> hex64 (hit_digest h)"

subsection \<open>Decimal fields\<close>

text \<open>
  \<open>Field(ge=0, le=1, allow_inf_nan=False, decimal_places=6)\<close>. Pydantic does not count
  trailing zeros as decimal places.
\<close>

definition fits_places :: "nat \<Rightarrow> decimal \<Rightarrow> bool" where
  "fits_places k d = (case d of
       Dec s c e \<Rightarrow> - int k \<le> e \<or> c mod 10 ^ nat (- int k - e) = 0
     | _ \<Rightarrow> False)"

definition ratio6 :: "decimal \<Rightarrow> bool" where
  "ratio6 d \<longleftrightarrow> dec_finite d \<and> dec_le dec_zero d \<and> dec_le d dec_one \<and> fits_places 6 d"

subsection \<open>Seller targeting\<close>

record seller_target_request =
  st_metric_ref :: metric_ref
  st_observation_started_at :: instant
  st_observation_ended_at :: instant
  st_anomaly_threshold :: decimal
  st_minimum_denominator :: int
  st_status_filters :: "string list"
  st_evidence_digest :: string

definition valid_seller_target_request :: "seller_target_request \<Rightarrow> bool" where [contract_defs]:
  "valid_seller_target_request r \<longleftrightarrow>
     valid_metric_ref (st_metric_ref r) \<and> ratio6 (st_anomaly_threshold r)
     \<and> 0 < st_minimum_denominator r \<and> st_minimum_denominator r \<le> 1000000000
     \<and> len_ok 1 16 (st_status_filters r) \<and> hex64 (st_evidence_digest r)
     \<and> st_observation_started_at r < st_observation_ended_at r
     \<and> distinct (st_status_filters r)"

record seller_candidate_evidence =
  sc_seller_ref :: seller_ref
  sc_numerator :: int
  sc_denominator :: int
  sc_normalized_value :: decimal
  sc_observation_started_at :: instant
  sc_observation_ended_at :: instant
  sc_evidence_digest :: string

definition valid_seller_candidate_evidence :: "seller_candidate_evidence \<Rightarrow> bool" where [contract_defs]:
  "valid_seller_candidate_evidence s \<longleftrightarrow>
     valid_seller_ref (sc_seller_ref s) \<and> 0 \<le> sc_numerator s \<and> 0 < sc_denominator s
     \<and> ratio6 (sc_normalized_value s) \<and> hex64 (sc_evidence_digest s)"

subsection \<open>Alert backtests\<close>

record alert_backtest_request =
  ab_metric :: alert_metric
  ab_metric_revision :: string
  ab_grain :: string
  ab_window :: calendar_window
  ab_comparator :: alert_comparator
  ab_threshold :: decimal
  ab_minimum_denominator :: int
  ab_started_at :: py_datetime
  ab_ended_at :: py_datetime
  ab_filter_refs :: "string list"

definition to_instant :: "py_datetime \<Rightarrow> instant" where
  "to_instant t = (case t of Naive w \<Rightarrow> w | Aware w off \<Rightarrow> w - off)"

definition is_aware :: "py_datetime \<Rightarrow> bool" where
  "is_aware t = (case t of Naive _ \<Rightarrow> False | Aware _ _ \<Rightarrow> True)"

definition wall_time :: "py_datetime \<Rightarrow> int" where
  "wall_time t = (case t of Naive w \<Rightarrow> w | Aware w _ \<Rightarrow> w)"

text \<open>One boundary of \<open>validate_calendar_range\<close>: midnight, and the first day of its window.\<close>

definition boundary_ok :: "calendar_window \<Rightarrow> py_datetime \<Rightarrow> bool" where
  "boundary_ok w t \<longleftrightarrow>
     wall_time t mod usec_per_day = 0
     \<and> (w = MONTH \<longrightarrow> snd (snd (ord2ymd (wall_time t div usec_per_day))) = 1)
     \<and> (w = WEEK \<longrightarrow> weekday (wall_time t div usec_per_day) = 0)"

definition valid_alert_backtest_request :: "alert_backtest_request \<Rightarrow> bool" where [contract_defs]:
  "valid_alert_backtest_request r \<longleftrightarrow>
     len_ok 1 128 (ab_metric_revision r) \<and> ident_ok is_lower code_char 1 63 (ab_grain r)
     \<and> ratio6 (ab_threshold r)
     \<and> 0 < ab_minimum_denominator r \<and> ab_minimum_denominator r \<le> 1000000000
     \<and> is_aware (ab_started_at r) \<and> is_aware (ab_ended_at r)
     \<and> length (ab_filter_refs r) \<le> 32
     \<and> to_instant (ab_started_at r) < to_instant (ab_ended_at r)
     \<and> to_instant (ab_ended_at r) - to_instant (ab_started_at r) \<le> 366 * usec_per_day
     \<and> boundary_ok (ab_window r) (ab_started_at r) \<and> boundary_ok (ab_window r) (ab_ended_at r)
     \<and> distinct (ab_filter_refs r)
     \<and> list_all (\<lambda>i. i \<noteq> [] \<and> length i \<le> 256) (ab_filter_refs r)"

datatype excluded_reason = ZeroDenominator | BelowMinimumDenominator | IncompleteWindow

record alert_window_result =
  aw_window_started_at :: instant
  aw_window_ended_at :: instant
  aw_numerator :: int
  aw_denominator :: int
  aw_normalized_value :: "decimal option"
  aw_complete :: bool
  aw_excluded_reason :: "excluded_reason option"
  aw_hit :: bool

definition valid_alert_window_result :: "alert_window_result \<Rightarrow> bool" where [contract_defs]:
  "valid_alert_window_result w \<longleftrightarrow>
     0 \<le> aw_numerator w \<and> 0 \<le> aw_denominator w
     \<and> (case aw_normalized_value w of None \<Rightarrow> True | Some d \<Rightarrow> ratio6 d)"

record alert_backtest_snapshot =
  as_backtest_ref :: alert_backtest_ref
  as_request :: alert_backtest_request
  as_windows :: "alert_window_result list"
  as_completed_at :: py_datetime

definition valid_alert_backtest_snapshot :: "alert_backtest_snapshot \<Rightarrow> bool" where [contract_defs]:
  "valid_alert_backtest_snapshot s \<longleftrightarrow>
     valid_alert_backtest_ref (as_backtest_ref s) \<and> valid_alert_backtest_request (as_request s)
     \<and> list_all valid_alert_window_result (as_windows s) \<and> is_aware (as_completed_at s)"

subsection \<open>Proposals, grants and receipts\<close>

text \<open>
  \<open>dict[str, int]\<close> is an association list with distinct keys; Python compares dicts without
  regard to insertion order.
\<close>

type_synonym target_versions = "(string \<times> int) list"

definition dict_eq :: "('k \<times> 'v) list \<Rightarrow> ('k \<times> 'v) list \<Rightarrow> bool" where
  "dict_eq xs ys \<longleftrightarrow> set xs = set ys"

definition valid_target_versions :: "target_versions \<Rightarrow> bool" where [contract_defs]:
  "valid_target_versions v \<longleftrightarrow> distinct (map fst v) \<and> len_ok 1 8 v"

record command_preview =
  cp_command_type :: string
  cp_title :: string
  cp_public_summary :: string
  cp_target_versions :: target_versions
  cp_affected_rows :: int

definition valid_command_preview :: "command_preview \<Rightarrow> bool" where [contract_defs]:
  "valid_command_preview p \<longleftrightarrow>
     reason_code_ok (cp_command_type p) \<and> len_ok 1 200 (cp_title p)
     \<and> len_ok 1 2000 (cp_public_summary p) \<and> valid_target_versions (cp_target_versions p)
     \<and> 0 \<le> cp_affected_rows p \<and> cp_affected_rows p \<le> 8
     \<and> list_all (\<lambda>kv. 0 \<le> snd kv) (cp_target_versions p)"


record execution_grant =
  eg_proposal_id :: uuid
  eg_proposal_version :: int
  eg_payload_sha256 :: string
  eg_requester_id :: uuid
  eg_approver_id :: uuid
  eg_target_versions :: target_versions
  eg_expires_at :: instant
  eg_nonce :: string
  eg_key_version :: int
  eg_signature :: string

definition valid_execution_grant :: "execution_grant \<Rightarrow> bool" where [contract_defs]:
  "valid_execution_grant g \<longleftrightarrow>
     1 \<le> eg_proposal_version g \<and> hex64 (eg_payload_sha256 g)
     \<and> valid_target_versions (eg_target_versions g) \<and> len_ok 4 128 (eg_nonce g)
     \<and> 1 \<le> eg_key_version g \<and> hex64 (eg_signature g)"

record proposal_snapshot =
  ps_proposal_ref :: proposal_ref
  ps_status :: proposal_status
  ps_requester_id :: uuid
  ps_command_type :: string
  ps_payload_sha256 :: string
  ps_preview :: command_preview
  ps_created_at :: instant
  ps_expires_at :: instant

definition valid_proposal_snapshot :: "proposal_snapshot \<Rightarrow> bool" where [contract_defs]:
  "valid_proposal_snapshot s \<longleftrightarrow>
     valid_proposal_ref (ps_proposal_ref s) \<and> reason_code_ok (ps_command_type s)
     \<and> hex64 (ps_payload_sha256 s) \<and> valid_command_preview (ps_preview s)
     \<and> ps_created_at s < ps_expires_at s"

datatype decision = Approve | Reject

record decision_request =
  dr_actor :: actor_context
  dr_proposal_ref :: proposal_ref
  dr_decision :: decision
  dr_reason :: "string option"

definition optional_reason_ok :: "string option \<Rightarrow> bool" where
  "optional_reason_ok r = (case r of None \<Rightarrow> True | Some s \<Rightarrow> len_ok 1 1000 s)"

definition valid_decision_request :: "decision_request \<Rightarrow> bool" where [contract_defs]:
  "valid_decision_request r \<longleftrightarrow>
     valid_actor_context (dr_actor r) \<and> valid_proposal_ref (dr_proposal_ref r)
     \<and> optional_reason_ok (dr_reason r)"

record decision_receipt =
  dc_proposal_ref :: proposal_ref
  dc_status :: proposal_status
  dc_approver_id :: uuid
  dc_decided_at :: instant
  dc_reason :: "string option"
  dc_grant :: "execution_grant option"

definition valid_decision_receipt :: "decision_receipt \<Rightarrow> bool" where [contract_defs]:
  "valid_decision_receipt r \<longleftrightarrow>
     valid_proposal_ref (dc_proposal_ref r)
     \<and> (dc_status r = APPROVED \<or> dc_status r = REJECTED) \<and> optional_reason_ok (dc_reason r)
     \<and> (case dc_grant r of None \<Rightarrow> True | Some g \<Rightarrow> valid_execution_grant g)
     \<and> \<not> (dc_status r = APPROVED \<and> dc_grant r = None)
     \<and> \<not> (dc_status r = REJECTED \<and> dc_grant r \<noteq> None)"

record execute_request =
  xr_actor :: actor_context
  xr_grant :: execution_grant

definition valid_execute_request :: "execute_request \<Rightarrow> bool" where [contract_defs]:
  "valid_execute_request r \<longleftrightarrow>
     valid_actor_context (xr_actor r) \<and> valid_execution_grant (xr_grant r)"

record execution_receipt =
  er_execution_id :: uuid
  er_proposal_ref :: proposal_ref
  er_status :: execution_status
  er_command_type :: string
  er_before_version :: int
  er_after_version :: int
  er_committed_at :: instant
  er_public_summary :: string
  er_audit_ref :: string

definition valid_execution_receipt :: "execution_receipt \<Rightarrow> bool" where [contract_defs]:
  "valid_execution_receipt r \<longleftrightarrow>
     valid_proposal_ref (er_proposal_ref r) \<and> er_status r = SUCCEEDED
     \<and> reason_code_ok (er_command_type r) \<and> 0 \<le> er_before_version r \<and> 1 \<le> er_after_version r
     \<and> len_ok 1 2000 (er_public_summary r) \<and> len_ok 1 256 (er_audit_ref r)
     \<and> er_before_version r < er_after_version r"

end
