(* ===== verification/Op_Commands.thy ===== *)
theory Op_Commands
  imports Op_Contracts
begin

text \<open>
  The closed command vocabulary of \<open>src/commerce_agent/operations/commands.py\<close>: one record
  per command class, with the inherited fields first, the union as a datatype, the allowed
  transitions of an investigation, and one validator per class.
\<close>

datatype priority = Low | Medium | High

fun priority_value :: "priority \<Rightarrow> string" where
  "priority_value Low = ''low''"
| "priority_value Medium = ''medium''"
| "priority_value High = ''high''"

subsection \<open>Shared field validators\<close>

definition validate_evidence :: "evidence_ref list \<Rightarrow> bool" where
  "validate_evidence es \<longleftrightarrow> distinct (map (\<lambda>e. (ev_kind e, ev_ref e, ev_digest e)) es)"

text \<open>The first conjunct of a finite value is the invariant of the representation.\<close>

definition validate_finite_decimal :: "decimal \<Rightarrow> bool" where
  "validate_finite_decimal d = (case d of
       Dec s c e \<Rightarrow> 0 \<le> c \<and> \<not> dec_lt d dec_zero \<and> \<not> dec_lt dec_one d \<and> max 0 (- e) \<le> 6
     | _ \<Rightarrow> False)"

definition evidence_command_ok :: "evidence_ref list \<Rightarrow> bool" where [contract_defs]:
  "evidence_command_ok es \<longleftrightarrow>
     len_ok 1 32 es \<and> list_all valid_evidence_ref es \<and> validate_evidence es"

definition new_target_command_ok :: "evidence_ref list \<Rightarrow> int \<Rightarrow> bool" where [contract_defs]:
  "new_target_command_ok es v \<longleftrightarrow> evidence_command_ok es \<and> v = 0"

definition existing_task_command_ok :: "evidence_ref list \<Rightarrow> investigation_task_ref \<Rightarrow> int \<Rightarrow> bool"
  where [contract_defs]:
  "existing_task_command_ok es t v \<longleftrightarrow>
     evidence_command_ok es \<and> valid_investigation_task_ref t \<and> 0 \<le> v \<and> tr_version t = v"

subsection \<open>Commands on new targets\<close>

record open_seller_risk_case =
  os_evidence_refs :: "evidence_ref list"
  os_expected_target_version :: int
  os_seller_ref :: seller_ref
  os_observation_started_at :: py_datetime
  os_observation_ended_at :: py_datetime
  os_metric_ref :: metric_ref
  os_numerator :: int
  os_denominator :: int
  os_observed :: decimal
  os_threshold :: decimal
  os_title :: string
  os_priority :: priority

definition valid_open_seller_risk_case :: "open_seller_risk_case \<Rightarrow> bool" where [contract_defs]:
  "valid_open_seller_risk_case c \<longleftrightarrow>
     new_target_command_ok (os_evidence_refs c) (os_expected_target_version c)
     \<and> valid_seller_ref (os_seller_ref c) \<and> valid_metric_ref (os_metric_ref c)
     \<and> 0 \<le> os_numerator c \<and> 0 < os_denominator c
     \<and> validate_finite_decimal (os_observed c) \<and> validate_finite_decimal (os_threshold c)
     \<and> len_ok 1 200 (os_title c)
     \<and> is_aware (os_observation_started_at c) \<and> is_aware (os_observation_ended_at c)
     \<and> to_instant (os_observation_started_at c) < to_instant (os_observation_ended_at c)
     \<and> os_numerator c \<le> os_denominator c"

record create_investigation_task =
  ct_evidence_refs :: "evidence_ref list"
  ct_expected_target_version :: int
  ct_title :: string
  ct_priority :: priority
  ct_public_summary :: string

definition valid_create_investigation_task :: "create_investigation_task \<Rightarrow> bool" where [contract_defs]:
  "valid_create_investigation_task c \<longleftrightarrow>
     new_target_command_ok (ct_evidence_refs c) (ct_expected_target_version c)
     \<and> len_ok 1 200 (ct_title c) \<and> len_ok 1 2000 (ct_public_summary c)"

record create_investigation_from_alert_hit =
  ch_evidence_refs :: "evidence_ref list"
  ch_expected_target_version :: int
  ch_alert_hit_ref :: alert_hit_ref
  ch_title :: string
  ch_priority :: priority

definition valid_create_investigation_from_alert_hit ::
    "create_investigation_from_alert_hit \<Rightarrow> bool" where [contract_defs]:
  "valid_create_investigation_from_alert_hit c \<longleftrightarrow>
     new_target_command_ok (ch_evidence_refs c) (ch_expected_target_version c)
     \<and> valid_alert_hit_ref (ch_alert_hit_ref c) \<and> len_ok 1 200 (ch_title c)"

record create_and_enable_metric_alert_rule =
  ca_evidence_refs :: "evidence_ref list"
  ca_expected_target_version :: int
  ca_alert_backtest_ref :: alert_backtest_ref
  ca_metric_ref :: metric_ref
  ca_grain :: string
  ca_window :: calendar_window
  ca_comparator :: alert_comparator
  ca_threshold :: decimal
  ca_minimum_denominator :: int
  ca_filter_refs :: "string list"

definition valid_create_and_enable_metric_alert_rule ::
    "create_and_enable_metric_alert_rule \<Rightarrow> bool" where [contract_defs]:
  "valid_create_and_enable_metric_alert_rule c \<longleftrightarrow>
     new_target_command_ok (ca_evidence_refs c) (ca_expected_target_version c)
     \<and> valid_alert_backtest_ref (ca_alert_backtest_ref c) \<and> valid_metric_ref (ca_metric_ref c)
     \<and> ident_ok is_lower code_char 1 63 (ca_grain c)
     \<and> validate_finite_decimal (ca_threshold c)
     \<and> 0 < ca_minimum_denominator c \<and> ca_minimum_denominator c \<le> 1000000000
     \<and> length (ca_filter_refs c) \<le> 32 \<and> distinct (ca_filter_refs c)
     \<and> list_all (\<lambda>i. i \<noteq> [] \<and> length i \<le> 256) (ca_filter_refs c)"

subsection \<open>Commands on an existing task\<close>

record assign_investigation =
  ai_evidence_refs :: "evidence_ref list"
  ai_task_ref :: investigation_task_ref
  ai_expected_target_version :: int
  ai_assignee_ref :: string

definition valid_assign_investigation :: "assign_investigation \<Rightarrow> bool" where [contract_defs]:
  "valid_assign_investigation c \<longleftrightarrow>
     existing_task_command_ok (ai_evidence_refs c) (ai_task_ref c) (ai_expected_target_version c)
     \<and> len_ok 1 256 (ai_assignee_ref c)"

definition allowed_transitions :: "(investigation_status \<times> investigation_status) list" where
  "allowed_transitions =
     [(OPEN, IN_PROGRESS), (OPEN, BLOCKED), (IN_PROGRESS, BLOCKED), (IN_PROGRESS, RESOLVED),
      (BLOCKED, IN_PROGRESS), (BLOCKED, RESOLVED)]"

record transition_investigation =
  ti_evidence_refs :: "evidence_ref list"
  ti_task_ref :: investigation_task_ref
  ti_expected_target_version :: int
  ti_from_status :: investigation_status
  ti_to_status :: investigation_status
  ti_reason_code :: string

definition valid_transition_investigation :: "transition_investigation \<Rightarrow> bool" where [contract_defs]:
  "valid_transition_investigation c \<longleftrightarrow>
     existing_task_command_ok (ti_evidence_refs c) (ti_task_ref c) (ti_expected_target_version c)
     \<and> reason_code_ok (ti_reason_code c)
     \<and> (ti_from_status c, ti_to_status c) \<in> set allowed_transitions"

record add_investigation_conclusion =
  ac_evidence_refs :: "evidence_ref list"
  ac_task_ref :: investigation_task_ref
  ac_expected_target_version :: int
  ac_conclusion_code :: string
  ac_conclusion_summary :: string

definition valid_add_investigation_conclusion :: "add_investigation_conclusion \<Rightarrow> bool"
  where [contract_defs]:
  "valid_add_investigation_conclusion c \<longleftrightarrow>
     existing_task_command_ok (ac_evidence_refs c) (ac_task_ref c) (ac_expected_target_version c)
     \<and> reason_code_ok (ac_conclusion_code c) \<and> len_ok 1 2000 (ac_conclusion_summary c)"

record close_investigation =
  cl_evidence_refs :: "evidence_ref list"
  cl_task_ref :: investigation_task_ref
  cl_expected_target_version :: int
  cl_conclusion_ref :: string
  cl_risk_disposition :: "risk_disposition option"

definition valid_close_investigation :: "close_investigation \<Rightarrow> bool" where [contract_defs]:
  "valid_close_investigation c \<longleftrightarrow>
     existing_task_command_ok (cl_evidence_refs c) (cl_task_ref c) (cl_expected_target_version c)
     \<and> len_ok 1 256 (cl_conclusion_ref c)"

subsection \<open>The discriminated union\<close>

datatype operation_command =
    OpenSellerRiskCase open_seller_risk_case
  | CreateInvestigationTask create_investigation_task
  | CreateInvestigationFromAlertHit create_investigation_from_alert_hit
  | CreateAndEnableMetricAlertRule create_and_enable_metric_alert_rule
  | AssignInvestigation assign_investigation
  | TransitionInvestigation transition_investigation
  | AddInvestigationConclusion add_investigation_conclusion
  | CloseInvestigation close_investigation

text \<open>The discriminator \<open>command.type\<close>.\<close>

fun command_type :: "operation_command \<Rightarrow> string" where
  "command_type (OpenSellerRiskCase _) = ''open_seller_risk_case''"
| "command_type (CreateInvestigationTask _) = ''create_investigation_task''"
| "command_type (CreateInvestigationFromAlertHit _) = ''create_investigation_from_alert_hit''"
| "command_type (CreateAndEnableMetricAlertRule _) = ''create_and_enable_metric_alert_rule''"
| "command_type (AssignInvestigation _) = ''assign_investigation''"
| "command_type (TransitionInvestigation _) = ''transition_investigation''"
| "command_type (AddInvestigationConclusion _) = ''add_investigation_conclusion''"
| "command_type (CloseInvestigation _) = ''close_investigation''"

fun valid_command :: "operation_command \<Rightarrow> bool" where
  "valid_command (OpenSellerRiskCase c) = valid_open_seller_risk_case c"
| "valid_command (CreateInvestigationTask c) = valid_create_investigation_task c"
| "valid_command (CreateInvestigationFromAlertHit c) = valid_create_investigation_from_alert_hit c"
| "valid_command (CreateAndEnableMetricAlertRule c) = valid_create_and_enable_metric_alert_rule c"
| "valid_command (AssignInvestigation c) = valid_assign_investigation c"
| "valid_command (TransitionInvestigation c) = valid_transition_investigation c"
| "valid_command (AddInvestigationConclusion c) = valid_add_investigation_conclusion c"
| "valid_command (CloseInvestigation c) = valid_close_investigation c"

fun command_evidence :: "operation_command \<Rightarrow> evidence_ref list" where
  "command_evidence (OpenSellerRiskCase c) = os_evidence_refs c"
| "command_evidence (CreateInvestigationTask c) = ct_evidence_refs c"
| "command_evidence (CreateInvestigationFromAlertHit c) = ch_evidence_refs c"
| "command_evidence (CreateAndEnableMetricAlertRule c) = ca_evidence_refs c"
| "command_evidence (AssignInvestigation c) = ai_evidence_refs c"
| "command_evidence (TransitionInvestigation c) = ti_evidence_refs c"
| "command_evidence (AddInvestigationConclusion c) = ac_evidence_refs c"
| "command_evidence (CloseInvestigation c) = cl_evidence_refs c"

fun expected_target_version :: "operation_command \<Rightarrow> int" where
  "expected_target_version (OpenSellerRiskCase c) = os_expected_target_version c"
| "expected_target_version (CreateInvestigationTask c) = ct_expected_target_version c"
| "expected_target_version (CreateInvestigationFromAlertHit c) = ch_expected_target_version c"
| "expected_target_version (CreateAndEnableMetricAlertRule c) = ca_expected_target_version c"
| "expected_target_version (AssignInvestigation c) = ai_expected_target_version c"
| "expected_target_version (TransitionInvestigation c) = ti_expected_target_version c"
| "expected_target_version (AddInvestigationConclusion c) = ac_expected_target_version c"
| "expected_target_version (CloseInvestigation c) = cl_expected_target_version c"

text \<open>\<open>isinstance(command, ExistingTaskCommand)\<close>, with its task reference.\<close>

fun command_task_ref :: "operation_command \<Rightarrow> investigation_task_ref option" where
  "command_task_ref (AssignInvestigation c) = Some (ai_task_ref c)"
| "command_task_ref (TransitionInvestigation c) = Some (ti_task_ref c)"
| "command_task_ref (AddInvestigationConclusion c) = Some (ac_task_ref c)"
| "command_task_ref (CloseInvestigation c) = Some (cl_task_ref c)"
| "command_task_ref _ = None"

record propose_request =
  pq_actor :: actor_context
  pq_command :: operation_command
  pq_evidence_refs :: "evidence_ref list"
  pq_idempotency_key :: string
  pq_revises :: "proposal_ref option"

definition idempotency_char :: "char \<Rightarrow> bool" where
  "idempotency_char c \<longleftrightarrow> is_alpha c \<or> is_digit c \<or> c \<in> set ''_.:-''"

definition valid_propose_request :: "propose_request \<Rightarrow> bool" where [contract_defs]:
  "valid_propose_request r \<longleftrightarrow>
     valid_actor_context (pq_actor r) \<and> valid_command (pq_command r)
     \<and> evidence_command_ok (pq_evidence_refs r)
     \<and> ident_ok (\<lambda>c. is_alpha c \<or> is_digit c) idempotency_char 7 127 (pq_idempotency_key r)
     \<and> (case pq_revises r of None \<Rightarrow> True | Some p \<Rightarrow> valid_proposal_ref p)"

subsection \<open>Facts about valid commands\<close>

lemma valid_command_version_nonneg: "valid_command c \<Longrightarrow> 0 \<le> expected_target_version c"
  by (cases c) (auto simp: contract_defs)

lemma valid_command_new_target:
  "valid_command c \<Longrightarrow> command_task_ref c = None \<Longrightarrow> expected_target_version c = 0"
  by (cases c) (auto simp: contract_defs)

lemma valid_command_task_version:
  "valid_command c \<Longrightarrow> command_task_ref c = Some t \<Longrightarrow> tr_version t = expected_target_version c"
  by (cases c) (auto simp: contract_defs)

lemma valid_command_evidence: "valid_command c \<Longrightarrow> evidence_command_ok (command_evidence c)"
  by (cases c) (auto simp: contract_defs)

lemma command_type_code: "reason_code_ok (command_type c)"
  by (cases c) (simp_all, code_simp+)

lemma command_type_length: "len_ok 1 128 (command_type c)"
  by (cases c) (simp_all add: len_ok_def)

lemma no_transition_from_resolved:
  "(s, s') \<in> set allowed_transitions \<Longrightarrow> s \<noteq> RESOLVED \<and> s \<noteq> CLOSED \<and> s' \<noteq> OPEN \<and> s' \<noteq> CLOSED"
  by (auto simp: allowed_transitions_def)

text \<open>A validated ratio lies between zero and one and has at most six decimal places.\<close>

lemma validate_finite_decimal_Dec:
  "validate_finite_decimal d \<Longrightarrow> \<exists>s c e. d = Dec s c e \<and> 0 \<le> c \<and> - 6 \<le> e \<and> dec_le dec_zero d \<and> dec_le d dec_one"
  by (cases d) (auto simp: validate_finite_decimal_def dec_zero_def dec_one_def dec_le_Dec dec_lt_Dec max.commute)

end
