(* ===== verification/Op_Canonical.thy ===== *)
theory Op_Canonical
  imports Op_Commands
begin

text \<open>
  The canonical projection of \<open>src/commerce_agent/operations/_canonical.py\<close>: Python values are
  normalised to JSON (\<open>canonical_value\<close>, with its errors), a command is projected field by
  field under the table of signed fields, and the payload is the UTF-8 text of the sorted JSON
  with its digest. SHA-256 is a parameter.
\<close>

subsection \<open>Leaves\<close>

primrec hex_digits :: "nat \<Rightarrow> int \<Rightarrow> string" where
  "hex_digits 0 v = []"
| "hex_digits (Suc n) v = hex_digits n (v div 16) @ [hex_char (nat (v mod 16))]"

definition uuid_str :: "uuid \<Rightarrow> string" where
  "uuid_str u =
     (let h = hex_digits 32 (uint u) in
      take 8 h @ ''-'' @ take 4 (drop 8 h) @ ''-'' @ take 4 (drop 12 h) @ ''-''
        @ take 4 (drop 16 h) @ ''-'' @ drop 20 h)"

definition utc_z :: "py_datetime \<Rightarrow> op_error + string" where
  "utc_z t = (case t of
       Naive _ \<Rightarrow> Inl (contract_error ''datetime_timezone_required'')
     | Aware w off \<Rightarrow> Inr (iso_seconds (w - off) @ ''Z''))"

definition normalized_decimal :: "nat \<Rightarrow> decimal \<Rightarrow> op_error + string" where
  "normalized_decimal k d =
     (if \<not> dec_finite d then Inl (contract_error ''decimal_not_finite'')
      else case quantize k d of
          None \<Rightarrow> Inl (contract_error ''decimal_scale_invalid'')
        | Some q \<Rightarrow> Inr (fixed_str k q))"

subsection \<open>Python values and their canonical form\<close>

datatype pykey = KStr string | KOther

text \<open>
  A float matters to this code only through \<open>==\<close> with an int and through \<open>int()\<close>: a finite one is
  its truncation and whether it equals it.
\<close>

datatype pyfloat = FFinite (trunc_part: int) (integral: bool) | FInfinity | FNaN

datatype pyval =
    PNone
  | PBool bool
  | PInt int
  | PStr string
  | PFloat pyfloat
  | PTime py_datetime
  | PUuid uuid
  | PEnum string
  | PDecimal decimal
  | PTuple "pyval list"
  | PList "pyval list"
  | PMap "(pykey \<times> pyval) list"
  | PModel "(string \<times> pyval) list"
  | POther

fun key_str :: "pykey \<Rightarrow> string" where
  "key_str (KStr s) = s"
| "key_str KOther = []"

fun canonical_value :: "pyval \<Rightarrow> op_error + json"
  and canonical_list :: "pyval list \<Rightarrow> op_error + json list"
  and canonical_items :: "(pykey \<times> pyval) list \<Rightarrow> op_error + (string \<times> json) list" where
  "canonical_value (PMap kvs) =
     (if KOther \<in> set (map fst kvs) then Inl (contract_error ''canonical_key_invalid'')
      else rbind (canonical_items kvs) (\<lambda>js. Inr (JObj js)))"
| "canonical_value (PTuple vs) = rbind (canonical_list vs) (\<lambda>js. Inr (JList js))"
| "canonical_value (PList vs) = rbind (canonical_list vs) (\<lambda>js. Inr (JList js))"
| "canonical_value (PTime t) = rbind (utc_z t) (\<lambda>s. Inr (JStr s))"
| "canonical_value (PUuid u) = Inr (JStr (uuid_str u))"
| "canonical_value (PEnum s) = Inr (JStr s)"
| "canonical_value (PDecimal d) = Inl (contract_error ''canonical_decimal_requires_scale'')"
| "canonical_value (PFloat x) = Inl (contract_error ''canonical_float_forbidden'')"
| "canonical_value PNone = Inr JNull"
| "canonical_value (PStr s) = Inr (JStr s)"
| "canonical_value (PInt i) = Inr (JInt i)"
| "canonical_value (PBool b) = Inr (JBool b)"
| "canonical_value (PModel kvs) = Inl (contract_error ''canonical_type_unsupported'')"
| "canonical_value POther = Inl (contract_error ''canonical_type_unsupported'')"
| "canonical_list [] = Inr []"
| "canonical_list (v # vs) =
     rbind (canonical_value v) (\<lambda>j. rbind (canonical_list vs) (\<lambda>js. Inr (j # js)))"
| "canonical_items [] = Inr []"
| "canonical_items ((k, v) # kvs) =
     rbind (canonical_value v) (\<lambda>j. rbind (canonical_items kvs) (\<lambda>js. Inr ((key_str k, j) # js)))"

definition canonical_json_bytes :: "pyval \<Rightarrow> op_error + bytes" where
  "canonical_json_bytes v = rbind (canonical_value v) (\<lambda>j. Inr (utf8 (dumps j)))"

subsection \<open>Projection of a command\<close>

text \<open>The attributes of a command object, as \<open>getattr\<close> finds them.\<close>

definition evidence_model :: "evidence_ref \<Rightarrow> pyval" where
  "evidence_model e =
     PModel [(''kind'', PStr (ev_kind e)), (''ref'', PStr (ev_ref e)), (''digest'', PStr (ev_digest e))]"

definition seller_model :: "seller_ref \<Rightarrow> pyval" where
  "seller_model s = PModel [(''namespace'', PStr (sr_namespace s)), (''token'', PStr (sr_token s))]"

definition metric_model :: "metric_ref \<Rightarrow> pyval" where
  "metric_model m = PModel [(''name'', PStr (mr_name m)), (''revision'', PStr (mr_revision m))]"

definition task_ref_model :: "investigation_task_ref \<Rightarrow> pyval" where
  "task_ref_model t = PModel [(''task_id'', PUuid (tr_task_id t)), (''version'', PInt (tr_version t))]"

definition backtest_ref_model :: "alert_backtest_ref \<Rightarrow> pyval" where
  "backtest_ref_model b =
     PModel [(''backtest_id'', PUuid (backtest_id b)), (''rule_spec_sha256'', PStr (rule_spec_digest b))]"

definition hit_ref_model :: "alert_hit_ref \<Rightarrow> pyval" where
  "hit_ref_model h =
     PModel [(''hit_id'', PUuid (hit_id h)), (''evidence_digest'', PStr (hit_digest h))]"

fun command_attributes :: "operation_command \<Rightarrow> (string \<times> pyval) list" where
  "command_attributes (OpenSellerRiskCase c) =
     [(''evidence_refs'', PTuple (map evidence_model (os_evidence_refs c))),
      (''expected_target_version'', PInt (os_expected_target_version c)),
      (''type'', PStr ''open_seller_risk_case''),
      (''seller_ref'', seller_model (os_seller_ref c)),
      (''observation_started_at'', PTime (os_observation_started_at c)),
      (''observation_ended_at'', PTime (os_observation_ended_at c)),
      (''metric_ref'', metric_model (os_metric_ref c)),
      (''numerator'', PInt (os_numerator c)),
      (''denominator'', PInt (os_denominator c)),
      (''observed'', PDecimal (os_observed c)),
      (''threshold'', PDecimal (os_threshold c)),
      (''title'', PStr (os_title c)),
      (''priority'', PStr (priority_value (os_priority c)))]"
| "command_attributes (CreateInvestigationTask c) =
     [(''evidence_refs'', PTuple (map evidence_model (ct_evidence_refs c))),
      (''expected_target_version'', PInt (ct_expected_target_version c)),
      (''type'', PStr ''create_investigation_task''),
      (''title'', PStr (ct_title c)),
      (''priority'', PStr (priority_value (ct_priority c))),
      (''public_summary'', PStr (ct_public_summary c))]"
| "command_attributes (CreateInvestigationFromAlertHit c) =
     [(''evidence_refs'', PTuple (map evidence_model (ch_evidence_refs c))),
      (''expected_target_version'', PInt (ch_expected_target_version c)),
      (''type'', PStr ''create_investigation_from_alert_hit''),
      (''alert_hit_ref'', hit_ref_model (ch_alert_hit_ref c)),
      (''title'', PStr (ch_title c)),
      (''priority'', PStr (priority_value (ch_priority c)))]"
| "command_attributes (CreateAndEnableMetricAlertRule c) =
     [(''evidence_refs'', PTuple (map evidence_model (ca_evidence_refs c))),
      (''expected_target_version'', PInt (ca_expected_target_version c)),
      (''type'', PStr ''create_and_enable_metric_alert_rule''),
      (''alert_backtest_ref'', backtest_ref_model (ca_alert_backtest_ref c)),
      (''metric_ref'', metric_model (ca_metric_ref c)),
      (''grain'', PStr (ca_grain c)),
      (''window'', PStr (calendar_window_value (ca_window c))),
      (''comparator'', PStr (alert_comparator_value (ca_comparator c))),
      (''threshold'', PDecimal (ca_threshold c)),
      (''minimum_denominator'', PInt (ca_minimum_denominator c)),
      (''filter_refs'', PTuple (map PStr (ca_filter_refs c)))]"
| "command_attributes (AssignInvestigation c) =
     [(''evidence_refs'', PTuple (map evidence_model (ai_evidence_refs c))),
      (''task_ref'', task_ref_model (ai_task_ref c)),
      (''expected_target_version'', PInt (ai_expected_target_version c)),
      (''type'', PStr ''assign_investigation''),
      (''assignee_ref'', PStr (ai_assignee_ref c))]"
| "command_attributes (TransitionInvestigation c) =
     [(''evidence_refs'', PTuple (map evidence_model (ti_evidence_refs c))),
      (''task_ref'', task_ref_model (ti_task_ref c)),
      (''expected_target_version'', PInt (ti_expected_target_version c)),
      (''type'', PStr ''transition_investigation''),
      (''from_status'', PEnum (investigation_status_value (ti_from_status c))),
      (''to_status'', PEnum (investigation_status_value (ti_to_status c))),
      (''reason_code'', PStr (ti_reason_code c))]"
| "command_attributes (AddInvestigationConclusion c) =
     [(''evidence_refs'', PTuple (map evidence_model (ac_evidence_refs c))),
      (''task_ref'', task_ref_model (ac_task_ref c)),
      (''expected_target_version'', PInt (ac_expected_target_version c)),
      (''type'', PStr ''add_investigation_conclusion''),
      (''conclusion_code'', PStr (ac_conclusion_code c)),
      (''conclusion_summary'', PStr (ac_conclusion_summary c))]"
| "command_attributes (CloseInvestigation c) =
     [(''evidence_refs'', PTuple (map evidence_model (cl_evidence_refs c))),
      (''task_ref'', task_ref_model (cl_task_ref c)),
      (''expected_target_version'', PInt (cl_expected_target_version c)),
      (''type'', PStr ''close_investigation''),
      (''conclusion_ref'', PStr (cl_conclusion_ref c)),
      (''risk_disposition'', (case cl_risk_disposition c of
          None \<Rightarrow> PNone | Some d \<Rightarrow> PEnum (risk_disposition_value d)))]"

text \<open>The table of signed fields.\<close>

definition command_fields :: "(string \<times> string list) list" where
  "command_fields =
     [(''open_seller_risk_case'',
       [''type'', ''seller_ref'', ''observation_started_at'', ''observation_ended_at'', ''metric_ref'',
        ''numerator'', ''denominator'', ''observed'', ''threshold'', ''title'', ''priority'',
        ''evidence_refs'', ''expected_target_version'']),
      (''create_investigation_task'',
       [''type'', ''title'', ''priority'', ''public_summary'', ''evidence_refs'',
        ''expected_target_version'']),
      (''create_investigation_from_alert_hit'',
       [''type'', ''alert_hit_ref'', ''title'', ''priority'', ''evidence_refs'',
        ''expected_target_version'']),
      (''create_and_enable_metric_alert_rule'',
       [''type'', ''alert_backtest_ref'', ''metric_ref'', ''grain'', ''window'', ''comparator'',
        ''threshold'', ''minimum_denominator'', ''filter_refs'', ''evidence_refs'',
        ''expected_target_version'']),
      (''assign_investigation'',
       [''type'', ''task_ref'', ''assignee_ref'', ''evidence_refs'', ''expected_target_version'']),
      (''transition_investigation'',
       [''type'', ''task_ref'', ''from_status'', ''to_status'', ''reason_code'', ''evidence_refs'',
        ''expected_target_version'']),
      (''add_investigation_conclusion'',
       [''type'', ''task_ref'', ''conclusion_code'', ''conclusion_summary'', ''evidence_refs'',
        ''expected_target_version'']),
      (''close_investigation'',
       [''type'', ''task_ref'', ''conclusion_ref'', ''risk_disposition'', ''evidence_refs'',
        ''expected_target_version''])]"

fun project_model :: "pyval \<Rightarrow> op_error + pyval"
  and project_list :: "pyval list \<Rightarrow> op_error + pyval list"
  and project_items :: "(string \<times> pyval) list \<Rightarrow> op_error + (pykey \<times> pyval) list" where
  "project_model (PModel fs) = rbind (project_items fs) (\<lambda>kvs. Inr (PMap kvs))"
| "project_model (PTuple vs) = rbind (project_list vs) (\<lambda>ws. Inr (PList ws))"
| "project_model (PDecimal d) = rbind (normalized_decimal 4 d) (\<lambda>s. Inr (PStr s))"
| "project_model v = Inr v"
| "project_list [] = Inr []"
| "project_list (v # vs) =
     rbind (project_model v) (\<lambda>w. rbind (project_list vs) (\<lambda>ws. Inr (w # ws)))"
| "project_items [] = Inr []"
| "project_items ((k, v) # kvs) =
     rbind (project_model v) (\<lambda>w. rbind (project_items kvs) (\<lambda>ws. Inr ((KStr k, w) # ws)))"

record canonical_payload =
  pl_schema_version :: int
  canonical_bytes :: bytes
  pl_sha256 :: string

definition command_projection :: "operation_command \<Rightarrow> op_error + (pykey \<times> pyval) list" where
  "command_projection c =
     project_items
       (map (\<lambda>n. (n, the (map_of (command_attributes c) n)))
         (the (map_of command_fields (command_type c))))"

definition versions_map :: "target_versions \<Rightarrow> pyval" where
  "versions_map tv = PMap (map (\<lambda>kv. (KStr (fst kv), PInt (snd kv))) tv)"

definition canonical_command ::
    "(bytes \<Rightarrow> string) \<Rightarrow> operation_command \<Rightarrow> target_versions \<Rightarrow> int \<Rightarrow> op_error + canonical_payload"
  where
  "canonical_command sha256 c tv schema =
     rbind (command_projection c) (\<lambda>proj.
     rbind (canonical_json_bytes
             (PMap [(KStr ''command'', PMap proj), (KStr ''schema_version'', PInt schema),
                    (KStr ''target_versions'', versions_map tv)])) (\<lambda>bs.
     Inr \<lparr>pl_schema_version = schema, canonical_bytes = bs, pl_sha256 = sha256 bs\<rparr>))"


subsection \<open>Identifiers as text\<close>

lemma length_hex_digits [simp]: "length (hex_digits n v) = n"
  by (induction n arbitrary: v) simp_all

lemma hex_digits_inject:
  assumes "hex_digits n v = hex_digits n w" "0 \<le> v" "v < 16 ^ n" "0 \<le> w" "w < 16 ^ n"
  shows "v = w"
  using assms
proof (induction n arbitrary: v w)
  case (Suc n)
  then have "hex_digits n (v div 16) = hex_digits n (w div 16)"
    and c: "hex_char (nat (v mod 16)) = hex_char (nat (w mod 16))" by simp_all
  moreover have "nat (v mod 16) < 16" "nat (w mod 16) < 16" by (simp_all add: nat_less_iff)
  ultimately have m: "nat (v mod 16) = nat (w mod 16)" by (metis hex_val_char)
  have "v div 16 = w div 16"
    using Suc.prems \<open>hex_digits n (v div 16) = _\<close> by (intro Suc.IH) (simp_all add: div_less_iff_less_mult)
  moreover have "v mod 16 = w mod 16" using m by (simp add: nat_eq_iff2)
  ultimately show ?case by (metis div_mult_mod_eq)
qed simp

lemma uuid_str_inject [simp]: "uuid_str u = uuid_str v \<longleftrightarrow> u = v"
proof
  assume eq: "uuid_str u = uuid_str v"
  define h g where "h = hex_digits 32 (uint u)" and "g = hex_digits 32 (uint v)"
  have len: "length h = 32" "length g = 32" by (simp_all add: h_def g_def)
  have parts: "take 8 h = take 8 g \<and> take 4 (drop 8 h) = take 4 (drop 8 g)
      \<and> take 4 (drop 12 h) = take 4 (drop 12 g) \<and> take 4 (drop 16 h) = take 4 (drop 16 g)
      \<and> drop 20 h = drop 20 g"
    using eq len by (simp add: uuid_str_def Let_def h_def [symmetric] g_def [symmetric])
  have cat: "x = take 8 x @ take 4 (drop 8 x) @ take 4 (drop 12 x) @ take 4 (drop 16 x) @ drop 20 x"
    for x :: string
  proof -
    have "drop 20 x = drop 4 (drop 16 x)" "drop 16 x = drop 4 (drop 12 x)" "drop 12 x = drop 4 (drop 8 x)"
      by simp_all
    then show ?thesis by (metis append_take_drop_id)
  qed
  have "h = g" using cat [of h] cat [of g] parts by metis
  then have "uint u = uint v"
    unfolding h_def g_def
    by (rule hex_digits_inject) (use uint_lt2p [of u] uint_lt2p [of v] in simp_all)
  then show "u = v" by (simp add: word_uint_eq_iff)
qed simp

subsection \<open>Objects with the same keys\<close>

lemma map_of_keys: "distinct (map fst a) \<Longrightarrow> map (\<lambda>k. (k, the (map_of a k))) (map fst a) = a"
  by (auto simp: comp_def intro!: map_idI)

text \<open>
  Two objects with the same distinct keys in the same order have the same normal form exactly
  when their members do, one by one.
\<close>

lemma norm_JObj_pointwise:
  assumes "map fst a = map fst b" "distinct (map fst a)"
  shows "norm (JObj a) = norm (JObj b) \<longleftrightarrow> map (norm \<circ> snd) a = map (norm \<circ> snd) b"
proof
  define a' b' where "a' = map (map_prod id norm) a" and "b' = map (map_prod id norm) b"
  have keys: "map fst a' = map fst b'" "distinct (map fst a')"
    using assms unfolding a'_def b'_def map_fst_norm by simp_all
  assume "norm (JObj a) = norm (JObj b)"
  then have "sort_key fst a' = sort_key fst b'" by (simp add: a'_def b'_def)
  then have "set a' = set b'" by (metis set_sort)
  then have "map_of a' = map_of b'" using keys by (simp add: map_of_inject_set)
  have "a' = map (\<lambda>k. (k, the (map_of a' k))) (map fst a')"
    by (rule map_of_keys [OF keys(2), symmetric])
  also have "\<dots> = map (\<lambda>k. (k, the (map_of b' k))) (map fst b')"
    by (simp only: \<open>map_of a' = map_of b'\<close> keys(1))
  also have "\<dots> = b'" by (rule map_of_keys) (use keys in simp)
  finally have "map snd a' = map snd b'" by (rule arg_cong)
  then show "map (norm \<circ> snd) a = map (norm \<circ> snd) b" by (simp add: a'_def b'_def comp_def)
next
  assume "map (norm \<circ> snd) a = map (norm \<circ> snd) b"
  then have "map (map_prod id norm) a = map (map_prod id norm) b"
    using assms(1) by (induction a b rule: list_induct2') auto
  then show "norm (JObj a) = norm (JObj b)" by simp
qed

lemma norm_JObj_lookup:
  assumes "norm (JObj a) = norm (JObj b)" "distinct (map fst a)" "distinct (map fst b)"
  shows "map_option norm (map_of a k) = map_option norm (map_of b k)"
proof -
  define a' b' where "a' = map (map_prod id norm) a" and "b' = map (map_prod id norm) b"
  have keys: "distinct (map fst a')" "distinct (map fst b')"
    using assms(2,3) unfolding a'_def b'_def map_fst_norm by simp_all
  from assms(1) have "sort_key fst a' = sort_key fst b'" by (simp add: a'_def b'_def)
  then have "set a' = set b'" by (metis set_sort)
  then have "map_of a' = map_of b'" using keys by (simp add: map_of_inject_set)
  moreover have "map_of (map (map_prod id norm) xs) k = map_option norm (map_of xs k)" for xs
    by (induction xs) auto
  ultimately show ?thesis unfolding a'_def b'_def by metis
qed

subsection \<open>The JSON a valid command is signed as\<close>

definition evidence_json :: "evidence_ref \<Rightarrow> json" where
  "evidence_json e =
     JObj [(''kind'', JStr (ev_kind e)), (''ref'', JStr (ev_ref e)), (''digest'', JStr (ev_digest e))]"

definition time_json :: "py_datetime \<Rightarrow> json" where
  "time_json t = JStr (iso_seconds (to_instant t) @ ''Z'')"

definition to_places :: "decimal \<Rightarrow> decimal" where
  "to_places d = (case quantize 4 d of None \<Rightarrow> d | Some q \<Rightarrow> q)"

definition ratio_json :: "decimal \<Rightarrow> json" where
  "ratio_json d = JStr (fixed_str 4 (to_places d))"

definition to_second :: "py_datetime \<Rightarrow> py_datetime" where
  "to_second t = Aware (to_instant t div usec_per_second * usec_per_second) 0"

definition task_ref_json :: "investigation_task_ref \<Rightarrow> json" where
  "task_ref_json t = JObj [(''task_id'', JStr (uuid_str (tr_task_id t))), (''version'', JInt (tr_version t))]"

fun command_json :: "operation_command \<Rightarrow> (string \<times> json) list" where
  "command_json (OpenSellerRiskCase c) =
     [(''type'', JStr ''open_seller_risk_case''),
      (''seller_ref'', JObj [(''namespace'', JStr (sr_namespace (os_seller_ref c))),
                              (''token'', JStr (sr_token (os_seller_ref c)))]),
      (''observation_started_at'', time_json (os_observation_started_at c)),
      (''observation_ended_at'', time_json (os_observation_ended_at c)),
      (''metric_ref'', JObj [(''name'', JStr (mr_name (os_metric_ref c))),
                              (''revision'', JStr (mr_revision (os_metric_ref c)))]),
      (''numerator'', JInt (os_numerator c)),
      (''denominator'', JInt (os_denominator c)),
      (''observed'', ratio_json (os_observed c)),
      (''threshold'', ratio_json (os_threshold c)),
      (''title'', JStr (os_title c)),
      (''priority'', JStr (priority_value (os_priority c))),
      (''evidence_refs'', JList (map evidence_json (os_evidence_refs c))),
      (''expected_target_version'', JInt (os_expected_target_version c))]"
| "command_json (CreateInvestigationTask c) =
     [(''type'', JStr ''create_investigation_task''),
      (''title'', JStr (ct_title c)),
      (''priority'', JStr (priority_value (ct_priority c))),
      (''public_summary'', JStr (ct_public_summary c)),
      (''evidence_refs'', JList (map evidence_json (ct_evidence_refs c))),
      (''expected_target_version'', JInt (ct_expected_target_version c))]"
| "command_json (CreateInvestigationFromAlertHit c) =
     [(''type'', JStr ''create_investigation_from_alert_hit''),
      (''alert_hit_ref'', JObj [(''hit_id'', JStr (uuid_str (hit_id (ch_alert_hit_ref c)))),
                                 (''evidence_digest'', JStr (hit_digest (ch_alert_hit_ref c)))]),
      (''title'', JStr (ch_title c)),
      (''priority'', JStr (priority_value (ch_priority c))),
      (''evidence_refs'', JList (map evidence_json (ch_evidence_refs c))),
      (''expected_target_version'', JInt (ch_expected_target_version c))]"
| "command_json (CreateAndEnableMetricAlertRule c) =
     [(''type'', JStr ''create_and_enable_metric_alert_rule''),
      (''alert_backtest_ref'',
         JObj [(''backtest_id'', JStr (uuid_str (backtest_id (ca_alert_backtest_ref c)))),
               (''rule_spec_sha256'', JStr (rule_spec_digest (ca_alert_backtest_ref c)))]),
      (''metric_ref'', JObj [(''name'', JStr (mr_name (ca_metric_ref c))),
                              (''revision'', JStr (mr_revision (ca_metric_ref c)))]),
      (''grain'', JStr (ca_grain c)),
      (''window'', JStr (calendar_window_value (ca_window c))),
      (''comparator'', JStr (alert_comparator_value (ca_comparator c))),
      (''threshold'', ratio_json (ca_threshold c)),
      (''minimum_denominator'', JInt (ca_minimum_denominator c)),
      (''filter_refs'', JList (map JStr (ca_filter_refs c))),
      (''evidence_refs'', JList (map evidence_json (ca_evidence_refs c))),
      (''expected_target_version'', JInt (ca_expected_target_version c))]"
| "command_json (AssignInvestigation c) =
     [(''type'', JStr ''assign_investigation''),
      (''task_ref'', task_ref_json (ai_task_ref c)),
      (''assignee_ref'', JStr (ai_assignee_ref c)),
      (''evidence_refs'', JList (map evidence_json (ai_evidence_refs c))),
      (''expected_target_version'', JInt (ai_expected_target_version c))]"
| "command_json (TransitionInvestigation c) =
     [(''type'', JStr ''transition_investigation''),
      (''task_ref'', task_ref_json (ti_task_ref c)),
      (''from_status'', JStr (investigation_status_value (ti_from_status c))),
      (''to_status'', JStr (investigation_status_value (ti_to_status c))),
      (''reason_code'', JStr (ti_reason_code c)),
      (''evidence_refs'', JList (map evidence_json (ti_evidence_refs c))),
      (''expected_target_version'', JInt (ti_expected_target_version c))]"
| "command_json (AddInvestigationConclusion c) =
     [(''type'', JStr ''add_investigation_conclusion''),
      (''task_ref'', task_ref_json (ac_task_ref c)),
      (''conclusion_code'', JStr (ac_conclusion_code c)),
      (''conclusion_summary'', JStr (ac_conclusion_summary c)),
      (''evidence_refs'', JList (map evidence_json (ac_evidence_refs c))),
      (''expected_target_version'', JInt (ac_expected_target_version c))]"
| "command_json (CloseInvestigation c) =
     [(''type'', JStr ''close_investigation''),
      (''task_ref'', task_ref_json (cl_task_ref c)),
      (''conclusion_ref'', JStr (cl_conclusion_ref c)),
      (''risk_disposition'', (case cl_risk_disposition c of
          None \<Rightarrow> JNull | Some d \<Rightarrow> JStr (risk_disposition_value d))),
      (''evidence_refs'', JList (map evidence_json (cl_evidence_refs c))),
      (''expected_target_version'', JInt (cl_expected_target_version c))]"

lemma project_evidence:
  "project_list (map evidence_model es) = Inr (map (\<lambda>e. PMap [(KStr ''kind'', PStr (ev_kind e)),
     (KStr ''ref'', PStr (ev_ref e)), (KStr ''digest'', PStr (ev_digest e))]) es)"
  by (induction es) (simp_all add: evidence_model_def)

lemma canonical_evidence:
  "canonical_list (map (\<lambda>e. PMap [(KStr ''kind'', PStr (ev_kind e)),
     (KStr ''ref'', PStr (ev_ref e)), (KStr ''digest'', PStr (ev_digest e))]) es)
   = Inr (map evidence_json es)"
  by (induction es) (simp_all add: evidence_json_def)

lemma project_strings: "project_list (map PStr ss) = Inr (map PStr ss)"
  by (induction ss) simp_all

lemma canonical_strings: "canonical_list (map PStr ss) = Inr (map JStr ss)"
  by (induction ss) simp_all

lemma utc_z_aware: "is_aware t \<Longrightarrow> utc_z t = Inr (iso_seconds (to_instant t) @ ''Z'')"
  by (cases t) (simp_all add: utc_z_def is_aware_def to_instant_def)

text \<open>A validated ratio fits the signed scale: quantizing never fails.\<close>

lemma quantize_ratio:
  assumes "validate_finite_decimal d"
  shows "\<exists>s c. quantize 4 d = Some (Dec s c (- 4)) \<and> 0 \<le> c"
proof -
  obtain s c e where d: "d = Dec s c e" and nn: "0 \<le> c" "- 6 \<le> e"
    and ge: "dec_le dec_zero d" and le: "dec_le d dec_one"
    using validate_finite_decimal_Dec [OF assms] by blast
  define k where "k = max 0 (- e)"
  have "scaled k d \<le> 10 ^ nat k" using le d
    by (simp add: dec_one_def dec_le_Dec k_def max.commute) (simp add: scaled_def signed_def)
  moreover have "0 \<le> scaled k d" using ge d
    by (simp add: dec_zero_def dec_le_Dec k_def) (simp add: scaled_def signed_def)
  ultimately have c: "c * 10 ^ nat (e + k) \<le> 10 ^ nat k"
    using d nn by (auto simp: scaled_def signed_def split: if_splits)
  define c' where "c' = (if - 4 \<le> e then c * 10 ^ nat (e + 4) else div_half_even c (10 ^ nat (- 4 - e)))"
  have "c' \<le> 10 ^ 4"
  proof (cases "0 \<le> e")
    case True
    with c have "c * 10 ^ nat e * 10 ^ 4 \<le> 1 * 10 ^ 4"
      by (intro mult_right_mono) (simp_all add: k_def)
    moreover have "nat (e + 4) = nat e + 4" using True by simp
    ultimately show ?thesis using True by (simp add: c'_def power_add)
  next
    case neg: False
    with c have c: "c \<le> 10 ^ nat (- e)" by (simp add: k_def)
    show ?thesis
    proof (cases "- 4 \<le> e")
      case True
      have "c * 10 ^ nat (e + 4) \<le> 10 ^ nat (- e) * 10 ^ nat (e + 4)" using c by (intro mult_right_mono) simp_all
      also have "\<dots> = 10 ^ nat 4" using True neg by (simp add: power_add [symmetric] nat_add_distrib [symmetric])
      finally show ?thesis using True by (simp add: c'_def)
    next
      case False
      have "(10::int) ^ nat (- e) = 10 ^ 4 * 10 ^ nat (- 4 - e)"
      proof -
        have "nat (- e) = 4 + nat (- 4 - e)" using False by simp
        then show ?thesis by (simp only: power_add)
      qed
      then show ?thesis using c False div_half_even_le [of "10 ^ nat (- 4 - e)" c "10 ^ 4"]
        by (simp add: c'_def)
    qed
  qed
  moreover have "0 \<le> c'" using nn by (simp add: c'_def div_half_even_nonneg)
  moreover have "quantize 4 d = (if c' < prec_limit then Some (Dec s c' (- int 4)) else None)"
    by (simp add: d quantize_def c'_def Let_def)
  ultimately show ?thesis by (simp add: prec_limit_def)
qed

lemma normalized_ratio:
  "validate_finite_decimal d \<Longrightarrow> normalized_decimal 4 d = Inr (fixed_str 4 (to_places d))"
  using quantize_ratio [of d]
  by (cases d) (auto simp: normalized_decimal_def to_places_def validate_finite_decimal_def)

lemmas command_models = seller_model_def metric_model_def task_ref_model_def backtest_ref_model_def
  hit_ref_model_def

text \<open>Projecting a valid command raises nothing, and gives \<open>command_json\<close>.\<close>

lemma command_projection_valid:
  "valid_command c \<Longrightarrow>
     \<exists>proj. command_projection c = Inr proj \<and> canonical_value (PMap proj) = Inr (JObj (command_json c))"
proof (cases c)
  case (CloseInvestigation x)
  assume "valid_command c"
  with CloseInvestigation show ?thesis
    by (cases "cl_risk_disposition x")
      (simp_all add: command_projection_def command_fields_def command_models contract_defs
        project_evidence canonical_evidence task_ref_json_def)
qed (simp_all add: command_projection_def command_fields_def command_models contract_defs
    project_evidence canonical_evidence project_strings canonical_strings task_ref_json_def
    normalized_ratio utc_z_aware ratio_json_def time_json_def)

lemma versions_map_json:
  "canonical_value (versions_map tv) = Inr (JObj (map (\<lambda>kv. (fst kv, JInt (snd kv))) tv))"
proof -
  have "canonical_items (map (\<lambda>kv. (KStr (fst kv), PInt (snd kv))) tv)
      = Inr (map (\<lambda>kv. (fst kv, JInt (snd kv))) tv)"
    by (induction tv) auto
  moreover have "KOther \<notin> set (map fst (map (\<lambda>kv. (KStr (fst kv), PInt (snd kv))) tv))"
    by auto
  ultimately show ?thesis by (simp add: versions_map_def)
qed

definition signed_json :: "operation_command \<Rightarrow> target_versions \<Rightarrow> int \<Rightarrow> json" where
  "signed_json c tv schema =
     JObj [(''command'', JObj (command_json c)), (''schema_version'', JInt schema),
           (''target_versions'', JObj (map (\<lambda>kv. (fst kv, JInt (snd kv))) tv))]"

lemma canonical_command_valid:
  assumes "valid_command c"
  shows "canonical_command sha256 c tv schema =
    Inr \<lparr>pl_schema_version = schema, canonical_bytes = utf8 (dumps (signed_json c tv schema)),
         pl_sha256 = sha256 (utf8 (dumps (signed_json c tv schema)))\<rparr>"
proof -
  obtain proj where p: "command_projection c = Inr proj"
    and j: "canonical_value (PMap proj) = Inr (JObj (command_json c))"
    using command_projection_valid [OF assms] by blast
  have "canonical_value (PMap [(KStr ''command'', PMap proj), (KStr ''schema_version'', PInt schema),
      (KStr ''target_versions'', versions_map tv)]) = Inr (signed_json c tv schema)"
    using j versions_map_json [of tv] by (simp add: signed_json_def del: canonical_value.simps(1))
      (simp add: canonical_value.simps(1) [of "_ # _"])
  then show ?thesis by (simp add: canonical_command_def p canonical_json_bytes_def)
qed

subsection \<open>What the signature commits to\<close>

text \<open>
  The content of a command as the canonical text records it: ratios at four decimal places,
  instants at whole seconds, everything else exactly.
\<close>

fun signed_content :: "operation_command \<Rightarrow> operation_command" where
  "signed_content (OpenSellerRiskCase c) = OpenSellerRiskCase
     (c\<lparr>os_observation_started_at := to_second (os_observation_started_at c),
        os_observation_ended_at := to_second (os_observation_ended_at c),
        os_observed := to_places (os_observed c),
        os_threshold := to_places (os_threshold c)\<rparr>)"
| "signed_content (CreateAndEnableMetricAlertRule c) =
     CreateAndEnableMetricAlertRule (c\<lparr>ca_threshold := to_places (ca_threshold c)\<rparr>)"
| "signed_content c = c"

lemma command_json_type: "map_of (command_json c) ''type'' = Some (JStr (command_type c))"
  by (cases c) simp_all

lemma command_json_keys: "distinct (map fst (command_json c))"
  by (cases c) simp_all

lemma value_injects [simp]:
  "priority_value p = priority_value q \<longleftrightarrow> p = q"
  "investigation_status_value s = investigation_status_value t \<longleftrightarrow> s = t"
  "risk_disposition_value d = risk_disposition_value e \<longleftrightarrow> d = e"
  "calendar_window_value w = calendar_window_value x \<longleftrightarrow> w = x"
  "alert_comparator_value a = alert_comparator_value b \<longleftrightarrow> a = b"
proof -
  show "priority_value p = priority_value q \<longleftrightarrow> p = q" by (cases p; cases q) simp_all
  show "investigation_status_value s = investigation_status_value t \<longleftrightarrow> s = t"
    by (cases s; cases t) simp_all
  show "risk_disposition_value d = risk_disposition_value e \<longleftrightarrow> d = e" by (cases d; cases e) simp_all
  show "calendar_window_value w = calendar_window_value x \<longleftrightarrow> w = x" by (cases w; cases x) simp_all
  show "alert_comparator_value a = alert_comparator_value b \<longleftrightarrow> a = b" by (cases a; cases b) simp_all
qed

lemma ratio_json_inject:
  assumes "validate_finite_decimal d" "validate_finite_decimal e"
  shows "ratio_json d = ratio_json e \<longleftrightarrow> to_places d = to_places e"
proof -
  obtain s c where d: "quantize 4 d = Some (Dec s c (- 4))" "0 \<le> c"
    using quantize_ratio [OF assms(1)] by blast
  obtain t c' where e: "quantize 4 e = Some (Dec t c' (- 4))" "0 \<le> c'"
    using quantize_ratio [OF assms(2)] by blast
  show ?thesis using d e fixed_str_inject [of 4 s c "- 4" t c' "- 4"]
    by (auto simp: ratio_json_def to_places_def)
qed

lemma norm_leaf [simp]:
  "norm (ratio_json d) = ratio_json d" "norm (time_json t) = time_json t"
  by (simp_all add: ratio_json_def time_json_def)

lemma time_json_inject:
  assumes "in_date_range (to_instant t)" "in_date_range (to_instant u)"
  shows "time_json t = time_json u \<longleftrightarrow> to_second t = to_second u"
  using assms by (simp add: time_json_def to_second_def iso_seconds_inject) (simp add: usec_defs)

lemma norm_evidence: "norm (evidence_json e) = norm (evidence_json f) \<longleftrightarrow> e = f"
  unfolding evidence_json_def by (subst norm_JObj_pointwise) auto

lemma norm_evidence_list:
  "map (norm \<circ> evidence_json) es = map (norm \<circ> evidence_json) fs \<longleftrightarrow> es = fs"
  by (rule inj_map_eq_map) (rule injI, simp add: norm_evidence)

lemma norm_task_ref: "norm (task_ref_json t) = norm (task_ref_json u) \<longleftrightarrow> t = u"
  unfolding task_ref_json_def by (subst norm_JObj_pointwise) auto

lemma norm_pair:
  "k \<noteq> l \<Longrightarrow> norm (JObj [(k, JStr a), (l, JStr b)]) = norm (JObj [(k, JStr c), (l, JStr d)])
     \<longleftrightarrow> a = c \<and> b = d"
  by (subst norm_JObj_pointwise) auto

definition times_in_range :: "operation_command \<Rightarrow> bool" where
  "times_in_range c = (case c of
       OpenSellerRiskCase x \<Rightarrow> in_date_range (to_instant (os_observation_started_at x))
         \<and> in_date_range (to_instant (os_observation_ended_at x))
     | _ \<Rightarrow> True)"

lemma same_type_json:
  assumes "norm (JObj (command_json c)) = norm (JObj (command_json c'))"
  shows "command_type c = command_type c'"
  using norm_JObj_lookup [OF assms command_json_keys command_json_keys, of "''type''"]
  by (simp add: command_json_type)

lemma norm_strings: "map (norm \<circ> JStr) xs = map (norm \<circ> JStr) ys \<longleftrightarrow> xs = ys"
  by (rule inj_map_eq_map) (rule injI, simp)

lemma norm_JObj_eqI:
  "map fst a = map fst b \<Longrightarrow> map (norm \<circ> snd) a = map (norm \<circ> snd) b \<Longrightarrow> norm (JObj a) = norm (JObj b)"
proof -
  assume "map fst a = map fst b" "map (norm \<circ> snd) a = map (norm \<circ> snd) b"
  then have "map (map_prod id norm) a = map (map_prod id norm) b"
    by (induction a b rule: list_induct2') auto
  then show ?thesis by simp
qed

lemma command_json_keys_type:
  "command_type c = command_type c' \<Longrightarrow> map fst (command_json c) = map fst (command_json c')"
  by (cases c; cases c') simp_all

lemma open_seller_risk_case_iff:
  "x1 = x2 \<longleftrightarrow> os_evidence_refs x1 = os_evidence_refs x2
     \<and> os_expected_target_version x1 = os_expected_target_version x2
     \<and> os_seller_ref x1 = os_seller_ref x2
     \<and> os_observation_started_at x1 = os_observation_started_at x2
     \<and> os_observation_ended_at x1 = os_observation_ended_at x2
     \<and> os_metric_ref x1 = os_metric_ref x2 \<and> os_numerator x1 = os_numerator x2
     \<and> os_denominator x1 = os_denominator x2 \<and> os_observed x1 = os_observed x2
     \<and> os_threshold x1 = os_threshold x2 \<and> os_title x1 = os_title x2
     \<and> os_priority x1 = os_priority x2"
  for x1 x2 :: open_seller_risk_case
  by (cases x1; cases x2) auto

lemma create_investigation_task_iff:
  "y1 = y2 \<longleftrightarrow> ct_evidence_refs y1 = ct_evidence_refs y2
     \<and> ct_expected_target_version y1 = ct_expected_target_version y2
     \<and> ct_title y1 = ct_title y2 \<and> ct_priority y1 = ct_priority y2
     \<and> ct_public_summary y1 = ct_public_summary y2"
  for y1 y2 :: create_investigation_task
  by (cases y1; cases y2) auto

lemma create_investigation_from_alert_hit_iff:
  "z1 = z2 \<longleftrightarrow> ch_evidence_refs z1 = ch_evidence_refs z2
     \<and> ch_expected_target_version z1 = ch_expected_target_version z2
     \<and> ch_alert_hit_ref z1 = ch_alert_hit_ref z2 \<and> ch_title z1 = ch_title z2
     \<and> ch_priority z1 = ch_priority z2"
  for z1 z2 :: create_investigation_from_alert_hit
  by (cases z1; cases z2) auto

lemma create_and_enable_metric_alert_rule_iff:
  "u1 = u2 \<longleftrightarrow> ca_evidence_refs u1 = ca_evidence_refs u2
     \<and> ca_expected_target_version u1 = ca_expected_target_version u2
     \<and> ca_alert_backtest_ref u1 = ca_alert_backtest_ref u2
     \<and> ca_metric_ref u1 = ca_metric_ref u2 \<and> ca_grain u1 = ca_grain u2
     \<and> ca_window u1 = ca_window u2 \<and> ca_comparator u1 = ca_comparator u2
     \<and> ca_threshold u1 = ca_threshold u2
     \<and> ca_minimum_denominator u1 = ca_minimum_denominator u2
     \<and> ca_filter_refs u1 = ca_filter_refs u2"
  for u1 u2 :: create_and_enable_metric_alert_rule
  by (cases u1; cases u2) auto

lemma assign_investigation_iff:
  "v1 = v2 \<longleftrightarrow> ai_evidence_refs v1 = ai_evidence_refs v2
     \<and> ai_task_ref v1 = ai_task_ref v2
     \<and> ai_expected_target_version v1 = ai_expected_target_version v2
     \<and> ai_assignee_ref v1 = ai_assignee_ref v2"
  for v1 v2 :: assign_investigation
  by (cases v1; cases v2) auto

lemma transition_investigation_iff:
  "p1 = p2 \<longleftrightarrow> ti_evidence_refs p1 = ti_evidence_refs p2
     \<and> ti_task_ref p1 = ti_task_ref p2
     \<and> ti_expected_target_version p1 = ti_expected_target_version p2
     \<and> ti_from_status p1 = ti_from_status p2 \<and> ti_to_status p1 = ti_to_status p2
     \<and> ti_reason_code p1 = ti_reason_code p2"
  for p1 p2 :: transition_investigation
  by (cases p1; cases p2) auto

lemma add_investigation_conclusion_iff:
  "q1 = q2 \<longleftrightarrow> ac_evidence_refs q1 = ac_evidence_refs q2
     \<and> ac_task_ref q1 = ac_task_ref q2
     \<and> ac_expected_target_version q1 = ac_expected_target_version q2
     \<and> ac_conclusion_code q1 = ac_conclusion_code q2
     \<and> ac_conclusion_summary q1 = ac_conclusion_summary q2"
  for q1 q2 :: add_investigation_conclusion
  by (cases q1; cases q2) auto

lemma close_investigation_iff:
  "r1 = r2 \<longleftrightarrow> cl_evidence_refs r1 = cl_evidence_refs r2
     \<and> cl_task_ref r1 = cl_task_ref r2
     \<and> cl_expected_target_version r1 = cl_expected_target_version r2
     \<and> cl_conclusion_ref r1 = cl_conclusion_ref r2
     \<and> cl_risk_disposition r1 = cl_risk_disposition r2"
  for r1 r2 :: close_investigation
  by (cases r1; cases r2) auto

lemmas command_record_iffs =
  open_seller_risk_case_iff
  create_investigation_task_iff
  create_investigation_from_alert_hit_iff
  create_and_enable_metric_alert_rule_iff
  assign_investigation_iff
  transition_investigation_iff
  add_investigation_conclusion_iff
  close_investigation_iff

lemma command_json_inject:
  assumes "valid_command c" "valid_command c'" "times_in_range c" "times_in_range c'"
  shows "norm (JObj (command_json c)) = norm (JObj (command_json c')) \<longleftrightarrow> signed_content c = signed_content c'"
proof (cases "command_type c = command_type c'")
  case True
  then have pw: "norm (JObj (command_json c)) = norm (JObj (command_json c'))
      \<longleftrightarrow> map (norm \<circ> snd) (command_json c) = map (norm \<circ> snd) (command_json c')"
    by (intro norm_JObj_pointwise command_json_keys_type command_json_keys)
  show ?thesis
    unfolding pw using True assms
    by (cases c; cases c')
      (auto simp: norm_evidence_list norm_strings norm_task_ref norm_pair ratio_json_inject
        time_json_inject times_in_range_def contract_defs command_record_iffs simp del: norm.simps(6) split: option.splits)
next
  case False
  then have "norm (JObj (command_json c)) \<noteq> norm (JObj (command_json c'))"
    using same_type_json by blast
  moreover have "signed_content c \<noteq> signed_content c'" using False by (cases c; cases c') auto
  ultimately show ?thesis by simp
qed

lemma norm_versions:
  assumes "distinct (map fst tv)" "distinct (map fst tv')"
  shows "norm (JObj (map (\<lambda>kv. (fst kv, JInt (snd kv))) tv))
       = norm (JObj (map (\<lambda>kv. (fst kv, JInt (snd kv))) tv')) \<longleftrightarrow> dict_eq tv tv'"
proof -
  define f :: "string \<times> int \<Rightarrow> string \<times> json" where "f kv = (fst kv, JInt (snd kv))" for kv
  have n: "norm (JObj (map f vs)) = JObj (sort_key fst (map f vs))" for vs
    by (simp add: f_def [abs_def] comp_def)
  have inj: "inj f" by (rule injI) (auto simp: f_def prod_eq_iff)
  have d: "distinct (map fst (map f vs))" if "distinct (map fst vs)" for vs
    using that by (simp add: f_def comp_def)
  have "sort_key fst (map f tv) = sort_key fst (map f tv') \<longleftrightarrow> set tv = set tv'"
  proof
    assume "sort_key fst (map f tv) = sort_key fst (map f tv')"
    then have "f ` set tv = f ` set tv'" by (metis set_sort set_map)
    then show "set tv = set tv'" using inj by (simp add: inj_image_eq_iff)
  next
    assume eq: "set tv = set tv'"
    have "mset tv = mset tv'"
      using eq assms by (metis distinct_map set_eq_iff_mset_eq_distinct)
    then show "sort_key fst (map f tv) = sort_key fst (map f tv')"
      using d [OF assms(1)] by (intro sort_key_fst_unique) simp_all
  qed
  then show ?thesis using n unfolding f_def dict_eq_def by simp
qed

lemma signed_bytes_inject:
  assumes "valid_command c" "valid_command c'" "times_in_range c" "times_in_range c'"
    "distinct (map fst tv)" "distinct (map fst tv')"
  shows "utf8 (dumps (signed_json c tv s)) = utf8 (dumps (signed_json c' tv' s'))
    \<longleftrightarrow> signed_content c = signed_content c' \<and> s = s' \<and> dict_eq tv tv'"
proof -
  have "norm (signed_json c tv s) = norm (signed_json c' tv' s')
    \<longleftrightarrow> norm (JObj (command_json c)) = norm (JObj (command_json c')) \<and> s = s'
       \<and> norm (JObj (map (\<lambda>kv. (fst kv, JInt (snd kv))) tv))
         = norm (JObj (map (\<lambda>kv. (fst kv, JInt (snd kv))) tv'))"
    unfolding signed_json_def
    by (subst norm_JObj_pointwise) (simp_all del: norm.simps(6))
  then show ?thesis
    using command_json_inject [OF assms(1-4)] norm_versions [OF assms(5,6)]
    by (simp add: utf8_inject dumps_inject)
qed

subsection \<open>Sample commands\<close>

definition sample_digest :: string where "sample_digest = replicate 64 CHR ''a''"

definition sample_evidence :: evidence_ref where
  "sample_evidence = \<lparr>ev_kind = ''query'', ev_ref = ''q-1'', ev_digest = sample_digest\<rparr>"

definition sample_rule :: "decimal \<Rightarrow> operation_command" where
  "sample_rule d = CreateAndEnableMetricAlertRule
     \<lparr>ca_evidence_refs = [sample_evidence], ca_expected_target_version = 0,
      ca_alert_backtest_ref = \<lparr>backtest_id = 7, rule_spec_digest = sample_digest\<rparr>,
      ca_metric_ref = \<lparr>mr_name = ''late_delivery_rate'', mr_revision = ''1''\<rparr>,
      ca_grain = ''seller'', ca_window = WEEK, ca_comparator = GREATER_THAN, ca_threshold = d,
      ca_minimum_denominator = 10, ca_filter_refs = []\<rparr>"

definition sample_task :: operation_command where
  "sample_task = CreateInvestigationTask
     \<lparr>ct_evidence_refs = [sample_evidence], ct_expected_target_version = 0, ct_title = ''Check'',
      ct_priority = High, ct_public_summary = ''Check the late orders''\<rparr>"

lemma valid_sample_task: "valid_command sample_task"
  by code_simp

lemma times_sample_task: "times_in_range sample_task"
  by code_simp

subsection \<open>Properties of the signed payload\<close>

text \<open>
  C6: the approved bytes commit to the command. For two valid commands whose instants lie in
  Python's date range, the canonical payloads are byte for byte equal exactly when the commands
  agree on every field (ratios compared at the four signed decimal places, observation bounds at
  whole seconds), the schema version is the same, and the target versions are equal as dicts.
\<close>

theorem canonical_payload_commits:
  assumes "valid_command c" "valid_command c'" "times_in_range c" "times_in_range c'"
    "distinct (map fst tv)" "distinct (map fst tv')"
    "canonical_command h c tv s = Inr p" "canonical_command h c' tv' s' = Inr p'"
  shows "canonical_bytes p = canonical_bytes p'
    \<longleftrightarrow> signed_content c = signed_content c' \<and> s = s' \<and> dict_eq tv tv'"
  using assms signed_bytes_inject [OF assms(1-6), of s s']
  by (auto simp: canonical_command_valid)

theorem canonical_payload_commits_witness:
  "\<exists>p. canonical_command (\<lambda>_. sample_digest) sample_task [(''investigation_task'', 0)] 1 = Inr p
     \<and> (canonical_bytes p = canonical_bytes p
        \<longleftrightarrow> signed_content sample_task = signed_content sample_task \<and> (1::int) = 1
            \<and> dict_eq [(''investigation_task'', 0::int)] [(''investigation_task'', 0)])"
proof -
  obtain p where p: "canonical_command (\<lambda>_. sample_digest) sample_task [(''investigation_task'', 0)] 1 = Inr p"
    by (simp add: canonical_command_valid valid_sample_task)
  have "canonical_bytes p = canonical_bytes p
      \<longleftrightarrow> signed_content sample_task = signed_content sample_task \<and> (1::int) = 1
          \<and> dict_eq [(''investigation_task'', 0::int)] [(''investigation_task'', 0)]"
    by (rule canonical_payload_commits [OF valid_sample_task valid_sample_task times_sample_task
          times_sample_task _ _ p p]) simp_all
  with p show ?thesis by blast
qed

text \<open>
  No field escapes the signature. For every command, the table of signed fields lists exactly
  the attributes of its class, none twice.
\<close>

theorem signed_fields_complete:
  "\<exists>fs. map_of command_fields (command_type c) = Some fs \<and> distinct fs
     \<and> set fs = fst ` set (command_attributes c)"
  by (cases c) (auto simp: command_fields_def)

text \<open>
  The four signed places lose two of the six a command may carry: the commands that enable
  the same alert rule at the thresholds 0.12341 and 0.12342 are both valid and differ, yet their
  canonical payloads (and so the digests the approver signs) are the same.
\<close>

theorem threshold_payload_collision:
  "valid_command (sample_rule (Dec False 12341 (- 5))) \<and> valid_command (sample_rule (Dec False 12342 (- 5)))
   \<and> sample_rule (Dec False 12341 (- 5)) \<noteq> sample_rule (Dec False 12342 (- 5))
   \<and> canonical_command h (sample_rule (Dec False 12341 (- 5))) tv s
     = canonical_command h (sample_rule (Dec False 12342 (- 5))) tv s"
proof -
  have v: "valid_command (sample_rule (Dec False 12341 (- 5)))"
    "valid_command (sample_rule (Dec False 12342 (- 5)))" by code_simp+
  have "command_json (sample_rule (Dec False 12341 (- 5))) = command_json (sample_rule (Dec False 12342 (- 5)))"
    by code_simp
  with v show ?thesis by (simp add: canonical_command_valid signed_json_def) (simp add: sample_rule_def)
qed

end
