(* ===== verification/Base64.thy ===== *)
theory Base64
  imports Json
begin

text \<open>
  The URL-safe base64 of Python's \<open>base64\<close> module, as the nonce codec of
  \<open>src/commerce_agent/operations/_approval.py\<close> uses it: \<open>urlsafe_b64encode\<close> with its padding,
  \<open>str.rstrip("=")\<close>, and \<open>urlsafe_b64decode\<close>, whose scanner (\<open>binascii.a2b_base64\<close> in
  its default, non-strict mode) skips characters outside the alphabet and stops at a complete
  padding. The round trip is proved for byte strings of every length.
\<close>

definition b64_char :: "nat \<Rightarrow> char" where
  "b64_char n =
     (if n < 26 then char_of (65 + n)
      else if n < 52 then char_of (71 + n)
      else if n < 62 then char_of (n - 4)
      else if n = 62 then CHR ''-'' else CHR ''_'')"

text \<open>\<open>urlsafe_b64decode\<close> first maps - and _ to + and /, and so reads both alphabets.\<close>

definition b64_val :: "char \<Rightarrow> nat option" where
  "b64_val c = (let n = of_char c :: nat in
     if is_upper c then Some (n - 65)
     else if is_lower c then Some (n - 71)
     else if is_digit c then Some (n + 4)
     else if c = CHR ''-'' \<or> c = CHR ''+'' then Some 62
     else if c = CHR ''_'' \<or> c = CHR ''/'' then Some 63
     else None)"

fun b64_body :: "bytes \<Rightarrow> string" where
  "b64_body [] = []"
| "b64_body [a] = [b64_char (unat a div 4), b64_char (unat a mod 4 * 16)]"
| "b64_body [a, b] =
     [b64_char (unat a div 4), b64_char (unat a mod 4 * 16 + unat b div 16),
      b64_char (unat b mod 16 * 4)]"
| "b64_body (a # b # c # bs) =
     b64_char (unat a div 4) # b64_char (unat a mod 4 * 16 + unat b div 16)
     # b64_char (unat b mod 16 * 4 + unat c div 64) # b64_char (unat c mod 64) # b64_body bs"

definition pad_count :: "nat \<Rightarrow> nat" where
  "pad_count n = (4 - n mod 4) mod 4"

definition urlsafe_b64encode :: "bytes \<Rightarrow> string" where
  "urlsafe_b64encode bs = b64_body bs @ replicate (pad_count (length (b64_body bs))) CHR ''=''"

definition rstrip :: "char \<Rightarrow> string \<Rightarrow> string" where
  "rstrip c s = rev (dropWhile (\<lambda>d. d = c) (rev s))"

text \<open>The scanner: position in the quad, padding seen, bits left over from the last character.\<close>

fun a2b :: "string \<Rightarrow> nat \<Rightarrow> nat \<Rightarrow> nat \<Rightarrow> bytes option" where
  "a2b [] quad pads left = (if quad = 0 then Some [] else None)"
| "a2b (c # cs) quad pads left =
     (if c = CHR ''='' then
        if 2 \<le> quad \<and> 4 \<le> quad + (pads + 1) then Some []
        else a2b cs quad (if 2 \<le> quad then pads + 1 else pads) left
      else case b64_val c of
          None \<Rightarrow> a2b cs quad pads left
        | Some v \<Rightarrow>
            if quad = 0 then a2b cs 1 0 v
            else if quad = 1 then
              map_option ((#) (of_nat (left * 4 + v div 16))) (a2b cs 2 0 (v mod 16))
            else if quad = 2 then
              map_option ((#) (of_nat (left * 16 + v div 4))) (a2b cs 3 0 (v mod 4))
            else map_option ((#) (of_nat (left * 64 + v))) (a2b cs 0 0 0))"

definition is_ascii :: "char \<Rightarrow> bool" where
  "is_ascii c \<longleftrightarrow> (of_char c :: nat) < 128"

text \<open>\<open>padded.encode("ascii")\<close> followed by \<open>urlsafe_b64decode\<close>; None for either error.\<close>

definition urlsafe_b64decode :: "string \<Rightarrow> bytes option" where
  "urlsafe_b64decode s = (if list_all is_ascii s then a2b s 0 0 0 else None)"

subsection \<open>Round trip\<close>

lemma of_char_b64_char:
  "n < 64 \<Longrightarrow> (of_char (b64_char n) :: nat)
     = (if n < 26 then 65 + n else if n < 52 then 71 + n else if n < 62 then n - 4
        else if n = 62 then 45 else 95)"
  by (simp add: b64_char_def)

lemma char_code: "c = d \<longleftrightarrow> (of_char c :: nat) = of_char d"
  by simp

lemma b64_val_char [simp]: "n < 64 \<Longrightarrow> b64_val (b64_char n) = Some n"
  unfolding b64_val_def Let_def is_upper_def is_lower_def is_digit_def less_eq_char_def
    char_code [of "b64_char n"]
  by (simp add: of_char_b64_char) arith

lemma b64_char_ascii [simp]: "n < 64 \<Longrightarrow> is_ascii (b64_char n)"
  by (simp add: is_ascii_def of_char_b64_char) arith

lemma b64_char_not_pad [simp]: "n < 64 \<Longrightarrow> b64_char n \<noteq> CHR ''=''"
  unfolding char_code [of "b64_char n"] by (simp add: of_char_b64_char) arith

lemma byte_lt: "unat (a :: 8 word) < 256"
  using unsigned_less [of a] by simp

lemma sextets [simp]:
  "unat (a :: 8 word) div 4 < 64" "unat a mod 4 * 16 < 64" "unat b mod 16 * 4 < 64"
  "unat a mod 4 * 16 + unat (b :: 8 word) div 16 < 64"
  "unat b mod 16 * 4 + unat (c :: 8 word) div 64 < 64" "unat c mod 64 < 64"
proof -
  have lt: "unat a < 256" "unat b < 256" "unat c < 256" by (rule byte_lt)+
  then have "unat a div 4 < 64" "unat b div 16 < 16" "unat c div 64 < 4"
    by (simp_all add: div_less_iff_less_mult)
  moreover have "unat a mod 4 < 4" "unat b mod 16 < 16" by simp_all
  ultimately show "unat a div 4 < 64" "unat a mod 4 * 16 < 64" "unat b mod 16 * 4 < 64"
    "unat a mod 4 * 16 + unat b div 16 < 64" "unat b mod 16 * 4 + unat c div 64 < 64" "unat c mod 64 < 64"
    by linarith+
qed

lemma b64_body_clean: "list_all is_ascii (b64_body bs) \<and> CHR ''='' \<notin> set (b64_body bs)"
  by (induction bs rule: b64_body.induct) (auto dest: sym)

lemma rstrip_encode: "rstrip CHR ''='' (urlsafe_b64encode bs) = b64_body bs"
proof -
  have clean: "CHR ''='' \<notin> set (b64_body bs)" using b64_body_clean by blast
  then have "dropWhile (\<lambda>d. d = CHR ''='') (rev (b64_body bs)) = rev (b64_body bs)"
    by (cases "b64_body bs" rule: rev_cases) auto
  moreover have "dropWhile (\<lambda>d. d = CHR ''='') (replicate k CHR ''='' @ xs) = dropWhile (\<lambda>d. d = CHR ''='') xs"
    for k xs by (induction k) auto
  ultimately show ?thesis by (simp add: rstrip_def urlsafe_b64encode_def)
qed

lemma recombine:
  "of_nat (unat a div 4 * 4 + (unat a mod 4 * 16) div 16) = (a :: 8 word)"
  "of_nat (unat a div 4 * 4 + (unat a mod 4 * 16 + unat b div 16) div 16) = (a :: 8 word)"
  "of_nat ((unat a mod 4 * 16 + unat b div 16) mod 16 * 16 + (unat b mod 16 * 4) div 4) = (b :: 8 word)"
  "of_nat ((unat a mod 4 * 16 + unat b div 16) mod 16 * 16 + (unat b mod 16 * 4 + unat c div 64) div 4) = (b :: 8 word)"
  "of_nat ((unat b mod 16 * 4 + unat c div 64) mod 4 * 64 + unat c mod 64) = (c :: 8 word)"
proof -
  have lt: "unat a < 256" "unat b < 256" "unat c < 256" by (rule byte_lt)+
  then have d: "unat b div 16 < 16" "unat c div 64 < 4" by (simp_all add: div_less_iff_less_mult)
  show "of_nat (unat a div 4 * 4 + (unat a mod 4 * 16) div 16) = a" by simp
  have "unat a div 4 * 4 + (unat a mod 4 * 16 + unat b div 16) div 16 = unat a" using d by simp
  then show "of_nat (unat a div 4 * 4 + (unat a mod 4 * 16 + unat b div 16) div 16) = a"
    by (simp only: of_nat_unat ucast_id)
  have "(unat a mod 4 * 16 + unat b div 16) mod 16 * 16 + (unat b mod 16 * 4) div 4 = unat b" using d by simp
  then show "of_nat ((unat a mod 4 * 16 + unat b div 16) mod 16 * 16 + (unat b mod 16 * 4) div 4) = b"
    by (simp only: of_nat_unat ucast_id)
  have "(unat a mod 4 * 16 + unat b div 16) mod 16 * 16 + (unat b mod 16 * 4 + unat c div 64) div 4 = unat b"
    using d by simp
  then show "of_nat ((unat a mod 4 * 16 + unat b div 16) mod 16 * 16 + (unat b mod 16 * 4 + unat c div 64) div 4) = b"
    by (simp only: of_nat_unat ucast_id)
  have "(unat b mod 16 * 4 + unat c div 64) mod 4 * 64 + unat c mod 64 = unat c" using d by simp
  then show "of_nat ((unat b mod 16 * 4 + unat c div 64) mod 4 * 64 + unat c mod 64) = c"
    by (simp only: of_nat_unat ucast_id)
qed

lemma length_b64_body_mod: "length (b64_body (a # b # c # bs)) mod 4 = length (b64_body bs) mod 4"
proof -
  have "length (b64_body (a # b # c # bs)) = 4 + length (b64_body bs)" by simp
  then show ?thesis by (simp only: mod_add_self1)
qed

lemma pads: "replicate (pad_count 0) x = []" "replicate (pad_count 2) x = [x, x]"
  "replicate (pad_count 3) x = [x]"
  by (simp_all add: pad_count_def numeral_2_eq_2)

lemma a2b_char:
  assumes "n < 64"
  shows "a2b (b64_char n # cs) 0 p l = a2b cs 1 0 n"
    "a2b (b64_char n # cs) 1 p l = map_option ((#) (of_nat (l * 4 + n div 16))) (a2b cs 2 0 (n mod 16))"
    "a2b (b64_char n # cs) 2 p l = map_option ((#) (of_nat (l * 16 + n div 4))) (a2b cs 3 0 (n mod 4))"
    "a2b (b64_char n # cs) 3 p l = map_option ((#) (of_nat (l * 64 + n))) (a2b cs 0 0 0)"
  using assms by simp_all

lemma a2b_pads: "a2b [CHR ''='', CHR ''=''] 2 0 l = Some []" "a2b [CHR ''=''] 3 0 l = Some []"
  by simp_all

lemma a2b_body: "a2b (b64_body bs @ replicate (pad_count (length (b64_body bs))) CHR ''='') 0 0 0 = Some bs"
proof (induction bs rule: b64_body.induct)
  case 1
  then show ?case by (simp add: pad_count_def)
next
  case (2 a)
  have "length (b64_body [a]) = 2" by simp
  then show ?case
    by (simp only: pads b64_body.simps append.simps a2b_char sextets a2b_pads recombine option.map)
next
  case (3 a b)
  have "length (b64_body [a, b]) = 3" by simp
  then show ?case
    by (simp only: pads b64_body.simps append.simps a2b_char sextets a2b_pads recombine option.map)
next
  case (4 a b c bs)
  have "pad_count (length (b64_body (a # b # c # bs))) = pad_count (length (b64_body bs))"
    unfolding pad_count_def length_b64_body_mod ..
  then show ?case
    by (simp only: 4 b64_body.simps append.simps a2b_char sextets recombine option.map)
qed

theorem b64_roundtrip:
  "urlsafe_b64decode (rstrip CHR ''='' (urlsafe_b64encode bs)
     @ replicate (pad_count (length (rstrip CHR ''='' (urlsafe_b64encode bs)))) CHR ''='') = Some bs"
  using b64_body_clean [of bs] a2b_body [of bs]
  by (auto simp: urlsafe_b64decode_def rstrip_encode list_all_iff is_ascii_def)

lemma length_b64_body: "length (b64_body bs) = (4 * length bs + 2) div 3"
  by (induction bs rule: b64_body.induct) simp_all

end
