(* ===== verification/Op_Approval.thy ===== *)
theory Op_Approval
  imports Op_Canonical Base64
begin

text \<open>
  Approval grants (\<open>src/commerce_agent/operations/_approval.py\<close>): the signed envelope, the
  keyring, issuing and verifying a grant. The clock is the argument \<open>now\<close>, the nonce source the
  argument \<open>raw_nonce\<close>. The digest functions, the JSON text pydantic gives an instant, and
  \<open>uuid5\<close> are the fields of \<open>externals\<close>.
\<close>

record externals =
  x_sha256 :: "bytes \<Rightarrow> string"
  x_hmac_sha256 :: "bytes \<Rightarrow> bytes \<Rightarrow> string"
  x_json_datetime :: "instant \<Rightarrow> string"
  x_uuid5 :: "string \<Rightarrow> uuid"

text \<open>The documented shape of a hexadecimal SHA-256 digest.\<close>

definition hex_digests :: "externals \<Rightarrow> bool" where
  "hex_digests X \<longleftrightarrow> (\<forall>b. hex64 (x_sha256 X b)) \<and> (\<forall>k b. hex64 (x_hmac_sha256 X k b))"

subsection \<open>Envelope and stored approval\<close>

record approval_envelope =
  ae_schema_version :: int
  ae_proposal_id :: uuid
  ae_proposal_version :: int
  ae_payload_sha256 :: string
  ae_requester_id :: uuid
  ae_approver_id :: uuid
  ae_target_versions :: target_versions
  ae_expires_at :: instant
  ae_nonce :: string

definition valid_approval_envelope :: "approval_envelope \<Rightarrow> bool" where [contract_defs]:
  "valid_approval_envelope e \<longleftrightarrow>
     1 \<le> ae_schema_version e \<and> 1 \<le> ae_proposal_version e \<and> hex64 (ae_payload_sha256 e)
     \<and> valid_target_versions (ae_target_versions e) \<and> len_ok 4 128 (ae_nonce e)"

definition envelope_projection :: "approval_envelope \<Rightarrow> op_error + pyval" where
  "envelope_projection e =
     rbind (utc_z (Aware (ae_expires_at e) 0)) (\<lambda>expires.
     Inr (PMap
       [(KStr ''schema_version'', PInt (ae_schema_version e)),
        (KStr ''proposal_id'', PStr (uuid_str (ae_proposal_id e))),
        (KStr ''proposal_version'', PInt (ae_proposal_version e)),
        (KStr ''payload_sha256'', PStr (ae_payload_sha256 e)),
        (KStr ''requester_id'', PStr (uuid_str (ae_requester_id e))),
        (KStr ''approver_id'', PStr (uuid_str (ae_approver_id e))),
        (KStr ''target_versions'', versions_map (ae_target_versions e)),
        (KStr ''expires_at'', PStr expires),
        (KStr ''nonce'', PStr (ae_nonce e))]))"

definition envelope_bytes :: "approval_envelope \<Rightarrow> op_error + bytes" where
  "envelope_bytes e = rbind (envelope_projection e) canonical_json_bytes"

record stored_approval =
  sa_proposal_ref :: proposal_ref
  sa_payload_sha256 :: string
  sa_requester_id :: uuid
  sa_approver_id :: uuid
  sa_target_versions :: target_versions
  sa_expires_at :: instant
  sa_nonce_digest :: string
  sa_key_version :: int

definition valid_stored_approval :: "stored_approval \<Rightarrow> bool" where [contract_defs]:
  "valid_stored_approval a \<longleftrightarrow>
     valid_proposal_ref (sa_proposal_ref a) \<and> hex64 (sa_payload_sha256 a)
     \<and> valid_target_versions (sa_target_versions a) \<and> hex64 (sa_nonce_digest a)
     \<and> 1 \<le> sa_key_version a"

subsection \<open>Keyring\<close>

record keyring =
  kr_keys :: "int \<rightharpoonup> bytes"
  active_version :: int

text \<open>The constructor's check; \<open>keys\<close> is the mapping it is given.\<close>

definition make_keyring :: "(int \<times> bytes) list \<Rightarrow> int \<Rightarrow> op_error + keyring" where
  "make_keyring keys active =
     (if map_of keys active = None \<or> \<not> list_all (\<lambda>kv. snd kv \<noteq> []) keys
      then Inl ValueError
      else Inr \<lparr>kr_keys = map_of keys, active_version = active\<rparr>)"

definition sign :: "externals \<Rightarrow> keyring \<Rightarrow> int \<Rightarrow> bytes \<Rightarrow> op_error + string" where
  "sign X kr v msg = (case kr_keys kr v of
       None \<Rightarrow> Inl (approval_error ''approval_key_unavailable'')
     | Some key \<Rightarrow> Inr (x_hmac_sha256 X key msg))"

definition verify_signature :: "externals \<Rightarrow> keyring \<Rightarrow> int \<Rightarrow> bytes \<Rightarrow> string \<Rightarrow> op_error + bool" where
  "verify_signature X kr v msg signature =
     rbind (sign X kr v msg) (\<lambda>expected. Inr (expected = signature))"

subsection \<open>Issuing and verifying a grant\<close>

definition grant_minutes :: int where "grant_minutes = 10"

definition construct :: "('a \<Rightarrow> bool) \<Rightarrow> 'a \<Rightarrow> op_error + 'a" where
  "construct ok x = (if ok x then Inr x else Inl ValidationError)"

definition issue_grant ::
    "externals \<Rightarrow> keyring \<Rightarrow> bytes \<Rightarrow> instant \<Rightarrow> proposal_ref \<Rightarrow> string \<Rightarrow> uuid \<Rightarrow> actor_context
       \<Rightarrow> target_versions \<Rightarrow> op_error + execution_grant \<times> string" where
  "issue_grant X kr raw_nonce now pref payload requester approver tv =
     (if length raw_nonce \<noteq> 32 then Inl (approval_error ''nonce_entropy_invalid'')
      else
        let nonce = rstrip CHR ''='' (urlsafe_b64encode raw_nonce);
            expires_at = now + grant_minutes * usec_per_minute in
        rbind (construct valid_approval_envelope
          \<lparr>ae_schema_version = 1, ae_proposal_id = proposal_id pref,
           ae_proposal_version = pr_version pref, ae_payload_sha256 = payload,
           ae_requester_id = requester, ae_approver_id = actor_id approver,
           ae_target_versions = tv, ae_expires_at = expires_at, ae_nonce = nonce\<rparr>) (\<lambda>envelope.
        rbind (envelope_bytes envelope) (\<lambda>msg.
        rbind (sign X kr (active_version kr) msg) (\<lambda>signature.
        rbind (construct valid_execution_grant
          \<lparr>eg_proposal_id = proposal_id pref, eg_proposal_version = pr_version pref,
           eg_payload_sha256 = payload, eg_requester_id = requester,
           eg_approver_id = actor_id approver, eg_target_versions = tv,
           eg_expires_at = expires_at, eg_nonce = nonce, eg_key_version = active_version kr,
           eg_signature = signature\<rparr>) (\<lambda>grant.
        Inr (grant, x_sha256 X raw_nonce))))))"

definition grant_envelope :: "execution_grant \<Rightarrow> approval_envelope" where
  "grant_envelope g =
     \<lparr>ae_schema_version = 1, ae_proposal_id = eg_proposal_id g,
      ae_proposal_version = eg_proposal_version g, ae_payload_sha256 = eg_payload_sha256 g,
      ae_requester_id = eg_requester_id g, ae_approver_id = eg_approver_id g,
      ae_target_versions = eg_target_versions g, ae_expires_at = eg_expires_at g,
      ae_nonce = eg_nonce g\<rparr>"

definition bindings_match :: "execution_grant \<Rightarrow> stored_approval \<Rightarrow> bool" where
  "bindings_match g a \<longleftrightarrow>
     eg_proposal_id g = proposal_id (sa_proposal_ref a)
     \<and> eg_proposal_version g = pr_version (sa_proposal_ref a)
     \<and> eg_payload_sha256 g = sa_payload_sha256 a
     \<and> eg_requester_id g = sa_requester_id a
     \<and> dict_eq (eg_target_versions g) (sa_target_versions a)
     \<and> eg_expires_at g = sa_expires_at a
     \<and> eg_key_version g = sa_key_version a"

definition verify_grant ::
    "externals \<Rightarrow> keyring \<Rightarrow> instant \<Rightarrow> execution_grant \<Rightarrow> stored_approval \<Rightarrow> actor_context
       \<Rightarrow> op_error + unit" where
  "verify_grant X kr now g stored actor =
     (if actor_id actor \<noteq> eg_approver_id g \<or> actor_id actor \<noteq> sa_approver_id stored
      then Inl (authorization_error ''grant_actor_mismatch'')
      else
        rbind (construct valid_approval_envelope (grant_envelope g)) (\<lambda>envelope.
        rbind (envelope_bytes envelope) (\<lambda>msg.
        rbind (verify_signature X kr (eg_key_version g) msg (eg_signature g)) (\<lambda>ok.
        if \<not> ok then Inl (approval_error ''signature_invalid'')
        else if \<not> bindings_match g stored then Inl (approval_error ''signature_invalid'')
        else case urlsafe_b64decode
                    (eg_nonce g @ replicate (pad_count (length (eg_nonce g))) CHR ''='') of
            None \<Rightarrow> Inl (approval_error ''signature_invalid'')
          | Some raw_nonce \<Rightarrow>
              if x_sha256 X raw_nonce \<noteq> sa_nonce_digest stored
              then Inl (approval_error ''signature_invalid'')
              else if eg_expires_at g \<le> now then Inl (approval_error ''grant_expired'')
              else Inr ()))))"

text \<open>\<open>execution_grant_sha256\<close>: the digest of \<open>grant.model_dump(mode="json")\<close>.\<close>

definition grant_dump :: "externals \<Rightarrow> execution_grant \<Rightarrow> pyval" where
  "grant_dump X g = PMap
     [(KStr ''proposal_id'', PStr (uuid_str (eg_proposal_id g))),
      (KStr ''proposal_version'', PInt (eg_proposal_version g)),
      (KStr ''payload_sha256'', PStr (eg_payload_sha256 g)),
      (KStr ''requester_id'', PStr (uuid_str (eg_requester_id g))),
      (KStr ''approver_id'', PStr (uuid_str (eg_approver_id g))),
      (KStr ''target_versions'', versions_map (eg_target_versions g)),
      (KStr ''expires_at'', PStr (x_json_datetime X (eg_expires_at g))),
      (KStr ''nonce'', PStr (eg_nonce g)),
      (KStr ''key_version'', PInt (eg_key_version g)),
      (KStr ''signature'', PStr (eg_signature g))]"

definition execution_grant_sha256 :: "externals \<Rightarrow> execution_grant \<Rightarrow> op_error + string" where
  "execution_grant_sha256 X g =
     rbind (canonical_json_bytes (grant_dump X g)) (\<lambda>bs. Inr (x_sha256 X bs))"

subsection \<open>Canonical texts never fail\<close>

definition envelope_json :: "approval_envelope \<Rightarrow> (string \<times> json) list" where
  "envelope_json e =
     [(''schema_version'', JInt (ae_schema_version e)),
      (''proposal_id'', JStr (uuid_str (ae_proposal_id e))),
      (''proposal_version'', JInt (ae_proposal_version e)),
      (''payload_sha256'', JStr (ae_payload_sha256 e)),
      (''requester_id'', JStr (uuid_str (ae_requester_id e))),
      (''approver_id'', JStr (uuid_str (ae_approver_id e))),
      (''target_versions'', JObj (map (\<lambda>kv. (fst kv, JInt (snd kv))) (ae_target_versions e))),
      (''expires_at'', JStr (iso_seconds (ae_expires_at e) @ ''Z'')),
      (''nonce'', JStr (ae_nonce e))]"

definition grant_json :: "externals \<Rightarrow> execution_grant \<Rightarrow> (string \<times> json) list" where
  "grant_json X g =
     [(''proposal_id'', JStr (uuid_str (eg_proposal_id g))),
      (''proposal_version'', JInt (eg_proposal_version g)),
      (''payload_sha256'', JStr (eg_payload_sha256 g)),
      (''requester_id'', JStr (uuid_str (eg_requester_id g))),
      (''approver_id'', JStr (uuid_str (eg_approver_id g))),
      (''target_versions'', JObj (map (\<lambda>kv. (fst kv, JInt (snd kv))) (eg_target_versions g))),
      (''expires_at'', JStr (x_json_datetime X (eg_expires_at g))),
      (''nonce'', JStr (eg_nonce g)),
      (''key_version'', JInt (eg_key_version g)),
      (''signature'', JStr (eg_signature g))]"

lemma envelope_bytes_eq: "envelope_bytes e = Inr (utf8 (dumps (JObj (envelope_json e))))"
  by (simp add: envelope_bytes_def envelope_projection_def utc_z_def canonical_json_bytes_def
      envelope_json_def versions_map_json)

lemma grant_bytes_eq: "canonical_json_bytes (grant_dump X g) = Inr (utf8 (dumps (JObj (grant_json X g))))"
  by (simp add: grant_dump_def canonical_json_bytes_def grant_json_def versions_map_json)

lemma grant_sha_eq: "execution_grant_sha256 X g = Inr (x_sha256 X (utf8 (dumps (JObj (grant_json X g)))))"
  by (simp add: execution_grant_sha256_def grant_bytes_eq)

text \<open>The signed message determines the envelope, up to the second of its expiry.\<close>

lemma envelope_bytes_inject:
  assumes "in_date_range (ae_expires_at e)" "in_date_range (ae_expires_at f)"
    "distinct (map fst (ae_target_versions e))" "distinct (map fst (ae_target_versions f))"
  shows "envelope_bytes e = envelope_bytes f \<longleftrightarrow>
     ae_schema_version e = ae_schema_version f \<and> ae_proposal_id e = ae_proposal_id f
     \<and> ae_proposal_version e = ae_proposal_version f \<and> ae_payload_sha256 e = ae_payload_sha256 f
     \<and> ae_requester_id e = ae_requester_id f \<and> ae_approver_id e = ae_approver_id f
     \<and> dict_eq (ae_target_versions e) (ae_target_versions f)
     \<and> ae_expires_at e div usec_per_second = ae_expires_at f div usec_per_second
     \<and> ae_nonce e = ae_nonce f"
proof -
  have "map fst (envelope_json e) = map fst (envelope_json f)" "distinct (map fst (envelope_json e))"
    by (simp_all add: envelope_json_def)
  note pw = norm_JObj_pointwise [OF this]
  show ?thesis
    unfolding envelope_bytes_eq sum.inject utf8_inject dumps_inject pw
    using norm_versions [OF assms(3,4)] iso_seconds_inject [OF assms(1,2)]
    by (simp add: envelope_json_def del: norm.simps(6))
qed


subsection \<open>Facts about issued grants\<close>

lemma construct_Inr [simp]: "construct ok x = Inr y \<longleftrightarrow> ok x \<and> y = x"
  by (auto simp: construct_def)

lemma length_nonce:
  "length raw = 32 \<Longrightarrow> length (rstrip CHR ''='' (urlsafe_b64encode raw)) = 43"
  by (simp add: rstrip_encode length_b64_body)

text \<open>What a successful \<open>issue_grant\<close> returns.\<close>

lemma issue_grant_Inr:
  assumes "issue_grant X kr raw now pref payload requester approver tv = Inr (g, nd)"
  shows "eg_proposal_id g = proposal_id pref" "eg_proposal_version g = pr_version pref"
    "eg_payload_sha256 g = payload" "eg_requester_id g = requester"
    "eg_approver_id g = actor_id approver" "eg_target_versions g = tv"
    "eg_expires_at g = now + grant_minutes * usec_per_minute"
    "eg_nonce g = rstrip CHR ''='' (urlsafe_b64encode raw)"
    "eg_key_version g = active_version kr" "nd = x_sha256 X raw" "length raw = 32"
    "valid_execution_grant g" "valid_approval_envelope (grant_envelope g)"
    "\<exists>msg key. envelope_bytes (grant_envelope g) = Inr msg \<and> kr_keys kr (active_version kr) = Some key
       \<and> eg_signature g = x_hmac_sha256 X key msg"
proof -
  have "eg_proposal_id g = proposal_id pref \<and> eg_proposal_version g = pr_version pref
    \<and> eg_payload_sha256 g = payload \<and> eg_requester_id g = requester
    \<and> eg_approver_id g = actor_id approver \<and> eg_target_versions g = tv
    \<and> eg_expires_at g = now + grant_minutes * usec_per_minute
    \<and> eg_nonce g = rstrip CHR ''='' (urlsafe_b64encode raw)
    \<and> eg_key_version g = active_version kr \<and> nd = x_sha256 X raw \<and> length raw = 32
    \<and> valid_execution_grant g \<and> valid_approval_envelope (grant_envelope g)
    \<and> (\<exists>msg key. envelope_bytes (grant_envelope g) = Inr msg \<and> kr_keys kr (active_version kr) = Some key
       \<and> eg_signature g = x_hmac_sha256 X key msg)"
    using assms
    by (auto simp: issue_grant_def Let_def sign_def rbind_Inr_iff grant_envelope_def
        split: if_splits option.splits)
  then show "eg_proposal_id g = proposal_id pref" "eg_proposal_version g = pr_version pref"
    "eg_payload_sha256 g = payload" "eg_requester_id g = requester"
    "eg_approver_id g = actor_id approver" "eg_target_versions g = tv"
    "eg_expires_at g = now + grant_minutes * usec_per_minute"
    "eg_nonce g = rstrip CHR ''='' (urlsafe_b64encode raw)"
    "eg_key_version g = active_version kr" "nd = x_sha256 X raw" "length raw = 32"
    "valid_execution_grant g" "valid_approval_envelope (grant_envelope g)"
    "\<exists>msg key. envelope_bytes (grant_envelope g) = Inr msg \<and> kr_keys kr (active_version kr) = Some key
       \<and> eg_signature g = x_hmac_sha256 X key msg"
    by simp_all
qed

lemma issue_grant_ok:
  assumes "hex_digests X" "kr_keys kr (active_version kr) = Some key" "1 \<le> active_version kr"
    "length raw = 32" "valid_proposal_ref pref" "hex64 payload" "valid_target_versions tv"
  shows "\<exists>g. issue_grant X kr raw now pref payload requester approver tv = Inr (g, x_sha256 X raw)"
  using assms length_nonce [OF assms(4)]
  by (auto simp: issue_grant_def Let_def sign_def construct_def envelope_bytes_eq contract_defs
      hex_digests_def len_ok_def)

text \<open>What a successful \<open>verify_grant\<close> has established.\<close>

lemma verify_grant_Inr:
  assumes "verify_grant X kr now g stored actor = Inr ()"
  shows "actor_id actor = eg_approver_id g" "actor_id actor = sa_approver_id stored"
    "bindings_match g stored" "now < eg_expires_at g"
    "\<exists>msg key. envelope_bytes (grant_envelope g) = Inr msg \<and> kr_keys kr (eg_key_version g) = Some key
       \<and> eg_signature g = x_hmac_sha256 X key msg"
    "\<exists>raw. urlsafe_b64decode (eg_nonce g @ replicate (pad_count (length (eg_nonce g))) CHR ''='') = Some raw
       \<and> x_sha256 X raw = sa_nonce_digest stored"
proof -
  have "actor_id actor = eg_approver_id g \<and> actor_id actor = sa_approver_id stored
    \<and> bindings_match g stored \<and> now < eg_expires_at g
    \<and> (\<exists>msg key. envelope_bytes (grant_envelope g) = Inr msg \<and> kr_keys kr (eg_key_version g) = Some key
       \<and> eg_signature g = x_hmac_sha256 X key msg)
    \<and> (\<exists>raw. urlsafe_b64decode (eg_nonce g @ replicate (pad_count (length (eg_nonce g))) CHR ''='') = Some raw
       \<and> x_sha256 X raw = sa_nonce_digest stored)"
    using assms
    by (auto simp: verify_grant_def verify_signature_def sign_def rbind_Inr_iff
        split: if_splits option.splits)
  then show "actor_id actor = eg_approver_id g" "actor_id actor = sa_approver_id stored"
    "bindings_match g stored" "now < eg_expires_at g"
    "\<exists>msg key. envelope_bytes (grant_envelope g) = Inr msg \<and> kr_keys kr (eg_key_version g) = Some key
       \<and> eg_signature g = x_hmac_sha256 X key msg"
    "\<exists>raw. urlsafe_b64decode (eg_nonce g @ replicate (pad_count (length (eg_nonce g))) CHR ''='') = Some raw
       \<and> x_sha256 X raw = sa_nonce_digest stored"
    by blast+
qed

lemma verify_grant_issued:
  assumes g: "issue_grant X kr raw now pref payload requester approver tv = Inr (g, nd)"
    and kr': "kr_keys kr' (active_version kr) = kr_keys kr (active_version kr)"
    and s: "bindings_match g stored" "sa_approver_id stored = actor_id approver" "sa_nonce_digest stored = nd"
    and a: "actor_id actor = actor_id approver"
  shows "verify_grant X kr' now' g stored actor =
    (if eg_expires_at g \<le> now' then Inl (approval_error ''grant_expired'') else Inr ())"
proof -
  note i = issue_grant_Inr [OF g]
  obtain msg key where m: "envelope_bytes (grant_envelope g) = Inr msg"
    "kr_keys kr (active_version kr) = Some key" "eg_signature g = x_hmac_sha256 X key msg"
    using i(14) by blast
  have "urlsafe_b64decode (eg_nonce g @ replicate (pad_count (length (eg_nonce g))) CHR ''='') = Some raw"
    unfolding i(8) by (rule b64_roundtrip)
  then show ?thesis
    using i m s a kr'
    by (simp add: verify_grant_def construct_def verify_signature_def sign_def)
qed

end
