(* ===== verification/Op_Store.thy ===== *)
theory Op_Store
  imports Op_Approval
begin

text \<open>
  The persistence contract of the workflow (\<open>src/commerce_agent/operations/_store.py\<close>) and its
  atomic in-memory adapter (\<open>_memory.py\<close>). The store is a record of maps; an operation takes it
  and returns its result (\<open>Inl\<close> a raised error) with the store it leaves behind, also when it
  raises. Every operation runs under the store's lock, so it is one atomic step. \<open>fresh\<close> is the
  value of \<open>uuid4()\<close>.
\<close>

subsection \<open>Stored data\<close>

record private_seller_target =
  pt_seller_id :: string
  pt_evidence_digest :: string

datatype private_binding =
    SellerTargetBinding private_seller_target
  | BacktestBinding alert_backtest_snapshot

record validated_references =
  vr_evidence_refs :: "evidence_ref list"
  vr_private_bindings :: "private_binding list"

record proposal_draft =
  pd_request :: propose_request
  pd_preview :: command_preview
  pd_payload_sha256 :: string
  pd_created_at :: instant
  pd_expires_at :: instant
  pd_validated_references :: validated_references

record stored_proposal =
  sp_snapshot :: proposal_snapshot
  sp_command :: operation_command
  sp_requester_id :: uuid
  sp_evidence_refs :: "evidence_ref list"
  sp_idempotency_key :: string
  sp_revises :: "proposal_ref option"
  sp_validated_references :: validated_references

record stored_decision =
  sd_status :: proposal_status
  sd_approver_id :: uuid
  sd_decided_at :: instant
  sd_reason :: "string option"
  sd_approval :: "stored_approval option"
  sd_grant_sha256 :: "string option"

record investigation_task_state =
  tk_task_id :: uuid
  tk_status :: investigation_status
  tk_priority :: priority
  tk_public_summary :: string
  tk_version :: int
  tk_assignee_ref :: "string option"
  tk_conclusion_ref :: "string option"
  tk_linked_risk_id :: "uuid option"

record risk_annotation_state =
  rk_risk_id :: uuid
  rk_status :: string
  rk_version :: int

record metric_alert_rule_state =
  ru_rule_id :: uuid
  ru_status :: string
  ru_version :: int

type_synonym proposal_key = "uuid \<times> int"

definition ref_key :: "proposal_ref \<Rightarrow> proposal_key" where
  "ref_key r = (proposal_id r, pr_version r)"

record op_store =
  proposals :: "proposal_key \<rightharpoonup> stored_proposal"
  latest_versions :: "uuid \<rightharpoonup> int"
  idempotency :: "uuid \<times> string \<rightharpoonup> proposal_ref \<times> string \<times> string"
  decisions :: "proposal_key \<rightharpoonup> stored_decision"
  decision_receipts :: "proposal_key \<rightharpoonup> decision_receipt"
  executions :: "proposal_key \<rightharpoonup> execution_receipt"
  nonce_claims :: "string \<rightharpoonup> proposal_ref"
  tasks :: "uuid \<rightharpoonup> investigation_task_state"
  risks :: "uuid \<rightharpoonup> risk_annotation_state"
  rules :: "uuid \<rightharpoonup> metric_alert_rule_state"
  business_write_count :: nat
  audit_count :: nat
  nonce_claim_count :: nat

definition init_store :: "investigation_task_state list \<Rightarrow> op_store" where
  "init_store ts =
     \<lparr>proposals = Map.empty, latest_versions = Map.empty, idempotency = Map.empty,
      decisions = Map.empty, decision_receipts = Map.empty, executions = Map.empty,
      nonce_claims = Map.empty,
      tasks = map_of (rev (map (\<lambda>t. (tk_task_id t, t)) ts)),
      risks = Map.empty, rules = Map.empty,
      business_write_count = 0, audit_count = 0, nonce_claim_count = 0\<rparr>"

type_synonym 'a outcome = "(op_error + 'a) \<times> op_store"

subsection \<open>Preview\<close>

definition to_upper :: "char \<Rightarrow> char" where
  "to_upper c = (if is_lower c then char_of ((of_char c :: nat) - 32) else c)"

definition to_lower :: "char \<Rightarrow> char" where
  "to_lower c = (if is_upper c then char_of ((of_char c :: nat) + 32) else c)"

text \<open>\<open>str.title\<close>: a letter is upper case exactly when no letter precedes it.\<close>

fun title_case :: "bool \<Rightarrow> string \<Rightarrow> string" where
  "title_case in_word [] = []"
| "title_case in_word (c # cs) =
     (if in_word then to_lower c else to_upper c) # title_case (is_alpha c) cs"

definition default_title :: "string \<Rightarrow> string" where
  "default_title ty = title_case False (map (\<lambda>c. if c = CHR ''_'' then CHR '' '' else c) ty)"

fun command_title :: "operation_command \<Rightarrow> string option" where
  "command_title (OpenSellerRiskCase c) = Some (os_title c)"
| "command_title (CreateInvestigationTask c) = Some (ct_title c)"
| "command_title (CreateInvestigationFromAlertHit c) = Some (ch_title c)"
| "command_title _ = None"

definition preview_targets :: "operation_command \<Rightarrow> op_store \<Rightarrow> op_error + target_versions \<times> int \<times> string" where
  "preview_targets c st = (case c of
       OpenSellerRiskCase _ \<Rightarrow>
         Inr ([(''investigation_task'', 0), (''risk_annotation'', 0)], 2,
              ''Create a seller-risk annotation and linked investigation task.'')
     | CreateInvestigationTask _ \<Rightarrow>
         Inr ([(''investigation_task'', 0)], 1, ''Create one investigation task.'')
     | CreateInvestigationFromAlertHit _ \<Rightarrow>
         Inr ([(''investigation_task'', 0)], 1, ''Create one investigation task.'')
     | CreateAndEnableMetricAlertRule _ \<Rightarrow>
         Inr ([(''metric_alert_rule'', 0)], 1, ''Create one enabled metric alert rule.'')
     | _ \<Rightarrow>
         (case tasks st (tr_task_id (the (command_task_ref c))) of
            None \<Rightarrow> Inl (contract_error ''investigation_not_found'')
          | Some task \<Rightarrow>
              if tk_version task \<noteq> expected_target_version c
              then Inl (conflict_error ''target_version_conflict'')
              else Inr ([(''investigation_task'', tk_version task)], 1,
                        ''Update one investigation task at its exact version.'')))"

definition preview_command :: "operation_command \<Rightarrow> op_store \<Rightarrow> op_error + command_preview" where
  "preview_command c st =
     rbind (preview_targets c st) (\<lambda>(versions, rows, summary).
     construct valid_command_preview
       \<lparr>cp_command_type = command_type c,
        cp_title = (case command_title c of Some t \<Rightarrow> t | None \<Rightarrow> default_title (command_type c)),
        cp_public_summary = summary, cp_target_versions = versions, cp_affected_rows = rows\<rparr>)"

subsection \<open>Creating or replaying a proposal\<close>

definition set_status :: "proposal_status \<Rightarrow> stored_proposal \<Rightarrow> stored_proposal" where
  "set_status s p = p\<lparr>sp_snapshot := (sp_snapshot p)\<lparr>ps_status := s\<rparr>\<rparr>"

text \<open>The reference of the new proposal; a revision supersedes its predecessor.\<close>

definition allocate_ref :: "uuid \<Rightarrow> propose_request \<Rightarrow> op_store \<Rightarrow> proposal_ref outcome" where
  "allocate_ref fresh req st = (case pq_revises req of
       None \<Rightarrow> (Inr \<lparr>proposal_id = fresh, pr_version = 1\<rparr>, st)
     | Some old \<Rightarrow>
         (case proposals st (ref_key old) of
            None \<Rightarrow> (Inl (conflict_error ''proposal_revision_conflict''), st)
          | Some previous \<Rightarrow>
              if sp_requester_id previous \<noteq> actor_id (pq_actor req)
                 \<or> ps_status (sp_snapshot previous) \<noteq> PENDING
                 \<or> latest_versions st (proposal_id old) \<noteq> Some (pr_version old)
              then (Inl (conflict_error ''proposal_revision_conflict''), st)
              else (Inr \<lparr>proposal_id = proposal_id old, pr_version = pr_version old + 1\<rparr>,
                    st\<lparr>proposals := (proposals st)(ref_key old \<mapsto> set_status SUPERSEDED previous)\<rparr>)))"

definition draft_snapshot :: "proposal_draft \<Rightarrow> proposal_ref \<Rightarrow> proposal_snapshot" where
  "draft_snapshot d ref =
     \<lparr>ps_proposal_ref = ref, ps_status = PENDING,
      ps_requester_id = actor_id (pq_actor (pd_request d)),
      ps_command_type = command_type (pq_command (pd_request d)),
      ps_payload_sha256 = pd_payload_sha256 d, ps_preview = pd_preview d,
      ps_created_at = pd_created_at d, ps_expires_at = pd_expires_at d\<rparr>"

definition store_proposal :: "proposal_draft \<Rightarrow> proposal_ref \<Rightarrow> op_store \<Rightarrow> op_store" where
  "store_proposal d ref st =
     (let req = pd_request d in
      st\<lparr>proposals := (proposals st)(ref_key ref \<mapsto>
           \<lparr>sp_snapshot = draft_snapshot d ref, sp_command = pq_command req,
            sp_requester_id = actor_id (pq_actor req), sp_evidence_refs = pq_evidence_refs req,
            sp_idempotency_key = pq_idempotency_key req, sp_revises = pq_revises req,
            sp_validated_references = pd_validated_references d\<rparr>),
         latest_versions := (latest_versions st)(proposal_id ref \<mapsto> pr_version ref),
         idempotency := (idempotency st)((actor_id (pq_actor req), pq_idempotency_key req) \<mapsto>
           (ref, command_type (pq_command req), pd_payload_sha256 d))\<rparr>)"

definition create_or_get_proposal :: "uuid \<Rightarrow> proposal_draft \<Rightarrow> op_store \<Rightarrow> proposal_snapshot outcome" where
  "create_or_get_proposal fresh d st =
     (let req = pd_request d in
      case idempotency st (actor_id (pq_actor req), pq_idempotency_key req) of
        Some (ref, ty, sha) \<Rightarrow>
          if (ty, sha) \<noteq> (command_type (pq_command req), pd_payload_sha256 d)
          then (Inl (conflict_error ''idempotency_conflict''), st)
          else (case proposals st (ref_key ref) of
                  None \<Rightarrow> (Inl KeyError, st)
                | Some p \<Rightarrow> (Inr (sp_snapshot p), st))
      | None \<Rightarrow>
          (case allocate_ref fresh req st of
             (Inl e, st1) \<Rightarrow> (Inl e, st1)
           | (Inr ref, st1) \<Rightarrow>
               if \<not> valid_proposal_snapshot (draft_snapshot d ref)
               then (Inl ValidationError, st1)
               else (Inr (draft_snapshot d ref), store_proposal d ref st1)))"

subsection \<open>Reads\<close>

definition read_proposal :: "proposal_ref \<Rightarrow> op_store \<Rightarrow> stored_proposal option" where
  "read_proposal r st = proposals st (ref_key r)"

definition proposal_status_of :: "proposal_ref \<Rightarrow> op_store \<Rightarrow> proposal_status option" where
  "proposal_status_of r st = map_option (ps_status \<circ> sp_snapshot) (read_proposal r st)"

definition read_decision_receipt :: "proposal_ref \<Rightarrow> op_store \<Rightarrow> decision_receipt option" where
  "read_decision_receipt r st = decision_receipts st (ref_key r)"

definition read_decision :: "proposal_ref \<Rightarrow> op_store \<Rightarrow> stored_decision option" where
  "read_decision r st = decisions st (ref_key r)"

definition read_execution :: "proposal_ref \<Rightarrow> op_store \<Rightarrow> execution_receipt option" where
  "read_execution r st = executions st (ref_key r)"

subsection \<open>Deciding once\<close>

definition decide_once ::
    "externals \<Rightarrow> decision_receipt \<Rightarrow> stored_approval option \<Rightarrow> instant \<Rightarrow> op_store \<Rightarrow> decision_receipt outcome"
  where
  "decide_once X receipt approval now st =
     (let key = ref_key (dc_proposal_ref receipt) in
      case proposals st key of
        None \<Rightarrow> (Inl (approval_error ''proposal_not_found''), st)
      | Some p \<Rightarrow>
          if ps_status (sp_snapshot p) \<noteq> PENDING
          then (Inl (approval_error ''proposal_already_decided''), st)
          else if ps_expires_at (sp_snapshot p) \<le> now
          then (Inl (approval_error ''proposal_expired''),
                st\<lparr>proposals := (proposals st)(key \<mapsto> set_status EXPIRED p)\<rparr>)
          else
            let st1 = st\<lparr>proposals := (proposals st)(key \<mapsto> set_status (dc_status receipt) p)\<rparr> in
            case (case dc_grant receipt of
                    None \<Rightarrow> Inr None
                  | Some g \<Rightarrow> rbind (execution_grant_sha256 X g) (\<lambda>s. Inr (Some s))) of
              Inl e \<Rightarrow> (Inl e, st1)
            | Inr sha \<Rightarrow>
                (Inr receipt,
                 st1\<lparr>decisions := (decisions st1)(key \<mapsto>
                        \<lparr>sd_status = dc_status receipt, sd_approver_id = dc_approver_id receipt,
                         sd_decided_at = dc_decided_at receipt, sd_reason = dc_reason receipt,
                         sd_approval = approval, sd_grant_sha256 = sha\<rparr>),
                     decision_receipts := (decision_receipts st1)(key \<mapsto> receipt)\<rparr>))"

subsection \<open>Applying a command\<close>

definition ref_name :: "string \<Rightarrow> proposal_ref \<Rightarrow> string" where
  "ref_name what r = what @ '':'' @ uuid_str (proposal_id r) @ '':'' @ show_int (pr_version r)"

definition new_task :: "uuid \<Rightarrow> priority \<Rightarrow> string \<Rightarrow> uuid option \<Rightarrow> investigation_task_state" where
  "new_task tid prio summary risk =
     \<lparr>tk_task_id = tid, tk_status = OPEN, tk_priority = prio, tk_public_summary = summary,
      tk_version = 1, tk_assignee_ref = None, tk_conclusion_ref = None, tk_linked_risk_id = risk\<rparr>"

definition put_task :: "investigation_task_state \<Rightarrow> op_store \<Rightarrow> op_store" where
  "put_task t st = st\<lparr>tasks := (tasks st)(tk_task_id t \<mapsto> t)\<rparr>"

text \<open>The command on an existing task: the updated task, and the store with its risk updated.\<close>

definition update_task ::
    "operation_command \<Rightarrow> proposal_ref \<Rightarrow> investigation_task_state \<Rightarrow> op_store
       \<Rightarrow> investigation_task_state outcome" where
  "update_task c ref t st = (case c of
       AssignInvestigation x \<Rightarrow>
         (Inr (t\<lparr>tk_assignee_ref := Some (ai_assignee_ref x), tk_version := tk_version t + 1\<rparr>), st)
     | TransitionInvestigation x \<Rightarrow>
         if tk_status t \<noteq> ti_from_status x
         then (Inl (conflict_error ''investigation_status_conflict''), st)
         else (Inr (t\<lparr>tk_status := ti_to_status x, tk_version := tk_version t + 1\<rparr>), st)
     | AddInvestigationConclusion x \<Rightarrow>
         if tk_status t \<noteq> RESOLVED
         then (Inl (contract_error ''investigation_not_resolved''), st)
         else (Inr (t\<lparr>tk_conclusion_ref := Some (ref_name ''conclusion'' ref),
                      tk_version := tk_version t + 1\<rparr>), st)
     | CloseInvestigation x \<Rightarrow>
         if tk_status t \<noteq> RESOLVED
         then (Inl (contract_error ''investigation_not_resolved''), st)
         else if tk_conclusion_ref t \<noteq> Some (cl_conclusion_ref x)
         then (Inl (contract_error ''conclusion_required''), st)
         else
           let closed = t\<lparr>tk_status := CLOSED, tk_version := tk_version t + 1\<rparr> in
           (case tk_linked_risk_id t of
              None \<Rightarrow> (Inr closed, st)
            | Some rid \<Rightarrow>
                (case cl_risk_disposition x of
                   None \<Rightarrow> (Inl (contract_error ''risk_disposition_required''), st)
                 | Some disp \<Rightarrow>
                     (case risks st rid of
                        None \<Rightarrow> (Inl KeyError, st)
                      | Some risk \<Rightarrow>
                          (Inr closed,
                           st\<lparr>risks := (risks st)(rid \<mapsto>
                             risk\<lparr>rk_status := risk_disposition_value disp,
                                  rk_version := rk_version risk + 1\<rparr>)\<rparr>))))
     | _ \<Rightarrow> (Inr t, st))"

definition apply_command :: "externals \<Rightarrow> operation_command \<Rightarrow> proposal_ref \<Rightarrow> op_store \<Rightarrow> (int \<times> int) outcome" where
  "apply_command X c ref st = (case c of
       CreateInvestigationTask x \<Rightarrow>
         (Inr (0, 1), put_task (new_task (x_uuid5 X (ref_name ''task'' ref)) (ct_priority x)
                        (ct_public_summary x) None) st)
     | CreateInvestigationFromAlertHit x \<Rightarrow>
         (Inr (0, 1), put_task (new_task (x_uuid5 X (ref_name ''task'' ref)) (ch_priority x)
                        ''Created from a reviewed alert hit.'' None) st)
     | OpenSellerRiskCase x \<Rightarrow>
         let rid = x_uuid5 X (ref_name ''risk'' ref);
             st1 = put_task (new_task (x_uuid5 X (ref_name ''task'' ref)) (os_priority x)
                     ''Seller risk requires investigation.'' (Some rid)) st in
         (Inr (0, 1), st1\<lparr>risks := (risks st1)(rid \<mapsto>
            \<lparr>rk_risk_id = rid, rk_status = ''under_investigation'', rk_version = 1\<rparr>)\<rparr>)
     | CreateAndEnableMetricAlertRule x \<Rightarrow>
         let rule = x_uuid5 X (ref_name ''rule'' ref) in
         (Inr (0, 1), st\<lparr>rules := (rules st)(rule \<mapsto>
            \<lparr>ru_rule_id = rule, ru_status = ''enabled'', ru_version = 1\<rparr>)\<rparr>)
     | _ \<Rightarrow>
         (case tasks st (tr_task_id (the (command_task_ref c))) of
            None \<Rightarrow> (Inl (contract_error ''investigation_not_found''), st)
          | Some t \<Rightarrow>
              if tk_version t \<noteq> expected_target_version c
              then (Inl (conflict_error ''target_version_conflict''), st)
              else
                (case update_task c ref t st of
                   (Inl e, st1) \<Rightarrow> (Inl e, st1)
                 | (Inr t', st1) \<Rightarrow>
                     (Inr (tk_version t, tk_version t'),
                      st1\<lparr>tasks := (tasks st1)(tk_task_id t \<mapsto> t')\<rparr>))))"

subsection \<open>Executing once\<close>

definition execution_receipt_of ::
    "externals \<Rightarrow> stored_proposal \<Rightarrow> int \<times> int \<Rightarrow> instant \<Rightarrow> execution_receipt" where
  "execution_receipt_of X p versions now =
     (let ref = ps_proposal_ref (sp_snapshot p) in
      \<lparr>er_execution_id = x_uuid5 X (ref_name ''operation'' ref), er_proposal_ref = ref,
       er_status = SUCCEEDED, er_command_type = command_type (sp_command p),
       er_before_version = fst versions, er_after_version = snd versions,
       er_committed_at = now,
       er_public_summary = cp_public_summary (ps_preview (sp_snapshot p)),
       er_audit_ref = ref_name ''audit'' ref\<rparr>)"

definition execute_once ::
    "externals \<Rightarrow> stored_proposal \<Rightarrow> stored_approval \<Rightarrow> instant \<Rightarrow> op_store \<Rightarrow> execution_receipt outcome" where
  "execute_once X p approval now st =
     (let ref = ps_proposal_ref (sp_snapshot p); key = ref_key ref in
      case executions st key of
        Some previous \<Rightarrow> (Inr previous, st)
      | None \<Rightarrow>
          if nonce_claims st (sa_nonce_digest approval) \<noteq> None
          then (Inl (approval_error ''nonce_used''), st)
          else (case apply_command X (sp_command p) ref st of
              (Inl e, st1) \<Rightarrow> (Inl e, st1)
            | (Inr versions, st1) \<Rightarrow>
                let receipt = execution_receipt_of X p versions now in
                if \<not> valid_execution_receipt receipt then (Inl ValidationError, st1)
                else
                  (Inr receipt,
                   st1\<lparr>nonce_claims := (nonce_claims st1)(sa_nonce_digest approval \<mapsto> ref),
                       executions := (executions st1)(key \<mapsto> receipt),
                       business_write_count := business_write_count st1 + 1,
                       audit_count := audit_count st1 + 1,
                       nonce_claim_count := nonce_claim_count st1 + 1\<rparr>)))"

end
