(* ===== verification/Op_Workflow.thy ===== *)
theory Op_Workflow
  imports Op_Store
begin

text \<open>
  The three-method workflow of \<open>src/commerce_agent/operations/workflow.py\<close>: propose, decide and
  execute, over any store that offers the operations of the \<open>OperationStore\<close> protocol (the
  record \<open>store_ops\<close>) and any reference validator. The readings of the clock are arguments, in
  the order in which a call takes them; \<open>raw_nonce\<close> is what the nonce source issues.
\<close>

subsection \<open>The store protocol\<close>

record 's store_ops =
  so_preview_command :: "operation_command \<Rightarrow> 's \<Rightarrow> op_error + command_preview"
  so_create_or_get :: "uuid \<Rightarrow> proposal_draft \<Rightarrow> 's \<Rightarrow> (op_error + proposal_snapshot) \<times> 's"
  so_read_proposal :: "proposal_ref \<Rightarrow> 's \<Rightarrow> stored_proposal option"
  so_decide_once :: "decision_receipt \<Rightarrow> stored_approval option \<Rightarrow> instant \<Rightarrow> 's
    \<Rightarrow> (op_error + decision_receipt) \<times> 's"
  so_read_decision :: "proposal_ref \<Rightarrow> 's \<Rightarrow> stored_decision option"
  so_execute_once :: "stored_proposal \<Rightarrow> stored_approval \<Rightarrow> instant \<Rightarrow> 's
    \<Rightarrow> (op_error + execution_receipt) \<times> 's"
  so_read_execution :: "proposal_ref \<Rightarrow> 's \<Rightarrow> execution_receipt option"

definition memory_store :: "externals \<Rightarrow> op_store store_ops" where
  "memory_store X =
     \<lparr>so_preview_command = preview_command, so_create_or_get = create_or_get_proposal,
      so_read_proposal = read_proposal, so_decide_once = decide_once X,
      so_read_decision = read_decision, so_execute_once = execute_once X,
      so_read_execution = read_execution\<rparr>"

type_synonym reference_validator =
  "operation_command \<Rightarrow> evidence_ref list \<Rightarrow> op_error + validated_references"

subsection \<open>Proposing\<close>

definition require_role :: "actor_context \<Rightarrow> actor_role \<Rightarrow> string \<Rightarrow> op_error + unit" where
  "require_role actor r code = require (role actor = r) (authorization_error code)"

definition proposal_hours :: int where "proposal_hours = 24"

definition prepare_draft ::
    "'s store_ops \<Rightarrow> externals \<Rightarrow> reference_validator \<Rightarrow> instant \<Rightarrow> propose_request \<Rightarrow> 's
       \<Rightarrow> op_error + proposal_draft" where
  "prepare_draft S X validate now req st =
     rbind (require_role (pq_actor req) ANALYST ''analyst_required'') (\<lambda>_.
     rbind (validate (pq_command req) (pq_evidence_refs req)) (\<lambda>validated.
     rbind (so_preview_command S (pq_command req) st) (\<lambda>preview.
     rbind (canonical_command (x_sha256 X) (pq_command req) (cp_target_versions preview) 1) (\<lambda>payload.
     Inr \<lparr>pd_request = req, pd_preview = preview, pd_payload_sha256 = pl_sha256 payload,
          pd_created_at = now, pd_expires_at = now + proposal_hours * usec_per_hour,
          pd_validated_references = validated\<rparr>))))"

definition propose ::
    "'s store_ops \<Rightarrow> externals \<Rightarrow> reference_validator \<Rightarrow> uuid \<Rightarrow> instant \<Rightarrow> propose_request \<Rightarrow> 's
       \<Rightarrow> (op_error + proposal_snapshot) \<times> 's" where
  "propose S X validate fresh now req st =
     (case prepare_draft S X validate now req st of
        Inl e \<Rightarrow> (Inl e, st)
      | Inr draft \<Rightarrow> so_create_or_get S fresh draft st)"

subsection \<open>Deciding\<close>

definition require_proposal ::
    "'s store_ops \<Rightarrow> proposal_ref \<Rightarrow> 's \<Rightarrow> op_error + stored_proposal" where
  "require_proposal S ref st = (case so_read_proposal S ref st of
       None \<Rightarrow> Inl (approval_error ''proposal_not_found'')
     | Some p \<Rightarrow> Inr p)"

text \<open>The grant and the stored approval of an approving decision.\<close>

definition issue_approval ::
    "externals \<Rightarrow> keyring \<Rightarrow> bytes \<Rightarrow> instant \<Rightarrow> actor_context \<Rightarrow> stored_proposal
       \<Rightarrow> op_error + execution_grant \<times> stored_approval" where
  "issue_approval X kr raw_nonce now actor p =
     (let snap = sp_snapshot p in
      rbind (issue_grant X kr raw_nonce now (ps_proposal_ref snap) (ps_payload_sha256 snap)
               (sp_requester_id p) actor (cp_target_versions (ps_preview snap))) (\<lambda>(grant, nonce_digest).
      rbind (construct valid_stored_approval
        \<lparr>sa_proposal_ref = ps_proposal_ref snap, sa_payload_sha256 = ps_payload_sha256 snap,
         sa_requester_id = sp_requester_id p, sa_approver_id = actor_id actor,
         sa_target_versions = cp_target_versions (ps_preview snap),
         sa_expires_at = eg_expires_at grant, sa_nonce_digest = nonce_digest,
         sa_key_version = eg_key_version grant\<rparr>) (\<lambda>approval.
      Inr (grant, approval))))"

definition prepare_decision ::
    "'s store_ops \<Rightarrow> externals \<Rightarrow> keyring \<Rightarrow> bytes \<Rightarrow> instant \<Rightarrow> instant \<Rightarrow> decision_request \<Rightarrow> 's
       \<Rightarrow> op_error + decision_receipt \<times> stored_approval option" where
  "prepare_decision S X kr raw_nonce t_grant t_decided req st =
     rbind (require_role (dr_actor req) APPROVER ''approver_required'') (\<lambda>_.
     rbind (require_proposal S (dr_proposal_ref req) st) (\<lambda>p.
     if sp_requester_id p = actor_id (dr_actor req)
     then Inl (authorization_error ''self_approval_denied'')
     else
       rbind (if dr_decision req = Approve
              then rbind (issue_approval X kr raw_nonce t_grant (dr_actor req) p)
                     (\<lambda>(g, a). Inr (Some g, Some a))
              else Inr (None, None)) (\<lambda>(grant, approval).
       rbind (construct valid_decision_receipt
         \<lparr>dc_proposal_ref = dr_proposal_ref req,
          dc_status = (if dr_decision req = Approve then APPROVED else REJECTED),
          dc_approver_id = actor_id (dr_actor req), dc_decided_at = t_decided,
          dc_reason = dr_reason req, dc_grant = grant\<rparr>) (\<lambda>receipt.
       Inr (receipt, approval)))))"

definition decide ::
    "'s store_ops \<Rightarrow> externals \<Rightarrow> keyring \<Rightarrow> bytes \<Rightarrow> instant \<Rightarrow> instant \<Rightarrow> instant \<Rightarrow> decision_request \<Rightarrow> 's
       \<Rightarrow> (op_error + decision_receipt) \<times> 's" where
  "decide S X kr raw_nonce t_grant t_decided t_store req st =
     (case prepare_decision S X kr raw_nonce t_grant t_decided req st of
        Inl e \<Rightarrow> (Inl e, st)
      | Inr (receipt, approval) \<Rightarrow> so_decide_once S receipt approval t_store st)"

subsection \<open>Executing\<close>

datatype execute_plan = Replay execution_receipt | Run stored_proposal stored_approval

text \<open>The approval a grant can run under: the approved decision, for its own approver.\<close>

definition check_decision ::
    "stored_decision option \<Rightarrow> execute_request \<Rightarrow> op_error + stored_approval \<times> string \<times> stored_decision" where
  "check_decision decision req = (case decision of
       None \<Rightarrow> Inl (approval_error ''approval_required'')
     | Some d \<Rightarrow>
         if sd_status d \<noteq> APPROVED then Inl (approval_error ''approval_required'')
         else (case (sd_approval d, sd_grant_sha256 d) of
             (Some approval, Some sha) \<Rightarrow>
               if actor_id (xr_actor req) \<noteq> sd_approver_id d
                  \<or> eg_approver_id (xr_grant req) \<noteq> sd_approver_id d
               then Inl (authorization_error ''grant_actor_mismatch'')
               else Inr (approval, sha, d)
           | _ \<Rightarrow> Inl (approval_error ''approval_required'')))"

text \<open>The receipt of an earlier execution, when the same grant is presented again.\<close>

definition replayed ::
    "externals \<Rightarrow> execution_receipt option \<Rightarrow> execution_grant \<Rightarrow> string \<Rightarrow> op_error + execution_receipt option"
  where
  "replayed X existing grant sha = (case existing of
       None \<Rightarrow> Inr None
     | Some r \<Rightarrow> rbind (execution_grant_sha256 X grant) (\<lambda>h. Inr (if h = sha then Some r else None)))"

definition grant_ref :: "execution_grant \<Rightarrow> proposal_ref" where
  "grant_ref g = \<lparr>proposal_id = eg_proposal_id g, pr_version = eg_proposal_version g\<rparr>"

definition prepare_execution ::
    "'s store_ops \<Rightarrow> externals \<Rightarrow> keyring \<Rightarrow> instant \<Rightarrow> execute_request \<Rightarrow> 's \<Rightarrow> op_error + execute_plan" where
  "prepare_execution S X kr t_verify req st =
     rbind (require_role (xr_actor req) APPROVER ''approver_required'') (\<lambda>_.
     rbind (construct valid_proposal_ref (grant_ref (xr_grant req))) (\<lambda>ref.
     rbind (require_proposal S ref st) (\<lambda>p.
     rbind (check_decision (so_read_decision S ref st) req) (\<lambda>(approval, sha, d).
     rbind (replayed X (so_read_execution S ref st) (xr_grant req) sha) (\<lambda>replay.
     case replay of
       Some r \<Rightarrow> Inr (Replay r)
     | None \<Rightarrow>
         rbind (verify_grant X kr t_verify (xr_grant req) approval (xr_actor req)) (\<lambda>_.
         Inr (Run p approval)))))))"

definition execute ::
    "'s store_ops \<Rightarrow> externals \<Rightarrow> keyring \<Rightarrow> instant \<Rightarrow> instant \<Rightarrow> execute_request \<Rightarrow> 's
       \<Rightarrow> (op_error + execution_receipt) \<times> 's" where
  "execute S X kr t_verify t_commit req st =
     (case prepare_execution S X kr t_verify req st of
        Inl e \<Rightarrow> (Inl e, st)
      | Inr (Replay r) \<Rightarrow> (Inr r, st)
      | Inr (Run p approval) \<Rightarrow> so_execute_once S p approval t_commit st)"

subsection \<open>What the workflow checks before it calls the store\<close>

definition signed_digest :: "externals \<Rightarrow> operation_command \<Rightarrow> target_versions \<Rightarrow> string" where
  "signed_digest X c tv = x_sha256 X (utf8 (dumps (signed_json c tv 1)))"

text \<open>The receipt and approval that \<open>decide\<close> hands to the store, for the proposal it read.\<close>

definition decision_ok :: "decision_receipt \<Rightarrow> stored_approval option \<Rightarrow> stored_proposal \<Rightarrow> bool" where
  "decision_ok r a p \<longleftrightarrow>
     dc_approver_id r \<noteq> sp_requester_id p
     \<and> (case a of
          None \<Rightarrow> dc_status r = REJECTED \<and> dc_grant r = None
        | Some a' \<Rightarrow> dc_status r = APPROVED \<and> dc_grant r \<noteq> None
            \<and> sa_proposal_ref a' = ps_proposal_ref (sp_snapshot p)
            \<and> sa_payload_sha256 a' = ps_payload_sha256 (sp_snapshot p)
            \<and> sa_requester_id a' = sp_requester_id p \<and> sa_approver_id a' = dc_approver_id r
            \<and> sa_target_versions a' = cp_target_versions (ps_preview (sp_snapshot p)))"

lemma require_role_Inr [simp]: "require_role a r code = Inr u \<longleftrightarrow> role a = r"
  by (simp add: require_role_def)

lemma require_proposal_Inr [simp]: "require_proposal S ref st = Inr p \<longleftrightarrow> so_read_proposal S ref st = Some p"
  by (simp add: require_proposal_def split: option.split)

lemma issue_approval_Inr:
  assumes "issue_approval X kr raw now actor p = Inr (g, a)"
  shows "sa_proposal_ref a = ps_proposal_ref (sp_snapshot p)"
    "sa_payload_sha256 a = ps_payload_sha256 (sp_snapshot p)"
    "sa_requester_id a = sp_requester_id p" "sa_approver_id a = actor_id actor"
    "sa_target_versions a = cp_target_versions (ps_preview (sp_snapshot p))"
    "sa_expires_at a = eg_expires_at g" "sa_key_version a = eg_key_version g"
    "issue_grant X kr raw now (ps_proposal_ref (sp_snapshot p)) (ps_payload_sha256 (sp_snapshot p))
       (sp_requester_id p) actor (cp_target_versions (ps_preview (sp_snapshot p))) = Inr (g, sa_nonce_digest a)"
  using assms by (auto simp: issue_approval_def Let_def rbind_Inr_iff)

lemma prepare_decision_Inr:
  assumes "prepare_decision S X kr raw t1 t2 req st = Inr (r, a)"
  obtains p where "so_read_proposal S (dr_proposal_ref req) st = Some p"
    "role (dr_actor req) = APPROVER" "sp_requester_id p \<noteq> actor_id (dr_actor req)"
    "dc_proposal_ref r = dr_proposal_ref req" "dc_approver_id r = actor_id (dr_actor req)"
    "decision_ok r a p"
    "(case a of None \<Rightarrow> dr_decision req = Reject
      | Some a' \<Rightarrow> dr_decision req = Approve
          \<and> (\<exists>g. dc_grant r = Some g \<and> issue_approval X kr raw t1 (dr_actor req) p = Inr (g, a')))"
proof -
  from assms obtain p where p: "so_read_proposal S (dr_proposal_ref req) st = Some p"
    and role: "role (dr_actor req) = APPROVER" and self: "sp_requester_id p \<noteq> actor_id (dr_actor req)"
    by (auto simp: prepare_decision_def rbind_Inr_iff split: if_splits)
  show ?thesis
  proof (cases "dr_decision req")
    case Reject
    with assms p role self show ?thesis
      by (intro that [OF p role self])
        (auto simp: prepare_decision_def rbind_Inr_iff decision_ok_def split: if_splits)
  next
    case Approve
    with assms p role self obtain g b where ib: "issue_approval X kr raw t1 (dr_actor req) p = Inr (g, b)"
      and eq: "a = Some b" "r = \<lparr>dc_proposal_ref = dr_proposal_ref req, dc_status = APPROVED,
        dc_approver_id = actor_id (dr_actor req), dc_decided_at = t2, dc_reason = dr_reason req,
        dc_grant = Some g\<rparr>"
      by (auto simp: prepare_decision_def rbind_Inr_iff split: if_splits)
    show ?thesis
      by (rule that [OF p role self])
        (use Approve self ib eq issue_approval_Inr [OF ib] in \<open>auto simp: decision_ok_def\<close>)
  qed
qed

lemma check_decision_Inr:
  "check_decision decision req = Inr (a, sha, d) \<longleftrightarrow>
     decision = Some d \<and> sd_status d = APPROVED \<and> sd_approval d = Some a \<and> sd_grant_sha256 d = Some sha
     \<and> actor_id (xr_actor req) = sd_approver_id d \<and> eg_approver_id (xr_grant req) = sd_approver_id d"
  by (cases decision) (auto simp: check_decision_def split: option.splits)

lemma replayed_Inr:
  "replayed X existing g sha = Inr q \<longleftrightarrow>
     q = (if execution_grant_sha256 X g = Inr sha then existing else None)"
  by (cases existing) (auto simp: replayed_def grant_sha_eq)

lemma prepare_execution_Inr:
  assumes "prepare_execution S X kr t req st = Inr plan"
  obtains p a sha d where "so_read_proposal S (grant_ref (xr_grant req)) st = Some p"
    "so_read_decision S (grant_ref (xr_grant req)) st = Some d"
    "role (xr_actor req) = APPROVER" "sd_status d = APPROVED" "sd_approval d = Some a"
    "sd_grant_sha256 d = Some sha" "actor_id (xr_actor req) = sd_approver_id d"
    "eg_approver_id (xr_grant req) = sd_approver_id d"
    "(\<exists>r. plan = Replay r \<and> so_read_execution S (grant_ref (xr_grant req)) st = Some r
        \<and> execution_grant_sha256 X (xr_grant req) = Inr sha)
     \<or> plan = Run p a \<and> verify_grant X kr t (xr_grant req) a (xr_actor req) = Inr ()"
proof -
  obtain p a sha d replay where plan:
    "role (xr_actor req) = APPROVER" "so_read_proposal S (grant_ref (xr_grant req)) st = Some p"
    "check_decision (so_read_decision S (grant_ref (xr_grant req)) st) req = Inr (a, sha, d)"
    "replayed X (so_read_execution S (grant_ref (xr_grant req)) st) (xr_grant req) sha = Inr replay"
    "(case replay of Some r \<Rightarrow> Inr (Replay r)
      | None \<Rightarrow> rbind (verify_grant X kr t (xr_grant req) a (xr_actor req)) (\<lambda>_. Inr (Run p a))) = Inr plan"
    using assms by (auto simp: prepare_execution_def rbind_Inr_iff)
  note d = plan(3) [unfolded check_decision_Inr]
  show ?thesis
  proof (cases replay)
    case None
    with plan(5) have "plan = Run p a" "verify_grant X kr t (xr_grant req) a (xr_actor req) = Inr ()"
      by (auto simp: rbind_Inr_iff)
    with plan d show ?thesis by (intro that [of p d a sha]) simp_all
  next
    case (Some r)
    with plan(5) have "plan = Replay r" by simp
    moreover have "so_read_execution S (grant_ref (xr_grant req)) st = Some r"
      "execution_grant_sha256 X (xr_grant req) = Inr sha"
      using plan(4) Some by (auto simp: replayed_Inr split: if_splits)
    ultimately show ?thesis using plan d by (intro that [of p d a sha]) simp_all
  qed
qed

lemma prepare_draft_Inr:
  assumes "prepare_draft S X V now req st = Inr d"
  shows "role (pq_actor req) = ANALYST" "pd_request d = req"
    "so_preview_command S (pq_command req) st = Inr (pd_preview d)"
    "V (pq_command req) (pq_evidence_refs req) = Inr (pd_validated_references d)"
    "pd_created_at d = now" "pd_expires_at d = now + proposal_hours * usec_per_hour"
    "valid_command (pq_command req) \<Longrightarrow>
       pd_payload_sha256 d = signed_digest X (pq_command req) (cp_target_versions (pd_preview d))"
  using assms
  by (auto simp: prepare_draft_def rbind_Inr_iff canonical_command_valid signed_digest_def)

subsection \<open>The contract of a store\<close>

text \<open>
  What the workflow relies on, for any implementation of the protocol: a stored proposal carries
  the reference it is read by; a successful decision is recorded with the digest of its grant, is
  the first one for its proposal, and no later call changes it; a successful execution is
  recorded, is returned again by every later call, and leaves proposals and decisions alone.
\<close>

definition grant_digest :: "externals \<Rightarrow> execution_grant \<Rightarrow> string" where
  "grant_digest X g = x_sha256 X (utf8 (dumps (JObj (grant_json X g))))"

locale operation_store =
  fixes S :: "'s store_ops"
    and X :: externals
    and inv :: "'s \<Rightarrow> bool"
  assumes read_ref: "\<And>s ref p. inv s \<Longrightarrow> so_read_proposal S ref s = Some p \<Longrightarrow>
      ps_proposal_ref (sp_snapshot p) = ref"
    and decide_records: "\<And>s s' r r' a now. inv s \<Longrightarrow> so_decide_once S r a now s = (Inr r', s') \<Longrightarrow>
      r' = r \<and> so_read_decision S (dc_proposal_ref r) s = None
      \<and> so_read_decision S (dc_proposal_ref r) s' = Some
          \<lparr>sd_status = dc_status r, sd_approver_id = dc_approver_id r, sd_decided_at = dc_decided_at r,
           sd_reason = dc_reason r, sd_approval = a,
           sd_grant_sha256 = map_option (grant_digest X) (dc_grant r)\<rparr>
      \<and> so_read_execution S (dc_proposal_ref r) s' = None
      \<and> so_read_proposal S (dc_proposal_ref r) s' \<noteq> None"
    and execute_records: "\<And>s s' p a now r. so_execute_once S p a now s = (Inr r, s') \<Longrightarrow>
      so_read_execution S (ps_proposal_ref (sp_snapshot p)) s' = Some r"
    and execute_replays: "\<And>s p a now r.
      so_read_execution S (ps_proposal_ref (sp_snapshot p)) s = Some r \<Longrightarrow>
      so_execute_once S p a now s = (Inr r, s)"
    and execute_keeps: "\<And>s s' p a now res ref. so_execute_once S p a now s = (res, s') \<Longrightarrow>
      so_read_proposal S ref s' = so_read_proposal S ref s
      \<and> so_read_decision S ref s' = so_read_decision S ref s"
begin

text \<open>A successful execution answers every later call with the same receipt.\<close>

lemma execute_twice:
  assumes inv: "inv s" and ex: "execute S X kr t1 t2 req s = (Inr r, s')"
    and d: "so_read_decision S (grant_ref (xr_grant req)) s = Some d"
      "sd_grant_sha256 d = Some (grant_digest X (xr_grant req))"
  shows "execute S X kr' t3 t4 req s' = (Inr r, s')"
proof -
  define ref where "ref = grant_ref (xr_grant req)"
  obtain plan where plan: "prepare_execution S X kr t1 req s = Inr plan"
    using ex by (cases "prepare_execution S X kr t1 req s") (simp_all add: execute_def)
  from plan obtain p a sha where f: "so_read_proposal S ref s = Some p" "role (xr_actor req) = APPROVER"
    "sd_status d = APPROVED" "sd_approval d = Some a" "actor_id (xr_actor req) = sd_approver_id d"
    "eg_approver_id (xr_grant req) = sd_approver_id d"
    and alt: "(\<exists>r. plan = Replay r \<and> so_read_execution S ref s = Some r) \<or> plan = Run p a"
    unfolding ref_def using d(1) by (elim prepare_execution_Inr) auto
  have valid: "valid_proposal_ref ref"
    using plan by (auto simp: prepare_execution_def rbind_Inr_iff ref_def)
  have pref: "ps_proposal_ref (sp_snapshot p) = ref" using read_ref [OF inv f(1)] .
  have after: "so_read_execution S ref s' = Some r \<and> so_read_proposal S ref s' = Some p
      \<and> so_read_decision S ref s' = Some d"
    using alt
  proof
    assume "\<exists>r. plan = Replay r \<and> so_read_execution S ref s = Some r"
    with ex plan f(1) d(1) show ?thesis by (auto simp: execute_def ref_def)
  next
    assume "plan = Run p a"
    then have run: "so_execute_once S p a t2 s = (Inr r, s')" using ex plan by (simp add: execute_def)
    show ?thesis
      using execute_records [OF run] execute_keeps [OF run, of ref] pref f(1) d(1) by (simp add: ref_def)
  qed
  have chk: "check_decision (Some d) req = Inr (a, grant_digest X (xr_grant req), d)"
    using f d(2) by (simp add: check_decision_Inr)
  have "prepare_execution S X kr' t3 req s' = Inr (Replay r)"
    using after f(2) valid chk
    by (simp add: prepare_execution_def require_role_def construct_def require_proposal_def
        ref_def [symmetric] replayed_def grant_sha_eq grant_digest_def)
  then show ?thesis by (simp add: execute_def)
qed

text \<open>The grant of a successful approval runs for its approver until it expires.\<close>

lemma approved_grant_runs:
  assumes inv: "inv s" and dec: "decide S X kr raw t1 t2 t3 req s = (Inr r, s')"
    and app: "dr_decision req = Approve" and ref: "valid_proposal_ref (dr_proposal_ref req)"
    and actor: "actor_id actor = actor_id (dr_actor req)" "role actor = APPROVER"
  obtains g p a where "dc_grant r = Some g" "eg_expires_at g = t1 + grant_minutes * usec_per_minute"
    "so_read_proposal S (dr_proposal_ref req) s' = Some p" "grant_ref g = dr_proposal_ref req"
    "valid_execution_grant g"
    "\<And>now. prepare_execution S X kr now \<lparr>xr_actor = actor, xr_grant = g\<rparr> s' =
       (if eg_expires_at g \<le> now then Inl (approval_error ''grant_expired'') else Inr (Run p a))"
proof -
  obtain r0 a0 where pd: "prepare_decision S X kr raw t1 t2 req s = Inr (r0, a0)"
    and so: "so_decide_once S r0 a0 t3 s = (Inr r, s')"
    using dec by (auto simp: decide_def split: sum.splits prod.splits)
  note rec = decide_records [OF inv so]
  have r: "r0 = r" using rec by simp
  obtain p where p: "so_read_proposal S (dr_proposal_ref req) s = Some p"
    "dc_proposal_ref r = dr_proposal_ref req" "dc_approver_id r = actor_id (dr_actor req)"
    "decision_ok r a0 p"
    "(case a0 of None \<Rightarrow> dr_decision req = Reject
      | Some a' \<Rightarrow> dr_decision req = Approve
          \<and> (\<exists>g. dc_grant r = Some g \<and> issue_approval X kr raw t1 (dr_actor req) p = Inr (g, a')))"
    using prepare_decision_Inr [OF pd [unfolded r]] by blast
  obtain a g where a: "a0 = Some a" "dc_grant r = Some g"
    and iss: "issue_approval X kr raw t1 (dr_actor req) p = Inr (g, a)"
    using p(5) app by (cases a0) auto
  note ia = issue_approval_Inr [OF iss]
  note ig = issue_grant_Inr [OF ia(8)]
  have pr: "ps_proposal_ref (sp_snapshot p) = dr_proposal_ref req" by (rule read_ref [OF inv p(1)])
  obtain p' where p': "so_read_proposal S (dr_proposal_ref req) s' = Some p'" using rec r p(2) by auto
  have gref: "grant_ref g = dr_proposal_ref req" using ig(1,2) pr by (simp add: grant_ref_def)
  have chk: "check_decision (so_read_decision S (dr_proposal_ref req) s') \<lparr>xr_actor = actor, xr_grant = g\<rparr>
      = Inr (a, grant_digest X g, the (so_read_decision S (dr_proposal_ref req) s'))"
    using rec r p(2,3,4) a actor ig(5)
    by (simp add: check_decision_def decision_ok_def)
  have ver: "verify_grant X kr now g a actor
      = (if eg_expires_at g \<le> now then Inl (approval_error ''grant_expired'') else Inr ())" for now
    by (rule verify_grant_issued [OF ia(8) refl])
      (use ia ig actor in \<open>simp_all add: bindings_match_def dict_eq_def\<close>)
  show ?thesis
  proof (rule that [OF a(2) ig(7) p' gref ig(12)])
    fix now
    show "prepare_execution S X kr now \<lparr>xr_actor = actor, xr_grant = g\<rparr> s' =
       (if eg_expires_at g \<le> now then Inl (approval_error ''grant_expired'') else Inr (Run p' a))"
      using actor(2) ref gref p' chk ver rec r p(2)
      by (simp add: prepare_execution_def require_role_def construct_def require_proposal_def replayed_def)
  qed
qed

end

end
