(* ===== verification/Op_System.thy ===== *)
theory Op_System
  imports Op_Workflow
begin

text \<open>
  The workflow over the in-memory store as a transition system: any sequence of propose, decide
  and execute calls, by any actors with any arguments, at any clock readings. Its reachable
  states satisfy \<open>store_inv\<close>, from which the safety of controlled operations follows.
\<close>

subsection \<open>Outcomes of the store operations\<close>

lemma allocate_ref_cases:
  assumes "allocate_ref fresh req st = (res, st1)"
  obtains e where "res = Inl e" "st1 = st"
  | (new) "pq_revises req = None" "res = Inr \<lparr>proposal_id = fresh, pr_version = 1\<rparr>" "st1 = st"
  | (revise) old p where "pq_revises req = Some old" "proposals st (ref_key old) = Some p"
      "sp_requester_id p = actor_id (pq_actor req)" "ps_status (sp_snapshot p) = PENDING"
      "latest_versions st (proposal_id old) = Some (pr_version old)"
      "res = Inr \<lparr>proposal_id = proposal_id old, pr_version = pr_version old + 1\<rparr>"
      "st1 = st\<lparr>proposals := (proposals st)(ref_key old \<mapsto> set_status SUPERSEDED p)\<rparr>"
proof (cases "pq_revises req")
  case None
  with assms that(2) show ?thesis by (simp add: allocate_ref_def)
next
  case (Some old)
  show ?thesis
  proof (cases "proposals st (ref_key old)")
    case None
    with Some assms that(1) show ?thesis by (auto simp add: allocate_ref_def)
  next
    case p: (Some p)
    show ?thesis
    proof (cases "sp_requester_id p \<noteq> actor_id (pq_actor req) \<or> ps_status (sp_snapshot p) \<noteq> PENDING
        \<or> latest_versions st (proposal_id old) \<noteq> Some (pr_version old)")
      case True
      with Some p assms that(1) show ?thesis by (auto simp add: allocate_ref_def)
    next
      case False
      with Some p assms that(3) [of old p] show ?thesis by (simp add: allocate_ref_def)
    qed
  qed
qed

lemma create_or_get_cases:
  assumes "create_or_get_proposal fresh d st = (res, st')"
  obtains e where "res = Inl e" "st' = st"
  | (replay) ref ty sha p where "idempotency st (actor_id (pq_actor (pd_request d)), pq_idempotency_key (pd_request d))
        = Some (ref, ty, sha)"
      "ty = command_type (pq_command (pd_request d))" "sha = pd_payload_sha256 d"
      "proposals st (ref_key ref) = Some p" "res = Inr (sp_snapshot p)" "st' = st"
  | (invalid) ref where "idempotency st (actor_id (pq_actor (pd_request d)), pq_idempotency_key (pd_request d)) = None"
      "allocate_ref fresh (pd_request d) st = (Inr ref, st')" "res = Inl ValidationError"
  | (created) ref st1 where "idempotency st (actor_id (pq_actor (pd_request d)), pq_idempotency_key (pd_request d)) = None"
      "allocate_ref fresh (pd_request d) st = (Inr ref, st1)"
      "valid_proposal_snapshot (draft_snapshot d ref)" "res = Inr (draft_snapshot d ref)"
      "st' = store_proposal d ref st1"
proof (cases "idempotency st (actor_id (pq_actor (pd_request d)), pq_idempotency_key (pd_request d))")
  case None
  obtain r st1 where al: "allocate_ref fresh (pd_request d) st = (r, st1)" by fastforce
  show ?thesis
  proof (cases r)
    case (Inl e)
    then have "st1 = st" using al by (auto elim: allocate_ref_cases)
    with None Inl al assms that(1) show ?thesis by (auto simp add: create_or_get_proposal_def Let_def)
  next
    case (Inr ref)
    show ?thesis
    proof (cases "valid_proposal_snapshot (draft_snapshot d ref)")
      case True
      with None Inr al assms that(4) [of ref st1] show ?thesis
        by (simp add: create_or_get_proposal_def Let_def)
    next
      case False
      with None Inr al assms that(3) [of ref] show ?thesis
        by (simp add: create_or_get_proposal_def Let_def)
    qed
  qed
next
  case (Some x)
  obtain ref ty sha where x: "x = (ref, ty, sha)" by (cases x)
  show ?thesis
  proof (cases "(ty, sha) \<noteq> (command_type (pq_command (pd_request d)), pd_payload_sha256 d)")
    case True
    with Some x assms that(1) show ?thesis by (auto simp add: create_or_get_proposal_def Let_def)
  next
    case False
    then have eqs: "ty = command_type (pq_command (pd_request d))" "sha = pd_payload_sha256 d" by simp_all
    show ?thesis
    proof (cases "proposals st (ref_key ref)")
      case None
      then have "create_or_get_proposal fresh d st = (Inl KeyError, st)"
        using Some x eqs by (simp add: create_or_get_proposal_def Let_def)
      with assms show ?thesis using that(1) by auto
    next
      case p: (Some p)
      then have "create_or_get_proposal fresh d st = (Inr (sp_snapshot p), st)"
        using Some x eqs by (simp add: create_or_get_proposal_def Let_def)
      with assms show ?thesis using that(2) [OF Some [unfolded x] eqs p] by simp
    qed
  qed
qed

lemma decide_once_cases:
  assumes "decide_once X r a now st = (res, st')"
  obtains e where "res = Inl e" "st' = st"
  | (expired) p where "proposals st (ref_key (dc_proposal_ref r)) = Some p"
      "ps_status (sp_snapshot p) = PENDING" "ps_expires_at (sp_snapshot p) \<le> now"
      "res = Inl (approval_error ''proposal_expired'')"
      "st' = st\<lparr>proposals := (proposals st)(ref_key (dc_proposal_ref r) \<mapsto> set_status EXPIRED p)\<rparr>"
  | (decided) p sha where "proposals st (ref_key (dc_proposal_ref r)) = Some p"
      "ps_status (sp_snapshot p) = PENDING" "now < ps_expires_at (sp_snapshot p)" "res = Inr r"
      "(case dc_grant r of None \<Rightarrow> sha = None | Some g \<Rightarrow> \<exists>h. execution_grant_sha256 X g = Inr h \<and> sha = Some h)"
      "st' = st\<lparr>proposals := (proposals st)(ref_key (dc_proposal_ref r) \<mapsto> set_status (dc_status r) p),
         decisions := (decisions st)(ref_key (dc_proposal_ref r) \<mapsto>
           \<lparr>sd_status = dc_status r, sd_approver_id = dc_approver_id r, sd_decided_at = dc_decided_at r,
            sd_reason = dc_reason r, sd_approval = a, sd_grant_sha256 = sha\<rparr>),
         decision_receipts := (decision_receipts st)(ref_key (dc_proposal_ref r) \<mapsto> r)\<rparr>"
proof (cases "proposals st (ref_key (dc_proposal_ref r))")
  case None
  with assms that(1) show ?thesis by (auto simp add: decide_once_def Let_def)
next
  case (Some p)
  show ?thesis
  proof (cases "ps_status (sp_snapshot p) = PENDING")
    case False
    with Some assms that(1) show ?thesis by (auto simp add: decide_once_def Let_def)
  next
    case pending: True
    show ?thesis
    proof (cases "ps_expires_at (sp_snapshot p) \<le> now")
      case True
      with Some pending assms that(2) [of p] show ?thesis by (simp add: decide_once_def Let_def)
    next
      case False
      with Some pending assms
        that(3) [of p "map_option (\<lambda>g. x_sha256 X (utf8 (dumps (JObj (grant_json X g))))) (dc_grant r)"]
      show ?thesis by (cases "dc_grant r") (simp_all add: decide_once_def Let_def grant_sha_eq)
    qed
  qed
qed

text \<open>Applying a command touches nothing but the business objects.\<close>

definition business_only :: "op_store \<Rightarrow> op_store \<Rightarrow> bool" where
  "business_only st st' \<longleftrightarrow> st' = st\<lparr>tasks := tasks st', risks := risks st', rules := rules st'\<rparr>"

lemma update_task_frame: "update_task c ref t st = (r, st') \<Longrightarrow> \<exists>rs. st' = st\<lparr>risks := rs\<rparr>"
  by (cases c) (auto simp: update_task_def Let_def split: if_splits option.splits
      intro: exI [of _ "risks st"])

lemma apply_command_frame: "apply_command X c ref st = (r, st') \<Longrightarrow> business_only st st'"
  unfolding business_only_def
  by (cases c) (auto simp: apply_command_def put_task_def Let_def
      split: option.splits if_splits prod.splits sum.splits dest!: update_task_frame)

lemma execute_once_cases:
  assumes "execute_once X p a now st = (res, st')"
  defines "key \<equiv> ref_key (ps_proposal_ref (sp_snapshot p))"
  obtains (error) e where "executions st key = None" "res = Inl e" "business_only st st'"
  | (replay) r where "executions st key = Some r" "res = Inr r" "st' = st"
  | (committed) versions st1 where "executions st key = None"
      "nonce_claims st (sa_nonce_digest a) = None"
      "apply_command X (sp_command p) (ps_proposal_ref (sp_snapshot p)) st = (Inr versions, st1)"
      "business_only st st1" "res = Inr (execution_receipt_of X p versions now)"
      "valid_execution_receipt (execution_receipt_of X p versions now)"
      "st' = st1\<lparr>nonce_claims := (nonce_claims st1)(sa_nonce_digest a \<mapsto> ps_proposal_ref (sp_snapshot p)),
         executions := (executions st1)(key \<mapsto> execution_receipt_of X p versions now),
         business_write_count := business_write_count st1 + 1,
         audit_count := audit_count st1 + 1, nonce_claim_count := nonce_claim_count st1 + 1\<rparr>"
proof (cases "executions st key")
  case (Some r)
  then have "execute_once X p a now st = (Inr r, st)" by (simp add: execute_once_def Let_def key_def)
  with assms(1) show ?thesis using that(2) [OF Some] by simp
next
  case None
  obtain r st1 where ap: "apply_command X (sp_command p) (ps_proposal_ref (sp_snapshot p)) st = (r, st1)"
    by fastforce
  have st1: "business_only st st1" by (rule apply_command_frame [OF ap])
  have same: "business_only st st" by (simp add: business_only_def)
  show ?thesis
  proof (cases "nonce_claims st (sa_nonce_digest a)")
    case (Some n)
    with None have "execute_once X p a now st = (Inl (approval_error ''nonce_used''), st)"
      by (simp add: execute_once_def Let_def key_def)
    with assms(1) show ?thesis using that(1) [OF None] same by auto
  next
    case nc: None
    show ?thesis
    proof (cases r)
      case (Inl e)
      with None nc ap have "execute_once X p a now st = (Inl e, st1)"
        by (simp add: execute_once_def Let_def key_def)
      with assms(1) st1 show ?thesis using that(1) [OF None] by auto
    next
      case (Inr versions)
      show ?thesis
      proof (cases "valid_execution_receipt (execution_receipt_of X p versions now)")
        case True
        show ?thesis
          by (rule that(3) [OF None nc _ st1])
            (use True None nc ap Inr assms(1) in \<open>auto simp add: execute_once_def Let_def key_def\<close>)
      next
        case False
        with None nc ap Inr have "execute_once X p a now st = (Inl ValidationError, st1)"
          by (simp add: execute_once_def Let_def key_def)
        with assms(1) st1 show ?thesis using that(1) [OF None] by auto
      qed
    qed
  qed
qed


subsection \<open>The invariant\<close>

definition proposal_wf :: "externals \<Rightarrow> op_store \<Rightarrow> proposal_key \<Rightarrow> stored_proposal \<Rightarrow> bool" where
  "proposal_wf X st k p \<longleftrightarrow>
     ref_key (ps_proposal_ref (sp_snapshot p)) = k
     \<and> ps_requester_id (sp_snapshot p) = sp_requester_id p
     \<and> ps_command_type (sp_snapshot p) = command_type (sp_command p)
     \<and> valid_command (sp_command p)
     \<and> ps_payload_sha256 (sp_snapshot p)
         = signed_digest X (sp_command p) (cp_target_versions (ps_preview (sp_snapshot p)))
     \<and> (\<exists>l. latest_versions st (fst k) = Some l \<and> snd k \<le> l
          \<and> (snd k < l \<longrightarrow> ps_status (sp_snapshot p) = SUPERSEDED))"

definition proposals_inv :: "externals \<Rightarrow> op_store \<Rightarrow> bool" where
  "proposals_inv X st \<longleftrightarrow> (\<forall>k p. proposals st k = Some p \<longrightarrow> proposal_wf X st k p)"

definition ids_inv :: "op_store \<Rightarrow> bool" where
  "ids_inv st \<longleftrightarrow> (\<forall>a i ref ty sha. idempotency st (a, i) = Some (ref, ty, sha) \<longrightarrow>
     (\<exists>p. proposals st (ref_key ref) = Some p \<and> sp_requester_id p = a \<and> sp_idempotency_key p = i
        \<and> command_type (sp_command p) = ty \<and> ps_payload_sha256 (sp_snapshot p) = sha))"

definition decision_wf :: "stored_proposal \<Rightarrow> stored_decision \<Rightarrow> bool" where
  "decision_wf p d \<longleftrightarrow>
     ps_status (sp_snapshot p) = sd_status d \<and> sd_approver_id d \<noteq> sp_requester_id p
     \<and> (case sd_approval d of
          None \<Rightarrow> sd_status d = REJECTED \<and> sd_grant_sha256 d = None
        | Some a \<Rightarrow> sd_status d = APPROVED \<and> sd_grant_sha256 d \<noteq> None
            \<and> sa_proposal_ref a = ps_proposal_ref (sp_snapshot p)
            \<and> sa_payload_sha256 a = ps_payload_sha256 (sp_snapshot p)
            \<and> sa_requester_id a = sp_requester_id p \<and> sa_approver_id a = sd_approver_id d
            \<and> sa_target_versions a = cp_target_versions (ps_preview (sp_snapshot p)))"

definition decisions_inv :: "op_store \<Rightarrow> bool" where
  "decisions_inv st \<longleftrightarrow>
     (\<forall>k d. decisions st k = Some d \<longrightarrow> (\<exists>p. proposals st k = Some p \<and> decision_wf p d))
     \<and> (\<forall>k p. proposals st k = Some p \<longrightarrow> ps_status (sp_snapshot p) \<in> {APPROVED, REJECTED}
          \<longrightarrow> decisions st k \<noteq> None)"

definition executions_inv :: "op_store \<Rightarrow> bool" where
  "executions_inv st \<longleftrightarrow>
     (\<forall>k r. executions st k = Some r \<longrightarrow>
        (\<exists>p d a. proposals st k = Some p \<and> decisions st k = Some d \<and> sd_approval d = Some a
           \<and> er_proposal_ref r = ps_proposal_ref (sp_snapshot p)
           \<and> er_command_type r = command_type (sp_command p)
           \<and> nonce_claims st (sa_nonce_digest a) = Some (er_proposal_ref r)))"

definition nonces_inv :: "op_store \<Rightarrow> bool" where
  "nonces_inv st \<longleftrightarrow>
     (\<forall>n ref. nonce_claims st n = Some ref \<longrightarrow>
        (\<exists>d a. executions st (ref_key ref) \<noteq> None \<and> decisions st (ref_key ref) = Some d
           \<and> sd_approval d = Some a \<and> sa_nonce_digest a = n))"

definition counts_inv :: "op_store \<Rightarrow> bool" where
  "counts_inv st \<longleftrightarrow>
     finite (dom (executions st)) \<and> finite (dom (nonce_claims st))
     \<and> card (dom (nonce_claims st)) = card (dom (executions st))
     \<and> business_write_count st = card (dom (executions st))
     \<and> audit_count st = card (dom (executions st))
     \<and> nonce_claim_count st = card (dom (executions st))"

definition board_inv :: "op_store \<Rightarrow> bool" where
  "board_inv st \<longleftrightarrow>
     (\<forall>tid t. tasks st tid = Some t \<longrightarrow>
        tk_task_id t = tid \<and> (\<forall>r. tk_linked_risk_id t = Some r \<longrightarrow> risks st r \<noteq> None))"

definition store_inv :: "externals \<Rightarrow> op_store \<Rightarrow> bool" where
  "store_inv X st \<longleftrightarrow>
     proposals_inv X st \<and> ids_inv st \<and> decisions_inv st \<and> executions_inv st \<and> nonces_inv st
     \<and> counts_inv st \<and> board_inv st"

lemma set_status_simps [simp]:
  "ps_status (sp_snapshot (set_status s p)) = s"
  "sp_requester_id (set_status s p) = sp_requester_id p"
  "sp_command (set_status s p) = sp_command p"
  "sp_idempotency_key (set_status s p) = sp_idempotency_key p"
  "ps_proposal_ref (sp_snapshot (set_status s p)) = ps_proposal_ref (sp_snapshot p)"
  "ps_requester_id (sp_snapshot (set_status s p)) = ps_requester_id (sp_snapshot p)"
  "ps_command_type (sp_snapshot (set_status s p)) = ps_command_type (sp_snapshot p)"
  "ps_payload_sha256 (sp_snapshot (set_status s p)) = ps_payload_sha256 (sp_snapshot p)"
  "ps_preview (sp_snapshot (set_status s p)) = ps_preview (sp_snapshot p)"
  "ps_expires_at (sp_snapshot (set_status s p)) = ps_expires_at (sp_snapshot p)"
  by (simp_all add: set_status_def)

lemma store_inv_wf: "store_inv X st \<Longrightarrow> proposals st k = Some p \<Longrightarrow> proposal_wf X st k p"
  by (simp add: store_inv_def proposals_inv_def del: split_paired_All)

lemma store_inv_decision:
  "store_inv X st \<Longrightarrow> decisions st k = Some d \<Longrightarrow> \<exists>p. proposals st k = Some p \<and> decision_wf p d"
  unfolding store_inv_def decisions_inv_def by blast

lemma store_inv_execution:
  "store_inv X st \<Longrightarrow> executions st k = Some r \<Longrightarrow>
     \<exists>p d a. proposals st k = Some p \<and> decisions st k = Some d \<and> sd_approval d = Some a
       \<and> decision_wf p d \<and> er_proposal_ref r = ps_proposal_ref (sp_snapshot p)
       \<and> er_command_type r = command_type (sp_command p)
       \<and> nonce_claims st (sa_nonce_digest a) = Some (er_proposal_ref r)"
proof -
  assume inv: "store_inv X st" and r: "executions st k = Some r"
  from inv r obtain p d a where p: "proposals st k = Some p" and d: "decisions st k = Some d"
    and a: "sd_approval d = Some a" "er_proposal_ref r = ps_proposal_ref (sp_snapshot p)"
      "er_command_type r = command_type (sp_command p)"
      "nonce_claims st (sa_nonce_digest a) = Some (er_proposal_ref r)"
    unfolding store_inv_def executions_inv_def by blast
  moreover have "decision_wf p d" using store_inv_decision [OF inv d] p by auto
  ultimately show ?thesis by blast
qed

lemma store_inv_nonce:
  "store_inv X st \<Longrightarrow> nonce_claims st n = Some ref \<Longrightarrow>
     \<exists>d a. executions st (ref_key ref) \<noteq> None \<and> decisions st (ref_key ref) = Some d
       \<and> sd_approval d = Some a \<and> sa_nonce_digest a = n"
  unfolding store_inv_def nonces_inv_def by blast

lemma store_inv_id:
  "store_inv X st \<Longrightarrow> idempotency st (a, i) = Some (ref, ty, sha) \<Longrightarrow>
     \<exists>p. proposals st (ref_key ref) = Some p \<and> sp_requester_id p = a \<and> sp_idempotency_key p = i
       \<and> command_type (sp_command p) = ty \<and> ps_payload_sha256 (sp_snapshot p) = sha"
  unfolding store_inv_def ids_inv_def by blast

text \<open>A pending proposal carries the latest version, no decision and no execution.\<close>

lemma pending_facts:
  assumes inv: "store_inv X st" and p: "proposals st k = Some p" "ps_status (sp_snapshot p) = PENDING"
  shows "latest_versions st (fst k) = Some (snd k)" "decisions st k = None" "executions st k = None"
proof -
  have wf: "proposal_wf X st k p" using store_inv_wf inv p by blast
  then obtain l where l: "latest_versions st (fst k) = Some l" "snd k \<le> l"
    "snd k < l \<longrightarrow> ps_status (sp_snapshot p) = SUPERSEDED"
    by (auto simp: proposal_wf_def)
  show "latest_versions st (fst k) = Some (snd k)" using l p(2) by (cases "snd k < l") auto
  show d: "decisions st k = None"
  proof (rule ccontr)
    assume "decisions st k \<noteq> None"
    then obtain d where "decisions st k = Some d" by auto
    then have "decision_wf p d" using store_inv_decision [OF inv] p(1) by fastforce
    then show False using p(2) by (auto simp: decision_wf_def split: option.splits)
  qed
  show "executions st k = None"
    using d store_inv_execution [OF inv] by (cases "executions st k") fastforce+
qed

lemma set_status_inv:
  assumes inv: "store_inv X st" and p: "proposals st k = Some p" "ps_status (sp_snapshot p) = PENDING"
    and s: "s = SUPERSEDED \<or> s = EXPIRED"
  shows "store_inv X (st\<lparr>proposals := (proposals st)(k \<mapsto> set_status s p)\<rparr>)" (is "store_inv X ?st")
proof -
  note pend = pending_facts [OF inv p]
  have "proposals_inv X ?st"
    unfolding proposals_inv_def
  proof (intro allI impI)
    fix k' p' assume p': "proposals ?st k' = Some p'"
    show "proposal_wf X ?st k' p'"
    proof (cases "k' = k")
      case True
      then have "proposal_wf X st k p" using store_inv_wf inv p by blast
      with True p' pend(1) show ?thesis by (auto simp: proposal_wf_def)
    next
      case False
      with p' store_inv_wf [OF inv, of k' p'] show ?thesis by (simp add: proposal_wf_def)
    qed
  qed
  moreover have "ids_inv ?st"
    unfolding ids_inv_def
  proof (intro allI impI)
    fix a i ref ty sha assume "idempotency ?st (a, i) = Some (ref, ty, sha)"
    then obtain q where "proposals st (ref_key ref) = Some q" "sp_requester_id q = a"
      "sp_idempotency_key q = i" "command_type (sp_command q) = ty" "ps_payload_sha256 (sp_snapshot q) = sha"
      using store_inv_id [OF inv] by fastforce
    then show "\<exists>q. proposals ?st (ref_key ref) = Some q \<and> sp_requester_id q = a
        \<and> sp_idempotency_key q = i \<and> command_type (sp_command q) = ty
        \<and> ps_payload_sha256 (sp_snapshot q) = sha"
      using p(1) by (cases "ref_key ref = k") auto
  qed
  moreover have "decisions_inv ?st"
    using inv pend(2) s unfolding store_inv_def decisions_inv_def
    by (auto simp del: split_paired_All split_paired_Ex)
  moreover have "executions_inv ?st"
    unfolding executions_inv_def
  proof (intro allI impI)
    fix k' r assume r: "executions ?st k' = Some r"
    then have "k' \<noteq> k" using pend(3) by auto
    with r inv show "\<exists>p d a. proposals ?st k' = Some p \<and> decisions ?st k' = Some d
        \<and> sd_approval d = Some a \<and> er_proposal_ref r = ps_proposal_ref (sp_snapshot p)
        \<and> er_command_type r = command_type (sp_command p)
        \<and> nonce_claims ?st (sa_nonce_digest a) = Some (er_proposal_ref r)"
      by (simp add: store_inv_def executions_inv_def del: split_paired_All)
  qed
  moreover have "nonces_inv ?st" using inv by (simp add: store_inv_def nonces_inv_def)
  moreover have "counts_inv ?st" using inv by (simp add: store_inv_def counts_inv_def)
  moreover have "board_inv ?st" using inv by (simp add: store_inv_def board_inv_def)
  ultimately show ?thesis by (simp add: store_inv_def)
qed

subsection \<open>Every operation keeps the invariant\<close>

lemma ref_key_simps [simp]: "fst (ref_key r) = proposal_id r" "snd (ref_key r) = pr_version r"
  by (simp_all add: ref_key_def)

definition draft_ok :: "externals \<Rightarrow> proposal_draft \<Rightarrow> bool" where
  "draft_ok X d \<longleftrightarrow> valid_command (pq_command (pd_request d))
     \<and> pd_payload_sha256 d = signed_digest X (pq_command (pd_request d)) (cp_target_versions (pd_preview d))"

lemma store_proposal_inv:
  assumes inv: "store_inv X st" and d: "draft_ok X d"
    and older: "\<And>w p. proposals st (proposal_id ref, w) = Some p \<Longrightarrow>
        w < pr_version ref \<and> ps_status (sp_snapshot p) = SUPERSEDED"
  shows "store_inv X (store_proposal d ref st)" (is "store_inv X ?st")
proof -
  define q where "q = the (proposals ?st (ref_key ref))"
  have q: "proposals ?st (ref_key ref) = Some q" "ps_status (sp_snapshot q) = PENDING"
    by (simp_all add: q_def store_proposal_def Let_def draft_snapshot_def)
  have none: "proposals st (ref_key ref) = None"
    using older [of "pr_version ref"] by (cases "proposals st (ref_key ref)") (auto simp: ref_key_def)
  have others: "proposals ?st k = (if k = ref_key ref then Some q else proposals st k)" for k
    using q(1) by (simp add: store_proposal_def Let_def)
  have same: "decisions ?st = decisions st" "executions ?st = executions st"
    "nonce_claims ?st = nonce_claims st" "tasks ?st = tasks st" "risks ?st = risks st"
    "business_write_count ?st = business_write_count st" "audit_count ?st = audit_count st"
    "nonce_claim_count ?st = nonce_claim_count st"
    "latest_versions ?st = (latest_versions st)(proposal_id ref \<mapsto> pr_version ref)"
    by (simp_all add: store_proposal_def Let_def)
  have "proposals_inv X ?st"
    unfolding proposals_inv_def
  proof (intro allI impI)
    fix k p assume p: "proposals ?st k = Some p"
    show "proposal_wf X ?st k p"
    proof (cases "k = ref_key ref")
      case True
      have "p = q" using p True q by simp
      then show ?thesis using True d
        by (simp add: proposal_wf_def q_def store_proposal_def Let_def draft_snapshot_def draft_ok_def)
    next
      case False
      then have p': "proposals st k = Some p" using p others by simp
      then have wf: "proposal_wf X st k p" using store_inv_wf [OF inv] by blast
      show ?thesis
      proof (cases "fst k = proposal_id ref")
        case True
        then have "snd k < pr_version ref \<and> ps_status (sp_snapshot p) = SUPERSEDED"
          using older [of "snd k" p] p' by (metis prod.collapse)
        then show ?thesis using wf True same(9) by (simp add: proposal_wf_def)
      next
        case False
        then show ?thesis using wf same(9) by (simp add: proposal_wf_def)
      qed
    qed
  qed
  moreover have "ids_inv ?st"
    unfolding ids_inv_def
  proof (intro allI impI)
    fix a i r ty sha assume id: "idempotency ?st (a, i) = Some (r, ty, sha)"
    show "\<exists>p. proposals ?st (ref_key r) = Some p \<and> sp_requester_id p = a \<and> sp_idempotency_key p = i
        \<and> command_type (sp_command p) = ty \<and> ps_payload_sha256 (sp_snapshot p) = sha"
    proof (cases "(a, i) = (actor_id (pq_actor (pd_request d)), pq_idempotency_key (pd_request d))")
      case True
      then show ?thesis using id
        by (intro exI [of _ q]) (auto simp: q_def store_proposal_def Let_def draft_snapshot_def)
    next
      case False
      then have "idempotency st (a, i) = Some (r, ty, sha)"
        using id by (auto simp: store_proposal_def Let_def split: if_splits)
      then obtain p where p: "proposals st (ref_key r) = Some p" "sp_requester_id p = a"
        "sp_idempotency_key p = i" "command_type (sp_command p) = ty" "ps_payload_sha256 (sp_snapshot p) = sha"
        using store_inv_id [OF inv] by fastforce
      moreover have "ref_key r \<noteq> ref_key ref" using p none by auto
      ultimately show ?thesis using others by auto
    qed
  qed
  moreover have "decisions_inv ?st"
    unfolding decisions_inv_def
  proof (intro conjI allI impI)
    fix k e assume "decisions ?st k = Some e"
    then obtain p where "proposals st k = Some p" "decision_wf p e"
      using same(1) store_inv_decision [OF inv, of k e] by auto
    then show "\<exists>p. proposals ?st k = Some p \<and> decision_wf p e" using others none by auto
  next
    fix k p assume p: "proposals ?st k = Some p" and "ps_status (sp_snapshot p) \<in> {APPROVED, REJECTED}"
    then have "k \<noteq> ref_key ref" using q by auto
    then have "proposals st k = Some p" using p others by simp
    with \<open>ps_status _ \<in> _\<close> show "decisions ?st k \<noteq> None"
      using inv unfolding same store_inv_def decisions_inv_def by blast
  qed
  moreover have "executions_inv ?st"
    unfolding executions_inv_def same
  proof (intro allI impI)
    fix k r assume "executions st k = Some r"
    then obtain p e a where "proposals st k = Some p" "decisions st k = Some e" "sd_approval e = Some a"
      "er_proposal_ref r = ps_proposal_ref (sp_snapshot p)" "er_command_type r = command_type (sp_command p)"
      "nonce_claims st (sa_nonce_digest a) = Some (er_proposal_ref r)"
      using store_inv_execution [OF inv, of k r] by auto
    then show "\<exists>p e a. proposals ?st k = Some p \<and> decisions st k = Some e
        \<and> sd_approval e = Some a \<and> er_proposal_ref r = ps_proposal_ref (sp_snapshot p)
        \<and> er_command_type r = command_type (sp_command p)
        \<and> nonce_claims st (sa_nonce_digest a) = Some (er_proposal_ref r)"
      using others none by auto
  qed
  moreover have "nonces_inv ?st" using inv by (simp add: store_inv_def nonces_inv_def same)
  moreover have "counts_inv ?st" using inv by (simp add: store_inv_def counts_inv_def same)
  moreover have "board_inv ?st" using inv by (simp add: store_inv_def board_inv_def same)
  ultimately show ?thesis by (simp add: store_inv_def)
qed

lemma create_or_get_inv:
  assumes inv: "store_inv X st" and d: "draft_ok X d" and fresh: "latest_versions st fresh = None"
    and c: "create_or_get_proposal fresh d st = (res, st')"
  shows "store_inv X st'"
  using c
proof (cases rule: create_or_get_cases)
  case (invalid ref)
  from invalid(2) show ?thesis
  proof (cases rule: allocate_ref_cases)
    case (revise old p)
    then show ?thesis using set_status_inv [OF inv, of "ref_key old" p SUPERSEDED] by simp
  qed (use inv in auto)
next
  case (created ref st1)
  from created(2) show ?thesis
  proof (cases rule: allocate_ref_cases)
    case new
    have "proposals st (fresh, w) = None" for w
      using fresh store_inv_wf [OF inv, of "(fresh, w)"]
      by (cases "proposals st (fresh, w)") (auto simp: proposal_wf_def)
    then show ?thesis
      using created(5) new inv d by (auto intro!: store_proposal_inv)
  next
    case (revise old p)
    have inv1: "store_inv X st1"
      using revise set_status_inv [OF inv, of "ref_key old" p SUPERSEDED] by simp
    have "w < pr_version ref \<and> ps_status (sp_snapshot q) = SUPERSEDED"
      if q: "proposals st1 (proposal_id ref, w) = Some q" for w q
    proof (cases "w = pr_version old")
      case True
      then show ?thesis using q revise by (auto simp: ref_key_def)
    next
      case False
      then have "proposals st (proposal_id old, w) = Some q" using q revise by (auto simp: ref_key_def)
      then have "proposal_wf X st (proposal_id old, w) q" using store_inv_wf [OF inv] by blast
      then show ?thesis using False revise by (auto simp: proposal_wf_def)
    qed
    then show ?thesis using created(5) store_proposal_inv [OF inv1 d] by blast
  qed (use inv created in auto)
qed (use inv in auto)

lemma store_inv_decided:
  "store_inv X st \<Longrightarrow> proposals st k = Some p \<Longrightarrow> ps_status (sp_snapshot p) \<in> {APPROVED, REJECTED}
     \<Longrightarrow> \<exists>d. decisions st k = Some d"
  unfolding store_inv_def decisions_inv_def by blast

lemma decided_inv:
  assumes inv: "store_inv X st" and p: "proposals st k = Some p" "ps_status (sp_snapshot p) = PENDING"
    and ok: "decision_ok r a p"
    and sha: "(case dc_grant r of None \<Rightarrow> sha = None | Some g \<Rightarrow> \<exists>h. sha = Some h)"
  shows "store_inv X (st\<lparr>proposals := (proposals st)(k \<mapsto> set_status (dc_status r) p),
       decisions := (decisions st)(k \<mapsto>
         \<lparr>sd_status = dc_status r, sd_approver_id = dc_approver_id r, sd_decided_at = dc_decided_at r,
          sd_reason = dc_reason r, sd_approval = a, sd_grant_sha256 = sha\<rparr>),
       decision_receipts := (decision_receipts st)(k \<mapsto> r)\<rparr>)" (is "store_inv X ?st")
proof -
  note pend = pending_facts [OF inv p]
  have "proposals_inv X ?st"
    unfolding proposals_inv_def
  proof (intro allI impI)
    fix k' p' assume p': "proposals ?st k' = Some p'"
    show "proposal_wf X ?st k' p'"
    proof (cases "k' = k")
      case True
      have "proposal_wf X st k p" using store_inv_wf inv p by blast
      with True p' pend(1) show ?thesis by (auto simp: proposal_wf_def)
    next
      case False
      with p' store_inv_wf [OF inv, of k' p'] show ?thesis by (simp add: proposal_wf_def)
    qed
  qed
  moreover have "ids_inv ?st"
    unfolding ids_inv_def
  proof (intro allI impI)
    fix i j ref ty s assume "idempotency ?st (i, j) = Some (ref, ty, s)"
    then obtain q where "proposals st (ref_key ref) = Some q" "sp_requester_id q = i"
      "sp_idempotency_key q = j" "command_type (sp_command q) = ty" "ps_payload_sha256 (sp_snapshot q) = s"
      using store_inv_id [OF inv] by fastforce
    then show "\<exists>q. proposals ?st (ref_key ref) = Some q \<and> sp_requester_id q = i
        \<and> sp_idempotency_key q = j \<and> command_type (sp_command q) = ty
        \<and> ps_payload_sha256 (sp_snapshot q) = s"
      using p(1) by (cases "ref_key ref = k") auto
  qed
  moreover have "decisions_inv ?st"
    unfolding decisions_inv_def
  proof (intro conjI allI impI)
    fix k' e assume e: "decisions ?st k' = Some e"
    show "\<exists>q. proposals ?st k' = Some q \<and> decision_wf q e"
    proof (cases "k' = k")
      case True
      then show ?thesis using e ok sha
        by (auto simp: decision_wf_def decision_ok_def split: option.splits)
    next
      case False
      then show ?thesis using e store_inv_decision [OF inv, of k' e] by simp
    qed
  next
    fix k' q assume "proposals ?st k' = Some q" "ps_status (sp_snapshot q) \<in> {APPROVED, REJECTED}"
    then show "decisions ?st k' \<noteq> None"
      using store_inv_decided [OF inv, of k' q] by (cases "k' = k") simp_all
  qed
  moreover have "executions_inv ?st"
    unfolding executions_inv_def
  proof (intro allI impI)
    fix k' x assume "executions ?st k' = Some x"
    then have x: "executions st k' = Some x" and "k' \<noteq> k" using pend(3) by auto
    then show "\<exists>q e b. proposals ?st k' = Some q \<and> decisions ?st k' = Some e
        \<and> sd_approval e = Some b \<and> er_proposal_ref x = ps_proposal_ref (sp_snapshot q)
        \<and> er_command_type x = command_type (sp_command q)
        \<and> nonce_claims ?st (sa_nonce_digest b) = Some (er_proposal_ref x)"
      using store_inv_execution [OF inv x] by auto
  qed
  moreover have "nonces_inv ?st"
    unfolding nonces_inv_def
  proof (intro allI impI)
    fix n ref assume "nonce_claims ?st n = Some ref"
    then have "nonce_claims st n = Some ref" by simp
    from store_inv_nonce [OF inv this] pend(3)
    show "\<exists>e b. executions ?st (ref_key ref) \<noteq> None \<and> decisions ?st (ref_key ref) = Some e
        \<and> sd_approval e = Some b \<and> sa_nonce_digest b = n"
      by auto
  qed
  moreover have "counts_inv ?st" using inv by (simp add: store_inv_def counts_inv_def)
  moreover have "board_inv ?st" using inv by (simp add: store_inv_def board_inv_def)
  ultimately show ?thesis by (simp add: store_inv_def)
qed

lemma decide_once_inv:
  assumes inv: "store_inv X st"
    and ok: "\<And>p. proposals st (ref_key (dc_proposal_ref r)) = Some p \<Longrightarrow> decision_ok r a p"
    and d: "decide_once X r a now st = (res, st')"
  shows "store_inv X st'"
  using d
proof (cases rule: decide_once_cases)
  case (expired p)
  then show ?thesis using set_status_inv [OF inv] by simp
next
  case (decided p sha)
  have s: "(case dc_grant r of None \<Rightarrow> sha = None | Some g \<Rightarrow> \<exists>h. sha = Some h)"
    using decided(5) by (auto split: option.splits)
  show ?thesis unfolding decided(6) by (rule decided_inv [OF inv decided(1,2) ok [OF decided(1)] s])
qed (use inv in simp)

lemma put_task_board:
  "board_inv st \<Longrightarrow> (\<And>r. tk_linked_risk_id t = Some r \<Longrightarrow> risks st r \<noteq> None) \<Longrightarrow> board_inv (put_task t st)"
  by (auto simp: board_inv_def put_task_def)

lemma update_task_facts:
  assumes "update_task c ref t st = (r, st')"
  shows "tasks st' = tasks st" "risks st q \<noteq> None \<Longrightarrow> risks st' q \<noteq> None"
    "r = Inr t' \<Longrightarrow> tk_task_id t' = tk_task_id t \<and> tk_linked_risk_id t' = tk_linked_risk_id t"
proof -
  show "tasks st' = tasks st" using update_task_frame [OF assms] by auto
  show "risks st' q \<noteq> None" if "risks st q \<noteq> None"
    using assms that by (cases c) (auto simp: update_task_def Let_def split: if_splits option.splits)
  show "tk_task_id t' = tk_task_id t \<and> tk_linked_risk_id t' = tk_linked_risk_id t" if "r = Inr t'"
    using assms that by (cases c) (auto simp: update_task_def Let_def split: if_splits option.splits)
qed

lemma update_task_board:
  assumes "update_task c ref t st = (r, st')" "board_inv st"
  shows "board_inv st'"
  using assms(2) update_task_facts(1,2) [OF assms(1)] unfolding board_inv_def by metis

lemma existing_task_board:
  assumes b: "board_inv st" and t: "tasks st tid = Some t" and u: "update_task c ref t st = (Inr t', st1)"
  shows "board_inv (st1\<lparr>tasks := (tasks st1)(tk_task_id t \<mapsto> t')\<rparr>)"
proof -
  have tid: "tk_task_id t = tid" using b t by (auto simp: board_inv_def)
  have b1: "board_inv st1" by (rule update_task_board [OF u b])
  have "tasks st1 tid = Some t" using update_task_facts(1) [OF u] t by simp
  moreover have "tk_task_id t' = tk_task_id t" "tk_linked_risk_id t' = tk_linked_risk_id t"
    using update_task_facts(3) [OF u] by auto
  ultimately show ?thesis using b1 tid by (auto simp: board_inv_def)
qed

text \<open>The branch of \<open>apply_command\<close> for a command on an existing task.\<close>

lemma apply_existing:
  assumes "command_task_ref c = Some tr"
  shows "apply_command X c ref st =
    (case tasks st (tr_task_id tr) of
       None \<Rightarrow> (Inl (contract_error ''investigation_not_found''), st)
     | Some t \<Rightarrow>
         if tk_version t \<noteq> expected_target_version c
         then (Inl (conflict_error ''target_version_conflict''), st)
         else (case update_task c ref t st of
                 (Inl e, st1) \<Rightarrow> (Inl e, st1)
               | (Inr t', st1) \<Rightarrow>
                   (Inr (tk_version t, tk_version t'), st1\<lparr>tasks := (tasks st1)(tk_task_id t \<mapsto> t')\<rparr>)))"
  using assms by (cases c; hypsubst) (simp_all add: apply_command_def)

lemma apply_command_board:
  assumes ap: "apply_command X c ref st = (r, st')" and b: "board_inv st"
  shows "board_inv st'"
proof (cases "command_task_ref c")
  case (Some tr)
  show ?thesis
  proof (cases "tasks st (tr_task_id tr)")
    case None
    with ap b show ?thesis by (simp add: apply_existing [OF Some])
  next
    case t: (Some t)
    obtain q st1 where u: "update_task c ref t st = (q, st1)" by fastforce
    show ?thesis
    proof (cases q)
      case (Inl e)
      with ap t u b update_task_board [OF u b] show ?thesis
        by (auto simp: apply_existing [OF Some] split: if_splits)
    next
      case (Inr t')
      with ap t u b existing_task_board [OF b t u [unfolded Inr]] show ?thesis
        by (auto simp: apply_existing [OF Some] split: if_splits)
    qed
  qed
next
  case None
  then show ?thesis
  proof (cases c)
    case (OpenSellerRiskCase x)
    with ap b show ?thesis
      by (auto simp: apply_command_def Let_def put_task_def board_inv_def new_task_def split: if_splits)
  next
    case (CreateInvestigationTask x)
    with ap b show ?thesis by (auto simp: apply_command_def new_task_def intro!: put_task_board)
  next
    case (CreateInvestigationFromAlertHit x)
    with ap b show ?thesis by (auto simp: apply_command_def new_task_def intro!: put_task_board)
  next
    case (CreateAndEnableMetricAlertRule x)
    with ap b show ?thesis by (auto simp: apply_command_def Let_def board_inv_def)
  qed simp_all
qed

lemma business_only_simps:
  assumes "business_only st st'"
  shows "proposals st' = proposals st" "latest_versions st' = latest_versions st"
    "idempotency st' = idempotency st" "decisions st' = decisions st"
    "decision_receipts st' = decision_receipts st" "executions st' = executions st"
    "nonce_claims st' = nonce_claims st" "business_write_count st' = business_write_count st"
    "audit_count st' = audit_count st" "nonce_claim_count st' = nonce_claim_count st"
proof -
  have e: "st' = st\<lparr>tasks := tasks st', risks := risks st', rules := rules st'\<rparr>"
    using assms by (simp add: business_only_def)
  show "proposals st' = proposals st" by (subst e) simp
  show "latest_versions st' = latest_versions st" by (subst e) simp
  show "idempotency st' = idempotency st" by (subst e) simp
  show "decisions st' = decisions st" by (subst e) simp
  show "decision_receipts st' = decision_receipts st" by (subst e) simp
  show "executions st' = executions st" by (subst e) simp
  show "nonce_claims st' = nonce_claims st" by (subst e) simp
  show "business_write_count st' = business_write_count st" by (subst e) simp
  show "audit_count st' = audit_count st" by (subst e) simp
  show "nonce_claim_count st' = nonce_claim_count st" by (subst e) simp
qed

lemmas inv_parts = store_inv_def proposals_inv_def proposal_wf_def ids_inv_def decisions_inv_def
  executions_inv_def nonces_inv_def counts_inv_def

lemma business_only_inv:
  assumes "store_inv X st" "business_only st st'" "board_inv st'"
  shows "store_inv X st'"
  using assms(1,3) by (simp add: inv_parts business_only_simps [OF assms(2)])

lemma executed_inv:
  assumes inv: "store_inv X st" and k: "k = ref_key (ps_proposal_ref (sp_snapshot p))"
    and p: "proposals st k = Some p" and d: "decisions st k = Some d" "sd_approval d = Some a"
    and new: "executions st k = None" "nonce_claims st (sa_nonce_digest a) = None"
    and r: "er_proposal_ref r = ps_proposal_ref (sp_snapshot p)" "er_command_type r = command_type (sp_command p)"
  shows "store_inv X (st\<lparr>nonce_claims := (nonce_claims st)(sa_nonce_digest a \<mapsto> ps_proposal_ref (sp_snapshot p)),
         executions := (executions st)(k \<mapsto> r),
         business_write_count := business_write_count st + 1,
         audit_count := audit_count st + 1, nonce_claim_count := nonce_claim_count st + 1\<rparr>)"
    (is "store_inv X ?st")
proof -
  have "proposals_inv X ?st" using inv by (simp add: inv_parts)
  moreover have "ids_inv ?st" using inv by (simp add: inv_parts)
  moreover have "decisions_inv ?st" using inv by (simp add: inv_parts)
  moreover have "executions_inv ?st"
    unfolding executions_inv_def
  proof (intro allI impI)
    fix k' x assume x: "executions ?st k' = Some x"
    show "\<exists>q e b. proposals ?st k' = Some q \<and> decisions ?st k' = Some e
        \<and> sd_approval e = Some b \<and> er_proposal_ref x = ps_proposal_ref (sp_snapshot q)
        \<and> er_command_type x = command_type (sp_command q)
        \<and> nonce_claims ?st (sa_nonce_digest b) = Some (er_proposal_ref x)"
    proof (cases "k' = k")
      case True
      then show ?thesis using x p d r by simp
    next
      case False
      then have "executions st k' = Some x" using x by simp
      from store_inv_execution [OF inv this] new(2) show ?thesis by fastforce
    qed
  qed
  moreover have "nonces_inv ?st"
    unfolding nonces_inv_def
  proof (intro allI impI)
    fix n ref assume n: "nonce_claims ?st n = Some ref"
    show "\<exists>e b. executions ?st (ref_key ref) \<noteq> None \<and> decisions ?st (ref_key ref) = Some e
        \<and> sd_approval e = Some b \<and> sa_nonce_digest b = n"
    proof (cases "n = sa_nonce_digest a")
      case True
      then show ?thesis using n d k by simp
    next
      case False
      then have "nonce_claims st n = Some ref" using n by simp
      from store_inv_nonce [OF inv this] show ?thesis by auto
    qed
  qed
  moreover have "counts_inv ?st"
    using inv new by (auto simp: inv_parts card_insert_if domIff)
  moreover have "board_inv ?st" using inv by (simp add: store_inv_def board_inv_def)
  ultimately show ?thesis by (simp add: store_inv_def)
qed

subsection \<open>The transition system\<close>

lemma memory_store_simps [simp]:
  "so_preview_command (memory_store X) = preview_command"
  "so_create_or_get (memory_store X) = create_or_get_proposal"
  "so_read_proposal (memory_store X) = read_proposal"
  "so_decide_once (memory_store X) = decide_once X"
  "so_read_decision (memory_store X) = read_decision"
  "so_execute_once (memory_store X) = execute_once X"
  "so_read_execution (memory_store X) = read_execution"
  by (simp_all add: memory_store_def)

inductive op_step :: "externals \<Rightarrow> keyring \<Rightarrow> reference_validator \<Rightarrow> op_store \<Rightarrow> op_store \<Rightarrow> bool"
  for X kr V where
  Propose: "valid_propose_request req \<Longrightarrow> latest_versions st fresh = None \<Longrightarrow>
     propose (memory_store X) X V fresh now req st = (res, st') \<Longrightarrow> op_step X kr V st st'"
| Decide: "valid_decision_request req \<Longrightarrow>
     decide (memory_store X) X kr raw t1 t2 t3 req st = (res, st') \<Longrightarrow> op_step X kr V st st'"
| Execute: "valid_execute_request req \<Longrightarrow>
     execute (memory_store X) X kr t1 t2 req st = (res, st') \<Longrightarrow> op_step X kr V st st'"

inductive_cases op_stepE: "op_step X kr V st st'"

text \<open>The store starts with tasks that no risk annotation is linked to.\<close>

definition plain_tasks :: "investigation_task_state list \<Rightarrow> bool" where
  "plain_tasks ts \<longleftrightarrow> list_all (\<lambda>t. tk_linked_risk_id t = None) ts"

inductive reachable :: "externals \<Rightarrow> keyring \<Rightarrow> reference_validator \<Rightarrow> op_store \<Rightarrow> bool"
  for X kr V where
  Start: "plain_tasks ts \<Longrightarrow> reachable X kr V (init_store ts)"
| Step: "reachable X kr V st \<Longrightarrow> op_step X kr V st st' \<Longrightarrow> reachable X kr V st'"

lemma init_inv: "plain_tasks ts \<Longrightarrow> store_inv X (init_store ts)"
proof -
  assume p: "plain_tasks ts"
  have start: "tk_task_id t = tid \<and> tk_linked_risk_id t = None"
    if "map_of (rev (map (\<lambda>t. (tk_task_id t, t)) ts)) tid = Some t" for tid t
    using map_of_SomeD [OF that] p by (auto simp: plain_tasks_def list_all_iff)
  have "board_inv (init_store ts)"
    unfolding board_inv_def
  proof (intro allI impI)
    fix tid t assume "tasks (init_store ts) tid = Some t"
    then have "map_of (rev (map (\<lambda>t. (tk_task_id t, t)) ts)) tid = Some t" by (simp add: init_store_def)
    from start [OF this] show "tk_task_id t = tid
        \<and> (\<forall>r. tk_linked_risk_id t = Some r \<longrightarrow> risks (init_store ts) r \<noteq> None)"
      by simp
  qed
  then show ?thesis by (simp add: inv_parts init_store_def)
qed

lemma propose_inv:
  assumes inv: "store_inv X st" and req: "valid_propose_request req" and fresh: "latest_versions st fresh = None"
    and p: "propose (memory_store X) X V fresh now req st = (res, st')"
  shows "store_inv X st'"
proof (cases "prepare_draft (memory_store X) X V now req st")
  case (Inl e)
  with p inv show ?thesis by (simp add: propose_def)
next
  case (Inr d)
  have "valid_command (pq_command req)" using req by (simp add: valid_propose_request_def)
  then have "draft_ok X d" using prepare_draft_Inr [OF Inr] by (simp add: draft_ok_def)
  moreover have "create_or_get_proposal fresh d st = (res, st')" using p Inr by (simp add: propose_def)
  ultimately show ?thesis using create_or_get_inv [OF inv _ fresh] by blast
qed

lemma decide_inv:
  assumes inv: "store_inv X st" and d: "decide (memory_store X) X kr raw t1 t2 t3 req st = (res, st')"
  shows "store_inv X st'"
proof (cases "prepare_decision (memory_store X) X kr raw t1 t2 req st")
  case (Inl e)
  with d inv show ?thesis by (simp add: decide_def)
next
  case (Inr ra)
  obtain r a where ra: "ra = (r, a)" by (cases ra)
  with Inr have pd: "prepare_decision (memory_store X) X kr raw t1 t2 req st = Inr (r, a)" by simp
  obtain p where p: "so_read_proposal (memory_store X) (dr_proposal_ref req) st = Some p"
    "dc_proposal_ref r = dr_proposal_ref req" "decision_ok r a p"
    by (rule prepare_decision_Inr [OF pd]) auto
  have "decide_once X r a t3 st = (res, st')" using d pd by (simp add: decide_def)
  then show ?thesis
    by (rule decide_once_inv [OF inv, rotated]) (use p in \<open>simp add: read_proposal_def\<close>)
qed

lemma execute_inv:
  assumes inv: "store_inv X st" and e: "execute (memory_store X) X kr t1 t2 req st = (res, st')"
  shows "store_inv X st'"
proof (cases "prepare_execution (memory_store X) X kr t1 req st")
  case (Inl x)
  with e inv show ?thesis by (simp add: execute_def)
next
  case (Inr plan)
  show ?thesis
  proof (cases plan)
    case (Replay r)
    with Inr e inv show ?thesis by (simp add: execute_def)
  next
    case (Run p a)
    define ref where "ref = grant_ref (xr_grant req)"
    obtain d where d: "so_read_proposal (memory_store X) ref st = Some p"
      "so_read_decision (memory_store X) ref st = Some d" "sd_approval d = Some a"
      using Inr unfolding Run ref_def by (rule prepare_execution_Inr) auto
    have p: "proposals st (ref_key ref) = Some p" and dd: "decisions st (ref_key ref) = Some d"
      using d by (simp_all add: read_proposal_def read_decision_def)
    have key: "ref_key (ps_proposal_ref (sp_snapshot p)) = ref_key ref"
      using store_inv_wf [OF inv p] by (simp add: proposal_wf_def)
    have ex: "execute_once X p a t2 st = (res, st')" using e Inr Run by (simp add: execute_def)
    from ex show ?thesis
    proof (cases rule: execute_once_cases)
      case (error x)
      obtain st1 where "business_only st st1" using error by blast
      have "board_inv st'"
      proof -
        have "board_inv st" using inv by (simp add: store_inv_def)
        moreover have "board_inv st1" if "apply_command X (sp_command p) (ps_proposal_ref (sp_snapshot p)) st = (q, st1)" for q st1
          using apply_command_board [OF that] \<open>board_inv st\<close> by blast
        ultimately show ?thesis using ex error(1)
          by (auto simp: execute_once_def Let_def error(2) split: if_splits prod.splits sum.splits option.splits)
      qed
      then show ?thesis using business_only_inv [OF inv error(3)] by blast
    next
      case (replay r)
      with inv show ?thesis by simp
    next
      case (committed versions st1)
      have "board_inv st" using inv by (simp add: store_inv_def)
      then have b1: "board_inv st1" using apply_command_board [OF committed(3)] by blast
      have inv1: "store_inv X st1" by (rule business_only_inv [OF inv committed(4) b1])
      note same = business_only_simps [OF committed(4)]
      show ?thesis
        unfolding committed(7)
        by (rule executed_inv [OF inv1 _ _ _ d(3)])
          (use key p dd committed(1,2) same in \<open>simp_all add: execution_receipt_of_def Let_def\<close>)
    qed
  qed
qed

theorem reachable_inv: "reachable X kr V st \<Longrightarrow> store_inv X st"
proof (induction rule: reachable.induct)
  case (Start ts)
  then show ?case by (rule init_inv)
next
  case (Step st st')
  from Step(2) Step(3) show ?case
    by (cases rule: op_step.cases) (auto intro: propose_inv decide_inv execute_inv)
qed

subsection \<open>The in-memory store meets the contract\<close>

lemma ref_key_inject [simp]: "ref_key r = ref_key s \<longleftrightarrow> r = s"
  by (cases r; cases s) (simp add: ref_key_def)

lemma execute_once_frame:
  assumes "execute_once X p a now st = (res, st')"
  shows "proposals st' = proposals st" "decisions st' = decisions st"
    "decision_receipts st' = decision_receipts st"
    "latest_versions st' = latest_versions st" "idempotency st' = idempotency st"
  using assms by (cases rule: execute_once_cases; simp add: business_only_simps)+

lemma memory_decide:
  assumes inv: "store_inv X st" and d: "decide_once X r a now st = (Inr r', st')"
  shows "decisions st (ref_key (dc_proposal_ref r)) = None"
    "executions st' = executions st" "executions st (ref_key (dc_proposal_ref r)) = None"
    "r' = r" "proposals st' (ref_key (dc_proposal_ref r)) \<noteq> None"
    "decisions st' = (decisions st)(ref_key (dc_proposal_ref r) \<mapsto>
          \<lparr>sd_status = dc_status r, sd_approver_id = dc_approver_id r, sd_decided_at = dc_decided_at r,
           sd_reason = dc_reason r, sd_approval = a,
           sd_grant_sha256 = map_option (grant_digest X) (dc_grant r)\<rparr>)"
proof -
  obtain p sha where decided: "proposals st (ref_key (dc_proposal_ref r)) = Some p"
    "ps_status (sp_snapshot p) = PENDING" "r' = r"
    "(case dc_grant r of None \<Rightarrow> sha = None | Some g \<Rightarrow> \<exists>h. execution_grant_sha256 X g = Inr h \<and> sha = Some h)"
    "st' = st\<lparr>proposals := (proposals st)(ref_key (dc_proposal_ref r) \<mapsto> set_status (dc_status r) p),
         decisions := (decisions st)(ref_key (dc_proposal_ref r) \<mapsto>
           \<lparr>sd_status = dc_status r, sd_approver_id = dc_approver_id r, sd_decided_at = dc_decided_at r,
            sd_reason = dc_reason r, sd_approval = a, sd_grant_sha256 = sha\<rparr>),
         decision_receipts := (decision_receipts st)(ref_key (dc_proposal_ref r) \<mapsto> r)\<rparr>"
    using d by (cases rule: decide_once_cases) auto
  have sha: "sha = map_option (grant_digest X) (dc_grant r)"
    using decided(4) by (auto simp: grant_sha_eq grant_digest_def split: option.splits)
  note pend = pending_facts [OF inv decided(1,2)]
  show "decisions st (ref_key (dc_proposal_ref r)) = None"
    "executions st' = executions st" "executions st (ref_key (dc_proposal_ref r)) = None"
    "r' = r" "proposals st' (ref_key (dc_proposal_ref r)) \<noteq> None"
    "decisions st' = (decisions st)(ref_key (dc_proposal_ref r) \<mapsto>
          \<lparr>sd_status = dc_status r, sd_approver_id = dc_approver_id r, sd_decided_at = dc_decided_at r,
           sd_reason = dc_reason r, sd_approval = a,
           sd_grant_sha256 = map_option (grant_digest X) (dc_grant r)\<rparr>)"
    using pend decided(3,5) sha by simp_all
qed

interpretation memory: operation_store "memory_store X" X "store_inv X"
  for X
proof unfold_locales
  fix s ref p assume "store_inv X s" "so_read_proposal (memory_store X) ref s = Some p"
  then have "proposal_wf X s (ref_key ref) p" using store_inv_wf by (auto simp: read_proposal_def)
  then show "ps_proposal_ref (sp_snapshot p) = ref" by (simp add: proposal_wf_def)
next
  fix s s' r r' a now
  assume inv: "store_inv X s" and d: "so_decide_once (memory_store X) r a now s = (Inr r', s')"
  then have "decide_once X r a now s = (Inr r', s')" by simp
  note m = memory_decide [OF inv this]
  show "r' = r \<and> so_read_decision (memory_store X) (dc_proposal_ref r) s = None
      \<and> so_read_decision (memory_store X) (dc_proposal_ref r) s' = Some
          \<lparr>sd_status = dc_status r, sd_approver_id = dc_approver_id r, sd_decided_at = dc_decided_at r,
           sd_reason = dc_reason r, sd_approval = a,
           sd_grant_sha256 = map_option (grant_digest X) (dc_grant r)\<rparr>
      \<and> so_read_execution (memory_store X) (dc_proposal_ref r) s' = None
      \<and> so_read_proposal (memory_store X) (dc_proposal_ref r) s' \<noteq> None"
    using m by (simp add: read_decision_def read_execution_def read_proposal_def)
next
  fix s s' p a now r assume "so_execute_once (memory_store X) p a now s = (Inr r, s')"
  then have "execute_once X p a now s = (Inr r, s')" by simp
  then show "so_read_execution (memory_store X) (ps_proposal_ref (sp_snapshot p)) s' = Some r"
    by (cases rule: execute_once_cases) (auto simp: read_execution_def)
next
  fix s and p :: stored_proposal and a now r assume "so_read_execution (memory_store X) (ps_proposal_ref (sp_snapshot p)) s = Some r"
  then show "so_execute_once (memory_store X) p a now s = (Inr r, s)"
    by (simp add: execute_once_def Let_def read_execution_def)
next
  fix s s' p a now res ref assume "so_execute_once (memory_store X) p a now s = (res, s')"
  then have "execute_once X p a now s = (res, s')" by simp
  from execute_once_frame [OF this]
  show "so_read_proposal (memory_store X) ref s' = so_read_proposal (memory_store X) ref s
      \<and> so_read_decision (memory_store X) ref s' = so_read_decision (memory_store X) ref s"
    by (simp add: read_proposal_def read_decision_def)
qed

end
