(* ===== verification/Op_Safety.thy ===== *)
theory Op_Safety
  imports Op_System
begin

text \<open>
  The properties of controlled operations: what may be executed and how often, what a step can
  change, what the calls return when repeated, and that an approved proposal does run.
\<close>

subsection \<open>What a step can change\<close>

text \<open>
  From \<open>st\<close> to \<open>st'\<close> recorded executions and decisions stay as they are, and a stored proposal
  keeps all of its content; only its status may move, and only away from PENDING.
\<close>

definition advances :: "op_store \<Rightarrow> op_store \<Rightarrow> bool" where
  "advances st st' \<longleftrightarrow>
     (\<forall>k r. executions st k = Some r \<longrightarrow> executions st' k = Some r)
     \<and> (\<forall>k d. decisions st k = Some d \<longrightarrow> decisions st' k = Some d)
     \<and> (\<forall>k p. proposals st k = Some p \<longrightarrow>
          (\<exists>s. proposals st' k = Some (set_status s p)
             \<and> (s = ps_status (sp_snapshot p) \<or> ps_status (sp_snapshot p) = PENDING)))"

lemma set_status_same [simp]: "set_status (ps_status (sp_snapshot p)) p = p"
  by (simp add: set_status_def)

lemma set_status_twice [simp]: "set_status s (set_status t p) = set_status s p"
  by (simp add: set_status_def)

lemma advances_refl: "advances st st"
  unfolding advances_def by (metis set_status_same)

lemma advances_trans:
  assumes "advances a b" "advances b c"
  shows "advances a c"
proof -
  have "\<exists>s. proposals c k = Some (set_status s p) \<and> (s = ps_status (sp_snapshot p) \<or> ps_status (sp_snapshot p) = PENDING)"
    if p: "proposals a k = Some p" for k p
  proof -
    obtain s where s: "proposals b k = Some (set_status s p)"
      "s = ps_status (sp_snapshot p) \<or> ps_status (sp_snapshot p) = PENDING"
      using assms(1) p unfolding advances_def by blast
    obtain t where t: "proposals c k = Some (set_status t (set_status s p))"
      "t = ps_status (sp_snapshot (set_status s p)) \<or> ps_status (sp_snapshot (set_status s p)) = PENDING"
      using assms(2) s(1) unfolding advances_def by blast
    show ?thesis using s t by (intro exI [of _ t]) auto
  qed
  then show ?thesis using assms unfolding advances_def by blast
qed

lemma advances_simple:
  assumes "executions st' = executions st"
    "\<And>k d. decisions st k = Some d \<Longrightarrow> decisions st' k = Some d"
    "\<And>k' q. k' \<noteq> k \<Longrightarrow> proposals st k' = Some q \<Longrightarrow> proposals st' k' = Some q"
    "\<And>q. proposals st k = Some q \<Longrightarrow> ps_status (sp_snapshot q) = PENDING \<and> (\<exists>s. proposals st' k = Some (set_status s q))"
  shows "advances st st'"
  unfolding advances_def
proof (intro conjI allI impI)
  fix k' q assume q: "proposals st k' = Some q"
  show "\<exists>s. proposals st' k' = Some (set_status s q)
      \<and> (s = ps_status (sp_snapshot q) \<or> ps_status (sp_snapshot q) = PENDING)"
  proof (cases "k' = k")
    case True
    then show ?thesis using assms(4) q by auto
  next
    case False
    then show ?thesis using assms(3) [OF False q] by (intro exI [of _ "ps_status (sp_snapshot q)"]) simp
  qed
qed (use assms(1,2) in auto)

lemma supersede_advances:
  assumes "proposals st k = Some p" "ps_status (sp_snapshot p) = PENDING"
  shows "advances st (st\<lparr>proposals := (proposals st)(k \<mapsto> set_status s p)\<rparr>)"
  by (rule advances_simple [where k = k]) (use assms in auto)

lemma store_proposal_advances:
  "proposals st (ref_key ref) = None \<Longrightarrow> advances st (store_proposal d ref st)"
  by (rule advances_simple [where k = "ref_key ref"]) (auto simp: store_proposal_def Let_def)

lemma no_version_above:
  assumes "store_inv X st" "latest_versions st pid = l" "\<And>v. l = Some v \<Longrightarrow> v < w"
  shows "proposals st (pid, w) = None"
proof (rule ccontr)
  assume "proposals st (pid, w) \<noteq> None"
  then obtain p where "proposals st (pid, w) = Some p" by blast
  then have "proposal_wf X st (pid, w) p" using store_inv_wf [OF assms(1)] by blast
  then show False using assms(2,3) by (fastforce simp: proposal_wf_def)
qed

lemma create_or_get_advances:
  assumes inv: "store_inv X st" and fresh: "latest_versions st fresh = None"
    and c: "create_or_get_proposal fresh d st = (res, st')"
  shows "advances st st'"
  using c
proof (cases rule: create_or_get_cases)
  case (invalid ref)
  from invalid(2) show ?thesis
    by (cases rule: allocate_ref_cases) (auto intro: advances_refl supersede_advances)
next
  case (created ref st1)
  from created(2) show ?thesis
  proof (cases rule: allocate_ref_cases)
    case new
    then show ?thesis
      using created(5) no_version_above [OF inv fresh, of 1]
      by (auto intro!: store_proposal_advances simp: ref_key_def)
  next
    case (revise old p)
    have a1: "advances st st1" using revise by (auto intro: supersede_advances)
    have "proposals st (proposal_id old, pr_version old + 1) = None"
      by (rule no_version_above [OF inv refl]) (use revise in simp)
    then have "proposals st1 (ref_key ref) = None" using revise by (simp add: ref_key_def)
    then show ?thesis
      using advances_trans [OF a1 store_proposal_advances] created(5) by simp
  qed (use created in auto)
qed (auto intro: advances_refl)

lemma decide_once_advances:
  assumes inv: "store_inv X st" and d: "decide_once X r a now st = (res, st')"
  shows "advances st st'"
  using d
proof (cases rule: decide_once_cases)
  case (expired p)
  then show ?thesis by (auto intro: supersede_advances)
next
  case (decided p sha)
  note pend = pending_facts [OF inv decided(1,2)]
  show ?thesis unfolding decided(6)
    by (rule advances_simple [where k = "ref_key (dc_proposal_ref r)"]) (use decided(1,2) pend in auto)
qed (auto intro: advances_refl)

lemma execute_once_advances:
  assumes "execute_once X p a now st = (res, st')"
  shows "advances st st'"
  using assms
proof (cases rule: execute_once_cases)
  case (error e)
  then show ?thesis unfolding advances_def using business_only_simps [OF error(3)] set_status_same by metis
next
  case (committed versions st1)
  note same = business_only_simps [OF committed(4)]
  have "executions st' k = Some r" if "executions st k = Some r" for k r
    using that committed(1,7) same by auto
  moreover have "decisions st' = decisions st" "proposals st' = proposals st"
    using committed(7) same by simp_all
  ultimately show ?thesis unfolding advances_def by (metis set_status_same)
qed (auto intro: advances_refl)

lemma op_step_advances:
  assumes inv: "store_inv X st" and step: "op_step X kr V st st'"
  shows "advances st st'"
  using step
proof cases
  case (Propose req fresh now res)
  then show ?thesis
    using create_or_get_advances [OF inv Propose(2)]
    by (auto simp: propose_def split: sum.splits intro: advances_refl)
next
  case (Decide req raw t1 t2 t3 res)
  then show ?thesis
    using decide_once_advances [OF inv]
    by (auto simp: decide_def split: sum.splits prod.splits intro: advances_refl)
next
  case (Execute req t1 t2 res)
  then show ?thesis
    using execute_once_advances
    by (auto simp: execute_def split: sum.splits execute_plan.splits intro: advances_refl)
qed

subsection \<open>Running an approved proposal\<close>

lemma default_title_len: "len_ok 1 200 (default_title ''create_and_enable_metric_alert_rule'')"
  by code_simp

lemma preview_new_target:
  assumes "valid_command c" "command_task_ref c = None"
  shows "\<exists>pv. preview_command c st = Inr pv \<and> valid_command_preview pv"
proof -
  have ty: "reason_code_ok (command_type c)" by (rule command_type_code)
  have title: "len_ok 1 200 (case command_title c of Some t \<Rightarrow> t | None \<Rightarrow> default_title (command_type c))"
    using assms default_title_len by (cases c) (simp_all add: contract_defs)
  obtain v n s where t: "preview_targets c st = Inr (v, n, s)" "valid_target_versions v" "0 \<le> n" "n \<le> 8"
    "len_ok 1 2000 s" "list_all (\<lambda>kv. 0 \<le> snd kv) v"
    using assms(2) by (cases c) (auto simp: preview_targets_def valid_target_versions_def len_ok_def)
  show ?thesis
    using ty title t by (simp add: preview_command_def construct_def valid_command_preview_def)
qed

lemma apply_new_target:
  "command_task_ref c = None \<Longrightarrow> \<exists>st1. apply_command X c ref st = (Inr (0, 1), st1)"
  by (cases c) (simp_all add: apply_command_def Let_def)

lemma length_uuid_str [simp]: "length (uuid_str u) = 36"
  by (simp add: uuid_str_def Let_def)

lemma first_version_name: "length what \<le> 200 \<Longrightarrow> len_ok 1 256 (ref_name what \<lparr>proposal_id = u, pr_version = 1\<rparr>)"
  by (simp add: ref_name_def len_ok_def show_int_def show_nat.simps [of 1])

lemma propose_first:
  assumes X: "hex_digests X"
    and req: "valid_propose_request req" "role (pq_actor req) = ANALYST" "pq_revises req = None"
    and cmd: "command_task_ref (pq_command req) = None"
    and V: "V (pq_command req) (pq_evidence_refs req) = Inr vr"
    and id: "idempotency st (actor_id (pq_actor req), pq_idempotency_key req) = None"
  obtains d where "prepare_draft (memory_store X) X V now req st = Inr d" "pd_request d = req"
    "valid_command_preview (pd_preview d)" "hex64 (pd_payload_sha256 d)"
    "pd_expires_at d = now + proposal_hours * usec_per_hour"
    "propose (memory_store X) X V fresh now req st =
       (Inr (draft_snapshot d \<lparr>proposal_id = fresh, pr_version = 1\<rparr>),
        store_proposal d \<lparr>proposal_id = fresh, pr_version = 1\<rparr> st)"
proof -
  have vc: "valid_command (pq_command req)" using req(1) by (simp add: valid_propose_request_def)
  obtain pv where pv: "preview_command (pq_command req) st = Inr pv" "valid_command_preview pv"
    using preview_new_target [OF vc cmd] by blast
  define d where "d = \<lparr>pd_request = req, pd_preview = pv,
      pd_payload_sha256 = signed_digest X (pq_command req) (cp_target_versions pv),
      pd_created_at = now, pd_expires_at = now + proposal_hours * usec_per_hour,
      pd_validated_references = vr\<rparr>"
  have pd: "prepare_draft (memory_store X) X V now req st = Inr d"
    using pv V vc req(2)
    by (simp add: prepare_draft_def require_role_def canonical_command_valid signed_digest_def d_def)
  have hex: "hex64 (signed_digest X (pq_command req) (cp_target_versions pv))"
    using X by (simp add: hex_digests_def signed_digest_def)
  have "valid_proposal_snapshot (draft_snapshot d \<lparr>proposal_id = fresh, pr_version = 1\<rparr>)"
    using pv(2) hex command_type_code
    by (simp add: valid_proposal_snapshot_def draft_snapshot_def d_def valid_proposal_ref_def
        proposal_hours_def usec_defs)
  then have "propose (memory_store X) X V fresh now req st =
       (Inr (draft_snapshot d \<lparr>proposal_id = fresh, pr_version = 1\<rparr>),
        store_proposal d \<lparr>proposal_id = fresh, pr_version = 1\<rparr> st)"
    using pd id req(3)
    by (simp add: propose_def create_or_get_proposal_def Let_def d_def allocate_ref_def)
  with pd that pv hex show ?thesis by (simp add: d_def)
qed

lemma approve_first:
  assumes X: "hex_digests X" and key: "kr_keys kr (active_version kr) = Some key" "1 \<le> active_version kr"
    and p: "proposals st (ref_key ref) = Some p" "ps_status (sp_snapshot p) = PENDING"
      "t3 < ps_expires_at (sp_snapshot p)" "ps_proposal_ref (sp_snapshot p) = ref"
      "valid_command_preview (ps_preview (sp_snapshot p))" "hex64 (ps_payload_sha256 (sp_snapshot p))"
    and ref: "valid_proposal_ref ref"
    and appr: "role approver = APPROVER" "sp_requester_id p \<noteq> actor_id approver"
    and raw: "length raw = 32" and reason: "optional_reason_ok reason"
  obtains r a where "decide (memory_store X) X kr raw t1 t2 t3
      \<lparr>dr_actor = approver, dr_proposal_ref = ref, dr_decision = Approve, dr_reason = reason\<rparr> st
      = (Inr r, st\<lparr>proposals := (proposals st)(ref_key ref \<mapsto> set_status APPROVED p),
         decisions := (decisions st)(ref_key ref \<mapsto>
           \<lparr>sd_status = APPROVED, sd_approver_id = actor_id approver, sd_decided_at = t2,
            sd_reason = reason, sd_approval = Some a, sd_grant_sha256 = map_option (grant_digest X) (dc_grant r)\<rparr>),
         decision_receipts := (decision_receipts st)(ref_key ref \<mapsto> r)\<rparr>)"
    "sa_nonce_digest a = x_sha256 X raw"
proof -
  have tv: "valid_target_versions (cp_target_versions (ps_preview (sp_snapshot p)))"
    using p(5) by (simp add: valid_command_preview_def)
  obtain g where g: "issue_grant X kr raw t1 ref (ps_payload_sha256 (sp_snapshot p))
      (sp_requester_id p) approver (cp_target_versions (ps_preview (sp_snapshot p))) = Inr (g, x_sha256 X raw)"
    using issue_grant_ok [OF X key raw ref p(6) tv] by blast
  note ig = issue_grant_Inr [OF g]
  define a where "a = \<lparr>sa_proposal_ref = ref, sa_payload_sha256 = ps_payload_sha256 (sp_snapshot p),
      sa_requester_id = sp_requester_id p, sa_approver_id = actor_id approver,
      sa_target_versions = cp_target_versions (ps_preview (sp_snapshot p)),
      sa_expires_at = eg_expires_at g, sa_nonce_digest = x_sha256 X raw, sa_key_version = eg_key_version g\<rparr>"
  have va: "valid_stored_approval a"
    using ref p(6) tv X key(2) ig(9) by (simp add: valid_stored_approval_def a_def hex_digests_def)
  have ia: "issue_approval X kr raw t1 approver p = Inr (g, a)"
    using g va by (simp add: issue_approval_def Let_def p(4) construct_def a_def)
  define r where "r = \<lparr>dc_proposal_ref = ref, dc_status = APPROVED, dc_approver_id = actor_id approver,
      dc_decided_at = t2, dc_reason = reason, dc_grant = Some g\<rparr>"
  have vr: "valid_decision_receipt r"
    using ref reason ig(12) by (simp add: valid_decision_receipt_def r_def)
  have pd: "prepare_decision (memory_store X) X kr raw t1 t2
      \<lparr>dr_actor = approver, dr_proposal_ref = ref, dr_decision = Approve, dr_reason = reason\<rparr> st = Inr (r, Some a)"
    using appr p(1) ia vr
    by (simp add: prepare_decision_def require_role_def require_proposal_def read_proposal_def
        construct_def r_def)
  show ?thesis
  proof (rule that)
    show "decide (memory_store X) X kr raw t1 t2 t3
      \<lparr>dr_actor = approver, dr_proposal_ref = ref, dr_decision = Approve, dr_reason = reason\<rparr> st
      = (Inr r, st\<lparr>proposals := (proposals st)(ref_key ref \<mapsto> set_status APPROVED p),
         decisions := (decisions st)(ref_key ref \<mapsto>
           \<lparr>sd_status = APPROVED, sd_approver_id = actor_id approver, sd_decided_at = t2,
            sd_reason = reason, sd_approval = Some a, sd_grant_sha256 = map_option (grant_digest X) (dc_grant r)\<rparr>),
         decision_receipts := (decision_receipts st)(ref_key ref \<mapsto> r)\<rparr>)"
      using pd p(1-3)
      by (simp add: decide_def decide_once_def Let_def r_def grant_sha_eq grant_digest_def)
    show "sa_nonce_digest a = x_sha256 X raw" by (simp add: a_def)
  qed
qed

lemma run_first:
  assumes inv: "store_inv X st" and p: "proposals st (ref_key ref) = Some p" "ps_proposal_ref (sp_snapshot p) = ref"
    and cmd: "command_task_ref (sp_command p) = None" "valid_command_preview (ps_preview (sp_snapshot p))"
    and new: "executions st (ref_key ref) = None" "nonce_claims st (sa_nonce_digest a) = None"
    and ref: "ref = \<lparr>proposal_id = fresh, pr_version = 1\<rparr>"
  obtains rec st' where "execute_once X p a now st = (Inr rec, st')"
    "executions st' (ref_key ref) = Some rec" "er_proposal_ref rec = ref"
    "er_before_version rec = 0" "er_after_version rec = 1"
    "tasks st' = tasks (snd (apply_command X (sp_command p) ref st))"
    "risks st' = risks (snd (apply_command X (sp_command p) ref st))"
    "rules st' = rules (snd (apply_command X (sp_command p) ref st))"
proof -
  obtain st1 where ap: "apply_command X (sp_command p) ref st = (Inr (0, 1), st1)"
    using apply_new_target [OF cmd(1)] by blast
  have summary: "len_ok 1 2000 (cp_public_summary (ps_preview (sp_snapshot p)))"
    using cmd(2) by (simp add: valid_command_preview_def)
  have audit: "len_ok 1 256 (ref_name ''audit'' ref)"
    unfolding ref by (rule first_version_name) simp
  have vr: "valid_execution_receipt (execution_receipt_of X p (0, 1) now)"
    using summary audit command_type_code ref
    by (simp add: valid_execution_receipt_def execution_receipt_of_def Let_def p(2) valid_proposal_ref_def)
  define rec where "rec = execution_receipt_of X p (0, 1) now"
  define st' where "st' = st1\<lparr>nonce_claims := (nonce_claims st1)(sa_nonce_digest a \<mapsto> ref),
      executions := (executions st1)(ref_key ref \<mapsto> rec),
      business_write_count := business_write_count st1 + 1,
      audit_count := audit_count st1 + 1, nonce_claim_count := nonce_claim_count st1 + 1\<rparr>"
  have ex: "execute_once X p a now st = (Inr rec, st')"
    using new ap vr by (simp add: execute_once_def Let_def p(2) rec_def st'_def)
  show ?thesis
    by (rule that [OF ex])
      (simp_all add: st'_def ap rec_def execution_receipt_of_def Let_def p(2))
qed

lemma workflow_runs:
  assumes inv: "store_inv X st" and X: "hex_digests X"
    and key: "kr_keys kr (active_version kr) = Some key" "1 \<le> active_version kr"
    and req: "valid_propose_request req" "role (pq_actor req) = ANALYST" "pq_revises req = None"
    and cmd: "command_task_ref (pq_command req) = None"
    and V: "V (pq_command req) (pq_evidence_refs req) = Inr vr"
    and id: "idempotency st (actor_id (pq_actor req), pq_idempotency_key req) = None"
    and fresh: "latest_versions st fresh = None"
    and appr: "role approver = APPROVER" "actor_id approver \<noteq> actor_id (pq_actor req)"
    and raw: "length raw = 32" "nonce_claims st (x_sha256 X raw) = None"
    and reason: "optional_reason_ok reason"
    and times: "t3 < t0 + 24 * usec_per_hour" "t4 < t1 + 10 * usec_per_minute"
  shows "\<exists>snap st1 r g st2 rec st3.
     propose (memory_store X) X V fresh t0 req st = (Inr snap, st1)
     \<and> ps_proposal_ref snap = \<lparr>proposal_id = fresh, pr_version = 1\<rparr>
     \<and> decide (memory_store X) X kr raw t1 t2 t3
         \<lparr>dr_actor = approver, dr_proposal_ref = ps_proposal_ref snap, dr_decision = Approve,
          dr_reason = reason\<rparr> st1 = (Inr r, st2)
     \<and> dc_grant r = Some g \<and> valid_execution_grant g
     \<and> execute (memory_store X) X kr t4 t5 \<lparr>xr_actor = approver, xr_grant = g\<rparr> st2 = (Inr rec, st3)
     \<and> executions st3 (ref_key (ps_proposal_ref snap)) = Some rec
     \<and> er_before_version rec = 0 \<and> er_after_version rec = 1
     \<and> tasks st3 = tasks (snd (apply_command X (pq_command req) (ps_proposal_ref snap) st2))
     \<and> risks st3 = risks (snd (apply_command X (pq_command req) (ps_proposal_ref snap) st2))
     \<and> rules st3 = rules (snd (apply_command X (pq_command req) (ps_proposal_ref snap) st2))"
proof -
  define ref where "ref = \<lparr>proposal_id = fresh, pr_version = 1\<rparr>"
  have vref: "valid_proposal_ref ref" by (simp add: ref_def valid_proposal_ref_def)
  obtain d where d: "prepare_draft (memory_store X) X V t0 req st = Inr d" "pd_request d = req"
    "valid_command_preview (pd_preview d)" "hex64 (pd_payload_sha256 d)"
    "pd_expires_at d = t0 + proposal_hours * usec_per_hour"
    "propose (memory_store X) X V fresh t0 req st = (Inr (draft_snapshot d ref), store_proposal d ref st)"
    unfolding ref_def by (rule propose_first [where V = V and vr = vr and now = t0 and fresh = fresh, OF X req cmd V id])
  define st1 where "st1 = store_proposal d ref st"
  have inv1: "store_inv X st1"
    unfolding st1_def by (rule propose_inv [OF inv req(1) fresh d(6)])
  define p where "p = the (proposals st1 (ref_key ref))"
  have p: "proposals st1 (ref_key ref) = Some p" "sp_snapshot p = draft_snapshot d ref"
    "sp_requester_id p = actor_id (pq_actor req)" "sp_command p = pq_command req"
    by (simp_all add: p_def st1_def store_proposal_def Let_def d(2))
  have nonce1: "nonce_claims st1 = nonce_claims st" by (simp add: st1_def store_proposal_def Let_def)
  have snap: "ps_status (sp_snapshot p) = PENDING" "ps_proposal_ref (sp_snapshot p) = ref"
    "ps_expires_at (sp_snapshot p) = t0 + 24 * usec_per_hour" "ps_preview (sp_snapshot p) = pd_preview d"
    "ps_payload_sha256 (sp_snapshot p) = pd_payload_sha256 d"
    by (simp_all add: p(2) draft_snapshot_def d(5) proposal_hours_def)
  have others: "sp_requester_id p \<noteq> actor_id approver" "t3 < ps_expires_at (sp_snapshot p)"
    "valid_command_preview (ps_preview (sp_snapshot p))" "hex64 (ps_payload_sha256 (sp_snapshot p))"
    using appr(2) p(3) times(1) snap d(3,4) by simp_all
  obtain r a where dec0: "decide (memory_store X) X kr raw t1 t2 t3
      \<lparr>dr_actor = approver, dr_proposal_ref = ref, dr_decision = Approve, dr_reason = reason\<rparr> st1
      = (Inr r, st1\<lparr>proposals := (proposals st1)(ref_key ref \<mapsto> set_status APPROVED p),
         decisions := (decisions st1)(ref_key ref \<mapsto>
           \<lparr>sd_status = APPROVED, sd_approver_id = actor_id approver, sd_decided_at = t2,
            sd_reason = reason, sd_approval = Some a, sd_grant_sha256 = map_option (grant_digest X) (dc_grant r)\<rparr>),
         decision_receipts := (decision_receipts st1)(ref_key ref \<mapsto> r)\<rparr>)"
    and nd: "sa_nonce_digest a = x_sha256 X raw"
    by (rule approve_first [OF X key p(1) snap(1) others(2) snap(2) others(3,4) vref appr(1) others(1)
          raw(1) reason])
  define st2 where "st2 = st1\<lparr>proposals := (proposals st1)(ref_key ref \<mapsto> set_status APPROVED p),
         decisions := (decisions st1)(ref_key ref \<mapsto>
           \<lparr>sd_status = APPROVED, sd_approver_id = actor_id approver, sd_decided_at = t2,
            sd_reason = reason, sd_approval = Some a, sd_grant_sha256 = map_option (grant_digest X) (dc_grant r)\<rparr>),
         decision_receipts := (decision_receipts st1)(ref_key ref \<mapsto> r)\<rparr>"
  have dec: "decide (memory_store X) X kr raw t1 t2 t3
      \<lparr>dr_actor = approver, dr_proposal_ref = ref, dr_decision = Approve, dr_reason = reason\<rparr> st1 = (Inr r, st2)"
    unfolding st2_def by (rule dec0)
  have st2_facts: "proposals st2 (ref_key ref) = Some (set_status APPROVED p)"
    "executions st2 = executions st1" "nonce_claims st2 = nonce_claims st"
    by (simp_all add: st2_def nonce1)
  have read2: "so_read_decision (memory_store X) ref st2 = Some
      \<lparr>sd_status = APPROVED, sd_approver_id = actor_id approver, sd_decided_at = t2,
       sd_reason = reason, sd_approval = Some a, sd_grant_sha256 = map_option (grant_digest X) (dc_grant r)\<rparr>"
    by (simp add: st2_def read_decision_def)
  have inv2: "store_inv X st2" by (rule decide_inv [OF inv1 dec])
  obtain g q a' where g: "dc_grant r = Some g" "eg_expires_at g = t1 + grant_minutes * usec_per_minute"
    and q: "so_read_proposal (memory_store X) ref st2 = Some q" and gref: "grant_ref g = ref" and vg: "valid_execution_grant g"
    and run: "\<And>now. prepare_execution (memory_store X) X kr now \<lparr>xr_actor = approver, xr_grant = g\<rparr> st2 =
       (if eg_expires_at g \<le> now then Inl (approval_error ''grant_expired'') else Inr (Run q a'))"
    by (rule memory.approved_grant_runs [OF inv1 dec _ _ _ appr(1)]) (use vref in simp_all)
  have q': "q = set_status APPROVED p" using q st2_facts(1) by (simp add: read_proposal_def)
  have plan: "prepare_execution (memory_store X) X kr t4 \<lparr>xr_actor = approver, xr_grant = g\<rparr> st2 = Inr (Run q a')"
    using run [of t4] g(2) times(2) by (simp add: grant_minutes_def)
  have a': "a' = a"
  proof -
    obtain d where "so_read_decision (memory_store X) ref st2 = Some d" "sd_approval d = Some a'"
      using plan by (rule prepare_execution_Inr) (use gref in auto)
    with read2 show ?thesis by auto
  qed
  have ex2: "executions st2 (ref_key ref) = None"
    using pending_facts(3) [OF inv1 p(1) snap(1)] st2_facts(2) by simp
  have q2: "proposals st2 (ref_key ref) = Some q" "ps_proposal_ref (sp_snapshot q) = ref"
    "command_task_ref (sp_command q) = None" "valid_command_preview (ps_preview (sp_snapshot q))"
    "nonce_claims st2 (sa_nonce_digest a) = None" "sp_command q = pq_command req"
    using q' st2_facts snap cmd p(4) others(3) nd raw(2) by simp_all
  obtain rec st3 where e: "execute_once X q a t5 st2 = (Inr rec, st3)"
    "executions st3 (ref_key ref) = Some rec" "er_proposal_ref rec = ref"
    "er_before_version rec = 0" "er_after_version rec = 1"
    "tasks st3 = tasks (snd (apply_command X (sp_command q) ref st2))"
    "risks st3 = risks (snd (apply_command X (sp_command q) ref st2))"
    "rules st3 = rules (snd (apply_command X (sp_command q) ref st2))"
    by (rule run_first [OF inv2 q2(1-4) ex2 q2(5) ref_def])
  have ex: "execute (memory_store X) X kr t4 t5 \<lparr>xr_actor = approver, xr_grant = g\<rparr> st2 = (Inr rec, st3)"
    using plan a' e(1) by (simp add: execute_def)
  have sref: "ps_proposal_ref (draft_snapshot d x) = x" for x by (simp add: draft_snapshot_def)
  show ?thesis
    using d(6) dec g(1) vg ex e q2(6) unfolding st1_def [symmetric]
    by (intro exI [of _ "draft_snapshot d ref"] exI [of _ st1] exI [of _ r] exI [of _ g] exI [of _ st2]
        exI [of _ rec] exI [of _ st3]) (simp add: sref ref_def)
qed

subsection \<open>A sample run\<close>

definition sample_externals :: externals where
  "sample_externals = \<lparr>x_sha256 = (\<lambda>_. sample_digest), x_hmac_sha256 = (\<lambda>_ _. sample_digest),
     x_json_datetime = (\<lambda>_. ''t''), x_uuid5 = (\<lambda>_. 5)\<rparr>"

definition sample_keyring :: keyring where
  "sample_keyring = \<lparr>kr_keys = [1 \<mapsto> [1]], active_version = 1\<rparr>"

definition sample_analyst :: actor_context where
  "sample_analyst = \<lparr>actor_id = 1, role = ANALYST, authentication_ref = ''session'', authenticated_at = 0\<rparr>"

definition sample_approver :: actor_context where
  "sample_approver = \<lparr>actor_id = 2, role = APPROVER, authentication_ref = ''session'', authenticated_at = 0\<rparr>"

definition sample_validator :: reference_validator where
  "sample_validator c es = Inr \<lparr>vr_evidence_refs = es, vr_private_bindings = []\<rparr>"

definition sample_request :: propose_request where
  "sample_request = \<lparr>pq_actor = sample_analyst, pq_command = sample_task,
     pq_evidence_refs = [sample_evidence], pq_idempotency_key = ''request-1'', pq_revises = None\<rparr>"

definition sample_decision :: decision_request where
  "sample_decision = \<lparr>dr_actor = sample_approver, dr_proposal_ref = \<lparr>proposal_id = 7, pr_version = 1\<rparr>,
     dr_decision = Approve, dr_reason = None\<rparr>"

definition sample_nonce :: bytes where "sample_nonce = replicate 32 9"

lemma sample_valid: "valid_propose_request sample_request" "valid_execute_request
    \<lparr>xr_actor = sample_approver, xr_grant = g\<rparr> \<longleftrightarrow> valid_execution_grant g"
  "hex_digests sample_externals"
proof -
  show "valid_propose_request sample_request" by code_simp
  have "valid_actor_context sample_approver" by code_simp
  then show "valid_execute_request \<lparr>xr_actor = sample_approver, xr_grant = g\<rparr> \<longleftrightarrow> valid_execution_grant g"
    by (simp add: valid_execute_request_def)
  have "hex64 sample_digest" by code_simp
  then show "hex_digests sample_externals" by (simp add: hex_digests_def sample_externals_def)
qed

lemma sample_start: "store_inv X (init_store [])" "reachable X kr V (init_store [])"
  by (rule init_inv reachable.Start; simp add: plain_tasks_def)+

lemma sample_facts:
  "kr_keys sample_keyring (active_version sample_keyring) = Some [1]" "1 \<le> active_version sample_keyring"
  "role (pq_actor sample_request) = ANALYST" "pq_revises sample_request = None"
  "command_task_ref (pq_command sample_request) = None"
  "sample_validator (pq_command sample_request) (pq_evidence_refs sample_request)
     = Inr \<lparr>vr_evidence_refs = [sample_evidence], vr_private_bindings = []\<rparr>"
  "idempotency (init_store []) (actor_id (pq_actor sample_request), pq_idempotency_key sample_request) = None"
  "latest_versions (init_store []) 7 = None" "role sample_approver = APPROVER"
  "actor_id sample_approver \<noteq> actor_id (pq_actor sample_request)" "length sample_nonce = 32"
  "nonce_claims (init_store []) (x_sha256 sample_externals sample_nonce) = None" "optional_reason_ok None"
  by (simp_all add: sample_keyring_def sample_request_def sample_analyst_def sample_approver_def
      sample_validator_def sample_nonce_def optional_reason_ok_def init_store_def sample_task_def)

lemma sample_times: "3 < 0 + 24 * usec_per_hour" "4 < 1 + 10 * usec_per_minute"
  by (simp_all add: usec_defs)

text \<open>The sample proposal, approved and executed.\<close>

lemma sample_run:
  "\<exists>st k r. reachable sample_externals sample_keyring sample_validator st \<and> executions st k = Some r"
proof -
  let ?X = sample_externals
  obtain snap st1 r g st2 rec st3 where
    p: "propose (memory_store ?X) ?X sample_validator 7 0 sample_request (init_store []) = (Inr snap, st1)"
    and ref: "ps_proposal_ref snap = \<lparr>proposal_id = 7, pr_version = 1\<rparr>"
    and d: "decide (memory_store ?X) ?X sample_keyring sample_nonce 1 2 3
        \<lparr>dr_actor = sample_approver, dr_proposal_ref = ps_proposal_ref snap, dr_decision = Approve,
         dr_reason = None\<rparr> st1 = (Inr r, st2)"
    and g: "valid_execution_grant g"
    and e: "execute (memory_store ?X) ?X sample_keyring 4 5
        \<lparr>xr_actor = sample_approver, xr_grant = g\<rparr> st2 = (Inr rec, st3)"
    and x: "executions st3 (ref_key (ps_proposal_ref snap)) = Some rec"
    using workflow_runs [where V = sample_validator and ?t2.0 = 2 and ?t5.0 = 5,
        OF sample_start(1) sample_valid(3) sample_facts(1,2) sample_valid(1) sample_facts(3-13) sample_times]
    by blast
  have "op_step ?X sample_keyring sample_validator (init_store []) st1"
    by (rule op_step.Propose [OF sample_valid(1) sample_facts(8) p])
  moreover have "op_step ?X sample_keyring sample_validator st1 st2"
    by (rule op_step.Decide [OF _ d])
      (simp add: ref valid_decision_request_def valid_actor_context_def valid_proposal_ref_def
        optional_reason_ok_def sample_approver_def len_ok_def)
  moreover have "op_step ?X sample_keyring sample_validator st2 st3"
    by (rule op_step.Execute [OF _ e]) (simp add: sample_valid g)
  ultimately have "reachable ?X sample_keyring sample_validator st3"
    using sample_start(2) by (blast intro: reachable.Step)
  with x show ?thesis by blast
qed

subsection \<open>Helper facts for the properties\<close>

lemma preview_state_free:
  "command_task_ref c = None \<Longrightarrow> preview_command c st = preview_command c st'"
  by (cases c) (simp_all add: preview_command_def preview_targets_def)

text \<open>
  The one step of a task: the version, the status along the transitions or closed with a conclusion, and the
  conclusion, which is written only while the task is RESOLVED and is never taken away.
\<close>

definition lifecycle_step :: "investigation_task_state \<Rightarrow> investigation_task_state \<Rightarrow> bool" where
  "lifecycle_step t t' \<longleftrightarrow> tk_version t' = tk_version t + 1 \<and> tk_task_id t' = tk_task_id t
     \<and> (tk_status t' = tk_status t \<or> (tk_status t, tk_status t') \<in> set allowed_transitions
        \<or> tk_status t = RESOLVED \<and> tk_status t' = CLOSED \<and> tk_conclusion_ref t \<noteq> None)
     \<and> (tk_conclusion_ref t' = tk_conclusion_ref t
        \<or> tk_status t = RESOLVED \<and> tk_status t' = RESOLVED \<and> tk_conclusion_ref t' \<noteq> None)"

lemma update_task_change:
  assumes "update_task c ref t st = (Inr t', st')" "valid_command c" "command_task_ref c = Some tr"
  shows "lifecycle_step t t'"
  using assms
  by (cases c) (auto simp: lifecycle_step_def update_task_def Let_def valid_transition_investigation_def
      split: if_splits option.splits)

lemma execute_once_task:
  assumes inv: "store_inv X st" and p: "proposals st (ref_key (ps_proposal_ref (sp_snapshot p))) = Some p"
    and ex: "execute_once X p a now st = (res, st')"
    and new: "executions st (ref_key (ps_proposal_ref (sp_snapshot p))) = None \<Longrightarrow>
        x_uuid5 X (ref_name ''task'' (ps_proposal_ref (sp_snapshot p))) \<noteq> tid"
    and t: "tasks st tid = Some t"
  shows "\<exists>t'. tasks st' tid = Some t' \<and> (t' = t \<or> lifecycle_step t t')"
    (is "?P st'")
proof -
  let ?c = "sp_command p" and ?ref = "ps_proposal_ref (sp_snapshot p)"
  have vc: "valid_command ?c" using store_inv_wf [OF inv p] by (simp add: proposal_wf_def)
  have b: "board_inv st" using inv by (simp add: store_inv_def)
  have same: "?P st" using t by auto
  have applied: "?P st1"
    if none: "executions st (ref_key ?ref) = None" and ap: "apply_command X ?c ?ref st = (q, st1)" for q st1
  proof (cases "command_task_ref ?c")
    case None
    then show ?thesis
      using ap t new [OF none]
      by (cases ?c) (auto simp: apply_command_def Let_def put_task_def new_task_def)
  next
    case (Some tr)
    show ?thesis
    proof (cases "tasks st (tr_task_id tr)")
      case None
      with ap same show ?thesis by (simp add: apply_existing [OF Some])
    next
      case s: (Some s)
      have sid: "tk_task_id s = tr_task_id tr" using b s by (auto simp: board_inv_def)
      obtain u st2 where u: "update_task ?c ?ref s st = (u, st2)" by fastforce
      show ?thesis
      proof (cases "tk_version s \<noteq> expected_target_version ?c")
        case True
        with ap s same show ?thesis by (simp add: apply_existing [OF Some])
      next
        case False
        show ?thesis
        proof (cases u)
          case (Inl e)
          with False ap s u t update_task_facts(1) [OF u] show ?thesis
            by (auto simp: apply_existing [OF Some])
        next
          case (Inr s')
          have ch: "lifecycle_step s s'"
            by (rule update_task_change [OF u [unfolded Inr] vc Some])
          have "st1 = st2\<lparr>tasks := (tasks st2)(tk_task_id s \<mapsto> s')\<rparr>"
            using False ap s u Inr by (simp add: apply_existing [OF Some])
          then show ?thesis
            using ch t s sid update_task_facts(1) [OF u] by (cases "tid = tr_task_id tr") auto
        qed
      qed
    qed
  qed
  show ?thesis
  proof (cases "executions st (ref_key ?ref)")
    case (Some r)
    with ex same show ?thesis by (simp add: execute_once_def Let_def)
  next
    case None
    obtain q st1 where ap: "apply_command X ?c ?ref st = (q, st1)" by fastforce
    have "tasks st' = tasks st \<or> tasks st' = tasks st1"
      using ex None ap
      by (cases q) (auto simp: execute_once_def Let_def split: if_splits)
    then show ?thesis using same applied [OF None ap] by auto
  qed
qed

lemma op_step_task:
  assumes inv: "store_inv X st" and step: "op_step X kr V st st'"
    and fresh: "\<And>ref. executions st (ref_key ref) = None \<Longrightarrow> x_uuid5 X (ref_name ''task'' ref) \<noteq> tid"
    and t: "tasks st tid = Some t"
  shows "\<exists>t'. tasks st' tid = Some t' \<and> (t' = t \<or> lifecycle_step t t')"
  using step
proof cases
  case (Propose req fr now res)
  have al: "tasks s' = tasks s" if "allocate_ref fr rq s = (r, s')" for r rq s s'
    using that by (cases rule: allocate_ref_cases) auto
  have "tasks s' = tasks s" if "create_or_get_proposal fr d s = (r, s')" for r d s s'
    using that by (cases rule: create_or_get_cases) (auto simp: store_proposal_def Let_def dest: al)
  then have "tasks st' = tasks st" using Propose(3) by (auto simp: propose_def split: sum.splits)
  with t show ?thesis by auto
next
  case (Decide req raw t1 t2 t3 res)
  have "tasks s' = tasks s" if "decide_once X r a n s = (q, s')" for r a n s q s'
    using that by (cases rule: decide_once_cases) auto
  then have "tasks st' = tasks st" using Decide(2) by (auto simp: decide_def split: sum.splits prod.splits)
  with t show ?thesis by auto
next
  case (Execute req t1 t2 res)
  show ?thesis
  proof (cases "prepare_execution (memory_store X) X kr t1 req st")
    case (Inl e)
    with Execute(2) t show ?thesis by (auto simp: execute_def)
  next
    case (Inr plan)
    show ?thesis
    proof (cases plan)
      case (Replay r)
      with Inr Execute(2) t show ?thesis by (auto simp: execute_def)
    next
      case (Run p a)
      have p: "proposals st (ref_key (grant_ref (xr_grant req))) = Some p"
        using Inr unfolding Run by (rule prepare_execution_Inr) (auto simp: read_proposal_def)
      then have key: "ref_key (ps_proposal_ref (sp_snapshot p)) = ref_key (grant_ref (xr_grant req))"
        using store_inv_wf [OF inv p] by (simp add: proposal_wf_def)
      have ex: "execute_once X p a t2 st = (res, st')" using Execute(2) Inr Run by (simp add: execute_def)
      show ?thesis
        by (rule execute_once_task [OF inv _ ex fresh t]) (use p key in simp_all)
    qed
  qed
qed

lemma decided_digest:
  assumes inv: "store_inv X st" and d: "decide (memory_store X) X kr raw t1 t2 t3 req st = (Inr r, st')"
    and g: "dc_grant r = Some g"
  shows "\<exists>d. decisions st' (ref_key (grant_ref g)) = Some d \<and> sd_grant_sha256 d = Some (grant_digest X g)"
proof -
  obtain r0 a0 where pd: "prepare_decision (memory_store X) X kr raw t1 t2 req st = Inr (r0, a0)"
    and so: "decide_once X r0 a0 t3 st = (Inr r, st')"
    using d by (auto simp: decide_def split: sum.splits prod.splits)
  note m = memory_decide [OF inv so]
  obtain p where p: "so_read_proposal (memory_store X) (dr_proposal_ref req) st = Some p"
    "dc_proposal_ref r = dr_proposal_ref req" "decision_ok r a0 p"
    "(case a0 of None \<Rightarrow> dr_decision req = Reject
      | Some a' \<Rightarrow> dr_decision req = Approve
          \<and> (\<exists>g. dc_grant r = Some g \<and> issue_approval X kr raw t1 (dr_actor req) p = Inr (g, a')))"
    using prepare_decision_Inr [OF pd] m(4) by blast
  obtain a where "issue_approval X kr raw t1 (dr_actor req) p = Inr (g, a)"
    using p(3,4) g by (cases a0) (auto simp: decision_ok_def)
  from issue_grant_Inr(1,2) [OF issue_approval_Inr(8) [OF this]]
  have "grant_ref g = ps_proposal_ref (sp_snapshot p)" by (simp add: grant_ref_def)
  also have "\<dots> = dc_proposal_ref r" using memory.read_ref [OF inv p(1)] p(2) by simp
  finally show ?thesis using m g by simp
qed

lemma sample_executed:
  "\<exists>st2 st3 g r d. reachable sample_externals sample_keyring sample_validator st2
     \<and> execute (memory_store sample_externals) sample_externals sample_keyring 4 5
         \<lparr>xr_actor = sample_approver, xr_grant = g\<rparr> st2 = (Inr r, st3)
     \<and> decisions st2 (ref_key (grant_ref g)) = Some d
     \<and> sd_grant_sha256 d = Some (grant_digest sample_externals g)"
proof -
  let ?X = sample_externals
  obtain snap st1 r g st2 rec st3 where
    p: "propose (memory_store ?X) ?X sample_validator 7 0 sample_request (init_store []) = (Inr snap, st1)"
    and ref: "ps_proposal_ref snap = \<lparr>proposal_id = 7, pr_version = 1\<rparr>"
    and d: "decide (memory_store ?X) ?X sample_keyring sample_nonce 1 2 3
        \<lparr>dr_actor = sample_approver, dr_proposal_ref = ps_proposal_ref snap, dr_decision = Approve,
         dr_reason = None\<rparr> st1 = (Inr r, st2)"
    and g: "dc_grant r = Some g"
    and e: "execute (memory_store ?X) ?X sample_keyring 4 5
        \<lparr>xr_actor = sample_approver, xr_grant = g\<rparr> st2 = (Inr rec, st3)"
    using workflow_runs [where V = sample_validator and ?t2.0 = 2 and ?t5.0 = 5,
        OF sample_start(1) sample_valid(3) sample_facts(1,2) sample_valid(1) sample_facts(3-13) sample_times]
    by blast
  have "op_step ?X sample_keyring sample_validator (init_store []) st1"
    by (rule op_step.Propose [OF sample_valid(1) sample_facts(8) p])
  then have r1: "reachable ?X sample_keyring sample_validator st1"
    using sample_start(2) by (blast intro: reachable.Step)
  have "op_step ?X sample_keyring sample_validator st1 st2"
    by (rule op_step.Decide [OF _ d])
      (simp add: ref valid_decision_request_def valid_actor_context_def valid_proposal_ref_def
        optional_reason_ok_def sample_approver_def len_ok_def)
  then have r2: "reachable ?X sample_keyring sample_validator st2" using r1 by (blast intro: reachable.Step)
  from decided_digest [OF reachable_inv [OF r1] d g] e r2 show ?thesis by blast
qed

subsection \<open>Properties\<close>

text \<open>
  C1: an approved proposal runs. From any reachable state, a valid proposal of a new-target
  command by an analyst, approved by another actor within its 24 hours with a fresh 256-bit
  nonce, and executed by that approver before the grant's ten minutes end, succeeds in all three
  calls: the execution is recorded for the proposal, its receipt goes from version 0 to 1, and
  the business objects are what applying the command gives.
\<close>

theorem approved_proposal_runs:
  assumes reach: "reachable X kr V st" and X: "hex_digests X"
    and key: "kr_keys kr (active_version kr) = Some key" "1 \<le> active_version kr"
    and req: "valid_propose_request req" "role (pq_actor req) = ANALYST" "pq_revises req = None"
    and cmd: "command_task_ref (pq_command req) = None"
    and V: "V (pq_command req) (pq_evidence_refs req) = Inr vr"
    and id: "idempotency st (actor_id (pq_actor req), pq_idempotency_key req) = None"
    and fresh: "latest_versions st fresh = None"
    and appr: "role approver = APPROVER" "actor_id approver \<noteq> actor_id (pq_actor req)"
    and raw: "length raw = 32" "nonce_claims st (x_sha256 X raw) = None"
    and reason: "optional_reason_ok reason"
    and times: "t3 < t0 + 24 * usec_per_hour" "t4 < t1 + 10 * usec_per_minute"
  shows "\<exists>snap st1 r g st2 rec st3.
     propose (memory_store X) X V fresh t0 req st = (Inr snap, st1)
     \<and> ps_proposal_ref snap = \<lparr>proposal_id = fresh, pr_version = 1\<rparr>
     \<and> decide (memory_store X) X kr raw t1 t2 t3
         \<lparr>dr_actor = approver, dr_proposal_ref = ps_proposal_ref snap, dr_decision = Approve,
          dr_reason = reason\<rparr> st1 = (Inr r, st2)
     \<and> dc_grant r = Some g \<and> valid_execution_grant g
     \<and> execute (memory_store X) X kr t4 t5 \<lparr>xr_actor = approver, xr_grant = g\<rparr> st2 = (Inr rec, st3)
     \<and> executions st3 (ref_key (ps_proposal_ref snap)) = Some rec
     \<and> er_before_version rec = 0 \<and> er_after_version rec = 1
     \<and> tasks st3 = tasks (snd (apply_command X (pq_command req) (ps_proposal_ref snap) st2))
     \<and> risks st3 = risks (snd (apply_command X (pq_command req) (ps_proposal_ref snap) st2))
     \<and> rules st3 = rules (snd (apply_command X (pq_command req) (ps_proposal_ref snap) st2))"
  by (rule workflow_runs [where V = V and vr = vr, OF reachable_inv [OF reach] X key req cmd V id fresh appr raw reason times])
text \<open>
  C2: nothing runs unapproved. In every reachable state an executed proposal is stored as
  APPROVED, by an approver other than its requester; the approval that was consumed is bound to
  the digest of exactly the command and target versions of that proposal, the receipt names its
  command type, and the approval's nonce is claimed for it.
\<close>

theorem executed_was_approved:
  assumes "reachable X kr V st" "executions st k = Some r"
  shows "\<exists>p d a. proposals st k = Some p \<and> ps_status (sp_snapshot p) = APPROVED
     \<and> decisions st k = Some d \<and> sd_approval d = Some a
     \<and> sd_approver_id d \<noteq> sp_requester_id p \<and> sa_approver_id a = sd_approver_id d
     \<and> sa_payload_sha256 a = signed_digest X (sp_command p) (cp_target_versions (ps_preview (sp_snapshot p)))
     \<and> er_proposal_ref r = ps_proposal_ref (sp_snapshot p)
     \<and> er_command_type r = command_type (sp_command p)
     \<and> nonce_claims st (sa_nonce_digest a) = Some (er_proposal_ref r)"
proof -
  have inv: "store_inv X st" by (rule reachable_inv [OF assms(1)])
  obtain p d a where f: "proposals st k = Some p" "decisions st k = Some d" "sd_approval d = Some a"
    "decision_wf p d" "er_proposal_ref r = ps_proposal_ref (sp_snapshot p)"
    "er_command_type r = command_type (sp_command p)"
    "nonce_claims st (sa_nonce_digest a) = Some (er_proposal_ref r)"
    using store_inv_execution [OF inv assms(2)] by blast
  with store_inv_wf [OF inv f(1)] show ?thesis
    by (intro exI [of _ p] exI [of _ d] exI [of _ a]) (auto simp: decision_wf_def proposal_wf_def)
qed

theorem executed_was_approved_witness:
  "\<exists>(st :: op_store) k r p. executions st k = Some r \<and> proposals st k = Some p \<and> ps_status (sp_snapshot p) = APPROVED"
proof -
  obtain st k r where s: "reachable sample_externals sample_keyring sample_validator st" "executions st k = Some r"
    using sample_run by blast
  from executed_was_approved [OF s] obtain p where "proposals st k = Some p"
    "ps_status (sp_snapshot p) = APPROVED" by auto
  with s(2) show ?thesis by blast
qed

text \<open>
  C3: exactly once. In every reachable state the three write counters equal the number of
  executed proposals, as many nonces are claimed as proposals executed, and two executed
  proposals never share a nonce.
\<close>

theorem executes_exactly_once:
  assumes "reachable X kr V st"
  shows "business_write_count st = card (dom (executions st))
    \<and> audit_count st = card (dom (executions st))
    \<and> nonce_claim_count st = card (dom (executions st))
    \<and> card (dom (nonce_claims st)) = card (dom (executions st))
    \<and> (\<forall>k l dk dl a b. executions st k \<noteq> None \<longrightarrow> executions st l \<noteq> None
         \<longrightarrow> decisions st k = Some dk \<longrightarrow> decisions st l = Some dl
         \<longrightarrow> sd_approval dk = Some a \<longrightarrow> sd_approval dl = Some b
         \<longrightarrow> sa_nonce_digest a = sa_nonce_digest b \<longrightarrow> k = l)"
proof -
  have inv: "store_inv X st" by (rule reachable_inv [OF assms])
  have claimed: "\<exists>ref. ref_key ref = j \<and> nonce_claims st (sa_nonce_digest c) = Some ref"
    if j: "executions st j \<noteq> None" "decisions st j = Some d" "sd_approval d = Some c" for j d c
  proof -
    obtain r where "executions st j = Some r" using j(1) by blast
    then obtain p where "proposals st j = Some p"
      "nonce_claims st (sa_nonce_digest c) = Some (ps_proposal_ref (sp_snapshot p))"
      using store_inv_execution [OF inv, of j r] j(2,3) by auto
    with store_inv_wf [OF inv, of j p] show ?thesis by (auto simp: proposal_wf_def)
  qed
  have inj: "k = l"
    if k: "executions st k \<noteq> None" "decisions st k = Some dk" "sd_approval dk = Some a"
      and l: "executions st l \<noteq> None" "decisions st l = Some dl" "sd_approval dl = Some b"
      and "sa_nonce_digest a = sa_nonce_digest b" for k l dk dl a b
    using claimed [OF k] claimed [OF l] that(7) by auto
  show ?thesis
  proof (intro conjI)
    show "\<forall>k l dk dl a b. executions st k \<noteq> None \<longrightarrow> executions st l \<noteq> None
         \<longrightarrow> decisions st k = Some dk \<longrightarrow> decisions st l = Some dl
         \<longrightarrow> sd_approval dk = Some a \<longrightarrow> sd_approval dl = Some b
         \<longrightarrow> sa_nonce_digest a = sa_nonce_digest b \<longrightarrow> k = l"
      using inj by blast
  qed (use inv in \<open>simp_all add: store_inv_def counts_inv_def\<close>)
qed

theorem executes_exactly_once_witness:
  "\<exists>(st :: op_store) k. executions st k \<noteq> None \<and> business_write_count st = card (dom (executions st))"
proof -
  obtain st k r where s: "reachable sample_externals sample_keyring sample_validator st" "executions st k = Some r"
    using sample_run by blast
  from executes_exactly_once [OF s(1)] s(2) show ?thesis by blast
qed

text \<open>
  C4: history is append-only. A step of any call from a reachable state leaves every recorded
  execution and decision as it was and every stored proposal as it was except for its status,
  which changes only if it was PENDING: APPROVED, REJECTED, EXPIRED and SUPERSEDED are terminal.
\<close>

theorem history_append_only:
  assumes "reachable X kr V st" "op_step X kr V st st'"
  shows "(\<forall>k r. executions st k = Some r \<longrightarrow> executions st' k = Some r)
     \<and> (\<forall>k d. decisions st k = Some d \<longrightarrow> decisions st' k = Some d)
     \<and> (\<forall>k p. proposals st k = Some p \<longrightarrow>
          (\<exists>s. proposals st' k = Some (set_status s p)
             \<and> (s = ps_status (sp_snapshot p) \<or> ps_status (sp_snapshot p) = PENDING)))"
  using op_step_advances [OF reachable_inv [OF assms(1)] assms(2)] by (simp add: advances_def)

theorem history_append_only_witness:
  "\<exists>st st'. op_step sample_externals sample_keyring sample_validator st st'
     \<and> (\<forall>k d. decisions st k = Some d \<longrightarrow> decisions st' k = Some d)"
proof -
  have r: "reachable sample_externals sample_keyring sample_validator (init_store [])" by (rule sample_start)
  obtain res st' where "propose (memory_store sample_externals) sample_externals sample_validator 7 0
      sample_request (init_store []) = (res, st')" by fastforce
  then have s: "op_step sample_externals sample_keyring sample_validator (init_store []) st'"
    by (rule op_step.Propose [OF sample_valid(1) sample_facts(8)])
  from history_append_only [OF r s] s show ?thesis by blast
qed

text \<open>
  executing is idempotent. After a successful execute call from a reachable state, with the
  grant that was recorded for the decision, the same request answers with the same receipt and
  changes nothing, at any later clock reading (also after the grant expired) and under any keyring.
\<close>

theorem execute_idempotent:
  assumes "reachable X kr V st"
    and "execute (memory_store X) X kr t1 t2 req st = (Inr r, st')"
    and "decisions st (ref_key (grant_ref (xr_grant req))) = Some d"
    and "sd_grant_sha256 d = Some (grant_digest X (xr_grant req))"
  shows "execute (memory_store X) X kr' t3 t4 req st' = (Inr r, st')"
  by (rule memory.execute_twice [OF reachable_inv [OF assms(1)] assms(2) _ assms(4)])
    (use assms(3) in \<open>simp add: read_decision_def\<close>)

theorem execute_idempotent_witness:
  "\<exists>st' r g. execute (memory_store sample_externals) sample_externals sample_keyring 4 5
         \<lparr>xr_actor = sample_approver, xr_grant = g\<rparr> st' = (Inr r, st')
     \<and> execute (memory_store sample_externals) sample_externals sample_keyring (4 + usec_per_day) 5
         \<lparr>xr_actor = sample_approver, xr_grant = g\<rparr> st' = (Inr r, st')"
proof -
  obtain st2 st3 g r d where
    reach: "reachable sample_externals sample_keyring sample_validator st2"
    and e: "execute (memory_store sample_externals) sample_externals sample_keyring 4 5
        \<lparr>xr_actor = sample_approver, xr_grant = g\<rparr> st2 = (Inr r, st3)"
    and d: "decisions st2 (ref_key (grant_ref g)) = Some d" "sd_grant_sha256 d = Some (grant_digest sample_externals g)"
    using sample_executed by blast
  note again = execute_idempotent [OF reach e, unfolded execute_request.simps, OF d]
  from again [of sample_keyring 4 5] again [of sample_keyring "4 + usec_per_day" 5] show ?thesis by blast
qed

text \<open>
  proposing is idempotent. A new-target proposal that was accepted from a reachable state,
  submitted again with the same idempotency key, returns the same snapshot and changes nothing,
  whatever the clock and the fresh identifier of the second call.
\<close>

theorem propose_idempotent:
  assumes "reachable X kr V st" "valid_propose_request req" "latest_versions st fresh = None"
    and "command_task_ref (pq_command req) = None"
    and "propose (memory_store X) X V fresh t req st = (Inr snap, st')"
  shows "propose (memory_store X) X V fresh' t' req st' = (Inr snap, st')"
proof -
  have vc: "valid_command (pq_command req)" using assms(2) by (simp add: valid_propose_request_def)
  obtain d where pd: "prepare_draft (memory_store X) X V t req st = Inr d"
    and c: "create_or_get_proposal fresh d st = (Inr snap, st')"
    using assms(5) by (auto simp: propose_def split: sum.splits)
  note f = prepare_draft_Inr [OF pd]
  define d' where "d' = d\<lparr>pd_created_at := t', pd_expires_at := t' + proposal_hours * usec_per_hour\<rparr>"
  have "preview_command (pq_command req) st' = preview_command (pq_command req) st"
    by (rule preview_state_free [OF assms(4)])
  then have pd': "prepare_draft (memory_store X) X V t' req st' = Inr d'"
    using f vc by (simp add: prepare_draft_def require_role_def canonical_command_valid signed_digest_def d'_def)
  have bound: "idempotency st' (actor_id (pq_actor req), pq_idempotency_key req)
        = Some (ref, command_type (pq_command req), pd_payload_sha256 d)
      \<and> map_option sp_snapshot (proposals st' (ref_key ref)) = Some snap"
    if "ref = ps_proposal_ref snap" for ref
    using c
  proof (cases rule: create_or_get_cases)
    case (replay ref' ty sha p)
    have "store_inv X st" by (rule reachable_inv [OF assms(1)])
    then have "ref_key (ps_proposal_ref (sp_snapshot p)) = ref_key ref'"
      using store_inv_wf replay(4) by (auto simp: proposal_wf_def)
    with replay f(2) that show ?thesis by auto
  next
    case (created ref' st1)
    with f(2) that show ?thesis by (auto simp: store_proposal_def Let_def draft_snapshot_def)
  qed auto
  then obtain p where "proposals st' (ref_key (ps_proposal_ref snap)) = Some p" "sp_snapshot p = snap" by auto
  with bound [OF refl] have "create_or_get_proposal fresh' d' st' = (Inr snap, st')"
    using f(2) by (simp add: create_or_get_proposal_def Let_def d'_def)
  with pd' show ?thesis by (simp add: propose_def)
qed

theorem propose_idempotent_witness:
  "\<exists>snap st'. propose (memory_store sample_externals) sample_externals sample_validator 7 0 sample_request
        (init_store []) = (Inr snap, st')
     \<and> propose (memory_store sample_externals) sample_externals sample_validator 8 100 sample_request st'
        = (Inr snap, st')"
proof -
  obtain snap st' where p: "propose (memory_store sample_externals) sample_externals sample_validator 7 0
      sample_request (init_store []) = (Inr snap, st')"
    using propose_first [where V = sample_validator and now = 0 and fresh = 7,
        OF sample_valid(3,1) sample_facts(3-7)] by metis
  from propose_idempotent [OF sample_start(2) sample_valid(1) sample_facts(8,5) p] p show ?thesis by blast
qed

text \<open>
  A grant is dead after its ten minutes. If the proposal of a grant has not been executed,
  then presenting the grant when the clock read for its verification is at or past its expiry
  raises an error and leaves the store unchanged.
\<close>

theorem expired_grant_rejected:
  assumes "executions st (ref_key (grant_ref (xr_grant req))) = None" "eg_expires_at (xr_grant req) \<le> t1"
  shows "\<exists>e. execute (memory_store X) X kr t1 t2 req st = (Inl e, st)"
proof (cases "prepare_execution (memory_store X) X kr t1 req st")
  case (Inl e)
  then show ?thesis by (simp add: execute_def)
next
  case (Inr plan)
  have False
    using Inr
  proof (rule prepare_execution_Inr)
    fix p a sha d
    assume "(\<exists>r. plan = Replay r \<and> so_read_execution (memory_store X) (grant_ref (xr_grant req)) st = Some r
        \<and> execution_grant_sha256 X (xr_grant req) = Inr sha)
      \<or> plan = Run p a \<and> verify_grant X kr t1 (xr_grant req) a (xr_actor req) = Inr ()"
    with assms verify_grant_Inr(4) [of X kr t1 "xr_grant req" a "xr_actor req"] show False
      by (auto simp: read_execution_def)
  qed
  then show ?thesis ..
qed

theorem expired_grant_rejected_witness:
  "\<exists>g e. execute (memory_store sample_externals) sample_externals sample_keyring 1000000 5
      \<lparr>xr_actor = sample_approver, xr_grant = g\<rparr> (init_store []) = (Inl e, init_store [])"
proof -
  define g where "g = \<lparr>eg_proposal_id = 7, eg_proposal_version = 1, eg_payload_sha256 = sample_digest,
    eg_requester_id = 1, eg_approver_id = 2, eg_target_versions = [(''investigation_task'', 0)],
    eg_expires_at = 1000000, eg_nonce = ''AAAA'', eg_key_version = 1, eg_signature = sample_digest\<rparr>"
  have "\<exists>e. execute (memory_store sample_externals) sample_externals sample_keyring 1000000 5
      \<lparr>xr_actor = sample_approver, xr_grant = g\<rparr> (init_store []) = (Inl e, init_store [])"
    by (rule expired_grant_rejected) (simp_all add: init_store_def g_def)
  then show ?thesis by blast
qed

text \<open>
  C7: one live version. In a reachable state at most one version of a proposal is not
  SUPERSEDED, and it is the latest one.
\<close>

theorem one_live_version:
  assumes "reachable X kr V st"
    and "proposals st (pid, v) = Some p" "ps_status (sp_snapshot p) \<noteq> SUPERSEDED"
    and "proposals st (pid, w) = Some q" "ps_status (sp_snapshot q) \<noteq> SUPERSEDED"
  shows "v = w \<and> latest_versions st pid = Some v"
  using store_inv_wf [OF reachable_inv [OF assms(1)] assms(2)]
    store_inv_wf [OF reachable_inv [OF assms(1)] assms(4)] assms(3,5)
  by (auto simp: proposal_wf_def)

theorem one_live_version_witness:
  "\<exists>st v p. proposals (st :: op_store) (7, v) = Some p \<and> latest_versions st 7 = Some v"
proof -
  obtain d where p: "propose (memory_store sample_externals) sample_externals sample_validator 7 0
      sample_request (init_store []) = (Inr (draft_snapshot d \<lparr>proposal_id = 7, pr_version = 1\<rparr>),
      store_proposal d \<lparr>proposal_id = 7, pr_version = 1\<rparr> (init_store []))"
    using propose_first [where V = sample_validator and now = 0 and fresh = 7,
        OF sample_valid(3,1) sample_facts(3-7)] by metis
  define st where "st = store_proposal d \<lparr>proposal_id = 7, pr_version = 1\<rparr> (init_store [])"
  have r: "reachable sample_externals sample_keyring sample_validator st"
    unfolding st_def
    by (rule reachable.Step [OF sample_start(2) op_step.Propose [OF sample_valid(1) sample_facts(8) p]])
  obtain q where q: "proposals st (7, 1) = Some q" "ps_status (sp_snapshot q) \<noteq> SUPERSEDED"
    by (simp add: st_def store_proposal_def Let_def draft_snapshot_def ref_key_def)
  from one_live_version [OF r q q] q show ?thesis by blast
qed

text \<open>
  C8: the life of an investigation. Along any step from a reachable state a task is never lost, and when it
  changes, its version grows by exactly one and its status stays, or moves along the allowed transitions, or goes
  from RESOLVED to CLOSED with a conclusion recorded. The conclusion is written only while the task is RESOLVED
  and never taken away: closing keeps it, and a CLOSED task stays CLOSED with the conclusion it has. The
  hypothesis excludes that the identifier of a task still to be created, a uuid5 of its proposal, collides with
  the identifier of this one.
\<close>

theorem investigation_lifecycle:
  assumes "reachable X kr V st" "op_step X kr V st st'" "tasks st tid = Some t"
    and "\<And>ref. executions st (ref_key ref) = None \<Longrightarrow> x_uuid5 X (ref_name ''task'' ref) \<noteq> tid"
  shows "\<exists>t'. tasks st' tid = Some t' \<and> (t' = t \<or> tk_version t' = tk_version t + 1 \<and> tk_task_id t' = tk_task_id t
    \<and> (tk_status t' = tk_status t \<or> (tk_status t, tk_status t') \<in> set allowed_transitions
       \<or> tk_status t = RESOLVED \<and> tk_status t' = CLOSED \<and> tk_conclusion_ref t \<noteq> None)
    \<and> (tk_conclusion_ref t' = tk_conclusion_ref t
       \<or> tk_status t = RESOLVED \<and> tk_status t' = RESOLVED \<and> tk_conclusion_ref t' \<noteq> None)
    \<and> (tk_status t = CLOSED \<longrightarrow> tk_status t' = CLOSED \<and> tk_conclusion_ref t' = tk_conclusion_ref t))"
proof -
  obtain t' where t': "tasks st' tid = Some t'" "t' = t \<or> lifecycle_step t t'"
    using op_step_task [OF reachable_inv [OF assms(1)] assms(2) assms(4) assms(3)] by blast
  have "(CLOSED, x) \<notin> set allowed_transitions" for x by (simp add: allowed_transitions_def)
  with t' show ?thesis by (intro exI [of _ t']) (auto simp: lifecycle_step_def)
qed

theorem investigation_lifecycle_witness:
  "\<exists>t st' t'. tk_version t = 3 \<and> tk_status t = CLOSED \<and> tk_conclusion_ref t = Some ''c''
     \<and> op_step sample_externals sample_keyring sample_validator (init_store [t]) st'
     \<and> tasks st' 9 = Some t' \<and> tk_status t' = CLOSED \<and> tk_conclusion_ref t' = Some ''c''"
proof -
  define t where "t = new_task 9 High ''s'' None\<lparr>tk_version := 3, tk_status := CLOSED, tk_conclusion_ref := Some ''c''\<rparr>"
  have r: "reachable sample_externals sample_keyring sample_validator (init_store [t])"
    by (rule reachable.Start) (simp add: plain_tasks_def t_def new_task_def)
  obtain res st' where p: "propose (memory_store sample_externals) sample_externals sample_validator 7 0
      sample_request (init_store [t]) = (res, st')" by fastforce
  have s: "op_step sample_externals sample_keyring sample_validator (init_store [t]) st'"
    by (rule op_step.Propose [OF sample_valid(1) _ p]) (simp add: init_store_def)
  have t9: "tasks (init_store [t]) 9 = Some t" by (simp add: init_store_def t_def new_task_def)
  have v: "tk_version t = 3" "tk_status t = CLOSED" "tk_conclusion_ref t = Some ''c''" by (simp_all add: t_def)
  have "\<And>ref. executions (init_store [t]) (ref_key ref) = None \<Longrightarrow> x_uuid5 sample_externals (ref_name ''task'' ref) \<noteq> 9"
    by (simp add: sample_externals_def)
  from investigation_lifecycle [OF r s t9 this] s v show ?thesis by fastforce
qed

theorem approved_proposal_runs_witness:
  "\<exists>snap st1 r g st2 rec st3.
     propose (memory_store sample_externals) sample_externals sample_validator 7 0 sample_request (init_store [])
       = (Inr snap, st1)
     \<and> decide (memory_store sample_externals) sample_externals sample_keyring sample_nonce 1 2 3
         \<lparr>dr_actor = sample_approver, dr_proposal_ref = ps_proposal_ref snap, dr_decision = Approve,
          dr_reason = None\<rparr> st1 = (Inr r, st2)
     \<and> dc_grant r = Some g
     \<and> execute (memory_store sample_externals) sample_externals sample_keyring 4 5
         \<lparr>xr_actor = sample_approver, xr_grant = g\<rparr> st2 = (Inr rec, st3)
     \<and> executions st3 (ref_key (ps_proposal_ref snap)) = Some rec"
  using approved_proposal_runs [where V = sample_validator and ?t2.0 = 2 and ?t5.0 = 5,
      OF sample_start(2) sample_valid(3) sample_facts(1,2) sample_valid(1) sample_facts(3-13) sample_times]
  by blast

text \<open>
  grants round-trip. The grant that an approval issues at time \<open>now\<close> verifies against the
  stored approval, for the approver, at every clock reading before \<open>now\<close> plus ten minutes, and
  from then on is rejected as expired.
\<close>

theorem issued_grant_verifies:
  assumes "issue_approval X kr raw now approver p = Inr (g, a)" "actor_id actor = actor_id approver"
  shows "verify_grant X kr now' g a actor =
    (if now + 10 * usec_per_minute \<le> now' then Inl (approval_error ''grant_expired'') else Inr ())"
proof -
  note ia = issue_approval_Inr [OF assms(1)]
  note ig = issue_grant_Inr [OF ia(8)]
  have "verify_grant X kr now' g a actor =
    (if eg_expires_at g \<le> now' then Inl (approval_error ''grant_expired'') else Inr ())"
    by (rule verify_grant_issued [OF ia(8) refl])
      (use ia ig assms(2) in \<open>simp_all add: bindings_match_def dict_eq_def\<close>)
  then show ?thesis by (simp add: ig(7) grant_minutes_def)
qed

definition sample_proposal :: stored_proposal where
  "sample_proposal =
     \<lparr>sp_snapshot = \<lparr>ps_proposal_ref = \<lparr>proposal_id = 7, pr_version = 1\<rparr>, ps_status = PENDING,
        ps_requester_id = 1, ps_command_type = ''create_investigation_task'',
        ps_payload_sha256 = sample_digest,
        ps_preview = \<lparr>cp_command_type = ''create_investigation_task'', cp_title = ''Check'',
          cp_public_summary = ''Create one investigation task.'',
          cp_target_versions = [(''investigation_task'', 0)], cp_affected_rows = 1\<rparr>,
        ps_created_at = 0, ps_expires_at = 100\<rparr>,
      sp_command = sample_task, sp_requester_id = 1, sp_evidence_refs = [sample_evidence],
      sp_idempotency_key = ''request-1'', sp_revises = None,
      sp_validated_references = \<lparr>vr_evidence_refs = [sample_evidence], vr_private_bindings = []\<rparr>\<rparr>"

lemma sample_issue: "\<exists>g a. issue_approval sample_externals sample_keyring sample_nonce 0 sample_approver sample_proposal
    = Inr (g, a)"
proof -
  have hex: "hex64 sample_digest" by code_simp
  have tv: "valid_target_versions [(''investigation_task'', 0)]" by code_simp
  have ref: "valid_proposal_ref \<lparr>proposal_id = 7, pr_version = 1\<rparr>" by code_simp
  have sx: "x_sha256 sample_externals b = sample_digest" for b by (simp add: sample_externals_def)
  obtain g where "issue_grant sample_externals sample_keyring sample_nonce 0 \<lparr>proposal_id = 7, pr_version = 1\<rparr>
      sample_digest 1 sample_approver [(''investigation_task'', 0)] = Inr (g, sample_digest)"
    using issue_grant_ok [OF sample_valid(3) sample_facts(1,2,11) ref hex tv, of 0 1 sample_approver]
    unfolding sx by blast
  with issue_grant_Inr(9) [OF this] hex tv ref show ?thesis
    by (simp add: issue_approval_def Let_def sample_proposal_def construct_def valid_stored_approval_def
        sample_keyring_def)
qed

theorem issued_grant_verifies_witness:
  "\<exists>g a. verify_grant sample_externals sample_keyring 5 g a sample_approver = Inr ()
     \<and> verify_grant sample_externals sample_keyring (10 * usec_per_minute) g a sample_approver
         = Inl (approval_error ''grant_expired'')"
proof -
  obtain g a where i: "issue_approval sample_externals sample_keyring sample_nonce 0 sample_approver sample_proposal
      = Inr (g, a)" using sample_issue by blast
  from issued_grant_verifies [OF i refl, of 5] issued_grant_verifies [OF i refl, of "10 * usec_per_minute"]
  show ?thesis by (auto simp: usec_defs)
qed

lemma sample_verified:
  "\<exists>g a. verify_grant sample_externals sample_keyring 5 g a sample_approver = Inr ()
     \<and> eg_expires_at g = 10 * usec_per_minute \<and> eg_target_versions g = [(''investigation_task'', 0)]"
proof -
  obtain g a where i: "issue_approval sample_externals sample_keyring sample_nonce 0 sample_approver sample_proposal
      = Inr (g, a)" using sample_issue by blast
  note ia = issue_approval_Inr [OF i]
  note ig = issue_grant_Inr [OF ia(8)]
  have "verify_grant sample_externals sample_keyring 5 g a sample_approver = Inr ()"
    by (subst verify_grant_issued [OF ia(8) refl])
      (use ia ig in \<open>simp_all add: bindings_match_def dict_eq_def grant_minutes_def usec_defs\<close>)
  with ig show ?thesis
    by (intro exI [of _ g] exI [of _ a]) (simp add: grant_minutes_def sample_proposal_def)
qed

text \<open>
  C5: what a verified grant proves. If a grant verifies, the caller is the approver of the grant
  and of the decision, every bound field of the grant equals the stored approval's, the signature
  is the HMAC of the grant's envelope under the key version that was stored, the nonce decodes to
  bytes with the stored digest, and the grant has not expired.
\<close>

theorem verified_grant_sound:
  assumes "verify_grant X kr now g a actor = Inr ()"
  shows "actor_id actor = eg_approver_id g \<and> actor_id actor = sa_approver_id a
    \<and> grant_ref g = sa_proposal_ref a \<and> eg_payload_sha256 g = sa_payload_sha256 a
    \<and> eg_requester_id g = sa_requester_id a \<and> set (eg_target_versions g) = set (sa_target_versions a)
    \<and> eg_expires_at g = sa_expires_at a \<and> now < eg_expires_at g
    \<and> (\<exists>msg key. envelope_bytes (grant_envelope g) = Inr msg \<and> kr_keys kr (sa_key_version a) = Some key
         \<and> eg_signature g = x_hmac_sha256 X key msg)
    \<and> (\<exists>raw. urlsafe_b64decode (eg_nonce g @ replicate (pad_count (length (eg_nonce g))) CHR ''='') = Some raw
         \<and> x_sha256 X raw = sa_nonce_digest a)"
  using verify_grant_Inr [OF assms] by (simp add: bindings_match_def dict_eq_def grant_ref_def)

theorem verified_grant_sound_witness:
  "\<exists>g a. verify_grant sample_externals sample_keyring 5 g a sample_approver = Inr ()
     \<and> grant_ref g = sa_proposal_ref a \<and> 5 < eg_expires_at g"
proof -
  obtain g a where v: "verify_grant sample_externals sample_keyring 5 g a sample_approver = Inr ()"
    using sample_verified by blast
  from verified_grant_sound [OF v] v show ?thesis by blast
qed

text \<open>
  the signature commits to the grant. Two grants that both verify under the same key version
  with the same signature agree on proposal, version, payload digest, requester, approver, target
  versions, nonce and the second of their expiry, unless HMAC-SHA256 collides on their two messages.
\<close>

theorem signature_commits:
  assumes "verify_grant X kr t g a actor = Inr ()" "verify_grant X kr t' g' a' actor' = Inr ()"
    and "eg_key_version g = eg_key_version g'" "eg_signature g = eg_signature g'"
    and "in_date_range (eg_expires_at g)" "in_date_range (eg_expires_at g')"
    and "distinct (map fst (eg_target_versions g))" "distinct (map fst (eg_target_versions g'))"
    and "\<And>key m m'. envelope_bytes (grant_envelope g) = Inr m \<Longrightarrow> envelope_bytes (grant_envelope g') = Inr m'
        \<Longrightarrow> x_hmac_sha256 X key m = x_hmac_sha256 X key m' \<Longrightarrow> m = m'"
  shows "grant_ref g = grant_ref g' \<and> eg_payload_sha256 g = eg_payload_sha256 g'
    \<and> eg_requester_id g = eg_requester_id g' \<and> eg_approver_id g = eg_approver_id g'
    \<and> set (eg_target_versions g) = set (eg_target_versions g') \<and> eg_nonce g = eg_nonce g'
    \<and> eg_expires_at g div usec_per_second = eg_expires_at g' div usec_per_second"
proof -
  obtain m key where m: "envelope_bytes (grant_envelope g) = Inr m" "kr_keys kr (eg_key_version g) = Some key"
    "eg_signature g = x_hmac_sha256 X key m"
    using verify_grant_Inr(5) [OF assms(1)] by blast
  obtain m' key' where m': "envelope_bytes (grant_envelope g') = Inr m'"
    "kr_keys kr (eg_key_version g') = Some key'" "eg_signature g' = x_hmac_sha256 X key' m'"
    using verify_grant_Inr(5) [OF assms(2)] by blast
  have "m = m'" using assms(3,4) m m' by (intro assms(9) [OF m(1) m'(1), of key]) simp
  then have "envelope_bytes (grant_envelope g) = envelope_bytes (grant_envelope g')" using m(1) m'(1) by simp
  then show ?thesis
    using envelope_bytes_inject [of "grant_envelope g" "grant_envelope g'"] assms(5-8)
    by (simp add: grant_envelope_def grant_ref_def dict_eq_def)
qed

theorem signature_commits_witness:
  "\<exists>g a. verify_grant sample_externals sample_keyring 5 g a sample_approver = Inr ()
     \<and> grant_ref g = grant_ref g \<and> eg_nonce g = eg_nonce g"
proof -
  obtain g a where v: "verify_grant sample_externals sample_keyring 5 g a sample_approver = Inr ()"
    and e: "eg_expires_at g = 10 * usec_per_minute" "eg_target_versions g = [(''investigation_task'', 0)]"
    using sample_verified by blast
  have "grant_ref g = grant_ref g \<and> eg_payload_sha256 g = eg_payload_sha256 g
    \<and> eg_requester_id g = eg_requester_id g \<and> eg_approver_id g = eg_approver_id g
    \<and> set (eg_target_versions g) = set (eg_target_versions g) \<and> eg_nonce g = eg_nonce g
    \<and> eg_expires_at g div usec_per_second = eg_expires_at g div usec_per_second"
    by (rule signature_commits [OF v v refl refl])
      (simp_all add: e in_date_range_def usec_defs)
  with v show ?thesis by blast
qed

end
