(* ===== verification/Op_Backtest.thy ===== *)
theory Op_Backtest
  imports Op_Approval
begin

text \<open>
  The fixed-metric backtester of \<open>src/commerce_agent/operations/_backtest.py\<close>: the catalogue of
  metric definitions, the check of the observation windows, the evaluation of one window and the
  digest of a rule. \<open>Decimal(n) / Decimal(d)\<close> is Python's division at 28 digits, so the six-place
  rate is rounded twice; the main lemma shows that for denominators up to \<open>10 ^ 20\<close> the result
  is the rate rounded once. The metric and observation ports are arguments.
\<close>

subsection \<open>Division of decimals\<close>

definition digit_count :: "int \<Rightarrow> nat" where
  "digit_count c = length (show_nat c)"

text \<open>The context rounds a coefficient of more than 28 digits half-even.\<close>

definition dec_fix :: "bool \<Rightarrow> int \<Rightarrow> int \<Rightarrow> decimal" where
  "dec_fix s c e =
     (if digit_count c \<le> 28 then Dec s c e
      else let k = digit_count c - 28; c' = div_half_even c (10 ^ k) in
        if c' = prec_limit then Dec s (prec_limit div 10) (e + int k + 1) else Dec s c' (e + int k))"

function strip_zeros :: "int \<Rightarrow> int \<Rightarrow> int \<times> int" where
  "strip_zeros c e = (if e < 0 \<and> c mod 10 = 0 then strip_zeros (c div 10) (e + 1) else (c, e))"
  by pat_completeness auto
termination by (relation "measure (\<lambda>(c, e). nat (- e))") auto

declare strip_zeros.simps [simp del]

text \<open>
  \<open>Decimal(n) / Decimal(d)\<close> for integers, \<open>d\<close> not zero: a quotient of 29 or 30 digits; an
  inexact one is made sticky (a last digit 0 or 5 is raised) so that the context rounds it as it
  would round the exact value.
\<close>

definition dec_div :: "int \<Rightarrow> int \<Rightarrow> decimal" where
  "dec_div n d =
     (let s = (n < 0) \<noteq> (d < 0); a = \<bar>n\<bar>; b = \<bar>d\<bar> in
      if a = 0 then Dec s 0 0
      else
        let shift = int (digit_count b) - int (digit_count a) + 29;
            num = (if 0 \<le> shift then a * 10 ^ nat shift else a);
            den = (if 0 \<le> shift then b else b * 10 ^ nat (- shift)) in
        if num mod den \<noteq> 0
        then let q = num div den in dec_fix s (if q mod 5 = 0 then q + 1 else q) (- shift)
        else (let (c, e) = strip_zeros (num div den) (- shift) in dec_fix s c e))"

subsection \<open>The metric catalogue\<close>

record metric_definition =
  md_revision :: string
  md_numerator :: string
  md_denominator :: string
  md_time_field :: string
  md_allowed_grains :: "string list"

fun metric_definitions :: "alert_metric \<Rightarrow> metric_definition" where
  "metric_definitions LATE_DELIVERY_RATE =
     \<lparr>md_revision = ''metric.late_delivery_rate.v1'', md_numerator = ''delivered_after_estimate'',
      md_denominator = ''delivered_orders'', md_time_field = ''order_purchase_timestamp'',
      md_allowed_grains = [''global'', ''seller_state'', ''product_category'']\<rparr>"
| "metric_definitions LOW_RATING_RATE =
     \<lparr>md_revision = ''metric.low_rating_rate.v1'', md_numerator = ''review_score_lte_2'',
      md_denominator = ''reviewed_orders'', md_time_field = ''review_creation_date'',
      md_allowed_grains = [''global'', ''seller_state'', ''product_category'']\<rparr>"
| "metric_definitions CANCELLATION_RATE =
     \<lparr>md_revision = ''metric.cancellation_rate.v1'', md_numerator = ''cancelled_orders'',
      md_denominator = ''placed_orders'', md_time_field = ''order_purchase_timestamp'',
      md_allowed_grains = [''global'', ''customer_state'']\<rparr>"

record alert_backtest_query =
  aq_definition :: metric_definition
  aq_request :: alert_backtest_request

record alert_observation =
  ao_window_started_at :: instant
  ao_window_ended_at :: instant
  ao_numerator :: int
  ao_denominator :: int
  ao_complete :: bool

subsection \<open>Running a backtest\<close>

definition rule_projection :: "alert_backtest_request \<Rightarrow> op_error + pyval" where
  "rule_projection r =
     rbind (utc_z (ab_ended_at r)) (\<lambda>ended.
     rbind (utc_z (ab_started_at r)) (\<lambda>started.
     rbind (normalized_decimal 4 (ab_threshold r)) (\<lambda>threshold.
     Inr (PMap
       [(KStr ''comparator'', PStr (alert_comparator_value (ab_comparator r))),
        (KStr ''ended_at'', PStr ended),
        (KStr ''filter_refs'', PList (map PStr (sort (ab_filter_refs r)))),
        (KStr ''grain'', PStr (ab_grain r)),
        (KStr ''metric'', PStr (alert_metric_value (ab_metric r))),
        (KStr ''metric_revision'', PStr (ab_metric_revision r)),
        (KStr ''minimum_denominator'', PInt (ab_minimum_denominator r)),
        (KStr ''schema_version'', PInt 1),
        (KStr ''started_at'', PStr started),
        (KStr ''threshold'', PStr threshold),
        (KStr ''window'', PStr (calendar_window_value (ab_window r)))]))))"

definition rule_spec_sha256 :: "externals \<Rightarrow> alert_backtest_request \<Rightarrow> op_error + string" where
  "rule_spec_sha256 X r =
     rbind (rule_projection r) (\<lambda>p. rbind (canonical_json_bytes p) (\<lambda>bs. Inr (x_sha256 X bs)))"

text \<open>One pass over the windows; \<open>prev\<close> is the end of the previous one.\<close>

fun validate_observation_order ::
    "alert_backtest_request \<Rightarrow> instant option \<Rightarrow> alert_observation list \<Rightarrow> op_error + unit" where
  "validate_observation_order r prev [] = Inr ()"
| "validate_observation_order r prev (ob # obs) =
     (if ao_window_started_at ob < to_instant (ab_started_at r)
         \<or> ao_window_ended_at ob > to_instant (ab_ended_at r)
         \<or> ao_window_started_at ob \<ge> ao_window_ended_at ob
         \<or> (case prev of None \<Rightarrow> False | Some e \<Rightarrow> ao_window_started_at ob < e)
         \<or> ao_numerator ob < 0 \<or> ao_denominator ob < 0 \<or> ao_numerator ob > ao_denominator ob
      then Inl (contract_error ''backtest_observation_invalid'')
      else validate_observation_order r (Some (ao_window_ended_at ob)) obs)"

definition exclusion :: "alert_observation \<Rightarrow> alert_backtest_request \<Rightarrow> excluded_reason option" where
  "exclusion ob r =
     (if ao_denominator ob = 0 then Some ZeroDenominator
      else if ao_denominator ob < ab_minimum_denominator r then Some BelowMinimumDenominator
      else if \<not> ao_complete ob then Some IncompleteWindow
      else None)"

text \<open>
  The rate of a window. The quotient of a checked observation is between 0 and 1, so
  \<open>quantize\<close> never raises there; a result it cannot represent is \<open>None\<close>.
\<close>

definition window_value :: "alert_observation \<Rightarrow> decimal option" where
  "window_value ob = quantize 6 (dec_div (ao_numerator ob) (ao_denominator ob))"

definition exceeds :: "alert_comparator \<Rightarrow> decimal \<Rightarrow> decimal \<Rightarrow> bool" where
  "exceeds cmp v t = (case cmp of GREATER_THAN \<Rightarrow> dec_lt t v | GREATER_THAN_OR_EQUAL \<Rightarrow> dec_le t v)"

definition evaluate_window ::
    "alert_backtest_request \<Rightarrow> alert_observation \<Rightarrow> op_error + alert_window_result" where
  "evaluate_window r ob =
     (let excluded = exclusion ob r in
      rbind (case excluded of
               Some _ \<Rightarrow> Inr None
             | None \<Rightarrow> (case window_value ob of None \<Rightarrow> Inl InvalidOperation | Some v \<Rightarrow> Inr (Some v))) (\<lambda>value.
      construct valid_alert_window_result
        \<lparr>aw_window_started_at = ao_window_started_at ob, aw_window_ended_at = ao_window_ended_at ob,
         aw_numerator = ao_numerator ob, aw_denominator = ao_denominator ob,
         aw_normalized_value = value, aw_complete = ao_complete ob, aw_excluded_reason = excluded,
         aw_hit = (case value of None \<Rightarrow> False
                   | Some v \<Rightarrow> exceeds (ab_comparator r) v (ab_threshold r))\<rparr>))"

fun evaluate_windows ::
    "alert_backtest_request \<Rightarrow> alert_observation list \<Rightarrow> op_error + alert_window_result list" where
  "evaluate_windows r [] = Inr []"
| "evaluate_windows r (ob # obs) =
     rbind (evaluate_window r ob) (\<lambda>w. rbind (evaluate_windows r obs) (\<lambda>ws. Inr (w # ws)))"

definition run_backtest ::
    "externals \<Rightarrow> (alert_metric \<Rightarrow> metric_definition) \<Rightarrow> (alert_backtest_query \<Rightarrow> alert_observation list)
       \<Rightarrow> alert_backtest_request \<Rightarrow> op_error + alert_backtest_snapshot" where
  "run_backtest X resolve observe r =
     (let definition' = resolve (ab_metric r) in
      if md_revision definition' \<noteq> ab_metric_revision r
      then Inl (contract_error ''metric_revision_mismatch'')
      else if ab_grain r \<notin> set (md_allowed_grains definition')
      then Inl (contract_error ''metric_grain_forbidden'')
      else
        let observations = observe \<lparr>aq_definition = definition', aq_request = r\<rparr> in
        rbind (validate_observation_order r None observations) (\<lambda>_.
        rbind (evaluate_windows r observations) (\<lambda>windows.
        rbind (rule_spec_sha256 X r) (\<lambda>digest.
        rbind (construct valid_alert_backtest_ref
                 \<lparr>backtest_id = x_uuid5 X (''alert-backtest:'' @ digest), rule_spec_digest = digest\<rparr>) (\<lambda>ref.
        construct valid_alert_backtest_snapshot
          \<lparr>as_backtest_ref = ref, as_request = r, as_windows = windows,
           as_completed_at = ab_ended_at r\<rparr>)))))"

subsection \<open>The in-memory registry\<close>

type_synonym backtest_registry = "uuid \<rightharpoonup> alert_backtest_snapshot"

definition add_backtest :: "alert_backtest_snapshot \<Rightarrow> backtest_registry \<Rightarrow> backtest_registry" where
  "add_backtest s reg = reg(backtest_id (as_backtest_ref s) \<mapsto> s)"

definition init_registry :: "alert_backtest_snapshot list \<Rightarrow> backtest_registry" where
  "init_registry ss = fold add_backtest ss Map.empty"

definition resolve_backtest :: "backtest_registry \<Rightarrow> alert_backtest_ref \<Rightarrow> alert_backtest_snapshot option" where
  "resolve_backtest reg ref = reg (backtest_id ref)"

subsection \<open>Digits\<close>

lemma digit_count_bounds:
  assumes "0 < c"
  shows "10 ^ (digit_count c - 1) \<le> c" "c < 10 ^ digit_count c" "0 < digit_count c"
proof -
  have "10 ^ (digit_count c - 1) \<le> c \<and> c < 10 ^ digit_count c \<and> 0 < digit_count c"
    using assms
  proof (induction c rule: show_nat.induct)
    case (1 n)
    show ?case
    proof (cases "n < 10")
      case True
      with 1(2) show ?thesis by (simp add: digit_count_def show_nat.simps [of n])
    next
      case False
      then have ih: "10 ^ (digit_count (n div 10) - 1) \<le> n div 10" "n div 10 < 10 ^ digit_count (n div 10)"
        "0 < digit_count (n div 10)" using 1 by (auto simp: pos_imp_zdiv_pos_iff)
      have dc: "digit_count n = Suc (digit_count (n div 10))"
        using False by (simp add: digit_count_def show_nat.simps [of n])
      have "10 ^ digit_count (n div 10) = 10 * (10::int) ^ (digit_count (n div 10) - 1)"
        using ih(3) by (metis Suc_diff_1 power_Suc)
      then have "10 ^ digit_count (n div 10) \<le> n" using ih(1) by linarith
      moreover have "n < 10 * 10 ^ digit_count (n div 10)" using ih(2) by linarith
      ultimately show ?thesis by (simp add: dc)
    qed
  qed
  then show "10 ^ (digit_count c - 1) \<le> c" "c < 10 ^ digit_count c" "0 < digit_count c" by simp_all
qed

lemma digit_count_le:
  assumes "0 \<le> c" "c < 10 ^ k" "0 < k"
  shows "digit_count c \<le> k"
proof (cases "c = 0")
  case True
  with assms show ?thesis by (simp add: digit_count_def show_nat.simps [of 0])
next
  case False
  then have "10 ^ (digit_count c - 1) < (10::int) ^ k"
    using digit_count_bounds(1) [of c] assms by linarith
  then have "digit_count c - 1 < k" by (rule power_less_imp_less_exp [rotated]) simp
  then show ?thesis by simp
qed

subsection \<open>Half-even rounding\<close>

lemma half_unit: "2 * \<bar>x\<bar> \<le> (d :: int) \<Longrightarrow> \<bar>x\<bar> \<le> d \<and> - d \<le> 2 * x \<and> 2 * x \<le> d"
  by linarith

text \<open>A rounding lies within half a unit, and depends only on how twice the value compares with
  the odd multiples of the divisor.\<close>

lemma div_half_even_split:
  assumes "0 \<le> r" "r < d"
  shows "div_half_even (q * d + r) d = (if 2 * r < d \<or> 2 * r = d \<and> even q then q else q + 1)"
proof -
  have "(q * d + r) div d = q" "(q * d + r) mod d = r" using assms by simp_all
  then show ?thesis by (simp add: div_half_even_def Let_def)
qed

lemma div_splitE:
  assumes "0 < (d :: int)"
  obtains q r where "n = q * d + r" "0 \<le> r" "r < d"
  by (rule that [of "n div d" "n mod d"]) (use assms in simp_all)

lemma div_half_even_near:
  assumes "0 < d"
  shows "2 * \<bar>div_half_even n d * d - n\<bar> \<le> d"
proof -
  obtain q r where n: "n = q * d + r" and r: "0 \<le> r" "r < d" using div_splitE [OF assms] .
  have "(q + 1) * d = q * d + d" by (simp add: algebra_simps)
  then show ?thesis unfolding n div_half_even_split [OF r] using r by auto
qed

lemma div_half_even_cong:
  assumes d: "0 < d" "0 < e"
    and s: "\<And>m. (2 * n < (2 * m + 1) * d \<longleftrightarrow> 2 * k < (2 * m + 1) * e) \<and> (2 * n = (2 * m + 1) * d \<longleftrightarrow> 2 * k = (2 * m + 1) * e)"
  shows "div_half_even n d = div_half_even k e"
proof -
  have uniq: "div_half_even x y = q"
    if y: "0 < y" and lo: "(2 * q - 1) * y \<le> 2 * x" and hi: "2 * x \<le> (2 * q + 1) * y"
      and tlo: "2 * x = (2 * q - 1) * y \<Longrightarrow> even q" and thi: "2 * x = (2 * q + 1) * y \<Longrightarrow> even q" for x y q :: int
  proof -
    obtain p r where x: "x = p * y + r" and r: "0 \<le> r" "r < y" using div_splitE [OF y] .
    have b: "2 * (q * y) \<le> 2 * (p * y) + 2 * r + y" "2 * (p * y) + 2 * r \<le> 2 * (q * y) + y"
      using lo hi unfolding x by (simp_all add: algebra_simps)
    have "(p - q) * y < 1 * y" "(q - p) * y < 2 * y" using b r y by (simp_all add: algebra_simps)
    then have "p - q < 1" "q - p < 2" using y by (simp_all only: mult_less_cancel_right_pos)
    then have "p = q \<or> p = q - 1" by linarith
    then show ?thesis
    proof
      assume p: "p = q"
      then have "2 * r \<le> y" using b by simp
      moreover have "2 * r = y \<Longrightarrow> even q"
        using thi unfolding x p by (simp add: algebra_simps)
      ultimately show ?thesis unfolding x div_half_even_split [OF r] using p by auto
    next
      assume p: "p = q - 1"
      then have "p * y = q * y - y" by (simp add: left_diff_distrib)
      then have "y \<le> 2 * r" using b by linarith
      moreover have "2 * r = y \<Longrightarrow> even q"
        using tlo unfolding x p by (simp add: algebra_simps)
      ultimately show ?thesis unfolding x div_half_even_split [OF r] using p by auto
    qed
  qed
  define q where "q = div_half_even k e"
  have near: "2 * \<bar>q * e - k\<bar> \<le> e" unfolding q_def by (rule div_half_even_near [OF d(2)])
  have le: "(2 * q - 1) * e \<le> 2 * k" "2 * k \<le> (2 * q + 1) * e" 
  proof -
    have "2 * (q * e) - e \<le> 2 * k \<and> 2 * k \<le> 2 * (q * e) + e"
      using half_unit [OF near] by (simp add: right_diff_distrib)
    then show "(2 * q - 1) * e \<le> 2 * k" "2 * k \<le> (2 * q + 1) * e"
      by (simp_all add: left_diff_distrib distrib_right mult.assoc)
  qed
  have tie: "even q" if "2 * k = (2 * m + 1) * e" "q = m \<or> q = m + 1" for m
  proof -
    have m: "2 * (k - m * e) = e" using that(1) by (simp add: algebra_simps)
    have half: "2 * x = e \<Longrightarrow> 0 \<le> x \<and> x < e" for x using d(2) by linarith
    have r: "0 \<le> k - m * e" "k - m * e < e" using half [OF m] by simp_all
    have "q = (if even m then m else m + 1)"
      using div_half_even_split [OF r, of m] m unfolding q_def by simp
    with that(2) show ?thesis by auto
  qed
  show ?thesis
    unfolding q_def [symmetric]
  proof (rule uniq [OF d(1)])
    show "(2 * q - 1) * d \<le> 2 * n" using s [of "q - 1"] le by (simp add: algebra_simps not_less [symmetric])
    show "2 * n \<le> (2 * q + 1) * d" using s [of q] le by (metis not_less order_le_less)
    show "even q" if "2 * n = (2 * q - 1) * d" using s [of "q - 1"] that tie [of "q - 1"] by (simp add: algebra_simps)
    show "even q" if "2 * n = (2 * q + 1) * d" using s [of q] that tie [of q] by simp
  qed
qed

lemma div_half_even_scale:
  assumes "0 < d" "0 < m"
  shows "div_half_even (n * m) (d * m) = div_half_even n d"
proof (rule div_half_even_cong)
  fix k
  have "2 * (n * m) = (2 * n) * m" "(2 * k + 1) * (d * m) = ((2 * k + 1) * d) * m" by simp_all
  then show "(2 * (n * m) < (2 * k + 1) * (d * m)) = (2 * n < (2 * k + 1) * d)
      \<and> (2 * (n * m) = (2 * k + 1) * (d * m)) = (2 * n = (2 * k + 1) * d)"
    using assms(2) by (metis mult_less_cancel_right_pos mult_right_cancel less_irrefl)
qed (use assms in simp_all)

lemma div_half_even_exact: "0 < m \<Longrightarrow> div_half_even (n * m) m = n"
  by (simp add: div_half_even_def)
subsection \<open>The rate is rounded once\<close>

lemma strip_zeros_props:
  assumes "strip_zeros c e = (c', e')" "e \<le> 0"
  shows "e \<le> e' \<and> e' \<le> 0 \<and> c = c' * 10 ^ nat (e' - e) \<and> (e' = 0 \<or> c' mod 10 \<noteq> 0)"
  using assms
proof (induction c e rule: strip_zeros.induct)
  case (1 c e)
  show ?case
  proof (cases "e < 0 \<and> c mod 10 = 0")
    case True
    then have "strip_zeros (c div 10) (e + 1) = (c', e')" using 1(2) by (simp add: strip_zeros.simps [of c])
    with True 1(1) have ih: "e + 1 \<le> e'" "e' \<le> 0" "c div 10 = c' * 10 ^ nat (e' - (e + 1))"
      "e' = 0 \<or> c' mod 10 \<noteq> 0" by auto
    have "nat (e' - e) = Suc (nat (e' - (e + 1)))" using ih(1) by simp
    moreover have "c = 10 * (c div 10)" using True by auto
    ultimately show ?thesis using ih by simp
  next
    case False
    then have "strip_zeros c e = (c, e)" by (subst strip_zeros.simps) (rule if_not_P)
    with False 1(2,3) show ?thesis by auto
  qed
qed

text \<open>Rounding a coefficient of at most one to 28 digits: at most half a unit, 27 places are left.\<close>

lemma dec_fix_long:
  assumes c: "0 < c" "c \<le> 10 ^ k" and long: "28 < digit_count c"
  obtains c' j where "dec_fix False c (- int k) = Dec False c' (- int (k - j))" "1 \<le> j" "j + 27 \<le> k"
    "2 * \<bar>c' * 10 ^ j - c\<bar> \<le> 10 ^ j" "0 \<le> c'"
proof -
  define j where "j = digit_count c - 28"
  have dc: "digit_count c = j + 28" using long by (simp add: j_def)
  have lo: "10 ^ (j + 27) \<le> c" using digit_count_bounds(1) [OF c(1)] dc by (simp add: add.commute)
  then have "(10::int) ^ (j + 27) \<le> 10 ^ k" using c(2) by linarith
  then have jk: "j + 27 \<le> k" using power_increasing_iff [of "10::int"] by simp
  define q where "q = div_half_even c (10 ^ j)"
  have near: "2 * \<bar>q * 10 ^ j - c\<bar> \<le> 10 ^ j" unfolding q_def by (rule div_half_even_near) simp
  have q0: "0 \<le> q" unfolding q_def by (rule div_half_even_nonneg) (use c in simp_all)
  have j1: "1 \<le> j" using long by (simp add: j_def)
  show ?thesis
  proof (cases "q = prec_limit")
    case False
    then have "dec_fix False c (- int k) = Dec False q (- int (k - j))"
      using long jk by (simp add: dec_fix_def Let_def j_def [symmetric] q_def [symmetric])
    then show ?thesis by (rule that [OF _ j1 jk near q0])
  next
    case True
    have "k \<noteq> j + 27"
    proof
      assume "k = j + 27"
      with c(2) lo have "c = 10 ^ 27 * 10 ^ j" by (simp add: power_add)
      then have "q = 10 ^ 27" unfolding q_def by (simp only: div_half_even_exact [of "10 ^ j"] zero_less_power zero_less_numeral)
      with True show False by (simp add: prec_limit_def)
    qed
    with jk have jk': "Suc j + 27 \<le> k" by simp
    have fx: "dec_fix False c (- int k) = Dec False (10 ^ 27) (- int (k - Suc j))"
      using long jk' True by (simp add: dec_fix_def Let_def j_def [symmetric] q_def [symmetric] prec_limit_def)
    have "(10::int) ^ 27 * 10 ^ Suc j = q * 10 ^ j" using True by (simp add: prec_limit_def)
    moreover have "(10::int) ^ j \<le> 10 ^ Suc j" by simp
    ultimately have "2 * \<bar>10 ^ 27 * 10 ^ Suc j - c\<bar> \<le> 10 ^ Suc j" using near by (simp only:)
    then show ?thesis by (intro that [OF fx _ jk']) simp_all
  qed
qed

lemma abs_times: "(a :: int) * b = c * d \<Longrightarrow> 0 < b \<Longrightarrow> 0 < d \<Longrightarrow> \<bar>a\<bar> * b = \<bar>c\<bar> * d"
  by (metis abs_mult abs_of_pos)

lemma dec_fix_short: "digit_count c \<le> 28 \<Longrightarrow> dec_fix s c e = Dec s c e"
  by (simp add: dec_fix_def)

text \<open>
  The quotient of a ratio: exact, or within one unit of a coefficient with at least 27 places,
  and exact whenever seven places are enough.
\<close>

lemma dec_div_ratio:
  assumes n: "0 \<le> n" "n \<le> d" "0 < d"
  obtains c k where "dec_div n d = Dec False c (- int k)" "0 \<le> c"
    "c * d = n * 10 ^ k \<or> \<bar>c * d - n * 10 ^ k\<bar> \<le> d \<and> 27 \<le> k \<and> \<not> d dvd n * 10 ^ 7"
proof (cases "n = 0")
  case True
  then show ?thesis using n by (intro that [of 0 0]) (simp_all add: dec_div_def)
next
  case False
  then have n0: "0 < n" using n by simp
  define ln ld where "ln = digit_count n" and "ld = digit_count d"
  have bn: "10 ^ (ln - 1) \<le> n" "n < 10 ^ ln" "0 < ln" using digit_count_bounds [OF n0] by (simp_all add: ln_def)
  have bd: "10 ^ (ld - 1) \<le> d" "d < 10 ^ ld" "0 < ld" using digit_count_bounds [OF n(3)] by (simp_all add: ld_def)
  have "(10::int) ^ (ln - 1) < 10 ^ ld" using bn bd n by linarith
  then have "ln - 1 < ld" by (rule power_less_imp_less_exp [rotated]) simp
  then have lnd: "ln \<le> ld" by simp
  define sh where "sh = ld + 29 - ln"
  have sh: "int ld - int ln + 29 = int sh" "29 \<le> sh" using lnd by (simp_all add: sh_def)
  define m where "m = n * 10 ^ sh"
  have m0: "0 < m" using n0 by (simp add: m_def)
  have div_eq: "dec_div n d =
      (if m mod d \<noteq> 0 then dec_fix False (if (m div d) mod 5 = 0 then m div d + 1 else m div d) (- int sh)
       else (let (c, e) = strip_zeros (m div d) (- int sh) in dec_fix False c e))"
    using n n0 sh(1) by (simp add: dec_div_def ln_def ld_def m_def Let_def)
  have mle: "m \<le> d * 10 ^ sh" using n by (simp add: m_def)
  have big: "10 ^ 28 * d \<le> m"
  proof -
    have e: "ln - 1 + sh = ld + 28" using bn(3) lnd by (simp add: sh_def)
    have "10 ^ 28 * d \<le> 10 ^ 28 * 10 ^ ld" using bd by simp
    also have "\<dots> = 10 ^ (ln - 1) * 10 ^ sh" unfolding power_add [symmetric] e by (simp add: add.commute)
    also have "\<dots> \<le> n * 10 ^ sh" using bn(1) by (rule mult_right_mono) simp
    finally show ?thesis by (simp add: m_def)
  qed
  show ?thesis
  proof (cases "m mod d = 0")
    case True
    define q where "q = m div d"
    have q: "m = q * d" using True unfolding q_def by (metis add.right_neutral div_mult_mod_eq)
    have q0: "0 < q" using m0 n(3) unfolding q by (simp add: zero_less_mult_iff)
    obtain c e where st: "strip_zeros q (- int sh) = (c, e)" by fastforce
    note sp = strip_zeros_props [OF st]
    define k where "k = nat (- e)"
    have ek: "e = - int k" and ksh: "k \<le> sh" using sp by (auto simp: k_def)
    have qc: "q = c * 10 ^ (sh - k)" using sp ek ksh by (simp add: nat_diff_distrib)
    have c0: "0 < c" using q0 qc by (simp add: zero_less_mult_iff)
    have p: "(10::int) ^ sh = 10 ^ k * 10 ^ (sh - k)" using ksh by (simp add: power_add [symmetric])
    have "c * d * 10 ^ (sh - k) = n * 10 ^ k * 10 ^ (sh - k)"
      using q unfolding m_def qc p by (simp add: algebra_simps)
    then have cd: "c * d = n * 10 ^ k" by simp
    then have "c * d \<le> 10 ^ k * d" using n by simp
    then have ck: "c \<le> 10 ^ k" using n(3) by simp
    have dv: "dec_div n d = dec_fix False c (- int k)"
      using True st by (simp add: div_eq q_def [symmetric] ek)
    show ?thesis
    proof (cases "28 < digit_count c")
      case False
      then show ?thesis using dv cd c0 by (intro that [of c k]) (simp_all add: dec_fix_short)
    next
      case long: True
      obtain c' j where f: "dec_fix False c (- int k) = Dec False c' (- int (k - j))" "1 \<le> j" "j + 27 \<le> k"
        "2 * \<bar>c' * 10 ^ j - c\<bar> \<le> 10 ^ j" "0 \<le> c'" using dec_fix_long [OF c0 ck long] .
      have p: "(10::int) ^ k = 10 ^ (k - j) * 10 ^ j" using f(3) by (simp add: power_add [symmetric])
      have "c' * 10 ^ j * d - c * d = (c' * d - n * 10 ^ (k - j)) * 10 ^ j"
        unfolding cd p by (simp add: algebra_simps)
      then have "(c' * d - n * 10 ^ (k - j)) * 10 ^ j = (c' * 10 ^ j - c) * d"
        by (simp add: left_diff_distrib)
      then have "2 * \<bar>c' * d - n * 10 ^ (k - j)\<bar> * 10 ^ j = 2 * \<bar>c' * 10 ^ j - c\<bar> * d"
        using n(3) abs_times [of "c' * d - n * 10 ^ (k - j)" "10 ^ j" "c' * 10 ^ j - c" d] by simp
      also have "\<dots> \<le> 10 ^ j * d" using f(4) n(3) by (intro mult_right_mono) simp_all
      finally have "2 * \<bar>c' * d - n * 10 ^ (k - j)\<bar> \<le> d" by (simp add: mult.commute)
      then have err: "\<bar>c' * d - n * 10 ^ (k - j)\<bar> \<le> d" by (rule half_unit [THEN conjunct1])
      have nd: "\<not> d dvd n * 10 ^ 7"
      proof
        assume "d dvd n * 10 ^ 7"
        then obtain r where r: "n * 10 ^ 7 = d * r" ..
        have k7: "k = 7 + (k - 7)" using f(3) by simp
        have "c * d = r * 10 ^ (k - 7) * d" using cd r by (subst (asm) k7) (simp add: power_add algebra_simps)
        then have "c = r * 10 ^ (k - 7)" using n(3) by simp
        moreover have "k - 7 = Suc (k - 8)" using f(3) by simp
        ultimately have "c mod 10 = 0" by simp
        moreover have "e \<noteq> 0" using ek f(3) by simp
        ultimately show False using sp by simp
      qed
      have "27 \<le> k - j" using f(3) by simp
      with err nd show ?thesis using dv f(1,5) by (intro that [of c' "k - j"]) simp_all
    qed
  next
    case False
    define q where "q = m div d"
    define c where "c = (if q mod 5 = 0 then q + 1 else q)"
    have qm: "q * d < m" "m < (q + 1) * d"
    proof -
      have "m = q * d + m mod d" "0 \<le> m mod d" "m mod d < d" using n(3) by (simp_all add: q_def)
      with False show "q * d < m" "m < (q + 1) * d" by (simp_all add: distrib_right)
    qed
    have cq: "q \<le> c" "c \<le> q + 1" by (simp_all add: c_def)
    have "10 ^ 28 * d < (q + 1) * d" using big qm by linarith
    then have q28: "10 ^ 28 \<le> q" using n(3) by simp
    have "q * d < 10 ^ sh * d" using qm(1) mle by (simp add: mult.commute)
    then have qsh: "q < 10 ^ sh" using n(3) by simp
    have "(0::int) < 10 ^ 28" by simp
    then have c0: "0 < c" using cq(1) q28 by (meson less_le_trans)
    have csh: "c \<le> 10 ^ sh" using cq qsh by linarith
    have long: "28 < digit_count c"
    proof (rule ccontr)
      assume "\<not> 28 < digit_count c"
      then have "(10::int) ^ digit_count c \<le> 10 ^ 28" by (intro power_increasing) simp_all
      then show False using digit_count_bounds(2) [OF c0] q28 cq by linarith
    qed
    have near: "\<bar>c * d - m\<bar> \<le> d"
    proof (rule abs_leI)
      have "q * d \<le> c * d" "c * d \<le> (q + 1) * d" using cq n(3) by (intro mult_right_mono; simp)+
      moreover have "(q + 1) * d = q * d + d" by (simp add: distrib_right)
      ultimately have "c * d - m \<le> d \<and> - (c * d - m) \<le> d" using qm by linarith
      then show "c * d - m \<le> d" "- (c * d - m) \<le> d" by blast+
    qed
    have dv: "dec_div n d = dec_fix False c (- int sh)" using False by (simp add: div_eq c_def q_def)
    obtain c' j where f: "dec_fix False c (- int sh) = Dec False c' (- int (sh - j))" "1 \<le> j" "j + 27 \<le> sh"
      "2 * \<bar>c' * 10 ^ j - c\<bar> \<le> 10 ^ j" "0 \<le> c'" using dec_fix_long [OF c0 csh long] .
    have p: "(10::int) ^ sh = 10 ^ (sh - j) * 10 ^ j" using f(3) by (simp add: power_add [symmetric])
    have e: "(c' * d - n * 10 ^ (sh - j)) * 10 ^ j = (c' * 10 ^ j - c) * d + (c * d - m)"
      unfolding m_def p by (simp add: algebra_simps)
    have "2 * \<bar>c' * 10 ^ j - c\<bar> * d \<le> 10 ^ j * d" using f(4) n(3) by (intro mult_right_mono) simp_all
    then have "2 * \<bar>(c' * 10 ^ j - c) * d\<bar> \<le> 10 ^ j * d" using n(3) by (simp add: abs_mult mult.assoc)
    moreover have "2 * d \<le> 10 ^ j * d"
      using f(2) n(3) power_increasing [of 1 j "10::int"] by (intro mult_right_mono) simp_all
    ultimately have "\<bar>(c' * d - n * 10 ^ (sh - j)) * 10 ^ j\<bar> \<le> 10 ^ j * d" using near unfolding e by linarith
    then have err: "\<bar>c' * d - n * 10 ^ (sh - j)\<bar> \<le> d" by (simp add: abs_mult mult.commute)
    have nd: "\<not> d dvd n * 10 ^ 7"
    proof
      assume "d dvd n * 10 ^ 7"
      then have "d dvd n * 10 ^ 7 * 10 ^ (sh - 7)" by simp
      moreover have "n * 10 ^ 7 * 10 ^ (sh - 7) = m"
      proof -
        have "(10::int) ^ sh = 10 ^ 7 * 10 ^ (sh - 7)"
          using sh(2) unfolding power_add [symmetric] by simp
        then show ?thesis unfolding m_def by (simp only: mult.assoc)
      qed
      ultimately show False using False by (simp add: dvd_imp_mod_0)
    qed
    have "27 \<le> sh - j" using f(3) by simp
    with err nd show ?thesis using dv f(1,5) by (intro that [of c' "sh - j"]) simp_all
  qed
qed

text \<open>A value that close to the ratio lies on the same side of every half unit.\<close>

lemma side_of_half:
  fixes c d n m :: int
  assumes d: "0 < d" "d \<le> 10 ^ 20"
    and near: "c * d = n * 10 ^ k \<or> \<bar>c * d - n * 10 ^ k\<bar> \<le> d \<and> 27 \<le> k \<and> \<not> d dvd n * 10 ^ 7"
  shows "(2 * (c * 10 ^ 6) < (2 * m + 1) * 10 ^ k \<longleftrightarrow> 2 * (n * 10 ^ 6) < (2 * m + 1) * d)
    \<and> (2 * (c * 10 ^ 6) = (2 * m + 1) * 10 ^ k \<longleftrightarrow> 2 * (n * 10 ^ 6) = (2 * m + 1) * d)"
proof -
  define a b where "a = 2 * (c * 10 ^ 6) - (2 * m + 1) * 10 ^ k" and "b = 2 * (n * 10 ^ 6) - (2 * m + 1) * d"
  define g where "g = c * d - n * 10 ^ k"
  have ab: "a * d = b * 10 ^ k + 2000000 * g"
    by (simp add: a_def b_def g_def algebra_simps)
  have p: "(0::int) < 10 ^ k" by simp
  have sgn: "(a < 0 \<longleftrightarrow> b < 0) \<and> (a = 0 \<longleftrightarrow> b = 0)"
  proof (cases "g = 0")
    case True
    then have "a * d = b * 10 ^ k" using ab by simp
    then show ?thesis using d p by (metis mult_less_0_iff mult_eq_0_iff less_irrefl not_less_iff_gr_or_eq)
  next
    case False
    then have g: "\<bar>g\<bar> \<le> d" "27 \<le> k" "\<not> d dvd n * 10 ^ 7" using near by (auto simp: g_def)
    have b0: "b \<noteq> 0"
    proof
      assume "b = 0"
      then have "n * 10 ^ 7 = d * (5 * (2 * m + 1))" by (simp add: b_def algebra_simps)
      then show False using g(3) by (metis dvd_triv_left)
    qed
    have "(10::int) ^ 27 \<le> 10 ^ k" using g(2) by (intro power_increasing) simp_all
    then have k27: "2000000 * \<bar>g\<bar> < 10 ^ k" using g(1) d(2) by simp
    consider "1 \<le> b" | "b \<le> -1" using b0 by linarith
    then show ?thesis
    proof cases
      case 1
      then have "1 * 10 ^ k \<le> b * 10 ^ k" by (intro mult_right_mono) simp_all
      then have "0 < a * d" using ab k27 by linarith
      then have "0 < a" using d(1) by (simp add: zero_less_mult_iff)
      with 1 show ?thesis by simp
    next
      case 2
      then have "b * 10 ^ k \<le> -1 * 10 ^ k" by (intro mult_right_mono) simp_all
      then have "a * d < 0" using ab k27 by linarith
      then have "a < 0" using d(1) by (simp add: mult_less_0_iff)
      with 2 show ?thesis by simp
    qed
  qed
  then show ?thesis by (simp add: a_def b_def)
qed

lemma quantize_six:
  assumes "0 \<le> c" "div_half_even (c * 10 ^ 6) (10 ^ k) < prec_limit"
  shows "quantize 6 (Dec False c (- int k)) = Some (Dec False (div_half_even (c * 10 ^ 6) (10 ^ k)) (- 6))"
proof (cases "k \<le> 6")
  case True
  then have "c * 10 ^ 6 = (c * 10 ^ (6 - k)) * (10 ^ k)" by (simp add: mult.assoc power_add [symmetric])
  then have "div_half_even (c * 10 ^ 6) (10 ^ k) = c * 10 ^ (6 - k)"
    by (metis div_half_even_exact zero_less_power zero_less_numeral)
  moreover have "nat (6 - int k) = 6 - k" by simp
  ultimately show ?thesis using True assms(2) by (simp add: quantize_def)
next
  case False
  then have "k = k - 6 + 6" by simp
  then have "(10::int) ^ k = 10 ^ (k - 6) * 10 ^ 6" by (metis power_add)
  then have "div_half_even (c * 10 ^ 6) (10 ^ k) = div_half_even c (10 ^ (k - 6))"
    by (simp only: div_half_even_scale zero_less_power zero_less_numeral)
  moreover have "nat (- 6 + int k) = k - 6" "nat (int k - 6) = k - 6" using False by simp_all
  ultimately show ?thesis using False assms(2) by (simp add: quantize_def)
qed

text \<open>The rate of a window in millionths, rounded once.\<close>

definition micro_rate :: "int \<Rightarrow> int \<Rightarrow> int" where
  "micro_rate n d = div_half_even (n * 1000000) d"

lemma micro_rate_range: "0 \<le> n \<Longrightarrow> n \<le> d \<Longrightarrow> 0 < d \<Longrightarrow> 0 \<le> micro_rate n d \<and> micro_rate n d \<le> 1000000"
  by (simp add: micro_rate_def div_half_even_nonneg div_half_even_le)

lemma rate_rounds_once:
  assumes "0 \<le> n" "n \<le> d" "0 < d" "d \<le> 10 ^ 20"
  shows "quantize 6 (dec_div n d) = Some (Dec False (micro_rate n d) (- 6))"
proof -
  obtain c k where q: "dec_div n d = Dec False c (- int k)" "0 \<le> c"
    "c * d = n * 10 ^ k \<or> \<bar>c * d - n * 10 ^ k\<bar> \<le> d \<and> 27 \<le> k \<and> \<not> d dvd n * 10 ^ 7"
    using dec_div_ratio [OF assms(1-3)] .
  have eq: "div_half_even (c * 10 ^ 6) (10 ^ k) = div_half_even (n * 10 ^ 6) d"
    by (rule div_half_even_cong) (use assms(3) side_of_half [OF assms(3,4) q(3)] in simp_all)
  have "div_half_even (n * 10 ^ 6) d < prec_limit"
    using micro_rate_range [OF assms(1-3)] by (simp add: micro_rate_def prec_limit_def)
  then show ?thesis using quantize_six [of c k] q(1,2) eq by (simp add: micro_rate_def)
qed
subsection \<open>What a backtest returns\<close>

lemma validate_order_Inr:
  "validate_observation_order r prev obs = Inr () \<longleftrightarrow>
     (\<forall>ob \<in> set obs. to_instant (ab_started_at r) \<le> ao_window_started_at ob
        \<and> ao_window_started_at ob < ao_window_ended_at ob
        \<and> ao_window_ended_at ob \<le> to_instant (ab_ended_at r)
        \<and> 0 \<le> ao_numerator ob \<and> ao_numerator ob \<le> ao_denominator ob)
     \<and> sorted_wrt (\<lambda>a b. ao_window_ended_at a \<le> ao_window_started_at b) obs
     \<and> (case prev of None \<Rightarrow> True | Some e \<Rightarrow> \<forall>ob \<in> set obs. e \<le> ao_window_started_at ob)"
proof (induction obs arbitrary: prev)
  case Nil
  then show ?case by (simp split: option.split)
next
  case (Cons ob obs)
  have later: "e \<le> ao_window_started_at x"
    if "e \<le> ao_window_started_at ob" "ao_window_started_at ob < ao_window_ended_at ob"
      "ao_window_ended_at ob \<le> ao_window_started_at x" for e x
    using that by linarith
  show ?case
    by (cases prev) (auto simp: Cons.IH not_less not_le intro: later)
qed

lemma ratio6_micro: "0 \<le> n \<Longrightarrow> n \<le> d \<Longrightarrow> 0 < d \<Longrightarrow> ratio6 (Dec False (micro_rate n d) (- 6))"
  using micro_rate_range [of n d]
  by (simp add: ratio6_def dec_le_Dec scaled_def signed_def fits_places_def dec_zero_def dec_one_def)

text \<open>The eligible windows, and their evaluation.\<close>

definition eligible :: "alert_backtest_request \<Rightarrow> alert_observation \<Rightarrow> bool" where
  "eligible r ob \<longleftrightarrow> ao_denominator ob \<noteq> 0 \<and> ab_minimum_denominator r \<le> ao_denominator ob \<and> ao_complete ob"

lemma exclusion_None: "exclusion ob r = None \<longleftrightarrow> eligible r ob"
  by (auto simp: exclusion_def eligible_def)

definition expected_window :: "alert_backtest_request \<Rightarrow> alert_observation \<Rightarrow> alert_window_result" where
  "expected_window r ob =
     (let rate = Dec False (micro_rate (ao_numerator ob) (ao_denominator ob)) (- 6) in
      \<lparr>aw_window_started_at = ao_window_started_at ob, aw_window_ended_at = ao_window_ended_at ob,
       aw_numerator = ao_numerator ob, aw_denominator = ao_denominator ob,
       aw_normalized_value = (if eligible r ob then Some rate else None),
       aw_complete = ao_complete ob, aw_excluded_reason = exclusion ob r,
       aw_hit = (eligible r ob \<and> exceeds (ab_comparator r) rate (ab_threshold r))\<rparr>)"

lemma evaluate_window_eq:
  assumes "0 \<le> ao_numerator ob" "ao_numerator ob \<le> ao_denominator ob" "ao_denominator ob \<le> 10 ^ 20"
  shows "evaluate_window r ob = Inr (expected_window r ob)"
proof (cases "eligible r ob")
  case True
  then have d: "0 < ao_denominator ob" using assms by (auto simp: eligible_def)
  have "window_value ob = Some (Dec False (micro_rate (ao_numerator ob) (ao_denominator ob)) (- 6))"
    unfolding window_value_def by (rule rate_rounds_once [OF assms(1,2) d assms(3)])
  moreover have "exclusion ob r = None" using True by (simp add: exclusion_None)
  ultimately show ?thesis
    using True assms ratio6_micro [OF assms(1,2) d]
    by (simp add: evaluate_window_def expected_window_def Let_def construct_def valid_alert_window_result_def)
next
  case False
  then obtain x where "exclusion ob r = Some x" using exclusion_None [of ob r] by (cases "exclusion ob r") auto
  then show ?thesis
    using False assms
    by (simp add: evaluate_window_def expected_window_def Let_def construct_def valid_alert_window_result_def)
qed

lemma evaluate_windows_eq:
  "\<forall>ob \<in> set obs. 0 \<le> ao_numerator ob \<and> ao_numerator ob \<le> ao_denominator ob \<and> ao_denominator ob \<le> 10 ^ 20
     \<Longrightarrow> evaluate_windows r obs = Inr (map (expected_window r) obs)"
  by (induction obs) (simp_all add: evaluate_window_eq)
lemma run_backtest_Inr:
  assumes "run_backtest X resolve observe r = Inr s"
  shows "md_revision (resolve (ab_metric r)) = ab_metric_revision r"
    "ab_grain r \<in> set (md_allowed_grains (resolve (ab_metric r)))"
    "validate_observation_order r None (observe \<lparr>aq_definition = resolve (ab_metric r), aq_request = r\<rparr>) = Inr ()"
    "evaluate_windows r (observe \<lparr>aq_definition = resolve (ab_metric r), aq_request = r\<rparr>) = Inr (as_windows s)"
    "as_request s = r" "as_completed_at s = ab_ended_at r"
    "rule_spec_sha256 X r = Inr (rule_spec_digest (as_backtest_ref s))"
    "backtest_id (as_backtest_ref s) = x_uuid5 X (''alert-backtest:'' @ rule_spec_digest (as_backtest_ref s))"
  using assms
  by (auto simp: run_backtest_def Let_def construct_def rbind_Inr_iff split: if_splits)

text \<open>
  A backtest measures its windows exactly. A successful run returns one result per observed
  window, in order: the windows are disjoint, ordered and inside the request, a window is scored
  exactly when it is complete and its denominator is positive and reaches the minimum, its value
  is the rate n / d rounded half-even once to six places (although the code rounds twice, through
  28 digits), and it is a hit exactly when it is scored and that value passes the comparator.
\<close>

theorem backtest_windows_exact:
  assumes "run_backtest X resolve observe r = Inr s"
    and "obs = observe \<lparr>aq_definition = resolve (ab_metric r), aq_request = r\<rparr>"
    and "\<forall>ob \<in> set obs. ao_denominator ob \<le> 10 ^ 20"
  shows "as_windows s = map (expected_window r) obs
    \<and> sorted_wrt (\<lambda>a b. aw_window_ended_at a \<le> aw_window_started_at b) (as_windows s)
    \<and> (\<forall>w \<in> set (as_windows s). to_instant (ab_started_at r) \<le> aw_window_started_at w
         \<and> aw_window_started_at w < aw_window_ended_at w
         \<and> aw_window_ended_at w \<le> to_instant (ab_ended_at r))"
proof -
  note run = run_backtest_Inr [OF assms(1), folded assms(2)]
  note ord = run(3) [unfolded validate_order_Inr]
  have "as_windows s = map (expected_window r) obs"
    using evaluate_windows_eq [of obs r] run(4) ord assms(3) by auto
  with ord show ?thesis by (auto simp: sorted_wrt_map expected_window_def Let_def)
qed

definition sample_backtest :: "decimal \<Rightarrow> alert_backtest_request" where
  "sample_backtest t =
     \<lparr>ab_metric = LATE_DELIVERY_RATE, ab_metric_revision = ''metric.late_delivery_rate.v1'',
      ab_grain = ''global'', ab_window = WEEK, ab_comparator = GREATER_THAN_OR_EQUAL,
      ab_threshold = t, ab_minimum_denominator = 3,
      ab_started_at = Aware (7 * usec_per_day) 0, ab_ended_at = Aware (21 * usec_per_day) 0,
      ab_filter_refs = [''b'', ''a'']\<rparr>"

definition sample_observation :: "int \<Rightarrow> int \<Rightarrow> alert_observation" where
  "sample_observation n d =
     \<lparr>ao_window_started_at = 7 * usec_per_day, ao_window_ended_at = 14 * usec_per_day,
      ao_numerator = n, ao_denominator = d, ao_complete = True\<rparr>"

text \<open>
  two rules, one backtest. Two valid requests whose thresholds differ in the fifth place get
  the same rule digest and so the same backtest id, although the same observation is a hit under
  one and not under the other: the registry keeps only the later of the two.
\<close>

theorem backtest_digest_collision:
  "valid_alert_backtest_request (sample_backtest (Dec False 33331 (- 5)))
   \<and> valid_alert_backtest_request (sample_backtest (Dec False 33334 (- 5)))
   \<and> rule_spec_sha256 X (sample_backtest (Dec False 33331 (- 5)))
     = rule_spec_sha256 X (sample_backtest (Dec False 33334 (- 5)))
   \<and> aw_hit (expected_window (sample_backtest (Dec False 33331 (- 5))) (sample_observation 1 3))
   \<and> \<not> aw_hit (expected_window (sample_backtest (Dec False 33334 (- 5))) (sample_observation 1 3))"
proof -
  have v: "valid_alert_backtest_request (sample_backtest (Dec False 33331 (- 5)))"
    "valid_alert_backtest_request (sample_backtest (Dec False 33334 (- 5)))" by code_simp+
  have "normalized_decimal 4 (Dec False 33331 (- 5)) = normalized_decimal 4 (Dec False 33334 (- 5))"
    by code_simp
  then have "rule_projection (sample_backtest (Dec False 33331 (- 5)))
      = rule_projection (sample_backtest (Dec False 33334 (- 5)))"
    by (simp add: rule_projection_def sample_backtest_def)
  then have d: "rule_spec_sha256 X (sample_backtest (Dec False 33331 (- 5)))
      = rule_spec_sha256 X (sample_backtest (Dec False 33334 (- 5)))" by (simp add: rule_spec_sha256_def)
  have h: "aw_hit (expected_window (sample_backtest (Dec False 33331 (- 5))) (sample_observation 1 3))"
    "\<not> aw_hit (expected_window (sample_backtest (Dec False 33334 (- 5))) (sample_observation 1 3))"
    by code_simp+
  show ?thesis using v d h by simp
qed

lemma sample_run_backtest:
  assumes "hex_digests X"
  shows "run_backtest X metric_definitions (\<lambda>_. [sample_observation 1 3]) (sample_backtest (Dec False 3 (- 1)))
    \<noteq> Inl e"
proof -
  have "is_ok (rbind (rule_projection (sample_backtest (Dec False 3 (- 1)))) canonical_json_bytes)"
    by code_simp
  then obtain p bs where p: "rule_projection (sample_backtest (Dec False 3 (- 1))) = Inr p"
    "canonical_json_bytes p = Inr bs" by (auto simp: is_ok_iff rbind_Inr_iff)
  have d: "rule_spec_sha256 X (sample_backtest (Dec False 3 (- 1))) = Inr (x_sha256 X bs)"
    by (simp add: rule_spec_sha256_def p)
  have v: "valid_alert_backtest_request (sample_backtest (Dec False 3 (- 1)))" by code_simp
  have o: "validate_observation_order (sample_backtest (Dec False 3 (- 1))) None [sample_observation 1 3] = Inr ()"
    by code_simp
  have w: "evaluate_windows (sample_backtest (Dec False 3 (- 1))) [sample_observation 1 3]
      = Inr [expected_window (sample_backtest (Dec False 3 (- 1))) (sample_observation 1 3)]"
    by (subst evaluate_windows_eq) (simp_all add: sample_observation_def)
  have vw: "valid_alert_window_result (expected_window (sample_backtest (Dec False 3 (- 1))) (sample_observation 1 3))"
    by code_simp
  have m: "md_revision (metric_definitions (ab_metric (sample_backtest (Dec False 3 (- 1)))))
      = ab_metric_revision (sample_backtest (Dec False 3 (- 1)))"
    "ab_grain (sample_backtest (Dec False 3 (- 1)))
      \<in> set (md_allowed_grains (metric_definitions (ab_metric (sample_backtest (Dec False 3 (- 1))))))"
    "is_aware (ab_ended_at (sample_backtest (Dec False 3 (- 1))))"
    by (simp_all add: sample_backtest_def is_aware_def)
  show ?thesis
    using assms m
    by (simp add: run_backtest_def Let_def o w d v vw construct_def hex_digests_def
        valid_alert_backtest_ref_def valid_alert_backtest_snapshot_def
        del: validate_observation_order.simps evaluate_windows.simps)
qed

theorem backtest_windows_exact_witness:
  "\<exists>s :: alert_backtest_snapshot. as_windows s = [expected_window (sample_backtest (Dec False 3 (- 1))) (sample_observation 1 3)]
     \<and> aw_hit (hd (as_windows s))
     \<and> aw_normalized_value (hd (as_windows s)) = Some (Dec False 333333 (- 6))"
proof -
  define X where "X = \<lparr>x_sha256 = (\<lambda>_. sample_digest), x_hmac_sha256 = (\<lambda>_ _. sample_digest),
    x_json_datetime = (\<lambda>_. []), x_uuid5 = (\<lambda>_. 7)\<rparr>"
  have "hex64 sample_digest" by code_simp
  then have hx: "hex_digests X" by (simp add: hex_digests_def X_def)
  obtain s where s: "run_backtest X metric_definitions (\<lambda>_. [sample_observation 1 3])
      (sample_backtest (Dec False 3 (- 1))) = Inr s"
    using sample_run_backtest [OF hx] by (metis sum.exhaust)
  have a: "as_windows s = [expected_window (sample_backtest (Dec False 3 (- 1))) (sample_observation 1 3)]"
    using backtest_windows_exact [OF s refl] by (simp add: sample_observation_def)
  have b: "aw_hit (expected_window (sample_backtest (Dec False 3 (- 1))) (sample_observation 1 3))
      \<and> aw_normalized_value (expected_window (sample_backtest (Dec False 3 (- 1))) (sample_observation 1 3))
        = Some (Dec False 333333 (- 6))" by code_simp
  show ?thesis by (rule exI [of _ s]) (simp only: a b list.sel simp_thms)
qed

end
