(* ===== verification/Op_SellerRefs.thy ===== *)
theory Op_SellerRefs
  imports Op_Store
begin

text \<open>
  Evidence-bound opaque seller references (\<open>src/commerce_agent/operations/_seller_refs.py\<close>): a
  token is the urlsafe base64 of a canonical JSON payload, a dot and its HMAC; resolving it checks
  namespace, evidence, signature, canonical form and expiry, and looks the seller up by digest.
  \<open>json.loads\<close> and \<open>datetime.fromisoformat\<close> are the fields of \<open>codecs\<close>; a document of
  \<open>json.loads\<close> is a \<open>pyval\<close> (dicts with distinct keys, floats by \<open>pyfloat\<close>).
\<close>

record codecs =
  py_json_loads :: "bytes \<Rightarrow> pyval option"
  py_fromisoformat :: "string \<Rightarrow> instant option"

subsection \<open>Observations and candidates\<close>

record private_seller_observation =
  po_seller_id :: string
  po_numerator :: int
  po_denominator :: int
  po_normalized_value :: decimal

text \<open>\<open>InMemorySellerIdentityStore\<close> is the tuple of its observations; ordering a NaN raises.\<close>

definition is_candidate :: "seller_target_request \<Rightarrow> private_seller_observation \<Rightarrow> op_error + bool" where
  "is_candidate r ob =
     (if po_denominator ob < st_minimum_denominator r then Inr False
      else case dec_cmp (\<le>) (st_anomaly_threshold r) (po_normalized_value ob) of
          None \<Rightarrow> Inl InvalidOperation
        | Some b \<Rightarrow> Inr b)"

fun find_observations ::
    "seller_target_request \<Rightarrow> private_seller_observation list \<Rightarrow> op_error + private_seller_observation list"
  where
  "find_observations r [] = Inr []"
| "find_observations r (ob # obs) =
     rbind (is_candidate r ob) (\<lambda>b. rbind (find_observations r obs) (\<lambda>rest.
     Inr (if b then ob # rest else rest)))"

definition allowed_identities :: "private_seller_observation list \<Rightarrow> string list" where
  "allowed_identities obs = map po_seller_id obs"

subsection \<open>The keyring\<close>

definition ascii_bytes :: "string \<Rightarrow> bytes" where
  "ascii_bytes s = map (\<lambda>c. of_nat (of_char c)) s"

definition make_seller_keyring :: "(int \<times> bytes) list \<Rightarrow> int \<Rightarrow> op_error + keyring" where
  "make_seller_keyring keys active =
     (if map_of keys active = None \<or> \<not> list_all (\<lambda>kv. snd kv \<noteq> []) keys
      then Inl ValueError
      else Inr \<lparr>kr_keys = map_of keys, active_version = active\<rparr>)"

definition seller_key :: "keyring \<Rightarrow> int \<Rightarrow> op_error + bytes" where
  "seller_key kr v = (case kr_keys kr v of
       None \<Rightarrow> Inl (contract_error ''seller_ref_key_unavailable'')
     | Some key \<Rightarrow> Inr key)"

definition digest_identity :: "externals \<Rightarrow> keyring \<Rightarrow> int \<Rightarrow> string \<Rightarrow> op_error + string" where
  "digest_identity X kr v seller =
     rbind (seller_key kr v) (\<lambda>key. Inr (x_hmac_sha256 X key (ascii_bytes ''identity:'' @ utf8 seller)))"

definition sign_reference :: "externals \<Rightarrow> keyring \<Rightarrow> int \<Rightarrow> bytes \<Rightarrow> op_error + string" where
  "sign_reference X kr v payload =
     rbind (seller_key kr v) (\<lambda>key. Inr (x_hmac_sha256 X key (ascii_bytes ''reference:'' @ payload)))"

definition verify_reference :: "externals \<Rightarrow> keyring \<Rightarrow> int \<Rightarrow> bytes \<Rightarrow> string \<Rightarrow> op_error + bool" where
  "verify_reference X kr v payload signature =
     rbind (sign_reference X kr v payload) (\<lambda>s. Inr (s = signature))"

subsection \<open>Issuing a reference\<close>

definition seller_namespace :: string where "seller_namespace = ''product:seller-target''"

definition seller_payload :: "string \<Rightarrow> string \<Rightarrow> int \<Rightarrow> string \<Rightarrow> pyval" where
  "seller_payload evidence expires version seller_digest =
     PMap [(KStr ''evidence_digest'', PStr evidence), (KStr ''expires_at'', PStr expires),
           (KStr ''key_version'', PInt version), (KStr ''namespace'', PStr seller_namespace),
           (KStr ''schema_version'', PInt 1), (KStr ''seller_digest'', PStr seller_digest)]"

definition issue_seller_ref ::
    "externals \<Rightarrow> keyring \<Rightarrow> string \<Rightarrow> string \<Rightarrow> instant \<Rightarrow> op_error + seller_ref" where
  "issue_seller_ref X kr seller evidence expires_at =
     rbind (utc_z (Aware expires_at 0)) (\<lambda>expires.
     rbind (digest_identity X kr (active_version kr) seller) (\<lambda>sd.
     rbind (canonical_json_bytes (seller_payload evidence expires (active_version kr) sd)) (\<lambda>canonical.
     rbind (sign_reference X kr (active_version kr) canonical) (\<lambda>signature.
     construct valid_seller_ref
       \<lparr>sr_namespace = seller_namespace,
        sr_token = rstrip CHR ''='' (urlsafe_b64encode
          (canonical @ ascii_bytes ''.'' @ ascii_bytes signature))\<rparr>))))"

definition seller_ref_minutes :: int where "seller_ref_minutes = 15"

fun candidate_evidence ::
    "externals \<Rightarrow> keyring \<Rightarrow> instant \<Rightarrow> seller_target_request \<Rightarrow> private_seller_observation list
       \<Rightarrow> op_error + seller_candidate_evidence list" where
  "candidate_evidence X kr expires_at r [] = Inr []"
| "candidate_evidence X kr expires_at r (ob # obs) =
     rbind (issue_seller_ref X kr (po_seller_id ob) (st_evidence_digest r) expires_at) (\<lambda>ref.
     rbind (case quantize 6 (po_normalized_value ob) of None \<Rightarrow> Inl InvalidOperation | Some v \<Rightarrow> Inr v) (\<lambda>value.
     rbind (construct valid_seller_candidate_evidence
       \<lparr>sc_seller_ref = ref, sc_numerator = po_numerator ob, sc_denominator = po_denominator ob,
        sc_normalized_value = value, sc_observation_started_at = st_observation_started_at r,
        sc_observation_ended_at = st_observation_ended_at r,
        sc_evidence_digest = st_evidence_digest r\<rparr>) (\<lambda>c.
     rbind (candidate_evidence X kr expires_at r obs) (\<lambda>cs. Inr (c # cs)))))"

definition find_candidates ::
    "externals \<Rightarrow> keyring \<Rightarrow> instant \<Rightarrow> seller_target_request \<Rightarrow> private_seller_observation list
       \<Rightarrow> op_error + seller_candidate_evidence list" where
  "find_candidates X kr now r obs =
     rbind (find_observations r obs) (\<lambda>found.
     candidate_evidence X kr (now + seller_ref_minutes * usec_per_minute) r found)"

subsection \<open>Decoding a token\<close>

text \<open>\<open>encoded.rsplit(b".", 1)\<close> in two parts; None when there is no dot.\<close>

fun rsplit_dot :: "bytes \<Rightarrow> (bytes \<times> bytes) option" where
  "rsplit_dot [] = None"
| "rsplit_dot (b # bs) = (case rsplit_dot bs of
       Some (l, r) \<Rightarrow> Some (b # l, r)
     | None \<Rightarrow> if b = 46 then Some ([], bs) else None)"

definition decode_ascii :: "bytes \<Rightarrow> string option" where
  "decode_ascii bs = (if list_all (\<lambda>b. unat b < 128) bs then Some (map (\<lambda>b. char_of (unat b)) bs) else None)"

text \<open>
  \<open>int(x)\<close>: a numeric string may have surrounding blanks, a sign and single underscores
  between digits; \<open>int(float("inf"))\<close> raises OverflowError, everything else that has no
  integer a ValueError or TypeError.
\<close>

fun digit_groups :: "string \<Rightarrow> bool" where
  "digit_groups [] = False"
| "digit_groups [c] = is_digit c"
| "digit_groups (c # d # cs) = (if c = CHR ''_'' then False
     else is_digit c \<and> (if d = CHR ''_'' then digit_groups cs else digit_groups (d # cs)))"

definition is_blank :: "char \<Rightarrow> bool" where
  "is_blank c \<longleftrightarrow> (of_char c :: nat) \<in> set ([9..<14] @ [28..<33] @ [133, 160])"

definition strip_blanks :: "string \<Rightarrow> string" where
  "strip_blanks s = rev (dropWhile is_blank (rev (dropWhile is_blank s)))"

definition int_of_string :: "string \<Rightarrow> int option" where
  "int_of_string s =
     (let t = strip_blanks s;
          (sgn', body) = (case t of c # cs \<Rightarrow> if c = CHR ''-'' then (-1, cs)
              else if c = CHR ''+'' then (1, cs) else (1, t) | [] \<Rightarrow> (1, [])) in
      if digit_groups body then Some (sgn' * read_nat (filter is_digit body)) else None)"

definition py_int :: "pyval \<Rightarrow> op_error + int" where
  "py_int v = (case v of
       PInt i \<Rightarrow> Inr i
     | PBool b \<Rightarrow> Inr (if b then 1 else 0)
     | PFloat (FFinite t _) \<Rightarrow> Inr t
     | PFloat FInfinity \<Rightarrow> Inl OverflowError
     | PFloat FNaN \<Rightarrow> Inl ValueError
     | PStr s \<Rightarrow> (case int_of_string s of None \<Rightarrow> Inl ValueError | Some i \<Rightarrow> Inr i)
     | _ \<Rightarrow> Inl TypeError)"

text \<open>\<open>v == 1\<close>: also True and 1.0.\<close>

definition equals_one :: "pyval \<Rightarrow> bool" where
  "equals_one v \<longleftrightarrow> v = PInt 1 \<or> v = PBool True \<or> v = PFloat (FFinite 1 True)"

definition payload_keys :: "string list" where
  "payload_keys = [''evidence_digest'', ''expires_at'', ''key_version'', ''namespace'',
     ''schema_version'', ''seller_digest'']"

definition item :: "(pykey \<times> pyval) list \<Rightarrow> string \<Rightarrow> pyval" where
  "item d k = the (map_of d (KStr k))"

text \<open>
  The body of the \<open>try\<close> of \<open>_decode\<close>. Its \<open>except\<close> clause turns ValueError, TypeError and
  KeyError into \<open>seller_ref_invalid\<close> and lets every other error through.
\<close>

definition decode_body ::
    "externals \<Rightarrow> codecs \<Rightarrow> keyring \<Rightarrow> string \<Rightarrow> op_error + (pykey \<times> pyval) list" where
  "decode_body X D kr token =
     (case urlsafe_b64decode (token @ replicate (pad_count (length token)) CHR ''='') of
        None \<Rightarrow> Inl ValueError
      | Some encoded \<Rightarrow>
        (case rsplit_dot encoded of
           None \<Rightarrow> Inl ValueError
         | Some (canonical, signature_bytes) \<Rightarrow>
           (case py_json_loads D canonical of
              Some (PMap d) \<Rightarrow>
                if set (map fst d) \<noteq> KStr ` set payload_keys then Inl ValueError
                else if \<not> equals_one (item d ''schema_version'') then Inl ValueError
                else
                  rbind (py_int (item d ''key_version'')) (\<lambda>version.
                  case decode_ascii signature_bytes of
                    None \<Rightarrow> Inl ValueError
                  | Some signature \<Rightarrow>
                      rbind (verify_reference X kr version canonical signature) (\<lambda>ok.
                      if \<not> ok then Inl ValueError
                      else
                        rbind (canonical_json_bytes (PMap d)) (\<lambda>again.
                        if again \<noteq> canonical then Inl ValueError else Inr d)))
            | _ \<Rightarrow> Inl ValueError)))"

definition decode_token ::
    "externals \<Rightarrow> codecs \<Rightarrow> keyring \<Rightarrow> string \<Rightarrow> op_error + (pykey \<times> pyval) list" where
  "decode_token X D kr token = (case decode_body X D kr token of
       Inl e \<Rightarrow> Inl (if e \<in> {ValueError, TypeError, KeyError}
                   then contract_error ''seller_ref_invalid'' else e)
     | Inr d \<Rightarrow> Inr d)"

subsection \<open>Resolving a reference\<close>

definition datetime_from_utc_z :: "codecs \<Rightarrow> pyval \<Rightarrow> op_error + instant" where
  "datetime_from_utc_z D v = (case v of
       PStr s \<Rightarrow>
         if s = [] \<or> last s \<noteq> CHR ''Z'' then Inl ValueError
         else (case py_fromisoformat D s of None \<Rightarrow> Inl ValueError | Some t \<Rightarrow> Inr t)
     | _ \<Rightarrow> Inl ValueError)"

text \<open>
  \<open>hmac.compare_digest(digest, str(v))\<close>: a text outside ASCII raises TypeError; the text of
  anything but a string or an int is never a hexadecimal digest.
\<close>

definition digest_matches :: "string \<Rightarrow> pyval \<Rightarrow> op_error + bool" where
  "digest_matches h v = (case v of
       PStr s \<Rightarrow> if list_all is_ascii s then Inr (h = s) else Inl TypeError
     | PInt i \<Rightarrow> Inr (h = show_int i)
     | _ \<Rightarrow> Inr False)"

fun matching_identities ::
    "externals \<Rightarrow> keyring \<Rightarrow> (pykey \<times> pyval) list \<Rightarrow> string list \<Rightarrow> op_error + string list" where
  "matching_identities X kr d [] = Inr []"
| "matching_identities X kr d (s # ss) =
     rbind (py_int (item d ''key_version'')) (\<lambda>version.
     rbind (digest_identity X kr version s) (\<lambda>h.
     rbind (digest_matches h (item d ''seller_digest'')) (\<lambda>b.
     rbind (matching_identities X kr d ss) (\<lambda>rest. Inr (if b then s # rest else rest)))))"

definition resolve_seller ::
    "externals \<Rightarrow> codecs \<Rightarrow> keyring \<Rightarrow> instant \<Rightarrow> string list \<Rightarrow> seller_ref \<Rightarrow> string
       \<Rightarrow> op_error + private_seller_target" where
  "resolve_seller X D kr now identities ref expected =
     (if sr_namespace ref \<noteq> seller_namespace
      then Inl (contract_error ''seller_ref_namespace_mismatch'')
      else
        rbind (decode_token X D kr (sr_token ref)) (\<lambda>d.
        if item d ''namespace'' \<noteq> PStr (sr_namespace ref)
        then Inl (contract_error ''seller_ref_namespace_mismatch'')
        else if item d ''evidence_digest'' \<noteq> PStr expected
        then Inl (contract_error ''seller_ref_evidence_mismatch'')
        else
          case datetime_from_utc_z D (item d ''expires_at'') of
            Inl _ \<Rightarrow> Inl (contract_error ''seller_ref_invalid'')
          | Inr expires_at \<Rightarrow>
              if expires_at \<le> now then Inl (contract_error ''seller_ref_expired'')
              else
                rbind (matching_identities X kr d identities) (\<lambda>matches.
                case matches of
                  [] \<Rightarrow> Inl (contract_error ''seller_ref_not_found'')
                | [s] \<Rightarrow> Inr \<lparr>pt_seller_id = s, pt_evidence_digest = expected\<rparr>
                | _ \<Rightarrow> Inl (contract_error ''seller_ref_not_unique''))))"

subsection \<open>The dot of a token\<close>

lemma rsplit_dot_None: "46 \<notin> set bs \<Longrightarrow> rsplit_dot bs = None"
  by (induction bs) auto

lemma rsplit_dot_append: "46 \<notin> set r \<Longrightarrow> rsplit_dot (l @ 46 # r) = Some (l, r)"
  by (induction l) (simp_all add: rsplit_dot_None)

lemma hex64_ascii: "hex64 s \<Longrightarrow> list_all is_ascii s"
  by (auto simp: hex64_def list_all_iff is_hex_def is_digit_def is_ascii_def less_eq_char_def)

lemma ascii_byte:
  assumes "is_ascii c"
  shows "unat (of_nat (of_char c) :: 8 word) = of_char c"
  using assms by (simp add: is_ascii_def unat_of_nat)

lemma decode_ascii_bytes: "list_all is_ascii s \<Longrightarrow> decode_ascii (ascii_bytes s) = Some s"
proof (induction s)
  case (Cons c s)
  then have "unat (of_nat (of_char c) :: 8 word) = of_char c" by (simp add: ascii_byte)
  with Cons show ?case
    by (auto simp: decode_ascii_def ascii_bytes_def is_ascii_def split: if_splits)
qed (simp add: decode_ascii_def ascii_bytes_def)

lemma hex64_no_dot:
  assumes "hex64 s"
  shows "46 \<notin> set (ascii_bytes s)"
proof
  assume "46 \<in> set (ascii_bytes s)"
  then obtain c where c: "c \<in> set s" "(of_nat (of_char c) :: 8 word) = 46" by (auto simp: ascii_bytes_def)
  have "is_hex c" "is_ascii c"
    using assms hex64_ascii [OF assms] c(1) by (auto simp: hex64_def list_all_iff)
  then have "of_char c = (46 :: nat)" using ascii_byte [of c] c(2) by simp
  with \<open>is_hex c\<close> show False by (simp add: is_hex_def is_digit_def less_eq_char_def)
qed

lemma rsplit_dot_SomeD: "rsplit_dot bs = Some (l, r) \<Longrightarrow> bs = l @ 46 # r \<and> 46 \<notin> set r"
proof (induction bs arbitrary: l)
  case (Cons b bs)
  show ?case
  proof (cases "rsplit_dot bs")
    case None
    have "46 \<notin> set bs"
    proof
      assume "46 \<in> set bs"
      then obtain p q where "bs = p @ 46 # q" "46 \<notin> set q" by (meson split_list_last)
      with None show False by (simp add: rsplit_dot_append)
    qed
    with None Cons.prems show ?thesis by (auto split: if_splits)
  next
    case (Some lr)
    with Cons show ?thesis by (cases lr) auto
  qed
qed simp

subsection \<open>What an issued token decodes to\<close>

definition seller_json :: "string \<Rightarrow> string \<Rightarrow> int \<Rightarrow> string \<Rightarrow> json" where
  "seller_json evidence expires version seller_digest =
     JObj [(''evidence_digest'', JStr evidence), (''expires_at'', JStr expires),
           (''key_version'', JInt version), (''namespace'', JStr seller_namespace),
           (''schema_version'', JInt 1), (''seller_digest'', JStr seller_digest)]"

lemma seller_payload_bytes:
  "canonical_json_bytes (seller_payload e x v sd) = Inr (utf8 (dumps (seller_json e x v sd)))"
  by (simp add: seller_payload_def seller_json_def canonical_json_bytes_def)

text \<open>What the code relies on of \<open>json.loads\<close>: it reads back the text that was signed.\<close>

definition reads_back :: "codecs \<Rightarrow> string \<Rightarrow> string \<Rightarrow> int \<Rightarrow> string \<Rightarrow> bool" where
  "reads_back D e x v sd \<longleftrightarrow>
     py_json_loads D (utf8 (dumps (seller_json e x v sd))) = Some (seller_payload e x v sd)"

definition seller_digest_of :: "externals \<Rightarrow> bytes \<Rightarrow> string \<Rightarrow> string" where
  "seller_digest_of X key seller = x_hmac_sha256 X key (ascii_bytes ''identity:'' @ utf8 seller)"

lemma issue_seller_ref_Inr:
  assumes "issue_seller_ref X kr seller evidence exp = Inr ref"
  obtains key canonical where "kr_keys kr (active_version kr) = Some key"
    "canonical = utf8 (dumps (seller_json evidence (iso_seconds exp @ ''Z'') (active_version kr)
       (seller_digest_of X key seller)))"
    "ref = \<lparr>sr_namespace = seller_namespace, sr_token = rstrip CHR ''='' (urlsafe_b64encode
       (canonical @ 46 # ascii_bytes (x_hmac_sha256 X key (ascii_bytes ''reference:'' @ canonical))))\<rparr>"
proof -
  have dot: "ascii_bytes ''.'' = [46]" by (simp add: ascii_bytes_def)
  obtain key where key: "kr_keys kr (active_version kr) = Some key"
    using assms by (cases "kr_keys kr (active_version kr)") (auto simp: issue_seller_ref_def utc_z_def
        digest_identity_def seller_key_def)
  show ?thesis
    by (rule that [OF key refl])
      (use assms key in \<open>simp add: issue_seller_ref_def utc_z_def digest_identity_def sign_reference_def
        seller_key_def seller_payload_bytes seller_digest_of_def construct_def dot split: if_splits\<close>)
qed

lemma decode_token_issued:
  assumes "kr_keys kr v = Some key" "hex_digests X" "reads_back D e x v sd"
    "canonical = utf8 (dumps (seller_json e x v sd))"
  shows "decode_token X D kr (rstrip CHR ''='' (urlsafe_b64encode
       (canonical @ 46 # ascii_bytes (x_hmac_sha256 X key (ascii_bytes ''reference:'' @ canonical)))))
     = Inr [(KStr ''evidence_digest'', PStr e), (KStr ''expires_at'', PStr x),
           (KStr ''key_version'', PInt v), (KStr ''namespace'', PStr seller_namespace),
           (KStr ''schema_version'', PInt 1), (KStr ''seller_digest'', PStr sd)]"
proof -
  define sig where "sig = x_hmac_sha256 X key (ascii_bytes ''reference:'' @ canonical)"
  have hx: "hex64 sig" using assms(2) by (simp add: hex_digests_def sig_def)
  have loads: "py_json_loads D canonical = Some (seller_payload e x v sd)"
    using assms(3,4) by (simp add: reads_back_def)
  have again: "canonical_json_bytes (seller_payload e x v sd) = Inr canonical"
    by (simp add: seller_payload_bytes assms(4))
  have keys: "set (map fst [(KStr ''evidence_digest'', PStr e), (KStr ''expires_at'', PStr x),
           (KStr ''key_version'', PInt v), (KStr ''namespace'', PStr seller_namespace),
           (KStr ''schema_version'', PInt 1), (KStr ''seller_digest'', PStr sd)]) = KStr ` set payload_keys"
    by (simp add: payload_keys_def)
  show ?thesis
    using b64_roundtrip [of "canonical @ 46 # ascii_bytes sig"] loads again keys assms(1)
      decode_ascii_bytes [OF hex64_ascii [OF hx]]
    unfolding sig_def [symmetric]
    by (simp add: decode_token_def decode_body_def rsplit_dot_append [OF hex64_no_dot [OF hx]]
        seller_payload_def item_def equals_one_def py_int_def verify_reference_def sign_reference_def
        seller_key_def sig_def [symmetric])
qed

lemma matching_identities_eq:
  assumes "py_int (item d ''key_version'') = Inr v" "kr_keys kr v = Some key"
    "item d ''seller_digest'' = PStr sd" "hex64 sd"
  shows "matching_identities X kr d ss = Inr (filter (\<lambda>s. seller_digest_of X key s = sd) ss)"
  using assms hex64_ascii [of sd]
  by (induction ss) (simp_all add: digest_identity_def seller_key_def digest_matches_def seller_digest_of_def)

lemma filter_single: "distinct xs \<Longrightarrow> x \<in> set xs \<Longrightarrow> \<forall>y \<in> set xs. P y \<longleftrightarrow> y = x \<Longrightarrow> filter P xs = [x]"
proof (induction xs)
  case (Cons y ys)
  show ?case
  proof (cases "y = x")
    case True
    with Cons.prems have "filter P ys = []" by (auto simp: filter_empty_conv)
    with Cons.prems True show ?thesis by simp
  next
    case False
    with Cons show ?thesis by auto
  qed
qed simp
subsection \<open>Properties\<close>

lemma resolve_issued:
  assumes "issue_seller_ref X kr seller evidence exp = Inr ref"
    and "kr_keys kr (active_version kr) = Some key" "hex_digests X"
    and "reads_back D evidence (iso_seconds exp @ ''Z'') (active_version kr) (seller_digest_of X key seller)"
    and "py_fromisoformat D (iso_seconds exp @ ''Z'') = Some (exp div usec_per_second * usec_per_second)"
    and "distinct identities" "seller \<in> set identities"
    and "\<forall>s \<in> set identities. seller_digest_of X key s = seller_digest_of X key seller \<longrightarrow> s = seller"
  shows "resolve_seller X D kr now identities ref evidence =
      (if exp div usec_per_second * usec_per_second \<le> now then Inl (contract_error ''seller_ref_expired'')
       else Inr \<lparr>pt_seller_id = seller, pt_evidence_digest = evidence\<rparr>)
    \<and> (\<forall>other. other \<noteq> evidence \<longrightarrow> resolve_seller X D kr now identities ref other
         = Inl (contract_error ''seller_ref_evidence_mismatch''))"
proof -
  define x sd where "x = iso_seconds exp @ ''Z''" and "sd = seller_digest_of X key seller"
  define canonical where "canonical = utf8 (dumps (seller_json evidence x (active_version kr) sd))"
  have ref: "ref = \<lparr>sr_namespace = seller_namespace, sr_token = rstrip CHR ''='' (urlsafe_b64encode
       (canonical @ 46 # ascii_bytes (x_hmac_sha256 X key (ascii_bytes ''reference:'' @ canonical))))\<rparr>"
    by (rule issue_seller_ref_Inr [OF assms(1)]) (use assms(2) in \<open>simp add: canonical_def x_def sd_def\<close>)
  obtain d where dec: "decode_token X D kr (sr_token ref) = Inr d"
    and d: "item d ''namespace'' = PStr seller_namespace" "item d ''evidence_digest'' = PStr evidence"
      "item d ''expires_at'' = PStr x" "item d ''key_version'' = PInt (active_version kr)"
      "item d ''seller_digest'' = PStr sd"
    using decode_token_issued [OF assms(2,3) assms(4) [folded x_def sd_def] canonical_def]
    by (simp add: ref item_def)
  have "hex64 sd" using assms(3) by (simp add: sd_def seller_digest_of_def hex_digests_def)
  then have m: "matching_identities X kr d identities = Inr [seller]"
    using matching_identities_eq [of d "active_version kr" kr key sd X identities] d assms(2)
      filter_single [OF assms(6,7), of "\<lambda>s. seller_digest_of X key s = sd"] assms(8)
    by (auto simp: py_int_def sd_def)
  show ?thesis
    using dec d m assms(5)
    by (auto simp: resolve_seller_def datetime_from_utc_z_def x_def ref)
qed

text \<open>
  seller references round-trip. A reference issued for a seller and an evidence digest resolves
  under that digest to exactly that seller until its expiry (cut to the second), from then on it is
  refused as expired, and under every other evidence digest it is refused as a mismatch; given that
  json.loads and fromisoformat read back what was written, and that the digests of the known
  sellers do not collide with it.
\<close>

theorem seller_ref_roundtrip:
  assumes "issue_seller_ref X kr seller evidence exp = Inr ref"
    and "kr_keys kr (active_version kr) = Some key" "hex_digests X"
    and "reads_back D evidence (iso_seconds exp @ ''Z'') (active_version kr) (seller_digest_of X key seller)"
    and "py_fromisoformat D (iso_seconds exp @ ''Z'') = Some (exp div usec_per_second * usec_per_second)"
    and "distinct identities" "seller \<in> set identities"
    and "\<forall>s \<in> set identities. seller_digest_of X key s = seller_digest_of X key seller \<longrightarrow> s = seller"
  shows "resolve_seller X D kr now identities ref evidence =
      (if exp div usec_per_second * usec_per_second \<le> now then Inl (contract_error ''seller_ref_expired'')
       else Inr \<lparr>pt_seller_id = seller, pt_evidence_digest = evidence\<rparr>)
    \<and> (\<forall>other. other \<noteq> evidence \<longrightarrow> resolve_seller X D kr now identities ref other
         = Inl (contract_error ''seller_ref_evidence_mismatch''))"
  by (rule resolve_issued [OF assms])

lemma decode_token_Inr:
  assumes "decode_token X D kr token = Inr d"
  obtains canonical signature key v where
    "urlsafe_b64decode (token @ replicate (pad_count (length token)) CHR ''='') = Some (canonical @ 46 # signature)"
    "kr_keys kr v = Some key" "py_int (item d ''key_version'') = Inr v"
    "decode_ascii signature = Some (x_hmac_sha256 X key (ascii_bytes ''reference:'' @ canonical))"
    "canonical_json_bytes (PMap d) = Inr canonical"
proof -
  obtain encoded canonical signature_bytes where e: "urlsafe_b64decode (token @ replicate (pad_count (length token)) CHR ''='') = Some encoded"
    and r: "rsplit_dot encoded = Some (canonical, signature_bytes)"
    and j: "py_json_loads D canonical = Some (PMap d)"
    using assms by (auto simp: decode_token_def decode_body_def rbind_Inr_iff
        split: option.splits pyval.splits if_splits sum.splits)
  have "encoded = canonical @ 46 # signature_bytes" using rsplit_dot_SomeD [OF r] by simp
  with e have e': "urlsafe_b64decode (token @ replicate (pad_count (length token)) CHR ''='')
      = Some (canonical @ 46 # signature_bytes)" by simp
  obtain v s key where "py_int (item d ''key_version'') = Inr v" "decode_ascii signature_bytes = Some s"
    "kr_keys kr v = Some key" "s = x_hmac_sha256 X key (ascii_bytes ''reference:'' @ canonical)"
    "canonical_json_bytes (PMap d) = Inr canonical"
    using assms e r j
    by (auto simp: decode_token_def decode_body_def rbind_Inr_iff verify_reference_def sign_reference_def
        seller_key_def split: option.splits if_splits sum.splits)
  with e' show ?thesis by (intro that [of canonical signature_bytes v key]) simp_all
qed

lemma decode_ascii_SomeD: "decode_ascii bs = Some s \<Longrightarrow> bs = ascii_bytes s"
proof (induction bs arbitrary: s)
  case (Cons b bs)
  have "of_nat (of_char (char_of (unat b) :: char)) = b" if "unat b < 128"
    using that by simp
  with Cons show ?case by (auto simp: decode_ascii_def ascii_bytes_def split: if_splits)
qed (simp add: decode_ascii_def ascii_bytes_def)

text \<open>
  A resolved reference is authentic. Whatever token resolves to a seller was signed by a key of
  the keyring over exactly the canonical bytes it carries, names the expected evidence, has not
  expired, and its seller is the only known one with the signed digest.
\<close>

theorem resolved_seller_authentic:
  assumes "resolve_seller X D kr now identities ref expected = Inr target"
  shows "\<exists>d v key canonical expires_at.
      urlsafe_b64decode (sr_token ref @ replicate (pad_count (length (sr_token ref))) CHR ''='')
        = Some (canonical @ 46 # ascii_bytes (x_hmac_sha256 X key (ascii_bytes ''reference:'' @ canonical)))
      \<and> kr_keys kr v = Some key \<and> canonical_json_bytes (PMap d) = Inr canonical
      \<and> item d ''evidence_digest'' = PStr expected \<and> pt_evidence_digest target = expected
      \<and> datetime_from_utc_z D (item d ''expires_at'') = Inr expires_at \<and> now < expires_at
      \<and> matching_identities X kr d identities = Inr [pt_seller_id target]"
proof -
  obtain d where dec: "decode_token X D kr (sr_token ref) = Inr d"
    and ev: "item d ''evidence_digest'' = PStr expected"
    using assms by (auto simp: resolve_seller_def rbind_Inr_iff split: if_splits)
  obtain t where t: "datetime_from_utc_z D (item d ''expires_at'') = Inr t" "now < t"
    using assms dec by (auto simp: resolve_seller_def rbind_Inr_iff split: if_splits sum.splits)
  obtain ms where ms: "matching_identities X kr d identities = Inr ms"
    using assms dec t by (auto simp: resolve_seller_def rbind_Inr_iff split: if_splits)
  have "ms = [pt_seller_id target] \<and> pt_evidence_digest target = expected"
    using assms dec t ms
    by (cases ms; cases "tl ms") (auto simp: resolve_seller_def split: if_splits)
  with ms have m: "matching_identities X kr d identities = Inr [pt_seller_id target]"
    "pt_evidence_digest target = expected" by simp_all
  obtain canonical sig key v where c:
    "urlsafe_b64decode (sr_token ref @ replicate (pad_count (length (sr_token ref))) CHR ''='') = Some (canonical @ 46 # sig)"
    "kr_keys kr v = Some key"
    "decode_ascii sig = Some (x_hmac_sha256 X key (ascii_bytes ''reference:'' @ canonical))"
    "canonical_json_bytes (PMap d) = Inr canonical"
    by (rule decode_token_Inr [OF dec])
  have "sig = ascii_bytes (x_hmac_sha256 X key (ascii_bytes ''reference:'' @ canonical))"
    by (rule decode_ascii_SomeD [OF c(3)])
  with c ev m t show ?thesis by blast
qed

text \<open>
  an unsigned token can raise OverflowError. A token whose payload has the six keys and schema
  version 1 but key_version Infinity (which json.loads accepts) makes resolve raise OverflowError,
  which its except clause does not name, before any signature is checked: whatever the keyring.
\<close>

theorem infinite_key_version_escapes:
  assumes "py_json_loads D canonical = Some (PMap d)" "set (map fst d) = KStr ` set payload_keys"
    and "item d ''schema_version'' = PInt 1" "item d ''key_version'' = PFloat FInfinity"
    and "46 \<notin> set anything"
  shows "resolve_seller X D kr now identities
      \<lparr>sr_namespace = seller_namespace,
       sr_token = rstrip CHR ''='' (urlsafe_b64encode (canonical @ 46 # anything))\<rparr> expected
    = Inl OverflowError"
  using assms b64_roundtrip [of "canonical @ 46 # anything"]
  by (simp add: resolve_seller_def decode_token_def decode_body_def rsplit_dot_append equals_one_def py_int_def)
subsection \<open>The properties at concrete inputs\<close>

definition sample_seller_externals :: externals where
  "sample_seller_externals = \<lparr>x_sha256 = (\<lambda>_. sample_digest), x_hmac_sha256 = (\<lambda>_ _. sample_digest),
     x_json_datetime = iso_seconds, x_uuid5 = (\<lambda>_. 7)\<rparr>"

definition sample_seller_keyring :: keyring where
  "sample_seller_keyring = \<lparr>kr_keys = [1 \<mapsto> [3]], active_version = 1\<rparr>"

definition sample_payload_bytes :: bytes where
  "sample_payload_bytes =
     utf8 (dumps (seller_json sample_digest (iso_seconds usec_per_day @ ''Z'') 1 sample_digest))"

definition sample_codecs :: codecs where
  "sample_codecs =
     \<lparr>py_json_loads = (\<lambda>bs. if bs = sample_payload_bytes
        then Some (seller_payload sample_digest (iso_seconds usec_per_day @ ''Z'') 1 sample_digest)
        else if bs = [1] then Some (PMap (map (\<lambda>k. (KStr k,
          if k = ''schema_version'' then PInt 1 else PFloat FInfinity)) payload_keys))
        else None),
      py_fromisoformat = (\<lambda>s. if s = iso_seconds usec_per_day @ ''Z'' then Some usec_per_day else None)\<rparr>"

lemma sample_seller_facts:
  "kr_keys sample_seller_keyring (active_version sample_seller_keyring) = Some [3]"
  "active_version sample_seller_keyring = 1" "kr_keys sample_seller_keyring 1 = Some [3]"
  "hex_digests sample_seller_externals" "seller_digest_of sample_seller_externals key s = sample_digest"
proof -
  have "hex64 sample_digest" by code_simp
  then show "hex_digests sample_seller_externals" by (simp add: hex_digests_def sample_seller_externals_def)
qed (simp_all add: sample_seller_keyring_def seller_digest_of_def sample_seller_externals_def)

lemma sample_seller_issue:
  obtains ref where "issue_seller_ref sample_seller_externals sample_seller_keyring seller sample_digest usec_per_day = Inr ref"
proof -
  have bounds: "8 \<le> length sample_payload_bytes \<and> length sample_payload_bytes \<le> 1000" by code_simp
  define token where "token = rstrip CHR ''='' (urlsafe_b64encode
      (sample_payload_bytes @ ascii_bytes ''.'' @ ascii_bytes sample_digest))"
  have "length sample_digest = 64" by (simp add: sample_digest_def)
  then have "len_ok 8 4096 token"
    using bounds
    by (simp add: token_def rstrip_encode length_b64_body len_ok_def ascii_bytes_def) linarith
  then show ?thesis
    using that
    by (simp add: issue_seller_ref_def utc_z_def digest_identity_def seller_key_def sample_seller_facts
        sample_seller_externals_def sign_reference_def seller_payload_bytes sample_payload_bytes_def
        construct_def valid_seller_ref_def seller_namespace_def token_def)
qed

lemma sample_seller_assms:
  "reads_back sample_codecs sample_digest (iso_seconds usec_per_day @ ''Z'')
     (active_version sample_seller_keyring) (seller_digest_of sample_seller_externals [3] ''s1'')"
  "py_fromisoformat sample_codecs (iso_seconds usec_per_day @ ''Z'')
     = Some (usec_per_day div usec_per_second * usec_per_second)"
  "distinct [''s1'']" "''s1'' \<in> set [''s1'']"
  "\<forall>s \<in> set [''s1'']. seller_digest_of sample_seller_externals [3] s
     = seller_digest_of sample_seller_externals [3] ''s1'' \<longrightarrow> s = ''s1''"
  by (simp_all add: sample_seller_facts reads_back_def sample_codecs_def sample_payload_bytes_def usec_defs)

lemma sample_day: "usec_per_day div usec_per_second * usec_per_second = usec_per_day" "5 < usec_per_day"
  by (simp_all add: usec_defs)

theorem seller_ref_roundtrip_witness:
  "\<exists>ref. issue_seller_ref sample_seller_externals sample_seller_keyring ''s1'' sample_digest usec_per_day = Inr ref
     \<and> resolve_seller sample_seller_externals sample_codecs sample_seller_keyring 5 [''s1''] ref sample_digest
       = Inr \<lparr>pt_seller_id = ''s1'', pt_evidence_digest = sample_digest\<rparr>"
proof -
  obtain ref where ref: "issue_seller_ref sample_seller_externals sample_seller_keyring ''s1'' sample_digest usec_per_day = Inr ref"
    by (rule sample_seller_issue)
  with seller_ref_roundtrip [OF ref sample_seller_facts(1,4) sample_seller_assms, of 5] sample_day
  show ?thesis by simp
qed

theorem resolved_seller_authentic_witness:
  "\<exists>d. item d ''evidence_digest'' = PStr sample_digest
     \<and> matching_identities sample_seller_externals sample_seller_keyring d [''s1''] = Inr [''s1'']"
proof -
  obtain ref where ref: "issue_seller_ref sample_seller_externals sample_seller_keyring ''s1'' sample_digest usec_per_day = Inr ref"
    by (rule sample_seller_issue)
  then have "resolve_seller sample_seller_externals sample_codecs sample_seller_keyring 5 [''s1''] ref sample_digest
      = Inr \<lparr>pt_seller_id = ''s1'', pt_evidence_digest = sample_digest\<rparr>"
    using resolve_issued [OF ref sample_seller_facts(1,4) sample_seller_assms, of 5] sample_day by simp
  from resolved_seller_authentic [OF this] show ?thesis by auto
qed

theorem infinite_key_version_escapes_witness:
  "resolve_seller sample_seller_externals sample_codecs sample_seller_keyring 0 []
     \<lparr>sr_namespace = seller_namespace,
      sr_token = rstrip CHR ''='' (urlsafe_b64encode ([1] @ 46 # [2]))\<rparr> sample_digest
   = Inl OverflowError"
proof -
  have "length sample_payload_bytes \<noteq> 1" by code_simp
  then have ne: "[1] \<noteq> sample_payload_bytes" by (metis length_Cons list.size(3) One_nat_def)
  show ?thesis
    by (rule infinite_key_version_escapes [where d = "map (\<lambda>k. (KStr k,
          if k = ''schema_version'' then PInt 1 else PFloat FInfinity)) payload_keys"])
      (use ne in \<open>simp_all add: sample_codecs_def payload_keys_def item_def\<close>)
qed

end
