(* ===== verification/Op_References.thy ===== *)
theory Op_References
  imports Op_Safety Op_Backtest Op_SellerRefs
begin

text \<open>
  The default reference validator (\<open>DefaultReferenceValidator\<close> of
  \<open>src/commerce_agent/operations/_store.py\<close>): the evidence a request names must be the evidence of
  its command, a seller-risk case must resolve its seller under its one query evidence, and an
  alert rule must repeat the specification of a registered backtest. The resolvers it is built
  with are optional arguments. The properties follow the validator through the workflow: what it
  promised of a command holds of every proposal in every reachable store.
\<close>

definition evidence_key :: "evidence_ref \<Rightarrow> string \<times> string \<times> string" where
  "evidence_key e = (ev_kind e, ev_ref e, ev_digest e)"

text \<open>The two tuples \<open>validate_command\<close> compares; Decimals compare by value.\<close>

definition backtest_spec_matches :: "create_and_enable_metric_alert_rule \<Rightarrow> alert_backtest_snapshot \<Rightarrow> bool" where
  "backtest_spec_matches c s =
     (let b = as_request s in
      ca_alert_backtest_ref c = as_backtest_ref s
      \<and> mr_name (ca_metric_ref c) = alert_metric_value (ab_metric b)
      \<and> mr_revision (ca_metric_ref c) = ab_metric_revision b
      \<and> ca_grain c = ab_grain b \<and> ca_window c = ab_window b \<and> ca_comparator c = ab_comparator b
      \<and> dec_eq (ca_threshold c) (ab_threshold b)
      \<and> ca_minimum_denominator c = ab_minimum_denominator b
      \<and> sort (ca_filter_refs c) = sort (ab_filter_refs b))"

definition check_seller ::
    "(seller_ref \<Rightarrow> string \<Rightarrow> op_error + private_seller_target) option \<Rightarrow> open_seller_risk_case
       \<Rightarrow> evidence_ref list \<Rightarrow> op_error + private_binding list" where
  "check_seller sellers c evidence = (case sellers of
       None \<Rightarrow> Inl (contract_error ''seller_ref_validation_unavailable'')
     | Some resolve \<Rightarrow>
         (case filter (\<lambda>e. ev_kind e = ''query'') evidence of
            [e] \<Rightarrow> rbind (resolve (os_seller_ref c) (ev_digest e)) (\<lambda>t. Inr [SellerTargetBinding t])
          | _ \<Rightarrow> Inl (contract_error ''seller_query_evidence_required'')))"

definition check_backtest ::
    "(alert_backtest_ref \<Rightarrow> alert_backtest_snapshot option) option \<Rightarrow> create_and_enable_metric_alert_rule
       \<Rightarrow> op_error + private_binding list" where
  "check_backtest backtests c = (case backtests of
       None \<Rightarrow> Inl (contract_error ''backtest_validation_unavailable'')
     | Some resolve \<Rightarrow>
         (case resolve (ca_alert_backtest_ref c) of
            None \<Rightarrow> Inl (contract_error ''backtest_not_found'')
          | Some s \<Rightarrow>
              if backtest_spec_matches c s then Inr [BacktestBinding s]
              else Inl (contract_error ''backtest_spec_mismatch'')))"

definition default_reference_validator ::
    "(seller_ref \<Rightarrow> string \<Rightarrow> op_error + private_seller_target) option
       \<Rightarrow> (alert_backtest_ref \<Rightarrow> alert_backtest_snapshot option) option \<Rightarrow> reference_validator" where
  "default_reference_validator sellers backtests c evidence =
     (if evidence_key ` set evidence \<noteq> evidence_key ` set (command_evidence c)
      then Inl (contract_error ''evidence_binding_mismatch'')
      else
        rbind (case c of
            OpenSellerRiskCase x \<Rightarrow> check_seller sellers x evidence
          | CreateAndEnableMetricAlertRule x \<Rightarrow> check_backtest backtests x
          | _ \<Rightarrow> Inr []) (\<lambda>bindings.
        Inr \<lparr>vr_evidence_refs = evidence, vr_private_bindings = bindings\<rparr>))"

subsection \<open>What the validator returned stays with the proposal\<close>

lemma prepare_draft_validated:
  "prepare_draft S X V now req st = Inr d \<Longrightarrow>
     V (pq_command req) (pq_evidence_refs req) = Inr (pd_validated_references d) \<and> pd_request d = req"
  by (auto simp: prepare_draft_def rbind_Inr_iff)

lemma set_status_self: "set_status (ps_status (sp_snapshot p)) p = p"
  by (simp add: set_status_def)

lemma set_status_ex: "\<exists>s. p = set_status s p"
  by (metis set_status_self)

lemma propose_origin:
  assumes p: "propose (memory_store X) X V fresh now req st = (res, st')" and q: "proposals st' k = Some p"
  shows "(\<exists>q s. proposals st k = Some q \<and> p = set_status s q)
    \<or> V (sp_command p) (sp_evidence_refs p) = Inr (sp_validated_references p)"
proof (cases "prepare_draft (memory_store X) X V now req st")
  case (Inl e)
  with p q show ?thesis by (simp add: propose_def set_status_ex)
next
  case (Inr d)
  note v = prepare_draft_validated [OF Inr]
  note same = set_status_ex [of p]
  have alloc: "\<exists>q s. proposals st k = Some q \<and> p' = set_status s q"
    if "allocate_ref fresh req st = (r, st1)" "proposals st1 k = Some p'" for r st1 p'
    using that set_status_ex [of p'] by (cases rule: allocate_ref_cases) (auto split: if_splits)
  have "create_or_get_proposal fresh d st = (res, st')" using p Inr by (simp add: propose_def)
  then show ?thesis
  proof (cases rule: create_or_get_cases)
    case (1 e)
    with q same show ?thesis by auto
  next
    case (replay ref ty sha p')
    with q same show ?thesis by auto
  next
    case (invalid ref)
    with alloc [of _ st'] q v show ?thesis by auto
  next
    case (created ref st1)
    show ?thesis
    proof (cases "k = ref_key ref")
      case True
      with q created(5) v show ?thesis by (auto simp: store_proposal_def Let_def)
    next
      case False
      then have "proposals st1 k = Some p" using q created(5) by (simp add: store_proposal_def Let_def)
      with alloc [of _ st1] created(2) v show ?thesis by auto
    qed
  qed
qed

lemma op_step_origin:
  assumes s: "op_step X kr V st st'" and q: "proposals st' k = Some p"
  shows "(\<exists>q s. proposals st k = Some q \<and> p = set_status s q)
    \<or> V (sp_command p) (sp_evidence_refs p) = Inr (sp_validated_references p)"
  using s
proof (cases rule: op_step.cases)
  case (Propose req fresh now res)
  then show ?thesis using propose_origin q by blast
next
  case (Decide req raw t1 t2 t3 res)
  note same = set_status_ex [of p]
  show ?thesis
  proof (cases "prepare_decision (memory_store X) X kr raw t1 t2 req st")
    case (Inl e)
    with Decide(2) q same show ?thesis by (auto simp: decide_def)
  next
    case (Inr ra)
    obtain r a where "ra = (r, a)" by (cases ra)
    with Inr Decide(2) have "decide_once X r a t3 st = (res, st')" by (simp add: decide_def)
    then show ?thesis using q same by (cases rule: decide_once_cases) (auto split: if_splits)
  qed
next
  case (Execute req t1 t2 res)
  have "proposals st' = proposals st"
  proof (cases "prepare_execution (memory_store X) X kr t1 req st")
    case (Inl e)
    with Execute(2) show ?thesis by (simp add: execute_def)
  next
    case (Inr plan)
    with Execute(2) show ?thesis by (cases plan) (auto simp: execute_def dest: execute_once_frame)
  qed
  with q set_status_ex [of p] show ?thesis by auto
qed

lemma reachable_validated:
  "reachable X kr V st \<Longrightarrow> proposals st k = Some p
     \<Longrightarrow> V (sp_command p) (sp_evidence_refs p) = Inr (sp_validated_references p)"
proof (induction arbitrary: p rule: reachable.induct)
  case (Start ts)
  then show ?case by (simp add: init_store_def)
next
  case (Step st st')
  from op_step_origin [OF Step(2,4)] Step(3) show ?case by (auto simp: set_status_def)
qed

subsection \<open>Properties\<close>

text \<open>
  No alert rule without its backtest. In every store the workflow reaches with the default
  validator, a proposal to enable an alert rule (executed or not) names a backtest of the registry
  whose metric, revision, grain, window, comparator, threshold, minimum denominator and filters are
  those of the rule, carries the evidence it was requested with, and keeps that backtest as its
  private binding.
\<close>

theorem alert_rule_backtested:
  assumes "reachable X kr (default_reference_validator sellers (Some registry)) st"
    and "proposals st k = Some p" "sp_command p = CreateAndEnableMetricAlertRule c"
  shows "\<exists>s. registry (ca_alert_backtest_ref c) = Some s \<and> backtest_spec_matches c s
    \<and> sp_validated_references p
       = \<lparr>vr_evidence_refs = sp_evidence_refs p, vr_private_bindings = [BacktestBinding s]\<rparr>
    \<and> evidence_key ` set (sp_evidence_refs p) = evidence_key ` set (ca_evidence_refs c)"
  using reachable_validated [OF assms(1,2)] assms(3)
  by (auto simp: default_reference_validator_def rbind_Inr_iff check_backtest_def
      split: if_splits option.splits)

text \<open>
  no seller case without its seller. In every store the workflow reaches with the default
  validator, a proposal to open a seller-risk case has exactly one query evidence, its seller
  reference resolved under the digest of that evidence, and the resolved target is what the
  proposal keeps as its private binding.
\<close>

theorem seller_case_targeted:
  assumes "reachable X kr (default_reference_validator (Some resolve) backtests) st"
    and "proposals st k = Some p" "sp_command p = OpenSellerRiskCase c"
  shows "\<exists>e t. filter (\<lambda>e. ev_kind e = ''query'') (sp_evidence_refs p) = [e]
    \<and> resolve (os_seller_ref c) (ev_digest e) = Inr t
    \<and> vr_private_bindings (sp_validated_references p) = [SellerTargetBinding t]"
  using reachable_validated [OF assms(1,2)] assms(3)
  by (auto simp: default_reference_validator_def rbind_Inr_iff check_seller_def
      split: if_splits list.splits dest!: sym [of _ "sp_validated_references p"])

subsection \<open>The properties at concrete inputs\<close>

definition sample_snapshot :: alert_backtest_snapshot where
  "sample_snapshot =
     \<lparr>as_backtest_ref = \<lparr>backtest_id = 7, rule_spec_digest = sample_digest\<rparr>,
      as_request = (sample_backtest (Dec False 25 (- 2)))\<lparr>ab_metric_revision := ''1'', ab_grain := ''seller'',
        ab_comparator := GREATER_THAN, ab_minimum_denominator := 10, ab_filter_refs := []\<rparr>,
      as_windows = [], as_completed_at = Aware 0 0\<rparr>"

definition request_of :: "operation_command \<Rightarrow> propose_request" where
  "request_of c = sample_request\<lparr>pq_command := c, pq_evidence_refs := command_evidence c\<rparr>"

lemma first_proposal:
  assumes "valid_propose_request (request_of c)" "command_task_ref c = None"
    and "V c (command_evidence c) = Inr vr"
  obtains st p where "reachable sample_externals sample_keyring V st" "proposals st (7, 1) = Some p"
    "sp_command p = c" "sp_evidence_refs p = command_evidence c"
proof -
  have f: "role (pq_actor (request_of c)) = ANALYST" "pq_revises (request_of c) = None"
    "command_task_ref (pq_command (request_of c)) = None"
    "V (pq_command (request_of c)) (pq_evidence_refs (request_of c)) = Inr vr"
    "idempotency (init_store []) (actor_id (pq_actor (request_of c)), pq_idempotency_key (request_of c)) = None"
    using assms(2,3) by (simp_all add: request_of_def sample_request_def sample_analyst_def init_store_def)
  obtain d where d: "pd_request d = request_of c"
    "propose (memory_store sample_externals) sample_externals V 7 0 (request_of c) (init_store [])
      = (Inr (draft_snapshot d \<lparr>proposal_id = 7, pr_version = 1\<rparr>),
         store_proposal d \<lparr>proposal_id = 7, pr_version = 1\<rparr> (init_store []))"
    using propose_first [where V = V and fresh = 7 and now = 0, OF sample_valid(3) assms(1) f] by metis
  have "reachable sample_externals sample_keyring V
      (store_proposal d \<lparr>proposal_id = 7, pr_version = 1\<rparr> (init_store []))"
    by (rule reachable.Step [OF sample_start(2) op_step.Propose [OF assms(1) sample_facts(8) d(2)]])
  moreover obtain p where "proposals (store_proposal d \<lparr>proposal_id = 7, pr_version = 1\<rparr> (init_store [])) (7, 1) = Some p"
    "sp_command p = c" "sp_evidence_refs p = command_evidence c"
    by (simp add: store_proposal_def Let_def ref_key_def d(1) request_of_def)
  ultimately show ?thesis by (rule that)
qed

theorem alert_rule_backtested_witness:
  "\<exists>st p s. reachable sample_externals sample_keyring
        (default_reference_validator None (Some (\<lambda>_. Some sample_snapshot))) st
     \<and> proposals st (7, 1) = Some p \<and> sp_command p = sample_rule (Dec False 250 (- 3))
     \<and> vr_private_bindings (sp_validated_references p) = [BacktestBinding s]"
proof -
  let ?V = "default_reference_validator None (Some (\<lambda>_. Some sample_snapshot))"
  let ?c = "sample_rule (Dec False 250 (- 3))"
  have v: "valid_propose_request (request_of ?c)" by code_simp
  have "backtest_spec_matches (case ?c of CreateAndEnableMetricAlertRule x \<Rightarrow> x) sample_snapshot" by code_simp
  then have V: "?V ?c (command_evidence ?c)
      = Inr \<lparr>vr_evidence_refs = command_evidence ?c, vr_private_bindings = [BacktestBinding sample_snapshot]\<rparr>"
    by (simp add: default_reference_validator_def check_backtest_def sample_rule_def)
  obtain st p where r: "reachable sample_externals sample_keyring ?V st" "proposals st (7, 1) = Some p"
    "sp_command p = ?c" "sp_evidence_refs p = command_evidence ?c"
    using first_proposal [where V = ?V, OF v _ V] by (auto simp: sample_rule_def)
  obtain c where c: "sp_command p = CreateAndEnableMetricAlertRule c" using r(3) by (simp add: sample_rule_def)
  obtain s where "vr_private_bindings (sp_validated_references p) = [BacktestBinding s]"
    using alert_rule_backtested [OF r(1,2) c] by auto
  with r show ?thesis by blast
qed

definition sample_case :: open_seller_risk_case where
  "sample_case =
     \<lparr>os_evidence_refs = [sample_evidence], os_expected_target_version = 0,
      os_seller_ref = \<lparr>sr_namespace = seller_namespace, sr_token = replicate 8 CHR ''t''\<rparr>,
      os_observation_started_at = Aware 0 0, os_observation_ended_at = Aware usec_per_day 0,
      os_metric_ref = \<lparr>mr_name = ''late_delivery_rate'', mr_revision = ''1''\<rparr>, os_numerator = 1,
      os_denominator = 2, os_observed = Dec False 5 (- 1), os_threshold = Dec False 1 (- 1),
      os_title = ''Seller'', os_priority = High\<rparr>"

theorem seller_case_targeted_witness:
  "\<exists>st p. reachable sample_externals sample_keyring
        (default_reference_validator (Some (\<lambda>_ d. Inr \<lparr>pt_seller_id = ''s1'', pt_evidence_digest = d\<rparr>)) None) st
     \<and> proposals st (7, 1) = Some p \<and> sp_command p = OpenSellerRiskCase sample_case
     \<and> vr_private_bindings (sp_validated_references p)
        = [SellerTargetBinding \<lparr>pt_seller_id = ''s1'', pt_evidence_digest = sample_digest\<rparr>]"
proof -
  let ?R = "\<lambda>(_ :: seller_ref) d. Inr \<lparr>pt_seller_id = ''s1'', pt_evidence_digest = d\<rparr> :: op_error + private_seller_target"
  let ?V = "default_reference_validator (Some ?R) None"
  have v: "valid_propose_request (request_of (OpenSellerRiskCase sample_case))" by code_simp
  have V: "?V (OpenSellerRiskCase sample_case) (command_evidence (OpenSellerRiskCase sample_case))
      = Inr \<lparr>vr_evidence_refs = [sample_evidence],
         vr_private_bindings = [SellerTargetBinding \<lparr>pt_seller_id = ''s1'', pt_evidence_digest = sample_digest\<rparr>]\<rparr>"
    by (simp add: default_reference_validator_def check_seller_def sample_case_def sample_evidence_def)
  obtain st p where r: "reachable sample_externals sample_keyring ?V st" "proposals st (7, 1) = Some p"
    "sp_command p = OpenSellerRiskCase sample_case"
    "sp_evidence_refs p = command_evidence (OpenSellerRiskCase sample_case)"
    using first_proposal [where V = ?V, OF v _ V] by auto
  have "vr_private_bindings (sp_validated_references p)
      = [SellerTargetBinding \<lparr>pt_seller_id = ''s1'', pt_evidence_digest = sample_digest\<rparr>]"
    using seller_case_targeted [OF r(1-3)] r(4) by (auto simp: sample_case_def sample_evidence_def)
  with r show ?thesis by blast
qed

end
