(* ===== verification/Ast_Policy.thy ===== *)
theory Ast_Policy
  imports Prelude
begin

text \<open>
  The SQL policy of the read-only query engine
  (\<open>src/commerce_agent/query_engine/_ast_policy.py\<close>). An expression of the parser is a class name
  with named arguments; what sqlglot computes (tokens, the parse, class membership, scopes, the
  properties of a node) is the record \<open>sqlglot\<close>. The three loops over an explicit stack are
  functions on the stack (top first), with the size of its trees as their termination measure.
\<close>

subsection \<open>Expressions, scopes and the parser\<close>

datatype node = Node (node_class: string) (node_args: "(string \<times> arg) list")
  and arg = AExpr node | AList "arg list" | AText string | AFlag bool | ANone

text \<open>\<open>expression.args.get(k)\<close>, and the expressions found directly under a node.\<close>

definition get_arg :: "node \<Rightarrow> string \<Rightarrow> arg" where
  "get_arg n k = (case map_of (node_args n) k of None \<Rightarrow> ANone | Some a \<Rightarrow> a)"

fun arg_exprs :: "arg \<Rightarrow> node list" where
  "arg_exprs (AExpr n) = [n]"
| "arg_exprs (AList xs) = concat (map (\<lambda>x. case x of AExpr n \<Rightarrow> [n] | _ \<Rightarrow> []) xs)"
| "arg_exprs _ = []"

definition children :: "node \<Rightarrow> node list" where
  "children n = concat (map (arg_exprs \<circ> snd) (node_args n))"

text \<open>\<open>node.this\<close>, \<open>node.expression\<close> (an expression or nothing) and \<open>node.expressions\<close>.\<close>

definition expr_arg :: "string \<Rightarrow> node \<Rightarrow> node option" where
  "expr_arg k n = (case get_arg n k of AExpr m \<Rightarrow> Some m | _ \<Rightarrow> None)"

definition expressions :: "node \<Rightarrow> node list" where
  "expressions n = (case get_arg n ''expressions'' of AList xs \<Rightarrow> arg_exprs (AList xs) | _ \<Rightarrow> [])"

datatype scope = Scope (scope_expression: node) (scope_sources: "(string \<times> source) list")
    (scope_columns: "node list")
  and source = TableSource node | ScopeSource scope | OtherSource

datatype sql_exception = ParseError | OtherSqlError string

record sqlglot =
  sg_tokenize :: "string \<Rightarrow> sql_exception + string list"
  sg_parse :: "string \<Rightarrow> sql_exception + node option list"
  sg_traverse_scope :: "node \<Rightarrow> sql_exception + scope list"
  sg_isinstance :: "node \<Rightarrow> string \<Rightarrow> bool"
  sg_find_all :: "node \<Rightarrow> string \<Rightarrow> node list"
  sg_name :: "node \<Rightarrow> string"
  sg_table :: "node \<Rightarrow> string"
  sg_db :: "node \<Rightarrow> string"
  sg_catalog :: "node \<Rightarrow> string"
  sg_is_star :: "node \<Rightarrow> bool"
  sg_is_int :: "node \<Rightarrow> bool"
  sg_literal :: "node \<Rightarrow> int"
  sg_sql_name :: "node \<Rightarrow> string"
  sg_named_selects :: "node \<Rightarrow> string list"

text \<open>An error is a policy violation (its reason code), or an exception of sqlglot.\<close>

datatype policy_error = Violation string | Escaped sql_exception

subsection \<open>The catalogue\<close>

definition retail_table_columns :: "(string \<times> string list) list" where
  "retail_table_columns =
     [(''customers'', [''customer_id'', ''customer_unique_id'', ''customer_zip_code_prefix'',
         ''customer_city'', ''customer_state'']),
      (''orders'', [''order_id'', ''customer_id'', ''order_status'', ''order_purchase_timestamp'',
         ''order_approved_at'', ''order_delivered_carrier_date'', ''order_delivered_customer_date'',
         ''order_estimated_delivery_date'']),
      (''order_items'', [''order_id'', ''order_item_id'', ''product_id'', ''seller_id'',
         ''shipping_limit_date'', ''price'', ''freight_value'']),
      (''order_payments'', [''order_id'', ''payment_sequential'', ''payment_type'',
         ''payment_installments'', ''payment_value'']),
      (''order_reviews'', [''review_row_id'', ''review_id'', ''order_id'', ''review_score'',
         ''review_comment_title'', ''review_comment_message'', ''review_creation_date'',
         ''review_answer_timestamp'']),
      (''products'', [''product_id'', ''product_category_name'', ''product_name_lenght'',
         ''product_description_lenght'', ''product_photos_qty'', ''product_weight_g'',
         ''product_length_cm'', ''product_height_cm'', ''product_width_cm'']),
      (''sellers'', [''seller_id'', ''seller_zip_code_prefix'', ''seller_city'', ''seller_state'']),
      (''product_category_name_translation'',
         [''product_category_name'', ''product_category_name_english''])]"

definition ops_read_table_columns :: "(string \<times> string list) list" where
  "ops_read_table_columns =
     [(''investigation_tasks'', [''task_ref'', ''status'', ''assignee_ref'', ''version'', ''evidence_summary'']),
      (''risk_annotations'', [''risk_ref'', ''seller_ref'', ''status'', ''observed_from'', ''observed_to'',
         ''metric_ref'', ''metric_value'']),
      (''enabled_metric_alert_rules'', [''rule_ref'', ''metric_ref'', ''metric_revision'', ''grain'',
         ''comparator'', ''threshold'', ''window'', ''version'']),
      (''enabled_metric_alert_hits'', [''hit_ref'', ''rule_ref'', ''window_start'', ''window_end'',
         ''value'', ''coverage''])]"

definition allowed_relations :: "(string \<times> (string \<times> string list) list) list" where
  "allowed_relations = [(''retail'', retail_table_columns), (''ops_read'', ops_read_table_columns)]"

type_synonym column_ref = "string \<times> string"

definition allowed_join_edges :: "column_ref set list" where
  "allowed_join_edges =
     [{(''orders'', ''customer_id''), (''customers'', ''customer_id'')},
      {(''order_items'', ''order_id''), (''orders'', ''order_id'')},
      {(''order_items'', ''product_id''), (''products'', ''product_id'')},
      {(''order_items'', ''seller_id''), (''sellers'', ''seller_id'')},
      {(''order_payments'', ''order_id''), (''orders'', ''order_id'')},
      {(''order_reviews'', ''order_id''), (''orders'', ''order_id'')},
      {(''products'', ''product_category_name''),
       (''product_category_name_translation'', ''product_category_name'')}]"

definition allowed_functions :: "string list" where
  "allowed_functions = [''AVG'', ''COALESCE'', ''COUNT'', ''EXTRACT'', ''LOWER'', ''MAX'', ''MIN'',
     ''NULLIF'', ''ROUND'', ''SUM'', ''TIMESTAMP_TRUNC'', ''UPPER'']"

definition raw_identity_columns :: "string list" where
  "raw_identity_columns = [''seller_id'', ''customer_id'', ''customer_unique_id'', ''order_id'']"

subsection \<open>Sources and columns of a scope\<close>

type_synonym source_columns = "(string \<times> string list) list"
type_synonym source_tables = "(string \<times> string) list"

text \<open>One source: its columns, and its table name when it is a table.\<close>

definition resolve_source :: "sqlglot \<Rightarrow> source \<Rightarrow> policy_error + string list \<times> string option" where
  "resolve_source G s = (case s of
       TableSource t \<Rightarrow>
         if sg_catalog G t \<noteq> [] then Inl (Violation ''catalog_denied'')
         else
           let schema = (if sg_db G t = [] then ''retail'' else sg_db G t) in
           (case map_of allowed_relations schema of
              None \<Rightarrow> Inl (Violation ''schema_denied'')
            | Some relations \<Rightarrow>
                (case map_of relations (sg_name G t) of
                   None \<Rightarrow> Inl (Violation ''table_denied'')
                 | Some columns \<Rightarrow>
                     Inr (columns, Some (if schema = ''retail'' then sg_name G t
                                         else schema @ ''.'' @ sg_name G t))))
     | ScopeSource sc \<Rightarrow> Inr (sg_named_selects G (scope_expression sc), None)
     | OtherSource \<Rightarrow> Inl (Violation ''source_denied''))"

fun resolve_sources :: "sqlglot \<Rightarrow> (string \<times> source) list \<Rightarrow> policy_error + source_columns \<times> source_tables" where
  "resolve_sources G [] = Inr ([], [])"
| "resolve_sources G ((alias, s) # rest) =
     rbind (resolve_source G s) (\<lambda>(columns, table).
     rbind (resolve_sources G rest) (\<lambda>(cs, ts).
     Inr ((alias, columns) # cs, (case table of None \<Rightarrow> ts | Some t \<Rightarrow> (alias, t) # ts))))"

definition scope_sources_of :: "sqlglot \<Rightarrow> scope \<Rightarrow> policy_error + source_columns \<times> source_tables" where
  "scope_sources_of G sc = resolve_sources G (scope_sources sc)"

definition validate_column :: "sqlglot \<Rightarrow> source_columns \<Rightarrow> node \<Rightarrow> policy_error + unit" where
  "validate_column G cols c =
     (if sg_is_star G c then Inr ()
      else if sg_table G c \<noteq> [] then
        (case map_of cols (sg_table G c) of
           None \<Rightarrow> Inl (Violation ''column_denied'')
         | Some columns \<Rightarrow> require (sg_name G c \<in> set columns) (Violation ''column_denied''))
      else require (length (filter (\<lambda>columns. sg_name G c \<in> set columns) (map snd cols)) = 1)
             (Violation ''column_ambiguous''))"

text \<open>A check that raises at the first item it refuses.\<close>

fun check_all :: "('a \<Rightarrow> 'e + unit) \<Rightarrow> 'a list \<Rightarrow> 'e + unit" where
  "check_all f [] = Inr ()"
| "check_all f (x # xs) = rbind (f x) (\<lambda>_. check_all f xs)"

definition validate_scope_columns :: "sqlglot \<Rightarrow> scope \<Rightarrow> source_columns \<Rightarrow> policy_error + unit" where
  "validate_scope_columns G sc cols = check_all (validate_column G cols) (scope_columns sc)"

text \<open>The projected expression under an alias.\<close>

definition projected :: "sqlglot \<Rightarrow> node \<Rightarrow> node" where
  "projected G p = (if sg_isinstance G p ''Alias''
     then (case expr_arg ''this'' p of Some m \<Rightarrow> m | None \<Rightarrow> p) else p)"

definition validate_direct_stars :: "sqlglot \<Rightarrow> scope \<Rightarrow> source_columns \<Rightarrow> policy_error + unit" where
  "validate_direct_stars G sc cols =
     check_all (\<lambda>p. require (\<not> (sg_isinstance G (projected G p) ''Star'' \<and> length cols \<noteq> 1))
                     (Violation ''star_ambiguous''))
       (expressions (scope_expression sc))"

subsection \<open>Termination of the stack loops\<close>

definition stack_size :: "node list \<Rightarrow> nat" where
  "stack_size st = sum_list (map size st)"

lemma arg_exprs_size: "sum_list (map size (arg_exprs a)) < size a + 1"
proof (cases a)
  case (AList xs)
  have "sum_list (map size (concat (map (\<lambda>x. case x of AExpr n \<Rightarrow> [n] | _ \<Rightarrow> []) xs))) \<le> size_list size xs"
    by (induction xs) (auto split: arg.splits)
  with AList show ?thesis by simp
qed simp_all

lemma children_size: "stack_size (children n) < size n"
proof (cases n)
  case (Node c as)
  have "sum_list (map size (concat (map (arg_exprs \<circ> snd) as))) \<le> size_list (size_prod (\<lambda>_. 0) size) as"
  proof (induction as)
    case (Cons a as)
    then show ?case using arg_exprs_size [of "snd a"] by (cases a) auto
  qed simp
  with Node show ?thesis by (simp add: stack_size_def children_def)
qed

lemma stack_size_push [simp]: "stack_size (rev (children n) @ st) < stack_size (n # st)"
  using children_size [of n] by (simp add: stack_size_def rev_map [symmetric] sum_list_rev)

lemma stack_size_pop [simp]: "stack_size st < stack_size (n # st)"
  by (cases n) (simp add: stack_size_def)

subsection \<open>Identity columns in a projection\<close>

text \<open>The loop of \<open>_identity_leaks\<close>.\<close>

function identity_leaks_loop :: "sqlglot \<Rightarrow> node list \<Rightarrow> bool" where
  "identity_leaks_loop G [] = False"
| "identity_leaks_loop G (current # stack) =
     (if sg_isinstance G current ''Count'' then identity_leaks_loop G stack
      else if sg_isinstance G current ''Column''
      then (if sg_name G current \<in> set raw_identity_columns then True else identity_leaks_loop G stack)
      else identity_leaks_loop G (rev (children current) @ stack))"
  by pat_completeness auto
termination
  by (relation "measure (\<lambda>(G, st). stack_size st)") (simp_all only: in_measure split stack_size_pop stack_size_push wf_measure)

definition identity_leaks :: "sqlglot \<Rightarrow> node \<Rightarrow> bool" where
  "identity_leaks G n = identity_leaks_loop G [n]"

definition star_node :: "sqlglot \<Rightarrow> node \<Rightarrow> bool" where
  "star_node G n \<longleftrightarrow> sg_isinstance G n ''Star'' \<or> sg_isinstance G n ''Column'' \<and> sg_is_star G n"

definition star_count :: "sqlglot \<Rightarrow> node \<Rightarrow> bool" where
  "star_count G n \<longleftrightarrow> sg_isinstance G n ''Count''
     \<and> (case expr_arg ''this'' n of Some m \<Rightarrow> sg_isinstance G m ''Star'' | None \<Rightarrow> False)"

text \<open>\<open>COUNT(*)\<close> pushes its arguments but \<open>this\<close> (the argument found under that name).\<close>

definition count_children :: "node \<Rightarrow> node list" where
  "count_children n = concat (map (arg_exprs \<circ> snd) (filter (\<lambda>kv. fst kv \<noteq> ''this'') (node_args n)))"

lemma count_children_size: "stack_size (count_children n) \<le> stack_size (children n)"
proof -
  have "stack_size (concat (map (arg_exprs \<circ> snd) (filter P as))) \<le> stack_size (concat (map (arg_exprs \<circ> snd) as))"
    for P :: "string \<times> arg \<Rightarrow> bool" and as
    by (induction as) (auto simp: stack_size_def)
  then show ?thesis by (simp add: count_children_def children_def)
qed

lemma stack_size_push_count [simp]: "stack_size (rev (count_children n) @ st) < stack_size (n # st)"
  using count_children_size [of n] children_size [of n]
  by (simp add: stack_size_def rev_map [symmetric] sum_list_rev)

function nested_star_loop :: "sqlglot \<Rightarrow> node list \<Rightarrow> bool" where
  "nested_star_loop G [] = False"
| "nested_star_loop G (current # stack) =
     (if sg_isinstance G current ''Star'' then True
      else if sg_isinstance G current ''Column'' \<and> sg_is_star G current then True
      else if star_count G current then nested_star_loop G (rev (count_children current) @ stack)
      else nested_star_loop G (rev (children current) @ stack))"
  by pat_completeness auto
termination
  by (relation "measure (\<lambda>(G, st). stack_size st)")
    (simp_all only: in_measure split stack_size_pop stack_size_push stack_size_push_count wf_measure)

definition contains_nested_star :: "sqlglot \<Rightarrow> node \<Rightarrow> bool" where
  "contains_nested_star G p =
     (if sg_isinstance G p ''Star'' then False
      else if sg_isinstance G p ''Column'' \<and> sg_is_star G p then False
      else nested_star_loop G [p])"

definition has_identity :: "string list \<Rightarrow> bool" where
  "has_identity columns \<longleftrightarrow> list_ex (\<lambda>c. c \<in> set raw_identity_columns) columns"

definition validate_projection :: "sqlglot \<Rightarrow> source_columns \<Rightarrow> node \<Rightarrow> policy_error + unit" where
  "validate_projection G cols p =
     (let q = projected G p in
      if identity_leaks G q then Inl (Violation ''identity_projection_denied'')
      else if contains_nested_star G q then Inl (Violation ''identity_projection_denied'')
      else if sg_isinstance G q ''Star'' \<and> list_ex (has_identity \<circ> snd) cols
      then Inl (Violation ''identity_projection_denied'')
      else if sg_isinstance G q ''Column'' \<and> sg_is_star G q
        \<and> has_identity (case map_of cols (sg_table G q) of None \<Rightarrow> [] | Some c \<Rightarrow> c)
      then Inl (Violation ''identity_projection_denied'')
      else require (\<not> (sg_isinstance G q ''Column'' \<and> sg_is_star G q \<and> sg_table G q \<notin> set (map fst cols)))
             (Violation ''star_denied''))"

definition validate_identity_projections :: "sqlglot \<Rightarrow> scope \<Rightarrow> source_columns \<Rightarrow> policy_error + unit" where
  "validate_identity_projections G sc cols =
     check_all (validate_projection G cols) (expressions (scope_expression sc))"

subsection \<open>Functions and joins\<close>

definition upper_ascii :: "string \<Rightarrow> string" where
  "upper_ascii s = map (\<lambda>c. if is_lower c then char_of (of_char c - 32 :: nat) else c) s"

definition validate_function :: "sqlglot \<Rightarrow> node \<Rightarrow> policy_error + unit" where
  "validate_function G f =
     (if sg_isinstance G f ''And'' \<or> sg_isinstance G f ''Or'' \<or> sg_isinstance G f ''Not'' then Inr ()
      else require (upper_ascii (sg_sql_name G f) \<in> set allowed_functions) (Violation ''function_denied''))"

definition validate_functions :: "sqlglot \<Rightarrow> node \<Rightarrow> policy_error + unit" where
  "validate_functions G st = check_all (validate_function G) (sg_find_all G st ''Func'')"

text \<open>\<open>_and_terms\<close>: an And is split into its two sides (an absent side stays a non-EQ term).\<close>

lemma expr_arg_size: "expr_arg k n = Some m \<Longrightarrow> size m < size n"
proof -
  assume a: "expr_arg k n = Some m"
  then have "m \<in> set (children n)"
    by (auto simp: expr_arg_def get_arg_def children_def split: option.splits arg.splits
        dest!: map_of_SomeD intro!: bexI [of _ "(k, AExpr m)"])
  then have "size m \<le> stack_size (children n)"
    by (auto simp: stack_size_def intro: member_le_sum_list)
  with children_size [of n] show ?thesis by linarith
qed

function and_terms :: "sqlglot \<Rightarrow> node \<Rightarrow> node option list" where
  "and_terms G n =
     (if sg_isinstance G n ''And'' then
        (case expr_arg ''this'' n of Some l \<Rightarrow> and_terms G l | None \<Rightarrow> [None])
        @ (case expr_arg ''expression'' n of Some r \<Rightarrow> and_terms G r | None \<Rightarrow> [None])
      else [Some n])"
  by pat_completeness auto
termination
  by (relation "measure (\<lambda>(G, n). size n)") (auto dest: expr_arg_size)

declare and_terms.simps [simp del]

definition column_ref_of :: "sqlglot \<Rightarrow> source_tables \<Rightarrow> node option \<Rightarrow> column_ref option" where
  "column_ref_of G tables n = (case n of
       None \<Rightarrow> None
     | Some c \<Rightarrow>
         if \<not> sg_isinstance G c ''Column'' \<or> sg_table G c = [] then None
         else map_option (\<lambda>t. (t, sg_name G c)) (map_of tables (sg_table G c)))"

definition validate_term :: "sqlglot \<Rightarrow> source_tables \<Rightarrow> node option \<Rightarrow> policy_error + unit" where
  "validate_term G tables t = (case t of
       None \<Rightarrow> Inl (Violation ''join_condition'')
     | Some n \<Rightarrow>
         if \<not> sg_isinstance G n ''EQ'' then Inl (Violation ''join_condition'')
         else (case (column_ref_of G tables (expr_arg ''this'' n), column_ref_of G tables (expr_arg ''expression'' n)) of
             (Some l, Some r) \<Rightarrow> require ({l, r} \<in> set allowed_join_edges) (Violation ''join_edge'')
           | _ \<Rightarrow> Inl (Violation ''join_edge'')))"

definition validate_join :: "sqlglot \<Rightarrow> source_tables \<Rightarrow> node \<Rightarrow> policy_error + unit" where
  "validate_join G tables j =
     (if upper_ascii (case get_arg j ''kind'' of AText s \<Rightarrow> s | _ \<Rightarrow> []) = ''CROSS''
      then Inl (Violation ''cross_join'')
      else case expr_arg ''on'' j of
          None \<Rightarrow> Inl (Violation ''join_without_on'')
        | Some condition \<Rightarrow> check_all (validate_term G tables) (and_terms G condition))"

definition joins :: "node \<Rightarrow> node list" where
  "joins n = (case get_arg n ''joins'' of AList xs \<Rightarrow> arg_exprs (AList xs) | _ \<Rightarrow> [])"

definition validate_joins :: "sqlglot \<Rightarrow> scope \<Rightarrow> source_tables \<Rightarrow> policy_error + unit" where
  "validate_joins G sc tables = check_all (validate_join G tables) (joins (scope_expression sc))"

subsection \<open>Aggregation and limits\<close>

definition aggregate_boundary :: "sqlglot \<Rightarrow> node \<Rightarrow> bool" where
  "aggregate_boundary G n \<longleftrightarrow>
     sg_isinstance G n ''Subquery'' \<or> sg_isinstance G n ''Select'' \<or> sg_isinstance G n ''Window''"

function aggregate_loop :: "sqlglot \<Rightarrow> node list \<Rightarrow> bool" where
  "aggregate_loop G [] = False"
| "aggregate_loop G (n # stack) =
     (if aggregate_boundary G n then aggregate_loop G stack
      else if sg_isinstance G n ''AggFunc'' then True
      else aggregate_loop G (rev (children n) @ stack))"
  by pat_completeness auto
termination
  by (relation "measure (\<lambda>(G, st). stack_size st)") (simp_all only: in_measure split stack_size_pop stack_size_push wf_measure)

definition projection_is_aggregate :: "sqlglot \<Rightarrow> node \<Rightarrow> bool" where
  "projection_is_aggregate G p = aggregate_loop G [p]"

definition validate_limit :: "sqlglot \<Rightarrow> node \<Rightarrow> bool \<Rightarrow> policy_error + unit" where
  "validate_limit G st is_aggregate =
     (if is_aggregate then Inr ()
      else case Option.bind (expr_arg ''limit'' st) (expr_arg ''expression'') of
          None \<Rightarrow> Inl (Violation ''detail_limit'')
        | Some v \<Rightarrow>
            if \<not> sg_isinstance G v ''Literal'' \<or> \<not> sg_is_int G v then Inl (Violation ''detail_limit'')
            else require (1 \<le> sg_literal G v \<and> sg_literal G v \<le> 1000) (Violation ''detail_limit''))"

subsection \<open>Validation of a query\<close>

record validated_query =
  vq_sql :: string
  vq_is_aggregate :: bool

definition denied_nodes :: "string list" where
  "denied_nodes = [''Delete'', ''Insert'', ''Update'', ''Merge'', ''Into'', ''Lock'']"

definition parse_statement :: "sqlglot \<Rightarrow> string \<Rightarrow> policy_error + node" where
  "parse_statement G sql =
     (let caught = (\<lambda>e. case e of ParseError \<Rightarrow> Violation ''parse_error'' | _ \<Rightarrow> Escaped e) in
      case sg_tokenize G sql of
        Inl e \<Rightarrow> Inl (caught e)
      | Inr tokens \<Rightarrow>
          if ''SEMICOLON'' \<in> set tokens then Inl (Violation ''multiple_statements'')
          else (case sg_parse G sql of
              Inl e \<Rightarrow> Inl (caught e)
            | Inr [Some st] \<Rightarrow> Inr st
            | Inr _ \<Rightarrow> Inl (Violation ''statement_count'')))"

definition validate_scope :: "sqlglot \<Rightarrow> scope \<Rightarrow> policy_error + unit" where
  "validate_scope G sc =
     rbind (scope_sources_of G sc) (\<lambda>(cols, tables).
     rbind (validate_scope_columns G sc cols) (\<lambda>_.
     rbind (validate_direct_stars G sc cols) (\<lambda>_.
     rbind (validate_joins G sc tables) (\<lambda>_.
     validate_identity_projections G sc cols))))"

definition truthy :: "arg \<Rightarrow> bool" where
  "truthy a = (case a of ANone \<Rightarrow> False | AFlag b \<Rightarrow> b | AText s \<Rightarrow> s \<noteq> [] | AList xs \<Rightarrow> xs \<noteq> [] | AExpr _ \<Rightarrow> True)"

definition recursive_with :: "node \<Rightarrow> bool" where
  "recursive_with st = (case expr_arg ''with_'' st of None \<Rightarrow> False | Some w \<Rightarrow> truthy (get_arg w ''recursive''))"

definition is_aggregate_query :: "sqlglot \<Rightarrow> node \<Rightarrow> bool" where
  "is_aggregate_query G st \<longleftrightarrow>
     list_ex (projection_is_aggregate G) (expressions st) \<or> get_arg st ''group'' \<noteq> ANone"

definition validate_sql :: "sqlglot \<Rightarrow> string \<Rightarrow> policy_error + validated_query" where
  "validate_sql G sql =
     rbind (parse_statement G sql) (\<lambda>st.
     if \<not> sg_isinstance G st ''Select'' then Inl (Violation ''root_not_select'')
     else if list_ex (\<lambda>d. sg_find_all G st d \<noteq> []) denied_nodes then Inl (Violation ''denied_ast_node'')
     else if recursive_with st then Inl (Violation ''recursive_cte'')
     else
       let is_aggregate = is_aggregate_query G st in
       (case sg_traverse_scope G st of
          Inl e \<Rightarrow> Inl (Escaped e)
        | Inr scopes \<Rightarrow>
            rbind (check_all (validate_scope G) scopes) (\<lambda>_.
            rbind (validate_functions G st) (\<lambda>_.
            rbind (validate_limit G st is_aggregate) (\<lambda>_.
            Inr \<lparr>vq_sql = sql, vq_is_aggregate = is_aggregate\<rparr>)))))"
subsection \<open>What the loops decide\<close>

text \<open>
  A loop over a stack that looks for a hit and follows a child relation answers whether a hit is
  reachable from a node of the stack.
\<close>

lemma rtranclp_root: "(\<exists>m. rtranclp R n m \<and> P m) \<longleftrightarrow> P n \<or> (\<exists>c. R n c \<and> (\<exists>m. rtranclp R c m \<and> P m))"
  by (metis converse_rtranclpE converse_rtranclp_into_rtranclp rtranclp.rtrancl_refl)

definition identity_step :: "sqlglot \<Rightarrow> node \<Rightarrow> node \<Rightarrow> bool" where
  "identity_step G n c \<longleftrightarrow> \<not> sg_isinstance G n ''Count'' \<and> \<not> sg_isinstance G n ''Column'' \<and> c \<in> set (children n)"

definition identity_column :: "sqlglot \<Rightarrow> node \<Rightarrow> bool" where
  "identity_column G n \<longleftrightarrow> \<not> sg_isinstance G n ''Count'' \<and> sg_isinstance G n ''Column''
     \<and> sg_name G n \<in> set raw_identity_columns"

definition exposes_identity :: "sqlglot \<Rightarrow> node \<Rightarrow> bool" where
  "exposes_identity G n \<longleftrightarrow> (\<exists>m. rtranclp (identity_step G) n m \<and> identity_column G m)"

lemma exposes_identity_unfold:
  "exposes_identity G n \<longleftrightarrow> identity_column G n
     \<or> (\<not> sg_isinstance G n ''Count'' \<and> \<not> sg_isinstance G n ''Column'' \<and> (\<exists>c \<in> set (children n). exposes_identity G c))"
  unfolding exposes_identity_def by (subst rtranclp_root) (auto simp: identity_step_def)

lemma identity_leaks_loop_iff: "identity_leaks_loop G st \<longleftrightarrow> (\<exists>n \<in> set st. exposes_identity G n)"
proof (induction G st rule: identity_leaks_loop.induct)
  case (2 G n st)
  show ?case
    unfolding identity_leaks_loop.simps list.set bex_simps exposes_identity_unfold [of G n]
    using 2 by (auto simp: identity_column_def)
qed simp

definition star_step :: "sqlglot \<Rightarrow> node \<Rightarrow> node \<Rightarrow> bool" where
  "star_step G n c \<longleftrightarrow> c \<in> set (if star_count G n then count_children n else children n)"

definition reaches_star :: "sqlglot \<Rightarrow> node \<Rightarrow> bool" where
  "reaches_star G n \<longleftrightarrow> (\<exists>m. rtranclp (star_step G) n m \<and> star_node G m)"

lemma reaches_star_unfold: "reaches_star G n \<longleftrightarrow> star_node G n \<or> (\<exists>c. star_step G n c \<and> reaches_star G c)"
  unfolding reaches_star_def by (subst rtranclp_root) auto

lemma nested_star_loop_iff: "nested_star_loop G st \<longleftrightarrow> (\<exists>n \<in> set st. reaches_star G n)"
proof (induction G st rule: nested_star_loop.induct)
  case (2 G n st)
  show ?case
    unfolding nested_star_loop.simps list.set bex_simps reaches_star_unfold [of G n]
    using 2 by (auto simp: star_node_def star_step_def)
qed simp

definition aggregate_step :: "sqlglot \<Rightarrow> node \<Rightarrow> node \<Rightarrow> bool" where
  "aggregate_step G n c \<longleftrightarrow> \<not> aggregate_boundary G n \<and> c \<in> set (children n)"

definition aggregates :: "sqlglot \<Rightarrow> node \<Rightarrow> bool" where
  "aggregates G n \<longleftrightarrow> (\<exists>m. rtranclp (aggregate_step G) n m \<and> \<not> aggregate_boundary G m \<and> sg_isinstance G m ''AggFunc'')"

lemma aggregates_unfold:
  "aggregates G n \<longleftrightarrow> \<not> aggregate_boundary G n \<and> (sg_isinstance G n ''AggFunc'' \<or> (\<exists>c \<in> set (children n). aggregates G c))"
  unfolding aggregates_def by (subst rtranclp_root) (auto simp: aggregate_step_def)

lemma aggregate_loop_iff: "aggregate_loop G st \<longleftrightarrow> (\<exists>n \<in> set st. aggregates G n)"
proof (induction G st rule: aggregate_loop.induct)
  case (2 G n st)
  show ?case
    unfolding aggregate_loop.simps list.set bex_simps aggregates_unfold [of G n]
    using 2 by auto
qed simp
subsection \<open>What a validated query satisfies\<close>

lemma check_all_Inr: "check_all f xs = Inr u \<longleftrightarrow> (\<forall>x \<in> set xs. f x = Inr ())"
  by (induction xs) (auto simp: rbind_Inr_iff)

lemma validate_sql_Inr:
  assumes "validate_sql G sql = Inr q"
  obtains st scopes where "parse_statement G sql = Inr st" "sg_isinstance G st ''Select''"
    "\<forall>d \<in> set denied_nodes. sg_find_all G st d = []" "\<not> recursive_with st"
    "sg_traverse_scope G st = Inr scopes" "\<forall>sc \<in> set scopes. validate_scope G sc = Inr ()"
    "validate_functions G st = Inr ()" "validate_limit G st (is_aggregate_query G st) = Inr ()"
    "q = \<lparr>vq_sql = sql, vq_is_aggregate = is_aggregate_query G st\<rparr>"
  using assms
  by (auto simp: validate_sql_def rbind_Inr_iff Let_def check_all_Inr list_ex_iff split: if_splits sum.splits)

lemma parse_statement_Inr:
  "parse_statement G sql = Inr st \<longleftrightarrow>
     (\<exists>tokens. sg_tokenize G sql = Inr tokens \<and> ''SEMICOLON'' \<notin> set tokens) \<and> sg_parse G sql = Inr [Some st]"
  by (auto simp: parse_statement_def Let_def split: sum.splits if_splits list.splits option.splits)

lemma validate_scope_Inr:
  "validate_scope G sc = Inr () \<longleftrightarrow> (\<exists>cols tables. scope_sources_of G sc = Inr (cols, tables)
     \<and> validate_scope_columns G sc cols = Inr () \<and> validate_direct_stars G sc cols = Inr ()
     \<and> validate_joins G sc tables = Inr () \<and> validate_identity_projections G sc cols = Inr ())"
  by (auto simp: validate_scope_def rbind_Inr_iff)

lemma resolve_sources_map:
  "resolve_sources G ss = Inr (cols, tables) \<Longrightarrow>
     map fst cols = map fst ss
     \<and> (\<forall>a c. (a, c) \<in> set cols \<longrightarrow> (\<exists>s t. (a, s) \<in> set ss \<and> resolve_source G s = Inr (c, t)))"
proof (induction G ss arbitrary: cols tables rule: resolve_sources.induct)
  case (2 G a s rest)
  from "2.prems" obtain c t cs ts where r: "resolve_source G s = Inr (c, t)" "resolve_sources G rest = Inr (cs, ts)"
    and eq: "cols = (a, c) # cs" "tables = (case t of None \<Rightarrow> ts | Some t \<Rightarrow> (a, t) # ts)"
    by (auto simp: rbind_Inr_iff)
  from "2.IH" [OF r(2)] r(1) show ?case
    unfolding eq by simp blast
qed simp

text \<open>A source a query may read: a table of the catalogue, or the selects of an inner scope.\<close>

definition catalogue_source :: "sqlglot \<Rightarrow> source \<Rightarrow> string list \<Rightarrow> bool" where
  "catalogue_source G s columns \<longleftrightarrow>
     (\<exists>t relations. s = TableSource t \<and> sg_catalog G t = []
        \<and> map_of allowed_relations (if sg_db G t = [] then ''retail'' else sg_db G t) = Some relations
        \<and> map_of relations (sg_name G t) = Some columns)
     \<or> (\<exists>sc. s = ScopeSource sc \<and> columns = sg_named_selects G (scope_expression sc))"

lemma resolve_source_Inr: "resolve_source G s = Inr (columns, t) \<Longrightarrow> catalogue_source G s columns"
  by (cases s) (auto simp: resolve_source_def catalogue_source_def Let_def split: if_splits option.splits)

text \<open>
  C38: a validated query stays inside the catalogue. It is one SELECT without semicolon, write,
  INTO, lock or recursive CTE. Every source of every scope is a table of the allow list with its listed columns,
  or an inner scope (a subquery or a CTE) with the names it selects. Every column of every scope, stars apart,
  is a column of one of its sources, of exactly one when it is unqualified. Every function it calls is on the list.
\<close>

theorem validated_query_in_catalogue:
  assumes "validate_sql G sql = Inr q"
  shows "\<exists>st scopes. sg_parse G sql = Inr [Some st] \<and> sg_isinstance G st ''Select''
    \<and> (\<forall>d \<in> set denied_nodes. sg_find_all G st d = []) \<and> \<not> recursive_with st
    \<and> sg_traverse_scope G st = Inr scopes
    \<and> (\<forall>f \<in> set (sg_find_all G st ''Func''). sg_isinstance G f ''And'' \<or> sg_isinstance G f ''Or''
         \<or> sg_isinstance G f ''Not'' \<or> upper_ascii (sg_sql_name G f) \<in> set allowed_functions)
    \<and> (\<forall>sc \<in> set scopes. \<exists>cols. map fst cols = map fst (scope_sources sc)
         \<and> (\<forall>(alias, columns) \<in> set cols. \<exists>s. (alias, s) \<in> set (scope_sources sc) \<and> catalogue_source G s columns)
         \<and> (\<forall>c \<in> set (scope_columns sc). sg_is_star G c
              \<or> (sg_table G c \<noteq> [] \<and> (\<exists>columns. map_of cols (sg_table G c) = Some columns \<and> sg_name G c \<in> set columns))
              \<or> (sg_table G c = [] \<and> length (filter (\<lambda>columns. sg_name G c \<in> set columns) (map snd cols)) = 1)))"
  using assms
proof (rule validate_sql_Inr)
  fix st scopes
  assume v: "parse_statement G sql = Inr st" "sg_isinstance G st ''Select''"
    "\<forall>d \<in> set denied_nodes. sg_find_all G st d = []" "\<not> recursive_with st"
    "sg_traverse_scope G st = Inr scopes" "\<forall>sc \<in> set scopes. validate_scope G sc = Inr ()"
    "validate_functions G st = Inr ()"
  have scope: "\<exists>cols. map fst cols = map fst (scope_sources sc)
         \<and> (\<forall>(alias, columns) \<in> set cols. \<exists>s. (alias, s) \<in> set (scope_sources sc) \<and> catalogue_source G s columns)
         \<and> (\<forall>c \<in> set (scope_columns sc). sg_is_star G c
              \<or> (sg_table G c \<noteq> [] \<and> (\<exists>columns. map_of cols (sg_table G c) = Some columns \<and> sg_name G c \<in> set columns))
              \<or> (sg_table G c = [] \<and> length (filter (\<lambda>columns. sg_name G c \<in> set columns) (map snd cols)) = 1))"
    if sc: "sc \<in> set scopes" for sc
  proof -
    obtain cols tables where r: "resolve_sources G (scope_sources sc) = Inr (cols, tables)"
      and c: "validate_scope_columns G sc cols = Inr ()"
      using bspec [OF v(6) sc] by (auto simp: validate_scope_Inr scope_sources_of_def)
    have cc: "sg_is_star G c
              \<or> (sg_table G c \<noteq> [] \<and> (\<exists>columns. map_of cols (sg_table G c) = Some columns \<and> sg_name G c \<in> set columns))
              \<or> (sg_table G c = [] \<and> length (filter (\<lambda>columns. sg_name G c \<in> set columns) (map snd cols)) = 1)"
      if col: "c \<in> set (scope_columns sc)" for c
    proof -
      have "validate_column G cols c = Inr ()" using c col by (simp add: validate_scope_columns_def check_all_Inr)
      then show ?thesis by (auto simp: validate_column_def split: if_splits option.splits)
    qed
    note m = resolve_sources_map [OF r]
    have inner: "\<exists>s. (nm, s) \<in> set (scope_sources sc) \<and> catalogue_source G s columns"
      if c: "(nm, columns) \<in> set cols" for nm columns
    proof -
      obtain s t where "(nm, s) \<in> set (scope_sources sc)" "resolve_source G s = Inr (columns, t)"
        using m c by blast
      then show ?thesis using resolve_source_Inr by blast
    qed
    have src: "\<forall>(alias, columns) \<in> set cols. \<exists>s. (alias, s) \<in> set (scope_sources sc) \<and> catalogue_source G s columns"
      using inner by blast
    show ?thesis by (rule exI [of _ cols], rule conjI [OF conjunct1 [OF m]], rule conjI [OF src], rule ballI, rule cc)
  qed
  have "\<forall>f \<in> set (sg_find_all G st ''Func''). sg_isinstance G f ''And'' \<or> sg_isinstance G f ''Or''
         \<or> sg_isinstance G f ''Not'' \<or> upper_ascii (sg_sql_name G f) \<in> set allowed_functions"
    using v(7) by (auto simp: validate_functions_def check_all_Inr validate_function_def split: if_splits)
  moreover have "sg_parse G sql = Inr [Some st]" using v(1) by (simp add: parse_statement_Inr)
  ultimately show ?thesis
    using v(2-5) scope by (intro exI [of _ st] exI [of _ scopes]) (simp only: simp_thms, blast)
qed

text \<open>
  C39: a validated query shows no identity. In every scope of a validated query no projected
  expression reaches a seller, customer or order identifier except below a COUNT, no star hides
  inside an expression (COUNT(*) apart), a bare star stands for sources without identifiers, and a
  qualified star for a known source without identifiers. The loops are reachability, so nothing is
  missed however deep it is nested.
\<close>

theorem validated_query_hides_identity:
  assumes "validate_sql G sql = Inr q" "sg_parse G sql = Inr [Some st]"
    and "sg_traverse_scope G st = Inr scopes" "sc \<in> set scopes"
    and "p \<in> set (expressions (scope_expression sc))"
  shows "\<exists>cols tables. scope_sources_of G sc = Inr (cols, tables)
    \<and> \<not> exposes_identity G (projected G p)
    \<and> (sg_isinstance G (projected G p) ''Star'' \<longrightarrow> (\<forall>(alias, columns) \<in> set cols. \<not> has_identity columns))
    \<and> (\<not> sg_isinstance G (projected G p) ''Star'' \<longrightarrow> star_node G (projected G p)
         \<longrightarrow> (\<exists>columns. map_of cols (sg_table G (projected G p)) = Some columns \<and> \<not> has_identity columns))
    \<and> (\<not> star_node G (projected G p) \<longrightarrow> \<not> reaches_star G (projected G p))"
  using assms(1)
proof (rule validate_sql_Inr)
  fix st' scopes'
  assume v: "parse_statement G sql = Inr st'" "sg_traverse_scope G st' = Inr scopes'"
    "\<forall>sc \<in> set scopes'. validate_scope G sc = Inr ()"
  have "st' = st" using v(1) assms(2) by (simp add: parse_statement_Inr)
  then have "validate_scope G sc = Inr ()" using v assms(3,4) by simp
  then obtain cols tables where r: "scope_sources_of G sc = Inr (cols, tables)"
    and i: "validate_identity_projections G sc cols = Inr ()" by (auto simp: validate_scope_Inr)
  have p: "validate_projection G cols p = Inr ()"
    using i assms(5) by (simp add: validate_identity_projections_def check_all_Inr)
  have "\<not> exposes_identity G (projected G p)"
    using p identity_leaks_loop_iff [of G "[projected G p]"]
    by (auto simp: validate_projection_def Let_def identity_leaks_def split: if_splits)
  moreover have "\<forall>(alias, columns) \<in> set cols. \<not> has_identity columns"
    if "sg_isinstance G (projected G p) ''Star''"
    using p that by (auto simp: validate_projection_def Let_def list_ex_iff split: if_splits)
  moreover have "\<exists>columns. map_of cols (sg_table G (projected G p)) = Some columns \<and> \<not> has_identity columns"
    if "\<not> sg_isinstance G (projected G p) ''Star''" "star_node G (projected G p)"
  proof -
    have "sg_table G (projected G p) \<in> set (map fst cols)"
      using p that by (auto simp: validate_projection_def Let_def star_node_def split: if_splits)
    then obtain columns where "map_of cols (sg_table G (projected G p)) = Some columns"
      by (cases "map_of cols (sg_table G (projected G p))") (simp_all add: map_of_eq_None_iff)
    with p that show ?thesis by (auto simp: validate_projection_def Let_def star_node_def split: if_splits)
  qed
  moreover have "\<not> reaches_star G (projected G p)" if "\<not> star_node G (projected G p)"
    using p that nested_star_loop_iff [of G "[projected G p]"]
    by (auto simp: validate_projection_def Let_def contains_nested_star_def star_node_def split: if_splits)
  ultimately show ?thesis using r by blast
qed

text \<open>
  detail rows are limited. A validated query aggregates at its output grain (a projection
  reaches an aggregate without crossing a subquery, a select or a window; or it groups), or it
  carries an integer literal LIMIT between 1 and 1000.
\<close>

theorem validated_query_limited:
  assumes "validate_sql G sql = Inr q" "sg_parse G sql = Inr [Some st]"
  shows "(vq_is_aggregate q \<and> ((\<exists>p \<in> set (expressions st). aggregates G p) \<or> get_arg st ''group'' \<noteq> ANone))
    \<or> (\<exists>l v. expr_arg ''limit'' st = Some l \<and> expr_arg ''expression'' l = Some v
         \<and> sg_isinstance G v ''Literal'' \<and> sg_is_int G v \<and> 1 \<le> sg_literal G v \<and> sg_literal G v \<le> 1000)"
  using assms(1)
proof (rule validate_sql_Inr)
  fix st' assume v: "parse_statement G sql = Inr st'"
    "validate_limit G st' (is_aggregate_query G st') = Inr ()"
    "q = \<lparr>vq_sql = sql, vq_is_aggregate = is_aggregate_query G st'\<rparr>"
  have st: "st' = st" using v(1) assms(2) by (simp add: parse_statement_Inr)
  have agg: "projection_is_aggregate G p \<longleftrightarrow> aggregates G p" for p
    using aggregate_loop_iff [of G "[p]"] by (simp add: projection_is_aggregate_def)
  show ?thesis
  proof (cases "is_aggregate_query G st")
    case True
    with v(3) st agg show ?thesis by (auto simp: is_aggregate_query_def list_ex_iff)
  next
    case False
    with v(2) st show ?thesis
      by (auto simp: validate_limit_def split: option.splits if_splits bind_splits)
  qed
qed

text \<open>
  C40: joins follow the reviewed edges. Every join of every scope of a validated query has an ON
  condition, its kind is not CROSS, and every conjunct of the condition is an equality of two qualified
  columns whose tables and names are the two ends of a reviewed edge. The side of a join is not looked at: a
  RIGHT or FULL join on a reviewed condition is accepted as an INNER or LEFT join is.
\<close>

theorem validated_joins_reviewed:
  assumes "validate_sql G sql = Inr q" "sg_parse G sql = Inr [Some st]"
    and "sg_traverse_scope G st = Inr scopes" "sc \<in> set scopes" "j \<in> set (joins (scope_expression sc))"
  shows "\<exists>cols tables condition. scope_sources_of G sc = Inr (cols, tables) \<and> expr_arg ''on'' j = Some condition
    \<and> upper_ascii (case get_arg j ''kind'' of AText s \<Rightarrow> s | _ \<Rightarrow> []) \<noteq> ''CROSS''
    \<and> (\<forall>t \<in> set (and_terms G condition). \<exists>n l r. t = Some n \<and> sg_isinstance G n ''EQ''
         \<and> column_ref_of G tables (expr_arg ''this'' n) = Some l
         \<and> column_ref_of G tables (expr_arg ''expression'' n) = Some r \<and> {l, r} \<in> set allowed_join_edges)"
  using assms(1)
proof (rule validate_sql_Inr)
  fix st' scopes'
  assume v: "parse_statement G sql = Inr st'" "sg_traverse_scope G st' = Inr scopes'"
    "\<forall>sc \<in> set scopes'. validate_scope G sc = Inr ()"
  have "st' = st" using v(1) assms(2) by (simp add: parse_statement_Inr)
  then have "validate_scope G sc = Inr ()" using v assms(3,4) by simp
  then obtain cols tables where r: "scope_sources_of G sc = Inr (cols, tables)"
    and i: "validate_joins G sc tables = Inr ()" by (auto simp: validate_scope_Inr)
  have "validate_join G tables j = Inr ()" using i assms(5) by (simp add: validate_joins_def check_all_Inr)
  then obtain condition where c: "expr_arg ''on'' j = Some condition"
    "upper_ascii (case get_arg j ''kind'' of AText s \<Rightarrow> s | _ \<Rightarrow> []) \<noteq> ''CROSS''"
    and t: "\<forall>t \<in> set (and_terms G condition). validate_term G tables t = Inr ()"
    by (auto simp: validate_join_def check_all_Inr split: if_splits option.splits)
  have reviewed: "\<exists>n l r. t = Some n \<and> sg_isinstance G n ''EQ''
         \<and> column_ref_of G tables (expr_arg ''this'' n) = Some l
         \<and> column_ref_of G tables (expr_arg ''expression'' n) = Some r \<and> {l, r} \<in> set allowed_join_edges"
    if "validate_term G tables t = Inr ()" for t
    using that by (cases t) (auto simp: validate_term_def split: if_splits option.splits)
  with r c t reviewed show ?thesis by blast
qed

text \<open>
  a lexical error is not a policy violation. Only ParseError is caught, so whatever else the
  tokenizer raises (sqlglot raises TokenError for an unterminated literal) leaves validate as it is.
\<close>

theorem tokenizer_error_escapes:
  assumes "sg_tokenize G sql = Inl (OtherSqlError e)"
  shows "validate_sql G sql = Inl (Escaped (OtherSqlError e))"
  by (simp add: validate_sql_def parse_statement_def assms)
subsection \<open>The properties at a concrete query\<close>

text \<open>
  \<open>SELECT o.order_status FROM orders AS o JOIN customers AS c ON o.customer_id = c.customer_id LIMIT 10\<close>
  as an expression, under a parser that returns it.
\<close>

definition text_of :: "string \<Rightarrow> node \<Rightarrow> string" where
  "text_of k n = (case get_arg n k of AText s \<Rightarrow> s | _ \<Rightarrow> [])"

definition sample_column :: "string \<Rightarrow> string \<Rightarrow> node" where
  "sample_column t c = Node ''Column'' [(''this'', AText c), (''table'', AText t)]"

definition sample_join :: node where
  "sample_join = Node ''Join'' [(''on'', AExpr (Node ''EQ''
     [(''this'', AExpr (sample_column ''o'' ''customer_id'')), (''expression'', AExpr (sample_column ''c'' ''customer_id''))]))]"

definition sample_select :: node where
  "sample_select = Node ''Select''
     [(''expressions'', AList [AExpr (sample_column ''o'' ''order_status'')]),
      (''joins'', AList [AExpr sample_join]),
      (''limit'', AExpr (Node ''Limit'' [(''expression'', AExpr (Node ''Literal'' [(''this'', AText ''10'')]))]))]"

definition sample_scope :: scope where
  "sample_scope = Scope sample_select
     [(''o'', TableSource (Node ''Table'' [(''this'', AText ''orders'')])),
      (''c'', TableSource (Node ''Table'' [(''this'', AText ''customers'')]))]
     [sample_column ''o'' ''order_status'', sample_column ''o'' ''customer_id'', sample_column ''c'' ''customer_id'']"

definition sample_sqlglot :: sqlglot where
  "sample_sqlglot =
     \<lparr>sg_tokenize = (\<lambda>s. if s = ''bad'' then Inl (OtherSqlError ''TokenError'') else Inr []),
      sg_parse = (\<lambda>_. Inr [Some sample_select]), sg_traverse_scope = (\<lambda>_. Inr [sample_scope]),
      sg_isinstance = (\<lambda>n c. node_class n = c), sg_find_all = (\<lambda>_ _. []),
      sg_name = text_of ''this'', sg_table = text_of ''table'', sg_db = (\<lambda>_. []), sg_catalog = (\<lambda>_. []),
      sg_is_star = (\<lambda>n. node_class n = ''Star''), sg_is_int = (\<lambda>_. True), sg_literal = (\<lambda>_. 10),
      sg_sql_name = node_class, sg_named_selects = (\<lambda>_. [])\<rparr>"

lemma sample_sqlglot_simps [simp]:
  "sg_tokenize sample_sqlglot s = (if s = ''bad'' then Inl (OtherSqlError ''TokenError'') else Inr [])"
  "sg_parse sample_sqlglot s = Inr [Some sample_select]"
  "sg_traverse_scope sample_sqlglot n = Inr [sample_scope]"
  "sg_isinstance sample_sqlglot n c \<longleftrightarrow> node_class n = c" "sg_find_all sample_sqlglot n c = []"
  "sg_name sample_sqlglot n = text_of ''this'' n" "sg_table sample_sqlglot n = text_of ''table'' n"
  "sg_db sample_sqlglot n = []" "sg_catalog sample_sqlglot n = []"
  "sg_is_star sample_sqlglot n \<longleftrightarrow> node_class n = ''Star''" "sg_is_int sample_sqlglot n"
  "sg_literal sample_sqlglot n = 10"
  by (simp_all add: sample_sqlglot_def)

lemmas sql_eval = get_arg_def expr_arg_def children_def expressions_def joins_def text_of_def

lemma sample_scope_parts:
  "expressions sample_select = [sample_column ''o'' ''order_status'']" "joins sample_select = [sample_join]"
  "expr_arg ''on'' sample_join = Some (Node ''EQ''
     [(''this'', AExpr (sample_column ''o'' ''customer_id'')), (''expression'', AExpr (sample_column ''c'' ''customer_id''))])"
  by (simp_all add: sample_select_def sample_join_def sql_eval)

lemma sample_column_simps [simp]:
  "node_class (sample_column t c) = ''Column''" "text_of ''this'' (sample_column t c) = c"
  "text_of ''table'' (sample_column t c) = t" "children (sample_column t c) = []"
  by (simp_all add: sample_column_def sql_eval)

lemma sample_validates: "validate_sql sample_sqlglot ''q'' = Inr \<lparr>vq_sql = ''q'', vq_is_aggregate = False\<rparr>"
proof -
  let ?G = sample_sqlglot
  let ?cols = "[(''o'', the (map_of retail_table_columns ''orders'')), (''c'', the (map_of retail_table_columns ''customers''))]"
  have src: "scope_sources_of ?G sample_scope = Inr (?cols, [(''o'', ''orders''), (''c'', ''customers'')])"
    by (simp add: scope_sources_of_def sample_scope_def resolve_source_def sql_eval allowed_relations_def
        retail_table_columns_def)
  have cols: "validate_scope_columns ?G sample_scope ?cols = Inr ()"
    by (simp add: validate_scope_columns_def validate_column_def sample_scope_def retail_table_columns_def)
  have stars: "validate_direct_stars ?G sample_scope ?cols = Inr ()"
    by (simp add: validate_direct_stars_def sample_scope_def sample_scope_parts projected_def)
  have ident: "validate_identity_projections ?G sample_scope ?cols = Inr ()"
    by (simp add: validate_identity_projections_def sample_scope_def sample_scope_parts validate_projection_def
        projected_def identity_leaks_def contains_nested_star_def raw_identity_columns_def star_count_def)
  have joins: "validate_joins ?G sample_scope [(''o'', ''orders''), (''c'', ''customers'')] = Inr ()"
    by (simp add: validate_joins_def sample_scope_def sample_scope_parts validate_join_def and_terms.simps
        validate_term_def expr_arg_def get_arg_def column_ref_of_def allowed_join_edges_def sample_join_def
        upper_ascii_def)
  have scope: "validate_scope ?G sample_scope = Inr ()"
    unfolding validate_scope_Inr using src cols stars ident joins by blast
  have agg: "is_aggregate_query ?G sample_select = False"
    by (simp add: is_aggregate_query_def sample_scope_parts projection_is_aggregate_def aggregate_boundary_def)
      (simp add: sample_select_def get_arg_def)
  have lim: "validate_limit ?G sample_select False = Inr ()"
    by (simp add: validate_limit_def sample_select_def expr_arg_def get_arg_def)
  have rest: "node_class sample_select = ''Select''" "\<not> recursive_with sample_select"
    by (simp_all add: sample_select_def recursive_with_def expr_arg_def get_arg_def)
  have "parse_statement ?G ''q'' = Inr sample_select" by (simp add: parse_statement_Inr)
  then show ?thesis
    by (simp add: validate_sql_def agg lim scope rest validate_functions_def denied_nodes_def)
qed

theorem validated_query_in_catalogue_witness:
  "\<exists>st scopes. sg_parse sample_sqlglot ''q'' = Inr [Some st] \<and> sg_isinstance sample_sqlglot st ''Select''
     \<and> sg_traverse_scope sample_sqlglot st = Inr scopes"
  using validated_query_in_catalogue [OF sample_validates] by blast

theorem validated_query_hides_identity_witness:
  "\<not> exposes_identity sample_sqlglot (projected sample_sqlglot (sample_column ''o'' ''order_status''))"
proof -
  have "sample_column ''o'' ''order_status'' \<in> set (expressions (scope_expression sample_scope))"
    by (simp add: sample_scope_def sample_scope_parts)
  from validated_query_hides_identity [OF sample_validates _ _ _ this, of sample_select "[sample_scope]"]
  show ?thesis by auto
qed

theorem validated_query_limited_witness:
  "\<exists>l v. expr_arg ''limit'' sample_select = Some l \<and> expr_arg ''expression'' l = Some v
     \<and> sg_literal sample_sqlglot v \<le> 1000"
  using validated_query_limited [OF sample_validates, of sample_select] by auto

theorem validated_joins_reviewed_witness:
  "\<exists>cols tables condition. scope_sources_of sample_sqlglot sample_scope = Inr (cols, tables)
     \<and> expr_arg ''on'' sample_join = Some condition"
proof -
  have "sample_join \<in> set (joins (scope_expression sample_scope))"
    by (simp add: sample_scope_def sample_scope_parts)
  from validated_joins_reviewed [OF sample_validates _ _ _ this, of sample_select "[sample_scope]"]
  show ?thesis by auto
qed

theorem tokenizer_error_escapes_witness:
  "validate_sql sample_sqlglot ''bad'' = Inl (Escaped (OtherSqlError ''TokenError''))"
  by (rule tokenizer_error_escapes) simp

end
