(* ===== verification/Model_Contracts.thy ===== *)
theory Model_Contracts
  imports Op_Contracts
begin

text \<open>
  The provider-neutral contracts of \<open>src/commerce_agent/model/contracts.py\<close>: a frozen pydantic
  class is a record (a discriminated union a datatype) and \<open>valid_<class>\<close> the conjunction of its
  field constraints and validators. Fields that must be canonical JSON take the predicate
  \<open>canon\<close>: the text json.dumps gives for what json.loads reads from it is the text itself. A float is the decimal that is its exact value.
\<close>

subsection \<open>Run identity and inference settings\<close>

record run_scope =
  rs_run_id :: uuid
  rs_track :: string
  rs_mode :: string
  rs_subject_id :: string
  rs_experiment_id :: string
  rs_config_hash :: string

definition valid_run_scope :: "run_scope \<Rightarrow> bool" where [contract_defs]:
  "valid_run_scope s \<longleftrightarrow>
     rs_track s \<in> {''retail'', ''bird''} \<and> rs_mode s \<in> {''retail'', ''a'', ''c''}
     \<and> len_ok 1 128 (rs_subject_id s) \<and> len_ok 1 128 (rs_experiment_id s) \<and> hex64 (rs_config_hash s)
     \<and> (rs_track s, rs_mode s) \<in> {(''retail'', ''retail''), (''bird'', ''a''), (''bird'', ''c'')}"

datatype effort = EffortLow | EffortHigh | EffortMax

record thinking_config =
  th_effort :: effort
  th_max_output_tokens :: int

record non_thinking_config =
  nt_temperature :: decimal
  nt_max_output_tokens :: int

datatype inference_config = Thinking thinking_config | NonThinking non_thinking_config

definition valid_thinking_config :: "thinking_config \<Rightarrow> bool" where [contract_defs]:
  "valid_thinking_config c \<longleftrightarrow> 1 \<le> th_max_output_tokens c \<and> th_max_output_tokens c \<le> 65536"

definition valid_non_thinking_config :: "non_thinking_config \<Rightarrow> bool" where [contract_defs]:
  "valid_non_thinking_config c \<longleftrightarrow> dec_le dec_zero (nt_temperature c) \<and> dec_le (nt_temperature c) (dec_of_int 2)
     \<and> 1 \<le> nt_max_output_tokens c \<and> nt_max_output_tokens c \<le> 4096"

definition valid_inference_config :: "inference_config \<Rightarrow> bool" where [contract_defs]:
  "valid_inference_config c = (case c of
       Thinking t \<Rightarrow> valid_thinking_config t
     | NonThinking n \<Rightarrow> valid_non_thinking_config n)"

subsection \<open>Usage and cost\<close>

record reported_usage =
  ru_prompt_tokens :: int
  ru_cache_hit_tokens :: int
  ru_cache_miss_tokens :: int
  ru_completion_tokens :: int
  ru_reasoning_tokens :: int
  ru_total_tokens :: int

definition valid_reported_usage :: "reported_usage \<Rightarrow> bool" where [contract_defs]:
  "valid_reported_usage u \<longleftrightarrow>
     0 \<le> ru_prompt_tokens u \<and> 0 \<le> ru_cache_hit_tokens u \<and> 0 \<le> ru_cache_miss_tokens u
     \<and> 0 \<le> ru_completion_tokens u \<and> 0 \<le> ru_reasoning_tokens u \<and> 0 \<le> ru_total_tokens u
     \<and> ru_prompt_tokens u = ru_cache_hit_tokens u + ru_cache_miss_tokens u
     \<and> ru_total_tokens u = ru_prompt_tokens u + ru_completion_tokens u
     \<and> ru_reasoning_tokens u \<le> ru_completion_tokens u"

datatype usage = Reported reported_usage | UsageUnavailable string

definition valid_usage :: "usage \<Rightarrow> bool" where [contract_defs]:
  "valid_usage u = (case u of Reported r \<Rightarrow> valid_reported_usage r | UsageUnavailable c \<Rightarrow> reason_code_ok c)"

datatype price_band = Peak | OffPeak

record cost_estimate =
  ce_price_snapshot_id :: string
  ce_amount :: decimal
  ce_price_band :: price_band

definition valid_cost_estimate :: "cost_estimate \<Rightarrow> bool" where [contract_defs]:
  "valid_cost_estimate c \<longleftrightarrow>
     len_ok 1 128 (ce_price_snapshot_id c) \<and> dec_finite (ce_amount c) \<and> dec_le dec_zero (ce_amount c)"

datatype cost = Estimated cost_estimate | CostUnavailable string

definition valid_cost :: "cost \<Rightarrow> bool" where [contract_defs]:
  "valid_cost c = (case c of Estimated e \<Rightarrow> valid_cost_estimate e | CostUnavailable r \<Rightarrow> reason_code_ok r)"

datatype attempt_outcome = AttemptSuccess | HttpError | TransportError | ProtocolError | InsufficientSystemResource

record model_attempt_summary =
  ma_attempt_number :: int
  ma_sent_at :: py_datetime
  ma_completed_at :: py_datetime
  ma_outcome :: attempt_outcome
  ma_http_status :: "int option"
  ma_retryable :: bool
  ma_charge_ambiguous :: bool
  ma_usage :: usage
  ma_cost :: cost

definition valid_model_attempt_summary :: "model_attempt_summary \<Rightarrow> bool" where [contract_defs]:
  "valid_model_attempt_summary a \<longleftrightarrow>
     1 \<le> ma_attempt_number a \<and> ma_attempt_number a \<le> 3
     \<and> (case ma_http_status a of None \<Rightarrow> True | Some h \<Rightarrow> 100 \<le> h \<and> h \<le> 599)
     \<and> valid_usage (ma_usage a) \<and> valid_cost (ma_cost a)
     \<and> is_aware (ma_sent_at a) \<and> is_aware (ma_completed_at a)
     \<and> to_instant (ma_sent_at a) \<le> to_instant (ma_completed_at a)"

subsection \<open>Tools and turns\<close>

record tool_call =
  tc_call_id :: string
  tc_name :: string
  tc_arguments_json :: string

definition tool_name_ok :: "string \<Rightarrow> bool" where
  "tool_name_ok s = ident_ok is_lower code_char 2 63 s"

definition valid_tool_call :: "(string \<Rightarrow> bool) \<Rightarrow> tool_call \<Rightarrow> bool" where [contract_defs]:
  "valid_tool_call canon c \<longleftrightarrow>
     len_ok 1 128 (tc_call_id c) \<and> tool_name_ok (tc_name c)
     \<and> len_ok 1 262144 (tc_arguments_json c) \<and> canon (tc_arguments_json c)"

datatype tool_status = ToolSuccess | ToolError
datatype content_mode = RawContent | SummaryContent

record tool_result =
  tl_call_id :: string
  tl_name :: string
  tl_status :: tool_status
  tl_content_json :: string
  tl_deterministic_summary :: string
  tl_content_sha256 :: string
  tl_source_refs :: "string list"
  tl_error_class :: "string option"
  tl_content_mode :: content_mode

definition valid_tool_result :: "(string \<Rightarrow> bool) \<Rightarrow> tool_result \<Rightarrow> bool" where [contract_defs]:
  "valid_tool_result canon r \<longleftrightarrow>
     len_ok 1 128 (tl_call_id r) \<and> tool_name_ok (tl_name r)
     \<and> len_ok 1 262144 (tl_content_json r) \<and> canon (tl_content_json r)
     \<and> len_ok 1 16384 (tl_deterministic_summary r) \<and> hex64 (tl_content_sha256 r)
     \<and> (case tl_error_class r of None \<Rightarrow> True | Some e \<Rightarrow> len_ok 1 128 e)
     \<and> (tl_status r = ToolSuccess \<longrightarrow> tl_error_class r = None)
     \<and> (tl_status r = ToolError \<longrightarrow> tl_error_class r \<noteq> None)"

record provider_turn_ref =
  tf_turn_id :: uuid
  tf_scope_digest :: string
  tf_attempt_id :: uuid
  tf_sequence :: int
  tf_payload_sha256 :: string
  tf_expected_tool_call_ids :: "string list"
  tf_token_weight :: int
  tf_expires_at :: py_datetime

definition valid_provider_turn_ref :: "provider_turn_ref \<Rightarrow> bool" where [contract_defs]:
  "valid_provider_turn_ref r \<longleftrightarrow>
     hex64 (tf_scope_digest r) \<and> 0 \<le> tf_sequence r \<and> hex64 (tf_payload_sha256 r) \<and> 0 \<le> tf_token_weight r
     \<and> is_aware (tf_expires_at r) \<and> distinct (tf_expected_tool_call_ids r)
     \<and> [] \<notin> set (tf_expected_tool_call_ids r)"

record tool_exchange_group =
  xg_provider_turn_ref :: provider_turn_ref
  xg_tool_calls :: "tool_call list"
  xg_tool_results :: "tool_result list"

datatype conversation_group = AssistantTurn provider_turn_ref | ToolExchange tool_exchange_group

definition valid_assistant_turn_group :: "provider_turn_ref \<Rightarrow> bool" where [contract_defs]:
  "valid_assistant_turn_group r \<longleftrightarrow> valid_provider_turn_ref r \<and> tf_expected_tool_call_ids r = []"

definition valid_tool_exchange_group :: "(string \<Rightarrow> bool) \<Rightarrow> tool_exchange_group \<Rightarrow> bool" where [contract_defs]:
  "valid_tool_exchange_group canon g \<longleftrightarrow>
     valid_provider_turn_ref (xg_provider_turn_ref g)
     \<and> list_all (valid_tool_call canon) (xg_tool_calls g) \<and> list_all (valid_tool_result canon) (xg_tool_results g)
     \<and> len_ok 1 8 (xg_tool_calls g) \<and> length (xg_tool_results g) \<le> 8
     \<and> map tl_call_id (xg_tool_results g) = map tc_call_id (xg_tool_calls g)
     \<and> map tc_call_id (xg_tool_calls g) = tf_expected_tool_call_ids (xg_provider_turn_ref g)
     \<and> list_all (\<lambda>(c, r). tc_name c = tl_name r) (zip (xg_tool_calls g) (xg_tool_results g))"

definition valid_conversation_group :: "(string \<Rightarrow> bool) \<Rightarrow> conversation_group \<Rightarrow> bool" where [contract_defs]:
  "valid_conversation_group canon g = (case g of
       AssistantTurn r \<Rightarrow> valid_assistant_turn_group r
     | ToolExchange x \<Rightarrow> valid_tool_exchange_group canon x)"

record pending_tool_batch =
  pb_provider_turn_ref :: provider_turn_ref
  pb_tool_calls :: "tool_call list"
  pb_expected_tool_call_ids :: "string list"
  pb_graph_node_revision :: string
  pb_budget_snapshot_json :: string
  pb_prompt_policy_hash :: string
  pb_rendered_prompt_hash :: string
  pb_tool_hash :: string
  pb_context_hash :: string
  pb_config_hash :: string

definition valid_pending_tool_batch :: "(string \<Rightarrow> bool) \<Rightarrow> pending_tool_batch \<Rightarrow> bool" where [contract_defs]:
  "valid_pending_tool_batch canon b \<longleftrightarrow>
     valid_provider_turn_ref (pb_provider_turn_ref b) \<and> list_all (valid_tool_call canon) (pb_tool_calls b)
     \<and> len_ok 1 8 (pb_tool_calls b) \<and> len_ok 1 8 (pb_expected_tool_call_ids b)
     \<and> len_ok 1 128 (pb_graph_node_revision b) \<and> len_ok 1 16384 (pb_budget_snapshot_json b)
     \<and> canon (pb_budget_snapshot_json b)
     \<and> hex64 (pb_prompt_policy_hash b) \<and> hex64 (pb_rendered_prompt_hash b) \<and> hex64 (pb_tool_hash b)
     \<and> hex64 (pb_context_hash b) \<and> hex64 (pb_config_hash b)
     \<and> distinct (map tc_call_id (pb_tool_calls b))
     \<and> map tc_call_id (pb_tool_calls b) = pb_expected_tool_call_ids b
     \<and> map tc_call_id (pb_tool_calls b) = tf_expected_tool_call_ids (pb_provider_turn_ref b)"

record chat_message =
  cm_role :: string
  cm_content :: string

definition valid_chat_message :: "chat_message \<Rightarrow> bool" where [contract_defs]:
  "valid_chat_message m \<longleftrightarrow> cm_role m \<in> {''system'', ''user''} \<and> len_ok 1 262144 (cm_content m)"

record tool_definition =
  td_name :: string
  td_description :: string
  td_parameters_json :: string
  td_catalog_revision :: string
  td_capability_sha256 :: string

definition valid_tool_definition :: "(string \<Rightarrow> bool) \<Rightarrow> tool_definition \<Rightarrow> bool" where [contract_defs]:
  "valid_tool_definition canon d \<longleftrightarrow>
     tool_name_ok (td_name d) \<and> len_ok 1 4000 (td_description d) \<and> len_ok 1 65536 (td_parameters_json d)
     \<and> canon (td_parameters_json d) \<and> len_ok 1 128 (td_catalog_revision d) \<and> hex64 (td_capability_sha256 d)"

subsection \<open>Requests and responses\<close>

datatype model_output = FinalOutput string | ToolCallOutput "tool_call list"

definition valid_model_output :: "(string \<Rightarrow> bool) \<Rightarrow> model_output \<Rightarrow> bool" where [contract_defs]:
  "valid_model_output canon out = (case out of
       FinalOutput s \<Rightarrow> len_ok 1 262144 s
     | ToolCallOutput cs \<Rightarrow> len_ok 1 8 cs \<and> list_all (valid_tool_call canon) cs \<and> distinct (map tc_call_id cs))"

record model_request =
  mq_run_scope :: run_scope
  mq_attempt_id :: uuid
  mq_sequence :: int
  mq_inference :: inference_config
  mq_messages :: "chat_message list"
  mq_history :: "conversation_group list"
  mq_tools :: "tool_definition list"
  mq_timeout_seconds :: decimal
  mq_capability_revision :: string
  mq_provider_user_id :: string
  mq_prompt_policy_hash :: string
  mq_rendered_prompt_hash :: string
  mq_tool_hash :: string
  mq_context_hash :: string
  mq_config_hash :: string

definition valid_model_request :: "(string \<Rightarrow> bool) \<Rightarrow> model_request \<Rightarrow> bool" where [contract_defs]:
  "valid_model_request canon q \<longleftrightarrow>
     valid_run_scope (mq_run_scope q) \<and> 0 \<le> mq_sequence q \<and> valid_inference_config (mq_inference q)
     \<and> mq_messages q \<noteq> [] \<and> list_all valid_chat_message (mq_messages q)
     \<and> list_all (valid_conversation_group canon) (mq_history q)
     \<and> list_all (valid_tool_definition canon) (mq_tools q)
     \<and> dec_finite (mq_timeout_seconds q) \<and> dec_lt dec_zero (mq_timeout_seconds q)
     \<and> dec_le (mq_timeout_seconds q) (dec_of_int 600)
     \<and> len_ok 1 128 (mq_capability_revision q)
     \<and> length (mq_provider_user_id q) = 32 \<and> list_all is_hex (mq_provider_user_id q)
     \<and> hex64 (mq_prompt_policy_hash q) \<and> hex64 (mq_rendered_prompt_hash q) \<and> hex64 (mq_tool_hash q)
     \<and> hex64 (mq_context_hash q) \<and> hex64 (mq_config_hash q)"

datatype finish_reason = Stop | ToolCallsReason | LengthReason | ContentFilter | InsufficientResource

record model_response =
  ms_output :: model_output
  ms_provider_turn_ref :: provider_turn_ref
  ms_finish_reason :: finish_reason
  ms_actual_model :: string
  ms_system_fingerprint :: "string option"
  ms_usage :: usage
  ms_cost :: cost
  ms_attempts :: "model_attempt_summary list"

text \<open>The validator's branches: tool calls bind to the turn, a final text to a turn without calls.\<close>

definition output_bound :: "model_response \<Rightarrow> bool" where
  "output_bound r = (case ms_output r of
       ToolCallOutput cs \<Rightarrow> ms_finish_reason r = ToolCallsReason
         \<and> map tc_call_id cs = tf_expected_tool_call_ids (ms_provider_turn_ref r)
     | FinalOutput _ \<Rightarrow> ms_finish_reason r \<noteq> ToolCallsReason
         \<and> tf_expected_tool_call_ids (ms_provider_turn_ref r) = [])"

definition valid_model_response :: "(string \<Rightarrow> bool) \<Rightarrow> model_response \<Rightarrow> bool" where [contract_defs]:
  "valid_model_response canon r \<longleftrightarrow>
     valid_model_output canon (ms_output r) \<and> valid_provider_turn_ref (ms_provider_turn_ref r)
     \<and> len_ok 1 256 (ms_actual_model r)
     \<and> (case ms_system_fingerprint r of None \<Rightarrow> True | Some s \<Rightarrow> len_ok 1 256 s)
     \<and> valid_usage (ms_usage r) \<and> valid_cost (ms_cost r)
     \<and> len_ok 1 3 (ms_attempts r) \<and> list_all valid_model_attempt_summary (ms_attempts r)
     \<and> map ma_attempt_number (ms_attempts r) = map int [1..<Suc (length (ms_attempts r))]
     \<and> ma_outcome (last (ms_attempts r)) = AttemptSuccess
     \<and> ms_usage r = ma_usage (last (ms_attempts r)) \<and> ms_cost r = ma_cost (last (ms_attempts r))
     \<and> output_bound r"

subsection \<open>Usage adds up\<close>

definition add_usage :: "reported_usage \<Rightarrow> reported_usage \<Rightarrow> reported_usage" where
  "add_usage u v =
     \<lparr>ru_prompt_tokens = ru_prompt_tokens u + ru_prompt_tokens v,
      ru_cache_hit_tokens = ru_cache_hit_tokens u + ru_cache_hit_tokens v,
      ru_cache_miss_tokens = ru_cache_miss_tokens u + ru_cache_miss_tokens v,
      ru_completion_tokens = ru_completion_tokens u + ru_completion_tokens v,
      ru_reasoning_tokens = ru_reasoning_tokens u + ru_reasoning_tokens v,
      ru_total_tokens = ru_total_tokens u + ru_total_tokens v\<rparr>"

definition zero_usage :: reported_usage where
  "zero_usage = \<lparr>ru_prompt_tokens = 0, ru_cache_hit_tokens = 0, ru_cache_miss_tokens = 0,
     ru_completion_tokens = 0, ru_reasoning_tokens = 0, ru_total_tokens = 0\<rparr>"

lemma valid_zero_usage: "valid_reported_usage zero_usage"
  by (simp add: valid_reported_usage_def zero_usage_def)

lemma valid_add_usage: "valid_reported_usage u \<Longrightarrow> valid_reported_usage v \<Longrightarrow> valid_reported_usage (add_usage u v)"
  by (simp add: valid_reported_usage_def add_usage_def)

subsection \<open>A tool turn closes into an exchange\<close>

text \<open>
  every answered tool turn closes. When a valid response asks for tools, then any valid results
  that answer its calls one by one (same ids and names, in order) form a valid tool exchange with
  the response's own turn reference, and the calls alone a valid pending batch; and a valid response
  without tool calls is itself a valid assistant turn.
\<close>

theorem tool_turn_closes:
  assumes "valid_model_response canon r"
  shows "(case ms_output r of
       FinalOutput _ \<Rightarrow> valid_conversation_group canon (AssistantTurn (ms_provider_turn_ref r))
     | ToolCallOutput cs \<Rightarrow>
         (\<forall>rs. list_all2 (\<lambda>c t. tl_call_id t = tc_call_id c \<and> tl_name t = tc_name c \<and> valid_tool_result canon t) cs rs
            \<longrightarrow> valid_conversation_group canon (ToolExchange
              \<lparr>xg_provider_turn_ref = ms_provider_turn_ref r, xg_tool_calls = cs, xg_tool_results = rs\<rparr>)))"
proof (cases "ms_output r")
  case (FinalOutput s)
  with assms show ?thesis by (simp add: contract_defs output_bound_def)
next
  case (ToolCallOutput cs)
  have v: "len_ok 1 8 cs" "list_all (valid_tool_call canon) cs" "valid_provider_turn_ref (ms_provider_turn_ref r)"
    "map tc_call_id cs = tf_expected_tool_call_ids (ms_provider_turn_ref r)"
    using assms ToolCallOutput
    by (simp_all add: valid_model_response_def valid_model_output_def output_bound_def)
  have "valid_tool_exchange_group canon
      \<lparr>xg_provider_turn_ref = ms_provider_turn_ref r, xg_tool_calls = cs, xg_tool_results = rs\<rparr>"
    if rs: "list_all2 (\<lambda>c t. tl_call_id t = tc_call_id c \<and> tl_name t = tc_name c \<and> valid_tool_result canon t) cs rs"
    for rs
  proof -
    have ids: "map tl_call_id rs = map tc_call_id cs"
      using rs by (auto simp: list_all2_conv_all_nth intro: nth_equalityI)
    have len: "length rs = length cs" using rs by (simp add: list_all2_lengthD)
    have names: "list_all (\<lambda>(c, t). tc_name c = tl_name t) (zip cs rs)"
      using rs by (auto simp: list_all2_iff list_all_iff)
    have valid: "list_all (valid_tool_result canon) rs"
      using rs by (auto simp: list_all2_conv_all_nth list_all_length)
    show ?thesis
      using v ids len names valid by (simp add: valid_tool_exchange_group_def len_ok_def)
  qed
  then show ?thesis using ToolCallOutput by (simp add: valid_conversation_group_def)
qed

subsection \<open>The property at a concrete response\<close>

definition sample_hex :: string where "sample_hex = replicate 64 CHR ''a''"

definition sample_turn_ref :: "string list \<Rightarrow> provider_turn_ref" where
  "sample_turn_ref ids = \<lparr>tf_turn_id = 1, tf_scope_digest = sample_hex, tf_attempt_id = 2, tf_sequence = 0,
     tf_payload_sha256 = sample_hex, tf_expected_tool_call_ids = ids, tf_token_weight = 5,
     tf_expires_at = Aware 100 0\<rparr>"

definition sample_call :: tool_call where
  "sample_call = \<lparr>tc_call_id = ''c1'', tc_name = ''query'', tc_arguments_json = ''{}''\<rparr>"

definition sample_result :: tool_result where
  "sample_result = \<lparr>tl_call_id = ''c1'', tl_name = ''query'', tl_status = ToolSuccess, tl_content_json = ''{}'',
     tl_deterministic_summary = ''ok'', tl_content_sha256 = sample_hex, tl_source_refs = [],
     tl_error_class = None, tl_content_mode = RawContent\<rparr>"

definition sample_response :: model_response where
  "sample_response =
     \<lparr>ms_output = ToolCallOutput [sample_call], ms_provider_turn_ref = sample_turn_ref [''c1''],
      ms_finish_reason = ToolCallsReason, ms_actual_model = ''m'', ms_system_fingerprint = None,
      ms_usage = Reported zero_usage, ms_cost = CostUnavailable ''usage_missing'',
      ms_attempts = [\<lparr>ma_attempt_number = 1, ma_sent_at = Aware 0 0, ma_completed_at = Aware 1 0,
        ma_outcome = AttemptSuccess, ma_http_status = Some 200, ma_retryable = False,
        ma_charge_ambiguous = False, ma_usage = Reported zero_usage, ma_cost = CostUnavailable ''usage_missing''\<rparr>]\<rparr>"

lemma sample_texts: "hex64 sample_hex" "reason_code_ok ''usage_missing''" "tool_name_ok ''query''"
  by code_simp+

lemma sample_response_valid: "valid_model_response (\<lambda>s. s = ''{}'') sample_response"
  using sample_texts
  by (simp add: sample_response_def sample_call_def sample_turn_ref_def contract_defs output_bound_def len_ok_def
      is_aware_def to_instant_def zero_usage_def)

theorem tool_turn_closes_witness:
  "valid_conversation_group (\<lambda>s. s = ''{}'') (ToolExchange
     \<lparr>xg_provider_turn_ref = sample_turn_ref [''c1''], xg_tool_calls = [sample_call],
      xg_tool_results = [sample_result]\<rparr>)"
proof -
  have "valid_tool_result (\<lambda>s. s = ''{}'') sample_result"
    using sample_texts by (simp add: sample_result_def valid_tool_result_def len_ok_def)
  then have "list_all2 (\<lambda>c t. tl_call_id t = tc_call_id c \<and> tl_name t = tc_name c
      \<and> valid_tool_result (\<lambda>s. s = ''{}'') t) [sample_call] [sample_result]"
    by (simp add: sample_call_def sample_result_def)
  with tool_turn_closes [OF sample_response_valid] show ?thesis
    by (simp add: sample_response_def)
qed

end
