(* ===== verification/Eval_Store.thy ===== *)
theory Eval_Store
  imports Complex_Main Model_Contracts "HOL-Library.Product_Lexorder"
begin

text \<open>
  The task-level checkpoint of the evaluation (\<open>src/commerce_agent/evaluation/contracts.py\<close>,
  \<open>store.py\<close>, \<open>_memory.py\<close>): attempt records with their status machine, public results, and every
  operation of \<open>InMemoryEvaluationStore\<close>. One call runs under the store's lock, so it is one step.
  The dict of attempts is the list of its values in insertion order; the dict of results a map.
  The field parsers of pydantic are the parameter \<open>pydantic\<close>.
\<close>

subsection \<open>Contracts\<close>

datatype task_status = Pending | Running | Succeeded | Failed | InfrastructureError | Interrupted

definition terminal_statuses :: "task_status list" where
  "terminal_statuses = [Succeeded, Failed]"

datatype bird_mode = ModeA | ModeC

instantiation bird_mode :: linorder
begin

definition less_eq_bird_mode :: "bird_mode \<Rightarrow> bird_mode \<Rightarrow> bool" where
  "m \<le> n \<longleftrightarrow> m = ModeA \<or> n = ModeC"

definition less_bird_mode :: "bird_mode \<Rightarrow> bird_mode \<Rightarrow> bool" where
  "m < n \<longleftrightarrow> m = ModeA \<and> n = ModeC"

instance
proof
  fix x y z :: bird_mode
  show "x < y \<longleftrightarrow> x \<le> y \<and> \<not> y \<le> x"
    by (cases x; cases y) (auto simp: less_eq_bird_mode_def less_bird_mode_def)
  show "x \<le> x" by (cases x) (auto simp: less_eq_bird_mode_def)
  show "x \<le> y \<Longrightarrow> y \<le> z \<Longrightarrow> x \<le> z"
    by (cases x; cases y; cases z) (auto simp: less_eq_bird_mode_def)
  show "x \<le> y \<Longrightarrow> y \<le> x \<Longrightarrow> x = y"
    by (cases x; cases y) (auto simp: less_eq_bird_mode_def)
  show "x \<le> y \<or> y \<le> x"
    by (cases x; cases y) (auto simp: less_eq_bird_mode_def)
qed

end

text \<open>A float of the range 0 to 1 is a rational number.\<close>

record attempt_telemetry =
  tm_agent_usage :: "reported_usage option"
  tm_simulator_usage :: "reported_usage option"
  tm_agent_cost :: "cost option"
  tm_simulator_cost :: "cost option"
  tm_retry_cost :: "cost option"
  tm_wall_clock_ms :: "int option"
  tm_rounds :: "int option"
  tm_tool_calls :: "int option"
  tm_submit_count :: "int option"
  tm_cache_hit_ratio :: "rat option"
  tm_spool_path :: "string option"
  tm_spool_sha256 :: "string option"
  tm_agent_turns :: "int option"
  tm_agent_session_id :: "string option"

definition opt_ok :: "('a \<Rightarrow> bool) \<Rightarrow> 'a option \<Rightarrow> bool" where
  "opt_ok P x = (case x of None \<Rightarrow> True | Some v \<Rightarrow> P v)"

definition non_negative :: "int \<Rightarrow> bool" where "non_negative n \<longleftrightarrow> 0 \<le> n"
definition ratio_ok :: "rat \<Rightarrow> bool" where "ratio_ok r \<longleftrightarrow> 0 \<le> r \<and> r \<le> 1"

definition valid_attempt_telemetry :: "attempt_telemetry \<Rightarrow> bool" where
  "valid_attempt_telemetry t \<longleftrightarrow>
     opt_ok valid_reported_usage (tm_agent_usage t) \<and> opt_ok valid_reported_usage (tm_simulator_usage t)
     \<and> opt_ok valid_cost (tm_agent_cost t) \<and> opt_ok valid_cost (tm_simulator_cost t)
     \<and> opt_ok valid_cost (tm_retry_cost t) \<and> opt_ok non_negative (tm_wall_clock_ms t)
     \<and> opt_ok non_negative (tm_rounds t) \<and> opt_ok non_negative (tm_tool_calls t)
     \<and> opt_ok non_negative (tm_submit_count t) \<and> opt_ok ratio_ok (tm_cache_hit_ratio t)
     \<and> opt_ok (len_ok 1 512) (tm_spool_path t) \<and> opt_ok hex64 (tm_spool_sha256 t)
     \<and> opt_ok non_negative (tm_agent_turns t) \<and> opt_ok (len_ok 1 64) (tm_agent_session_id t)"

definition empty_telemetry :: attempt_telemetry where
  "empty_telemetry = \<lparr>tm_agent_usage = None, tm_simulator_usage = None, tm_agent_cost = None,
     tm_simulator_cost = None, tm_retry_cost = None, tm_wall_clock_ms = None, tm_rounds = None,
     tm_tool_calls = None, tm_submit_count = None, tm_cache_hit_ratio = None, tm_spool_path = None,
     tm_spool_sha256 = None, tm_agent_turns = None, tm_agent_session_id = None\<rparr>"

record attempt_record =
  ar_attempt_id :: uuid
  ar_run_id :: uuid
  ar_experiment_id :: string
  ar_task_id :: string
  ar_mode :: bird_mode
  ar_attempt_seq :: int
  ar_status :: task_status
  ar_error_class :: "string option"
  ar_started_at :: py_datetime
  ar_finished_at :: "py_datetime option"
  ar_telemetry :: attempt_telemetry

definition valid_attempt_record :: "attempt_record \<Rightarrow> bool" where
  "valid_attempt_record r \<longleftrightarrow>
     len_ok 1 128 (ar_experiment_id r) \<and> len_ok 1 128 (ar_task_id r) \<and> 1 \<le> ar_attempt_seq r
     \<and> opt_ok (len_ok 1 128) (ar_error_class r) \<and> valid_attempt_telemetry (ar_telemetry r)"

record episode_result =
  er_reward :: "decimal option"
  er_phase1_passed :: "bool option"
  er_phase2_passed :: "bool option"
  er_rounds :: "int option"
  er_tool_calls :: "int option"
  er_submit_count :: "int option"

definition valid_episode_result :: "episode_result \<Rightarrow> bool" where
  "valid_episode_result r \<longleftrightarrow>
     opt_ok (\<lambda>d. dec_finite d \<and> dec_le dec_zero d) (er_reward r) \<and> opt_ok non_negative (er_rounds r)
     \<and> opt_ok non_negative (er_tool_calls r) \<and> opt_ok non_negative (er_submit_count r)"

subsection \<open>The store\<close>

datatype eval_error = EvalStateConflict string | TelemetryInvalid

type_synonym experiment_identity = "string \<times> string"

record eval_store =
  experiments :: "string \<rightharpoonup> experiment_identity"
  attempts :: "attempt_record list"
  results :: "uuid \<rightharpoonup> episode_result"

definition empty_eval_store :: eval_store where
  "empty_eval_store = \<lparr>experiments = Map.empty, attempts = [], results = Map.empty\<rparr>"

definition attempt_of :: "uuid \<Rightarrow> eval_store \<Rightarrow> attempt_record option" where
  "attempt_of i st = find (\<lambda>r. ar_attempt_id r = i) (attempts st)"

text \<open>Assigning to the key of an attempt that exists replaces its value in place.\<close>

definition set_attempt :: "attempt_record \<Rightarrow> eval_store \<Rightarrow> eval_store" where
  "set_attempt r st = st\<lparr>attempts := map (\<lambda>q. if ar_attempt_id q = ar_attempt_id r then r else q) (attempts st)\<rparr>"

definition register_experiment :: "string \<Rightarrow> experiment_identity \<Rightarrow> eval_store \<Rightarrow> (eval_error + unit) \<times> eval_store" where
  "register_experiment eid identity st = (case experiments st eid of
       Some existing \<Rightarrow> if existing \<noteq> identity
         then (Inl (EvalStateConflict ''experiment_identity_conflict''), st) else (Inr (), st)
     | None \<Rightarrow> (Inr (), st\<lparr>experiments := (experiments st)(eid \<mapsto> identity)\<rparr>))"

definition attempt_key :: "attempt_record \<Rightarrow> uuid \<times> string \<times> bird_mode \<times> int" where
  "attempt_key r = (ar_run_id r, ar_task_id r, ar_mode r, ar_attempt_seq r)"

definition register_attempt :: "attempt_record \<Rightarrow> eval_store \<Rightarrow> (eval_error + unit) \<times> eval_store" where
  "register_attempt r st =
     (if attempt_of (ar_attempt_id r) st \<noteq> None
      then (Inl (EvalStateConflict ''attempt_identity_conflict''), st)
      else if list_ex (\<lambda>q. attempt_key q = attempt_key r) (attempts st)
      then (Inl (EvalStateConflict ''attempt_sequence_conflict''), st)
      else (Inr (), st\<lparr>attempts := attempts st @ [r]\<rparr>))"

definition mark_running :: "uuid \<Rightarrow> task_status \<Rightarrow> eval_store \<Rightarrow> (eval_error + unit) \<times> eval_store" where
  "mark_running i expected st = (case attempt_of i st of
       None \<Rightarrow> (Inl (EvalStateConflict ''status_transition_conflict''), st)
     | Some r \<Rightarrow> if ar_status r \<noteq> Pending \<or> expected \<noteq> Pending
         then (Inl (EvalStateConflict ''status_transition_conflict''), st)
         else (Inr (), set_attempt (r\<lparr>ar_status := Running\<rparr>) st))"

definition finish_attempt ::
    "uuid \<Rightarrow> task_status \<Rightarrow> string option \<Rightarrow> attempt_telemetry \<Rightarrow> episode_result option \<Rightarrow> py_datetime
       \<Rightarrow> eval_store \<Rightarrow> (eval_error + unit) \<times> eval_store" where
  "finish_attempt i status error telemetry result now st = (case attempt_of i st of
       None \<Rightarrow> (Inl (EvalStateConflict ''status_transition_conflict''), st)
     | Some r \<Rightarrow>
         if ar_status r \<noteq> Running then (Inl (EvalStateConflict ''status_transition_conflict''), st)
         else if error \<noteq> None \<and> status = Succeeded
         then (Inl (EvalStateConflict ''succeeded_requires_no_error_class''), st)
         else if result \<noteq> None \<and> status \<noteq> Succeeded
         then (Inl (EvalStateConflict ''result_requires_succeeded_attempt''), st)
         else if result \<noteq> None \<and> results st i \<noteq> None
         then (Inl (EvalStateConflict ''result_already_recorded''), st)
         else let st' = set_attempt (r\<lparr>ar_status := status, ar_error_class := error,
                ar_finished_at := Some now, ar_telemetry := telemetry\<rparr>) st
           in (Inr (), case result of None \<Rightarrow> st' | Some e \<Rightarrow> st'\<lparr>results := (results st')(i \<mapsto> e)\<rparr>))"

type_synonym task_key = "string \<times> bird_mode"

definition task_key :: "attempt_record \<Rightarrow> task_key" where
  "task_key r = (ar_task_id r, ar_mode r)"

definition completed_tasks :: "string \<Rightarrow> eval_store \<Rightarrow> task_key list" where
  "completed_tasks eid st = remdups (map task_key (filter (\<lambda>r. ar_experiment_id r = eid
     \<and> ar_status r \<in> set terminal_statuses) (attempts st)))"

text \<open>The dict \<open>latest\<close> of unfinished_attempts: a later record replaces one with a smaller sequence.\<close>

fun put_latest :: "attempt_record \<Rightarrow> attempt_record list \<Rightarrow> attempt_record list" where
  "put_latest r [] = [r]"
| "put_latest r (q # latest) =
     (if task_key q = task_key r
      then (if ar_attempt_seq q < ar_attempt_seq r then r # latest else q # latest)
      else q # put_latest r latest)"

definition latest_attempts :: "string \<Rightarrow> task_key list \<Rightarrow> attempt_record list \<Rightarrow> attempt_record list" where
  "latest_attempts eid completed rs =
     fold put_latest (filter (\<lambda>r. ar_experiment_id r = eid \<and> task_key r \<notin> set completed) rs) []"

definition unfinished_attempts :: "string \<Rightarrow> eval_store \<Rightarrow> attempt_record list" where
  "unfinished_attempts eid st = sort_key task_key (latest_attempts eid (completed_tasks eid st) (attempts st))"

definition record_result :: "uuid \<Rightarrow> episode_result \<Rightarrow> eval_store \<Rightarrow> (eval_error + unit) \<times> eval_store" where
  "record_result i result st = (case attempt_of i st of
       None \<Rightarrow> (Inl (EvalStateConflict ''result_requires_succeeded_attempt''), st)
     | Some r \<Rightarrow> if ar_status r \<noteq> Succeeded
         then (Inl (EvalStateConflict ''result_requires_succeeded_attempt''), st)
         else if results st i \<noteq> None then (Inl (EvalStateConflict ''result_already_recorded''), st)
         else (Inr (), st\<lparr>results := (results st)(i \<mapsto> result)\<rparr>))"

subsection \<open>Telemetry patches\<close>

text \<open>
  \<open>px_int\<close>, \<open>px_ratio\<close> and \<open>px_decimal\<close> are pydantic's parsing of one value into an int, a float and a
  Decimal field. Stored fields are dumped and validated again by merge_telemetry; being valid they are
  unchanged, so only the fields the patch names are parsed.
\<close>

record pydantic =
  px_int :: "json \<Rightarrow> int option"
  px_ratio :: "json \<Rightarrow> rat option"
  px_decimal :: "json \<Rightarrow> decimal option"

definition px_str :: "json \<Rightarrow> string option" where
  "px_str j = (case j of JStr s \<Rightarrow> Some s | _ \<Rightarrow> None)"

definition px_field :: "(json \<Rightarrow> 'a option) \<Rightarrow> (string \<times> json) list \<Rightarrow> string \<Rightarrow> 'a option" where
  "px_field P kvs k = Option.bind (map_of kvs k) P"

definition px_optional :: "(json \<Rightarrow> 'a option) \<Rightarrow> json \<Rightarrow> 'a option option" where
  "px_optional P j = (case j of JNull \<Rightarrow> Some None | _ \<Rightarrow> map_option Some (P j))"

definition usage_names :: "string list" where
  "usage_names = [''prompt_tokens'', ''cache_hit_tokens'', ''cache_miss_tokens'', ''completion_tokens'',
     ''reasoning_tokens'', ''total_tokens'']"

definition px_usage :: "pydantic \<Rightarrow> json \<Rightarrow> reported_usage option" where
  "px_usage P j = (case j of
       JObj kvs \<Rightarrow>
         if map_of kvs ''status'' = Some (JStr ''reported'')
            \<and> list_all (\<lambda>(k, v). k = ''status'' \<or> k \<in> set usage_names) kvs
         then (case map (px_field (px_int P) kvs) usage_names of
             [Some p, Some h, Some m, Some c, Some r, Some t] \<Rightarrow>
               let u = \<lparr>ru_prompt_tokens = p, ru_cache_hit_tokens = h, ru_cache_miss_tokens = m,
                 ru_completion_tokens = c, ru_reasoning_tokens = r, ru_total_tokens = t\<rparr>
               in if valid_reported_usage u then Some u else None
           | _ \<Rightarrow> None)
         else None
     | _ \<Rightarrow> None)"

definition px_band :: "json \<Rightarrow> price_band option" where
  "px_band j = (if j = JStr ''peak'' then Some Peak else if j = JStr ''off_peak'' then Some OffPeak else None)"

definition estimate_names :: "string list" where
  "estimate_names = [''status'', ''price_snapshot_id'', ''currency'', ''amount'', ''price_band'']"

definition px_cost :: "pydantic \<Rightarrow> json \<Rightarrow> cost option" where
  "px_cost P j = (case j of
       JObj kvs \<Rightarrow>
         if map_of kvs ''status'' = Some (JStr ''estimated'')
         then (if list_all (\<lambda>(k, v). k \<in> set estimate_names) kvs
                 \<and> map_of kvs ''currency'' = Some (JStr ''USD'')
               then (case (px_field px_str kvs ''price_snapshot_id'', px_field (px_decimal P) kvs ''amount'',
                           px_field px_band kvs ''price_band'') of
                   (Some i, Some a, Some b) \<Rightarrow>
                     let e = \<lparr>ce_price_snapshot_id = i, ce_amount = a, ce_price_band = b\<rparr>
                     in if valid_cost_estimate e then Some (Estimated e) else None
                 | _ \<Rightarrow> None)
               else None)
         else if map_of kvs ''status'' = Some (JStr ''unavailable'')
           \<and> list_all (\<lambda>(k, v). k \<in> {''status'', ''reason_code''}) kvs
         then (case px_field px_str kvs ''reason_code'' of
             Some c \<Rightarrow> if reason_code_ok c then Some (CostUnavailable c) else None
           | None \<Rightarrow> None)
         else None
     | _ \<Rightarrow> None)"

definition telemetry_names :: "string list" where
  "telemetry_names = [''agent_usage'', ''simulator_usage'', ''agent_cost'', ''simulator_cost'', ''retry_cost'',
     ''wall_clock_ms'', ''rounds'', ''tool_calls'', ''submit_count'', ''cache_hit_ratio'', ''spool_path'',
     ''spool_sha256'', ''agent_turns'', ''agent_session_id'']"

type_synonym telemetry_patch = "(string \<times> json) list"

definition patched :: "(json \<Rightarrow> 'a option) \<Rightarrow> telemetry_patch \<Rightarrow> string \<Rightarrow> 'a option \<Rightarrow> 'a option option" where
  "patched P patch k old = (case map_of patch k of None \<Rightarrow> Some old | Some j \<Rightarrow> px_optional P j)"

definition patch_telemetry :: "pydantic \<Rightarrow> telemetry_patch \<Rightarrow> attempt_telemetry \<Rightarrow> attempt_telemetry option" where
  "patch_telemetry P patch t =
     (if list_all (\<lambda>(k, v). k \<in> set telemetry_names) patch
      then Option.bind (patched (px_usage P) patch ''agent_usage'' (tm_agent_usage t)) (\<lambda>au.
           Option.bind (patched (px_usage P) patch ''simulator_usage'' (tm_simulator_usage t)) (\<lambda>su.
           Option.bind (patched (px_cost P) patch ''agent_cost'' (tm_agent_cost t)) (\<lambda>ac.
           Option.bind (patched (px_cost P) patch ''simulator_cost'' (tm_simulator_cost t)) (\<lambda>sc.
           Option.bind (patched (px_cost P) patch ''retry_cost'' (tm_retry_cost t)) (\<lambda>rc.
           Option.bind (patched (px_int P) patch ''wall_clock_ms'' (tm_wall_clock_ms t)) (\<lambda>w.
           Option.bind (patched (px_int P) patch ''rounds'' (tm_rounds t)) (\<lambda>rd.
           Option.bind (patched (px_int P) patch ''tool_calls'' (tm_tool_calls t)) (\<lambda>tc.
           Option.bind (patched (px_int P) patch ''submit_count'' (tm_submit_count t)) (\<lambda>sb.
           Option.bind (patched (px_ratio P) patch ''cache_hit_ratio'' (tm_cache_hit_ratio t)) (\<lambda>ch.
           Option.bind (patched px_str patch ''spool_path'' (tm_spool_path t)) (\<lambda>sp.
           Option.bind (patched px_str patch ''spool_sha256'' (tm_spool_sha256 t)) (\<lambda>sh.
           Option.bind (patched (px_int P) patch ''agent_turns'' (tm_agent_turns t)) (\<lambda>turns.
           Option.bind (patched px_str patch ''agent_session_id'' (tm_agent_session_id t)) (\<lambda>ai.
             let t' = \<lparr>tm_agent_usage = au, tm_simulator_usage = su, tm_agent_cost = ac,
               tm_simulator_cost = sc, tm_retry_cost = rc, tm_wall_clock_ms = w, tm_rounds = rd,
               tm_tool_calls = tc, tm_submit_count = sb, tm_cache_hit_ratio = ch, tm_spool_path = sp,
               tm_spool_sha256 = sh, tm_agent_turns = turns, tm_agent_session_id = ai\<rparr>
             in if valid_attempt_telemetry t' then Some t' else None))))))))))))))
      else None)"

definition merge_telemetry :: "pydantic \<Rightarrow> uuid \<Rightarrow> telemetry_patch \<Rightarrow> eval_store \<Rightarrow> (eval_error + unit) \<times> eval_store" where
  "merge_telemetry P i patch st = (case attempt_of i st of
       None \<Rightarrow> (Inl (EvalStateConflict ''attempt_not_found''), st)
     | Some r \<Rightarrow> (case patch_telemetry P patch (ar_telemetry r) of
           None \<Rightarrow> (Inl TelemetryInvalid, st)
         | Some t \<Rightarrow> (Inr (), set_attempt (r\<lparr>ar_telemetry := t\<rparr>) st)))"

subsection \<open>Lookups\<close>

lemma find_unique:
  "distinct (map f xs) \<Longrightarrow> x \<in> set xs \<Longrightarrow> find (\<lambda>y. f y = f x) xs = Some x"
  by (induction xs) (auto simp: rev_image_eqI)

lemma attempt_of_SomeD: "attempt_of i st = Some r \<Longrightarrow> r \<in> set (attempts st) \<and> ar_attempt_id r = i"
  by (auto simp: attempt_of_def find_Some_iff)

lemma attempt_of_None_iff: "attempt_of i st = None \<longleftrightarrow> (\<forall>r \<in> set (attempts st). ar_attempt_id r \<noteq> i)"
  by (auto simp: attempt_of_def find_None_iff)

lemma set_attempt_simps [simp]:
  "experiments (set_attempt r st) = experiments st" "results (set_attempt r st) = results st"
  "length (attempts (set_attempt r st)) = length (attempts st)"
  "map ar_attempt_id (attempts (set_attempt r st)) = map ar_attempt_id (attempts st)"
  by (simp_all add: set_attempt_def)

lemma set_attempt_mem:
  "q \<in> set (attempts (set_attempt r st)) \<longleftrightarrow>
     q \<in> set (attempts st) \<and> ar_attempt_id q \<noteq> ar_attempt_id r
     \<or> q = r \<and> (\<exists>p \<in> set (attempts st). ar_attempt_id p = ar_attempt_id r)"
  by (auto simp: set_attempt_def)

lemma attempt_of_set:
  "attempt_of i (set_attempt r st) =
     (if i = ar_attempt_id r then map_option (\<lambda>_. r) (attempt_of i st) else attempt_of i st)"
proof -
  have "find (\<lambda>q. ar_attempt_id q = i) (map (\<lambda>q. if ar_attempt_id q = ar_attempt_id r then r else q) qs)
      = (if i = ar_attempt_id r then map_option (\<lambda>_. r) (find (\<lambda>q. ar_attempt_id q = i) qs)
         else find (\<lambda>q. ar_attempt_id q = i) qs)" for qs
    by (induction qs) auto
  then show ?thesis by (simp add: attempt_of_def set_attempt_def)
qed
subsection \<open>The latest unfinished attempts\<close>

lemma put_latest_keys: "task_key ` set (put_latest r latest) = insert (task_key r) (task_key ` set latest)"
  by (induction r latest rule: put_latest.induct) (auto simp: insert_commute)

lemma put_latest_sub: "set (put_latest r latest) \<subseteq> insert r (set latest)"
  by (induction r latest rule: put_latest.induct) auto

lemma put_latest_distinct: "distinct (map task_key latest) \<Longrightarrow> distinct (map task_key (put_latest r latest))"
  by (induction r latest rule: put_latest.induct) (auto simp: put_latest_keys)

definition covers :: "attempt_record list \<Rightarrow> attempt_record \<Rightarrow> bool" where
  "covers latest q \<longleftrightarrow> (\<exists>r \<in> set latest. task_key r = task_key q \<and> ar_attempt_seq q \<le> ar_attempt_seq r)"

lemma covers_simps [simp]:
  "\<not> covers [] q"
  "covers (x # latest) q \<longleftrightarrow> task_key x = task_key q \<and> ar_attempt_seq q \<le> ar_attempt_seq x \<or> covers latest q"
  by (auto simp: covers_def)

lemma put_latest_covers_new: "covers (put_latest r latest) r"
  by (induction r latest rule: put_latest.induct) auto

lemma put_latest_covers_old: "covers latest q \<Longrightarrow> covers (put_latest r latest) q"
  by (induction r latest rule: put_latest.induct) auto

lemma fold_put_latest:
  "distinct (map task_key acc) \<Longrightarrow>
     distinct (map task_key (fold put_latest rs acc))
     \<and> set (fold put_latest rs acc) \<subseteq> set rs \<union> set acc
     \<and> (\<forall>q \<in> set rs \<union> {q. covers acc q}. covers (fold put_latest rs acc) q)"
proof (induction rs arbitrary: acc)
  case (Cons r rs)
  have IH: "distinct (map task_key (fold put_latest rs (put_latest r acc)))"
    "set (fold put_latest rs (put_latest r acc)) \<subseteq> set rs \<union> set (put_latest r acc)"
    "\<forall>q \<in> set rs \<union> {q. covers (put_latest r acc) q}. covers (fold put_latest rs (put_latest r acc)) q"
    using Cons.IH [OF put_latest_distinct [OF Cons.prems]] by auto
  then show ?case
    using put_latest_sub [of r acc] put_latest_covers_new [of r acc] put_latest_covers_old by auto
qed (auto simp: covers_def)

lemma latest_attempts_mem:
  assumes "r \<in> set (latest_attempts eid done rs)"
  shows "r \<in> set rs \<and> ar_experiment_id r = eid \<and> task_key r \<notin> set done"
  using assms fold_put_latest [of "[]" "filter (\<lambda>r. ar_experiment_id r = eid \<and> task_key r \<notin> set done) rs"]
  by (auto simp: latest_attempts_def)

lemma latest_attempts_distinct: "distinct (map task_key (latest_attempts eid done rs))"
  by (simp add: latest_attempts_def fold_put_latest)

lemma latest_attempts_max:
  assumes "q \<in> set rs" "ar_experiment_id q = eid" "task_key q \<notin> set done"
  obtains r where "r \<in> set (latest_attempts eid done rs)" "task_key r = task_key q"
    "ar_attempt_seq q \<le> ar_attempt_seq r"
  using assms fold_put_latest [of "[]" "filter (\<lambda>r. ar_experiment_id r = eid \<and> task_key r \<notin> set done) rs"]
  by (auto simp: latest_attempts_def covers_def)

lemma set_unfinished:
  "set (unfinished_attempts eid st) = set (latest_attempts eid (completed_tasks eid st) (attempts st))"
  by (simp add: unfinished_attempts_def)

lemma completed_tasks_iff:
  "k \<in> set (completed_tasks eid st) \<longleftrightarrow>
     (\<exists>r \<in> set (attempts st). ar_experiment_id r = eid \<and> task_key r = k \<and> ar_status r \<in> set terminal_statuses)"
  by (auto simp: completed_tasks_def)

lemma distinct_key_eq:
  "distinct (map f xs) \<Longrightarrow> x \<in> set xs \<Longrightarrow> y \<in> set xs \<Longrightarrow> f x = f y \<Longrightarrow> x = y"
  by (meson distinct_map inj_on_eq_iff)

lemma unfinished_is_max:
  assumes "r \<in> set (unfinished_attempts eid st)" "q \<in> set (attempts st)"
    "ar_experiment_id q = eid" "task_key q = task_key r"
  shows "ar_attempt_seq q \<le> ar_attempt_seq r"
proof -
  let ?l = "latest_attempts eid (completed_tasks eid st) (attempts st)"
  have r: "r \<in> set ?l" using assms(1) by (simp add: set_unfinished)
  then have "task_key q \<notin> set (completed_tasks eid st)" using latest_attempts_mem assms(4) by metis
  from latest_attempts_max [OF assms(2,3) this] obtain r'
    where r': "r' \<in> set ?l" "task_key r' = task_key q" "ar_attempt_seq q \<le> ar_attempt_seq r'" by metis
  have "r' = r" using distinct_key_eq [OF latest_attempts_distinct r'(1) r] r'(2) assms(4) by simp
  then show ?thesis using r'(3) by simp
qed

subsection \<open>The status machine\<close>

text \<open>The calls of the protocol as one step relation; \<open>res\<close> is what the call returns.\<close>

inductive eval_step :: "eval_store \<Rightarrow> eval_store \<Rightarrow> bool" where
  Register_experiment: "register_experiment eid ident st = (res, st') \<Longrightarrow> eval_step st st'"
| Register_attempt: "valid_attempt_record r \<Longrightarrow> ar_status r = Pending \<Longrightarrow>
     register_attempt r st = (res, st') \<Longrightarrow> eval_step st st'"
| Mark_running: "mark_running i expected st = (res, st') \<Longrightarrow> eval_step st st'"
| Finish: "valid_attempt_telemetry t \<Longrightarrow> opt_ok (len_ok 1 128) error \<Longrightarrow>
     finish_attempt i status error t result now st = (res, st') \<Longrightarrow> eval_step st st'"
| Merge: "merge_telemetry P i patch st = (res, st') \<Longrightarrow> eval_step st st'"
| Record: "record_result i result st = (res, st') \<Longrightarrow> eval_step st st'"

inductive_cases eval_stepE: "eval_step st st'"

definition eval_inv :: "eval_store \<Rightarrow> bool" where
  "eval_inv st \<longleftrightarrow>
     distinct (map ar_attempt_id (attempts st)) \<and> distinct (map attempt_key (attempts st))
     \<and> (\<forall>r \<in> set (attempts st). valid_attempt_record r)
     \<and> (\<forall>i e. results st i = Some e \<longrightarrow> (\<exists>r \<in> set (attempts st). ar_attempt_id r = i \<and> ar_status r = Succeeded))"

text \<open>What one step can do to the attempts and results.\<close>

definition status_move :: "task_status \<Rightarrow> task_status \<Rightarrow> bool" where
  "status_move a b \<longleftrightarrow> a = b \<or> a = Pending \<and> b = Running \<or> a = Running"

definition same_attempt :: "attempt_record \<Rightarrow> attempt_record \<Rightarrow> bool" where
  "same_attempt a b \<longleftrightarrow> ar_attempt_id a = ar_attempt_id b \<and> attempt_key a = attempt_key b
     \<and> ar_experiment_id a = ar_experiment_id b \<and> ar_started_at a = ar_started_at b"

lemma same_attempt_refl [simp]: "same_attempt a a"
  by (simp add: same_attempt_def)

lemma same_attempt_trans: "same_attempt a b \<Longrightarrow> same_attempt b c \<Longrightarrow> same_attempt a c"
  by (simp add: same_attempt_def)

inductive eval_effect :: "eval_store \<Rightarrow> eval_store \<Rightarrow> bool" where
  Other: "attempts st' = attempts st \<Longrightarrow> results st' = results st \<Longrightarrow> eval_effect st st'"
| New: "attempts st' = attempts st @ [r] \<Longrightarrow> results st' = results st \<Longrightarrow> valid_attempt_record r \<Longrightarrow>
     ar_status r = Pending \<Longrightarrow>
     ar_attempt_id r \<notin> ar_attempt_id ` set (attempts st) \<Longrightarrow> attempt_key r \<notin> attempt_key ` set (attempts st) \<Longrightarrow>
     eval_effect st st'"
| Change: "attempts st' = attempts (set_attempt r' st) \<Longrightarrow> attempt_of (ar_attempt_id r) st = Some r \<Longrightarrow>
     same_attempt r r' \<Longrightarrow> status_move (ar_status r) (ar_status r') \<Longrightarrow> valid_attempt_record r' \<Longrightarrow>
     (ar_status r \<noteq> Running \<Longrightarrow> ar_status r \<noteq> Pending \<Longrightarrow> r' = r\<lparr>ar_telemetry := ar_telemetry r'\<rparr>) \<Longrightarrow>
     results st' = results st \<or> (ar_status r' = Succeeded \<and> (\<exists>e. results st' = (results st)(ar_attempt_id r \<mapsto> e))) \<Longrightarrow>
     eval_effect st st'"
| Result: "attempts st' = attempts st \<Longrightarrow> attempt_of (ar_attempt_id r) st = Some r \<Longrightarrow> ar_status r = Succeeded \<Longrightarrow>
     results st (ar_attempt_id r) = None \<Longrightarrow> results st' = (results st)(ar_attempt_id r \<mapsto> e) \<Longrightarrow> eval_effect st st'"

inductive_cases eval_effectE: "eval_effect st st'"

lemma patch_telemetry_valid: "patch_telemetry P patch t = Some t' \<Longrightarrow> valid_attempt_telemetry t'"
  by (auto simp: patch_telemetry_def bind_eq_Some_conv Let_def split: if_splits)

lemma eval_step_effect:
  assumes "eval_step st st'" "eval_inv st"
  shows "eval_effect st st'"
  using assms(1)
proof cases
  case (Register_experiment eid ident res)
  then show ?thesis
    by (auto simp: register_experiment_def split: option.splits if_splits intro: eval_effect.Other)
next
  case (Register_attempt r res)
  show ?thesis
  proof (cases "st' = st")
    case False
    then have "st' = st\<lparr>attempts := attempts st @ [r]\<rparr>" "attempt_of (ar_attempt_id r) st = None"
      "\<not> list_ex (\<lambda>q. attempt_key q = attempt_key r) (attempts st)"
      using Register_attempt(3) by (auto simp: register_attempt_def split: if_splits)
    then show ?thesis using Register_attempt(1,2)
      by (intro eval_effect.New [of st' st r]) (auto simp: attempt_of_None_iff list_ex_iff)
  qed (auto intro: eval_effect.Other)
next
  case (Mark_running i expected res)
  show ?thesis
  proof (cases "st' = st")
    case False
    then obtain r where r: "attempt_of i st = Some r" "ar_status r = Pending"
      "st' = set_attempt (r\<lparr>ar_status := Running\<rparr>) st"
      using Mark_running by (auto simp: mark_running_def split: option.splits if_splits)
    have "r \<in> set (attempts st)" "ar_attempt_id r = i" using attempt_of_SomeD [OF r(1)] by auto
    then show ?thesis using r assms(2)
      by (intro eval_effect.Change [of st' "r\<lparr>ar_status := Running\<rparr>" st r])
        (auto simp: same_attempt_def attempt_key_def status_move_def valid_attempt_record_def eval_inv_def)
  qed (auto intro: eval_effect.Other)
next
  case (Finish t error i status result now res)
  show ?thesis
  proof (cases "st' = st")
    case False
    define r' where "r' r = r\<lparr>ar_status := status, ar_error_class := error, ar_finished_at := Some now,
      ar_telemetry := t\<rparr>" for r :: attempt_record
    from False Finish(3) obtain r where r: "attempt_of i st = Some r" "ar_status r = Running"
      "st' = (case result of None \<Rightarrow> set_attempt (r' r) st
         | Some e \<Rightarrow> (set_attempt (r' r) st)\<lparr>results := (results st)(i \<mapsto> e)\<rparr>)"
      "result \<noteq> None \<longrightarrow> status = Succeeded"
      by (auto simp: finish_attempt_def Let_def r'_def split: option.splits if_splits)
    have m: "r \<in> set (attempts st)" "ar_attempt_id r = i" using attempt_of_SomeD [OF r(1)] by auto
    have "valid_attempt_record (r' r)" "same_attempt r (r' r)"
      using Finish(1,2) m assms(2) by (auto simp: r'_def valid_attempt_record_def eval_inv_def same_attempt_def attempt_key_def)
    moreover have "attempts st' = attempts (set_attempt (r' r) st)" using r(3) by (auto split: option.splits)
    moreover have "results st' = results st \<or> ar_status (r' r) = Succeeded
        \<and> (\<exists>e. results st' = (results st)(ar_attempt_id r \<mapsto> e))"
      using r(3,4) m by (auto simp: r'_def split: option.splits)
    ultimately show ?thesis using r(1,2) m
      by (intro eval_effect.Change [of st' "r' r" st r]) (auto simp: status_move_def)
  qed (auto intro: eval_effect.Other)
next
  case (Merge P i patch res)
  show ?thesis
  proof (cases "st' = st")
    case False
    then obtain r t where r: "attempt_of i st = Some r" "patch_telemetry P patch (ar_telemetry r) = Some t"
      "st' = set_attempt (r\<lparr>ar_telemetry := t\<rparr>) st"
      using Merge by (auto simp: merge_telemetry_def split: option.splits)
    have "r \<in> set (attempts st)" "ar_attempt_id r = i" using attempt_of_SomeD [OF r(1)] by auto
    then show ?thesis using r patch_telemetry_valid [OF r(2)] assms(2)
      by (intro eval_effect.Change [of st' "r\<lparr>ar_telemetry := t\<rparr>" st r])
        (auto simp: same_attempt_def attempt_key_def status_move_def valid_attempt_record_def eval_inv_def)
  qed (auto intro: eval_effect.Other)
next
  case (Record i result res)
  show ?thesis
  proof (cases "st' = st")
    case False
    then obtain r where r: "attempt_of i st = Some r" "ar_status r = Succeeded" "results st i = None"
      "st' = st\<lparr>results := (results st)(i \<mapsto> result)\<rparr>"
      using Record by (auto simp: record_result_def split: option.splits if_splits)
    then show ?thesis using attempt_of_SomeD [OF r(1)]
      by (intro eval_effect.Result [of st' st r result]) auto
  qed (auto intro: eval_effect.Other)
qed
lemma distinct_map_set_attempt:
  assumes "distinct (map f (attempts st))" "r \<in> set (attempts st)" "ar_attempt_id r = ar_attempt_id r'" "f r = f r'"
    and "distinct (map ar_attempt_id (attempts st))"
  shows "distinct (map f (attempts (set_attempt r' st)))"
proof -
  have "q = r" if "q \<in> set (attempts st)" "ar_attempt_id q = ar_attempt_id r'" for q
    using distinct_key_eq [OF assms(5) that(1) assms(2)] that(2) assms(3) by simp
  then have "map f (attempts (set_attempt r' st)) = map f (attempts st)"
    using assms(4) by (auto simp: set_attempt_def)
  then show ?thesis using assms(1) by simp
qed

lemma eval_inv_id: "eval_inv st \<Longrightarrow> r \<in> set (attempts st) \<Longrightarrow> attempt_of (ar_attempt_id r) st = Some r"
  using find_unique [of ar_attempt_id "attempts st" r] by (simp add: attempt_of_def eval_inv_def)

lemma eval_effect_inv:
  assumes "eval_effect st st'" "eval_inv st"
  shows "eval_inv st'"
  using assms(1)
proof cases
  case Other
  then show ?thesis using assms(2) by (simp add: eval_inv_def)
next
  case (New r)
  then show ?thesis using assms(2) by (auto simp: eval_inv_def)
next
  case (Change r' r)
  have r: "r \<in> set (attempts st)" using attempt_of_SomeD [OF Change(2)] by simp
  have d: "distinct (map ar_attempt_id (attempts st))" "distinct (map attempt_key (attempts st))"
    using assms(2) by (auto simp: eval_inv_def)
  have ids: "ar_attempt_id r = ar_attempt_id r'" "attempt_key r = attempt_key r'"
    using Change(3) by (auto simp: same_attempt_def)
  have "\<exists>q \<in> set (attempts st'). ar_attempt_id q = i \<and> ar_status q = Succeeded" if "results st' i = Some e" for i e
  proof (cases "i = ar_attempt_id r")
    case True
    have "ar_status r' = Succeeded"
    proof (rule ccontr)
      assume n: "ar_status r' \<noteq> Succeeded"
      then have "results st i = Some e" using Change(7) that by auto
      then obtain q where q: "q \<in> set (attempts st)" "ar_attempt_id q = i" "ar_status q = Succeeded"
        using assms(2) by (auto simp: eval_inv_def)
      have "q = r" using distinct_key_eq [OF d(1) q(1) r] q(2) True by simp
      then show False using n q(3) Change(4) by (simp add: status_move_def)
    qed
    moreover have "r' \<in> set (attempts st')" using r ids(1) by (auto simp: Change(1) set_attempt_mem)
    ultimately show ?thesis using ids(1) True by auto
  next
    case False
    then have "results st i = Some e" using Change(7) that by auto
    then obtain q where "q \<in> set (attempts st)" "ar_attempt_id q = i" "ar_status q = Succeeded"
      using assms(2) by (auto simp: eval_inv_def)
    then show ?thesis using False ids(1) Change(1) by (auto simp: set_attempt_mem intro!: bexI [of _ q])
  qed
  moreover have "\<forall>q \<in> set (attempts st'). valid_attempt_record q"
    using assms(2) Change(1,5) by (auto simp: eval_inv_def set_attempt_mem)
  moreover have "distinct (map ar_attempt_id (attempts st'))" using d Change(1) by simp
  moreover have "distinct (map attempt_key (attempts st'))"
    using distinct_map_set_attempt [OF d(2) r ids d(1)] Change(1) by simp
  ultimately show ?thesis by (simp add: eval_inv_def)
next
  case (Result r e)
  have "r \<in> set (attempts st)" using attempt_of_SomeD [OF Result(2)] by simp
  then show ?thesis using assms(2) Result by (auto simp: eval_inv_def)
qed

lemma eval_step_inv: "eval_step st st' \<Longrightarrow> eval_inv st \<Longrightarrow> eval_inv st'"
  using eval_step_effect eval_effect_inv by blast

abbreviation eval_steps :: "eval_store \<Rightarrow> eval_store \<Rightarrow> bool" where
  "eval_steps \<equiv> rtranclp eval_step"

lemma eval_inv_empty: "eval_inv empty_eval_store"
  by (simp add: eval_inv_def empty_eval_store_def)

lemma eval_steps_inv: "eval_steps st st' \<Longrightarrow> eval_inv st \<Longrightarrow> eval_inv st'"
  by (induction rule: rtranclp_induct) (auto intro: eval_step_inv)

subsection \<open>The abstract life cycle\<close>

text \<open>A map from attempts to their status; a settled attempt has no further move.\<close>

inductive life_step :: "(uuid \<rightharpoonup> task_status) \<Rightarrow> (uuid \<rightharpoonup> task_status) \<Rightarrow> bool" where
  Submit: "m i = None \<Longrightarrow> life_step m (m(i \<mapsto> Pending))"
| Begin: "m i = Some Pending \<Longrightarrow> life_step m (m(i \<mapsto> Running))"
| Settle: "m i = Some Running \<Longrightarrow> life_step m (m(i \<mapsto> s))"

inductive_simps life_step_iff: "life_step m m'"

definition status_map :: "eval_store \<Rightarrow> uuid \<rightharpoonup> task_status" where
  "status_map st i = map_option ar_status (attempt_of i st)"

lemma status_map_append:
  "attempts st' = attempts st @ [r] \<Longrightarrow> ar_attempt_id r \<notin> ar_attempt_id ` set (attempts st) \<Longrightarrow>
     status_map st' = (status_map st)(ar_attempt_id r \<mapsto> ar_status r)"
proof -
  assume a: "attempts st' = attempts st @ [r]" "ar_attempt_id r \<notin> ar_attempt_id ` set (attempts st)"
  have f: "find P (xs @ ys) = (case find P xs of None \<Rightarrow> find P ys | Some x \<Rightarrow> Some x)" for P :: "attempt_record \<Rightarrow> bool" and xs ys
    by (induction xs) auto
  have n: "find (\<lambda>q. ar_attempt_id q = ar_attempt_id r) (attempts st) = None"
    using a(2) by (auto simp: find_None_iff image_iff)
  show "status_map st' = (status_map st)(ar_attempt_id r \<mapsto> ar_status r)"
    by (rule ext) (auto simp: status_map_def attempt_of_def a(1) f n split: option.splits)
qed

lemma status_map_set:
  "attempts st' = attempts (set_attempt r' st) \<Longrightarrow> attempt_of (ar_attempt_id r') st \<noteq> None \<Longrightarrow>
     status_map st' = (status_map st)(ar_attempt_id r' \<mapsto> ar_status r')"
  using attempt_of_set [of _ r' st] by (auto simp: status_map_def attempt_of_def fun_eq_iff)

lemma eval_effect_life:
  assumes "eval_effect st st'"
  shows "life_step\<^sup>=\<^sup>= (status_map st) (status_map st')"
  using assms
proof cases
  case (New r)
  have "status_map st (ar_attempt_id r) = None"
    using New(5) by (auto simp: status_map_def attempt_of_None_iff image_iff)
  then show ?thesis using status_map_append [OF New(1,5)] New(4) by (auto intro: life_step.Submit)
next
  case (Change r' r)
  have i: "ar_attempt_id r' = ar_attempt_id r" using Change(3) by (simp add: same_attempt_def)
  have m: "status_map st (ar_attempt_id r) = Some (ar_status r)" by (simp add: status_map_def Change(2))
  have u: "status_map st' = (status_map st)(ar_attempt_id r \<mapsto> ar_status r')"
    using status_map_set [OF Change(1)] Change(2) i by simp
  show ?thesis
  proof (cases "ar_status r' = ar_status r")
    case True
    then have "status_map st' = status_map st" using u m by (auto simp: fun_eq_iff)
    then show ?thesis by simp
  next
    case False
    then have "ar_status r = Pending \<and> ar_status r' = Running \<or> ar_status r = Running"
      using Change(4) by (auto simp: status_move_def)
    then show ?thesis using m u by (auto intro: life_step.Begin life_step.Settle)
  qed
qed (auto simp: status_map_def attempt_of_def fun_eq_iff)

definition settled :: "task_status \<Rightarrow> bool" where
  "settled s \<longleftrightarrow> s \<noteq> Pending \<and> s \<noteq> Running"

lemma eval_effect_settled:
  assumes "eval_effect st st'" "eval_inv st" "attempt_of i st = Some r" "settled (ar_status r)"
  shows "\<exists>t. attempt_of i st' = Some (r\<lparr>ar_telemetry := t\<rparr>)"
  using assms(1)
proof cases
  case (New q)
  have "i \<noteq> ar_attempt_id q" using New(5) attempt_of_SomeD [OF assms(3)] by (auto simp: rev_image_eqI)
  have f: "find P (xs @ ys) = (case find P xs of None \<Rightarrow> find P ys | Some x \<Rightarrow> Some x)" for P :: "attempt_record \<Rightarrow> bool" and xs ys
    by (induction xs) auto
  have "attempt_of i st' = Some r" using New(1) assms(3) by (simp add: attempt_of_def f)
  then show ?thesis by (auto intro!: exI [of _ "ar_telemetry r"])
next
  case (Change r' q)
  have s: "attempt_of i st' = attempt_of i (set_attempt r' st)" by (simp add: attempt_of_def Change(1))
  show ?thesis
  proof (cases "i = ar_attempt_id q")
    case True
    then have "q = r" using Change(2) assms(3) by simp
    then have "r' = r\<lparr>ar_telemetry := ar_telemetry r'\<rparr>" using Change(6) assms(4) by (auto simp: settled_def)
    moreover have "attempt_of i st' = Some r'"
      using True Change(2,3) s by (simp add: attempt_of_set same_attempt_def)
    ultimately show ?thesis by metis
  next
    case False
    then have "attempt_of i st' = Some r"
      using assms(3) Change(3) s by (simp add: attempt_of_set same_attempt_def)
    then show ?thesis by (auto intro!: exI [of _ "ar_telemetry r"])
  qed
qed (use assms(3) in \<open>auto simp: attempt_of_def intro!: exI [of _ "ar_telemetry r"]\<close>)

lemma eval_steps_settled:
  assumes "eval_steps st st'" "eval_inv st" "attempt_of i st = Some r" "settled (ar_status r)"
  shows "\<exists>t. attempt_of i st' = Some (r\<lparr>ar_telemetry := t\<rparr>)"
  using assms(1)
proof (induction rule: rtranclp_induct)
  case (step a b)
  then obtain t where "attempt_of i a = Some (r\<lparr>ar_telemetry := t\<rparr>)" by blast
  from eval_effect_settled [OF eval_step_effect [OF step(2)] _ this] eval_steps_inv [OF step(1) assms(2)] assms(4)
  show ?case by (metis attempt_record.select_convs(7) attempt_record.surjective attempt_record.update_convs(11))
qed (use assms(3) in \<open>auto intro!: exI [of _ "ar_telemetry r"]\<close>)
subsection \<open>Properties\<close>

text \<open>
  C24: The store implements the life cycle of an attempt: seen as a map from attempts to statuses, a
  call on a reachable store submits a new attempt as pending, begins a pending one, settles a
  running one, or changes nothing; and a result is only ever held by an attempt that succeeded.
\<close>

theorem eval_store_refines_lifecycle:
  assumes "eval_steps empty_eval_store st" "eval_step st st'"
  shows "life_step\<^sup>=\<^sup>= (status_map st) (status_map st')
    \<and> (\<forall>i. results st' i \<noteq> None \<longrightarrow> status_map st' i = Some Succeeded)"
proof -
  have inv: "eval_inv st" by (rule eval_steps_inv [OF assms(1) eval_inv_empty])
  have inv': "eval_inv st'" by (rule eval_step_inv [OF assms(2) inv])
  have "status_map st' i = Some Succeeded" if "results st' i = Some e" for i e
  proof -
    obtain r where "r \<in> set (attempts st')" "ar_attempt_id r = i" "ar_status r = Succeeded"
      using inv' \<open>results st' i = Some e\<close> by (auto simp: eval_inv_def)
    then show ?thesis using eval_inv_id [OF inv'] by (auto simp: status_map_def)
  qed
  then show ?thesis using eval_effect_life [OF eval_step_effect [OF assms(2) inv]] by auto
qed

text \<open>
  An attempt that has ended keeps its outcome. Once its status is neither pending nor running, no
  sequence of calls changes anything in its record but the telemetry, and it never disappears.
\<close>

theorem settled_attempt_final:
  assumes "eval_steps empty_eval_store st" "attempt_of i st = Some r"
    and "ar_status r \<noteq> Pending" "ar_status r \<noteq> Running" "eval_steps st st'"
  shows "\<exists>t. attempt_of i st' = Some (r\<lparr>ar_telemetry := t\<rparr>)"
  using eval_steps_settled [OF assms(5) eval_steps_inv [OF assms(1) eval_inv_empty] assms(2)] assms(3,4)
  by (simp add: settled_def)

definition sample_attempt :: attempt_record where
  "sample_attempt = \<lparr>ar_attempt_id = 1, ar_run_id = 9, ar_experiment_id = ''e'', ar_task_id = ''t'',
     ar_mode = ModeA, ar_attempt_seq = 1, ar_status = Pending, ar_error_class = None,
     ar_started_at = Aware 0 0, ar_finished_at = None, ar_telemetry = empty_telemetry\<rparr>"

definition sample_result :: episode_result where
  "sample_result = \<lparr>er_reward = None, er_phase1_passed = Some True, er_phase2_passed = None,
     er_rounds = None, er_tool_calls = None, er_submit_count = None\<rparr>"

definition sample_succeeded :: attempt_record where
  "sample_succeeded = sample_attempt\<lparr>ar_status := Succeeded, ar_finished_at := Some (Aware 5 0)\<rparr>"

definition sample_eval_store :: "attempt_record \<Rightarrow> eval_store" where
  "sample_eval_store r = empty_eval_store\<lparr>attempts := [r]\<rparr>"

definition sample_finished :: eval_store where
  "sample_finished = (sample_eval_store sample_succeeded)\<lparr>results := [1 \<mapsto> sample_result]\<rparr>"

lemma sample_attempt_valid: "valid_attempt_record sample_attempt" "valid_attempt_telemetry empty_telemetry"
  by (simp_all add: valid_attempt_record_def sample_attempt_def len_ok_def opt_ok_def
      valid_attempt_telemetry_def empty_telemetry_def)

lemma sample_run_steps:
  "eval_step empty_eval_store (sample_eval_store sample_attempt)"
  "eval_step (sample_eval_store sample_attempt) (sample_eval_store (sample_attempt\<lparr>ar_status := Running\<rparr>))"
  "eval_step (sample_eval_store (sample_attempt\<lparr>ar_status := Running\<rparr>)) sample_finished"
proof -
  show "eval_step empty_eval_store (sample_eval_store sample_attempt)"
    by (rule eval_step.Register_attempt [of sample_attempt _ "Inr ()", OF sample_attempt_valid(1)])
      (simp_all add: sample_attempt_def register_attempt_def empty_eval_store_def attempt_of_def sample_eval_store_def)
  show "eval_step (sample_eval_store sample_attempt) (sample_eval_store (sample_attempt\<lparr>ar_status := Running\<rparr>))"
    by (rule eval_step.Mark_running [of 1 Pending _ "Inr ()"])
      (simp add: sample_attempt_def mark_running_def empty_eval_store_def attempt_of_def sample_eval_store_def
        set_attempt_def)
  show "eval_step (sample_eval_store (sample_attempt\<lparr>ar_status := Running\<rparr>)) sample_finished"
    by (rule eval_step.Finish [of empty_telemetry None 1 Succeeded "Some sample_result" "Aware 5 0" _ "Inr ()",
          OF sample_attempt_valid(2)])
      (simp_all add: opt_ok_def sample_attempt_def finish_attempt_def empty_eval_store_def attempt_of_def
        sample_eval_store_def set_attempt_def sample_finished_def sample_succeeded_def)
qed

lemma sample_run_reached:
  "eval_steps empty_eval_store (sample_eval_store (sample_attempt\<lparr>ar_status := Running\<rparr>))"
  "eval_steps empty_eval_store sample_finished"
  using sample_run_steps by (meson rtranclp.rtrancl_into_rtrancl rtranclp.rtrancl_refl)+

theorem eval_store_refines_lifecycle_witness:
  "life_step\<^sup>=\<^sup>= (status_map (sample_eval_store (sample_attempt\<lparr>ar_status := Running\<rparr>))) (status_map sample_finished)
   \<and> status_map sample_finished 1 = Some Succeeded"
proof -
  have "results sample_finished 1 \<noteq> None" by (simp add: sample_finished_def)
  then show ?thesis using eval_store_refines_lifecycle [OF sample_run_reached(1) sample_run_steps(3)] by blast
qed

theorem settled_attempt_final_witness:
  "\<exists>t. attempt_of 1 (snd (finish_attempt 1 Failed None empty_telemetry None (Aware 7 0) sample_finished)) =
     Some (sample_succeeded\<lparr>ar_telemetry := t\<rparr>)"
proof (rule settled_attempt_final [OF sample_run_reached(2)])
  show "attempt_of 1 sample_finished = Some sample_succeeded"
    by (simp add: sample_finished_def sample_eval_store_def attempt_of_def sample_succeeded_def sample_attempt_def)
  show "ar_status sample_succeeded \<noteq> Pending" "ar_status sample_succeeded \<noteq> Running"
    by (simp_all add: sample_succeeded_def)
  have "eval_step sample_finished (snd (finish_attempt 1 Failed None empty_telemetry None (Aware 7 0) sample_finished))"
    by (rule eval_step.Finish [of empty_telemetry None 1 Failed None "Aware 7 0", OF sample_attempt_valid(2) _ prod.collapse [symmetric]])
      (simp add: opt_ok_def)
  then show "eval_steps sample_finished (snd (finish_attempt 1 Failed None empty_telemetry None (Aware 7 0) sample_finished))"
    by (rule r_into_rtranclp)
qed

end
