(* ===== verification/Spool.thy ===== *)
theory Spool
  imports Eval_Store Op_Canonical
begin

text \<open>
  The agent-visible spool (\<open>src/commerce_agent/evaluation/spool.py\<close>): a writer that appends one JSON
  line per event under a size cap, and the importer that validates a file and archives it. A file is
  its bytes; the clock-free file operations are functions of them. Parameters: \<open>loads\<close> is json.loads,
  \<open>decode\<close> is bytes.decode("utf-8"), \<open>show\<close> is str() of a list or dict, \<open>sha\<close> is SHA-256.
\<close>

subsection \<open>JSON values with floats\<close>

text \<open>A float is represented by its \<open>str()\<close>; an object is a dict in insertion order.\<close>

datatype jval =
    VNull
  | VBool bool
  | VInt int
  | VFloat string
  | VStr string
  | VList "jval list"
  | VObj "(string \<times> jval) list"

text \<open>\<open>json.dumps(v, ensure_ascii=False, sort_keys=True)\<close> with its default separators.\<close>

fun sep_by :: "string \<Rightarrow> string list \<Rightarrow> string" where
  "sep_by s [] = []"
| "sep_by s [x] = x"
| "sep_by s (x # y # zs) = x @ s @ sep_by s (y # zs)"

definition float_text :: "string \<Rightarrow> string" where
  "float_text s = (if s = ''nan'' then ''NaN'' else if s = ''inf'' then ''Infinity''
     else if s = ''-inf'' then ''-Infinity'' else s)"

primrec line_text :: "jval \<Rightarrow> string" where
  "line_text VNull = ''null''"
| "line_text (VBool b) = (if b then ''true'' else ''false'')"
| "line_text (VInt i) = show_int i"
| "line_text (VFloat s) = float_text s"
| "line_text (VStr s) = quote s"
| "line_text (VList vs) = ''['' @ sep_by '', '' (map line_text vs) @ '']''"
| "line_text (VObj kvs) = ''{'' @ sep_by '', '' (map (\<lambda>(k, t). quote k @ '': '' @ t) (map (map_prod id line_text) kvs)) @ ''}''"

primrec sort_keys :: "jval \<Rightarrow> jval" where
  "sort_keys VNull = VNull"
| "sort_keys (VBool b) = VBool b"
| "sort_keys (VInt i) = VInt i"
| "sort_keys (VFloat s) = VFloat s"
| "sort_keys (VStr s) = VStr s"
| "sort_keys (VList vs) = VList (map sort_keys vs)"
| "sort_keys (VObj kvs) = VObj (sort_key fst (map (map_prod id sort_keys) kvs))"

definition line_of :: "jval \<Rightarrow> string" where
  "line_of v = line_text (sort_keys v) @ [CHR 0x0A]"

subsection \<open>The writer\<close>

datatype spool_error = SpoolError string | Undecodable

definition spool_append :: "nat \<Rightarrow> jval \<Rightarrow> bytes \<Rightarrow> (spool_error + unit) \<times> bytes" where
  "spool_append max_bytes event file =
     (let encoded = utf8 (line_of event) in
      if max_bytes < length file + length encoded then (Inl (SpoolError ''spool_size_cap_exceeded''), file)
      else (Inr (), file @ encoded))"

subsection \<open>Events\<close>

definition lower :: "string \<Rightarrow> string" where
  "lower s = map (\<lambda>c. if is_upper c then char_of (of_char c + 32 :: nat) else c) s"

fun occurs :: "string \<Rightarrow> string \<Rightarrow> bool" where
  "occurs t [] = (t = [])"
| "occurs t (c # cs) = (take (length t) (c # cs) = t \<or> occurs t cs)"

definition forbidden_key_tokens :: "string list" where
  "forbidden_key_tokens = [''sol_sql'', ''test_case'', ''gold'', ''evaluator'']"

definition forbidden_key :: "string \<Rightarrow> bool" where
  "forbidden_key k = list_ex (\<lambda>t. occurs t (lower k)) forbidden_key_tokens"

primrec forbidden :: "jval \<Rightarrow> bool" where
  "forbidden VNull = False"
| "forbidden (VBool b) = False"
| "forbidden (VInt i) = False"
| "forbidden (VFloat s) = False"
| "forbidden (VStr s) = False"
| "forbidden (VList vs) = list_ex id (map forbidden vs)"
| "forbidden (VObj kvs) = list_ex (\<lambda>(k, b). forbidden_key k \<or> b) (map (map_prod id forbidden) kvs)"

type_synonym event = "(string \<times> jval) list"

definition required_keys :: "string list" where
  "required_keys = [''run_scope_digest'', ''attempt_id'', ''phase'', ''sequence'', ''event_type'', ''payload'']"

definition sequence_of :: "event \<Rightarrow> int option" where
  "sequence_of e = (case map_of e ''sequence'' of Some (VInt n) \<Rightarrow> Some n | _ \<Rightarrow> None)"

definition is_object :: "jval option \<Rightarrow> bool" where
  "is_object v = (case v of Some (VObj kvs) \<Rightarrow> True | _ \<Rightarrow> False)"

definition parse_event :: "(string \<Rightarrow> jval option) \<Rightarrow> string \<Rightarrow> spool_error + event" where
  "parse_event loads line = (case loads line of
       None \<Rightarrow> Inl (SpoolError ''spool_line_not_json'')
     | Some (VObj e) \<Rightarrow>
         if \<not> list_all (\<lambda>k. map_of e k \<noteq> None) required_keys then Inl (SpoolError ''spool_event_schema_invalid'')
         else if sequence_of e = None then Inl (SpoolError ''spool_event_schema_invalid'')
         else if \<not> is_object (map_of e ''payload'') then Inl (SpoolError ''spool_event_schema_invalid'')
         else if forbidden (VObj e) then Inl (SpoolError ''forbidden_payload_key'')
         else Inr e
     | Some _ \<Rightarrow> Inl (SpoolError ''spool_line_not_object''))"

subsection \<open>Lines\<close>

text \<open>\<open>str.splitlines()\<close> on code points below 256, and the whitespace of \<open>str.strip()\<close>.\<close>

definition line_break :: "char \<Rightarrow> bool" where
  "line_break c \<longleftrightarrow> c \<in> set [CHR 0x0A, CHR 0x0B, CHR 0x0C, CHR 0x0D, CHR 0x1C, CHR 0x1D, CHR 0x1E, CHR 0x85]"

fun split_lines :: "string \<Rightarrow> string \<Rightarrow> string list" where
  "split_lines acc [] = (if acc = [] then [] else [acc])"
| "split_lines acc (c # cs) =
     (if c = CHR 0x0D \<and> take 1 cs = [CHR 0x0A] then acc # split_lines [] (tl cs)
      else if line_break c then acc # split_lines [] cs
      else split_lines (acc @ [c]) cs)"

definition white :: "char \<Rightarrow> bool" where
  "white c \<longleftrightarrow> line_break c \<or> c \<in> set [CHR 0x09, CHR 0x1F, CHR 0x20, CHR 0xA0]"

definition blank :: "string \<Rightarrow> bool" where
  "blank s = list_all white s"

definition text_lines :: "string \<Rightarrow> string list" where
  "text_lines s = filter (\<lambda>l. \<not> blank l) (split_lines [] s)"

subsection \<open>The importer\<close>

definition str_of :: "(jval \<Rightarrow> string) \<Rightarrow> jval \<Rightarrow> string" where
  "str_of show v = (case v of VNull \<Rightarrow> ''None'' | VBool b \<Rightarrow> if b then ''True'' else ''False'' | VInt i \<Rightarrow> show_int i
     | VFloat s \<Rightarrow> s | VStr s \<Rightarrow> s | _ \<Rightarrow> show v)"

record spool_receipt =
  sr_attempt_id :: uuid
  sr_event_count :: nat
  sr_spool_sha256 :: string

definition phase_of :: "(jval \<Rightarrow> string) \<Rightarrow> event \<Rightarrow> string" where
  "phase_of show e = (case map_of e ''phase'' of Some v \<Rightarrow> str_of show v | None \<Rightarrow> [])"

text \<open>One round of the loop over the lines, given the last sequence number of each phase.\<close>

definition check_event ::
    "(jval \<Rightarrow> string) \<Rightarrow> string \<Rightarrow> uuid \<Rightarrow> (string \<rightharpoonup> int) \<Rightarrow> event \<Rightarrow> spool_error + (string \<rightharpoonup> int)" where
  "check_event show scope attempt seqs e =
     (if map_of e ''run_scope_digest'' \<noteq> Some (VStr scope) then Inl (SpoolError ''spool_scope_mismatch'')
      else if map_of e ''attempt_id'' \<noteq> Some (VStr (uuid_str attempt)) then Inl (SpoolError ''spool_attempt_mismatch'')
      else let phase = phase_of show e; n = the (sequence_of e) in
        case seqs phase of
          Some m \<Rightarrow> if n \<le> m then Inl (SpoolError ''spool_sequence_regression'') else Inr (seqs(phase \<mapsto> n))
        | None \<Rightarrow> Inr (seqs(phase \<mapsto> n)))"

fun check_lines ::
    "(string \<Rightarrow> jval option) \<Rightarrow> (jval \<Rightarrow> string) \<Rightarrow> string \<Rightarrow> uuid \<Rightarrow> (string \<rightharpoonup> int) \<Rightarrow> string list \<Rightarrow> spool_error + nat" where
  "check_lines loads show scope attempt seqs [] = Inr 0"
| "check_lines loads show scope attempt seqs (l # ls) =
     rbind (parse_event loads l) (\<lambda>e.
     rbind (check_event show scope attempt seqs e) (\<lambda>seqs'.
     rbind (check_lines loads show scope attempt seqs' ls) (\<lambda>n. Inr (n + 1))))"

text \<open>
  The file system of an import: the spool file and the archive. On success the file moves to the
  archive under the name of the attempt, read-only; a failed import leaves both as they were.
\<close>

record spool_files =
  sf_spool :: "bytes option"
  sf_archive :: "uuid \<rightharpoonup> bytes"

definition validate_and_import ::
    "(bytes \<Rightarrow> string) \<Rightarrow> (bytes \<Rightarrow> string option) \<Rightarrow> (string \<Rightarrow> jval option) \<Rightarrow> (jval \<Rightarrow> string) \<Rightarrow> nat
       \<Rightarrow> string \<Rightarrow> uuid \<Rightarrow> spool_files \<Rightarrow> (spool_error + spool_receipt) \<times> spool_files" where
  "validate_and_import sha decode loads show max_bytes scope attempt fs = (case sf_spool fs of
       None \<Rightarrow> (Inl (SpoolError ''spool_file_missing''), fs)
     | Some raw \<Rightarrow>
         if max_bytes < length raw then (Inl (SpoolError ''spool_size_cap_exceeded''), fs)
         else (case decode raw of
             None \<Rightarrow> (Inl Undecodable, fs)
           | Some s \<Rightarrow> (case check_lines loads show scope attempt Map.empty (text_lines s) of
               Inl e \<Rightarrow> (Inl e, fs)
             | Inr n \<Rightarrow> (Inr \<lparr>sr_attempt_id = attempt, sr_event_count = n, sr_spool_sha256 = sha raw\<rparr>,
                 fs\<lparr>sf_spool := None, sf_archive := (sf_archive fs)(attempt \<mapsto> raw)\<rparr>))))"

subsection \<open>Forbidden keys\<close>

primrec keys_within :: "jval \<Rightarrow> string list" where
  "keys_within VNull = []"
| "keys_within (VBool b) = []"
| "keys_within (VInt i) = []"
| "keys_within (VFloat s) = []"
| "keys_within (VStr s) = []"
| "keys_within (VList vs) = concat (map keys_within vs)"
| "keys_within (VObj kvs) = concat (map (\<lambda>(k, ks). k # ks) (map (map_prod id keys_within) kvs))"

lemma forbidden_object: "forbidden (VObj kvs) \<longleftrightarrow> (\<exists>(k, w) \<in> set kvs. forbidden_key k \<or> forbidden w)"
  by (induction kvs) auto

lemma keys_object: "k \<in> set (keys_within (VObj kvs)) \<longleftrightarrow> (\<exists>(j, w) \<in> set kvs. k = j \<or> k \<in> set (keys_within w))"
  by (induction kvs) auto

lemma forbidden_iff: "forbidden v \<longleftrightarrow> (\<exists>k \<in> set (keys_within v). forbidden_key k)"
proof (induction v)
  case (VList vs)
  then show ?case by (auto simp: list_ex_iff)
next
  case (VObj kvs)
  then have "forbidden w \<longleftrightarrow> (\<exists>k \<in> set (keys_within w). forbidden_key k)" if "(j, w) \<in> set kvs" for j w
    using that by force
  then show ?case unfolding forbidden_object Bex_def keys_object by blast
qed simp_all

lemma take_is_prefix: "take (length t) s = t \<longleftrightarrow> (\<exists>b. s = t @ b)"
  by (metis append_eq_conv_conj)

lemma occurs_iff: "occurs t s \<longleftrightarrow> (\<exists>a b. s = a @ t @ b)"
proof (induction s)
  case (Cons c cs)
  have "occurs t (c # cs) \<longleftrightarrow> (\<exists>b. c # cs = t @ b) \<or> (\<exists>a b. cs = a @ t @ b)"
    unfolding occurs.simps Cons.IH take_is_prefix by (rule refl)
  also have "\<dots> \<longleftrightarrow> (\<exists>a b. c # cs = a @ t @ b)" (is "?l \<longleftrightarrow> ?r")
  proof
    assume ?l
    then show ?r by (metis append_Cons append_Nil)
  next
    assume ?r
    then obtain a b where "c # cs = a @ t @ b" by blast
    then show ?l by (cases a) auto
  qed
  finally show ?case .
qed auto

subsection \<open>What a successful import says\<close>

definition phase_sequence :: "(jval \<Rightarrow> string) \<Rightarrow> string \<Rightarrow> event list \<Rightarrow> int list" where
  "phase_sequence show p es = map (\<lambda>e. the (sequence_of e)) (filter (\<lambda>e. phase_of show e = p) es)"

definition belongs :: "string \<Rightarrow> uuid \<Rightarrow> event \<Rightarrow> bool" where
  "belongs scope attempt e \<longleftrightarrow> map_of e ''run_scope_digest'' = Some (VStr scope)
     \<and> map_of e ''attempt_id'' = Some (VStr (uuid_str attempt))"

definition well_formed :: "event \<Rightarrow> bool" where
  "well_formed e \<longleftrightarrow> list_all (\<lambda>k. map_of e k \<noteq> None) required_keys \<and> sequence_of e \<noteq> None
     \<and> is_object (map_of e ''payload'') \<and> \<not> forbidden (VObj e)"

lemma phase_sequence_simps [simp]:
  "phase_sequence show p [] = []"
  "phase_sequence show p (e # es) =
     (if phase_of show e = p then the (sequence_of e) # phase_sequence show p es else phase_sequence show p es)"
  by (simp_all add: phase_sequence_def)

lemma parse_event_Inr: "parse_event loads l = Inr e \<longleftrightarrow> loads l = Some (VObj e) \<and> well_formed e"
  by (auto simp: parse_event_def well_formed_def split: option.splits jval.splits)

lemma check_event_Inr:
  "check_event show scope attempt seqs e = Inr seqs' \<longleftrightarrow>
     belongs scope attempt e \<and> seqs' = seqs(phase_of show e \<mapsto> the (sequence_of e))
     \<and> (\<forall>m. seqs (phase_of show e) = Some m \<longrightarrow> m < the (sequence_of e))"
  by (auto simp: check_event_def belongs_def Let_def split: option.splits)

lemma check_lines_Inr:
  "check_lines loads show scope attempt seqs ls = Inr n \<longleftrightarrow>
     (\<exists>es. n = length es \<and> map loads ls = map (Some \<circ> VObj) es \<and> list_all well_formed es \<and> list_all (belongs scope attempt) es
       \<and> (\<forall>p. sorted_wrt (<) (phase_sequence show p es)
            \<and> (\<forall>m. seqs p = Some m \<longrightarrow> (\<forall>x \<in> set (phase_sequence show p es). m < x))))"
proof (induction ls arbitrary: seqs n)
  case (Cons l ls)
  let ?ok = "\<lambda>sq es. \<forall>p. sorted_wrt (<) (phase_sequence show p es)
      \<and> (\<forall>m. sq p = Some m \<longrightarrow> (\<forall>x \<in> set (phase_sequence show p es). m < x))"
  have step: "?ok seqs (e # es) \<longleftrightarrow> ?ok (seqs(phase_of show e \<mapsto> the (sequence_of e))) es
      \<and> (\<forall>m. seqs (phase_of show e) = Some m \<longrightarrow> m < the (sequence_of e))" (is "?l \<longleftrightarrow> ?r") for e es
  proof
    assume l: ?l
    from spec [OF l, of "phase_of show e"] show ?r using l by (auto split: if_splits)
  next
    assume r: ?r
    show ?l
    proof
      fix p
      from r have "sorted_wrt (<) (phase_sequence show p es)"
        "\<forall>m. (seqs(phase_of show e \<mapsto> the (sequence_of e))) p = Some m \<longrightarrow> (\<forall>x \<in> set (phase_sequence show p es). m < x)"
        "\<forall>m. seqs (phase_of show e) = Some m \<longrightarrow> m < the (sequence_of e)" by blast+
      then show "sorted_wrt (<) (phase_sequence show p (e # es))
        \<and> (\<forall>m. seqs p = Some m \<longrightarrow> (\<forall>x \<in> set (phase_sequence show p (e # es)). m < x))"
        by (cases "phase_of show e = p") (auto intro: order.strict_trans)
    qed
  qed
  show ?case
  proof
    assume "check_lines loads show scope attempt seqs (l # ls) = Inr n"
    then obtain e n' where e: "loads l = Some (VObj e)" "well_formed e" "belongs scope attempt e"
      "\<forall>m. seqs (phase_of show e) = Some m \<longrightarrow> m < the (sequence_of e)"
      "check_lines loads show scope attempt (seqs(phase_of show e \<mapsto> the (sequence_of e))) ls = Inr n'" "n = n' + 1"
      by (auto simp: rbind_Inr_iff parse_event_Inr check_event_Inr)
    from e(5)[unfolded Cons.IH] obtain es where es: "n' = length es" "map loads ls = map (Some \<circ> VObj) es"
      "list_all well_formed es" "list_all (belongs scope attempt) es" "?ok (seqs(phase_of show e \<mapsto> the (sequence_of e))) es"
      by blast
    have "?ok seqs (e # es)" using step [of e es] es(5) e(4) by blast
    then show "\<exists>es. n = length es \<and> map loads (l # ls) = map (Some \<circ> VObj) es \<and> list_all well_formed es
        \<and> list_all (belongs scope attempt) es \<and> ?ok seqs es"
      using e es by (intro exI [of _ "e # es"]) simp
  next
    assume "\<exists>es. n = length es \<and> map loads (l # ls) = map (Some \<circ> VObj) es \<and> list_all well_formed es
        \<and> list_all (belongs scope attempt) es \<and> ?ok seqs es"
    then obtain e es where es: "n = length es + 1" "loads l = Some (VObj e)" "map loads ls = map (Some \<circ> VObj) es"
      "well_formed e" "list_all well_formed es" "belongs scope attempt e" "list_all (belongs scope attempt) es" "?ok seqs (e # es)"
      by (auto simp: map_eq_Cons_conv Cons_eq_map_conv)
    have k: "?ok (seqs(phase_of show e \<mapsto> the (sequence_of e))) es"
      "\<forall>m. seqs (phase_of show e) = Some m \<longrightarrow> m < the (sequence_of e)"
      using step [of e es] es(8) by blast+
    have "check_lines loads show scope attempt (seqs(phase_of show e \<mapsto> the (sequence_of e))) ls = Inr (length es)"
      unfolding Cons.IH using es(3,5,7) k(1) by blast
    moreover have "parse_event loads l = Inr e" using es(2,4) by (simp add: parse_event_Inr)
    moreover have "check_event show scope attempt seqs e = Inr (seqs(phase_of show e \<mapsto> the (sequence_of e)))"
      using es(6) k(2) by (simp add: check_event_Inr)
    ultimately show "check_lines loads show scope attempt seqs (l # ls) = Inr n" using es(1) by simp
  qed
qed auto
subsection \<open>What the writer writes\<close>

primrec strings_within :: "jval \<Rightarrow> string list" where
  "strings_within VNull = []"
| "strings_within (VBool b) = []"
| "strings_within (VInt i) = []"
| "strings_within (VFloat s) = [s]"
| "strings_within (VStr s) = [s]"
| "strings_within (VList vs) = concat (map strings_within vs)"
| "strings_within (VObj kvs) = concat (map (\<lambda>(k, ks). k # ks) (map (map_prod id strings_within) kvs))"

text \<open>No string of the value holds U+0085, and the text of a float no line break at all.\<close>

definition no_nel :: "string \<Rightarrow> bool" where
  "no_nel s \<longleftrightarrow> CHR 0x85 \<notin> set s"

primrec one_line :: "jval \<Rightarrow> bool" where
  "one_line VNull = True"
| "one_line (VBool b) = True"
| "one_line (VInt i) = True"
| "one_line (VFloat s) = list_all (\<lambda>c. \<not> line_break c) s"
| "one_line (VStr s) = no_nel s"
| "one_line (VList vs) = list_all id (map one_line vs)"
| "one_line (VObj kvs) = list_all (\<lambda>(k, b). no_nel k \<and> b) (map (map_prod id one_line) kvs)"

abbreviation flat :: "string \<Rightarrow> bool" where "flat s \<equiv> list_all (\<lambda>c. \<not> line_break c) s"

lemma digit_flat: "is_digit c \<Longrightarrow> \<not> line_break c"
  by (auto simp: is_digit_def line_break_def less_eq_char_def)

lemma show_int_flat: "flat (show_int i)"
  using show_nat_digits [of i] show_nat_digits [of "- i"] digit_flat
  by (auto simp: show_int_def list_all_iff line_break_def)

lemma hex_char_flat: "d < 16 \<Longrightarrow> \<not> line_break (hex_char d)"
proof -
  assume "d < 16"
  then have "d \<in> {0..<16}" by simp
  then have "d \<in> set [0..<16]" by simp
  moreover have "list_all (\<lambda>d. \<not> line_break (hex_char d)) [0..<16]" by code_simp
  ultimately show ?thesis by (auto simp: list_all_iff)
qed

lemma esc_flat: "c \<noteq> CHR 0x85 \<Longrightarrow> flat (esc c)"
  by (auto simp: esc_def Let_def line_break_def)
   (use hex_char_flat in \<open>auto simp: line_break_def less_mult_imp_div_less\<close>)

lemma quote_flat: "no_nel s \<Longrightarrow> flat (quote s)"
proof -
  assume "no_nel s"
  then have "\<forall>c \<in> set s. flat (esc c)" using esc_flat unfolding no_nel_def by metis
  then have "flat (concat (map esc s))" by (induction s) simp_all
  then show ?thesis by (simp add: quote_def line_break_def)
qed

lemma sep_by_flat: "flat s \<Longrightarrow> list_all flat xs \<Longrightarrow> flat (sep_by s xs)"
  by (induction s xs rule: sep_by.induct) auto

lemma const_flat: "flat ''null''" "flat ''true''" "flat ''false''" "flat ''NaN''" "flat ''Infinity''" "flat ''-Infinity''"
  "flat '', ''" "flat '': ''" "flat ''[''" "flat '']''" "flat ''{''" "flat ''}''"
  by code_simp+

lemma line_text_flat: "one_line v \<Longrightarrow> flat (line_text v)"
proof (induction v)
  case (VList vs)
  have "list_all flat (map line_text vs)" using VList by (auto simp: list_all_iff)
  then show ?case using sep_by_flat [of "'', ''" "map line_text vs"] const_flat by simp
next
  case (VObj kvs)
  have "flat (quote k) \<and> flat (line_text w)" if "(k, w) \<in> set kvs" for k w
  proof
    have "no_nel k" using VObj.prems that by (auto simp: list_all_iff)
    then show "flat (quote k)" by (rule quote_flat)
    have "one_line w" using VObj.prems that by (auto simp: list_all_iff)
    then show "flat (line_text w)" using VObj.IH [OF that] by simp
  qed
  then have "list_all flat (map (\<lambda>(k, t). quote k @ '': '' @ t) (map (map_prod id line_text) kvs))"
    using const_flat by (auto simp: list_all_iff)
  then show ?case using sep_by_flat [of "'', ''"] const_flat by simp
qed (use const_flat show_int_flat quote_flat in \<open>auto simp: float_text_def\<close>)

lemma one_line_sorted: "one_line v \<Longrightarrow> one_line (sort_keys v)"
proof (induction v)
  case (VObj kvs)
  have "no_nel k \<and> one_line (sort_keys w)" if "(k, w) \<in> set kvs" for k w
    using VObj.IH [OF that] VObj.prems that by (auto simp: list_all_iff)
  then show ?case by (auto simp: list_all_iff)
qed (auto simp: list_all_iff)

subsection \<open>Lines come back\<close>

lemma split_lines_flat:
  "flat l \<Longrightarrow> split_lines acc (l @ CHR 0x0A # rest) = (acc @ l) # split_lines [] rest"
proof (induction l arbitrary: acc)
  case (Cons c l)
  have "c \<noteq> CHR 0x0D" "\<not> line_break c" using Cons.prems by (auto simp: line_break_def)
  then show ?case using Cons by simp
qed (simp add: line_break_def)

lemma text_lines_spool:
  "list_all (\<lambda>v. one_line v \<and> (\<exists>e. v = VObj e)) vs \<Longrightarrow>
     text_lines (concat (map line_of vs)) = map (\<lambda>v. line_text (sort_keys v)) vs"
proof (induction vs)
  case (Cons v vs)
  have f: "flat (line_text (sort_keys v))" using Cons.prems line_text_flat one_line_sorted by simp
  obtain e where "v = VObj e" using Cons.prems by auto
  then have "\<not> blank (line_text (sort_keys v))" by (simp add: blank_def white_def line_break_def)
  then show ?case using Cons split_lines_flat [OF f, of "[]"] by (simp add: text_lines_def line_of_def)
qed (simp add: text_lines_def)
subsection \<open>From the writer to the archive\<close>

fun spool_all :: "nat \<Rightarrow> jval list \<Rightarrow> bytes \<Rightarrow> spool_error + bytes" where
  "spool_all max_bytes [] raw = Inr raw"
| "spool_all max_bytes (e # es) raw = (case spool_append max_bytes e raw of
       (Inl x, _) \<Rightarrow> Inl x
     | (Inr _, raw') \<Rightarrow> spool_all max_bytes es raw')"

lemma utf8_append [simp]: "utf8 (a @ b) = utf8 a @ utf8 b"
  by (simp add: utf8_def)

lemma spool_all_fits:
  "length raw + length (utf8 (concat (map line_of vs))) \<le> max_bytes \<Longrightarrow>
     spool_all max_bytes vs raw = Inr (raw @ utf8 (concat (map line_of vs)))"
proof (induction vs arbitrary: raw)
  case (Cons v vs)
  then have "length (raw @ utf8 (line_of v)) + length (utf8 (concat (map line_of vs))) \<le> max_bytes" by simp
  from Cons.IH [OF this] Cons.prems show ?case by (simp add: spool_append_def Let_def)
qed (simp add: utf8_def)

definition sorted_event :: "event \<Rightarrow> event" where
  "sorted_event e = sort_key fst (map (map_prod id sort_keys) e)"

lemma sort_keys_event: "sort_keys (VObj e) = VObj (sorted_event e)"
  by (simp add: sorted_event_def)

lemma map_of_map_prod: "map_of (map (map_prod id f) e) k = map_option f (map_of e k)"
  by (induction e) auto

lemma map_of_sorted:
  assumes "distinct (map fst e)"
  shows "map_of (sorted_event e) k = map_option sort_keys (map_of e k)"
proof -
  have "distinct (map fst (map (map_prod id sort_keys) e))" using assms by (simp add: comp_def)
  moreover have "mset (map fst (sorted_event e)) = mset (map fst (map (map_prod id sort_keys) e))"
    by (simp only: sorted_event_def mset_map mset_sort)
  ultimately have "distinct (map fst (sorted_event e))" using mset_eq_imp_distinct_iff by blast
  then have "map_of (sorted_event e) = map_of (map (map_prod id sort_keys) e)"
    using assms by (subst map_of_inject_set) (simp_all add: sorted_event_def comp_def)
  then show ?thesis by (simp only: map_of_map_prod)
qed

lemma forbidden_sorted: "forbidden (sort_keys v) = forbidden v"
proof (induction v)
  case (VObj kvs)
  have IH: "forbidden (sort_keys (snd x)) = forbidden (snd x)" if "x \<in> set kvs" for x
    using VObj.IH [OF that] by (cases x) simp
  have st: "set (sorted_event kvs) = map_prod id sort_keys ` set kvs" by (simp add: sorted_event_def)
  show ?case unfolding sort_keys_event forbidden_object st using IH by (auto simp: split_def)
qed (auto simp: list_ex_iff)

text \<open>An event as the agent writes it: a dict of the schema, for this attempt, its phase a string.\<close>

definition agent_event :: "string \<Rightarrow> uuid \<Rightarrow> event \<Rightarrow> bool" where
  "agent_event scope attempt e \<longleftrightarrow>
     distinct (map fst e) \<and> belongs scope attempt e \<and> well_formed e
     \<and> (\<exists>p. map_of e ''phase'' = Some (VStr p))"

lemma agent_event_sorted:
  assumes "agent_event scope attempt e"
  shows "well_formed (sorted_event e)" "belongs scope attempt (sorted_event e)"
    "phase_of show (sorted_event e) = phase_of show e" "sequence_of (sorted_event e) = sequence_of e"
proof -
  have m: "map_of (sorted_event e) k = map_option sort_keys (map_of e k)" for k
    using assms map_of_sorted by (simp add: agent_event_def)
  show s: "sequence_of (sorted_event e) = sequence_of e"
    by (auto simp: sequence_of_def m split: option.split jval.split)
  show "phase_of show (sorted_event e) = phase_of show e"
    using assms by (auto simp: phase_of_def m agent_event_def str_of_def)
  show "belongs scope attempt (sorted_event e)" using assms by (simp add: agent_event_def belongs_def m)
  have "is_object (map_of (sorted_event e) ''payload'') = is_object (map_of e ''payload'')"
    by (auto simp: is_object_def m split: option.split jval.split)
  moreover have "forbidden (VObj (sorted_event e)) = forbidden (VObj e)"
    using forbidden_sorted [of "VObj e"] by (simp add: sort_keys_event del: forbidden.simps sort_keys.simps)
  ultimately show "well_formed (sorted_event e)"
    using assms s by (auto simp: well_formed_def agent_event_def m list_all_iff simp del: forbidden.simps)
qed

text \<open>
  C26: What the writer spools the importer archives. Events of one attempt whose sequence numbers grow
  within each phase, without forbidden keys and without U+0085 in a string, that fit under the size
  cap: every append succeeds, and the import counts them all, digests the file and moves it, unchanged,
  to the archive of the attempt. json.loads must read back what json.dumps wrote.
\<close>

theorem spooled_events_import:
  assumes "list_all (agent_event scope attempt) es" "list_all (\<lambda>e. one_line (VObj e)) es"
    and "\<forall>p. sorted_wrt (<) (phase_sequence show p es)"
    and "length (utf8 (concat (map (line_of \<circ> VObj) es))) \<le> max_bytes"
    and "decode (utf8 (concat (map (line_of \<circ> VObj) es))) = Some (concat (map (line_of \<circ> VObj) es))"
    and "\<And>e. e \<in> set es \<Longrightarrow> loads (line_text (sort_keys (VObj e))) = Some (sort_keys (VObj e))"
  shows "\<exists>raw. spool_all max_bytes (map VObj es) [] = Inr raw
    \<and> validate_and_import sha decode loads show max_bytes scope attempt \<lparr>sf_spool = Some raw, sf_archive = arch\<rparr>
      = (Inr \<lparr>sr_attempt_id = attempt, sr_event_count = length es, sr_spool_sha256 = sha raw\<rparr>,
         \<lparr>sf_spool = None, sf_archive = arch(attempt \<mapsto> raw)\<rparr>)"
proof -
  define body where "body = concat (map line_of (map VObj es))"
  have body: "concat (map (line_of \<circ> VObj) es) = body" by (simp add: body_def)
  have w: "spool_all max_bytes (map VObj es) [] = Inr (utf8 body)"
    using spool_all_fits [of "[]" "map VObj es" max_bytes] assms(4) by (simp add: body_def comp_def)
  have l: "text_lines body = map (\<lambda>v. line_text (sort_keys v)) (map VObj es)"
    using text_lines_spool [of "map VObj es"] assms(2) by (simp add: body_def list_all_iff del: one_line.simps)
  have ps: "phase_sequence show p (map sorted_event xs) = phase_sequence show p xs"
    if "list_all (agent_event scope attempt) xs" for p xs
    using that by (induction xs) (simp_all add: agent_event_sorted [of scope attempt])
  have "check_lines loads show scope attempt Map.empty (text_lines body) = Inr (length es)"
    unfolding check_lines_Inr
  proof (intro exI [of _ "map sorted_event es"] conjI)
    show "map loads (text_lines body) = map (Some \<circ> VObj) (map sorted_event es)"
      using assms(6) by (simp add: l sort_keys_event del: sort_keys.simps line_text.simps)
    show "list_all well_formed (map sorted_event es)" "list_all (belongs scope attempt) (map sorted_event es)"
      using assms(1) by (simp_all add: list_all_iff agent_event_sorted [of scope attempt])
    show "\<forall>p. sorted_wrt (<) (phase_sequence show p (map sorted_event es)) \<and>
        (\<forall>m. Map.empty p = Some m \<longrightarrow> (\<forall>x \<in> set (phase_sequence show p (map sorted_event es)). m < x))"
      using assms(3) by (simp add: ps [OF assms(1)])
  qed simp
  then have "validate_and_import sha decode loads show max_bytes scope attempt \<lparr>sf_spool = Some (utf8 body), sf_archive = arch\<rparr>
      = (Inr \<lparr>sr_attempt_id = attempt, sr_event_count = length es, sr_spool_sha256 = sha (utf8 body)\<rparr>,
         \<lparr>sf_spool = None, sf_archive = arch(attempt \<mapsto> utf8 body)\<rparr>)"
    using assms(4,5) by (simp add: validate_and_import_def body)
  then show ?thesis using w by blast
qed

text \<open>
  A next-line character in a model's text loses the spool. json.dumps leaves U+0085 as it is, but
  the importer splits lines at it: the line of such an event is cut inside the string, json.loads
  refuses the first part, and the import of the file fails although every append succeeded.
\<close>

theorem next_line_breaks_spool:
  assumes "CHR 0x85 \<in> set (line_text (sort_keys (VObj e)))" "length (utf8 (line_of (VObj e))) \<le> max_bytes"
    and "decode (utf8 (line_of (VObj e))) = Some (line_of (VObj e))"
    and "loads (takeWhile (\<lambda>c. \<not> line_break c) (line_text (sort_keys (VObj e)))) = None"
  shows "spool_all max_bytes [VObj e] [] = Inr (utf8 (line_of (VObj e)))
    \<and> validate_and_import sha decode loads show max_bytes scope attempt
        \<lparr>sf_spool = Some (utf8 (line_of (VObj e))), sf_archive = arch\<rparr>
      = (Inl (SpoolError ''spool_line_not_json''),
         \<lparr>sf_spool = Some (utf8 (line_of (VObj e))), sf_archive = arch\<rparr>)"
proof
  let ?l = "line_text (sort_keys (VObj e))"
  define a where "a = takeWhile (\<lambda>c. \<not> line_break c) ?l"
  define b where "b = dropWhile (\<lambda>c. \<not> line_break c) ?l"
  have ab: "?l = a @ b" by (simp add: a_def b_def)
  have "b \<noteq> []" using assms(1) by (auto simp: b_def dropWhile_eq_Nil_conv line_break_def)
  then obtain c r where b: "b = c # r" and c: "line_break c"
    using hd_dropWhile [of "\<lambda>c. \<not> line_break c" ?l] by (cases b) (auto simp: b_def)
  have af: "flat a" by (auto simp: a_def list_all_iff dest: set_takeWhileD)
  have "a \<noteq> [] \<and> hd a = CHR ''{''" by (simp add: a_def line_break_def)
  then have nb: "\<not> blank a" by (cases a) (auto simp: blank_def white_def line_break_def)
  have split: "\<exists>ls. split_lines acc (a @ c # s) = (acc @ a) # ls" for acc s
    using af
  proof (induction a arbitrary: acc)
    case (Cons d a)
    then have "d \<noteq> CHR 0x0D" "\<not> line_break d" by (auto simp: line_break_def)
    then show ?case using Cons.IH [of "acc @ [d]"] Cons.prems by simp
  qed (use c in auto)
  have "line_of (VObj e) = a @ c # (r @ [CHR 0x0A])" by (simp add: line_of_def ab b del: sort_keys.simps line_text.simps)
  then obtain ls where "split_lines [] (line_of (VObj e)) = a # ls" using split [of "[]" "r @ [CHR 0x0A]"] by auto
  then have "text_lines (line_of (VObj e)) = a # filter (\<lambda>l. \<not> blank l) ls" using nb by (simp add: text_lines_def)
  moreover have "parse_event loads a = Inl (SpoolError ''spool_line_not_json'')"
    using assms(4) by (simp add: parse_event_def a_def del: sort_keys.simps line_text.simps)
  ultimately show "validate_and_import sha decode loads show max_bytes scope attempt
        \<lparr>sf_spool = Some (utf8 (line_of (VObj e))), sf_archive = arch\<rparr>
      = (Inl (SpoolError ''spool_line_not_json''),
         \<lparr>sf_spool = Some (utf8 (line_of (VObj e))), sf_archive = arch\<rparr>)"
    using assms(2,3) by (simp add: validate_and_import_def)
  show "spool_all max_bytes [VObj e] [] = Inr (utf8 (line_of (VObj e)))"
    using spool_all_fits [of "[]" "[VObj e]" max_bytes] assms(2) by simp
qed

definition sample_spool_event :: "string \<Rightarrow> event" where
  "sample_spool_event t = [(''run_scope_digest'', VStr ''s''), (''attempt_id'', VStr (uuid_str 1)), (''phase'', VStr ''p''),
     (''sequence'', VInt 0), (''event_type'', VStr ''model_turn''), (''payload'', VObj [(''text'', VStr t)])]"

definition sample_spool_loads :: "string \<Rightarrow> jval option" where
  "sample_spool_loads s = (if s = line_text (sort_keys (VObj (sample_spool_event ''a'')))
     then Some (sort_keys (VObj (sample_spool_event ''a''))) else None)"

lemma sample_spool_agent: "agent_event ''s'' 1 (sample_spool_event ''a'')"
proof -
  have "distinct (map fst (sample_spool_event ''a''))" by code_simp
  moreover have "list_all (\<lambda>k. map_of (sample_spool_event ''a'') k \<noteq> None) required_keys"
    by (simp add: sample_spool_event_def required_keys_def)
  moreover have "\<not> forbidden (VObj (sample_spool_event ''a''))" by code_simp
  ultimately show ?thesis
    by (simp add: agent_event_def belongs_def well_formed_def sequence_of_def is_object_def del: forbidden.simps)
      (simp add: sample_spool_event_def)
qed

theorem spooled_events_import_witness:
  "\<exists>raw. spool_all 4096 [VObj (sample_spool_event ''a'')] [] = Inr raw
    \<and> validate_and_import (\<lambda>_. ''d'') (\<lambda>_. Some (line_of (VObj (sample_spool_event ''a'')))) sample_spool_loads (\<lambda>_. []) 4096
        ''s'' 1 \<lparr>sf_spool = Some raw, sf_archive = Map.empty\<rparr>
      = (Inr \<lparr>sr_attempt_id = 1, sr_event_count = 1, sr_spool_sha256 = ''d''\<rparr>,
         \<lparr>sf_spool = None, sf_archive = [1 \<mapsto> raw]\<rparr>)"
proof -
  let ?e = "sample_spool_event ''a''"
  have "one_line (VObj ?e)" by code_simp
  moreover have "length (utf8 (line_of (VObj ?e))) \<le> 4096" by code_simp
  moreover have "sample_spool_loads (line_text (sort_keys (VObj ?e))) = Some (sort_keys (VObj ?e))"
    by (simp add: sample_spool_loads_def)
  ultimately show ?thesis
    using spooled_events_import [of "''s''" 1 "[?e]" "\<lambda>_. []" 4096 "\<lambda>_. Some (line_of (VObj ?e))" sample_spool_loads "\<lambda>_. ''d''" Map.empty]
      sample_spool_agent by (simp del: one_line.simps sort_keys.simps line_text.simps)
qed

theorem next_line_breaks_spool_witness:
  "fst (validate_and_import (\<lambda>_. ''d'') (\<lambda>_. Some (line_of (VObj (sample_spool_event [CHR 0x85])))) (\<lambda>_. None) (\<lambda>_. []) 4096
     ''s'' 1 \<lparr>sf_spool = Some (utf8 (line_of (VObj (sample_spool_event [CHR 0x85])))), sf_archive = Map.empty\<rparr>)
   = Inl (SpoolError ''spool_line_not_json'')"
proof -
  let ?e = "sample_spool_event [CHR 0x85]"
  have "CHR 0x85 \<in> set (line_text (sort_keys (VObj ?e)))" by code_simp
  moreover have "length (utf8 (line_of (VObj ?e))) \<le> 4096" by code_simp
  ultimately show ?thesis
    using next_line_breaks_spool [of ?e 4096 "\<lambda>_. Some (line_of (VObj ?e))" "\<lambda>_. None" "\<lambda>_. ''d''" "\<lambda>_. []" "''s''" 1 Map.empty]
    by simp
qed

end
