(* ===== verification/Spool_Import.thy ===== *)
theory Spool_Import
  imports Spool Op_Backtest
begin

text \<open>
  The usage importer (\<open>src/commerce_agent/evaluation/spool_importer.py\<close>): aggregation of the model
  turns of one spool file, assignment of the sessions to task attempts by identity and time window,
  and the telemetry patch that is merged into the attempt. \<open>readers\<close> are UUID(s), Decimal(s) and
  datetime.fromisoformat; a file is its text.
\<close>

subsection \<open>Addition of decimals\<close>

definition dec_add :: "decimal \<Rightarrow> decimal \<Rightarrow> decimal option" where
  "dec_add a b = (case (a, b) of
       (DNaN, _) \<Rightarrow> Some DNaN
     | (_, DNaN) \<Rightarrow> Some DNaN
     | (DInf s, DInf t) \<Rightarrow> if s = t then Some (DInf s) else None
     | (DInf s, Dec _ _ _) \<Rightarrow> Some (DInf s)
     | (Dec _ _ _, DInf t) \<Rightarrow> Some (DInf t)
     | (Dec s c e, Dec t d f) \<Rightarrow>
         (let m = min e f; n = signed s c * 10 ^ nat (e - m) + signed t d * 10 ^ nat (f - m)
          in Some (dec_fix (if n = 0 then s \<and> t else n < 0) \<bar>n\<bar> m)))"

subsection \<open>Records\<close>

record token_sums =
  tk_prompt :: int
  tk_completion :: int
  tk_reasoning :: int
  tk_cache_hit :: int
  tk_cache_miss :: int
  tk_total :: int

definition usage_keys :: "string list" where
  "usage_keys = [''prompt_tokens'', ''completion_tokens'', ''reasoning_tokens'', ''cache_hit_tokens'',
     ''cache_miss_tokens'', ''total_tokens'']"

definition stamp_keys :: "string list" where
  "stamp_keys = [''task_id'', ''mode'', ''experiment_id'']"

record spool_usage_record =
  su_attempt_id :: uuid
  su_experiment_id :: string
  su_task_id :: string
  su_mode :: string
  su_turns :: nat
  su_tokens :: token_sums
  su_cost_usd :: decimal
  su_price_snapshot_id :: string
  su_price_band :: string
  su_first_recorded_at :: "instant option"
  su_last_recorded_at :: "instant option"

definition valid_spool_usage_record :: "spool_usage_record \<Rightarrow> bool" where
  "valid_spool_usage_record r \<longleftrightarrow>
     0 \<le> tk_prompt (su_tokens r) \<and> 0 \<le> tk_completion (su_tokens r) \<and> 0 \<le> tk_reasoning (su_tokens r)
     \<and> 0 \<le> tk_cache_hit (su_tokens r) \<and> 0 \<le> tk_cache_miss (su_tokens r) \<and> 0 \<le> tk_total (su_tokens r)
     \<and> dec_finite (su_cost_usd r) \<and> dec_le dec_zero (su_cost_usd r) \<and> len_ok 1 128 (su_price_snapshot_id r)"

record readers =
  rd_uuid :: "string \<Rightarrow> uuid option"
  rd_decimal :: "string \<Rightarrow> decimal option"
  rd_datetime :: "string \<Rightarrow> py_datetime option"
  rd_loads :: "string \<Rightarrow> jval option"
  rd_show :: "jval \<Rightarrow> string"

text \<open>A timestamp without an offset counts as UTC.\<close>

definition parse_timestamp :: "readers \<Rightarrow> jval \<Rightarrow> instant option" where
  "parse_timestamp R v = (case v of
       VStr s \<Rightarrow> if s = [] then None else map_option to_instant (rd_datetime R s)
     | _ \<Rightarrow> None)"

definition object_at :: "event \<Rightarrow> string \<Rightarrow> event option" where
  "object_at e k = (case map_of e k of Some (VObj kvs) \<Rightarrow> Some kvs | _ \<Rightarrow> None)"

text \<open>\<open>str(amount)\<close> of a string, an int or a float; other values are no amount.\<close>

definition amount_text :: "event \<Rightarrow> string option" where
  "amount_text cost = (case map_of cost ''amount'' of
       Some (VStr s) \<Rightarrow> Some s | Some (VInt n) \<Rightarrow> Some (show_int n) | Some (VFloat s) \<Rightarrow> Some s | _ \<Rightarrow> None)"

definition usable_turn :: "readers \<Rightarrow> event \<Rightarrow> bool" where
  "usable_turn R e \<longleftrightarrow>
     list_all (\<lambda>k. map_of e k \<noteq> None) stamp_keys \<and> map_of e ''recorded_at'' \<noteq> None
     \<and> (case object_at e ''payload'' of
          None \<Rightarrow> False
        | Some p \<Rightarrow> (case (object_at p ''usage'', object_at p ''cost'') of
              (Some u, Some c) \<Rightarrow> list_all (\<lambda>k. map_of u k \<noteq> None) usage_keys
                 \<and> (case amount_text c of None \<Rightarrow> False | Some s \<Rightarrow> rd_decimal R s \<noteq> None)
            | _ \<Rightarrow> False))"

subsection \<open>One file\<close>

record scan_state =
  sc_tokens :: token_sums
  sc_turns :: nat
  sc_cost :: decimal
  sc_meta :: "(string \<times> string) option"
  sc_first :: "instant option"
  sc_last :: "instant option"
  sc_session :: "(uuid \<times> string list) option"
  sc_sequence :: "int option"

definition zero_tokens :: token_sums where
  "zero_tokens = \<lparr>tk_prompt = 0, tk_completion = 0, tk_reasoning = 0, tk_cache_hit = 0, tk_cache_miss = 0, tk_total = 0\<rparr>"

definition scan_init :: scan_state where
  "scan_init = \<lparr>sc_tokens = zero_tokens, sc_turns = 0, sc_cost = dec_zero, sc_meta = None, sc_first = None,
     sc_last = None, sc_session = None, sc_sequence = None\<rparr>"

definition count_at :: "event \<Rightarrow> string \<Rightarrow> int option" where
  "count_at u k = (case map_of u k of Some (VInt n) \<Rightarrow> if n < 0 then None else Some n | _ \<Rightarrow> None)"

definition turn_tokens :: "event \<Rightarrow> token_sums option" where
  "turn_tokens u = (case map (count_at u) usage_keys of
       [Some p, Some c, Some r, Some h, Some m, Some t] \<Rightarrow>
         Some \<lparr>tk_prompt = p, tk_completion = c, tk_reasoning = r, tk_cache_hit = h, tk_cache_miss = m, tk_total = t\<rparr>
     | _ \<Rightarrow> None)"

definition add_tokens :: "token_sums \<Rightarrow> token_sums \<Rightarrow> token_sums" where
  "add_tokens a b = \<lparr>tk_prompt = tk_prompt a + tk_prompt b, tk_completion = tk_completion a + tk_completion b,
     tk_reasoning = tk_reasoning a + tk_reasoning b, tk_cache_hit = tk_cache_hit a + tk_cache_hit b,
     tk_cache_miss = tk_cache_miss a + tk_cache_miss b, tk_total = tk_total a + tk_total b\<rparr>"

definition price_meta :: "event \<Rightarrow> (string \<times> string) option" where
  "price_meta c = (case (map_of c ''price_snapshot_id'', map_of c ''price_band'') of
       (Some (VStr i), Some (VStr b)) \<Rightarrow> if i = [] \<or> b \<notin> {''peak'', ''off_peak''} then None else Some (i, b)
     | _ \<Rightarrow> None)"

definition turn_session :: "readers \<Rightarrow> event \<Rightarrow> (uuid \<times> string list) option" where
  "turn_session R e = (case map_of e ''attempt_id'' of
       Some (VStr s) \<Rightarrow> map_option (\<lambda>i. (i, map (\<lambda>k. str_of (rd_show R) (the (map_of e k))) stamp_keys)) (rd_uuid R s)
     | _ \<Rightarrow> None)"

definition agrees :: "'a option \<Rightarrow> 'a \<Rightarrow> bool" where
  "agrees old v = (case old of None \<Rightarrow> True | Some w \<Rightarrow> w = v)"

definition earliest :: "instant option \<Rightarrow> instant \<Rightarrow> instant option" where
  "earliest old t = (case old of None \<Rightarrow> Some t | Some s \<Rightarrow> if t < s then Some t else Some s)"

definition latest :: "instant option \<Rightarrow> instant \<Rightarrow> instant option" where
  "latest old t = (case old of None \<Rightarrow> Some t | Some s \<Rightarrow> if s < t then Some t else Some s)"

text \<open>One model turn; \<open>None\<close> poisons the file.\<close>

definition scan_turn :: "readers \<Rightarrow> scan_state \<Rightarrow> event \<Rightarrow> scan_state option" where
  "scan_turn R s e =
     Option.bind (turn_session R e) (\<lambda>session.
     if \<not> agrees (sc_session s) session then None else
     Option.bind (object_at e ''payload'') (\<lambda>p.
     Option.bind (object_at p ''usage'') (\<lambda>u.
     Option.bind (turn_tokens u) (\<lambda>tokens.
     Option.bind (object_at p ''cost'') (\<lambda>c.
     Option.bind (amount_text c) (\<lambda>a.
     Option.bind (rd_decimal R a) (\<lambda>d.
     Option.bind (dec_add (sc_cost s) d) (\<lambda>total.
     Option.bind (price_meta c) (\<lambda>meta.
     if \<not> agrees (sc_meta s) meta then None else
     Option.bind (Option.bind (map_of e ''recorded_at'') (parse_timestamp R)) (\<lambda>t.
       Some (s\<lparr>sc_session := Some session, sc_tokens := add_tokens (sc_tokens s) tokens, sc_cost := total,
         sc_meta := Some meta, sc_first := earliest (sc_first s) t, sc_last := latest (sc_last s) t,
         sc_turns := sc_turns s + 1\<rparr>)))))))))))"

datatype scan_error = MissingEventType | RecordInvalid | SpoolDirMissing

definition sequence_grows :: "int option \<Rightarrow> int \<Rightarrow> bool" where
  "sequence_grows old n = (case old of None \<Rightarrow> True | Some m \<Rightarrow> m < n)"

text \<open>One line. The raised KeyError of an event without \<open>event_type\<close> is an error, not a poisoned file.\<close>

definition scan_line :: "readers \<Rightarrow> scan_state \<Rightarrow> string \<Rightarrow> scan_error + scan_state option" where
  "scan_line R s line = (case rd_loads R line of
       Some (VObj e) \<Rightarrow>
         if forbidden (VObj e) then Inr None
         else (case sequence_of e of
             None \<Rightarrow> Inr None
           | Some n \<Rightarrow>
               if \<not> sequence_grows (sc_sequence s) n then Inr None
               else if \<not> usable_turn R e then Inr None
               else (case map_of e ''event_type'' of
                   None \<Rightarrow> Inl MissingEventType
                 | Some t \<Rightarrow>
                     if t \<noteq> VStr ''model_turn'' then Inr (Some (s\<lparr>sc_sequence := Some n\<rparr>))
                     else Inr (scan_turn R (s\<lparr>sc_sequence := Some n\<rparr>) e)))
     | _ \<Rightarrow> Inr None)"

fun scan_lines :: "readers \<Rightarrow> scan_state \<Rightarrow> string list \<Rightarrow> scan_error + scan_state option" where
  "scan_lines R s [] = Inr (Some s)"
| "scan_lines R s (l # ls) = (case scan_line R s l of
       Inl e \<Rightarrow> Inl e
     | Inr None \<Rightarrow> Inr None
     | Inr (Some s') \<Rightarrow> scan_lines R s' ls)"

definition scan_file :: "readers \<Rightarrow> string \<Rightarrow> scan_error + spool_usage_record option" where
  "scan_file R text1 = (case scan_lines R scan_init (text_lines text1) of
       Inl e \<Rightarrow> Inl e
     | Inr None \<Rightarrow> Inr None
     | Inr (Some s) \<Rightarrow> (case (sc_session s, sc_meta s) of
           (Some (i, [task, mode, experiment1]), Some (snapshot, band)) \<Rightarrow>
             let r = \<lparr>su_attempt_id = i, su_experiment_id = experiment1, su_task_id = task, su_mode = mode,
               su_turns = sc_turns s, su_tokens = sc_tokens s, su_cost_usd = sc_cost s,
               su_price_snapshot_id = snapshot, su_price_band = band, su_first_recorded_at = sc_first s,
               su_last_recorded_at = sc_last s\<rparr>
             in if valid_spool_usage_record r then Inr (Some r) else Inl RecordInvalid
         | _ \<Rightarrow> Inr None))"

record scan_report =
  sp_records :: "spool_usage_record list"
  sp_files_scanned :: nat
  sp_files_skipped :: nat

fun scan_files :: "readers \<Rightarrow> string list \<Rightarrow> scan_error + scan_report" where
  "scan_files R [] = Inr \<lparr>sp_records = [], sp_files_scanned = 0, sp_files_skipped = 0\<rparr>"
| "scan_files R (f # fs) = rbind (scan_file R f) (\<lambda>r. rbind (scan_files R fs) (\<lambda>p. Inr (case r of
       None \<Rightarrow> p\<lparr>sp_files_scanned := sp_files_scanned p + 1, sp_files_skipped := sp_files_skipped p + 1\<rparr>
     | Some x \<Rightarrow> p\<lparr>sp_records := x # sp_records p, sp_files_scanned := sp_files_scanned p + 1\<rparr>)))"

text \<open>The files of the directory by name; \<open>None\<close> is a path that is no directory.\<close>

definition scan_spool_dir :: "readers \<Rightarrow> (string \<times> string) list option \<Rightarrow> scan_error + scan_report" where
  "scan_spool_dir R dir = (case dir of
       None \<Rightarrow> Inl SpoolDirMissing
     | Some fs \<Rightarrow> scan_files R (map snd (sort_key fst fs)))"

subsection \<open>Assignment\<close>

record attempt_row =
  aw_attempt_id :: uuid
  aw_experiment_id :: string
  aw_task_id :: string
  aw_mode :: string
  aw_started_at :: instant
  aw_finished_at :: "instant option"

type_synonym group_key = "string \<times> string \<times> string"

definition record_group :: "spool_usage_record \<Rightarrow> group_key" where
  "record_group r = (su_experiment_id r, su_task_id r, su_mode r)"

definition row_group :: "attempt_row \<Rightarrow> group_key" where
  "row_group a = (aw_experiment_id a, aw_task_id a, aw_mode a)"

text \<open>A defaultdict of lists, keys in the order of their first insertion.\<close>

fun put_group :: "'k \<Rightarrow> 'a \<Rightarrow> ('k \<times> 'a list) list \<Rightarrow> ('k \<times> 'a list) list" where
  "put_group k x [] = [(k, [x])]"
| "put_group k x ((j, xs) # gs) = (if j = k then (j, xs @ [x]) # gs else (j, xs) # put_group k x gs)"

definition group_by :: "('a \<Rightarrow> 'k) \<Rightarrow> 'a list \<Rightarrow> ('k \<times> 'a list) list" where
  "group_by f xs = fold (\<lambda>x. put_group (f x) x) xs []"

definition in_window :: "spool_usage_record \<Rightarrow> attempt_row \<Rightarrow> int \<Rightarrow> bool" where
  "in_window r a grace = (case (case su_last_recorded_at r of None \<Rightarrow> su_first_recorded_at r | Some t \<Rightarrow> Some t) of
       None \<Rightarrow> True
     | Some t \<Rightarrow> aw_started_at a - grace \<le> t
         \<and> t \<le> (case aw_finished_at a of None \<Rightarrow> aw_started_at a | Some f \<Rightarrow> f) + grace)"

record spool_assignment =
  sa_assigned :: "(uuid \<times> spool_usage_record) list"
  sa_unassigned :: "spool_usage_record list"
  sa_ambiguous :: "spool_usage_record list"

fun put_assigned :: "uuid \<Rightarrow> spool_usage_record \<Rightarrow> (uuid \<times> spool_usage_record) list \<Rightarrow> (uuid \<times> spool_usage_record) list" where
  "put_assigned i r [] = [(i, r)]"
| "put_assigned i r ((j, q) # m) = (if j = i then (j, r) # m else (j, q) # put_assigned i r m)"

definition assign_record :: "int \<Rightarrow> attempt_row list \<Rightarrow> spool_usage_record \<Rightarrow> spool_assignment \<Rightarrow> spool_assignment" where
  "assign_record grace candidates r s =
     (case filter (\<lambda>a. map_of (sa_assigned s) (aw_attempt_id a) = None \<and> in_window r a grace) candidates of
        [] \<Rightarrow> s\<lparr>sa_unassigned := sa_unassigned s @ [r]\<rparr>
      | [a] \<Rightarrow> s\<lparr>sa_assigned := put_assigned (aw_attempt_id a) r (sa_assigned s)\<rparr>
      | _ \<Rightarrow> s\<lparr>sa_ambiguous := sa_ambiguous s @ [r]\<rparr>)"

definition assign_group ::
    "int \<Rightarrow> (group_key \<times> attempt_row list) list \<Rightarrow> group_key \<times> spool_usage_record list \<Rightarrow> spool_assignment \<Rightarrow> spool_assignment" where
  "assign_group grace rows kg s =
     (let candidates = (case map_of rows (fst kg) of None \<Rightarrow> [] | Some cs \<Rightarrow> cs) in
      case (snd kg, candidates) of
        ([r], [a]) \<Rightarrow> if in_window r a grace then s\<lparr>sa_assigned := put_assigned (aw_attempt_id a) r (sa_assigned s)\<rparr>
          else s\<lparr>sa_unassigned := sa_unassigned s @ [r]\<rparr>
      | (rs, []) \<Rightarrow> s\<lparr>sa_unassigned := sa_unassigned s @ rs\<rparr>
      | (rs, cs) \<Rightarrow> fold (assign_record grace cs) rs s)"

definition assign_attempts :: "spool_usage_record list \<Rightarrow> attempt_row list \<Rightarrow> int \<Rightarrow> spool_assignment" where
  "assign_attempts records rows grace =
     fold (assign_group grace (group_by row_group rows)) (group_by record_group records)
       \<lparr>sa_assigned = [], sa_unassigned = [], sa_ambiguous = []\<rparr>"

subsection \<open>The patch\<close>

definition telemetry_patch_of :: "(decimal \<Rightarrow> string) \<Rightarrow> spool_usage_record \<Rightarrow> telemetry_patch" where
  "telemetry_patch_of dec_str r =
     [(''agent_cost'', JObj [(''status'', JStr ''estimated''), (''price_snapshot_id'', JStr (su_price_snapshot_id r)),
        (''currency'', JStr ''USD''), (''amount'', JStr (dec_str (su_cost_usd r))), (''price_band'', JStr (su_price_band r))]),
      (''agent_usage'', JObj [(''status'', JStr ''reported''), (''prompt_tokens'', JInt (tk_prompt (su_tokens r))),
        (''completion_tokens'', JInt (tk_completion (su_tokens r))), (''reasoning_tokens'', JInt (tk_reasoning (su_tokens r))),
        (''cache_hit_tokens'', JInt (tk_cache_hit (su_tokens r))), (''cache_miss_tokens'', JInt (tk_cache_miss (su_tokens r))),
        (''total_tokens'', JInt (tk_total (su_tokens r)))]),
      (''agent_turns'', JInt (int (su_turns r))),
      (''agent_session_id'', JStr (uuid_str (su_attempt_id r)))]"

subsection \<open>The sums of a file\<close>

text \<open>Token sums as reported usage, and the accounting identities of one turn.\<close>

definition usage_of :: "token_sums \<Rightarrow> reported_usage" where
  "usage_of t = \<lparr>ru_prompt_tokens = tk_prompt t, ru_cache_hit_tokens = tk_cache_hit t, ru_cache_miss_tokens = tk_cache_miss t,
     ru_completion_tokens = tk_completion t, ru_reasoning_tokens = tk_reasoning t, ru_total_tokens = tk_total t\<rparr>"

lemma usage_of_add: "usage_of (add_tokens a b) = add_usage (usage_of a) (usage_of b)"
  by (simp add: usage_of_def add_tokens_def add_usage_def)

lemma usage_of_zero: "usage_of zero_tokens = zero_usage"
  by (simp add: usage_of_def zero_tokens_def zero_usage_def)

definition event_usage :: "event \<Rightarrow> event option" where
  "event_usage e = Option.bind (object_at e ''payload'') (\<lambda>p. object_at p ''usage'')"

definition turn_balanced :: "readers \<Rightarrow> string \<Rightarrow> bool" where
  "turn_balanced R l \<longleftrightarrow> (case rd_loads R l of
       Some (VObj e) \<Rightarrow> (case Option.bind (event_usage e) turn_tokens of
           Some t \<Rightarrow> map_of e ''event_type'' = Some (VStr ''model_turn'') \<longrightarrow> valid_reported_usage (usage_of t)
         | None \<Rightarrow> True)
     | _ \<Rightarrow> True)"

lemma scan_turn_Some:
  assumes "scan_turn R s e = Some s'"
  obtains p u t c d where "object_at e ''payload'' = Some p" "object_at p ''usage'' = Some u" "turn_tokens u = Some t"
    "sc_tokens s' = add_tokens (sc_tokens s) t" "sc_turns s' = sc_turns s + 1"
    "price_meta c = sc_meta s'" "sc_meta s' \<noteq> None" "sc_session s' \<noteq> None" "sc_sequence s' = sc_sequence s"
    "turn_session R e = sc_session s'" "sc_session s \<in> {None, sc_session s'}"
  using assms by (auto simp: scan_turn_def bind_eq_Some_conv agrees_def split: if_splits option.splits)

lemma scan_lines_usage:
  assumes "scan_lines R s ls = Inr (Some s')" "valid_reported_usage (usage_of (sc_tokens s))" "list_all (turn_balanced R) ls"
  shows "valid_reported_usage (usage_of (sc_tokens s'))"
  using assms
proof (induction ls arbitrary: s)
  case (Cons l ls)
  from Cons.prems(1) obtain s1 where s1: "scan_line R s l = Inr (Some s1)" "scan_lines R s1 ls = Inr (Some s')"
    by (auto split: sum.splits option.splits)
  from s1(1) obtain e n where e: "rd_loads R l = Some (VObj e)"
    "s1 = s\<lparr>sc_sequence := Some n\<rparr> \<or> map_of e ''event_type'' = Some (VStr ''model_turn'')
       \<and> scan_turn R (s\<lparr>sc_sequence := Some n\<rparr>) e = Some s1"
    by (auto simp: scan_line_def split: option.splits jval.splits if_splits)
  from e(2) have "valid_reported_usage (usage_of (sc_tokens s1))"
  proof
    assume m: "map_of e ''event_type'' = Some (VStr ''model_turn'') \<and> scan_turn R (s\<lparr>sc_sequence := Some n\<rparr>) e = Some s1"
    from m obtain p u t c d where t: "object_at e ''payload'' = Some p" "object_at p ''usage'' = Some u" "turn_tokens u = Some t"
      "sc_tokens s1 = add_tokens (sc_tokens (s\<lparr>sc_sequence := Some n\<rparr>)) t"
      using scan_turn_Some [of R "s\<lparr>sc_sequence := Some n\<rparr>" e s1] by metis
    have "valid_reported_usage (usage_of t)"
      using Cons.prems(3) e(1) m t by (simp add: turn_balanced_def event_usage_def)
    then show ?thesis using t(4) Cons.prems(2) by (simp add: usage_of_add valid_add_usage)
  qed (use Cons.prems(2) in simp)
  then show ?case using Cons.IH [OF s1(2)] Cons.prems(3) by simp
qed simp

subsection \<open>The patch fits the attempt\<close>

text \<open>pydantic accepts an int as it is and reads the text of the record's cost back to it.\<close>

definition px_laws :: "pydantic \<Rightarrow> (decimal \<Rightarrow> string) \<Rightarrow> decimal \<Rightarrow> bool" where
  "px_laws P dec_str d \<longleftrightarrow> (\<forall>n. px_int P (JInt n) = Some n) \<and> px_decimal P (JStr (dec_str d)) = Some d"

definition band_of :: "string \<Rightarrow> price_band" where
  "band_of b = (if b = ''peak'' then Peak else OffPeak)"

lemma px_usage_patch:
  assumes "px_laws P dec_str d" "valid_reported_usage (usage_of t)"
  shows "px_usage P (JObj [(''status'', JStr ''reported''), (''prompt_tokens'', JInt (tk_prompt t)),
      (''completion_tokens'', JInt (tk_completion t)), (''reasoning_tokens'', JInt (tk_reasoning t)),
      (''cache_hit_tokens'', JInt (tk_cache_hit t)), (''cache_miss_tokens'', JInt (tk_cache_miss t)),
      (''total_tokens'', JInt (tk_total t))]) = Some (usage_of t)"
  using assms by (simp add: px_usage_def usage_names_def px_field_def px_laws_def usage_of_def Let_def)

lemma px_cost_patch:
  assumes "px_laws P dec_str d" "dec_finite d" "dec_le dec_zero d" "len_ok 1 128 i" "b \<in> {''peak'', ''off_peak''}"
  shows "px_cost P (JObj [(''status'', JStr ''estimated''), (''price_snapshot_id'', JStr i), (''currency'', JStr ''USD''),
      (''amount'', JStr (dec_str d)), (''price_band'', JStr b)])
    = Some (Estimated \<lparr>ce_price_snapshot_id = i, ce_amount = d, ce_price_band = band_of b\<rparr>)"
  using assms by (auto simp: px_cost_def estimate_names_def px_field_def px_str_def px_band_def px_laws_def Let_def
      valid_cost_estimate_def band_of_def)

lemma uuid_str_length: "length (uuid_str i) = 36"
  by (simp add: uuid_str_def Let_def length_hex_digits)

lemma patch_accepted:
  assumes "px_laws P dec_str (su_cost_usd r)" "valid_attempt_telemetry t" "valid_spool_usage_record r"
    and "valid_reported_usage (usage_of (su_tokens r))" "su_price_band r \<in> {''peak'', ''off_peak''}"
  shows "patch_telemetry P (telemetry_patch_of dec_str r) t = Some (t\<lparr>tm_agent_usage := Some (usage_of (su_tokens r)),
     tm_agent_cost := Some (Estimated \<lparr>ce_price_snapshot_id = su_price_snapshot_id r, ce_amount = su_cost_usd r,
       ce_price_band = band_of (su_price_band r)\<rparr>),
     tm_agent_turns := Some (int (su_turns r)), tm_agent_session_id := Some (uuid_str (su_attempt_id r))\<rparr>)"
proof -
  have c: "px_cost P (JObj [(''status'', JStr ''estimated''), (''price_snapshot_id'', JStr (su_price_snapshot_id r)),
      (''currency'', JStr ''USD''), (''amount'', JStr (dec_str (su_cost_usd r))), (''price_band'', JStr (su_price_band r))])
    = Some (Estimated \<lparr>ce_price_snapshot_id = su_price_snapshot_id r, ce_amount = su_cost_usd r, ce_price_band = band_of (su_price_band r)\<rparr>)"
    using assms(1,3,5) by (intro px_cost_patch) (auto simp: valid_spool_usage_record_def)
  have v: "valid_cost (Estimated \<lparr>ce_price_snapshot_id = su_price_snapshot_id r, ce_amount = su_cost_usd r,
      ce_price_band = band_of (su_price_band r)\<rparr>)"
    using assms(3) by (simp add: valid_cost_def valid_cost_estimate_def valid_spool_usage_record_def)
  have n: "px_int P (JInt n) = Some n" for n using assms(1) by (simp add: px_laws_def)
  show ?thesis
    using assms(2,4) v
    by (simp add: patch_telemetry_def telemetry_patch_of_def telemetry_names_def patched_def px_optional_def
        px_usage_patch [OF assms(1,4)] c n px_str_def Let_def)
      (simp add: valid_attempt_telemetry_def opt_ok_def non_negative_def len_ok_def uuid_str_length)
qed
lemma scan_lines_meta:
  assumes "scan_lines R s ls = Inr (Some s')" "\<forall>i b. sc_meta s = Some (i, b) \<longrightarrow> b \<in> {''peak'', ''off_peak''}"
  shows "\<forall>i b. sc_meta s' = Some (i, b) \<longrightarrow> b \<in> {''peak'', ''off_peak''}"
  using assms
proof (induction ls arbitrary: s)
  case (Cons l ls)
  from Cons.prems(1) obtain s1 where s1: "scan_line R s l = Inr (Some s1)" "scan_lines R s1 ls = Inr (Some s')"
    by (auto split: sum.splits option.splits)
  from s1(1) obtain e n where e: "s1 = s\<lparr>sc_sequence := Some n\<rparr> \<or> scan_turn R (s\<lparr>sc_sequence := Some n\<rparr>) e = Some s1"
    by (auto simp: scan_line_def split: option.splits jval.splits if_splits)
  from e have "\<forall>i b. sc_meta s1 = Some (i, b) \<longrightarrow> b \<in> {''peak'', ''off_peak''}"
  proof
    assume "scan_turn R (s\<lparr>sc_sequence := Some n\<rparr>) e = Some s1"
    then obtain c where "price_meta c = sc_meta s1" by (rule scan_turn_Some)
    then show ?thesis by (auto simp: price_meta_def split: option.splits jval.splits if_splits)
  qed (use Cons.prems(2) in simp)
  then show ?case using Cons.IH [OF s1(2)] by simp
qed simp

lemma scan_file_record:
  assumes "scan_file R f = Inr (Some r)"
  obtains s where "scan_lines R scan_init (text_lines f) = Inr (Some s)" "su_tokens r = sc_tokens s"
    "valid_spool_usage_record r" "sc_meta s = Some (su_price_snapshot_id r, su_price_band r)" "su_turns r = sc_turns s"
  using assms by (auto simp: scan_file_def Let_def split: sum.splits option.splits list.splits if_splits)

text \<open>
  Imported usage reaches the attempt. If every model turn of a spool file keeps the accounting
  identities, then the record aggregated from it gives a patch that the telemetry of any attempt
  accepts: the sums keep the identities, and exactly the agent's usage, cost, turns and session change.
\<close>

theorem imported_usage_merges:
  assumes "scan_file R f = Inr (Some r)" "list_all (turn_balanced R) (text_lines f)"
    and "px_laws P dec_str (su_cost_usd r)" "valid_attempt_telemetry t"
  shows "valid_reported_usage (usage_of (su_tokens r))
    \<and> patch_telemetry P (telemetry_patch_of dec_str r) t = Some (t\<lparr>tm_agent_usage := Some (usage_of (su_tokens r)),
       tm_agent_cost := Some (Estimated \<lparr>ce_price_snapshot_id = su_price_snapshot_id r, ce_amount = su_cost_usd r,
         ce_price_band = band_of (su_price_band r)\<rparr>),
       tm_agent_turns := Some (int (su_turns r)), tm_agent_session_id := Some (uuid_str (su_attempt_id r))\<rparr>)"
proof -
  obtain s where s: "scan_lines R scan_init (text_lines f) = Inr (Some s)" "su_tokens r = sc_tokens s"
    "valid_spool_usage_record r" "sc_meta s = Some (su_price_snapshot_id r, su_price_band r)"
    by (rule scan_file_record [OF assms(1)])
  have u: "valid_reported_usage (usage_of (su_tokens r))"
    using scan_lines_usage [OF s(1) _ assms(2)] s(2) by (simp add: scan_init_def usage_of_zero valid_zero_usage)
  moreover have "su_price_band r \<in> {''peak'', ''off_peak''}"
    using scan_lines_meta [OF s(1)] s(4) by (simp add: scan_init_def)
  ultimately show ?thesis using patch_accepted [OF assms(3,4) s(3)] by blast
qed

subsection \<open>Grouping\<close>

lemma put_group_lookup: "map_of (put_group k x gs) j =
    (if j = k then Some ((case map_of gs k of None \<Rightarrow> [] | Some g \<Rightarrow> g) @ [x]) else map_of gs j)"
  by (induction k x gs rule: put_group.induct) auto

lemma put_group_keys: "set (map fst (put_group k x gs)) = insert k (set (map fst gs))"
  by (induction k x gs rule: put_group.induct) auto

lemma put_group_distinct: "distinct (map fst gs) \<Longrightarrow> distinct (map fst (put_group k x gs))"
  using put_group_keys [of k x] by (induction k x gs rule: put_group.induct) auto

lemma put_group_mset: "mset (concat (map snd (put_group k x gs))) = add_mset x (mset (concat (map snd gs)))"
  by (induction k x gs rule: put_group.induct) auto

lemma fold_put_group:
  fixes f :: "'a \<Rightarrow> 'k"
  assumes "distinct (map fst gs)"
  shows "distinct (map fst (fold (\<lambda>x. put_group (f x) x) xs gs))
    \<and> mset (concat (map snd (fold (\<lambda>x. put_group (f x) x) xs gs))) = mset xs + mset (concat (map snd gs))
    \<and> map_of (fold (\<lambda>x. put_group (f x) x) xs gs) k =
       (if filter (\<lambda>x. f x = k) xs = [] then map_of gs k
        else Some ((case map_of gs k of None \<Rightarrow> [] | Some g \<Rightarrow> g) @ filter (\<lambda>x. f x = k) xs))"
  using assms
proof (induction xs arbitrary: gs)
  case (Cons x xs)
  from Cons.IH [OF put_group_distinct [OF Cons.prems, of "f x" x]] show ?case
    by (auto simp: put_group_lookup put_group_mset)
qed simp

lemma group_by_facts:
  "distinct (map fst (group_by f xs))" "mset (concat (map snd (group_by f xs))) = mset xs"
  "map_of (group_by f xs) k = (if filter (\<lambda>x. f x = k) xs = [] then None else Some (filter (\<lambda>x. f x = k) xs))"
  using fold_put_group [of "[]" f xs k] by (simp_all add: group_by_def)

subsection \<open>Assignment\<close>

text \<open>
  The state of the loop: the records dealt with so far are the assigned, unassigned and ambiguous
  ones together, and an assigned attempt is a row of the record's own group in whose window it lies.
\<close>

definition assigns :: "int \<Rightarrow> attempt_row list \<Rightarrow> spool_usage_record list \<Rightarrow> spool_assignment \<Rightarrow> bool" where
  "assigns grace rows rs s \<longleftrightarrow>
     mset (map snd (sa_assigned s)) + mset (sa_unassigned s) + mset (sa_ambiguous s) = mset rs
     \<and> distinct (map fst (sa_assigned s))
     \<and> (\<forall>(i, r) \<in> set (sa_assigned s). \<exists>a \<in> set rows. aw_attempt_id a = i \<and> row_group a = record_group r \<and> in_window r a grace)"

lemma put_assigned_new: "map_of m i = None \<Longrightarrow> put_assigned i r m = m @ [(i, r)]"
  by (induction i r m rule: put_assigned.induct) (auto split: if_splits)

lemma assigns_add:
  assumes "assigns grace rows rs s" "map_of (sa_assigned s) (aw_attempt_id a) = None" "a \<in> set rows"
    "row_group a = record_group r" "in_window r a grace"
  shows "assigns grace rows (rs @ [r]) (s\<lparr>sa_assigned := put_assigned (aw_attempt_id a) r (sa_assigned s)\<rparr>)"
proof -
  have "aw_attempt_id a \<notin> fst ` set (sa_assigned s)" using assms(2) by (simp add: map_of_eq_None_iff)
  then show ?thesis using assms by (auto simp: assigns_def put_assigned_new)
qed

lemma assign_record_assigns:
  assumes "assigns grace rows rs s" "set cs \<subseteq> set rows" "\<forall>a \<in> set cs. row_group a = record_group r"
  shows "assigns grace rows (rs @ [r]) (assign_record grace cs r s)"
proof -
  let ?h = "filter (\<lambda>a. map_of (sa_assigned s) (aw_attempt_id a) = None \<and> in_window r a grace) cs"
  consider "?h = []" | a where "?h = [a]" | a b l where "?h = a # b # l" by (metis list.exhaust)
  then show ?thesis
  proof cases
    case (2 a)
    have "a \<in> set ?h" using 2 by simp
    then have "assigns grace rows (rs @ [r]) (s\<lparr>sa_assigned := put_assigned (aw_attempt_id a) r (sa_assigned s)\<rparr>)"
      using assms by (intro assigns_add) auto
    then show ?thesis using 2 by (simp add: assign_record_def)
  qed (use assms(1) in \<open>simp_all add: assign_record_def assigns_def ac_simps\<close>)
qed

lemma fold_assign_record:
  assumes "assigns grace rows rs s" "set cs \<subseteq> set rows" "\<forall>a \<in> set cs. row_group a = k" "\<forall>r \<in> set xs. record_group r = k"
  shows "assigns grace rows (rs @ xs) (fold (assign_record grace cs) xs s)"
  using assms
proof (induction xs arbitrary: rs s)
  case (Cons x xs)
  have "assigns grace rows (rs @ [x]) (assign_record grace cs x s)"
    using Cons.prems by (intro assign_record_assigns) auto
  from Cons.IH [OF this] Cons.prems show ?case by simp
qed simp

lemma assigns_more: "assigns grace rows rs s \<Longrightarrow>
    assigns grace rows (rs @ xs) (s\<lparr>sa_unassigned := sa_unassigned s @ xs\<rparr>)"
  by (simp add: assigns_def ac_simps)

lemma assign_group_assigns:
  assumes "assigns grace rows rs s" "distinct (map aw_attempt_id rows)"
    and "\<forall>r \<in> set xs. record_group r = k" "\<forall>r \<in> set rs. record_group r \<noteq> k"
  shows "assigns grace rows (rs @ xs) (assign_group grace (group_by row_group rows) (k, xs) s)"
proof -
  define cs where "cs = (case map_of (group_by row_group rows) k of None \<Rightarrow> [] | Some cs \<Rightarrow> cs)"
  have cs: "cs = filter (\<lambda>a. row_group a = k) rows" by (simp add: cs_def group_by_facts(3))
  have sub: "set cs \<subseteq> set rows" "\<forall>a \<in> set cs. row_group a = k" by (auto simp: cs)
  have f: "assigns grace rows (rs @ xs) (fold (assign_record grace cs) xs s)"
    by (rule fold_assign_record [OF assms(1) sub assms(3)])
  consider (none) "cs = []" | (one) r a where "xs = [r]" "cs = [a]"
    | (many) "cs \<noteq> []" "\<not> (\<exists>r a. xs = [r] \<and> cs = [a])" by blast
  then show ?thesis
  proof cases
    case none
    then have "assign_group grace (group_by row_group rows) (k, xs) s = s\<lparr>sa_unassigned := sa_unassigned s @ xs\<rparr>"
      by (cases xs rule: remdups_adj.cases) (simp_all add: assign_group_def cs_def [symmetric])
    then show ?thesis using assigns_more [OF assms(1)] by simp
  next
    case (one r a)
    show ?thesis
    proof (cases "in_window r a grace")
      case True
      have a: "a \<in> set rows" "row_group a = k" using sub one(2) by auto
      have "map_of (sa_assigned s) (aw_attempt_id a) = None"
      proof (rule ccontr)
        assume "map_of (sa_assigned s) (aw_attempt_id a) \<noteq> None"
        then obtain q where q: "(aw_attempt_id a, q) \<in> set (sa_assigned s)" using map_of_SomeD by fast
        then obtain b where b: "b \<in> set rows" "aw_attempt_id b = aw_attempt_id a" "row_group b = record_group q"
          using assms(1) unfolding assigns_def by blast
        have "b = a" using distinct_key_eq [OF assms(2) b(1) a(1) b(2)] .
        moreover have "q \<in># mset rs" using q assms(1) unfolding assigns_def
          by (metis (no_types, lifting) image_eqI list.set_map mset_subset_eqD mset_subset_eq_add_left set_mset_mset snd_conv union_assoc)
        then have "record_group q \<noteq> k" using assms(4) by auto
        ultimately show False using b(3) a(2) by simp
      qed
      then show ?thesis
        using assigns_add [OF assms(1) _ a(1), of r] True a(2) assms(3) one
        by (simp add: assign_group_def cs_def [symmetric])
    qed (use assigns_more [OF assms(1), of "[r]"] one in \<open>simp add: assign_group_def cs_def [symmetric]\<close>)
  next
    case many
    then have "assign_group grace (group_by row_group rows) (k, xs) s = fold (assign_record grace cs) xs s"
      by (cases xs rule: remdups_adj.cases; cases cs rule: remdups_adj.cases)
        (auto simp: assign_group_def cs_def [symmetric])
    then show ?thesis using f by simp
  qed
qed

lemma fold_assign_group:
  assumes "assigns grace rows rs s" "distinct (map aw_attempt_id rows)" "distinct (map fst gs)"
    and "\<forall>(k, xs) \<in> set gs. \<forall>r \<in> set xs. record_group r = k" "\<forall>r \<in> set rs. record_group r \<notin> fst ` set gs"
  shows "assigns grace rows (rs @ concat (map snd gs)) (fold (assign_group grace (group_by row_group rows)) gs s)"
  using assms
proof (induction gs arbitrary: rs s)
  case (Cons g gs)
  obtain k xs where g: "g = (k, xs)" by (cases g)
  have "assigns grace rows (rs @ xs) (assign_group grace (group_by row_group rows) (k, xs) s)"
    using Cons.prems g by (intro assign_group_assigns) auto
  then have "assigns grace rows ((rs @ xs) @ concat (map snd gs))
      (fold (assign_group grace (group_by row_group rows)) gs (assign_group grace (group_by row_group rows) (k, xs) s))"
    using Cons.prems g by (intro Cons.IH) auto
  then show ?case using g by simp
qed simp

text \<open>
  C25: The assignment is sound and loses nothing. Every record of the scan is assigned, unassigned or
  ambiguous, exactly once; no attempt gets two records; and an assigned attempt is of the record's own
  experiment, task and mode, and the session's last turn lies in its time window.
\<close>

theorem assignment_sound:
  assumes "distinct (map aw_attempt_id rows)"
  shows "let s = assign_attempts records rows grace in
     mset (map snd (sa_assigned s)) + mset (sa_unassigned s) + mset (sa_ambiguous s) = mset records
     \<and> distinct (map fst (sa_assigned s))
     \<and> (\<forall>(i, r) \<in> set (sa_assigned s). \<exists>a \<in> set rows. aw_attempt_id a = i \<and> row_group a = record_group r \<and> in_window r a grace)"
proof -
  have m: "record_group r = k" if "(k, xs) \<in> set (group_by record_group records)" "r \<in> set xs" for k xs r
  proof -
    have "map_of (group_by record_group records) k = Some xs" by (rule map_of_is_SomeI [OF group_by_facts(1) that(1)])
    then show ?thesis using that(2) by (auto simp: group_by_facts(3) split: if_splits)
  qed
  have "assigns grace rows ([] @ concat (map snd (group_by record_group records))) (assign_attempts records rows grace)"
    unfolding assign_attempts_def using assms m group_by_facts(1)
    by (intro fold_assign_group) (auto simp: assigns_def)
  then show ?thesis using group_by_facts(2) [of record_group records] by (simp add: assigns_def Let_def del: mset_concat)
qed
definition sample_session :: "uuid \<Rightarrow> instant \<Rightarrow> spool_usage_record" where
  "sample_session i t = \<lparr>su_attempt_id = i, su_experiment_id = ''e'', su_task_id = ''t'', su_mode = ''a'', su_turns = 1,
     su_tokens = zero_tokens, su_cost_usd = dec_zero, su_price_snapshot_id = ''p'', su_price_band = ''peak'',
     su_first_recorded_at = Some t, su_last_recorded_at = Some t\<rparr>"

definition sample_row :: "uuid \<Rightarrow> instant \<Rightarrow> attempt_row" where
  "sample_row i t = \<lparr>aw_attempt_id = i, aw_experiment_id = ''e'', aw_task_id = ''t'', aw_mode = ''a'',
     aw_started_at = t, aw_finished_at = Some (t + 100)\<rparr>"

theorem assignment_sound_witness:
  "let s = assign_attempts [sample_session 1 50] [sample_row 7 0] 60 in
     mset (map snd (sa_assigned s)) + mset (sa_unassigned s) + mset (sa_ambiguous s) = mset [sample_session 1 50]"
  using assignment_sound [of "[sample_row 7 0]" "[sample_session 1 50]" 60] by (simp add: Let_def)

text \<open>
  The assignment depends on the order of the files. Two sessions of a retried task, one inside the
  windows of both attempts and one inside that of the first only: scanned in one order the first
  session is reported ambiguous, scanned in the other it is assigned to the attempt that is left.
\<close>

theorem assignment_order_dependent:
  "sa_ambiguous (assign_attempts [sample_session 1 120, sample_session 2 20] [sample_row 7 0, sample_row 8 100] 60)
     = [sample_session 1 120]
   \<and> sa_ambiguous (assign_attempts [sample_session 2 20, sample_session 1 120] [sample_row 7 0, sample_row 8 100] 60) = []
   \<and> map_of (sa_assigned (assign_attempts [sample_session 2 20, sample_session 1 120] [sample_row 7 0, sample_row 8 100] 60)) 8
     = Some (sample_session 1 120)"
proof -
  have w: "in_window (sample_session 1 120) (sample_row 7 0) 60" "in_window (sample_session 1 120) (sample_row 8 100) 60"
    "in_window (sample_session 2 20) (sample_row 7 0) 60" "\<not> in_window (sample_session 2 20) (sample_row 8 100) 60"
    by (simp_all add: in_window_def sample_session_def sample_row_def)
  have g: "record_group (sample_session i t) = (''e'', ''t'', ''a'')" "row_group (sample_row i t) = (''e'', ''t'', ''a'')"
    "aw_attempt_id (sample_row i t) = i" for i t
    by (simp_all add: record_group_def row_group_def sample_session_def sample_row_def)
  show ?thesis
    by (simp add: assign_attempts_def group_by_def g assign_group_def assign_record_def w)
qed

definition sample_turn_event :: event where
  "sample_turn_event = [(''attempt_id'', VStr ''u''), (''task_id'', VStr ''t''), (''mode'', VStr ''a''), (''experiment_id'', VStr ''e''),
     (''recorded_at'', VStr ''2026''), (''sequence'', VInt 0), (''event_type'', VStr ''model_turn''),
     (''payload'', VObj [(''usage'', VObj [(''prompt_tokens'', VInt 5), (''completion_tokens'', VInt 2), (''reasoning_tokens'', VInt 1),
         (''cache_hit_tokens'', VInt 2), (''cache_miss_tokens'', VInt 3), (''total_tokens'', VInt 7)]),
       (''cost'', VObj [(''amount'', VStr ''1''), (''price_snapshot_id'', VStr ''p''), (''price_band'', VStr ''peak'')])])]"

definition sample_readers :: readers where
  "sample_readers = \<lparr>rd_uuid = (\<lambda>_. Some 1), rd_decimal = (\<lambda>_. Some dec_one), rd_datetime = (\<lambda>_. Some (Aware 0 0)),
     rd_loads = (\<lambda>_. Some (VObj sample_turn_event)), rd_show = (\<lambda>_. [])\<rparr>"

definition sample_usage_record :: spool_usage_record where
  "sample_usage_record = \<lparr>su_attempt_id = 1, su_experiment_id = ''e'', su_task_id = ''t'', su_mode = ''a'', su_turns = 1,
     su_tokens = \<lparr>tk_prompt = 5, tk_completion = 2, tk_reasoning = 1, tk_cache_hit = 2, tk_cache_miss = 3, tk_total = 7\<rparr>,
     su_cost_usd = dec_one, su_price_snapshot_id = ''p'', su_price_band = ''peak'',
     su_first_recorded_at = Some 0, su_last_recorded_at = Some 0\<rparr>"

definition sample_pydantic :: pydantic where
  "sample_pydantic = \<lparr>px_int = (\<lambda>j. case j of JInt n \<Rightarrow> Some n | _ \<Rightarrow> None), px_ratio = (\<lambda>_. None), px_decimal = (\<lambda>_. Some dec_one)\<rparr>"

lemma sample_scan: "scan_file sample_readers ''x'' = Inr (Some sample_usage_record)"
proof -
  have a: "dec_add dec_zero dec_one = Some dec_one" by code_simp
  have f: "\<not> forbidden (VObj sample_turn_event)" by code_simp
  have l: "text_lines ''x'' = [''x'']" by code_simp
  have s: "sequence_of sample_turn_event = Some 0" "sequence_grows None 0" "usable_turn sample_readers sample_turn_event"
    "map_of sample_turn_event ''event_type'' = Some (VStr ''model_turn'')"
    by (simp_all add: sequence_of_def sample_turn_event_def sequence_grows_def usable_turn_def stamp_keys_def object_at_def
        usage_keys_def amount_text_def sample_readers_def)
  have r: "rd_loads sample_readers l = Some (VObj sample_turn_event)" for l by (simp add: sample_readers_def)
  have t: "scan_turn sample_readers (scan_init\<lparr>sc_sequence := Some 0\<rparr>) sample_turn_event =
      Some \<lparr>sc_tokens = su_tokens sample_usage_record, sc_turns = 1, sc_cost = dec_one, sc_meta = Some (''p'', ''peak''),
        sc_first = Some 0, sc_last = Some 0, sc_session = Some (1, [''t'', ''a'', ''e'']), sc_sequence = Some 0\<rparr>"
    using a by (simp add: scan_turn_def scan_init_def turn_session_def sample_turn_event_def sample_readers_def stamp_keys_def
        str_of_def agrees_def object_at_def turn_tokens_def usage_keys_def count_at_def amount_text_def price_meta_def
        parse_timestamp_def to_instant_def add_tokens_def zero_tokens_def sample_usage_record_def earliest_def latest_def)
  have "valid_spool_usage_record sample_usage_record" by code_simp
  then show ?thesis
    using f s r t by (simp add: scan_file_def l scan_line_def scan_init_def Let_def del: forbidden.simps)
      (simp add: sample_usage_record_def)
qed

theorem imported_usage_merges_witness:
  "\<exists>t. patch_telemetry sample_pydantic (telemetry_patch_of (\<lambda>_. ''1'') sample_usage_record) empty_telemetry = Some t
     \<and> tm_agent_turns t = Some 1"
proof -
  have b: "list_all (turn_balanced sample_readers) (text_lines ''x'')" by code_simp
  have "px_laws sample_pydantic (\<lambda>_. ''1'') (su_cost_usd sample_usage_record)"
    by (simp add: px_laws_def sample_pydantic_def sample_usage_record_def)
  from imported_usage_merges [OF sample_scan b this sample_attempt_valid(2)] show ?thesis
    by (simp add: sample_usage_record_def)
qed

end
