(* ===== verification/Pricing.thy ===== *)
theory Pricing
  imports Spool_Import Model_Contracts
begin

text \<open>
  Price snapshots and the cost of a completion (\<open>src/commerce_agent/model/_pricing.py\<close>). Amounts are
  computed with Decimal products, sums and one division, each rounded to 28 digits. \<open>read_time\<close> is
  time.fromisoformat; a time is the microsecond of the day, with an offset when it carries one.
  \<open>None\<close> is a raised ValueError or TypeError. Exponents stay within the range of the context.
\<close>

subsection \<open>Products and quotients of decimals\<close>

definition dec_mul :: "decimal \<Rightarrow> decimal \<Rightarrow> decimal option" where
  "dec_mul a b = (case (a, b) of
       (DNaN, _) \<Rightarrow> Some DNaN
     | (_, DNaN) \<Rightarrow> Some DNaN
     | (DInf s, DInf t) \<Rightarrow> Some (DInf (s \<noteq> t))
     | (DInf s, Dec t d _) \<Rightarrow> if d = 0 then None else Some (DInf (s \<noteq> t))
     | (Dec s c _, DInf t) \<Rightarrow> if c = 0 then None else Some (DInf (s \<noteq> t))
     | (Dec s c e, Dec t d f) \<Rightarrow> Some (dec_fix (s \<noteq> t) (c * d) (e + f)))"

text \<open>The quotient by a positive integer: the quotient of the coefficients at the exponent of the dividend.\<close>

definition dec_div_by :: "decimal \<Rightarrow> int \<Rightarrow> decimal" where
  "dec_div_by a m = (case a of
       Dec s c e \<Rightarrow> (case dec_div c m of Dec _ q x \<Rightarrow> Dec s q (x + e) | r \<Rightarrow> r)
     | _ \<Rightarrow> a)"

definition dec_nonneg :: "decimal \<Rightarrow> bool" where
  "dec_nonneg d = (case d of Dec s c _ \<Rightarrow> 0 \<le> c \<and> (s \<longrightarrow> c = 0) | _ \<Rightarrow> False)"

subsection \<open>Snapshots\<close>

datatype py_time = NaiveTime int | AwareTime int int

definition time_cmp :: "(int \<Rightarrow> int \<Rightarrow> bool) \<Rightarrow> py_time \<Rightarrow> py_time \<Rightarrow> bool option" where
  "time_cmp R a b = (case (a, b) of
       (NaiveTime x, NaiveTime y) \<Rightarrow> Some (R x y)
     | (AwareTime x u, AwareTime y v) \<Rightarrow> Some (R (x - u) (y - v))
     | _ \<Rightarrow> None)"

record price_snapshot =
  ps_snapshot_id :: string
  ps_peak_windows_utc :: "(string \<times> string) list"
  ps_peak_cache_hit :: decimal
  ps_peak_cache_miss :: decimal
  ps_peak_output :: decimal
  ps_off_peak_cache_hit :: decimal
  ps_off_peak_cache_miss :: decimal
  ps_off_peak_output :: decimal

definition valid_window :: "(string \<Rightarrow> py_time option) \<Rightarrow> string \<times> string \<Rightarrow> bool" where
  "valid_window read_time w = (case (read_time (fst w), read_time (snd w)) of
       (Some a, Some b) \<Rightarrow> time_cmp (\<ge>) a b = Some False
     | _ \<Rightarrow> False)"

definition valid_price :: "decimal \<Rightarrow> bool" where
  "valid_price d \<longleftrightarrow> dec_finite d \<and> dec_le dec_zero d"

definition valid_price_snapshot :: "(string \<Rightarrow> py_time option) \<Rightarrow> price_snapshot \<Rightarrow> bool" where
  "valid_price_snapshot read_time p \<longleftrightarrow>
     len_ok 1 128 (ps_snapshot_id p)
     \<and> valid_price (ps_peak_cache_hit p) \<and> valid_price (ps_peak_cache_miss p) \<and> valid_price (ps_peak_output p)
     \<and> valid_price (ps_off_peak_cache_hit p) \<and> valid_price (ps_off_peak_cache_miss p)
     \<and> valid_price (ps_off_peak_output p) \<and> list_all (valid_window read_time) (ps_peak_windows_utc p)"

subsection \<open>Costs\<close>

fun in_window_of :: "(string \<Rightarrow> py_time option) \<Rightarrow> int \<Rightarrow> (string \<times> string) list \<Rightarrow> bool option" where
  "in_window_of read_time now [] = Some False"
| "in_window_of read_time now ((a, b) # ws) =
     Option.bind (read_time a) (\<lambda>start.
     Option.bind (time_cmp (\<le>) start (NaiveTime now)) (\<lambda>started.
     if \<not> started then in_window_of read_time now ws
     else Option.bind (read_time b) (\<lambda>stop.
       Option.bind (time_cmp (<) (NaiveTime now) stop) (\<lambda>open.
       if open then Some True else in_window_of read_time now ws))))"

definition is_peak :: "(string \<Rightarrow> py_time option) \<Rightarrow> price_snapshot \<Rightarrow> instant \<Rightarrow> bool option" where
  "is_peak read_time p utc =
     (if weekday (utc div usec_per_day) < 5
      then in_window_of read_time (utc mod usec_per_day) (ps_peak_windows_utc p) else Some False)"

definition band_prices :: "price_snapshot \<Rightarrow> bool \<Rightarrow> decimal \<times> decimal \<times> decimal" where
  "band_prices p peak = (if peak then (ps_peak_cache_hit p, ps_peak_cache_miss p, ps_peak_output p)
     else (ps_off_peak_cache_hit p, ps_off_peak_cache_miss p, ps_off_peak_output p))"

definition cost_amount :: "decimal \<times> decimal \<times> decimal \<Rightarrow> reported_usage \<Rightarrow> decimal option" where
  "cost_amount prices u = (case prices of (hit, miss, out) \<Rightarrow>
     Option.bind (dec_mul (dec_of_int (ru_cache_hit_tokens u)) hit) (\<lambda>a.
     Option.bind (dec_mul (dec_of_int (ru_cache_miss_tokens u)) miss) (\<lambda>b.
     Option.bind (dec_add a b) (\<lambda>ab.
     Option.bind (dec_mul (dec_of_int (ru_completion_tokens u)) out) (\<lambda>c.
     map_option (\<lambda>t. dec_div_by t 1000000) (dec_add ab c))))))"

definition calculate_cost ::
    "(string \<Rightarrow> py_time option) \<Rightarrow> price_snapshot \<Rightarrow> reported_usage \<Rightarrow> py_datetime \<Rightarrow> cost_estimate option" where
  "calculate_cost read_time p u sent_at =
     (if \<not> is_aware sent_at then None
      else Option.bind (is_peak read_time p (to_instant sent_at)) (\<lambda>peak.
        Option.bind (cost_amount (band_prices p peak) u) (\<lambda>amount.
        let c = \<lparr>ce_price_snapshot_id = ps_snapshot_id p, ce_amount = amount,
                 ce_price_band = (if peak then Peak else OffPeak)\<rparr>
        in if valid_cost_estimate c then Some c else None)))"

subsection \<open>Signs\<close>

definition dec_wf :: "decimal \<Rightarrow> bool" where
  "dec_wf d = (case d of Dec _ c _ \<Rightarrow> 0 \<le> c | _ \<Rightarrow> True)"

lemma dec_nonnegE:
  assumes "dec_nonneg d"
  obtains s c e where "d = Dec s c e" "0 \<le> c" "s \<Longrightarrow> c = 0"
  using assms by (cases d) (auto simp: dec_nonneg_def)

lemma dec_nonneg_Dec [simp]: "dec_nonneg (Dec s c e) \<longleftrightarrow> 0 \<le> c \<and> (s \<longrightarrow> c = 0)"
  by (simp add: dec_nonneg_def)

lemma pow10_pos [simp]: "\<not> (10 :: int) ^ k \<le> 0"
  by (simp add: not_le)

lemma valid_price_iff: "dec_wf d \<Longrightarrow> valid_price d \<longleftrightarrow> dec_nonneg d"
  by (cases d) (auto simp: valid_price_def dec_wf_def dec_nonneg_def dec_le_Dec dec_zero_def scaled_def signed_def
    mult_le_0_iff zero_le_mult_iff)

lemma dec_nonneg_finite: "dec_nonneg d \<Longrightarrow> dec_finite d \<and> dec_le dec_zero d"
  by (erule dec_nonnegE) (auto simp: dec_le_Dec dec_zero_def scaled_def signed_def zero_le_mult_iff)

lemma dec_nonneg_of_int: "0 \<le> n \<Longrightarrow> dec_nonneg (dec_of_int n)"
  by (simp add: dec_of_int_def)

lemma digit_count_zero [simp]: "digit_count 0 = 1"
  by (simp add: digit_count_def show_nat.simps [of 0])

lemma dec_fix_nonneg: "0 \<le> c \<Longrightarrow> (s \<Longrightarrow> c = 0) \<Longrightarrow> dec_nonneg (dec_fix s c e)"
  using div_half_even_nonneg [of "10 ^ (digit_count c - 28)" c]
  by (cases s) (auto simp: dec_fix_def Let_def prec_limit_def)

lemma dec_mul_nonneg:
  assumes "dec_nonneg a" "dec_nonneg b"
  obtains d where "dec_mul a b = Some d" "dec_nonneg d"
proof -
  obtain s c e t d f where "a = Dec s c e" "0 \<le> c" "s \<Longrightarrow> c = 0" "b = Dec t d f" "0 \<le> d" "t \<Longrightarrow> d = 0"
    using assms by (metis dec_nonnegE)
  then show ?thesis by (intro that [of "dec_fix (s \<noteq> t) (c * d) (e + f)"] dec_fix_nonneg) (auto simp: dec_mul_def)
qed

lemma dec_add_nonneg:
  assumes "dec_nonneg a" "dec_nonneg b"
  obtains d where "dec_add a b = Some d" "dec_nonneg d"
proof -
  obtain s c e t d f where ab: "a = Dec s c e" "0 \<le> c" "s \<Longrightarrow> c = 0" "b = Dec t d f" "0 \<le> d" "t \<Longrightarrow> d = 0"
    using assms by (metis dec_nonnegE)
  define m n where "m = min e f" and "n = signed s c * 10 ^ nat (e - m) + signed t d * 10 ^ nat (f - m)"
  have nn: "0 \<le> n" using ab by (auto simp: n_def signed_def)
  have "dec_add a b = Some (dec_fix (if n = 0 then s \<and> t else n < 0) \<bar>n\<bar> m)"
    by (simp add: ab(1,4) dec_add_def m_def n_def Let_def)
  moreover have "dec_nonneg (dec_fix (if n = 0 then s \<and> t else n < 0) \<bar>n\<bar> m)"
    using nn by (intro dec_fix_nonneg) (auto split: if_splits)
  ultimately show ?thesis by (rule that)
qed

lemma strip_zeros_nonneg: "0 \<le> c \<Longrightarrow> 0 \<le> fst (strip_zeros c e)"
  by (induction c e rule: strip_zeros.induct) (subst strip_zeros.simps, auto)

lemma dec_fix_cases: "0 \<le> c \<Longrightarrow> \<exists>c' e'. dec_fix s c e = Dec s c' e' \<and> 0 \<le> c'"
  using div_half_even_nonneg [of "10 ^ (digit_count c - 28)" c]
  by (auto simp: dec_fix_def Let_def prec_limit_def)

lemma dec_div_nonneg:
  assumes "0 \<le> c" "0 < m"
  obtains q x where "dec_div c m = Dec False q x" "0 \<le> q" "c = 0 \<Longrightarrow> q = 0"
proof (cases "c = 0")
  case True
  then show ?thesis using assms by (intro that [of 0 0]) (simp_all add: dec_div_def)
next
  case False
  define sh where "sh = int (digit_count m) - int (digit_count c) + 29"
  define num den where "num = (if 0 \<le> sh then c * 10 ^ nat sh else c)"
    and "den = (if 0 \<le> sh then m else m * 10 ^ nat (- sh))"
  have eq: "dec_div c m = (if num mod den \<noteq> 0
      then dec_fix False (if (num div den) mod 5 = 0 then num div den + 1 else num div den) (- sh)
      else (let (c, e) = strip_zeros (num div den) (- sh) in dec_fix False c e))"
    unfolding dec_div_def num_def den_def sh_def using False assms by (simp add: Let_def)
  have k: "0 \<le> num div den" using assms by (simp add: num_def den_def pos_imp_zdiv_nonneg_iff)
  have "\<exists>q' x. dec_div c m = dec_fix False q' x \<and> 0 \<le> q'"
    using k strip_zeros_nonneg [OF k, of "- sh"] unfolding eq split_beta Let_def
    by (metis add_increasing2 zero_le_one)
  then obtain q' x where q: "dec_div c m = dec_fix False q' x" "0 \<le> q'" by blast
  obtain q y where "dec_fix False q' x = Dec False q y" "0 \<le> q" using dec_fix_cases [OF q(2)] by metis
  then show ?thesis using q False that by simp
qed

lemma dec_div_by_nonneg: "dec_nonneg a \<Longrightarrow> 0 < m \<Longrightarrow> dec_nonneg (dec_div_by a m)"
  by (erule dec_nonnegE, rule dec_div_nonneg) (auto simp: dec_div_by_def)

lemma cost_amount_nonneg:
  assumes u: "valid_reported_usage u" and p: "dec_nonneg h" "dec_nonneg m" "dec_nonneg c"
  obtains d where "cost_amount (h, m, c) u = Some d" "dec_nonneg d"
proof -
  have nn: "0 \<le> ru_cache_hit_tokens u" "0 \<le> ru_cache_miss_tokens u" "0 \<le> ru_completion_tokens u"
    using u by (simp_all add: valid_reported_usage_def)
  obtain x where x: "dec_mul (dec_of_int (ru_cache_hit_tokens u)) h = Some x" "dec_nonneg x"
    using dec_mul_nonneg [OF dec_nonneg_of_int [OF nn(1)] p(1)] .
  obtain y where y: "dec_mul (dec_of_int (ru_cache_miss_tokens u)) m = Some y" "dec_nonneg y"
    using dec_mul_nonneg [OF dec_nonneg_of_int [OF nn(2)] p(2)] .
  obtain z where z: "dec_mul (dec_of_int (ru_completion_tokens u)) c = Some z" "dec_nonneg z"
    using dec_mul_nonneg [OF dec_nonneg_of_int [OF nn(3)] p(3)] .
  obtain xy where xy: "dec_add x y = Some xy" "dec_nonneg xy" using dec_add_nonneg [OF x(2) y(2)] .
  obtain t where t: "dec_add xy z = Some t" "dec_nonneg t" using dec_add_nonneg [OF xy(2) z(2)] .
  show ?thesis
    using dec_div_by_nonneg [OF t(2), of 1000000]
    by (intro that [of "dec_div_by t 1000000"]) (simp_all add: cost_amount_def x y z xy t)
qed

subsection \<open>Peak windows\<close>

definition naive_windows :: "(string \<Rightarrow> py_time option) \<Rightarrow> price_snapshot \<Rightarrow> bool" where
  "naive_windows read_time p \<longleftrightarrow> list_all (\<lambda>(a, b). (\<exists>x. read_time a = Some (NaiveTime x))
     \<and> (\<exists>y. read_time b = Some (NaiveTime y))) (ps_peak_windows_utc p)"

lemma in_window_of_naive:
  assumes "list_all (\<lambda>(a, b). (\<exists>x. rt a = Some (NaiveTime x)) \<and> (\<exists>y. rt b = Some (NaiveTime y))) ws"
  shows "in_window_of rt now ws
     = Some (\<exists>(a, b) \<in> set ws. \<exists>x y. rt a = Some (NaiveTime x) \<and> rt b = Some (NaiveTime y) \<and> x \<le> now \<and> now < y)"
  using assms by (induction rt now ws rule: in_window_of.induct) (auto simp: time_cmp_def)
subsection \<open>Exact costs\<close>

lemma dec_fix_exact: "0 \<le> c \<Longrightarrow> c < 10 ^ 28 \<Longrightarrow> dec_fix s c e = Dec s c e"
  by (rule dec_fix_short) (rule digit_count_le, simp_all)

lemma dec_mul_exact:
  "0 \<le> n \<Longrightarrow> 0 \<le> c \<Longrightarrow> n * c < 10 ^ 28 \<Longrightarrow> dec_mul (dec_of_int n) (Dec False c e) = Some (Dec False (n * c) e)"
  by (simp add: dec_mul_def dec_of_int_def dec_fix_exact)

lemma dec_add_exact:
  assumes "0 \<le> c" "0 \<le> d" "c * 10 ^ nat (e - min e f) + d * 10 ^ nat (f - min e f) < 10 ^ 28"
  shows "dec_add (Dec False c e) (Dec False d f)
     = Some (Dec False (c * 10 ^ nat (e - min e f) + d * 10 ^ nat (f - min e f)) (min e f))"
proof -
  define n where "n = c * 10 ^ nat (e - min e f) + d * 10 ^ nat (f - min e f)"
  have "0 \<le> n" using assms(1,2) by (simp add: n_def)
  then show ?thesis
    using assms(3) unfolding n_def [symmetric] by (simp add: dec_add_def signed_def Let_def n_def [symmetric] dec_fix_exact)
qed

lemma le_scaled: "0 \<le> c \<Longrightarrow> c \<le> c * 10 ^ k" for c :: int
  by (simp add: mult_le_cancel_left1)

lemma million_quotient:
  assumes "0 \<le> n" "n < 10 ^ 28"
  obtains q x where "dec_div n 1000000 = Dec False q x" "-6 \<le> x" "n = q * 10 ^ nat (x + 6)"
proof (cases "n = 0")
  case True
  then show ?thesis by (intro that [of 0 0]) (simp_all add: dec_div_def)
next
  case False
  then have n: "0 < n" using assms by simp
  have dm: "digit_count 1000000 = 7" by code_simp
  have dn: "digit_count n \<le> 28" using digit_count_le [OF assms] by simp
  define sh where "sh = 36 - digit_count n"
  have sh: "8 \<le> sh" "int (digit_count 1000000) - int (digit_count n) + 29 = int sh"
    using dn by (simp_all add: sh_def dm)
  have split: "(10 :: int) ^ sh = 1000000 * 10 ^ (sh - 6)"
    using sh(1) power_add [of "10 :: int" 6 "sh - 6"] by simp
  have "dec_div n 1000000 = (let (c, e) = strip_zeros (n * 10 ^ (sh - 6)) (- int sh) in dec_fix False c e)"
    using n sh(2) by (simp add: dec_div_def Let_def split)
  moreover obtain c e where st: "strip_zeros (n * 10 ^ (sh - 6)) (- int sh) = (c, e)" by fastforce
  note p = strip_zeros_props [OF st]
  have bounds: "- int sh \<le> e" "e \<le> 0" and eq: "n * 10 ^ (sh - 6) = c * 10 ^ nat (e + int sh)"
    and stop: "e = 0 \<or> c mod 10 \<noteq> 0" using p by auto
  have e6: "-6 \<le> e"
  proof (rule ccontr)
    assume lt: "\<not> -6 \<le> e"
    define j where "j = nat (- 6 - e)"
    have j: "sh - 6 = j + nat (e + int sh)" "0 < j" using lt bounds sh(1) by (auto simp: j_def)
    have "c = n * 10 ^ j" using eq unfolding j(1) power_add by simp
    then have "c mod 10 = 0" using j(2) by (cases j) auto
    then show False using stop lt by auto
  qed
  have "nat (e + int sh) = nat (e + 6) + (sh - 6)" using e6 sh(1) by simp
  then have nc: "n = c * 10 ^ nat (e + 6)" using eq by (simp add: power_add)
  have "0 \<le> c" using n nc by (metis mult_neg_pos not_le zero_less_numeral zero_less_power order_less_imp_le)
  then have "c \<le> n" using nc le_scaled by simp
  then have "dec_fix False c e = Dec False c e" using assms \<open>0 \<le> c\<close> by (simp add: dec_fix_exact)
  ultimately have "dec_div n 1000000 = Dec False c e" using st by simp
  then show ?thesis using e6 nc by (rule that)
qed

text \<open>
  A cost is exact whenever it fits: when the sum of tokens times prices, in units of the smallest
  price exponent, has at most 28 digits, the amount is that sum divided by one million, with no rounding.
\<close>

theorem cost_amount_exact:
  fixes u :: reported_usage
  defines "h \<equiv> ru_cache_hit_tokens u" and "m \<equiv> ru_cache_miss_tokens u" and "c \<equiv> ru_completion_tokens u"
  assumes u: "valid_reported_usage u" and p: "0 \<le> ph" "0 \<le> pm" "0 \<le> pc" and e: "e = min (min eh em) ec"
    and s: "s = h * ph * 10 ^ nat (eh - e) + m * pm * 10 ^ nat (em - e) + c * pc * 10 ^ nat (ec - e)"
    and fits: "s < 10 ^ 28"
  shows "\<exists>q x. cost_amount (Dec False ph eh, Dec False pm em, Dec False pc ec) u = Some (Dec False q (x + e))
    \<and> -6 \<le> x \<and> s = q * 10 ^ nat (x + 6)"
proof -
  have nn: "0 \<le> h" "0 \<le> m" "0 \<le> c" using u by (simp_all add: h_def m_def c_def valid_reported_usage_def)
  define a b d where "a = h * ph" and "b = m * pm" and "d = c * pc"
  have abd: "0 \<le> a" "0 \<le> b" "0 \<le> d" using nn p by (simp_all add: a_def b_def d_def)
  define f where "f = min eh em"
  define ab where "ab = a * 10 ^ nat (eh - f) + b * 10 ^ nat (em - f)"
  have ab: "0 \<le> ab" using abd by (simp add: ab_def)
  have ef: "e \<le> f" "e \<le> ec" "f \<le> eh" "f \<le> em" "e = min f ec" using e by (auto simp: f_def)
  have pw: "(10 :: int) ^ nat (x - e) = 10 ^ nat (x - f) * 10 ^ nat (f - e)" if "f \<le> x" for x
    using that ef by (simp add: power_add [symmetric] nat_add_distrib [symmetric])
  have s': "s = ab * 10 ^ nat (f - e) + d * 10 ^ nat (ec - e)"
    unfolding s ab_def by (simp add: pw [OF ef(3)] pw [OF ef(4)] a_def b_def d_def algebra_simps)
  have le: "a \<le> ab" "b \<le> ab" "ab \<le> s" "d \<le> s"
    using le_scaled [OF abd(1), of "nat (eh - f)"] le_scaled [OF abd(2), of "nat (em - f)"]
      le_scaled [OF ab, of "nat (f - e)"] le_scaled [OF abd(3), of "nat (ec - e)"] abd ab
    by (auto simp: ab_def s' intro: add_increasing add_increasing2)
  have small: "a < 10 ^ 28" "b < 10 ^ 28" "ab < 10 ^ 28" "d < 10 ^ 28" using le fits by linarith+
  have "cost_amount (Dec False ph eh, Dec False pm em, Dec False pc ec) u = Some (dec_div_by (Dec False s e) 1000000)"
    using dec_mul_exact [OF nn(1) p(1)] dec_mul_exact [OF nn(2) p(2)] dec_mul_exact [OF nn(3) p(3)]
      dec_add_exact [of a b eh em] dec_add_exact [of ab d f ec] small abd ab fits
    by (simp add: cost_amount_def h_def [symmetric] m_def [symmetric] c_def [symmetric] a_def [symmetric]
        b_def [symmetric] d_def [symmetric] f_def [symmetric] ab_def [symmetric] ef(5) [symmetric] s' [symmetric])
  moreover have "0 \<le> s" using le ab by simp
  then obtain q x where "dec_div s 1000000 = Dec False q x" "-6 \<le> x" "s = q * 10 ^ nat (x + 6)"
    using million_quotient [OF _ fits] by blast
  ultimately show ?thesis by (auto simp: dec_div_by_def)
qed

definition sample_prices :: price_snapshot where
  "sample_prices = \<lparr>ps_snapshot_id = ''deepseek'', ps_peak_windows_utc = [(''01:00'', ''04:00'')],
     ps_peak_cache_hit = Dec False 2 (-2), ps_peak_cache_miss = Dec False 14 (-2), ps_peak_output = Dec False 28 (-2),
     ps_off_peak_cache_hit = Dec False 1 (-2), ps_off_peak_cache_miss = Dec False 7 (-2),
     ps_off_peak_output = Dec False 14 (-2)\<rparr>"

definition sample_usage :: reported_usage where
  "sample_usage = \<lparr>ru_prompt_tokens = 1500, ru_cache_hit_tokens = 500, ru_cache_miss_tokens = 1000,
     ru_completion_tokens = 200, ru_reasoning_tokens = 50, ru_total_tokens = 1700\<rparr>"

theorem cost_amount_exact_witness:
  "\<exists>q x. cost_amount (Dec False 2 (-2), Dec False 14 (-2), Dec False 28 (-2)) sample_usage = Some (Dec False q (x + -2))
     \<and> -6 \<le> x \<and> 20600 = q * 10 ^ nat (x + 6)"
  by (rule cost_amount_exact [of _ _ _ _ _ "-2" "-2" "-2"]) (simp_all add: sample_usage_def valid_reported_usage_def)

text \<open>
  C31: Under a valid snapshot whose windows are plain times, every valid usage sent at an aware time has a
  valid cost: an amount that is finite and not negative, at the prices of the band, which is peak exactly
  on a weekday inside one of the half-open windows.
\<close>

theorem calculated_cost_valid:
  assumes p: "valid_price_snapshot rt p" "naive_windows rt p"
      "list_all dec_wf [ps_peak_cache_hit p, ps_peak_cache_miss p, ps_peak_output p, ps_off_peak_cache_hit p,
         ps_off_peak_cache_miss p, ps_off_peak_output p]"
    and u: "valid_reported_usage u" and t: "is_aware sent"
  shows "\<exists>c. calculate_cost rt p u sent = Some c \<and> valid_cost_estimate c
    \<and> cost_amount (band_prices p (ce_price_band c = Peak)) u = Some (ce_amount c)
    \<and> (ce_price_band c = Peak \<longleftrightarrow> weekday (to_instant sent div usec_per_day) < 5
        \<and> (\<exists>(a, b) \<in> set (ps_peak_windows_utc p). \<exists>x y. rt a = Some (NaiveTime x) \<and> rt b = Some (NaiveTime y)
             \<and> x \<le> to_instant sent mod usec_per_day \<and> to_instant sent mod usec_per_day < y))"
proof -
  define peak where "peak \<longleftrightarrow> weekday (to_instant sent div usec_per_day) < 5
        \<and> (\<exists>(a, b) \<in> set (ps_peak_windows_utc p). \<exists>x y. rt a = Some (NaiveTime x) \<and> rt b = Some (NaiveTime y)
             \<and> x \<le> to_instant sent mod usec_per_day \<and> to_instant sent mod usec_per_day < y)"
  have "is_peak rt p (to_instant sent) = Some peak"
    using in_window_of_naive [of rt "ps_peak_windows_utc p"] p(2)
    by (auto simp: is_peak_def peak_def naive_windows_def)
  moreover have "\<exists>h m c. band_prices p peak = (h, m, c) \<and> dec_nonneg h \<and> dec_nonneg m \<and> dec_nonneg c"
    using p(1,3) by (simp add: valid_price_snapshot_def valid_price_iff band_prices_def)
  then obtain d where "cost_amount (band_prices p peak) u = Some d" "dec_nonneg d"
    using cost_amount_nonneg [OF u] by metis
  ultimately show ?thesis
    using t p(1) dec_nonneg_finite [of d] unfolding peak_def [symmetric]
    by (auto simp: calculate_cost_def Let_def valid_cost_estimate_def valid_price_snapshot_def)
qed

definition sample_time :: "string \<Rightarrow> py_time option" where
  "sample_time s = (if s = ''01:00'' then Some (NaiveTime usec_per_hour)
     else if s = ''04:00'' then Some (NaiveTime (4 * usec_per_hour)) else None)"

theorem calculated_cost_valid_witness:
  "\<exists>c. calculate_cost sample_time sample_prices sample_usage (Aware (2 * usec_per_hour) 0) = Some c
     \<and> ce_price_band c = Peak \<and> valid_cost_estimate c"
proof -
  have h: "valid_price_snapshot sample_time sample_prices" "naive_windows sample_time sample_prices"
    "list_all dec_wf [ps_peak_cache_hit sample_prices, ps_peak_cache_miss sample_prices, ps_peak_output sample_prices,
       ps_off_peak_cache_hit sample_prices, ps_off_peak_cache_miss sample_prices, ps_off_peak_output sample_prices]"
    "valid_reported_usage sample_usage" "is_aware (Aware (2 * usec_per_hour) 0)"
    by (code_simp, simp add: naive_windows_def sample_prices_def sample_time_def, code_simp+)
  have "\<exists>(a, b) \<in> set (ps_peak_windows_utc sample_prices). \<exists>x y. sample_time a = Some (NaiveTime x)
      \<and> sample_time b = Some (NaiveTime y) \<and> x \<le> to_instant (Aware (2 * usec_per_hour) 0) mod usec_per_day
      \<and> to_instant (Aware (2 * usec_per_hour) 0) mod usec_per_day < y"
    "weekday (to_instant (Aware (2 * usec_per_hour) 0) div usec_per_day) < 5"
    by (simp_all add: sample_prices_def sample_time_def to_instant_def weekday_def usec_defs)
  then show ?thesis using calculated_cost_valid [OF h] by blast
qed

end
