(* ===== verification/Retry.thy ===== *)
theory Retry
  imports Pricing
begin

text \<open>
  The bounded retry policy of model transport attempts (\<open>src/commerce_agent/model/_retry.py\<close>).
  Attempts count from 1; \<open>read_decimal\<close> is Decimal(s) (None where it raises InvalidOperation). A
  decision is None when a comparison of Decimals raises, which a quiet NaN does.
\<close>

record retry_decision =
  rd_should_retry :: bool
  rd_delay_seconds :: decimal

record retry_policy =
  rp_base_delay_seconds :: decimal
  rp_maximum_delay_seconds :: decimal
  rp_maximum_attempts :: nat

definition valid_retry_policy :: "retry_policy \<Rightarrow> bool" where
  "valid_retry_policy p \<longleftrightarrow>
     dec_finite (rp_base_delay_seconds p) \<and> dec_lt dec_zero (rp_base_delay_seconds p)
     \<and> dec_finite (rp_maximum_delay_seconds p) \<and> dec_lt dec_zero (rp_maximum_delay_seconds p)
     \<and> 1 \<le> rp_maximum_attempts p \<and> rp_maximum_attempts p \<le> 3"

text \<open>Python's \<open>max\<close> and \<open>min\<close> of two values keep the first one unless the second is strictly beyond it.\<close>

definition py_max :: "decimal \<Rightarrow> decimal \<Rightarrow> decimal option" where
  "py_max a b = map_option (\<lambda>beyond. if beyond then b else a) (dec_cmp (<) a b)"

definition py_min :: "decimal \<Rightarrow> decimal \<Rightarrow> decimal option" where
  "py_min a b = map_option (\<lambda>beyond. if beyond then b else a) (dec_cmp (<) b a)"

text \<open>The delay the server asked for: a finite decimal that is not negative.\<close>

definition server_delay :: "(string \<Rightarrow> decimal option) \<Rightarrow> string option \<Rightarrow> decimal option option" where
  "server_delay read_decimal retry_after = (case retry_after of
       None \<Rightarrow> Some None
     | Some s \<Rightarrow>
         (let parsed = (case read_decimal s of None \<Rightarrow> dec_of_int (-1) | Some d \<Rightarrow> d) in
          map_option (\<lambda>nonneg. if nonneg \<and> dec_finite parsed then Some parsed else None)
            (dec_cmp (\<le>) dec_zero parsed)))"

definition backoff_delay :: "retry_policy \<Rightarrow> nat \<Rightarrow> decimal \<Rightarrow> decimal option" where
  "backoff_delay p attempt_number jitter =
     Option.bind (dec_mul (rp_base_delay_seconds p) (dec_of_int (2 ^ (attempt_number - 1)))) (\<lambda>delay.
     Option.bind (py_max dec_zero jitter) (dec_add delay))"

definition retry_decision ::
    "(string \<Rightarrow> decimal option) \<Rightarrow> retry_policy \<Rightarrow> nat \<Rightarrow> string option \<Rightarrow> decimal \<Rightarrow> retry_decision option" where
  "retry_decision read_decimal p attempt_number retry_after jitter =
     (if rp_maximum_attempts p \<le> attempt_number
      then Some \<lparr>rd_should_retry = False, rd_delay_seconds = dec_zero\<rparr>
      else Option.bind (server_delay read_decimal retry_after) (\<lambda>asked.
        Option.bind (case asked of Some d \<Rightarrow> Some d | None \<Rightarrow> backoff_delay p attempt_number jitter) (\<lambda>delay.
        map_option (\<lambda>d. \<lparr>rd_should_retry = True, rd_delay_seconds = d\<rparr>)
          (py_min delay (rp_maximum_delay_seconds p)))))"

subsection \<open>Bounds\<close>

lemma dec_cmp_finite: "dec_finite a \<Longrightarrow> dec_finite b \<Longrightarrow> \<exists>r. dec_cmp R a b = Some r"
  by (cases a; cases b) (auto simp: dec_cmp_def Let_def)

lemma dec_cmp_lt_iff: "dec_cmp (<) a b = Some r \<Longrightarrow> r = dec_lt a b"
  by (cases r) (simp_all add: dec_lt_def)

lemma dec_le_refl: "dec_finite a \<Longrightarrow> dec_le a a"
  by (cases a) (simp_all add: dec_le_Dec)

lemma dec_not_lt: "dec_finite a \<Longrightarrow> dec_finite b \<Longrightarrow> \<not> dec_lt b a \<Longrightarrow> dec_le a b"
  using dec_le_total by blast

lemma dec_lt_nonneg: "dec_wf d \<Longrightarrow> dec_finite d \<Longrightarrow> dec_lt dec_zero d \<Longrightarrow> dec_nonneg d"
  by (cases d) (auto simp: dec_wf_def dec_lt_Dec dec_zero_def scaled_def signed_def zero_less_mult_iff mult_less_0_iff)

lemma dec_zero_nonneg [simp]: "dec_nonneg dec_zero" "dec_finite dec_zero"
  by (simp_all add: dec_zero_def)

lemma dec_le_nonneg: "dec_wf d \<Longrightarrow> dec_finite d \<Longrightarrow> dec_le dec_zero d \<Longrightarrow> dec_nonneg d"
  by (simp add: valid_price_def valid_price_iff [symmetric])

lemma py_max_nonneg:
  assumes "dec_finite j" "dec_wf j"
  obtains d where "py_max dec_zero j = Some d" "dec_nonneg d"
proof -
  obtain r where r: "dec_cmp (<) dec_zero j = Some r" using dec_cmp_finite assms by fastforce
  show ?thesis using assms dec_cmp_lt_iff [OF r] dec_lt_nonneg
    by (intro that [of "if r then j else dec_zero"]) (auto simp: py_max_def r)
qed

lemma py_min_bound:
  assumes "dec_finite a" "dec_finite b"
  obtains d where "py_min a b = Some d" "dec_le d b" "d = a \<or> d = b"
proof -
  obtain r where r: "dec_cmp (<) b a = Some r" using dec_cmp_finite assms by blast
  show ?thesis using assms dec_cmp_lt_iff [OF r] dec_not_lt dec_le_refl
    by (intro that [of "if r then b else a"]) (auto simp: py_min_def r)
qed

lemma server_delay_ok:
  assumes "\<forall>s d. retry_after = Some s \<longrightarrow> rd s = Some d \<longrightarrow> d \<noteq> DNaN \<and> dec_wf d"
  obtains "server_delay rd retry_after = Some None"
    | d where "server_delay rd retry_after = Some (Some d)" "dec_nonneg d"
proof (cases retry_after)
  case None
  then show ?thesis using that by (simp add: server_delay_def)
next
  case (Some s)
  define x where "x = (case rd s of None \<Rightarrow> dec_of_int (-1) | Some d \<Rightarrow> d)"
  have x: "x \<noteq> DNaN" "dec_wf x" using assms Some by (auto simp: x_def dec_of_int_def dec_wf_def split: option.splits)
  then obtain r where r: "dec_cmp (\<le>) dec_zero x = Some r"
    by (cases x) (auto simp: dec_cmp_def dec_zero_def Let_def)
  have "dec_nonneg x" if "r" "dec_finite x" using that r x dec_le_nonneg by (simp add: dec_le_def)
  moreover have "server_delay rd retry_after = Some (if r \<and> dec_finite x then Some x else None)"
    using Some r by (simp add: server_delay_def Let_def x_def [symmetric])
  ultimately show ?thesis using that by (cases "r \<and> dec_finite x") auto
qed

lemma backoff_delay_ok:
  assumes "valid_retry_policy p" "dec_wf (rp_base_delay_seconds p)" "dec_finite j" "dec_wf j"
  obtains d where "backoff_delay p n j = Some d" "dec_nonneg d"
proof -
  have "dec_nonneg (rp_base_delay_seconds p)"
    using assms dec_lt_nonneg by (auto simp: valid_retry_policy_def)
  then obtain m where m: "dec_mul (rp_base_delay_seconds p) (dec_of_int (2 ^ (n - 1))) = Some m" "dec_nonneg m"
    using dec_mul_nonneg [OF _ dec_nonneg_of_int [of "2 ^ (n - 1)"]] by auto
  obtain x where x: "py_max dec_zero j = Some x" "dec_nonneg x" using py_max_nonneg [OF assms(3,4)] .
  obtain d where d: "dec_add m x = Some d" "dec_nonneg d" using dec_add_nonneg [OF m(2) x(2)] .
  show ?thesis using that [of d] d m(1) by (simp add: backoff_delay_def x)
qed

definition good_retry :: "(string \<Rightarrow> decimal option) \<Rightarrow> retry_policy \<Rightarrow> string option \<Rightarrow> decimal \<Rightarrow> bool" where
  "good_retry rd p retry_after jitter \<longleftrightarrow>
     valid_retry_policy p \<and> dec_wf (rp_base_delay_seconds p) \<and> dec_wf (rp_maximum_delay_seconds p)
     \<and> dec_finite jitter \<and> dec_wf jitter
     \<and> (\<forall>s. retry_after = Some s \<longrightarrow> rd s \<noteq> Some DNaN \<and> (\<forall>d. rd s = Some d \<longrightarrow> dec_wf d))"

lemma retry_decision_ok:
  assumes g: "good_retry rd p retry_after jitter"
  obtains d where "retry_decision rd p n retry_after jitter = Some \<lparr>rd_should_retry = (n < rp_maximum_attempts p),
     rd_delay_seconds = d\<rparr>" "dec_nonneg d" "dec_le d (rp_maximum_delay_seconds p)"
proof (cases "rp_maximum_attempts p \<le> n")
  case True
  have "dec_nonneg (rp_maximum_delay_seconds p)" "dec_le dec_zero (rp_maximum_delay_seconds p)"
    using g dec_lt_nonneg dec_nonneg_finite by (auto simp: good_retry_def valid_retry_policy_def)
  then show ?thesis using True by (intro that [of dec_zero]) (simp_all add: retry_decision_def)
next
  case False
  have v: "valid_retry_policy p" "dec_wf (rp_base_delay_seconds p)" "dec_finite jitter" "dec_wf jitter"
    and mx: "dec_nonneg (rp_maximum_delay_seconds p)" "dec_finite (rp_maximum_delay_seconds p)"
    using g dec_lt_nonneg by (auto simp: good_retry_def valid_retry_policy_def)
  obtain asked delay where a: "server_delay rd retry_after = Some asked"
    "(case asked of Some d \<Rightarrow> Some d | None \<Rightarrow> backoff_delay p n jitter) = Some delay" "dec_nonneg delay"
  proof -
    have s: "\<forall>s d. retry_after = Some s \<longrightarrow> rd s = Some d \<longrightarrow> d \<noteq> DNaN \<and> dec_wf d"
      using g by (auto simp: good_retry_def)
    obtain b where b: "backoff_delay p n jitter = Some b" "dec_nonneg b" using backoff_delay_ok [OF v] .
    show ?thesis using server_delay_ok [OF s] b that by (metis option.case)
  qed
  obtain d where d: "py_min delay (rp_maximum_delay_seconds p) = Some d" "dec_le d (rp_maximum_delay_seconds p)"
    "d = delay \<or> d = rp_maximum_delay_seconds p"
    using py_min_bound a(3) mx(2) dec_nonneg_finite by blast
  show ?thesis using that [of d] d mx a False by (auto simp: retry_decision_def)
qed

lemma retry_decision_nan: "n < rp_maximum_attempts p \<Longrightarrow> rd s = Some DNaN \<Longrightarrow> retry_decision rd p n (Some s) j = None"
  by (simp add: retry_decision_def server_delay_def dec_cmp_def dec_zero_def)

text \<open>
  A retry is allowed exactly while attempts remain, and the delay before it is a decimal between zero
  and the maximum of the policy, whatever finite jitter is drawn and whatever the server asks for, unless
  its Retry-After reads as NaN.
\<close>

theorem retry_delay_bounded:
  assumes "good_retry rd p retry_after jitter"
  shows "\<exists>d. retry_decision rd p n retry_after jitter = Some d
    \<and> (rd_should_retry d \<longleftrightarrow> n < rp_maximum_attempts p)
    \<and> dec_nonneg (rd_delay_seconds d) \<and> dec_le (rd_delay_seconds d) (rp_maximum_delay_seconds p)"
proof -
  obtain d where "retry_decision rd p n retry_after jitter = Some \<lparr>rd_should_retry = (n < rp_maximum_attempts p),
     rd_delay_seconds = d\<rparr>" "dec_nonneg d" "dec_le d (rp_maximum_delay_seconds p)"
    using retry_decision_ok [OF assms] .
  then show ?thesis by simp
qed

definition sample_policy :: retry_policy where
  "sample_policy = \<lparr>rp_base_delay_seconds = Dec False 5 (-1), rp_maximum_delay_seconds = Dec False 30 0,
     rp_maximum_attempts = 3\<rparr>"

lemma sample_policy_good: "good_retry (\<lambda>s. if s = ''60'' then Some (Dec False 60 0) else None) sample_policy
    (Some ''60'') (Dec False 1 (-1))"
  by (simp add: good_retry_def) code_simp

theorem retry_delay_bounded_witness:
  "\<exists>d. retry_decision (\<lambda>s. if s = ''60'' then Some (Dec False 60 0) else None) sample_policy 2 (Some ''60'')
      (Dec False 1 (-1)) = Some d \<and> rd_should_retry d \<and> dec_le (rd_delay_seconds d) (Dec False 30 0)"
  using retry_delay_bounded [OF sample_policy_good, of 2] by (auto simp: sample_policy_def)

end
