(* ===== verification/Turn_Store.thy ===== *)
theory Turn_Store
  imports Model_Contracts
begin

text \<open>
  The process-local store of provider-private assistant turns
  (\<open>src/commerce_agent/model/_turn_store.py\<close>): save, resolve with a sliding idle limit of 24 hours
  under a fixed limit of seven days, and deletion of one attempt. \<open>loads\<close> is json.loads on the
  documents without floats that tool calls are, \<open>fresh\<close> the value of uuid4(), \<open>now\<close> the clock
  reading. The dict of turns is an association list in insertion order.
\<close>

definition idle_ttl :: int where "idle_ttl = 24 * usec_per_hour"
definition absolute_ttl :: int where "absolute_ttl = 7 * usec_per_day"

record private_provider_turn =
  pv_scope_digest :: string
  pv_attempt_id :: uuid
  pv_sequence :: int
  pv_model :: string
  pv_content :: "string option"
  pv_reasoning_content :: "string option"
  pv_tool_calls_json :: string
  pv_payload_sha256 :: string
  pv_expected_tool_call_ids :: "string list"
  pv_token_weight :: int
  pv_created_at :: instant
  pv_last_used_at :: instant
  pv_absolute_expires_at :: instant

type_synonym json_loads = "string \<Rightarrow> json option"

definition opt_text_ok :: "nat \<Rightarrow> string option \<Rightarrow> bool" where
  "opt_text_ok n s = (case s of None \<Rightarrow> True | Some t \<Rightarrow> length t \<le> n)"

text \<open>\<open>validate_tool_calls_json\<close>: canonical text of a list.\<close>

definition tool_calls_of :: "json_loads \<Rightarrow> string \<Rightarrow> json list option" where
  "tool_calls_of loads s = (case loads s of
       Some (JList cs) \<Rightarrow> if dumps (JList cs) = s then Some cs else None
     | _ \<Rightarrow> None)"

definition call_id_of :: "json \<Rightarrow> string option" where
  "call_id_of c = (case c of
       JObj kvs \<Rightarrow> (case map_of kvs ''id'' of Some (JStr s) \<Rightarrow> Some s | _ \<Rightarrow> None)
     | _ \<Rightarrow> None)"

definition valid_private_provider_turn :: "json_loads \<Rightarrow> private_provider_turn \<Rightarrow> bool" where
  "valid_private_provider_turn loads t \<longleftrightarrow>
     hex64 (pv_scope_digest t) \<and> 0 \<le> pv_sequence t \<and> len_ok 1 256 (pv_model t)
     \<and> opt_text_ok 262144 (pv_content t) \<and> opt_text_ok 1048576 (pv_reasoning_content t)
     \<and> length (pv_tool_calls_json t) \<le> 262144 \<and> hex64 (pv_payload_sha256 t)
     \<and> length (pv_expected_tool_call_ids t) \<le> 8 \<and> 0 \<le> pv_token_weight t
     \<and> pv_created_at t \<le> pv_last_used_at t
     \<and> pv_absolute_expires_at t = pv_created_at t + absolute_ttl
     \<and> distinct (pv_expected_tool_call_ids t)
     \<and> (case tool_calls_of loads (pv_tool_calls_json t) of
          None \<Rightarrow> False
        | Some cs \<Rightarrow> map call_id_of cs = map Some (pv_expected_tool_call_ids t))"

definition text_json :: "string option \<Rightarrow> json" where
  "text_json s = (case s of None \<Rightarrow> JNull | Some t \<Rightarrow> JStr t)"

definition payload_sha256 :: "(bytes \<Rightarrow> string) \<Rightarrow> json_loads \<Rightarrow> private_provider_turn \<Rightarrow> string option" where
  "payload_sha256 sha loads t = map_option (\<lambda>calls.
     sha (utf8 (dumps (JObj [(''content'', text_json (pv_content t)),
       (''reasoning_content'', text_json (pv_reasoning_content t)), (''tool_calls'', calls)]))))
     (loads (pv_tool_calls_json t))"

subsection \<open>The store\<close>

datatype turn_error = ModelStateError string | TurnContractError

type_synonym turn_store = "(uuid \<times> private_provider_turn) list"

record attempt_ref =
  at_scope_digest :: string
  at_attempt_id :: uuid

definition same_slot :: "private_provider_turn \<Rightarrow> private_provider_turn \<Rightarrow> bool" where
  "same_slot a b \<longleftrightarrow> pv_scope_digest a = pv_scope_digest b \<and> pv_attempt_id a = pv_attempt_id b
     \<and> pv_sequence a = pv_sequence b"

definition turn_ref :: "uuid \<Rightarrow> private_provider_turn \<Rightarrow> provider_turn_ref" where
  "turn_ref i t =
     \<lparr>tf_turn_id = i, tf_scope_digest = pv_scope_digest t, tf_attempt_id = pv_attempt_id t,
      tf_sequence = pv_sequence t, tf_payload_sha256 = pv_payload_sha256 t,
      tf_expected_tool_call_ids = pv_expected_tool_call_ids t, tf_token_weight = pv_token_weight t,
      tf_expires_at = Aware (pv_absolute_expires_at t) 0\<rparr>"

fun put_turn :: "uuid \<Rightarrow> private_provider_turn \<Rightarrow> turn_store \<Rightarrow> turn_store" where
  "put_turn i t [] = [(i, t)]"
| "put_turn i t ((j, u) # st) = (if i = j then (j, t) # st else (j, u) # put_turn i t st)"

text \<open>The turn is stored before its reference is built, also when that reference is refused.\<close>

definition save_turn ::
    "(bytes \<Rightarrow> string) \<Rightarrow> json_loads \<Rightarrow> uuid \<Rightarrow> private_provider_turn \<Rightarrow> turn_store
       \<Rightarrow> (turn_error + provider_turn_ref) \<times> turn_store" where
  "save_turn sha loads fresh t st =
     (if payload_sha256 sha loads t \<noteq> Some (pv_payload_sha256 t)
      then (Inl (ModelStateError ''state_digest_mismatch''), st)
      else if list_ex (\<lambda>(i, u). same_slot u t) st
      then (Inl (ModelStateError ''state_sequence_duplicate''), st)
      else (if valid_provider_turn_ref (turn_ref fresh t) then Inr (turn_ref fresh t)
            else Inl TurnContractError,
            put_turn fresh t st))"

definition bindings_of :: "provider_turn_ref \<Rightarrow> private_provider_turn \<Rightarrow> bool" where
  "bindings_of r t \<longleftrightarrow>
     tf_scope_digest r = pv_scope_digest t \<and> tf_attempt_id r = pv_attempt_id t
     \<and> tf_sequence r = pv_sequence t \<and> tf_payload_sha256 r = pv_payload_sha256 t
     \<and> tf_expected_tool_call_ids r = pv_expected_tool_call_ids t
     \<and> tf_token_weight r = pv_token_weight t \<and> to_instant (tf_expires_at r) = pv_absolute_expires_at t"

definition resolve_turn ::
    "instant \<Rightarrow> provider_turn_ref \<Rightarrow> turn_store \<Rightarrow> (turn_error + private_provider_turn) \<times> turn_store" where
  "resolve_turn now r st = (case map_of st (tf_turn_id r) of
       None \<Rightarrow> (Inl (ModelStateError ''state_not_found''), st)
     | Some t \<Rightarrow>
         if \<not> bindings_of r t then (Inl (ModelStateError ''state_binding_mismatch''), st)
         else if pv_absolute_expires_at t \<le> now \<or> idle_ttl < now - pv_last_used_at t
         then (Inl (ModelStateError ''state_expired''), st)
         else let renewed = t\<lparr>pv_last_used_at := now\<rparr> in (Inr renewed, put_turn (tf_turn_id r) renewed st))"

definition delete_attempt :: "attempt_ref \<Rightarrow> turn_store \<Rightarrow> turn_store" where
  "delete_attempt a st = filter (\<lambda>(i, t). \<not> (pv_scope_digest t = at_scope_digest a
     \<and> pv_attempt_id t = at_attempt_id a)) st"

subsection \<open>Lemmas on the dict\<close>

lemma put_turn_lookup [simp]: "map_of (put_turn i t st) j = (if j = i then Some t else map_of st j)"
  by (induction st) auto

lemma put_turn_keys: "fst ` set (put_turn i t st) = insert i (fst ` set st)"
  by (induction i t st rule: put_turn.induct) (auto simp: insert_commute)

lemma put_turn_distinct: "distinct (map fst st) \<Longrightarrow> distinct (map fst (put_turn i t st))"
  by (induction i t st rule: put_turn.induct) (auto simp: put_turn_keys)

lemma put_turn_mem: "x \<in> set (put_turn i t st) \<Longrightarrow> x = (i, t) \<or> x \<in> set st"
  by (induction st) (auto split: if_splits)

lemma put_turn_mem_distinct:
  "distinct (map fst st) \<Longrightarrow> x \<in> set (put_turn i t st) \<Longrightarrow> x = (i, t) \<or> x \<in> set st \<and> fst x \<noteq> i"
proof (induction st)
  case (Cons y st)
  obtain j u where y: "y = (j, u)" by (cases y)
  have nin: "j \<notin> fst ` set st" and d: "distinct (map fst st)" using Cons.prems(1) y by auto
  show ?case
  proof (cases "i = j")
    case True
    then show ?thesis using Cons.prems(2) y nin by (auto intro: rev_image_eqI)
  next
    case False
    then show ?thesis using Cons.prems(2) y Cons.IH [OF d] by auto
  qed
qed simp

lemma delete_attempt_lookup:
  "distinct (map fst st) \<Longrightarrow> map_of (delete_attempt a st) i = (case map_of st i of
       None \<Rightarrow> None
     | Some t \<Rightarrow> if pv_scope_digest t = at_scope_digest a \<and> pv_attempt_id t = at_attempt_id a then None else Some t)"
  by (induction st) (auto simp: delete_attempt_def rev_image_eqI split: option.splits dest!: map_of_SomeD)

subsection \<open>The invariant\<close>

text \<open>
  Identifiers are unique, no two turns fill one slot of an attempt, every turn's digest is the
  digest of its payload, and its hard limit is seven days after its creation.
\<close>

definition turn_inv :: "(bytes \<Rightarrow> string) \<Rightarrow> json_loads \<Rightarrow> turn_store \<Rightarrow> bool" where
  "turn_inv sha loads st \<longleftrightarrow>
     distinct (map fst st)
     \<and> (\<forall>i t j u. (i, t) \<in> set st \<longrightarrow> (j, u) \<in> set st \<longrightarrow> same_slot t u \<longrightarrow> i = j)
     \<and> (\<forall>i t. (i, t) \<in> set st \<longrightarrow> payload_sha256 sha loads t = Some (pv_payload_sha256 t)
          \<and> pv_absolute_expires_at t = pv_created_at t + absolute_ttl)"

inductive turn_step :: "(bytes \<Rightarrow> string) \<Rightarrow> json_loads \<Rightarrow> turn_store \<Rightarrow> turn_store \<Rightarrow> bool" for sha loads where
  Save: "valid_private_provider_turn loads t \<Longrightarrow> fresh \<notin> fst ` set st \<Longrightarrow>
     save_turn sha loads fresh t st = (res, st') \<Longrightarrow> turn_step sha loads st st'"
| Resolve: "resolve_turn now r st = (res', st') \<Longrightarrow> turn_step sha loads st st'"
| Delete: "turn_step sha loads st (delete_attempt a st)"

inductive_cases turn_stepE: "turn_step sha loads st st'"

lemma turn_inv_Nil: "turn_inv sha loads []"
  by (simp add: turn_inv_def)

lemma save_turn_inv:
  assumes "turn_inv sha loads st" "valid_private_provider_turn loads t" "fresh \<notin> fst ` set st"
    and "save_turn sha loads fresh t st = (res, st')"
  shows "turn_inv sha loads st'"
proof (cases "st' = st")
  case False
  then have st': "st' = put_turn fresh t st" and p: "payload_sha256 sha loads t = Some (pv_payload_sha256 t)"
    and slot: "\<forall>(i, u) \<in> set st. \<not> same_slot u t"
    using assms(4) by (auto simp: save_turn_def list_ex_iff split: if_splits)
  have abs: "pv_absolute_expires_at t = pv_created_at t + absolute_ttl"
    using assms(2) by (simp add: valid_private_provider_turn_def)
  have sym: "same_slot a b \<Longrightarrow> same_slot b a" for a b by (auto simp: same_slot_def)
  have d: "distinct (map fst st)" using assms(1) by (simp add: turn_inv_def)
  show ?thesis
    unfolding st' turn_inv_def
  proof (intro conjI allI impI)
    show "distinct (map fst (put_turn fresh t st))" by (rule put_turn_distinct [OF d])
    fix i a j b assume m: "(i, a) \<in> set (put_turn fresh t st)" "(j, b) \<in> set (put_turn fresh t st)" "same_slot a b"
    from put_turn_mem [OF m(1)] put_turn_mem [OF m(2)] show "i = j"
      using slot sym [OF m(3)] m(3) assms(1) by (auto simp: turn_inv_def)
  next
    fix i a assume "(i, a) \<in> set (put_turn fresh t st)"
    from put_turn_mem [OF this] show "payload_sha256 sha loads a = Some (pv_payload_sha256 a)"
      "pv_absolute_expires_at a = pv_created_at a + absolute_ttl"
      using p abs assms(1) by (auto simp: turn_inv_def)
  qed
qed (use assms in simp)

lemma resolve_turn_inv:
  assumes inv: "turn_inv sha loads st" and r: "resolve_turn now r st = (res, st')"
  shows "turn_inv sha loads st'"
proof (cases "st' = st")
  case False
  then obtain t where t: "map_of st (tf_turn_id r) = Some t"
    and st': "st' = put_turn (tf_turn_id r) (t\<lparr>pv_last_used_at := now\<rparr>) st"
    using r by (auto simp: resolve_turn_def Let_def split: option.splits if_splits)
  have d: "distinct (map fst st)" using inv by (simp add: turn_inv_def)
  have mem: "(tf_turn_id r, t) \<in> set st" by (rule map_of_SomeD [OF t])
  have slot: "same_slot (t\<lparr>pv_last_used_at := now\<rparr>) u = same_slot t u"
    "same_slot u (t\<lparr>pv_last_used_at := now\<rparr>) = same_slot u t" for u by (simp_all add: same_slot_def)
  show ?thesis
    unfolding st' turn_inv_def
  proof (intro conjI allI impI)
    show "distinct (map fst (put_turn (tf_turn_id r) (t\<lparr>pv_last_used_at := now\<rparr>) st))"
      by (rule put_turn_distinct [OF d])
    fix i a j b
    assume m: "(i, a) \<in> set (put_turn (tf_turn_id r) (t\<lparr>pv_last_used_at := now\<rparr>) st)"
      "(j, b) \<in> set (put_turn (tf_turn_id r) (t\<lparr>pv_last_used_at := now\<rparr>) st)" "same_slot a b"
    have key: "k = l" if "(k, c) \<in> set st" "(l, e) \<in> set st" "same_slot c e" for k c l e
      using inv that unfolding turn_inv_def by blast
    from put_turn_mem [OF m(1)] put_turn_mem [OF m(2)] show "i = j"
      using m(3) mem slot key by (elim disjE) auto
  next
    fix i a assume "(i, a) \<in> set (put_turn (tf_turn_id r) (t\<lparr>pv_last_used_at := now\<rparr>) st)"
    from put_turn_mem [OF this] mem inv show "payload_sha256 sha loads a = Some (pv_payload_sha256 a)"
      "pv_absolute_expires_at a = pv_created_at a + absolute_ttl"
      by (auto simp: turn_inv_def payload_sha256_def)
  qed
qed (use inv in simp)

lemma delete_attempt_inv: "turn_inv sha loads st \<Longrightarrow> turn_inv sha loads (delete_attempt a st)"
  by (auto simp: turn_inv_def delete_attempt_def distinct_map_filter)

lemma turn_step_inv: "turn_step sha loads st st' \<Longrightarrow> turn_inv sha loads st \<Longrightarrow> turn_inv sha loads st'"
  by (erule turn_stepE) (auto intro: save_turn_inv resolve_turn_inv delete_attempt_inv)

lemma turn_steps_inv: "rtranclp (turn_step sha loads) [] st \<Longrightarrow> turn_inv sha loads st"
  by (induction rule: rtranclp_induct) (auto intro: turn_inv_Nil turn_step_inv)

subsection \<open>Properties\<close>

lemma save_turn_ok:
  "save_turn sha loads fresh t st = (Inr r, st') \<Longrightarrow>
     r = turn_ref fresh t \<and> st' = put_turn fresh t st \<and> payload_sha256 sha loads t = Some (pv_payload_sha256 t)"
  by (auto simp: save_turn_def split: if_splits)

lemma bindings_turn_ref [simp]: "bindings_of (turn_ref i t) t"
  by (simp add: bindings_of_def turn_ref_def to_instant_def)

lemma turn_ref_id [simp]: "tf_turn_id (turn_ref i t) = i"
  by (simp add: turn_ref_def)

lemma ttl_one: "\<not> absolute_ttl \<le> 1" "\<not> idle_ttl < 1"
  by code_simp+

text \<open>The turn of the examples: one tool call, its identifier a parameter.\<close>

definition example_calls :: "string \<Rightarrow> json" where
  "example_calls i = JList [JObj [(''id'', JStr i)]]"

definition example_loads :: json_loads where
  "example_loads s = (if s = dumps (example_calls ''c'') then Some (example_calls ''c'')
     else if s = dumps (example_calls '''') then Some (example_calls '''') else None)"

definition example_turn :: "string \<Rightarrow> private_provider_turn" where
  "example_turn i = \<lparr>pv_scope_digest = replicate 64 (CHR ''a''), pv_attempt_id = 7, pv_sequence = 0,
     pv_model = ''m'', pv_content = None, pv_reasoning_content = None,
     pv_tool_calls_json = dumps (example_calls i), pv_payload_sha256 = replicate 64 (CHR ''b''),
     pv_expected_tool_call_ids = [i], pv_token_weight = 1, pv_created_at = 0, pv_last_used_at = 0,
     pv_absolute_expires_at = absolute_ttl\<rparr>"

abbreviation "example_sha \<equiv> (\<lambda>_. replicate 64 (CHR ''b''))"

text \<open>
  A turn just saved resolves through the reference that save returned, to the same turn with
  its idle clock renewed, exactly until its hard limit or 24 idle hours have passed; afterwards the
  answer is state_expired and the store is unchanged.
\<close>

theorem saved_turn_resolves:
  assumes "save_turn sha loads fresh t st = (Inr r, st')"
  shows "resolve_turn now r st' =
    (if pv_absolute_expires_at t \<le> now \<or> idle_ttl < now - pv_last_used_at t
     then (Inl (ModelStateError ''state_expired''), st')
     else (Inr (t\<lparr>pv_last_used_at := now\<rparr>), put_turn fresh (t\<lparr>pv_last_used_at := now\<rparr>) st'))"
  using save_turn_ok [OF assms] by (simp add: resolve_turn_def Let_def)

theorem saved_turn_resolves_witness:
  "fst (resolve_turn 1 (turn_ref 3 (example_turn ''c'')) (put_turn 3 (example_turn ''c'') [])) =
     Inr ((example_turn ''c'')\<lparr>pv_last_used_at := 1\<rparr>)
   \<and> fst (resolve_turn absolute_ttl (turn_ref 3 (example_turn ''c'')) (put_turn 3 (example_turn ''c'') [])) =
     Inl (ModelStateError ''state_expired'')"
proof -
  have s: "save_turn example_sha example_loads 3 (example_turn ''c'') [] =
      (Inr (turn_ref 3 (example_turn ''c'')), put_turn 3 (example_turn ''c'') [])" by code_simp
  have t: "pv_absolute_expires_at (example_turn ''c'') = absolute_ttl" "pv_last_used_at (example_turn ''c'') = 0"
    by (simp_all add: example_turn_def)
  show ?thesis
    using saved_turn_resolves [OF s, of 1] saved_turn_resolves [OF s, of absolute_ttl] t ttl_one
    by simp
qed

text \<open>
  In every store reached by saves, resolves and deletions, a reference that resolves is bound to
  the very turn it names: scope, attempt, sequence and call identifiers agree, the payload hashes to
  the digest of the reference, and fewer than seven days have passed since the turn was created.
\<close>

theorem resolved_turn_authentic:
  assumes "rtranclp (turn_step sha loads) [] st"
    and "resolve_turn now r st = (Inr t, st')"
  shows "payload_sha256 sha loads t = Some (tf_payload_sha256 r)
    \<and> pv_scope_digest t = tf_scope_digest r \<and> pv_attempt_id t = tf_attempt_id r
    \<and> pv_sequence t = tf_sequence r \<and> pv_expected_tool_call_ids t = tf_expected_tool_call_ids r
    \<and> now < pv_created_at t + absolute_ttl \<and> pv_last_used_at t = now"
proof -
  obtain u where u: "map_of st (tf_turn_id r) = Some u" and b: "bindings_of r u"
    and e: "now < pv_absolute_expires_at u" and t: "t = u\<lparr>pv_last_used_at := now\<rparr>"
    using assms(2) by (auto simp: resolve_turn_def Let_def split: option.splits if_splits)
  have "payload_sha256 sha loads u = Some (pv_payload_sha256 u)
    \<and> pv_absolute_expires_at u = pv_created_at u + absolute_ttl"
    using turn_steps_inv [OF assms(1)] map_of_SomeD [OF u] by (auto simp: turn_inv_def)
  then show ?thesis using b e t by (auto simp: bindings_of_def payload_sha256_def)
qed

lemma example_turn_saved:
  "rtranclp (turn_step example_sha example_loads) [] (put_turn 3 (example_turn ''c'') [])"
proof (rule r_into_rtranclp, rule turn_step.Save)
  have "hex64 (replicate 64 (CHR ''a''))" "hex64 (replicate 64 (CHR ''b''))" by code_simp+
  moreover have "length (dumps (example_calls ''c'')) = 12" by code_simp
  moreover have "call_id_of (JObj [(''id'', JStr ''c'')]) = Some ''c''" by code_simp
  ultimately show "valid_private_provider_turn example_loads (example_turn ''c'')"
    by (simp add: valid_private_provider_turn_def example_turn_def opt_text_ok_def tool_calls_of_def
        example_loads_def len_ok_def) (simp add: example_calls_def)
  show "save_turn example_sha example_loads 3 (example_turn ''c'') [] =
      (Inr (turn_ref 3 (example_turn ''c'')), put_turn 3 (example_turn ''c'') [])" by code_simp
qed simp

theorem resolved_turn_authentic_witness:
  "payload_sha256 example_sha example_loads ((example_turn ''c'')\<lparr>pv_last_used_at := 1\<rparr>) =
     Some (replicate 64 (CHR ''b''))"
proof -
  have "\<exists>st'. resolve_turn 1 (turn_ref 3 (example_turn ''c'')) (put_turn 3 (example_turn ''c'') []) =
      (Inr ((example_turn ''c'')\<lparr>pv_last_used_at := 1\<rparr>), st')"
    by (simp add: resolve_turn_def Let_def) (simp add: example_turn_def ttl_one)
  then obtain st' where "resolve_turn 1 (turn_ref 3 (example_turn ''c'')) (put_turn 3 (example_turn ''c'') []) =
      (Inr ((example_turn ''c'')\<lparr>pv_last_used_at := 1\<rparr>), st')" by blast
  from resolved_turn_authentic [OF example_turn_saved this] show ?thesis
    by (simp add: turn_ref_def example_turn_def)
qed

text \<open>
  Deleting an attempt destroys exactly its turns: in a reachable store a reference resolves after
  the deletion just when it resolved before and is not of the deleted scope and attempt, and then to
  the same turn.
\<close>

theorem delete_attempt_isolated:
  assumes "rtranclp (turn_step sha loads) [] st"
  shows "fst (resolve_turn now r (delete_attempt a st)) = Inr t \<longleftrightarrow>
    fst (resolve_turn now r st) = Inr t
    \<and> (tf_scope_digest r, tf_attempt_id r) \<noteq> (at_scope_digest a, at_attempt_id a)"
proof -
  have d: "distinct (map fst st)" using turn_steps_inv [OF assms] by (simp add: turn_inv_def)
  show ?thesis
    by (auto simp: resolve_turn_def delete_attempt_lookup [OF d] bindings_of_def Let_def split: option.splits)
qed

theorem delete_attempt_isolated_witness:
  "fst (resolve_turn 1 (turn_ref 3 (example_turn ''c''))
     (delete_attempt \<lparr>at_scope_digest = replicate 64 (CHR ''a''), at_attempt_id = 7\<rparr>
       (put_turn 3 (example_turn ''c'') []))) \<noteq> Inr (example_turn ''c'')"
  using delete_attempt_isolated [OF example_turn_saved, of 1 "turn_ref 3 (example_turn ''c'')"
      "\<lparr>at_scope_digest = replicate 64 (CHR ''a''), at_attempt_id = 7\<rparr>" "example_turn ''c''"]
  by (simp add: turn_ref_def example_turn_def)

text \<open>
  A turn whose reference the contract refuses is stored all the same: the save fails, and saving
  the turn again finds its sequence taken.
\<close>

theorem refused_turn_occupies_slot:
  assumes "save_turn sha loads fresh t st = (Inl TurnContractError, st')"
  shows "save_turn sha loads fresh' t st' = (Inl (ModelStateError ''state_sequence_duplicate''), st')"
proof -
  have s: "payload_sha256 sha loads t = Some (pv_payload_sha256 t)" "st' = put_turn fresh t st"
    using assms by (auto simp: save_turn_def split: if_splits)
  have "map_of st' fresh = Some t" by (simp add: s)
  then have "(fresh, t) \<in> set st'" by (rule map_of_SomeD)
  then have "list_ex (\<lambda>(i, u). same_slot u t) st'"
    by (auto simp: list_ex_iff same_slot_def intro!: bexI [of _ "(fresh, t)"])
  then show ?thesis by (simp add: save_turn_def s(1))
qed

theorem refused_turn_occupies_slot_witness:
  "save_turn example_sha example_loads 4 (example_turn '''') (put_turn 3 (example_turn '''') []) =
     (Inl (ModelStateError ''state_sequence_duplicate''), put_turn 3 (example_turn '''') [])"
proof -
  have "save_turn example_sha example_loads 3 (example_turn '''') [] =
      (Inl TurnContractError, put_turn 3 (example_turn '''') [])" by code_simp
  then show ?thesis by (rule refused_turn_occupies_slot)
qed

end
