(* ===== verification/Gateway.thy ===== *)
theory Gateway
  imports Retry Turn_Store
begin

text \<open>
  The provider gateway (\<open>src/commerce_agent/model/gateway.py\<close>): request validation, the wire body
  with replayed turns, parsing of the answer, the serial retry loop and the saved private turn. What
  happens outside is an argument: \<open>exchange\<close> holds the clock readings, guard verdicts, jitter and
  the provider's answer of one attempt; \<open>gateway_externals\<close> holds json.loads, pydantic's int, Decimal,
  time.fromisoformat, the float repr and SHA-256. An answer body is a JSON document without floats
  (no field the code reads is one); the arguments of a tool call may hold any JSON.
\<close>

subsection \<open>Canonical text of values with floats\<close>

primrec compact :: "jval \<Rightarrow> string" where
  "compact VNull = ''null''"
| "compact (VBool b) = (if b then ''true'' else ''false'')"
| "compact (VInt i) = show_int i"
| "compact (VFloat s) = s"
| "compact (VStr s) = quote s"
| "compact (VList vs) = ''['' @ sep_by '','' (map compact vs) @ '']''"
| "compact (VObj kvs) = ''{'' @ sep_by '','' (map (\<lambda>(k, t). quote k @ '':'' @ t) (map (map_prod id compact) kvs)) @ ''}''"

primrec finite_floats :: "jval \<Rightarrow> bool" where
  "finite_floats VNull = True"
| "finite_floats (VBool _) = True"
| "finite_floats (VInt _) = True"
| "finite_floats (VFloat s) = (s \<notin> {''nan'', ''inf'', ''-inf''})"
| "finite_floats (VStr _) = True"
| "finite_floats (VList vs) = list_all id (map finite_floats vs)"
| "finite_floats (VObj kvs) = list_all snd (map (map_prod id finite_floats) kvs)"

definition canonical_text :: "jval \<Rightarrow> string option" where
  "canonical_text v = (if finite_floats v then Some (compact (sort_keys v)) else None)"

primrec of_jval :: "jval \<Rightarrow> json option" where
  "of_jval VNull = Some JNull"
| "of_jval (VBool b) = Some (JBool b)"
| "of_jval (VInt i) = Some (JInt i)"
| "of_jval (VFloat s) = None"
| "of_jval (VStr s) = Some (JStr s)"
| "of_jval (VList vs) = map_option JList (those (map of_jval vs))"
| "of_jval (VObj kvs) = map_option (\<lambda>ws. JObj (zip (map fst kvs) ws)) (those (map snd (map (map_prod id of_jval) kvs)))"

primrec to_jval :: "json \<Rightarrow> jval" where
  "to_jval JNull = VNull"
| "to_jval (JBool b) = VBool b"
| "to_jval (JInt i) = VInt i"
| "to_jval (JStr s) = VStr s"
| "to_jval (JList vs) = VList (map to_jval vs)"
| "to_jval (JObj kvs) = VObj (map (map_prod id to_jval) kvs)"

subsection \<open>Surroundings\<close>

record gateway_externals =
  gx_value :: "string \<Rightarrow> jval option"
  gx_int :: "json \<Rightarrow> int option"
  gx_decimal :: "string \<Rightarrow> decimal option"
  gx_time :: "string \<Rightarrow> py_time option"
  gx_float :: "decimal \<Rightarrow> string"
  gx_sha :: "bytes \<Rightarrow> string"

definition gx_json :: "gateway_externals \<Rightarrow> json_loads" where
  "gx_json X s = Option.bind (gx_value X s) of_jval"

text \<open>\<open>_validate_canonical_json\<close>.\<close>

definition canonb :: "gateway_externals \<Rightarrow> string \<Rightarrow> bool" where
  "canonb X s = (case gx_value X s of None \<Rightarrow> False | Some v \<Rightarrow> canonical_text v = Some s)"

record capability_snapshot =
  cs_revision :: string
  cs_requested_model :: string
  cs_response_model :: string
  cs_backend_model :: string
  cs_thinking_efforts :: "effort list"
  cs_tool_calling :: bool
  cs_thinking_tool_choice :: bool
  cs_expected_usage_fields :: "string list"
  cs_context_token_limit :: int
  cs_output_token_limit :: int
  cs_probed_at :: py_datetime
  cs_source_urls :: "string list"
  cs_source_content_hashes :: "string list"

definition valid_capability_snapshot :: "capability_snapshot \<Rightarrow> bool" where
  "valid_capability_snapshot c \<longleftrightarrow>
     len_ok 1 128 (cs_revision c) \<and> len_ok 1 256 (cs_requested_model c) \<and> len_ok 1 256 (cs_response_model c)
     \<and> len_ok 1 256 (cs_backend_model c) \<and> 1 \<le> cs_context_token_limit c \<and> 1 \<le> cs_output_token_limit c
     \<and> is_aware (cs_probed_at c) \<and> length (cs_source_urls c) = length (cs_source_content_hashes c)
     \<and> list_all (\<lambda>h. length h = 64) (cs_source_content_hashes c)"

record gateway =
  gw_capability :: capability_snapshot
  gw_prices :: price_snapshot
  gw_retry :: retry_policy

datatype failure_kind = CapabilityFailure | AuthFailure | BalanceFailure | RateLimited | TransportFailure | ProtocolFailure

record model_failure =
  mf_kind :: failure_kind
  mf_reason :: string
  mf_retryable :: bool
  mf_charge_ambiguous :: bool
  mf_attempts :: "model_attempt_summary list"

datatype gateway_error =
    ModelFailure model_failure
  | StateFailure turn_error
  | GuardRaised string
  | ValueErrorRaised
  | InvalidOperationRaised
  | AssertionRaised

text \<open>\<open>Unreachable connect\<close>: a transport error, \<open>connect\<close> when it is a ConnectError.\<close>

datatype provider_answer = Unreachable bool | Answer int "string option" "json option"

record exchange =
  ex_sent_at :: py_datetime
  ex_before :: "string option"
  ex_answer :: provider_answer
  ex_completed_at :: py_datetime
  ex_after :: "string option"
  ex_jitter :: decimal

subsection \<open>Requests\<close>

definition scope_digest :: "(bytes \<Rightarrow> string) \<Rightarrow> run_scope \<Rightarrow> string" where
  "scope_digest sha s = sha (utf8 (dumps (JObj [(''run_id'', JStr (uuid_str (rs_run_id s))),
     (''track'', JStr (rs_track s)), (''mode'', JStr (rs_mode s)), (''subject_id'', JStr (rs_subject_id s)),
     (''experiment_id'', JStr (rs_experiment_id s)), (''config_hash'', JStr (rs_config_hash s))])))"

definition group_ref :: "conversation_group \<Rightarrow> provider_turn_ref" where
  "group_ref g = (case g of AssistantTurn r \<Rightarrow> r | ToolExchange x \<Rightarrow> xg_provider_turn_ref x)"

definition capability_error :: "string \<Rightarrow> gateway_error" where
  "capability_error reason = ModelFailure \<lparr>mf_kind = CapabilityFailure, mf_reason = reason, mf_retryable = False,
     mf_charge_ambiguous = False, mf_attempts = []\<rparr>"

definition output_limit :: "inference_config \<Rightarrow> int" where
  "output_limit c = (case c of Thinking t \<Rightarrow> th_max_output_tokens t | NonThinking n \<Rightarrow> nt_max_output_tokens n)"

definition effort_supported :: "capability_snapshot \<Rightarrow> inference_config \<Rightarrow> bool" where
  "effort_supported c i = (case i of Thinking t \<Rightarrow> th_effort t \<in> set (cs_thinking_efforts c) | NonThinking _ \<Rightarrow> True)"

definition validate_request :: "gateway \<Rightarrow> gateway_externals \<Rightarrow> model_request \<Rightarrow> gateway_error + unit" where
  "validate_request G X q =
     (let c = gw_capability G; digest = scope_digest (gx_sha X) (mq_run_scope q);
          refs = map group_ref (mq_history q); sequences = map tf_sequence refs in
      if mq_capability_revision q \<noteq> cs_revision c then Inl (capability_error ''capability_revision_mismatch'')
      else if cs_output_token_limit c < output_limit (mq_inference q)
      then Inl (capability_error ''output_limit_unsupported'')
      else if mq_tools q \<noteq> [] \<and> \<not> cs_tool_calling c then Inl (capability_error ''tool_calling_unsupported'')
      else if \<not> effort_supported c (mq_inference q) then Inl (capability_error ''thinking_effort_unsupported'')
      else if list_ex (\<lambda>r. tf_scope_digest r \<noteq> digest \<or> tf_attempt_id r \<noteq> mq_attempt_id q) refs
      then Inl (capability_error ''history_binding_mismatch'')
      else if sequences \<noteq> sorted_list_of_set (set sequences) \<or> list_ex (\<lambda>n. mq_sequence q \<le> n) sequences
      then Inl (capability_error ''history_sequence_invalid'')
      else Inr ())"

definition message_json :: "chat_message \<Rightarrow> jval" where
  "message_json m = VObj [(''role'', VStr (cm_role m)), (''content'', VStr (cm_content m))]"

definition text_jval :: "string option \<Rightarrow> jval" where
  "text_jval s = (case s of None \<Rightarrow> VNull | Some t \<Rightarrow> VStr t)"

definition assistant_json :: "private_provider_turn \<Rightarrow> jval \<Rightarrow> jval" where
  "assistant_json p calls = VObj ([(''role'', VStr ''assistant''), (''content'', text_jval (pv_content p))]
     @ (case pv_reasoning_content p of None \<Rightarrow> [] | Some r \<Rightarrow> [(''reasoning_content'', VStr r)])
     @ (if calls = VList [] then [] else [(''tool_calls'', calls)]))"

definition result_json :: "tool_result \<Rightarrow> jval" where
  "result_json r = VObj [(''role'', VStr ''tool''), (''tool_call_id'', VStr (tl_call_id r)),
     (''name'', VStr (tl_name r)), (''content'', VStr (tl_content_json r))]"

definition group_results :: "conversation_group \<Rightarrow> tool_result list" where
  "group_results g = (case g of AssistantTurn _ \<Rightarrow> [] | ToolExchange x \<Rightarrow> xg_tool_results x)"

text \<open>The history, each turn resolved (and so renewed) at its own clock reading.\<close>

fun encode_history ::
    "gateway_externals \<Rightarrow> conversation_group list \<Rightarrow> instant list \<Rightarrow> turn_store
       \<Rightarrow> (gateway_error + jval list) \<times> turn_store" where
  "encode_history X [] nows st = (Inr [], st)"
| "encode_history X (g # gs) nows st =
     (case resolve_turn (hd nows) (group_ref g) st of
        (Inl e, st1) \<Rightarrow> (Inl (StateFailure e), st1)
      | (Inr p, st1) \<Rightarrow>
          (case gx_value X (pv_tool_calls_json p) of
             None \<Rightarrow> (Inl ValueErrorRaised, st1)
           | Some calls \<Rightarrow>
               (case encode_history X gs (tl nows) st1 of
                  (Inl e, st2) \<Rightarrow> (Inl e, st2)
                | (Inr ms, st2) \<Rightarrow> (Inr (assistant_json p calls # map result_json (group_results g) @ ms), st2))))"

definition split_trailing_user :: "chat_message list \<Rightarrow> chat_message list \<times> chat_message list" where
  "split_trailing_user ms = (if cm_role (last ms) = ''user'' then (butlast ms, [last ms]) else (ms, []))"

definition tool_json :: "gateway_externals \<Rightarrow> tool_definition \<Rightarrow> jval option" where
  "tool_json X t = map_option (\<lambda>ps. VObj [(''type'', VStr ''function''), (''function'', VObj
     [(''name'', VStr (td_name t)), (''description'', VStr (td_description t)), (''parameters'', ps)])])
     (gx_value X (td_parameters_json t))"

definition effort_text :: "effort \<Rightarrow> string" where
  "effort_text e = (case e of EffortLow \<Rightarrow> ''low'' | EffortHigh \<Rightarrow> ''high'' | EffortMax \<Rightarrow> ''max'')"

definition inference_fields :: "gateway_externals \<Rightarrow> inference_config \<Rightarrow> (string \<times> jval) list" where
  "inference_fields X i = (case i of
       Thinking t \<Rightarrow> [(''thinking'', VObj [(''type'', VStr ''enabled'')]), (''reasoning_effort'', VStr (effort_text (th_effort t)))]
     | NonThinking n \<Rightarrow> [(''thinking'', VObj [(''type'', VStr ''disabled'')]), (''temperature'', VFloat (gx_float X (nt_temperature n)))])"

definition encode_request ::
    "gateway \<Rightarrow> gateway_externals \<Rightarrow> model_request \<Rightarrow> instant list \<Rightarrow> turn_store \<Rightarrow> (gateway_error + jval) \<times> turn_store" where
  "encode_request G X q nows st =
     (let (front, trailing) = split_trailing_user (mq_messages q) in
      case encode_history X (mq_history q) nows st of
        (Inl e, st1) \<Rightarrow> (Inl e, st1)
      | (Inr hs, st1) \<Rightarrow>
          (case those (map (tool_json X) (mq_tools q)) of
             None \<Rightarrow> (Inl ValueErrorRaised, st1)
           | Some tools \<Rightarrow> (Inr (VObj ([
                 (''model'', VStr (cs_requested_model (gw_capability G))),
                 (''messages'', VList (map message_json front @ hs @ map message_json trailing)),
                 (''max_tokens'', VInt (output_limit (mq_inference q))), (''stream'', VBool False),
                 (''user_id'', VStr (mq_provider_user_id q))]
               @ inference_fields X (mq_inference q) @ (if tools = [] then [] else [(''tools'', VList tools)]))), st1)))"

subsection \<open>Answers\<close>

definition falsy :: "json \<Rightarrow> bool" where
  "falsy v \<longleftrightarrow> v \<in> {JNull, JBool False, JInt 0, JStr [], JList [], JObj []}"

definition reason_of_text :: "string \<Rightarrow> finish_reason option" where
  "reason_of_text s = map_of [(''stop'', Stop), (''tool_calls'', ToolCallsReason), (''length'', LengthReason),
     (''content_filter'', ContentFilter), (''insufficient_system_resource'', InsufficientResource)] s"

text \<open>The payload and its only choice, where both are objects; every other shape raises.\<close>

definition only_choice :: "json \<Rightarrow> ((string \<times> json) list \<times> (string \<times> json) list) option" where
  "only_choice body = (case body of
       JObj kvs \<Rightarrow> (case map_of kvs ''choices'' of Some (JList [JObj c]) \<Rightarrow> Some (kvs, c) | _ \<Rightarrow> None)
     | _ \<Rightarrow> None)"

definition finish_reason_of :: "json \<Rightarrow> finish_reason option" where
  "finish_reason_of body = Option.bind (only_choice body) (\<lambda>(kvs, c).
     case map_of c ''finish_reason'' of Some (JStr s) \<Rightarrow> reason_of_text s | _ \<Rightarrow> None)"

definition reported_of :: "gateway_externals \<Rightarrow> (string \<times> json) list \<Rightarrow> (string \<times> json) list \<Rightarrow> reported_usage option" where
  "reported_of X u details =
     (let num = (\<lambda>k. Option.bind (map_of u k) (gx_int X));
          reasoning = (case map_of details ''reasoning_tokens'' of None \<Rightarrow> Some 0 | Some v \<Rightarrow> gx_int X v) in
      case (num ''prompt_tokens'', num ''prompt_cache_hit_tokens'', num ''prompt_cache_miss_tokens'',
            num ''completion_tokens'', reasoning, num ''total_tokens'') of
        (Some p, Some h, Some m, Some c, Some r, Some t) \<Rightarrow>
          (let u' = \<lparr>ru_prompt_tokens = p, ru_cache_hit_tokens = h, ru_cache_miss_tokens = m,
             ru_completion_tokens = c, ru_reasoning_tokens = r, ru_total_tokens = t\<rparr>
           in if valid_reported_usage u' then Some u' else None)
      | _ \<Rightarrow> None)"

definition payload_usage :: "gateway_externals \<Rightarrow> (string \<times> json) list \<Rightarrow> usage option" where
  "payload_usage X kvs = (case map_of kvs ''usage'' of
       None \<Rightarrow> Some (UsageUnavailable ''provider_usage_missing'')
     | Some JNull \<Rightarrow> Some (UsageUnavailable ''provider_usage_missing'')
     | Some (JObj u) \<Rightarrow> map_option Reported (case map_of u ''completion_tokens_details'' of
           None \<Rightarrow> reported_of X u []
         | Some (JObj d) \<Rightarrow> reported_of X u d
         | Some v \<Rightarrow> if falsy v then reported_of X u [] else None)
     | _ \<Rightarrow> None)"

definition cost_of :: "gateway \<Rightarrow> gateway_externals \<Rightarrow> usage \<Rightarrow> py_datetime \<Rightarrow> cost option" where
  "cost_of G X u sent_at = (case u of
       Reported r \<Rightarrow> map_option Estimated (calculate_cost (gx_time X) (gw_prices G) r sent_at)
     | UsageUnavailable _ \<Rightarrow> Some (CostUnavailable ''usage_unavailable''))"

definition parse_payload ::
    "gateway \<Rightarrow> gateway_externals \<Rightarrow> py_datetime \<Rightarrow> json option \<Rightarrow> (finish_reason \<times> usage \<times> cost) option" where
  "parse_payload G X sent_at body =
     Option.bind body (\<lambda>b. Option.bind (finish_reason_of b) (\<lambda>f. Option.bind (only_choice b) (\<lambda>(kvs, _).
     Option.bind (payload_usage X kvs) (\<lambda>u. map_option (\<lambda>c. (f, u, c)) (cost_of G X u sent_at)))))"

definition parse_tool_call :: "gateway_externals \<Rightarrow> json \<Rightarrow> tool_call option" where
  "parse_tool_call X raw = (case raw of
       JObj kvs \<Rightarrow> (case map_of kvs ''function'' of
           Some (JObj f) \<Rightarrow> (case (map_of f ''arguments'', map_of kvs ''id'', map_of f ''name'') of
               (Some (JStr a), Some (JStr i), Some (JStr n)) \<Rightarrow>
                 Option.bind (gx_value X a) (\<lambda>v. Option.bind (canonical_text v) (\<lambda>t.
                 let c = \<lparr>tc_call_id = i, tc_name = n, tc_arguments_json = t\<rparr>
                 in if valid_tool_call (canonb X) c then Some c else None))
             | _ \<Rightarrow> None)
         | _ \<Rightarrow> None)
     | _ \<Rightarrow> None)"

definition raw_calls_of :: "(string \<times> json) list \<Rightarrow> json list option" where
  "raw_calls_of m = (case map_of m ''tool_calls'' of
       None \<Rightarrow> Some []
     | Some (JList vs) \<Rightarrow> Some vs
     | Some v \<Rightarrow> if falsy v then Some [] else None)"

definition optional_text :: "json option \<Rightarrow> string option option" where
  "optional_text v = (case v of None \<Rightarrow> Some None | Some JNull \<Rightarrow> Some None | Some (JStr s) \<Rightarrow> Some (Some s) | _ \<Rightarrow> None)"

definition output_of :: "(string \<times> json) list \<Rightarrow> tool_call list \<Rightarrow> finish_reason \<Rightarrow> model_output option" where
  "output_of m calls finish =
     (if calls \<noteq> [] \<and> finish \<noteq> ToolCallsReason \<or> calls = [] \<and> finish = ToolCallsReason then None
      else if calls \<noteq> [] then Some (ToolCallOutput calls)
      else (case map_of m ''content'' of Some (JStr s) \<Rightarrow> Some (FinalOutput s) | _ \<Rightarrow> None))"

definition token_weight :: "usage \<Rightarrow> int" where
  "token_weight u = (case u of Reported r \<Rightarrow> ru_completion_tokens r | UsageUnavailable _ \<Rightarrow> 0)"

definition private_turn ::
    "gateway_externals \<Rightarrow> model_request \<Rightarrow> string \<Rightarrow> string option \<Rightarrow> string option \<Rightarrow> json list \<Rightarrow> tool_call list
       \<Rightarrow> usage \<Rightarrow> py_datetime \<Rightarrow> private_provider_turn" where
  "private_turn X q model content reasoning raw calls u sent_at =
     \<lparr>pv_scope_digest = scope_digest (gx_sha X) (mq_run_scope q), pv_attempt_id = mq_attempt_id q,
      pv_sequence = mq_sequence q, pv_model = model, pv_content = content, pv_reasoning_content = reasoning,
      pv_tool_calls_json = dumps (JList raw),
      pv_payload_sha256 = gx_sha X (utf8 (dumps (JObj [(''content'', text_json content),
        (''reasoning_content'', text_json reasoning), (''tool_calls'', JList raw)]))),
      pv_expected_tool_call_ids = map tc_call_id calls, pv_token_weight = token_weight u,
      pv_created_at = to_instant sent_at, pv_last_used_at = to_instant sent_at,
      pv_absolute_expires_at = to_instant sent_at + 7 * usec_per_day\<rparr>"

definition parse_output ::
    "gateway \<Rightarrow> gateway_externals \<Rightarrow> model_request \<Rightarrow> usage \<Rightarrow> py_datetime \<Rightarrow> finish_reason \<Rightarrow> json
       \<Rightarrow> (model_output \<times> private_provider_turn) option" where
  "parse_output G X q u sent_at finish body =
     Option.bind (only_choice body) (\<lambda>(kvs, c).
     if map_of kvs ''model'' \<noteq> Some (JStr (cs_response_model (gw_capability G))) then None
     else (case map_of c ''message'' of
         Some (JObj m) \<Rightarrow>
           Option.bind (raw_calls_of m) (\<lambda>raw.
           Option.bind (those (map (parse_tool_call X) raw)) (\<lambda>calls.
           Option.bind (output_of m calls finish) (\<lambda>out.
           Option.bind (optional_text (map_of m ''content'')) (\<lambda>content.
           Option.bind (optional_text (map_of m ''reasoning_content'')) (\<lambda>reasoning.
           let t = private_turn X q (cs_response_model (gw_capability G)) content reasoning raw calls u sent_at
           in if valid_model_output (canonb X) out \<and> valid_private_provider_turn (gx_json X) t \<and> is_aware sent_at
              then Some (out, t) else None)))))
       | _ \<Rightarrow> None))"

subsection \<open>One attempt\<close>

definition failed_usage :: usage where "failed_usage = UsageUnavailable ''attempt_failed''"
definition failed_cost :: cost where "failed_cost = CostUnavailable ''attempt_failed''"

text \<open>The summary is validated when it is built; then it joins the list and the guard sees it.\<close>

definition record_summary ::
    "exchange \<Rightarrow> nat \<Rightarrow> attempt_outcome \<Rightarrow> bool \<Rightarrow> bool \<Rightarrow> int option \<Rightarrow> usage \<Rightarrow> cost
       \<Rightarrow> model_attempt_summary list \<Rightarrow> gateway_error + model_attempt_summary list" where
  "record_summary x n outcome may_retry ambiguous status u c past =
     (let s = \<lparr>ma_attempt_number = int n, ma_sent_at = ex_sent_at x, ma_completed_at = ex_completed_at x,
        ma_outcome = outcome, ma_http_status = status, ma_retryable = may_retry, ma_charge_ambiguous = ambiguous,
        ma_usage = u, ma_cost = c\<rparr> in
      if \<not> valid_model_attempt_summary s then Inl ValueErrorRaised
      else case ex_after x of Some e \<Rightarrow> Inl (GuardRaised e) | None \<Rightarrow> Inr (past @ [s]))"

definition wait_to_retry ::
    "gateway \<Rightarrow> gateway_externals \<Rightarrow> exchange \<Rightarrow> nat \<Rightarrow> string option \<Rightarrow> gateway_error + decimal option" where
  "wait_to_retry G X x n retry_after =
     (case retry_decision (gx_decimal X) (gw_retry G) n retry_after (ex_jitter x) of
        None \<Rightarrow> Inl InvalidOperationRaised
      | Some d \<Rightarrow> Inr (if rd_should_retry d then Some (rd_delay_seconds d) else None))"

definition failure :: "failure_kind \<Rightarrow> string \<Rightarrow> bool \<Rightarrow> bool \<Rightarrow> model_attempt_summary list \<Rightarrow> gateway_error" where
  "failure k reason may_retry ambiguous past = ModelFailure \<lparr>mf_kind = k, mf_reason = reason,
     mf_retryable = may_retry, mf_charge_ambiguous = ambiguous, mf_attempts = past\<rparr>"

text \<open>Retry with the summaries so far after a delay, or raise.\<close>

definition retry_or ::
    "gateway \<Rightarrow> gateway_externals \<Rightarrow> exchange \<Rightarrow> nat \<Rightarrow> string option \<Rightarrow> (model_attempt_summary list \<Rightarrow> gateway_error)
       \<Rightarrow> model_attempt_summary list \<Rightarrow> gateway_error + (model_attempt_summary list \<times> decimal)" where
  "retry_or G X x n retry_after err past =
     rbind (wait_to_retry G X x n retry_after) (\<lambda>w. case w of
         Some d \<Rightarrow> Inr (past, d)
       | None \<Rightarrow> Inl (err past))"

definition raise_http :: "int \<Rightarrow> model_attempt_summary list \<Rightarrow> gateway_error" where
  "raise_http status past =
     (if status = 401 then failure AuthFailure ''provider_auth_rejected'' False False past
      else if status = 402 then failure BalanceFailure ''provider_balance_insufficient'' False False past
      else if status = 429 then failure RateLimited ''provider_rate_limited'' True False past
      else if 500 \<le> status then failure TransportFailure ''provider_http_retry_exhausted'' True False past
      else failure CapabilityFailure ''provider_http_rejected'' False False past)"

definition retryable_status :: "int \<Rightarrow> bool" where
  "retryable_status s \<longleftrightarrow> s \<in> {429, 500, 502, 503, 504}"

definition fingerprint_of :: "json option \<Rightarrow> string option option" where
  "fingerprint_of body = (case body of
       Some (JObj kvs) \<Rightarrow> optional_text (map_of kvs ''system_fingerprint'')
     | _ \<Rightarrow> None)"

datatype step = Raised gateway_error | Again "model_attempt_summary list" decimal | Returned model_response

definition step_of :: "gateway_error + (model_attempt_summary list \<times> decimal) \<Rightarrow> step" where
  "step_of r = (case r of Inl e \<Rightarrow> Raised e | Inr (as, d) \<Rightarrow> Again as d)"

text \<open>The turn is saved before the response is built and validated.\<close>

definition succeed ::
    "gateway \<Rightarrow> gateway_externals \<Rightarrow> uuid \<Rightarrow> json option \<Rightarrow> finish_reason \<Rightarrow> usage \<Rightarrow> cost \<Rightarrow> model_output
       \<Rightarrow> private_provider_turn \<Rightarrow> model_attempt_summary list \<Rightarrow> turn_store \<Rightarrow> step \<times> turn_store" where
  "succeed G X fresh body finish u c out t past st =
     (case save_turn (gx_sha X) (gx_json X) fresh t st of
        (Inl e, st') \<Rightarrow> (Raised (StateFailure e), st')
      | (Inr ref, st') \<Rightarrow>
          (case fingerprint_of body of
             None \<Rightarrow> (Raised ValueErrorRaised, st')
           | Some fp \<Rightarrow>
               (let r = \<lparr>ms_output = out, ms_provider_turn_ref = ref, ms_finish_reason = finish,
                  ms_actual_model = cs_response_model (gw_capability G), ms_system_fingerprint = fp,
                  ms_usage = u, ms_cost = c, ms_attempts = past\<rparr>
                in if valid_model_response (canonb X) r then (Returned r, st') else (Raised ValueErrorRaised, st'))))"

definition protocol_error ::
    "exchange \<Rightarrow> nat \<Rightarrow> usage \<Rightarrow> cost \<Rightarrow> model_attempt_summary list \<Rightarrow> step" where
  "protocol_error x n u c past =
     step_of (rbind (record_summary x n ProtocolError False True None u c past) (\<lambda>as.
       Inl (failure ProtocolFailure ''provider_response_invalid'' False True as)))"

definition handle_body ::
    "gateway \<Rightarrow> gateway_externals \<Rightarrow> model_request \<Rightarrow> uuid \<Rightarrow> exchange \<Rightarrow> nat \<Rightarrow> json option
       \<Rightarrow> model_attempt_summary list \<Rightarrow> turn_store \<Rightarrow> step \<times> turn_store" where
  "handle_body G X q fresh x n body past st =
     (case parse_payload G X (ex_sent_at x) body of
        None \<Rightarrow> (protocol_error x n failed_usage failed_cost past, st)
      | Some (finish, u, c) \<Rightarrow>
          if finish = InsufficientResource
          then (step_of (rbind (record_summary x n InsufficientSystemResource True True None u c past)
                  (retry_or G X x n None (failure TransportFailure ''insufficient_system_resource'' True True))), st)
          else (case Option.bind body (parse_output G X q u (ex_sent_at x) finish) of
              None \<Rightarrow> (protocol_error x n u c past, st)
            | Some (out, t) \<Rightarrow>
                (case record_summary x n AttemptSuccess False False None u c past of
                   Inl e \<Rightarrow> (Raised e, st)
                 | Inr as \<Rightarrow> succeed G X fresh body finish u c out t as st)))"

definition handle_answer ::
    "gateway \<Rightarrow> gateway_externals \<Rightarrow> model_request \<Rightarrow> uuid \<Rightarrow> exchange \<Rightarrow> nat
       \<Rightarrow> model_attempt_summary list \<Rightarrow> turn_store \<Rightarrow> step \<times> turn_store" where
  "handle_answer G X q fresh x n past st =
     (case ex_answer x of
        Unreachable connect \<Rightarrow>
          (step_of (rbind (record_summary x n TransportError True (\<not> connect) None failed_usage failed_cost past)
             (retry_or G X x n None (failure TransportFailure ''transport_retry_exhausted'' True (\<not> connect)))), st)
      | Answer status retry_after body \<Rightarrow>
          if 400 \<le> status
          then (step_of (rbind (record_summary x n HttpError (retryable_status status) False (Some status)
                  failed_usage failed_cost past) (\<lambda>as.
                  if retryable_status status then retry_or G X x n retry_after (raise_http status) as
                  else Inl (raise_http status as))), st)
          else handle_body G X q fresh x n body past st)"

subsection \<open>The bounded loop\<close>

record completion =
  cp_result :: "gateway_error + model_response"
  cp_sent :: "nat list"
  cp_delays :: "decimal list"
  cp_store :: turn_store

primrec attempts_from ::
    "gateway \<Rightarrow> gateway_externals \<Rightarrow> model_request \<Rightarrow> uuid \<Rightarrow> (nat \<Rightarrow> exchange) \<Rightarrow> nat \<Rightarrow> nat
       \<Rightarrow> model_attempt_summary list \<Rightarrow> turn_store \<Rightarrow> completion" where
  "attempts_from G X q fresh env 0 n past st =
     \<lparr>cp_result = Inl AssertionRaised, cp_sent = [], cp_delays = [], cp_store = st\<rparr>"
| "attempts_from G X q fresh env (Suc k) n past st =
     (case ex_before (env n) of
        Some e \<Rightarrow> \<lparr>cp_result = Inl (GuardRaised e), cp_sent = [], cp_delays = [], cp_store = st\<rparr>
      | None \<Rightarrow>
          (case handle_answer G X q fresh (env n) n past st of
             (Raised e, st') \<Rightarrow> \<lparr>cp_result = Inl e, cp_sent = [n], cp_delays = [], cp_store = st'\<rparr>
           | (Returned r, st') \<Rightarrow> \<lparr>cp_result = Inr r, cp_sent = [n], cp_delays = [], cp_store = st'\<rparr>
           | (Again as d, st') \<Rightarrow>
               (let rest = attempts_from G X q fresh env k (Suc n) as st' in
                rest\<lparr>cp_sent := n # cp_sent rest, cp_delays := d # cp_delays rest\<rparr>)))"

definition gateway_complete ::
    "gateway \<Rightarrow> gateway_externals \<Rightarrow> model_request \<Rightarrow> uuid \<Rightarrow> instant list \<Rightarrow> (nat \<Rightarrow> exchange) \<Rightarrow> turn_store \<Rightarrow> completion" where
  "gateway_complete G X q fresh nows env st =
     (case validate_request G X q of
        Inl e \<Rightarrow> \<lparr>cp_result = Inl e, cp_sent = [], cp_delays = [], cp_store = st\<rparr>
      | Inr _ \<Rightarrow>
          (case encode_request G X q nows st of
             (Inl e, st1) \<Rightarrow> \<lparr>cp_result = Inl e, cp_sent = [], cp_delays = [], cp_store = st1\<rparr>
           | (Inr body, st1) \<Rightarrow> attempts_from G X q fresh env (rp_maximum_attempts (gw_retry G)) 1 [] st1))"

subsection \<open>One attempt: what it records\<close>

definition next_number :: "nat \<Rightarrow> model_attempt_summary list \<Rightarrow> bool" where
  "next_number n as \<longleftrightarrow> map ma_attempt_number as = map int [1..<n]"

lemma record_summary_Inr:
  "record_summary x n oc re am s u c as = Inr as' \<Longrightarrow>
     \<exists>m. as' = as @ [m] \<and> ma_attempt_number m = int n \<and> ma_outcome m = oc \<and> ma_retryable m = re
       \<and> ma_usage m = u \<and> ma_cost m = c \<and> valid_model_attempt_summary m"
  by (auto simp: record_summary_def Let_def split: if_splits option.splits)

lemma record_summary_Inl:
  "record_summary x n oc re am s u c as = Inl e \<Longrightarrow> e = ValueErrorRaised \<or> (\<exists>g. e = GuardRaised g)"
  by (auto simp: record_summary_def Let_def split: if_splits option.splits)

lemma wait_to_retry_Some:
  "wait_to_retry G X x n ra = Inr (Some d) \<Longrightarrow> n < rp_maximum_attempts (gw_retry G)
     \<and> retry_decision (gx_decimal X) (gw_retry G) n ra (ex_jitter x) = Some \<lparr>rd_should_retry = True, rd_delay_seconds = d\<rparr>"
  by (auto simp: wait_to_retry_def retry_decision_def split: option.splits if_splits)

lemma wait_to_retry_Inl: "wait_to_retry G X x n ra = Inl e \<Longrightarrow> e = InvalidOperationRaised"
  by (auto simp: wait_to_retry_def split: option.splits)

lemma retry_or_Inr:
  "retry_or G X x n ra err as = Inr (as', d) \<Longrightarrow> as' = as \<and> wait_to_retry G X x n ra = Inr (Some d)"
  by (auto simp: retry_or_def rbind_Inr_iff split: option.splits)

lemma retry_or_Inl:
  "retry_or G X x n ra err as = Inl e \<Longrightarrow> e = InvalidOperationRaised \<or> e = err as"
  by (auto simp: retry_or_def rbind_Inl_iff split: option.splits dest: wait_to_retry_Inl)

definition fails_with :: "(model_attempt_summary list \<Rightarrow> gateway_error) \<Rightarrow> bool" where
  "fails_with err \<longleftrightarrow> (\<forall>as. \<exists>f. err as = ModelFailure f \<and> mf_attempts f = as)"

lemma fails_with_failure [simp]: "fails_with (failure k r b a)" "fails_with (raise_http s)"
  by (auto simp: fails_with_def failure_def raise_http_def)

text \<open>A new summary for attempt \<open>n\<close> that is not a success.\<close>

definition adds_failure :: "nat \<Rightarrow> model_attempt_summary list \<Rightarrow> model_attempt_summary list \<Rightarrow> bool" where
  "adds_failure n as as' \<longleftrightarrow> (\<exists>m. as' = as @ [m] \<and> ma_attempt_number m = int n \<and> ma_outcome m \<noteq> AttemptSuccess
     \<and> valid_model_attempt_summary m)"

lemma adds_failureI:
  "record_summary x n oc re am s u c as = Inr as' \<Longrightarrow> oc \<noteq> AttemptSuccess \<Longrightarrow> adds_failure n as as'"
  by (auto simp: adds_failure_def dest!: record_summary_Inr)

text \<open>The three results of a failing attempt.\<close>

definition step_ok :: "gateway \<Rightarrow> gateway_externals \<Rightarrow> exchange \<Rightarrow> nat \<Rightarrow> model_attempt_summary list \<Rightarrow> step \<Rightarrow> bool" where
  "step_ok G X x n as s = (case s of
       Raised (ModelFailure f) \<Rightarrow> adds_failure n as (mf_attempts f)
     | Raised e \<Rightarrow> e \<noteq> AssertionRaised
     | Again as' d \<Rightarrow> adds_failure n as as' \<and> ma_retryable (last as') \<and> n < rp_maximum_attempts (gw_retry G)
         \<and> (\<exists>ra. wait_to_retry G X x n ra = Inr (Some d)
             \<and> (ra \<noteq> None \<longrightarrow> (\<exists>st b. ex_answer x = Answer st ra b)))
     | Returned r \<Rightarrow> valid_model_response (canonb X) r \<and> (\<exists>m. ms_attempts r = as @ [m] \<and> ma_attempt_number m = int n))"

lemma step_ok_raise: "fails_with err \<Longrightarrow> adds_failure n as as' \<Longrightarrow> step_ok G X x n as (Raised (err as'))"
proof -
  assume "fails_with err" "adds_failure n as as'"
  then obtain f where "err as' = ModelFailure f" "mf_attempts f = as'" by (auto simp: fails_with_def)
  then show ?thesis using \<open>adds_failure n as as'\<close> by (simp add: step_ok_def)
qed

lemma step_ok_other: "(\<And>f. e \<noteq> ModelFailure f) \<Longrightarrow> e \<noteq> AssertionRaised \<Longrightarrow> step_ok G X x n as (Raised e)"
  by (cases e) (auto simp: step_ok_def)

lemma step_ok_recording:
  "record_summary x n oc re am s u c as = Inl e \<Longrightarrow> step_ok G X x n as' (Raised e)"
  by (rule step_ok_other) (auto dest!: record_summary_Inl)

lemma step_ok_retry:
  assumes "oc \<noteq> AttemptSuccess" "re" "fails_with err" "ra = None \<or> (\<exists>st b. ex_answer x = Answer st ra b)"
  shows "step_ok G X x n as (step_of (rbind (record_summary x n oc re am s u c as) (retry_or G X x n ra err)))"
proof (cases "record_summary x n oc re am s u c as")
  case (Inl e)
  then show ?thesis by (simp add: step_of_def step_ok_recording)
next
  case (Inr as')
  note m = record_summary_Inr [OF Inr]
  have a: "adds_failure n as as'" using adds_failureI [OF Inr assms(1)] .
  show ?thesis
  proof (cases "retry_or G X x n ra err as'")
    case (Inl e)
    then have "step_ok G X x n as (Raised e)"
      using retry_or_Inl [OF Inl] step_ok_raise [OF assms(3) a] step_ok_other by auto
    then show ?thesis using \<open>record_summary x n oc re am s u c as = Inr as'\<close> Inl by (simp add: step_of_def)
  next
    case (Inr w)
    then obtain d where w: "w = (as', d)" "wait_to_retry G X x n ra = Inr (Some d)"
      by (cases w) (auto dest: retry_or_Inr)
    have "step_ok G X x n as (Again as' d)"
      using w a m assms(2,4) wait_to_retry_Some [OF w(2)] by (auto simp: step_ok_def)
    then show ?thesis using \<open>record_summary x n oc re am s u c as = Inr as'\<close> Inr w by (simp add: step_of_def)
  qed
qed

lemma step_ok_fail:
  assumes "oc \<noteq> AttemptSuccess" "fails_with err"
  shows "step_ok G X x n as (step_of (rbind (record_summary x n oc re am s u c as) (\<lambda>as'. Inl (err as'))))"
proof (cases "record_summary x n oc re am s u c as")
  case (Inl e)
  then show ?thesis by (simp add: step_of_def step_ok_recording)
next
  case (Inr as')
  then show ?thesis using step_ok_raise [OF assms(2) adds_failureI [OF Inr assms(1)]] by (simp add: step_of_def)
qed

lemma step_ok_protocol: "step_ok G X x n as (protocol_error x n u c as)"
  unfolding protocol_error_def by (rule step_ok_fail) simp_all

lemma succeed_ok:
  assumes "record_summary x n AttemptSuccess False False None u c as = Inr as'"
  shows "step_ok G X x n as (fst (succeed G X fresh body f u c out t as' st))"
  using record_summary_Inr [OF assms]
  by (auto simp: succeed_def step_ok_def Let_def split: sum.splits option.splits prod.splits)

lemma handle_body_ok: "step_ok G X x n as (fst (handle_body G X q fresh x n body as st))"
proof (cases "parse_payload G X (ex_sent_at x) body")
  case None
  then show ?thesis by (simp add: handle_body_def step_ok_protocol)
next
  case (Some p)
  obtain f u c where p: "p = (f, u, c)" by (rule prod.exhaust) (metis prod.exhaust)
  show ?thesis
  proof (cases "f = InsufficientResource")
    case True
    then show ?thesis using Some p by (simp add: handle_body_def step_ok_retry)
  next
    case False
    show ?thesis
    proof (cases "Option.bind body (parse_output G X q u (ex_sent_at x) f)")
      case None
      then show ?thesis using Some p False by (simp add: handle_body_def step_ok_protocol)
    next
      case (Some ot)
      obtain out t where ot: "ot = (out, t)" by (rule prod.exhaust)
      show ?thesis
        using \<open>parse_payload G X (ex_sent_at x) body = Some p\<close> p False Some ot
        by (cases "record_summary x n AttemptSuccess False False None u c as")
           (simp_all add: handle_body_def succeed_ok step_ok_recording)
    qed
  qed
qed

lemma handle_answer_ok: "step_ok G X x n as (fst (handle_answer G X q fresh x n as st))"
proof (cases "ex_answer x")
  case (Unreachable connect)
  then show ?thesis by (simp add: handle_answer_def step_ok_retry)
next
  case (Answer status ra body)
  then show ?thesis
    by (cases "retryable_status status") (simp_all add: handle_answer_def handle_body_ok step_ok_retry step_ok_fail)
qed
subsection \<open>The loop\<close>

text \<open>The log before attempt \<open>n\<close>, and the log of a finished completion that sent attempts up to \<open>n - 1\<close>.\<close>

definition log_ok :: "nat \<Rightarrow> model_attempt_summary list \<Rightarrow> bool" where
  "log_ok n as \<longleftrightarrow> map ma_attempt_number as = map int [1..<n]
     \<and> (\<forall>a \<in> set as. ma_retryable a \<and> ma_outcome a \<noteq> AttemptSuccess \<and> valid_model_attempt_summary a)"

definition log_done :: "nat \<Rightarrow> model_attempt_summary list \<Rightarrow> bool" where
  "log_done n as \<longleftrightarrow> as \<noteq> [] \<and> map ma_attempt_number as = map int [1..<n] \<and> log_ok (n - 1) (butlast as)"

lemma log_okD: "log_ok n as \<Longrightarrow> length as = n - 1"
  by (auto simp: log_ok_def dest: arg_cong [of _ _ length])

lemma log_done_snoc: "log_ok n as \<Longrightarrow> 1 \<le> n \<Longrightarrow> ma_attempt_number m = int n \<Longrightarrow> log_done (Suc n) (as @ [m])"
  by (simp add: log_done_def log_ok_def)

lemma log_ok_snoc:
  "log_ok n as \<Longrightarrow> 1 \<le> n \<Longrightarrow> adds_failure n as as' \<Longrightarrow> ma_retryable (last as') \<Longrightarrow> log_ok (Suc n) as'"
  by (auto simp: log_ok_def adds_failure_def)

definition completion_log :: "completion \<Rightarrow> model_attempt_summary list option" where
  "completion_log c = (case cp_result c of
       Inr r \<Rightarrow> Some (ms_attempts r)
     | Inl (ModelFailure f) \<Rightarrow> Some (mf_attempts f)
     | _ \<Rightarrow> None)"

definition accounted :: "gateway_externals \<Rightarrow> nat \<Rightarrow> nat \<Rightarrow> completion \<Rightarrow> bool" where
  "accounted X n j c \<longleftrightarrow> cp_sent c = [n..<n + j]
     \<and> (length (cp_delays c) = j \<or> Suc (length (cp_delays c)) = j)
     \<and> cp_result c \<noteq> Inl AssertionRaised
     \<and> (\<forall>as. completion_log c = Some as \<longrightarrow> log_done (n + j) as)
     \<and> (\<forall>r. cp_result c = Inr r \<longrightarrow> valid_model_response (canonb X) r)
     \<and> (\<forall>f. cp_result c = Inl (ModelFailure f) \<longrightarrow> ma_outcome (last (mf_attempts f)) \<noteq> AttemptSuccess)"

lemma completion_log_simps [simp]:
  "completion_log \<lparr>cp_result = Inr r, cp_sent = a, cp_delays = b, cp_store = c\<rparr> = Some (ms_attempts r)"
  "completion_log \<lparr>cp_result = Inl (ModelFailure f), cp_sent = a, cp_delays = b, cp_store = c\<rparr> = Some (mf_attempts f)"
  "completion_log \<lparr>cp_result = Inl (GuardRaised e), cp_sent = a, cp_delays = b, cp_store = c\<rparr> = None"
  by (simp_all add: completion_log_def)

lemma completion_log_update [simp]: "completion_log (c\<lparr>cp_sent := a, cp_delays := b\<rparr>) = completion_log c"
  by (simp add: completion_log_def)

lemma accounted_raised:
  assumes "step_ok G X x n as (Raised e)" "log_ok n as" "1 \<le> n"
  shows "accounted X n 1 \<lparr>cp_result = Inl e, cp_sent = [n], cp_delays = [], cp_store = st\<rparr>"
proof (cases e)
  case (ModelFailure f)
  then obtain m where "mf_attempts f = as @ [m]" "ma_attempt_number m = int n" "ma_outcome m \<noteq> AttemptSuccess"
    using assms(1) by (auto simp: step_ok_def adds_failure_def)
  then show ?thesis using ModelFailure log_done_snoc [OF assms(2,3)] by (simp add: accounted_def)
qed (use assms in \<open>auto simp: accounted_def completion_log_def step_ok_def\<close>)

lemma accounted_again:
  assumes "accounted X (Suc n) j c"
  shows "accounted X n (Suc j) (c\<lparr>cp_sent := n # cp_sent c, cp_delays := d # cp_delays c\<rparr>)"
  using assms by (auto simp: accounted_def upt_conv_Cons)

lemma attempts_from_accounted:
  assumes "log_ok n as" "1 \<le> n" "n + k = Suc (rp_maximum_attempts (gw_retry G))" "0 < k"
  shows "\<exists>j \<le> k. accounted X n j (attempts_from G X q fresh env k n as st)"
  using assms
proof (induction k arbitrary: n as st)
  case 0
  then show ?case by simp
next
  case (Suc k)
  obtain s st' where s: "handle_answer G X q fresh (env n) n as st = (s, st')" by (rule prod.exhaust)
  have ok: "step_ok G X (env n) n as s" using handle_answer_ok [of G X "env n" n as q fresh st] s by simp
  show ?case
  proof (cases "ex_before (env n)")
    case (Some e)
    then show ?thesis by (intro exI [of _ 0]) (simp add: accounted_def)
  next
    case None
    show ?thesis
    proof (cases s)
      case (Raised e)
      then show ?thesis using accounted_raised [of G X "env n" n as e st'] ok Suc.prems None s
        by (intro exI [of _ 1]) simp
    next
      case (Returned r)
      then obtain m where "valid_model_response (canonb X) r" "ms_attempts r = as @ [m]" "ma_attempt_number m = int n"
        using ok by (auto simp: step_ok_def)
      then show ?thesis using log_done_snoc [OF Suc.prems(1,2)] None s Returned
        by (intro exI [of _ 1]) (simp add: accounted_def)
    next
      case (Again as' d)
      then have "log_ok (Suc n) as'" "n < rp_maximum_attempts (gw_retry G)"
        using ok log_ok_snoc [OF Suc.prems(1,2)] by (auto simp: step_ok_def)
      then obtain j where "j \<le> k" "accounted X (Suc n) j (attempts_from G X q fresh env k (Suc n) as' st')"
        using Suc.IH [of "Suc n" as' st'] Suc.prems by auto
      then show ?thesis using accounted_again None s Again
        by (intro exI [of _ "Suc j"]) (simp add: Let_def)
    qed
  qed
qed

lemma complete_cases:
  obtains e st1 where "gateway_complete G X q fresh nows env st = \<lparr>cp_result = Inl e, cp_sent = [], cp_delays = [], cp_store = st1\<rparr>"
      "validate_request G X q = Inl e \<and> st1 = st \<or> validate_request G X q = Inr () \<and> encode_request G X q nows st = (Inl e, st1)"
    | body st1 where "gateway_complete G X q fresh nows env st
        = attempts_from G X q fresh env (rp_maximum_attempts (gw_retry G)) 1 [] st1"
      "validate_request G X q = Inr ()" "encode_request G X q nows st = (Inr body, st1)"
proof (cases "validate_request G X q")
  case (Inl e)
  then show ?thesis by (intro that(1) [of e st]) (simp_all add: gateway_complete_def)
next
  case (Inr u)
  obtain r st1 where r: "encode_request G X q nows st = (r, st1)" by (rule prod.exhaust)
  show ?thesis
  proof (cases r)
    case (Inl e)
    then show ?thesis using Inr r by (intro that(1) [of e st1]) (simp_all add: gateway_complete_def)
  next
    case (Inr body)
    then show ?thesis using \<open>validate_request G X q = Inr u\<close> r by (intro that(2) [of st1 body]) (simp_all add: gateway_complete_def)
  qed
qed

text \<open>
  C27: A completion sends at most the allowed number of attempts, numbered from 1 without gaps, never reaches the
  end of its loop, and accounts for what it sent: the attempts of the response or of the raised failure are
  exactly those sent, each one before the last was a valid retryable failure, and the last is a success exactly
  in a response, which satisfies its contract.
\<close>

theorem completion_accounts_attempts:
  assumes "valid_retry_policy (gw_retry G)" "validate_request G X q = Inr ()"
    "encode_request G X q nows st = (Inr body, st1)" "c = gateway_complete G X q fresh nows env st"
  shows "\<exists>j \<le> rp_maximum_attempts (gw_retry G). cp_sent c = [1..<Suc j] \<and> length (cp_delays c) \<le> j
    \<and> cp_result c \<noteq> Inl AssertionRaised
    \<and> (\<forall>as. completion_log c = Some as \<longrightarrow> map ma_attempt_number as = map int (cp_sent c) \<and> 0 < j
        \<and> (\<forall>a \<in> set (butlast as). ma_retryable a \<and> ma_outcome a \<noteq> AttemptSuccess \<and> valid_model_attempt_summary a))
    \<and> (\<forall>r. cp_result c = Inr r \<longrightarrow> valid_model_response (canonb X) r \<and> ma_outcome (last (ms_attempts r)) = AttemptSuccess)
    \<and> (\<forall>f. cp_result c = Inl (ModelFailure f) \<longrightarrow> ma_outcome (last (mf_attempts f)) \<noteq> AttemptSuccess)"
proof -
  have c: "c = attempts_from G X q fresh env (rp_maximum_attempts (gw_retry G)) 1 [] st1"
    using assms(2-4) by (simp add: gateway_complete_def)
  have "log_ok 1 []" by (simp add: log_ok_def)
  then obtain j where j: "j \<le> rp_maximum_attempts (gw_retry G)" "accounted X 1 j c"
    using attempts_from_accounted [of 1 "[]" "rp_maximum_attempts (gw_retry G)" G X q fresh env st1] assms(1)
    unfolding c by (auto simp: valid_retry_policy_def)
  have "0 < j" if "log_done (1 + j) as" for as
    using that by (cases j) (auto simp: log_done_def)
  then show ?thesis using j
    by (intro exI [of _ j])
       (auto simp: accounted_def log_done_def log_ok_def valid_model_response_def)
qed

subsection \<open>A sample completion\<close>

definition sample_capability :: capability_snapshot where
  "sample_capability = \<lparr>cs_revision = ''r'', cs_requested_model = ''m'', cs_response_model = ''m'', cs_backend_model = ''m'',
     cs_thinking_efforts = [EffortHigh], cs_tool_calling = True, cs_thinking_tool_choice = False,
     cs_expected_usage_fields = [], cs_context_token_limit = 1000, cs_output_token_limit = 100,
     cs_probed_at = Aware 0 0, cs_source_urls = [], cs_source_content_hashes = []\<rparr>"

definition sample_gateway :: gateway where
  "sample_gateway = \<lparr>gw_capability = sample_capability, gw_prices = sample_prices, gw_retry = sample_policy\<rparr>"

definition sample_gateway_externals :: gateway_externals where
  "sample_gateway_externals = \<lparr>gx_value = (\<lambda>s. if s = ''[]'' then Some (VList []) else None), gx_int = (\<lambda>_. None),
     gx_decimal = (\<lambda>s. if s = ''NaN'' then Some DNaN else None), gx_time = sample_time, gx_float = (\<lambda>_. ''0.0''),
     gx_sha = (\<lambda>_. replicate 64 (CHR ''a''))\<rparr>"

definition sample_model_request :: model_request where
  "sample_model_request = \<lparr>mq_run_scope = \<lparr>rs_run_id = 1, rs_track = ''retail'', rs_mode = ''retail'', rs_subject_id = ''s'',
       rs_experiment_id = ''e'', rs_config_hash = replicate 64 (CHR ''a'')\<rparr>,
     mq_attempt_id = 2, mq_sequence = 0, mq_inference = Thinking \<lparr>th_effort = EffortHigh, th_max_output_tokens = 100\<rparr>,
     mq_messages = [\<lparr>cm_role = ''user'', cm_content = ''q''\<rparr>], mq_history = [], mq_tools = [],
     mq_timeout_seconds = Dec False 60 0, mq_capability_revision = ''r'', mq_provider_user_id = replicate 32 (CHR ''a''),
     mq_prompt_policy_hash = replicate 64 (CHR ''a''), mq_rendered_prompt_hash = replicate 64 (CHR ''a''),
     mq_tool_hash = replicate 64 (CHR ''a''), mq_context_hash = replicate 64 (CHR ''a''), mq_config_hash = replicate 64 (CHR ''a'')\<rparr>"

definition sample_body :: "json \<Rightarrow> json" where
  "sample_body fp = JObj [(''model'', JStr ''m''), (''system_fingerprint'', fp), (''choices'', JList [JObj
     [(''finish_reason'', JStr ''stop''), (''message'', JObj [(''content'', JStr ''ok'')])]])]"

definition sample_exchange :: "provider_answer \<Rightarrow> exchange" where
  "sample_exchange a = \<lparr>ex_sent_at = Aware 10 0, ex_before = None, ex_answer = a, ex_completed_at = Aware 20 0,
     ex_after = None, ex_jitter = dec_zero\<rparr>"

definition sample_env :: "json \<Rightarrow> nat \<Rightarrow> exchange" where
  "sample_env fp n = sample_exchange (if n = 1 then Answer 503 None None else Answer 200 None (Some (sample_body fp)))"

lemma sample_encoded:
  "validate_request sample_gateway sample_gateway_externals sample_model_request = Inr ()"
  "\<exists>b. encode_request sample_gateway sample_gateway_externals sample_model_request [] st = (Inr b, st)"
  by (code_simp, simp add: encode_request_def sample_model_request_def split_trailing_user_def)

lemma sample_sha [simp]: "gx_sha sample_gateway_externals b = replicate 64 (CHR ''a'')"
  by (simp add: sample_gateway_externals_def)

definition sample_saved_turn :: private_provider_turn where
  "sample_saved_turn = \<lparr>pv_scope_digest = replicate 64 (CHR ''a''), pv_attempt_id = 2, pv_sequence = 0, pv_model = ''m'',
     pv_content = Some ''ok'', pv_reasoning_content = None, pv_tool_calls_json = ''[]'',
     pv_payload_sha256 = replicate 64 (CHR ''a''), pv_expected_tool_call_ids = [], pv_token_weight = 0,
     pv_created_at = 10, pv_last_used_at = 10, pv_absolute_expires_at = 10 + 7 * usec_per_day\<rparr>"

lemma sample_calls_text: "dumps (JList []) = ''[]''"
  by code_simp

lemma sample_calls_read: "gx_json sample_gateway_externals ''[]'' = Some (JList [])"
  by (simp add: gx_json_def sample_gateway_externals_def)

lemma sample_hex_ok: "hex64 (replicate 64 (CHR ''a''))"
  by code_simp

lemma sample_saved_valid: "valid_private_provider_turn (gx_json sample_gateway_externals) sample_saved_turn"
  by (simp add: valid_private_provider_turn_def sample_saved_turn_def sample_hex_ok sample_calls_read tool_calls_of_def
      sample_calls_text opt_text_ok_def len_ok_def absolute_ttl_def)

definition sample_summary :: "nat \<Rightarrow> attempt_outcome \<Rightarrow> bool \<Rightarrow> int option \<Rightarrow> usage \<Rightarrow> cost \<Rightarrow> model_attempt_summary" where
  "sample_summary n oc r st u c = \<lparr>ma_attempt_number = int n, ma_sent_at = Aware 10 0, ma_completed_at = Aware 20 0,
     ma_outcome = oc, ma_http_status = st, ma_retryable = r, ma_charge_ambiguous = False, ma_usage = u, ma_cost = c\<rparr>"

lemma sample_summaries_valid:
  "valid_model_attempt_summary (sample_summary 1 HttpError True (Some 503) failed_usage failed_cost)"
  "valid_model_attempt_summary (sample_summary 2 AttemptSuccess False None (UsageUnavailable ''provider_usage_missing'')
     (CostUnavailable ''usage_unavailable''))"
  by code_simp+

lemma sample_parse:
  "parse_payload sample_gateway sample_gateway_externals (Aware 10 0) (Some (sample_body fp))
     = Some (Stop, UsageUnavailable ''provider_usage_missing'', CostUnavailable ''usage_unavailable'')"
  by (simp add: parse_payload_def finish_reason_of_def only_choice_def sample_body_def reason_of_text_def payload_usage_def
      cost_of_def)

lemma sample_output:
  "parse_output sample_gateway sample_gateway_externals sample_model_request (UsageUnavailable ''provider_usage_missing'')
     (Aware 10 0) Stop (sample_body fp) = Some (FinalOutput ''ok'', sample_saved_turn)"
proof -
  have t: "private_turn sample_gateway_externals sample_model_request ''m'' (Some ''ok'') None [] []
      (UsageUnavailable ''provider_usage_missing'') (Aware 10 0) = sample_saved_turn"
    by (simp add: private_turn_def sample_saved_turn_def sample_calls_text scope_digest_def sample_model_request_def
        token_weight_def to_instant_def)
  have "valid_model_output (canonb sample_gateway_externals) (FinalOutput ''ok'')"
    by (simp add: valid_model_output_def len_ok_def)
  then show ?thesis
    by (simp add: parse_output_def only_choice_def sample_body_def raw_calls_of_def output_of_def optional_text_def
        Let_def t sample_saved_valid sample_gateway_def sample_capability_def is_aware_def)
qed

lemma sample_retry:
  "retry_decision (gx_decimal sample_gateway_externals) sample_policy 1 None dec_zero
     = Some \<lparr>rd_should_retry = True, rd_delay_seconds = Dec False 5 (-1)\<rparr>"
  by code_simp

lemma sample_first:
  "handle_answer sample_gateway sample_gateway_externals sample_model_request 9 (sample_env fp 1) 1 [] st
     = (Again [sample_summary 1 HttpError True (Some 503) failed_usage failed_cost] (Dec False 5 (-1)), st)"
  using sample_summaries_valid(1)
  by (simp add: handle_answer_def sample_env_def sample_exchange_def record_summary_def retryable_status_def Let_def
      sample_summary_def retry_or_def wait_to_retry_def sample_gateway_def sample_retry [unfolded One_nat_def] step_of_def)

lemma sample_second:
  "handle_answer sample_gateway sample_gateway_externals sample_model_request 9 (sample_env fp 2) 2 as st
     = succeed sample_gateway sample_gateway_externals 9 (Some (sample_body fp)) Stop
         (UsageUnavailable ''provider_usage_missing'') (CostUnavailable ''usage_unavailable'') (FinalOutput ''ok'')
         sample_saved_turn (as @ [sample_summary 2 AttemptSuccess False None (UsageUnavailable ''provider_usage_missing'')
     (CostUnavailable ''usage_unavailable'')]) st"
  using sample_summaries_valid(2)
  by (simp add: handle_answer_def handle_body_def sample_env_def sample_exchange_def record_summary_def Let_def
      sample_summary_def sample_parse sample_output)

lemma sample_save:
  "save_turn (gx_sha sample_gateway_externals) (gx_json sample_gateway_externals) 9 sample_saved_turn []
     = (Inr (turn_ref 9 sample_saved_turn), [(9, sample_saved_turn)])"
  by code_simp

definition sample_gateway_response :: model_response where
  "sample_gateway_response = \<lparr>ms_output = FinalOutput ''ok'', ms_provider_turn_ref = turn_ref 9 sample_saved_turn,
     ms_finish_reason = Stop, ms_actual_model = ''m'', ms_system_fingerprint = None,
     ms_usage = UsageUnavailable ''provider_usage_missing'', ms_cost = CostUnavailable ''usage_unavailable'',
     ms_attempts = [sample_summary 1 HttpError True (Some 503) failed_usage failed_cost,
       sample_summary 2 AttemptSuccess False None (UsageUnavailable ''provider_usage_missing'')
         (CostUnavailable ''usage_unavailable'')]\<rparr>"

lemma sample_gateway_reply_valid: "valid_model_response (canonb sample_gateway_externals) sample_gateway_response"
proof -
  let ?u = "UsageUnavailable ''provider_usage_missing''" and ?c = "CostUnavailable ''usage_unavailable''"
  have "valid_usage ?u" "valid_cost ?c" by code_simp+
  moreover have "valid_provider_turn_ref (turn_ref 9 sample_saved_turn)"
    by (simp add: valid_provider_turn_ref_def turn_ref_def sample_saved_turn_def sample_hex_ok is_aware_def)
  moreover have "tf_expected_tool_call_ids (turn_ref 9 sample_saved_turn) = []"
    by (simp add: turn_ref_def sample_saved_turn_def)
  ultimately show ?thesis
    using sample_summaries_valid
    by (simp add: valid_model_response_def sample_gateway_response_def valid_model_output_def len_ok_def output_bound_def
        sample_summary_def)
qed

lemma sample_completion:
  "gateway_complete sample_gateway sample_gateway_externals sample_model_request 9 [] (sample_env JNull) []
     = \<lparr>cp_result = Inr sample_gateway_response, cp_sent = [1, 2], cp_delays = [Dec False 5 (-1)], cp_store = [(9, sample_saved_turn)]\<rparr>"
proof -
  obtain b where b: "encode_request sample_gateway sample_gateway_externals sample_model_request [] [] = (Inr b, [])"
    using sample_encoded(2) by blast
  have fp: "fingerprint_of (Some (sample_body JNull)) = Some None"
    by (simp add: fingerprint_of_def sample_body_def optional_text_def)
  have cap: "cs_response_model (gw_capability sample_gateway) = ''m''"
    by (simp add: sample_gateway_def sample_capability_def)
  have three: "rp_maximum_attempts (gw_retry sample_gateway) = Suc (Suc 1)"
    by (simp add: sample_gateway_def sample_policy_def)
  have before: "ex_before (sample_env JNull n) = None" for n
    by (simp add: sample_env_def sample_exchange_def)
  show ?thesis
    using sample_gateway_reply_valid sample_second [of JNull, unfolded numeral_2_eq_2]
    by (simp add: gateway_complete_def sample_encoded(1) b three before sample_first [unfolded One_nat_def] succeed_def sample_save fp Let_def
        cap sample_gateway_response_def numeral_2_eq_2)
qed

theorem completion_accounts_attempts_witness:
  "\<exists>r. cp_result (gateway_complete sample_gateway sample_gateway_externals sample_model_request 9 [] (sample_env JNull) []) = Inr r
     \<and> valid_model_response (canonb sample_gateway_externals) r"
proof -
  let ?c = "gateway_complete sample_gateway sample_gateway_externals sample_model_request 9 [] (sample_env JNull) []"
  obtain b where b: "encode_request sample_gateway sample_gateway_externals sample_model_request [] [] = (Inr b, [])"
    using sample_encoded(2) by blast
  have "valid_retry_policy (gw_retry sample_gateway)" by code_simp
  then have "\<forall>r. cp_result ?c = Inr r \<longrightarrow> valid_model_response (canonb sample_gateway_externals) r"
    using completion_accounts_attempts [OF _ sample_encoded(1) b refl, of 9 "sample_env JNull"] by blast
  then show ?thesis using sample_completion by simp
qed

subsection \<open>Only declared errors\<close>

text \<open>
  Surroundings that behave: aware clocks that do not run backwards, a status in the range of HTTP, a Retry-After
  that is not NaN, a fingerprint that is absent or a text of 1 to 256 characters.
\<close>

definition fingerprint_ok :: "json option \<Rightarrow> bool" where
  "fingerprint_ok body \<longleftrightarrow> (\<forall>kvs. body = Some (JObj kvs) \<longrightarrow>
     (\<exists>fp. optional_text (map_of kvs ''system_fingerprint'') = Some fp \<and> (\<forall>s. fp = Some s \<longrightarrow> len_ok 1 256 s)))"

definition good_exchange :: "gateway \<Rightarrow> gateway_externals \<Rightarrow> exchange \<Rightarrow> bool" where
  "good_exchange G X x \<longleftrightarrow>
     is_aware (ex_sent_at x) \<and> is_aware (ex_completed_at x)
     \<and> to_instant (ex_sent_at x) \<le> to_instant (ex_completed_at x)
     \<and> (case ex_answer x of
          Unreachable _ \<Rightarrow> good_retry (gx_decimal X) (gw_retry G) None (ex_jitter x)
        | Answer status ra body \<Rightarrow> 100 \<le> status \<and> status \<le> 599 \<and> fingerprint_ok body
            \<and> good_retry (gx_decimal X) (gw_retry G) ra (ex_jitter x))"

definition declared :: "step \<Rightarrow> bool" where
  "declared s \<longleftrightarrow> (\<forall>e. s = Raised e \<longrightarrow> (\<exists>f. e = ModelFailure f) \<or> (\<exists>r. e = StateFailure (ModelStateError r))
     \<or> (\<exists>g. e = GuardRaised g))"

lemma declared_simps [simp]:
  "declared (Again a d)" "declared (Returned r)" "declared (Raised (ModelFailure f))" "declared (Raised (GuardRaised g))"
  "declared (Raised (StateFailure (ModelStateError reason)))"
  by (simp_all add: declared_def)

lemma attempt_failed_valid: "valid_usage failed_usage" "valid_cost failed_cost"
  by code_simp+

lemma missing_usage_valid: "valid_usage (UsageUnavailable ''provider_usage_missing'')"
  "valid_cost (CostUnavailable ''usage_unavailable'')"
  by code_simp+

lemma reported_of_valid: "reported_of X u d = Some r \<Longrightarrow> valid_reported_usage r"
  by (auto simp: reported_of_def Let_def split: option.splits if_splits)

lemma payload_usage_valid: "payload_usage X kvs = Some u \<Longrightarrow> valid_usage u"
  using missing_usage_valid
  by (auto simp: payload_usage_def valid_usage_def split: option.splits json.splits if_splits dest!: reported_of_valid)

lemma cost_of_valid: "cost_of G X u t = Some c \<Longrightarrow> valid_cost c"
  using missing_usage_valid
  by (auto simp: cost_of_def calculate_cost_def valid_cost_def Let_def bind_eq_Some_conv split: usage.splits if_splits)

lemma only_choice_object: "only_choice body = Some (kvs, ch) \<Longrightarrow> body = JObj kvs"
  by (auto simp: only_choice_def split: json.splits option.splits list.splits)

lemma parse_payload_valid:
  assumes "parse_payload G X t body = Some (f, u, c)"
  shows "valid_usage u \<and> valid_cost c \<and> body \<noteq> None"
proof -
  obtain b kvs ch where "body = Some b" "payload_usage X kvs = Some u" "cost_of G X u t = Some c"
    using assms by (auto simp: parse_payload_def bind_eq_Some_conv)
  then show ?thesis by (simp add: payload_usage_valid cost_of_valid)
qed

lemma record_summary_good:
  assumes "good_exchange G X x" "1 \<le> n" "n \<le> 3" "valid_usage u" "valid_cost c"
    "case s of None \<Rightarrow> True | Some h \<Rightarrow> 100 \<le> h \<and> h \<le> 599"
  shows "record_summary x n oc re am s u c as \<noteq> Inl ValueErrorRaised"
  using assms by (auto simp: record_summary_def Let_def valid_model_attempt_summary_def good_exchange_def split: option.splits)

lemma record_summary_declared:
  assumes "good_exchange G X x" "1 \<le> n" "n \<le> 3" "valid_usage u" "valid_cost c"
    "case s of None \<Rightarrow> True | Some h \<Rightarrow> 100 \<le> h \<and> h \<le> 599" "record_summary x n oc re am s u c as = Inl e"
  shows "declared (Raised e)"
  using record_summary_good [OF assms(1-6)] record_summary_Inl [OF assms(7)] assms(7) by auto

lemma retry_or_declared:
  assumes "good_retry (gx_decimal X) (gw_retry G) ra (ex_jitter x)" "fails_with err"
    "retry_or G X x n ra err as = Inl e"
  shows "declared (Raised e)"
proof -
  obtain d where "retry_decision (gx_decimal X) (gw_retry G) n ra (ex_jitter x) = Some d"
    using retry_decision_ok [OF assms(1)] by metis
  then have "e = err as" using assms(3) by (auto simp: retry_or_def wait_to_retry_def rbind_Inl_iff split: option.splits if_splits)
  then show ?thesis using assms(2) by (auto simp: fails_with_def declared_def)
qed

lemma retry_step_declared:
  assumes "good_exchange G X x" "1 \<le> n" "n \<le> 3" "valid_usage u" "valid_cost c"
    "case s of None \<Rightarrow> True | Some h \<Rightarrow> 100 \<le> h \<and> h \<le> 599"
    "good_retry (gx_decimal X) (gw_retry G) ra (ex_jitter x)" "fails_with err"
  shows "declared (step_of (rbind (record_summary x n oc re am s u c as) (retry_or G X x n ra err)))"
proof (cases "record_summary x n oc re am s u c as")
  case (Inl e)
  then show ?thesis using record_summary_declared [OF assms(1-6) Inl] by (simp add: step_of_def)
next
  case (Inr as')
  show ?thesis
  proof (cases "retry_or G X x n ra err as'")
    case (Inl e)
    then show ?thesis using Inr retry_or_declared [OF assms(7,8) Inl] by (simp add: step_of_def)
  qed (use Inr in \<open>auto simp: step_of_def\<close>)
qed

lemma parse_output_Some:
  assumes "parse_output G X q u t f body = Some (out, p)"
  obtains kvs ch m raw calls content reasoning where "body = JObj kvs" "only_choice body = Some (kvs, ch)"
    "map_of ch ''message'' = Some (JObj m)" "raw_calls_of m = Some raw" "those (map (parse_tool_call X) raw) = Some calls"
    "output_of m calls f = Some out" "optional_text (map_of m ''content'') = Some content"
    "optional_text (map_of m ''reasoning_content'') = Some reasoning"
    "p = private_turn X q (cs_response_model (gw_capability G)) content reasoning raw calls u t"
    "valid_model_output (canonb X) out" "valid_private_provider_turn (gx_json X) p" "is_aware t"
proof -
  obtain kvs ch where b: "only_choice body = Some (kvs, ch)"
    using assms by (auto simp: parse_output_def bind_eq_Some_conv)
  then have "body = JObj kvs" by (rule only_choice_object)
  then show ?thesis
    using assms b that by (auto simp: parse_output_def bind_eq_Some_conv Let_def split: if_splits option.splits json.splits)
qed

lemma output_of_bound:
  "output_of m calls f = Some out \<Longrightarrow> (case out of ToolCallOutput cs \<Rightarrow> cs = calls \<and> f = ToolCallsReason
     | FinalOutput _ \<Rightarrow> calls = [] \<and> f \<noteq> ToolCallsReason)"
  by (auto simp: output_of_def split: if_splits option.splits json.splits)

lemma turn_ref_valid:
  "valid_private_provider_turn loads t \<Longrightarrow> [] \<notin> set (pv_expected_tool_call_ids t) \<Longrightarrow> valid_provider_turn_ref (turn_ref i t)"
  by (simp add: valid_private_provider_turn_def valid_provider_turn_ref_def turn_ref_def is_aware_def)

lemma save_turn_declared:
  assumes "valid_private_provider_turn loads t" "[] \<notin> set (pv_expected_tool_call_ids t)"
    "save_turn sha loads i t st = (Inl e, st')"
  shows "\<exists>r. e = ModelStateError r"
  using assms turn_ref_valid [OF assms(1,2), of i] by (auto simp: save_turn_def split: if_splits)

lemma succeed_declared:
  assumes po: "parse_output G X q u t f body = Some (out, p)" and fp: "fingerprint_ok (Some body)"
    and v: "valid_usage u" "valid_cost c" "valid_capability_snapshot (gw_capability G)"
    and log: "log_ok n as" "n \<le> 3" "1 \<le> n" "valid_model_attempt_summary m" "ma_attempt_number m = int n"
      "ma_outcome m = AttemptSuccess" "ma_usage m = u" "ma_cost m = c"
  shows "declared (fst (succeed G X i (Some body) f u c out p (as @ [m]) st))"
proof -
  obtain kvs ch mm raw calls content reasoning where d: "body = JObj kvs" "output_of mm calls f = Some out"
    "p = private_turn X q (cs_response_model (gw_capability G)) content reasoning raw calls u t"
    "valid_model_output (canonb X) out" "valid_private_provider_turn (gx_json X) p"
    using parse_output_Some [OF po] by metis
  note ob = output_of_bound [OF d(2)]
  have ids: "pv_expected_tool_call_ids p = map tc_call_id calls" by (simp add: d(3) private_turn_def)
  have ne: "[] \<notin> set (pv_expected_tool_call_ids p)"
    using ob d(4) by (cases out) (auto simp: ids valid_model_output_def valid_tool_call_def list_all_iff len_ok_def)
  obtain s where s: "optional_text (map_of kvs ''system_fingerprint'') = Some s" "\<forall>x. s = Some x \<longrightarrow> len_ok 1 256 x"
    using fp d(1) by (auto simp: fingerprint_ok_def)
  obtain r st' where sv: "save_turn (gx_sha X) (gx_json X) i p st = (r, st')" by (rule prod.exhaust)
  show ?thesis
  proof (cases r)
    case (Inl e)
    then obtain reason where "e = ModelStateError reason" using save_turn_declared [OF d(5) ne, of "gx_sha X" i st e st'] sv by auto
    then show ?thesis using Inl sv by (simp add: succeed_def)
  next
    case (Inr ref)
    then have ref: "ref = turn_ref i p" using save_turn_ok sv by blast
    have len: "length as = n - 1" using log_okD [OF log(1)] .
    define resp where "resp = \<lparr>ms_output = out, ms_provider_turn_ref = ref, ms_finish_reason = f,
        ms_actual_model = cs_response_model (gw_capability G), ms_system_fingerprint = s,
        ms_usage = u, ms_cost = c, ms_attempts = as @ [m]\<rparr>"
    have "valid_model_response (canonb X) resp"
      unfolding valid_model_response_def resp_def
      using d(4) turn_ref_valid [OF d(5) ne, of i] v s(2) log len ob ids
      by (auto simp: ref valid_capability_snapshot_def len_ok_def log_ok_def list_all_iff output_bound_def turn_ref_def
          split: option.splits model_output.splits)
    then show ?thesis using Inr sv s d(1) by (simp add: succeed_def fingerprint_of_def resp_def)
  qed
qed

lemma handle_body_declared:
  assumes x: "good_exchange G X x" "ex_answer x = Answer st0 ra body" and n: "1 \<le> n" "n \<le> 3" and l: "log_ok n as"
    and cap: "valid_capability_snapshot (gw_capability G)"
  shows "declared (fst (handle_body G X q i x n body as st))"
proof -
  have proto: "declared (protocol_error x n u c as)" if "valid_usage u" "valid_cost c" for u c
    using record_summary_declared [OF x(1) n that, of None] record_summary_good [OF x(1) n that, of None]
    by (cases "record_summary x n ProtocolError False True None u c as")
       (auto simp: protocol_error_def step_of_def failure_def)
  show ?thesis
  proof (cases "parse_payload G X (ex_sent_at x) body")
    case None
    then show ?thesis using proto attempt_failed_valid by (simp add: handle_body_def)
  next
    case (Some p)
    obtain f u c where p: "p = (f, u, c)" by (rule prod.exhaust) (metis prod.exhaust)
    have v: "valid_usage u" "valid_cost c" "body \<noteq> None" using parse_payload_valid Some p by auto
    consider "f = InsufficientResource" | "f \<noteq> InsufficientResource" "Option.bind body (parse_output G X q u (ex_sent_at x) f) = None"
      | out t where "f \<noteq> InsufficientResource" "Option.bind body (parse_output G X q u (ex_sent_at x) f) = Some (out, t)"
      by fastforce
    then show ?thesis
    proof cases
      case 1
      have gr: "good_retry (gx_decimal X) (gw_retry G) None (ex_jitter x)" using x by (simp add: good_exchange_def good_retry_def)
      show ?thesis
        using Some p 1 retry_step_declared [OF x(1) n v(1,2) _ gr, of None] by (simp add: handle_body_def)
    next
      case 2
      then show ?thesis using Some p proto v by (simp add: handle_body_def)
    next
      case 3
      then obtain b where b: "body = Some b" "parse_output G X q u (ex_sent_at x) f b = Some (out, t)"
        by (auto simp: bind_eq_Some_conv)
      show ?thesis
      proof (cases "record_summary x n AttemptSuccess False False None u c as")
        case (Inl e)
        then show ?thesis using Some p 3 record_summary_declared [OF x(1) n v(1,2), of None] by (simp add: handle_body_def)
      next
        case (Inr as')
        then obtain m where m: "as' = as @ [m]" "ma_attempt_number m = int n" "ma_outcome m = AttemptSuccess"
          "ma_usage m = u" "ma_cost m = c" "valid_model_attempt_summary m"
          using record_summary_Inr [OF Inr] by blast
        have "fingerprint_ok (Some b)" using x b by (simp add: good_exchange_def)
        from succeed_declared [OF b(2) this v(1,2) cap l n(2,1) m(6,2-5)]
        show ?thesis using Some p 3 Inr m(1) b(1) by (simp add: handle_body_def)
      qed
    qed
  qed
qed

lemma handle_answer_declared:
  assumes x: "good_exchange G X x" and n: "1 \<le> n" "n \<le> 3" and l: "log_ok n as"
    and cap: "valid_capability_snapshot (gw_capability G)"
  shows "declared (fst (handle_answer G X q i x n as st))"
proof (cases "ex_answer x")
  case (Unreachable connect)
  then have gr: "good_retry (gx_decimal X) (gw_retry G) None (ex_jitter x)" using x by (simp add: good_exchange_def)
  show ?thesis
    using Unreachable retry_step_declared [OF x n attempt_failed_valid _ gr, of None] by (simp add: handle_answer_def)
next
  case (Answer status ra body)
  then have gr: "good_retry (gx_decimal X) (gw_retry G) ra (ex_jitter x)" and st: "100 \<le> status" "status \<le> 599"
    using x by (simp_all add: good_exchange_def)
  have r: "declared (Raised (raise_http status as'))" for as' by (simp add: raise_http_def failure_def)
  consider "status < 400" | "400 \<le> status" "retryable_status status" | "400 \<le> status" "\<not> retryable_status status" by linarith
  then show ?thesis
  proof cases
    case 1
    then show ?thesis using Answer handle_body_declared [OF x Answer n l cap] by (simp add: handle_answer_def)
  next
    case 2
    then show ?thesis
      using Answer st retry_step_declared [OF x n attempt_failed_valid _ gr, of "Some status"] by (simp add: handle_answer_def)
  next
    case 3
    then show ?thesis
      using Answer st r record_summary_declared [OF x n attempt_failed_valid, of "Some status" HttpError False False as]
      by (cases "record_summary x n HttpError False False (Some status) failed_usage failed_cost as")
         (simp_all add: handle_answer_def step_of_def)
  qed
qed

lemma attempts_from_declared:
  assumes "log_ok n as" "1 \<le> n" "n + k = Suc (rp_maximum_attempts (gw_retry G))" "0 < k"
    "rp_maximum_attempts (gw_retry G) \<le> 3" "valid_capability_snapshot (gw_capability G)"
    "\<And>m. good_exchange G X (env m)"
  shows "case cp_result (attempts_from G X q i env k n as st) of Inl e \<Rightarrow> declared (Raised e) | Inr _ \<Rightarrow> True"
  using assms(1-4)
proof (induction k arbitrary: n as st)
  case 0
  then show ?case by simp
next
  case (Suc k)
  obtain s st' where s: "handle_answer G X q i (env n) n as st = (s, st')" by (rule prod.exhaust)
  have ok: "step_ok G X (env n) n as s" using handle_answer_ok [of G X "env n" n as q i st] s by simp
  have "declared (fst (handle_answer G X q i (env n) n as st))"
    using Suc.prems assms(5-7) by (intro handle_answer_declared) auto
  then have d: "declared s" using s by simp
  show ?case
  proof (cases "ex_before (env n)")
    case (Some e)
    then show ?thesis by simp
  next
    case None
    show ?thesis
    proof (cases s)
      case (Again as' dl)
      then have "log_ok (Suc n) as'" "n < rp_maximum_attempts (gw_retry G)"
        using ok log_ok_snoc [OF Suc.prems(1,2)] by (auto simp: step_ok_def)
      then show ?thesis using Suc.IH [of "Suc n" as' st'] Suc.prems None s Again by (simp add: Let_def)
    qed (use d s None in simp_all)
  qed
qed

text \<open>\<open>gx_value\<close> and the store: what was saved, and what a request validated, parses.\<close>

lemma canonb_value: "canonb X s \<Longrightarrow> gx_value X s \<noteq> None"
  by (auto simp: canonb_def split: option.splits)

lemma encode_history_declared:
  "turn_inv (gx_sha X) (gx_json X) st \<Longrightarrow> encode_history X gs nows st = (Inl e, st') \<Longrightarrow> \<exists>r. e = StateFailure (ModelStateError r)"
proof (induction X gs nows st arbitrary: e st' rule: encode_history.induct)
  case (2 X g gs nows st)
  obtain r st1 where r: "resolve_turn (hd nows) (group_ref g) st = (r, st1)" by (rule prod.exhaust)
  have inv: "turn_inv (gx_sha X) (gx_json X) st1" using resolve_turn_inv [OF 2(2) r] .
  show ?case
  proof (cases r)
    case (Inl err)
    then have "\<exists>x. err = ModelStateError x"
      using r by (auto simp: resolve_turn_def Let_def split: option.splits if_splits)
    then show ?thesis using 2(3) r Inl by auto
  next
    case (Inr p)
    obtain u where u: "map_of st (tf_turn_id (group_ref g)) = Some u" "p = u\<lparr>pv_last_used_at := hd nows\<rparr>"
      using r Inr by (auto simp: resolve_turn_def Let_def split: option.splits if_splits)
    then have "payload_sha256 (gx_sha X) (gx_json X) u \<noteq> None"
      using 2(2) map_of_SomeD [OF u(1)] by (auto simp: turn_inv_def)
    then obtain calls where "gx_value X (pv_tool_calls_json p) = Some calls"
      using u(2) by (auto simp: payload_sha256_def gx_json_def bind_eq_Some_conv)
    then show ?thesis using 2(1) [OF r [symmetric] Inr _ inv] 2(3) r Inr
      by (auto split: sum.splits prod.splits)
  qed
qed simp

lemma those_Some: "(\<And>x. x \<in> set xs \<Longrightarrow> f x \<noteq> None) \<Longrightarrow> those (map f xs) \<noteq> None"
proof (induction xs)
  case (Cons a xs)
  then have "f a \<noteq> None" "those (map f xs) \<noteq> None" by auto
  then show ?case by auto
qed simp

lemma encode_request_declared:
  assumes "turn_inv (gx_sha X) (gx_json X) st" "valid_model_request (canonb X) q"
    "encode_request G X q nows st = (Inl e, st')"
  shows "\<exists>r. e = StateFailure (ModelStateError r)"
proof -
  have "those (map (tool_json X) (mq_tools q)) \<noteq> None"
    using assms(2) canonb_value
    by (intro those_Some) (auto simp: tool_json_def valid_model_request_def list_all_iff valid_tool_definition_def)
  then obtain tools where "those (map (tool_json X) (mq_tools q)) = Some tools" by auto
  moreover obtain r st1 where "encode_history X (mq_history q) nows st = (r, st1)" by (rule prod.exhaust)
  ultimately show ?thesis
    using encode_history_declared [OF assms(1), of "mq_history q" nows] assms(3)
    by (cases r) (auto simp: encode_request_def split_beta)
qed

text \<open>
  C28: A completion raises only declared errors. With a valid request, a consistent turn store and surroundings that
  behave, the result is a response, a gateway failure with its attempts, a turn store refusal or an error of the
  guard: no contract violation, decimal signal or assertion of the gateway's own code escapes.
\<close>

theorem completion_raises_declared_errors:
  assumes "valid_retry_policy (gw_retry G)" "valid_capability_snapshot (gw_capability G)"
    and "valid_model_request (canonb X) q" "turn_inv (gx_sha X) (gx_json X) st"
    and "\<And>n. good_exchange G X (env n)"
    and "cp_result (gateway_complete G X q fresh nows env st) = Inl e"
  shows "(\<exists>f. e = ModelFailure f) \<or> (\<exists>r. e = StateFailure (ModelStateError r)) \<or> (\<exists>g. e = GuardRaised g)"
proof (cases rule: complete_cases [of G X q fresh nows env st])
  case (1 e' st1)
  then have "e' = e" using assms(6) by simp
  then show ?thesis
    using 1(2) encode_request_declared [OF assms(4,3)]
    by (auto simp: validate_request_def capability_error_def Let_def split: if_splits)
next
  case (2 body st1)
  have "log_ok 1 []" by (simp add: log_ok_def)
  then have "declared (Raised e)"
    using attempts_from_declared [of 1 "[]" "rp_maximum_attempts (gw_retry G)" G X env q fresh st1] assms 2
    by (simp add: valid_retry_policy_def)
  then show ?thesis by (simp add: declared_def)
qed

text \<open>A provider that never answers.\<close>

definition silent_env :: "nat \<Rightarrow> exchange" where
  "silent_env n = sample_exchange (Unreachable True)"

lemma sample_request_valid: "valid_model_request c sample_model_request"
proof -
  have "valid_run_scope (mq_run_scope sample_model_request)" by code_simp
  moreover have "valid_inference_config (mq_inference sample_model_request)" by code_simp
  moreover have "list_all valid_chat_message (mq_messages sample_model_request)"
    by (simp add: sample_model_request_def valid_chat_message_def len_ok_def)
  moreover have "dec_lt dec_zero (Dec False 60 0)" "dec_le (Dec False 60 0) (dec_of_int 600)" by code_simp+
  moreover have "list_all is_hex (replicate 32 (CHR ''a''))" by code_simp
  ultimately show ?thesis
    by (simp add: valid_model_request_def sample_model_request_def sample_hex_ok len_ok_def)
qed

lemma silent_failure:
  "cp_result (gateway_complete sample_gateway sample_gateway_externals sample_model_request 9 [] silent_env [])
     = Inl (failure TransportFailure ''transport_retry_exhausted'' True False (map (\<lambda>n.
         sample_summary n TransportError True None failed_usage failed_cost) [1, 2, 3]))"
proof -
  obtain b where b: "encode_request sample_gateway sample_gateway_externals sample_model_request [] [] = (Inr b, [])"
    using sample_encoded(2) by blast
  have three: "rp_maximum_attempts (gw_retry sample_gateway) = Suc (Suc (Suc 0))"
    by (simp add: sample_gateway_def sample_policy_def)
  have v: "valid_model_attempt_summary (sample_summary 1 TransportError True None failed_usage failed_cost)"
    "valid_model_attempt_summary (sample_summary 2 TransportError True None failed_usage failed_cost)"
    "valid_model_attempt_summary (sample_summary 3 TransportError True None failed_usage failed_cost)"
    by code_simp+
  have r: "retry_decision (gx_decimal sample_gateway_externals) sample_policy 1 None dec_zero
      = Some \<lparr>rd_should_retry = True, rd_delay_seconds = Dec False 5 (-1)\<rparr>"
    "retry_decision (gx_decimal sample_gateway_externals) sample_policy 2 None dec_zero
      = Some \<lparr>rd_should_retry = True, rd_delay_seconds = Dec False 10 (-1)\<rparr>"
    "retry_decision (gx_decimal sample_gateway_externals) sample_policy 3 None dec_zero
      = Some \<lparr>rd_should_retry = False, rd_delay_seconds = dec_zero\<rparr>"
    by code_simp+
  have step: "handle_answer sample_gateway sample_gateway_externals sample_model_request 9 (silent_env n) n as st
     = (case retry_decision (gx_decimal sample_gateway_externals) sample_policy n None dec_zero of
          None \<Rightarrow> Raised InvalidOperationRaised
        | Some d \<Rightarrow> if rd_should_retry d
            then Again (as @ [sample_summary n TransportError True None failed_usage failed_cost]) (rd_delay_seconds d)
            else Raised (failure TransportFailure ''transport_retry_exhausted'' True False
              (as @ [sample_summary n TransportError True None failed_usage failed_cost])), st)"
    if "valid_model_attempt_summary (sample_summary n TransportError True None failed_usage failed_cost)" for n as st
    using that
    by (simp add: handle_answer_def silent_env_def sample_exchange_def record_summary_def Let_def sample_summary_def
        retry_or_def wait_to_retry_def sample_gateway_def step_of_def split: option.split)
  have before: "ex_before (silent_env n) = None" for n by (simp add: silent_env_def sample_exchange_def)
  show ?thesis
    using v r
    by (simp add: gateway_complete_def sample_encoded(1) b three before step Let_def One_nat_def numeral_2_eq_2 numeral_3_eq_3)
qed

theorem completion_raises_declared_errors_witness:
  "\<exists>f. cp_result (gateway_complete sample_gateway sample_gateway_externals sample_model_request 9 [] silent_env [])
     = Inl (ModelFailure f)"
proof -
  have p: "valid_retry_policy (gw_retry sample_gateway)" "valid_capability_snapshot (gw_capability sample_gateway)"
    "good_retry (gx_decimal sample_gateway_externals) (gw_retry sample_gateway) None dec_zero"
    by (code_simp, code_simp, simp add: good_retry_def sample_gateway_def, code_simp)
  have x: "good_exchange sample_gateway sample_gateway_externals (silent_env n)" for n
    using p(3) by (simp add: good_exchange_def silent_env_def sample_exchange_def is_aware_def to_instant_def)
  obtain e where e: "cp_result (gateway_complete sample_gateway sample_gateway_externals sample_model_request 9 [] silent_env []) = Inl e"
    using silent_failure by blast
  from completion_raises_declared_errors [OF p(1,2) sample_request_valid turn_inv_Nil x e]
  show ?thesis using e silent_failure by (auto simp: failure_def)
qed

subsection \<open>The turn store across completions\<close>

text \<open>A store up to the idle clocks, which resolving a turn renews.\<close>

definition idle_erased :: "turn_store \<Rightarrow> turn_store" where
  "idle_erased st = map (\<lambda>(i, t). (i, t\<lparr>pv_last_used_at := 0\<rparr>)) st"

lemma put_turn_renew: "map_of st i = Some t \<Longrightarrow> idle_erased (put_turn i (t\<lparr>pv_last_used_at := now\<rparr>) st) = idle_erased st"
  by (induction st) (auto simp: idle_erased_def split: if_splits)

lemma resolve_turn_erased: "resolve_turn now r st = (res, st') \<Longrightarrow> idle_erased st' = idle_erased st"
  by (auto simp: resolve_turn_def Let_def put_turn_renew split: option.splits if_splits)

lemma encode_history_erased: "encode_history X gs nows st = (res, st') \<Longrightarrow> idle_erased st' = idle_erased st"
proof (induction X gs nows st arbitrary: res st' rule: encode_history.induct)
  case (2 X g gs nows st)
  obtain r st1 where r: "resolve_turn (hd nows) (group_ref g) st = (r, st1)" by (rule prod.exhaust)
  note e = resolve_turn_erased [OF r]
  show ?case
  proof (cases r)
    case (Inr p)
    show ?thesis
    proof (cases "gx_value X (pv_tool_calls_json p)")
      case (Some calls)
      obtain r2 st2 where r2: "encode_history X gs (tl nows) st1 = (r2, st2)" by (rule prod.exhaust)
      show ?thesis using 2(1) [OF r [symmetric] Inr Some r2] 2(2) r Inr Some r2 e by (cases r2) auto
    qed (use 2 r Inr e in auto)
  qed (use 2 r e in auto)
qed simp

lemma encode_request_erased: "encode_request G X q nows st = (res, st') \<Longrightarrow> idle_erased st' = idle_erased st"
proof -
  assume a: "encode_request G X q nows st = (res, st')"
  obtain r st1 where r: "encode_history X (mq_history q) nows st = (r, st1)" by (rule prod.exhaust)
  then have "st' = st1" using a by (cases r) (auto simp: encode_request_def split_beta split: option.splits)
  then show ?thesis using encode_history_erased [OF r] by simp
qed

text \<open>What a returning attempt came from, and that a failing one leaves the store alone.\<close>

lemma step_of_not_returned [simp]: "step_of x \<noteq> Returned r"
  by (simp add: step_of_def split: sum.splits prod.splits)

lemma handle_answer_returned:
  assumes "handle_answer G X q i x n as st = (Returned r, st')"
  obtains status ra body f u t out where "ex_answer x = Answer status ra (Some body)"
    "parse_output G X q u (ex_sent_at x) f body = Some (out, t)" "ms_output r = out"
    "save_turn (gx_sha X) (gx_json X) i t st = (Inr (ms_provider_turn_ref r), st')"
proof -
  obtain status ra body where a: "ex_answer x = Answer status ra body" "handle_body G X q i x n body as st = (Returned r, st')"
    using assms by (auto simp: handle_answer_def split: provider_answer.splits if_splits)
  then obtain f u c where p: "parse_payload G X (ex_sent_at x) body = Some (f, u, c)"
    by (auto simp: handle_body_def protocol_error_def split: option.splits)
  then obtain out t as' where o: "Option.bind body (parse_output G X q u (ex_sent_at x) f) = Some (out, t)"
    "succeed G X i body f u c out t as' st = (Returned r, st')"
    using a(2) by (auto simp: handle_body_def protocol_error_def split: option.splits if_splits sum.splits)
  then obtain b where b: "body = Some b" "parse_output G X q u (ex_sent_at x) f b = Some (out, t)"
    by (auto simp: bind_eq_Some_conv)
  obtain ref st2 where s: "save_turn (gx_sha X) (gx_json X) i t st = (ref, st2)" by (rule prod.exhaust)
  have "st2 = st' \<and> ref = Inr (ms_provider_turn_ref r) \<and> ms_output r = out"
    using o(2) s by (auto simp: succeed_def Let_def split: sum.splits option.splits if_splits)
  then show ?thesis using that a(1) b s by blast
qed

lemma succeed_failure: "succeed G X i body f u c out t as st = (s, st') \<Longrightarrow> s \<noteq> Raised (ModelFailure e) \<and> s \<noteq> Again as' d"
  by (auto simp: succeed_def Let_def split: sum.splits option.splits if_splits prod.splits)

lemma handle_answer_keeps:
  assumes "handle_answer G X q i x n as st = (s, st')" "s = Again as' d \<or> s = Raised (ModelFailure e)"
  shows "st' = st"
proof (cases "ex_answer x")
  case (Unreachable c)
  then show ?thesis using assms by (simp add: handle_answer_def)
next
  case (Answer status ra body)
  then show ?thesis
    using assms succeed_failure
    by (fastforce simp: handle_answer_def handle_body_def split: if_splits option.splits prod.splits sum.splits)
qed

lemma attempts_from_store:
  "(\<forall>f. cp_result (attempts_from G X q i env k n as st) = Inl (ModelFailure f)
       \<longrightarrow> cp_store (attempts_from G X q i env k n as st) = st)
   \<and> (\<forall>r. cp_result (attempts_from G X q i env k n as st) = Inr r \<longrightarrow>
       (\<exists>as'. handle_answer G X q i (env (last (cp_sent (attempts_from G X q i env k n as st))))
          (last (cp_sent (attempts_from G X q i env k n as st))) as' st
         = (Returned r, cp_store (attempts_from G X q i env k n as st)))
       \<and> cp_sent (attempts_from G X q i env k n as st) \<noteq> [])"
proof (induction k arbitrary: n as)
  case (Suc k)
  obtain s st' where s: "handle_answer G X q i (env n) n as st = (s, st')" by (rule prod.exhaust)
  show ?case
  proof (cases "ex_before (env n)")
    case None
    show ?thesis
    proof (cases s)
      case (Again as' d)
      then have st': "st' = st" using handle_answer_keeps [OF s] by blast
      show ?thesis using Suc.IH [of "Suc n" as'] None s Again by (auto simp: Let_def st')
    next
      case (Raised e)
      then show ?thesis using handle_answer_keeps [OF s] None s by (auto simp: Raised)
    next
      case (Returned r)
      then show ?thesis using None s by auto
    qed
  qed simp
qed simp

text \<open>
  C29: Private turns are saved exactly by responses. A completion that ends in a gateway failure leaves the turn store as
  it was up to renewed idle clocks; one that returns a response has added one turn, which the reference of the response names.
\<close>

theorem turns_saved_by_responses:
  assumes "c = gateway_complete G X q fresh nows env st"
  shows "(\<forall>f. cp_result c = Inl (ModelFailure f) \<longrightarrow> idle_erased (cp_store c) = idle_erased st)
    \<and> (\<forall>r. cp_result c = Inr r \<longrightarrow> (\<exists>t st1. idle_erased st1 = idle_erased st
         \<and> cp_store c = put_turn fresh t st1 \<and> ms_provider_turn_ref r = turn_ref fresh t
         \<and> valid_private_provider_turn (gx_json X) t \<and> payload_sha256 (gx_sha X) (gx_json X) t = Some (pv_payload_sha256 t)))"
proof (cases rule: complete_cases [of G X q fresh nows env st])
  case (1 e st1)
  then show ?thesis using encode_request_erased [of G X q nows st "Inl e" st1] assms by auto
next
  case (2 body st1)
  have e: "idle_erased st1 = idle_erased st" using encode_request_erased [OF 2(3)] .
  note a = attempts_from_store [of G X q fresh env "rp_maximum_attempts (gw_retry G)" 1 "[]" st1, folded 2(1), folded assms]
  have "\<exists>t. cp_store c = put_turn fresh t st1 \<and> ms_provider_turn_ref r = turn_ref fresh t
      \<and> valid_private_provider_turn (gx_json X) t \<and> payload_sha256 (gx_sha X) (gx_json X) t = Some (pv_payload_sha256 t)"
    if r: "cp_result c = Inr r" for r
  proof -
    obtain as' where h: "handle_answer G X q fresh (env (last (cp_sent c))) (last (cp_sent c)) as' st1 = (Returned r, cp_store c)"
      using a r by blast
    obtain t out u x f b where t: "parse_output G X q u x f b = Some (out, t)"
      "save_turn (gx_sha X) (gx_json X) fresh t st1 = (Inr (ms_provider_turn_ref r), cp_store c)"
      using handle_answer_returned [OF h] by metis
    then show ?thesis using save_turn_ok [OF t(2)] parse_output_Some [OF t(1)] by metis
  qed
  then have "\<exists>t st1. idle_erased st1 = idle_erased st \<and> cp_store c = put_turn fresh t st1
      \<and> ms_provider_turn_ref r = turn_ref fresh t \<and> valid_private_provider_turn (gx_json X) t
      \<and> payload_sha256 (gx_sha X) (gx_json X) t = Some (pv_payload_sha256 t)" if "cp_result c = Inr r" for r
    using e that by blast
  moreover have "idle_erased (cp_store c) = idle_erased st" if "cp_result c = Inl (ModelFailure f)" for f
    using a e that by metis
  ultimately show ?thesis by blast
qed

theorem turns_saved_by_responses_witness:
  "\<exists>t st1. idle_erased st1 = [] \<and> [(9, sample_saved_turn)] = put_turn 9 t st1 \<and> turn_ref 9 sample_saved_turn = turn_ref 9 t"
  using turns_saved_by_responses [OF refl, of sample_gateway sample_gateway_externals sample_model_request 9 "[]" "sample_env JNull" "[]"]
  unfolding sample_completion by (auto simp: sample_gateway_response_def idle_erased_def)

text \<open>
  An empty fingerprint loses the answer. When the turn is saved but the answer carries an empty system_fingerprint,
  the contract of the response refuses it, the error that escapes is not a gateway error, and the saved turn keeps its
  slot: every later save for the same scope, attempt and sequence is refused.
\<close>

theorem empty_fingerprint_loses_turn:
  assumes "save_turn (gx_sha X) (gx_json X) fresh t st = (Inr ref, st')" "fingerprint_of body = Some (Some [])"
  shows "succeed G X fresh body f u c out t past st = (Raised ValueErrorRaised, st')
    \<and> (\<forall>i t'. same_slot t t' \<longrightarrow> (\<exists>e. save_turn (gx_sha X) (gx_json X) i t' st' = (Inl (ModelStateError e), st')))"
proof -
  have "(fresh, t) \<in> set st'"
    using save_turn_ok [OF assms(1)] by (metis map_of_SomeD put_turn_lookup)
  then have "\<exists>e. save_turn (gx_sha X) (gx_json X) i t' st' = (Inl (ModelStateError e), st')" if "same_slot t t'" for i t'
    using that by (auto simp: save_turn_def list_ex_iff)
  then show ?thesis using assms by (auto simp: succeed_def valid_model_response_def len_ok_def)
qed

theorem empty_fingerprint_loses_turn_witness:
  "succeed sample_gateway sample_gateway_externals 9 (Some (sample_body (JStr []))) Stop failed_usage failed_cost
      (FinalOutput ''ok'') sample_saved_turn [] [] = (Raised ValueErrorRaised, [(9, sample_saved_turn)])
   \<and> (\<exists>e. save_turn (gx_sha sample_gateway_externals) (gx_json sample_gateway_externals) 10 sample_saved_turn
        [(9, sample_saved_turn)] = (Inl (ModelStateError e), [(9, sample_saved_turn)]))"
proof -
  have fp: "fingerprint_of (Some (sample_body (JStr []))) = Some (Some [])"
    by (simp add: fingerprint_of_def sample_body_def optional_text_def)
  have "same_slot sample_saved_turn sample_saved_turn" by (simp add: same_slot_def)
  then show ?thesis using empty_fingerprint_loses_turn [OF sample_save fp] by blast
qed

subsection \<open>Replay\<close>

text \<open>
  The tool calls of an answer, and that json.loads gives back what json.dumps wrote of them, keys sorted
  (true of every value that was itself read from JSON, whose objects have no key twice).
\<close>

definition calls_in :: "json \<Rightarrow> json list option" where
  "calls_in body = Option.bind (only_choice body) (\<lambda>(kvs, ch). case map_of ch ''message'' of
       Some (JObj m) \<Rightarrow> raw_calls_of m
     | _ \<Rightarrow> None)"

definition reads_back :: "gateway_externals \<Rightarrow> json \<Rightarrow> bool" where
  "reads_back X body \<longleftrightarrow> (case calls_in body of
       None \<Rightarrow> True
     | Some raw \<Rightarrow> gx_value X (dumps (JList raw)) = Some (to_jval (norm (JList raw))))"

lemma those_map_Some: "(\<And>x. x \<in> set xs \<Longrightarrow> f x = Some (g x)) \<Longrightarrow> those (map f xs) = Some (map g xs)"
  by (induction xs) auto

lemma to_jval_inverse [simp]: "of_jval (to_jval v) = Some v"
proof (induction v)
  case (JList vs)
  then have "those (map (of_jval \<circ> to_jval) vs) = Some (map id vs)" by (intro those_map_Some) simp
  then show ?case by (simp add: comp_def)
next
  case (JObj kvs)
  have "those (map (\<lambda>kv. of_jval (to_jval (snd kv))) kvs) = Some (map snd kvs)"
    using JObj by (intro those_map_Some) (metis snds.intros prod.collapse)
  then show ?case by (simp add: comp_def zip_map_fst_snd)
qed simp_all

definition message_content :: "(string \<times> json) list \<Rightarrow> jval" where
  "message_content m = (case map_of m ''content'' of Some (JStr s) \<Rightarrow> VStr s | _ \<Rightarrow> VNull)"

definition message_reasoning :: "(string \<times> json) list \<Rightarrow> (string \<times> jval) list" where
  "message_reasoning m = (case map_of m ''reasoning_content'' of
       Some (JStr s) \<Rightarrow> [(''reasoning_content'', VStr s)] | _ \<Rightarrow> [])"

lemma optional_text_content: "optional_text (map_of m ''content'') = Some s \<Longrightarrow> text_jval s = message_content m"
  by (auto simp: optional_text_def text_jval_def message_content_def split: option.splits json.splits)

lemma optional_text_reasoning:
  "optional_text (map_of m ''reasoning_content'') = Some s \<Longrightarrow>
     (case s of None \<Rightarrow> [] | Some r \<Rightarrow> [(''reasoning_content'', VStr r)]) = message_reasoning m"
  by (auto simp: optional_text_def message_reasoning_def split: option.splits json.splits)

lemma to_jval_Nil [simp]: "to_jval (norm (JList raw)) = VList [] \<longleftrightarrow> raw = []"
  by simp

text \<open>
  C30: Replay is faithful. When a later turn replays the reference of a response and it still resolves, the assistant message
  it sends carries the content, the reasoning and the tool calls of the provider's own last answer, followed by the
  results of the exchange; the tool calls are the same value with sorted keys.
\<close>

theorem replayed_turn_faithful:
  assumes c: "c = gateway_complete G X q fresh nows env st" "cp_result c = Inr r"
    and x: "\<forall>n status ra b. ex_answer (env n) = Answer status ra (Some b) \<longrightarrow> reads_back X b"
    and g: "group_ref g = ms_provider_turn_ref r"
    and live: "resolve_turn now (group_ref g) (cp_store c) = (Inr p, st')"
  shows "\<exists>status ra kvs ch m raw. ex_answer (env (last (cp_sent c))) = Answer status ra (Some (JObj kvs))
    \<and> only_choice (JObj kvs) = Some (kvs, ch) \<and> map_of ch ''message'' = Some (JObj m) \<and> raw_calls_of m = Some raw
    \<and> encode_history X [g] [now] (cp_store c)
      = (Inr (VObj ([(''role'', VStr ''assistant''), (''content'', message_content m)] @ message_reasoning m
               @ (if raw = [] then [] else [(''tool_calls'', to_jval (norm (JList raw)))]))
             # map result_json (group_results g)), st')"
proof -
  obtain st1 where run: "c = attempts_from G X q fresh env (rp_maximum_attempts (gw_retry G)) 1 [] st1"
    by (cases rule: complete_cases [of G X q fresh nows env st]) (use c in auto)
  obtain as' where h: "handle_answer G X q fresh (env (last (cp_sent c))) (last (cp_sent c)) as' st1 = (Returned r, cp_store c)"
    using attempts_from_store [of G X q fresh env "rp_maximum_attempts (gw_retry G)" 1 "[]" st1, folded run] c(2) by blast
  obtain status ra body f u t out where a: "ex_answer (env (last (cp_sent c))) = Answer status ra (Some body)"
    "parse_output G X q u (ex_sent_at (env (last (cp_sent c)))) f body = Some (out, t)"
    "save_turn (gx_sha X) (gx_json X) fresh t st1 = (Inr (ms_provider_turn_ref r), cp_store c)"
    using handle_answer_returned [OF h] by metis
  obtain kvs ch m raw calls content reasoning where o: "body = JObj kvs" "only_choice body = Some (kvs, ch)"
    "map_of ch ''message'' = Some (JObj m)" "raw_calls_of m = Some raw"
    "optional_text (map_of m ''content'') = Some content"
    "optional_text (map_of m ''reasoning_content'') = Some reasoning"
    "t = private_turn X q (cs_response_model (gw_capability G)) content reasoning raw calls u
       (ex_sent_at (env (last (cp_sent c))))"
    using parse_output_Some [OF a(2)] by metis
  have "calls_in body = Some raw" using o by (simp add: calls_in_def)
  then have calls: "gx_value X (dumps (JList raw)) = Some (to_jval (norm (JList raw)))"
    using x [rule_format, OF a(1)] by (simp add: reads_back_def del: to_jval.simps norm.simps)
  have "p = t\<lparr>pv_last_used_at := now\<rparr>"
    using live save_turn_ok [OF a(3)] g by (auto simp: resolve_turn_def Let_def split: if_splits)
  then have p: "pv_content p = content" "pv_reasoning_content p = reasoning" "pv_tool_calls_json p = dumps (JList raw)"
    by (simp_all add: o(7) private_turn_def)
  have "encode_history X [g] [now] (cp_store c)
      = (Inr (VObj ([(''role'', VStr ''assistant''), (''content'', message_content m)] @ message_reasoning m
               @ (if raw = [] then [] else [(''tool_calls'', to_jval (norm (JList raw)))]))
             # map result_json (group_results g)), st')"
    using live calls optional_text_content [OF o(5)] optional_text_reasoning [OF o(6)]
    by (simp add: p assistant_json_def del: to_jval.simps norm.simps)
  then show ?thesis using a(1) o by blast
qed

theorem replayed_turn_faithful_witness:
  "encode_history sample_gateway_externals [AssistantTurn (turn_ref 9 sample_saved_turn)] [11] [(9, sample_saved_turn)]
     = (Inr [VObj [(''role'', VStr ''assistant''), (''content'', VStr ''ok'')]],
        [(9, sample_saved_turn\<lparr>pv_last_used_at := 11\<rparr>)])"
proof -
  let ?c = "gateway_complete sample_gateway sample_gateway_externals sample_model_request 9 [] (sample_env JNull) []"
  let ?g = "AssistantTurn (turn_ref 9 sample_saved_turn)"
  have r: "cp_result ?c = Inr sample_gateway_response" "cp_sent ?c = [1, 2]" "cp_store ?c = [(9, sample_saved_turn)]"
    by (simp_all add: sample_completion)
  have x: "\<forall>n status ra b. ex_answer (sample_env JNull n) = Answer status ra (Some b) \<longrightarrow> reads_back sample_gateway_externals b"
    by (auto simp: sample_env_def sample_exchange_def reads_back_def calls_in_def only_choice_def sample_body_def
        raw_calls_of_def sample_calls_text sample_gateway_externals_def split: if_splits)
  have g: "group_ref ?g = ms_provider_turn_ref sample_gateway_response"
    by (simp add: group_ref_def sample_gateway_response_def)
  have live: "resolve_turn 11 (group_ref ?g) (cp_store ?c)
      = (Inr (sample_saved_turn\<lparr>pv_last_used_at := 11\<rparr>), [(9, sample_saved_turn\<lparr>pv_last_used_at := 11\<rparr>)])"
    unfolding r(3) by (simp add: group_ref_def resolve_turn_def Let_def, simp add: sample_saved_turn_def usec_defs idle_ttl_def)
  obtain status ra kvs ch m raw where a: "ex_answer (sample_env JNull (last (cp_sent ?c))) = Answer status ra (Some (JObj kvs))"
    "only_choice (JObj kvs) = Some (kvs, ch)" "map_of ch ''message'' = Some (JObj m)" "raw_calls_of m = Some raw"
    and e: "encode_history sample_gateway_externals [?g] [11] (cp_store ?c)
      = (Inr (VObj ([(''role'', VStr ''assistant''), (''content'', message_content m)] @ message_reasoning m
               @ (if raw = [] then [] else [(''tool_calls'', to_jval (norm (JList raw)))]))
             # map result_json (group_results ?g)), [(9, sample_saved_turn\<lparr>pv_last_used_at := 11\<rparr>)])"
    using replayed_turn_faithful [OF refl r(1) x g live] by blast
  have "m = [(''content'', JStr ''ok'')]" "raw = []"
    using a by (auto simp: r(2) sample_env_def sample_exchange_def sample_body_def only_choice_def raw_calls_of_def)
  then show ?thesis using e r(3) by (simp add: message_content_def message_reasoning_def group_results_def)
qed

end
