(* ===== verification/Context_Contracts.thy ===== *)
theory Context_Contracts
  imports Gateway
begin

text \<open>
  The closed contracts of context assembly (\<open>src/commerce_agent/context_builder/contracts.py\<close>), the registry
  of profiles, policies and tools (profiles.py) and the token estimator (\<open>_tokens.py\<close>). Parsed documents are
  values of \<open>jval\<close>; pydantic's parsing of a profile is a parameter, SHA-256 and json.loads are those of
  \<open>gateway_externals\<close>.
\<close>

subsection \<open>Enumerations\<close>

datatype datum_kind = KUserInput | KConfirmedFact | KSchema | KKnowledge | KBusinessValue | KToolResult
  | KOfficialFeedback | KPhase | KError

datatype data_namespace = NUserInput | NConfirmedFact | NRuntimeError | NOlistSchema | NRetailKnowledge
  | NBusinessValue | NProductQueryResult | NBirdSchema | NBirdOfficialFeedback | NBirdAToolResult | NBirdCPhase

datatype prompt_step = RetailDecide | RetailClarify | RetailReport | RetailSqlGenerate | RetailSqlRepair
  | BirdAAct | BirdCRespond

datatype profile_key = RetailKey | BirdAKey | BirdCKey

fun datum_kind_value :: "datum_kind \<Rightarrow> string" where
  "datum_kind_value KUserInput = ''user_input''"
| "datum_kind_value KConfirmedFact = ''confirmed_fact''"
| "datum_kind_value KSchema = ''schema''"
| "datum_kind_value KKnowledge = ''knowledge''"
| "datum_kind_value KBusinessValue = ''business_value''"
| "datum_kind_value KToolResult = ''tool_result''"
| "datum_kind_value KOfficialFeedback = ''official_feedback''"
| "datum_kind_value KPhase = ''phase''"
| "datum_kind_value KError = ''error''"

fun data_namespace_value :: "data_namespace \<Rightarrow> string" where
  "data_namespace_value NUserInput = ''user_input''"
| "data_namespace_value NConfirmedFact = ''confirmed_fact''"
| "data_namespace_value NRuntimeError = ''runtime_error''"
| "data_namespace_value NOlistSchema = ''olist_schema''"
| "data_namespace_value NRetailKnowledge = ''retail_knowledge''"
| "data_namespace_value NBusinessValue = ''business_value''"
| "data_namespace_value NProductQueryResult = ''product_query_result''"
| "data_namespace_value NBirdSchema = ''bird_schema''"
| "data_namespace_value NBirdOfficialFeedback = ''bird_official_feedback''"
| "data_namespace_value NBirdAToolResult = ''bird_a_tool_result''"
| "data_namespace_value NBirdCPhase = ''bird_c_phase''"

fun prompt_step_value :: "prompt_step \<Rightarrow> string" where
  "prompt_step_value RetailDecide = ''retail_decide''"
| "prompt_step_value RetailClarify = ''retail_clarify''"
| "prompt_step_value RetailReport = ''retail_report''"
| "prompt_step_value RetailSqlGenerate = ''retail_sql_generate''"
| "prompt_step_value RetailSqlRepair = ''retail_sql_repair''"
| "prompt_step_value BirdAAct = ''bird_a_act''"
| "prompt_step_value BirdCRespond = ''bird_c_respond''"

fun profile_key_value :: "profile_key \<Rightarrow> string" where
  "profile_key_value RetailKey = ''retail''"
| "profile_key_value BirdAKey = ''bird_a''"
| "profile_key_value BirdCKey = ''bird_c''"

subsection \<open>Data and profiles\<close>

record context_datum =
  dt_kind :: datum_kind
  dt_namespace :: data_namespace
  dt_source_ref :: string
  dt_revision :: "string option"
  dt_content :: string
  dt_digest :: string

definition valid_context_datum :: "(bytes \<Rightarrow> string) \<Rightarrow> context_datum \<Rightarrow> bool" where
  "valid_context_datum sha d \<longleftrightarrow>
     len_ok 1 512 (dt_source_ref d) \<and> (case dt_revision d of None \<Rightarrow> True | Some r \<Rightarrow> len_ok 1 128 r)
     \<and> len_ok 1 262144 (dt_content d) \<and> hex64 (dt_digest d) \<and> dt_digest d = sha (utf8 (dt_content d))"

text \<open>
  Characters of \<open>\w\<close> and \<open>\s\<close> below 256, and the search of \<open>_SENSITIVE_ERROR\<close> (case ignored): a word
  boundary lies before the position when the previous character is no word character.
\<close>

definition word_char :: "char \<Rightarrow> bool" where
  "word_char c = (let n = of_char c :: nat in
     is_alpha c \<or> is_digit c \<or> c = CHR ''_'' \<or> n \<in> {170, 178, 179, 181, 185, 186, 188, 189, 190}
     \<or> 192 \<le> n \<and> n \<noteq> 215 \<and> n \<noteq> 247)"

definition space_char :: "char \<Rightarrow> bool" where
  "space_char c = (let n = of_char c :: nat in 9 \<le> n \<and> n \<le> 13 \<or> 28 \<le> n \<and> n \<le> 32 \<or> n = 133 \<or> n = 160)"

definition starts_with :: "string \<Rightarrow> string \<Rightarrow> bool" where
  "starts_with p s = (take (length p) s = p)"

definition sensitive_words :: "string list" where
  "sensitive_words = [''apikey'', ''api_key'', ''api key'', ''api-key'', ''authorization'', ''bearer'', ''dsn'',
     ''password'', ''secret'']"

definition sensitive_schemes :: "string list" where
  "sensitive_schemes = [''postgres://'', ''postgresql://'', ''mysql://'', ''redis://'']"

definition token_char :: "char \<Rightarrow> bool" where
  "token_char c \<longleftrightarrow> is_alpha c \<or> is_digit c \<or> c = CHR ''_'' \<or> c = CHR ''-''"

definition sensitive_at :: "string \<Rightarrow> bool" where
  "sensitive_at s \<longleftrightarrow>
     list_ex (\<lambda>p. starts_with p s) sensitive_schemes
     \<or> starts_with ''sk-'' s \<and> list_ex token_char (take 1 (drop 3 s))
     \<or> list_ex (\<lambda>w. starts_with w s \<and> \<not> list_ex word_char (take 1 (drop (length w) s))) sensitive_words"

fun sensitive_from :: "bool \<Rightarrow> string \<Rightarrow> bool" where
  "sensitive_from inside [] = False"
| "sensitive_from inside (c # cs) =
     (c \<in> {CHR ''{'', CHR ''}'', CHR ''['', CHR '']'', CHR 0x0A, CHR 0x0D}
      \<or> \<not> inside \<and> sensitive_at (c # cs) \<or> sensitive_from (word_char c) cs)"

record typed_error_datum =
  te_error_type :: string
  te_reason_code :: string
  te_retryable :: bool
  te_message :: string
  te_digest :: string

definition ident_char :: "char \<Rightarrow> bool" where
  "ident_char c \<longleftrightarrow> is_alpha c \<or> is_digit c \<or> c = CHR ''_''"

definition valid_typed_error_datum :: "(bytes \<Rightarrow> string) \<Rightarrow> typed_error_datum \<Rightarrow> bool" where
  "valid_typed_error_datum sha e \<longleftrightarrow>
     ident_ok is_alpha ident_char 1 127 (te_error_type e) \<and> reason_code_ok (te_reason_code e)
     \<and> len_ok 1 256 (te_message e) \<and> hex64 (te_digest e) \<and> \<not> sensitive_from False (lower (te_message e))
     \<and> te_digest e = sha (utf8 (te_message e))"

record inference_rule =
  ir_step :: prompt_step
  ir_inference :: inference_config
  ir_tool_names :: "string list"

datatype stop_trigger = ModelBudget | ToolBudget | RepeatDigest | UnsafeFinish | IncompleteFinish | ExhaustedInfrastructure

fun stop_trigger_value :: "stop_trigger \<Rightarrow> string" where
  "stop_trigger_value ModelBudget = ''model_budget''"
| "stop_trigger_value ToolBudget = ''tool_budget''"
| "stop_trigger_value RepeatDigest = ''repeat_digest''"
| "stop_trigger_value UnsafeFinish = ''unsafe_finish''"
| "stop_trigger_value IncompleteFinish = ''incomplete_finish''"
| "stop_trigger_value ExhaustedInfrastructure = ''exhausted_infrastructure''"

record stop_reason_rule =
  sr_trigger :: stop_trigger
  sr_stop_kind :: string

record run_profile =
  pf_key :: profile_key
  pf_revision :: string
  pf_prompt_policy_revision :: string
  pf_tool_catalog_revision :: string
  pf_allowed_namespaces :: "data_namespace list"
  pf_inference_rules :: "inference_rule list"
  pf_input_token_limit :: int
  pf_tool_result_max_bytes :: int
  pf_minimum_recent_groups :: nat
  pf_stop_reason_rules :: "stop_reason_rule list"
  pf_capability_revision :: string
  pf_estimator_revision :: string
  pf_canonicalization_revision :: string

definition valid_inference_rule :: "inference_rule \<Rightarrow> bool" where
  "valid_inference_rule r \<longleftrightarrow> valid_inference_config (ir_inference r) \<and> distinct (ir_tool_names r)"

definition valid_run_profile :: "run_profile \<Rightarrow> bool" where
  "valid_run_profile p \<longleftrightarrow>
     len_ok 1 128 (pf_revision p) \<and> len_ok 1 128 (pf_prompt_policy_revision p) \<and> len_ok 1 128 (pf_tool_catalog_revision p)
     \<and> list_all valid_inference_rule (pf_inference_rules p)
     \<and> 1 \<le> pf_input_token_limit p \<and> pf_input_token_limit p \<le> 65536
     \<and> 1 \<le> pf_tool_result_max_bytes p \<and> pf_tool_result_max_bytes p \<le> 65536
     \<and> list_all (\<lambda>r. ident_ok is_lower code_char 2 127 (sr_stop_kind r)) (pf_stop_reason_rules p)
     \<and> len_ok 1 128 (pf_capability_revision p) \<and> len_ok 1 128 (pf_estimator_revision p)
     \<and> len_ok 1 128 (pf_canonicalization_revision p)
     \<and> distinct (pf_allowed_namespaces p) \<and> distinct (map ir_step (pf_inference_rules p))
     \<and> distinct (map sr_trigger (pf_stop_reason_rules p))"

record context_request =
  cr_run_scope :: run_scope
  cr_attempt_id :: uuid
  cr_sequence :: int
  cr_profile :: run_profile
  cr_step :: prompt_step
  cr_current_input :: context_datum
  cr_confirmed_facts :: "context_datum list"
  cr_evidence :: "context_datum list"
  cr_latest_error :: "typed_error_datum option"
  cr_history :: "conversation_group list"

record trimming_summary =
  tr_original_groups :: nat
  tr_retained_groups :: nat
  tr_removed_group_digests :: "string list"
  tr_compressed_result_digests :: "string list"
  tr_removed_evidence_digests :: "string list"
  tr_estimated_before :: int
  tr_estimated_after :: int

record prompt_bundle =
  pu_model_request :: model_request
  pu_profile :: profile_key
  pu_prompt_policy_hash :: string
  pu_rendered_prompt_hash :: string
  pu_tool_hash :: string
  pu_context_hash :: string
  pu_config_hash :: string
  pu_estimated_input_tokens :: int
  pu_trimming :: trimming_summary

definition valid_prompt_bundle :: "prompt_bundle \<Rightarrow> bool" where
  "valid_prompt_bundle b \<longleftrightarrow>
     hex64 (pu_prompt_policy_hash b) \<and> hex64 (pu_rendered_prompt_hash b) \<and> hex64 (pu_tool_hash b)
     \<and> hex64 (pu_context_hash b) \<and> hex64 (pu_config_hash b) \<and> 0 \<le> pu_estimated_input_tokens b
     \<and> pu_prompt_policy_hash b = mq_prompt_policy_hash (pu_model_request b)
     \<and> pu_rendered_prompt_hash b = mq_rendered_prompt_hash (pu_model_request b)
     \<and> pu_tool_hash b = mq_tool_hash (pu_model_request b)
     \<and> pu_context_hash b = mq_context_hash (pu_model_request b)
     \<and> pu_config_hash b = mq_config_hash (pu_model_request b)
     \<and> pu_estimated_input_tokens b = tr_estimated_after (pu_trimming b)"

subsection \<open>The registry\<close>

definition common_namespaces :: "data_namespace list" where
  "common_namespaces = [NUserInput, NConfirmedFact, NRuntimeError]"

fun namespaces_of :: "profile_key \<Rightarrow> data_namespace list" where
  "namespaces_of RetailKey = common_namespaces @ [NOlistSchema, NRetailKnowledge, NBusinessValue, NProductQueryResult]"
| "namespaces_of BirdAKey = common_namespaces @ [NBirdSchema, NBirdOfficialFeedback, NBirdAToolResult]"
| "namespaces_of BirdCKey = common_namespaces @ [NBirdSchema, NBirdOfficialFeedback, NBirdCPhase]"

fun steps_of :: "profile_key \<Rightarrow> prompt_step list" where
  "steps_of RetailKey = [RetailDecide, RetailClarify, RetailReport, RetailSqlGenerate, RetailSqlRepair]"
| "steps_of BirdAKey = [BirdAAct]"
| "steps_of BirdCKey = [BirdCRespond]"

definition policy_revisions :: "string list" where
  "policy_revisions = [''common-envelope-v1'', ''retail-policy-v2'', ''bird-a-policy-v2'', ''bird-c-policy-v2'']"

definition forbidden_synthetic :: "string list" where
  "forbidden_synthetic = [''olist'', ''retail'', ''resolver'', ''5432'', ''6002'', ''dsn'']"

text \<open>A result is None where loading raises (RevisionMismatch, or a bare error for values of a wrong kind).\<close>

definition load_canonical :: "gateway_externals \<Rightarrow> string \<Rightarrow> (string \<times> jval) list option" where
  "load_canonical X raw = (case gx_value X raw of
       Some (VObj kvs) \<Rightarrow> (case canonical_text (VObj kvs) of
           Some t \<Rightarrow> if raw = t \<or> raw = t @ [CHR 0x0A] then Some kvs else None
         | None \<Rightarrow> None)
     | _ \<Rightarrow> None)"

definition keys_are :: "string list \<Rightarrow> (string \<times> jval) list \<Rightarrow> bool" where
  "keys_are ks kvs = (set (map fst kvs) = set ks)"

definition tool_definition_of :: "gateway_externals \<Rightarrow> string \<Rightarrow> jval \<Rightarrow> tool_definition option" where
  "tool_definition_of X catalog_revision raw = (case raw of
       VObj kvs \<Rightarrow>
         if \<not> keys_are [''name'', ''description'', ''parameters''] kvs then None
         else (case (map_of kvs ''name'', map_of kvs ''description'', map_of kvs ''parameters'') of
             (Some (VStr n), Some (VStr d), Some ps) \<Rightarrow>
               Option.bind (canonical_text ps) (\<lambda>t.
               Option.bind (canonical_text (VObj [(''catalog_revision'', VStr catalog_revision), (''description'', VStr d),
                   (''name'', VStr n), (''parameters'', ps)])) (\<lambda>identity.
               let td = \<lparr>td_name = n, td_description = d, td_parameters_json = t, td_catalog_revision = catalog_revision,
                    td_capability_sha256 = gx_sha X (utf8 identity)\<rparr>
               in if valid_tool_definition (canonb X) td then Some td else None))
           | _ \<Rightarrow> None)
     | _ \<Rightarrow> None)"

fun add_policies :: "jval list \<Rightarrow> (string \<times> string) list \<Rightarrow> (string \<times> string) list option" where
  "add_policies [] acc = Some acc"
| "add_policies (VObj kvs # rest) acc =
     (if \<not> keys_are [''revision'', ''body''] kvs then None
      else (case (map_of kvs ''revision'', map_of kvs ''body'') of
          (Some (VStr r), Some (VStr b)) \<Rightarrow>
            if b = [] \<or> map_of acc r \<noteq> None then None else add_policies rest (acc @ [(r, b)])
        | _ \<Rightarrow> None))"
| "add_policies (_ # rest) acc = None"

definition parse_policies :: "(string \<times> jval) list \<Rightarrow> (string \<times> string) list option" where
  "parse_policies doc =
     (if \<not> keys_are [''revision'', ''policies''] doc then None
      else (case map_of doc ''policies'' of
          Some (VList items) \<Rightarrow> Option.bind (add_policies items []) (\<lambda>ps.
            if set (map fst ps) = set policy_revisions then Some ps else None)
        | _ \<Rightarrow> None))"

fun add_profiles :: "(jval \<Rightarrow> run_profile option) \<Rightarrow> jval list \<Rightarrow> run_profile list \<Rightarrow> run_profile list option" where
  "add_profiles parse [] acc = Some acc"
| "add_profiles parse (raw # rest) acc = Option.bind (parse raw) (\<lambda>p.
     if pf_key p \<in> set (map pf_key acc) then None else add_profiles parse rest (acc @ [p]))"

definition parse_profiles :: "(jval \<Rightarrow> run_profile option) \<Rightarrow> (string \<times> jval) list \<Rightarrow> run_profile list option" where
  "parse_profiles parse doc =
     (if \<not> keys_are [''revision'', ''profiles'', ''retail_catalog''] doc then None
      else (case map_of doc ''profiles'' of
          Some (VList items) \<Rightarrow> Option.bind (add_profiles parse items []) (\<lambda>ps.
            if set (map pf_key ps) = {RetailKey, BirdAKey, BirdCKey} then Some ps else None)
        | _ \<Rightarrow> None))"

definition tools_of :: "gateway_externals \<Rightarrow> string \<Rightarrow> jval option \<Rightarrow> tool_definition list option" where
  "tools_of X revision raw = (case raw of
       Some (VList items) \<Rightarrow> Option.bind (those (map (tool_definition_of X revision) items)) (\<lambda>ts.
         if distinct (map td_name ts) then Some ts else None)
     | _ \<Rightarrow> None)"

definition parse_tools ::
    "gateway_externals \<Rightarrow> (string \<times> jval) list \<Rightarrow> (string \<times> jval) list \<Rightarrow> (profile_key \<Rightarrow> tool_definition list) option" where
  "parse_tools X run_doc synthetic_doc = (case (map_of run_doc ''retail_catalog'', map_of synthetic_doc ''catalog_revision'',
       map_of synthetic_doc ''profiles'') of
     (Some (VObj catalog), Some (VStr synthetic_revision), Some (VObj profiles)) \<Rightarrow>
       if \<not> keys_are [''catalog_revision'', ''tools''] catalog
          \<or> \<not> keys_are [''revision'', ''catalog_revision'', ''profiles''] synthetic_doc
          \<or> \<not> keys_are [''bird_a'', ''bird_c''] profiles then None
       else (case map_of catalog ''catalog_revision'' of
           Some (VStr retail_revision) \<Rightarrow>
             Option.bind (tools_of X retail_revision (map_of catalog ''tools'')) (\<lambda>retail.
             Option.bind (tools_of X synthetic_revision (map_of profiles ''bird_a'')) (\<lambda>a.
             Option.bind (tools_of X synthetic_revision (map_of profiles ''bird_c'')) (\<lambda>c.
             Option.bind (canonical_text (VObj synthetic_doc)) (\<lambda>t.
             if \<not> occurs ''synthetic'' (lower t) \<or> list_ex (\<lambda>w. occurs w (lower t)) forbidden_synthetic then None
             else Some (\<lambda>k. case k of RetailKey \<Rightarrow> retail | BirdAKey \<Rightarrow> a | BirdCKey \<Rightarrow> c)))))
         | _ \<Rightarrow> None)
   | _ \<Rightarrow> None)"

record registry =
  rg_profiles :: "run_profile list"
  rg_policies :: "(string \<times> string) list"
  rg_tools :: "profile_key \<Rightarrow> tool_definition list"

definition profile_referenced :: "registry \<Rightarrow> run_profile \<Rightarrow> bool" where
  "profile_referenced R p \<longleftrightarrow>
     map_of (rg_policies R) (pf_prompt_policy_revision p) \<noteq> None
     \<and> set (pf_allowed_namespaces p) = set (namespaces_of (pf_key p))
     \<and> set (map ir_step (pf_inference_rules p)) = set (steps_of (pf_key p))
     \<and> list_all (\<lambda>r. set (ir_tool_names r) \<subseteq> set (map td_name (rg_tools R (pf_key p)))) (pf_inference_rules p)
     \<and> set (map td_catalog_revision (rg_tools R (pf_key p))) = {pf_tool_catalog_revision p}
     \<and> length (pf_stop_reason_rules p) = 6"

definition cross_references_ok :: "registry \<Rightarrow> bool" where
  "cross_references_ok R \<longleftrightarrow> distinct (map pf_revision (rg_profiles R)) \<and> list_all (profile_referenced R) (rg_profiles R)"

definition load_registry ::
    "gateway_externals \<Rightarrow> (jval \<Rightarrow> run_profile option) \<Rightarrow> (string \<times> jval) list \<Rightarrow> (string \<times> jval) list
       \<Rightarrow> (string \<times> jval) list \<Rightarrow> registry option" where
  "load_registry X parse run_doc policy_doc synthetic_doc =
     (if map_of run_doc ''revision'' \<noteq> Some (VStr ''run-profiles-v2'')
         \<or> map_of policy_doc ''revision'' \<noteq> Some (VStr ''prompt-policies-v3'')
         \<or> map_of synthetic_doc ''revision'' \<noteq> Some (VStr ''bird-tools-manifest-v1'') then None
      else Option.bind (parse_policies policy_doc) (\<lambda>ps.
        Option.bind (parse_profiles parse run_doc) (\<lambda>fs.
        Option.bind (parse_tools X run_doc synthetic_doc) (\<lambda>ts.
        let R = \<lparr>rg_profiles = fs, rg_policies = ps, rg_tools = ts\<rparr>
        in if cross_references_ok R then Some R else None))))"

definition profile_of :: "registry \<Rightarrow> profile_key \<Rightarrow> run_profile option" where
  "profile_of R k = find (\<lambda>p. pf_key p = k) (rg_profiles R)"

definition rule_for :: "run_profile \<Rightarrow> prompt_step \<Rightarrow> inference_rule option" where
  "rule_for p s = find (\<lambda>r. ir_step r = s) (pf_inference_rules p)"

text \<open>The dict of tools by name keeps the last of a name; the registry admits none twice.\<close>

definition tools_for_step :: "registry \<Rightarrow> profile_key \<Rightarrow> prompt_step \<Rightarrow> tool_definition list option" where
  "tools_for_step R k s = Option.bind (profile_of R k) (\<lambda>p. Option.bind (rule_for p s) (\<lambda>r.
     those (map (\<lambda>n. find (\<lambda>t. td_name t = n) (rev (rg_tools R k))) (ir_tool_names r))))"

definition policy_for :: "registry \<Rightarrow> profile_key \<Rightarrow> (string \<times> string) option" where
  "policy_for R k = Option.bind (profile_of R k) (\<lambda>p.
     Option.bind (map_of (rg_policies R) ''common-envelope-v1'') (\<lambda>common.
     map_option (Pair common) (map_of (rg_policies R) (pf_prompt_policy_revision p))))"

subsection \<open>The provisioned token estimator\<close>

text \<open>\<open>re.findall(r"\w+|[^\w\s]", text)\<close>: maximal runs of word characters and single other characters.\<close>

function visible_tokens :: "string \<Rightarrow> string list" where
  "visible_tokens [] = []"
| "visible_tokens (c # cs) =
     (if word_char c then takeWhile word_char (c # cs) # visible_tokens (dropWhile word_char cs)
      else if space_char c then visible_tokens cs
      else [c] # visible_tokens cs)"
  by pat_completeness auto
termination by (relation "measure length") (auto simp: less_Suc_eq_le length_dropWhile_le)

definition token_cost :: "string list \<Rightarrow> string \<Rightarrow> int" where
  "token_cost vocab t = (if t \<in> set vocab then 1 else max 1 ((int (length (utf8 t)) + 3) div 4))"

definition wire_text :: "gateway_externals \<Rightarrow> model_request \<Rightarrow> string option" where
  "wire_text X q = Option.bind (those (map (tool_json X) (mq_tools q))) (\<lambda>tools.
     canonical_text (VObj [(''messages'', VList (map message_json (mq_messages q))), (''tools'', VList tools)]))"

definition private_count :: "model_request \<Rightarrow> int" where
  "private_count q = sum_list (map (\<lambda>g. tf_token_weight (group_ref g)) (mq_history q))"

definition provisioned_estimate ::
    "gateway_externals \<Rightarrow> string list \<Rightarrow> string \<Rightarrow> model_request \<Rightarrow> (int \<times> string) option" where
  "provisioned_estimate X vocab revision q = Option.bind (wire_text X q) (\<lambda>rendered.
     let n = sum_list (map (token_cost vocab) (visible_tokens rendered)) + private_count q
     in if 0 \<le> n \<and> len_ok 1 128 revision then Some (n, revision) else None)"

end
