(* ===== verification/Context_Builder.thy ===== *)
theory Context_Builder
  imports Context_Contracts
begin

text \<open>
  The context builder (\<open>src/commerce_agent/context_builder/builder.py\<close>): request validation, the messages, the
  three trimming stages under the input budget, the audit hashes and the bundle. An estimator is a function from
  the request to its tokens and its revision, None where it raises.
\<close>

subsection \<open>Errors and hashes\<close>

datatype builder_error =
    ProfileMismatch string
  | NamespaceViolation
  | IntegrityError string
  | ToolResultMismatch
  | BudgetExceeded
  | RevisionMismatch
  | BuilderValueError

record context_builder =
  bu_externals :: gateway_externals
  bu_registry :: registry
  bu_estimate :: "model_request \<Rightarrow> (int \<times> string) option"
  bu_estimator_revision :: string
  bu_requested_model :: string
  bu_timeout_seconds :: decimal
  bu_provider_user_id :: string

definition sha_json :: "gateway_externals \<Rightarrow> json \<Rightarrow> string" where
  "sha_json X v = gx_sha X (utf8 (dumps v))"

definition opt_text_json :: "string option \<Rightarrow> json" where
  "opt_text_json s = (case s of None \<Rightarrow> JNull | Some t \<Rightarrow> JStr t)"

definition strings_json :: "string list \<Rightarrow> json" where
  "strings_json ss = JList (map JStr ss)"

text \<open>\<open>model_dump\<close> of an inference configuration: a temperature is a float.\<close>

definition inference_jval :: "gateway_externals \<Rightarrow> inference_config \<Rightarrow> jval" where
  "inference_jval X i = (case i of
       Thinking t \<Rightarrow> VObj [(''type'', VStr ''enabled''), (''effort'', VStr (effort_text (th_effort t))),
         (''max_output_tokens'', VInt (th_max_output_tokens t))]
     | NonThinking n \<Rightarrow> VObj [(''type'', VStr ''disabled''), (''temperature'', VFloat (gx_float X (nt_temperature n))),
         (''max_output_tokens'', VInt (nt_max_output_tokens n))])"

definition rule_jval :: "gateway_externals \<Rightarrow> inference_rule \<Rightarrow> jval" where
  "rule_jval X r = VObj [(''step'', VStr (prompt_step_value (ir_step r))), (''inference'', inference_jval X (ir_inference r)),
     (''tool_names'', VList (map VStr (ir_tool_names r)))]"

definition profile_jval :: "gateway_externals \<Rightarrow> run_profile \<Rightarrow> jval" where
  "profile_jval X p = VObj [(''kind'', VStr (profile_key_value (pf_key p))), (''key'', VStr (profile_key_value (pf_key p))),
     (''revision'', VStr (pf_revision p)), (''prompt_policy_revision'', VStr (pf_prompt_policy_revision p)),
     (''tool_catalog_revision'', VStr (pf_tool_catalog_revision p)),
     (''allowed_namespaces'', VList (map (\<lambda>n. VStr (data_namespace_value n)) (pf_allowed_namespaces p))),
     (''inference_rules'', VList (map (rule_jval X) (pf_inference_rules p))),
     (''input_token_limit'', VInt (pf_input_token_limit p)), (''tool_result_max_bytes'', VInt (pf_tool_result_max_bytes p)),
     (''minimum_recent_groups'', VInt (int (pf_minimum_recent_groups p))),
     (''stop_reason_rules'', VList (map (\<lambda>r. VObj [(''trigger'', VStr (stop_trigger_value (sr_trigger r))),
        (''stop_kind'', VStr (sr_stop_kind r))]) (pf_stop_reason_rules p))),
     (''capability_revision'', VStr (pf_capability_revision p)), (''estimator_revision'', VStr (pf_estimator_revision p)),
     (''canonicalization_revision'', VStr (pf_canonicalization_revision p))]"

definition compute_config_hash :: "gateway_externals \<Rightarrow> run_profile \<Rightarrow> string \<Rightarrow> string option" where
  "compute_config_hash X p requested_model = map_option (\<lambda>t. gx_sha X (utf8 t)) (canonical_text (VObj
     [(''model'', VStr requested_model), (''inference_rules'', VList (map (rule_jval X) (pf_inference_rules p))),
      (''budgets'', VObj [(''input_token_limit'', VInt (pf_input_token_limit p)),
         (''minimum_recent_groups'', VInt (int (pf_minimum_recent_groups p))),
         (''tool_result_max_bytes'', VInt (pf_tool_result_max_bytes p))]),
      (''capability_revision'', VStr (pf_capability_revision p)), (''estimator_revision'', VStr (pf_estimator_revision p)),
      (''retry_revision'', VStr ''deepseek-retry-v1''),
      (''canonicalization_revision'', VStr (pf_canonicalization_revision p))]))"

definition compute_prompt_policy_hash :: "gateway_externals \<Rightarrow> string \<Rightarrow> string \<Rightarrow> string" where
  "compute_prompt_policy_hash X common profile = sha_json X (JObj [(''common'', JStr common), (''profile'', JStr profile)])"

definition chat_json :: "chat_message \<Rightarrow> json" where
  "chat_json m = JObj [(''role'', JStr (cm_role m)), (''content'', JStr (cm_content m))]"

definition compute_rendered_prompt_hash :: "gateway_externals \<Rightarrow> chat_message list \<Rightarrow> string" where
  "compute_rendered_prompt_hash X ms = sha_json X (JObj [(''messages'', JList (map chat_json ms))])"

definition tool_definition_json :: "tool_definition \<Rightarrow> json" where
  "tool_definition_json t = JObj [(''name'', JStr (td_name t)), (''description'', JStr (td_description t)),
     (''parameters_json'', JStr (td_parameters_json t)), (''catalog_revision'', JStr (td_catalog_revision t)),
     (''capability_sha256'', JStr (td_capability_sha256 t))]"

definition compute_tool_hash :: "gateway_externals \<Rightarrow> run_profile \<Rightarrow> tool_definition list \<Rightarrow> string" where
  "compute_tool_hash X p ts = sha_json X (JObj [(''profile'', JStr (profile_key_value (pf_key p))),
     (''catalog_revision'', JStr (pf_tool_catalog_revision p)), (''tools'', JList (map tool_definition_json ts))])"

text \<open>\<open>isoformat()\<close> in UTC with \<open>Z\<close>: microseconds appear when they are not zero.\<close>

definition iso_z :: "py_datetime \<Rightarrow> string" where
  "iso_z t = (let i = to_instant t; us = i mod usec_per_second in
     iso_seconds i @ (if us = 0 then [] else ''.'' @ pad_left 6 (show_nat us)) @ ''Z'')"

definition turn_ref_json :: "provider_turn_ref \<Rightarrow> json" where
  "turn_ref_json r = JObj [(''turn_id'', JStr (uuid_str (tf_turn_id r))), (''scope_digest'', JStr (tf_scope_digest r)),
     (''attempt_id'', JStr (uuid_str (tf_attempt_id r))), (''sequence'', JInt (tf_sequence r)),
     (''payload_sha256'', JStr (tf_payload_sha256 r)), (''expected_tool_call_ids'', strings_json (tf_expected_tool_call_ids r)),
     (''token_weight'', JInt (tf_token_weight r)), (''expires_at'', JStr (iso_z (tf_expires_at r)))]"

definition tool_call_json :: "tool_call \<Rightarrow> json" where
  "tool_call_json c = JObj [(''call_id'', JStr (tc_call_id c)), (''name'', JStr (tc_name c)),
     (''arguments_json'', JStr (tc_arguments_json c))]"

definition tool_result_json :: "tool_result \<Rightarrow> json" where
  "tool_result_json r = JObj [(''call_id'', JStr (tl_call_id r)), (''name'', JStr (tl_name r)),
     (''status'', JStr (case tl_status r of ToolSuccess \<Rightarrow> ''success'' | ToolError \<Rightarrow> ''error'')),
     (''content_json'', JStr (tl_content_json r)), (''deterministic_summary'', JStr (tl_deterministic_summary r)),
     (''content_sha256'', JStr (tl_content_sha256 r)), (''source_refs'', strings_json (tl_source_refs r)),
     (''error_class'', opt_text_json (tl_error_class r)),
     (''content_mode'', JStr (case tl_content_mode r of RawContent \<Rightarrow> ''raw'' | SummaryContent \<Rightarrow> ''summary''))]"

definition group_json :: "conversation_group \<Rightarrow> json" where
  "group_json g = (case g of
       AssistantTurn r \<Rightarrow> JObj [(''group_type'', JStr ''assistant''), (''provider_turn_ref'', turn_ref_json r)]
     | ToolExchange x \<Rightarrow> JObj [(''group_type'', JStr ''tool_exchange''),
         (''provider_turn_ref'', turn_ref_json (xg_provider_turn_ref x)),
         (''tool_calls'', JList (map tool_call_json (xg_tool_calls x))),
         (''tool_results'', JList (map tool_result_json (xg_tool_results x)))])"

definition group_digest :: "gateway_externals \<Rightarrow> conversation_group \<Rightarrow> string" where
  "group_digest X g = sha_json X (group_json g)"

definition trimming_json :: "trimming_summary \<Rightarrow> json" where
  "trimming_json t = JObj [(''original_groups'', JInt (int (tr_original_groups t))),
     (''retained_groups'', JInt (int (tr_retained_groups t))),
     (''removed_group_digests'', strings_json (tr_removed_group_digests t)),
     (''compressed_result_digests'', strings_json (tr_compressed_result_digests t)),
     (''removed_evidence_digests'', strings_json (tr_removed_evidence_digests t)),
     (''estimated_before'', JInt (tr_estimated_before t)), (''estimated_after'', JInt (tr_estimated_after t))]"

definition record_digest_json :: "string \<Rightarrow> string option \<Rightarrow> string \<Rightarrow> json" where
  "record_digest_json source_ref revision digest = JObj [(''source_ref'', JStr source_ref),
     (''revision'', opt_text_json revision), (''digest'', JStr digest)]"

definition compute_context_hash ::
    "gateway_externals \<Rightarrow> context_datum list \<Rightarrow> conversation_group list \<Rightarrow> trimming_summary \<Rightarrow> typed_error_datum option
       \<Rightarrow> string" where
  "compute_context_hash X records history trimming latest_error = sha_json X (JObj
     [(''records'', JList (map (\<lambda>d. record_digest_json (dt_source_ref d) (dt_revision d) (dt_digest d)) records
        @ (case latest_error of None \<Rightarrow> [] | Some e \<Rightarrow> [record_digest_json (te_error_type e) None (te_digest e)]))),
      (''groups'', strings_json (map (group_digest X) history)), (''trimming'', trimming_json trimming)])"

subsection \<open>Messages\<close>

definition datum_json :: "context_datum \<Rightarrow> json" where
  "datum_json d = JObj [(''record_type'', JStr (datum_kind_value (dt_kind d))),
     (''namespace'', JStr (data_namespace_value (dt_namespace d))), (''source_ref'', JStr (dt_source_ref d)),
     (''revision'', opt_text_json (dt_revision d)), (''digest'', JStr (dt_digest d)), (''content'', JStr (dt_content d))]"

definition error_json :: "typed_error_datum \<Rightarrow> json" where
  "error_json e = JObj [(''record_type'', JStr ''error''), (''namespace'', JStr ''runtime_error''),
     (''source_ref'', JStr (te_error_type e)), (''revision'', JNull), (''digest'', JStr (te_digest e)),
     (''content'', JStr (te_message e)), (''reason_code'', JStr (te_reason_code e)), (''retryable'', JBool (te_retryable e))]"

definition records_text :: "context_request \<Rightarrow> context_datum list \<Rightarrow> string" where
  "records_text q evidence = dumps (JObj [(''records'', JList (map datum_json (cr_current_input q # cr_confirmed_facts q @ evidence)
     @ (case cr_latest_error q of None \<Rightarrow> [] | Some e \<Rightarrow> [error_json e])))])"

definition messages_of :: "string \<times> string \<Rightarrow> context_request \<Rightarrow> context_datum list \<Rightarrow> chat_message list" where
  "messages_of policies q evidence = [\<lparr>cm_role = ''system'', cm_content = fst policies\<rparr>,
     \<lparr>cm_role = ''system'', cm_content = snd policies\<rparr>, \<lparr>cm_role = ''user'', cm_content = records_text q evidence\<rparr>]"

definition zero_hash :: string where "zero_hash = replicate 64 (CHR ''0'')"

text \<open>
  Building the request validates its own fields; values that are models already (scope, inference, groups, tools) are
  taken as they are.
\<close>

definition request_fields_ok :: "model_request \<Rightarrow> bool" where
  "request_fields_ok r \<longleftrightarrow> 0 \<le> mq_sequence r \<and> list_all valid_chat_message (mq_messages r)
     \<and> dec_finite (mq_timeout_seconds r) \<and> dec_lt dec_zero (mq_timeout_seconds r)
     \<and> dec_le (mq_timeout_seconds r) (dec_of_int 600) \<and> len_ok 1 128 (mq_capability_revision r)
     \<and> length (mq_provider_user_id r) = 32 \<and> list_all is_hex (mq_provider_user_id r) \<and> hex64 (mq_config_hash r)"

definition draft_request ::
    "context_builder \<Rightarrow> context_request \<Rightarrow> run_profile \<Rightarrow> inference_config \<Rightarrow> string \<Rightarrow> (string \<times> string)
       \<Rightarrow> tool_definition list \<Rightarrow> conversation_group list \<Rightarrow> context_datum list \<Rightarrow> model_request" where
  "draft_request B q p i config_hash policies tools history evidence =
     \<lparr>mq_run_scope = cr_run_scope q, mq_attempt_id = cr_attempt_id q, mq_sequence = cr_sequence q, mq_inference = i,
      mq_messages = messages_of policies q evidence, mq_history = history, mq_tools = tools,
      mq_timeout_seconds = bu_timeout_seconds B, mq_capability_revision = pf_capability_revision p,
      mq_provider_user_id = bu_provider_user_id B, mq_prompt_policy_hash = zero_hash, mq_rendered_prompt_hash = zero_hash,
      mq_tool_hash = zero_hash, mq_context_hash = zero_hash, mq_config_hash = config_hash\<rparr>"

definition model_request_of ::
    "context_builder \<Rightarrow> context_request \<Rightarrow> run_profile \<Rightarrow> inference_config \<Rightarrow> string \<Rightarrow> conversation_group list
       \<Rightarrow> context_datum list \<Rightarrow> builder_error + model_request" where
  "model_request_of B q p i config_hash history evidence =
     (case (policy_for (bu_registry B) (pf_key p), tools_for_step (bu_registry B) (pf_key p) (cr_step q)) of
        (Some policies, Some tools) \<Rightarrow>
          (let r = draft_request B q p i config_hash policies tools history evidence
           in if request_fields_ok r then Inr r else Inl BuilderValueError)
      | _ \<Rightarrow> Inl RevisionMismatch)"

definition estimate_of :: "context_builder \<Rightarrow> run_profile \<Rightarrow> model_request \<Rightarrow> builder_error + int" where
  "estimate_of B p r = (case bu_estimate B r of
       None \<Rightarrow> Inl BuilderValueError
     | Some (n, revision) \<Rightarrow> if revision \<noteq> pf_estimator_revision p then Inl RevisionMismatch else Inr n)"

definition candidate_tokens ::
    "context_builder \<Rightarrow> context_request \<Rightarrow> run_profile \<Rightarrow> inference_config \<Rightarrow> string \<Rightarrow> conversation_group list
       \<Rightarrow> context_datum list \<Rightarrow> builder_error + int" where
  "candidate_tokens B q p i h history evidence = rbind (model_request_of B q p i h history evidence) (estimate_of B p)"

subsection \<open>Trimming\<close>

text \<open>Stage one drops the oldest groups; \<open>E\<close> estimates a history.\<close>

fun trim_groups ::
    "gateway_externals \<Rightarrow> (conversation_group list \<Rightarrow> builder_error + int) \<Rightarrow> int \<Rightarrow> nat \<Rightarrow> conversation_group list \<Rightarrow> int
       \<Rightarrow> string list \<Rightarrow> builder_error + (conversation_group list \<times> int \<times> string list)" where
  "trim_groups X E limit keep [] after removed = Inr ([], after, removed)"
| "trim_groups X E limit keep (g # gs) after removed =
     (if after \<le> limit \<or> Suc (length gs) \<le> keep then Inr (g # gs, after, removed)
      else rbind (E gs) (\<lambda>n. trim_groups X E limit keep gs n (removed @ [group_digest X g])))"

definition summarize_result :: "tool_result \<Rightarrow> tool_result" where
  "summarize_result r = r\<lparr>tl_content_json := dumps (JObj [(''content_sha256'', JStr (tl_content_sha256 r)),
       (''deterministic_summary'', JStr (tl_deterministic_summary r)), (''error_class'', opt_text_json (tl_error_class r))]),
     tl_content_mode := SummaryContent\<rparr>"

text \<open>Stage two replaces raw results by their summaries, oldest first, until the budget holds.\<close>

fun compress_results ::
    "(tool_result list \<Rightarrow> builder_error + int) \<Rightarrow> int \<Rightarrow> tool_result list \<Rightarrow> tool_result list \<Rightarrow> int \<Rightarrow> string list
       \<Rightarrow> builder_error + (tool_result list \<times> int \<times> string list)" where
  "compress_results E limit front [] after digests = Inr (front, after, digests)"
| "compress_results E limit front (r # rs) after digests =
     (if after \<le> limit then Inr (front @ r # rs, after, digests)
      else if tl_content_mode r \<noteq> RawContent then compress_results E limit (front @ [r]) rs after digests
      else rbind (E (front @ summarize_result r # rs)) (\<lambda>n.
        compress_results E limit (front @ [summarize_result r]) rs n (digests @ [tl_content_sha256 r])))"

fun compress_groups ::
    "(conversation_group list \<Rightarrow> builder_error + int) \<Rightarrow> int \<Rightarrow> conversation_group list \<Rightarrow> conversation_group list \<Rightarrow> int
       \<Rightarrow> string list \<Rightarrow> builder_error + (conversation_group list \<times> int \<times> string list)" where
  "compress_groups E limit front [] after digests = Inr (front, after, digests)"
| "compress_groups E limit front (g # gs) after digests =
     (if after \<le> limit then Inr (front @ g # gs, after, digests)
      else (case g of
          AssistantTurn _ \<Rightarrow> compress_groups E limit (front @ [g]) gs after digests
        | ToolExchange x \<Rightarrow>
            rbind (compress_results (\<lambda>rs. E (front @ ToolExchange (x\<lparr>xg_tool_results := rs\<rparr>) # gs)) limit []
                (xg_tool_results x) after digests)
              (\<lambda>(rs, n, ds). compress_groups E limit (front @ [ToolExchange (x\<lparr>xg_tool_results := rs\<rparr>)]) gs n ds)))"

text \<open>Stage three keeps the last datum of every identity.\<close>

definition identity_of :: "context_datum \<Rightarrow> datum_kind \<times> data_namespace \<times> string" where
  "identity_of d = (dt_kind d, dt_namespace d, dt_source_ref d)"

fun keep_last :: "context_datum list \<Rightarrow> context_datum list \<times> string list" where
  "keep_last [] = ([], [])"
| "keep_last (d # ds) = (let (kept, removed) = keep_last ds in
     if identity_of d \<in> set (map identity_of ds) then (kept, dt_digest d # removed) else (d # kept, removed))"

record trimmed =
  tm_history :: "conversation_group list"
  tm_evidence :: "context_datum list"
  tm_after :: int
  tm_removed :: "string list"
  tm_compressed :: "string list"
  tm_removed_evidence :: "string list"

definition trim_evidence ::
    "(context_datum list \<Rightarrow> builder_error + int) \<Rightarrow> int \<Rightarrow> context_datum list \<Rightarrow> int
       \<Rightarrow> builder_error + (context_datum list \<times> int \<times> string list)" where
  "trim_evidence E limit evidence after =
     (if after \<le> limit then Inr (evidence, after, [])
      else (let (kept, removed) = keep_last evidence in rbind (E kept) (\<lambda>n. Inr (kept, n, removed))))"

definition trim_context ::
    "gateway_externals \<Rightarrow> (conversation_group list \<Rightarrow> context_datum list \<Rightarrow> builder_error + int) \<Rightarrow> run_profile
       \<Rightarrow> conversation_group list \<Rightarrow> context_datum list \<Rightarrow> int \<Rightarrow> builder_error + trimmed" where
  "trim_context X E p history evidence before =
     rbind (trim_groups X (\<lambda>h. E h evidence) (pf_input_token_limit p) (pf_minimum_recent_groups p) history before [])
       (\<lambda>(h1, n1, removed).
     rbind (compress_groups (\<lambda>h. E h evidence) (pf_input_token_limit p) [] h1 n1 []) (\<lambda>(h2, n2, compressed).
     rbind (trim_evidence (E h2) (pf_input_token_limit p) evidence n2) (\<lambda>(ev, n3, removed_evidence).
     if pf_input_token_limit p < n3 then Inl BudgetExceeded
     else Inr \<lparr>tm_history = h2, tm_evidence = ev, tm_after = n3, tm_removed = removed, tm_compressed = compressed,
       tm_removed_evidence = removed_evidence\<rparr>)))"

subsection \<open>Validation\<close>

fun expected_scope :: "profile_key \<Rightarrow> string \<times> string" where
  "expected_scope RetailKey = (''retail'', ''retail'')"
| "expected_scope BirdAKey = (''bird'', ''a'')"
| "expected_scope BirdCKey = (''bird'', ''c'')"

fun check_data :: "gateway_externals \<Rightarrow> run_profile \<Rightarrow> context_datum list \<Rightarrow> builder_error + unit" where
  "check_data X p [] = Inr ()"
| "check_data X p (d # ds) =
     (if \<not> valid_context_datum (gx_sha X) d then Inl (IntegrityError ''context_integrity_error'')
      else if dt_namespace d \<notin> set (pf_allowed_namespaces p) then Inl NamespaceViolation
      else check_data X p ds)"

fun check_groups :: "gateway_externals \<Rightarrow> string \<Rightarrow> uuid \<Rightarrow> conversation_group list \<Rightarrow> builder_error + unit" where
  "check_groups X digest attempt [] = Inr ()"
| "check_groups X digest attempt (g # gs) =
     (if \<not> valid_conversation_group (canonb X) g \<or> tf_scope_digest (group_ref g) \<noteq> digest
         \<or> tf_attempt_id (group_ref g) \<noteq> attempt then Inl ToolResultMismatch
      else check_groups X digest attempt gs)"

definition validate_context :: "context_builder \<Rightarrow> context_request \<Rightarrow> builder_error + run_profile" where
  "validate_context B q =
     (let X = bu_externals B; sequences = map (\<lambda>g. tf_sequence (group_ref g)) (cr_history q) in
      case profile_of (bu_registry B) (pf_key (cr_profile q)) of
        None \<Rightarrow> Inl RevisionMismatch
      | Some p \<Rightarrow>
          if canonical_text (profile_jval X p) \<noteq> canonical_text (profile_jval X (cr_profile q))
          then Inl (ProfileMismatch ''profile_mismatch'')
          else if cr_step q \<notin> set (map ir_step (pf_inference_rules p)) then Inl (ProfileMismatch ''profile_step_mismatch'')
          else if (rs_track (cr_run_scope q), rs_mode (cr_run_scope q)) \<noteq> expected_scope (pf_key p)
          then Inl (ProfileMismatch ''profile_scope_mismatch'')
          else if bu_estimator_revision B \<noteq> pf_estimator_revision p then Inl RevisionMismatch
          else rbind (check_data X p (cr_current_input q # cr_confirmed_facts q @ cr_evidence q)) (\<lambda>_.
            if \<not> (case cr_latest_error q of None \<Rightarrow> True | Some e \<Rightarrow> valid_typed_error_datum (gx_sha X) e)
            then Inl (IntegrityError ''context_integrity_error'')
            else rbind (check_groups X (scope_digest (gx_sha X) (cr_run_scope q)) (cr_attempt_id q) (cr_history q)) (\<lambda>_.
              if sequences \<noteq> sorted_list_of_set (set sequences) \<or> list_ex (\<lambda>n. cr_sequence q \<le> n) sequences
              then Inl ToolResultMismatch else Inr p)))"

subsection \<open>Building\<close>

definition bundle_of ::
    "context_builder \<Rightarrow> context_request \<Rightarrow> run_profile \<Rightarrow> string \<Rightarrow> (string \<times> string) \<Rightarrow> model_request \<Rightarrow> trimmed
       \<Rightarrow> trimming_summary \<Rightarrow> prompt_bundle" where
  "bundle_of B q p config_hash policies draft t summary =
     (let X = bu_externals B;
          policy_hash = compute_prompt_policy_hash X (fst policies) (snd policies);
          prompt_hash = compute_rendered_prompt_hash X (mq_messages draft);
          tool_hash = compute_tool_hash X p (mq_tools draft);
          context_hash = compute_context_hash X (cr_current_input q # cr_confirmed_facts q @ tm_evidence t) (tm_history t)
            summary (cr_latest_error q) in
      \<lparr>pu_model_request = draft\<lparr>mq_prompt_policy_hash := policy_hash, mq_rendered_prompt_hash := prompt_hash,
           mq_tool_hash := tool_hash, mq_context_hash := context_hash, mq_config_hash := config_hash\<rparr>,
       pu_profile = pf_key p, pu_prompt_policy_hash = policy_hash, pu_rendered_prompt_hash = prompt_hash,
       pu_tool_hash = tool_hash, pu_context_hash = context_hash, pu_config_hash = config_hash,
       pu_estimated_input_tokens = tm_after t, pu_trimming = summary\<rparr>)"

definition summary_of_trim :: "context_request \<Rightarrow> int \<Rightarrow> trimmed \<Rightarrow> trimming_summary" where
  "summary_of_trim q before t = \<lparr>tr_original_groups = length (cr_history q), tr_retained_groups = length (tm_history t),
     tr_removed_group_digests = tm_removed t, tr_compressed_result_digests = tm_compressed t,
     tr_removed_evidence_digests = tm_removed_evidence t, tr_estimated_before = before, tr_estimated_after = tm_after t\<rparr>"

definition finish_build ::
    "context_builder \<Rightarrow> context_request \<Rightarrow> run_profile \<Rightarrow> inference_config \<Rightarrow> string \<Rightarrow> int \<Rightarrow> trimmed
       \<Rightarrow> builder_error + prompt_bundle" where
  "finish_build B q p i config_hash before t =
     rbind (model_request_of B q p i config_hash (tm_history t) (tm_evidence t)) (\<lambda>draft.
     case policy_for (bu_registry B) (pf_key p) of
       None \<Rightarrow> Inl RevisionMismatch
     | Some policies \<Rightarrow>
         (let b = bundle_of B q p config_hash policies draft t (summary_of_trim q before t) in
          rbind (estimate_of B p (pu_model_request b)) (\<lambda>n.
          if n \<noteq> tm_after t then Inl (IntegrityError ''estimate_changed_after_hashing'')
          else if valid_prompt_bundle b then Inr b else Inl BuilderValueError)))"

definition build_context :: "context_builder \<Rightarrow> context_request \<Rightarrow> builder_error + prompt_bundle" where
  "build_context B q = rbind (validate_context B q) (\<lambda>p.
     case rule_for p (cr_step q) of
       None \<Rightarrow> Inl BuilderValueError
     | Some rule \<Rightarrow>
         (case compute_config_hash (bu_externals B) p (bu_requested_model B) of
            None \<Rightarrow> Inl BuilderValueError
          | Some config_hash \<Rightarrow>
              if rs_config_hash (cr_run_scope q) \<noteq> config_hash then Inl RevisionMismatch
              else rbind (candidate_tokens B q p (ir_inference rule) config_hash (cr_history q) (cr_evidence q)) (\<lambda>before.
                rbind (trim_context (bu_externals B) (candidate_tokens B q p (ir_inference rule) config_hash) p
                    (cr_history q) (cr_evidence q) before)
                  (finish_build B q p (ir_inference rule) config_hash before))))"

subsection \<open>What each stage does\<close>

definition result_kept :: "tool_result \<Rightarrow> tool_result \<Rightarrow> bool" where
  "result_kept r s \<longleftrightarrow> s = r \<or> tl_content_mode r = RawContent \<and> s = summarize_result r"

definition group_kept :: "conversation_group \<Rightarrow> conversation_group \<Rightarrow> bool" where
  "group_kept g h = (case g of
       AssistantTurn r \<Rightarrow> h = g
     | ToolExchange x \<Rightarrow> \<exists>rs. h = ToolExchange (x\<lparr>xg_tool_results := rs\<rparr>) \<and> list_all2 result_kept (xg_tool_results x) rs)"

definition summarize_all :: "tool_result list \<Rightarrow> tool_result list" where
  "summarize_all rs = map (\<lambda>r. if tl_content_mode r = RawContent then summarize_result r else r) rs"

definition summarize_group :: "conversation_group \<Rightarrow> conversation_group" where
  "summarize_group g = (case g of
       AssistantTurn r \<Rightarrow> g
     | ToolExchange x \<Rightarrow> ToolExchange (x\<lparr>xg_tool_results := summarize_all (xg_tool_results x)\<rparr>))"

lemma result_kept_refl [simp]: "result_kept r r"
  by (simp add: result_kept_def)

lemma results_kept_refl [simp]: "list_all2 result_kept rs rs"
  by (rule list_all2_refl) simp

lemma update_same_results [simp]: "x\<lparr>xg_tool_results := xg_tool_results x\<rparr> = x"
  by simp

lemma group_kept_refl [simp]: "group_kept g g"
proof (cases g)
  case (ToolExchange x)
  then show ?thesis by (auto simp: group_kept_def intro!: exI [of _ "xg_tool_results x"])
qed (simp add: group_kept_def)

lemma groups_kept_refl [simp]: "list_all2 group_kept gs gs"
  by (rule list_all2_refl) simp

lemma group_kept_ref: "group_kept g h \<Longrightarrow> group_ref h = group_ref g"
  by (auto simp: group_kept_def group_ref_def split: conversation_group.splits)

lemma groups_kept_refs: "list_all2 group_kept gs hs \<Longrightarrow> map group_ref hs = map group_ref gs"
  by (induction rule: list_all2_induct) (simp_all add: group_kept_ref)

lemma trim_groups_spec:
  assumes "trim_groups X E limit keep h after removed = Inr (h', n, rem)"
  shows "\<exists>k \<le> length h. h' = drop k h \<and> rem = removed @ map (group_digest X) (take k h)
    \<and> (k = 0 \<and> n = after \<or> 0 < k \<and> keep \<le> length h' \<and> limit < after \<and> E h' = Inr n)
    \<and> (n \<le> limit \<or> length h' \<le> keep)
    \<and> (\<forall>j < k. 0 < j \<longrightarrow> (\<exists>m. E (drop j h) = Inr m \<and> limit < m))"
  using assms
proof (induction h arbitrary: after removed)
  case Nil
  then show ?case by simp
next
  case (Cons g gs)
  show ?case
  proof (cases "after \<le> limit \<or> Suc (length gs) \<le> keep")
    case True
    then show ?thesis using Cons.prems by (intro exI [of _ 0]) auto
  next
    case False
    then obtain m where m: "E gs = Inr m" "trim_groups X E limit keep gs m (removed @ [group_digest X g]) = Inr (h', n, rem)"
      using Cons.prems by (auto simp: rbind_Inr_iff)
    obtain k where k: "k \<le> length gs" "h' = drop k gs" "rem = (removed @ [group_digest X g]) @ map (group_digest X) (take k gs)"
      "k = 0 \<and> n = m \<or> 0 < k \<and> keep \<le> length h' \<and> limit < m \<and> E h' = Inr n" "n \<le> limit \<or> length h' \<le> keep"
      "\<forall>j < k. 0 < j \<longrightarrow> (\<exists>m. E (drop j gs) = Inr m \<and> limit < m)"
      using Cons.IH [OF m(2)] by blast
    have "\<exists>m. E (drop j (g # gs)) = Inr m \<and> limit < m" if "j < Suc k" "0 < j" for j
      using that k(4,6) m(1) by (cases j; cases "j - 1") auto
    then show ?thesis using k m(1) False by (intro exI [of _ "Suc k"]) auto
  qed
qed

lemma compress_results_spec:
  assumes "compress_results E limit front rs after ds = Inr (out, n, ds')"
  shows "\<exists>ts. out = front @ ts \<and> list_all2 result_kept rs ts \<and> (\<exists>cs. ds' = ds @ cs \<and> (after \<le> limit \<longrightarrow> cs = []))
    \<and> (after \<le> limit \<longrightarrow> ts = rs \<and> n = after) \<and> (limit < n \<longrightarrow> ts = summarize_all rs)
    \<and> (E out = Inr n \<or> ts = rs \<and> n = after)"
  using assms
proof (induction E limit front rs after ds rule: compress_results.induct)
  case (1 E limit front after ds)
  then show ?case by (auto simp: summarize_all_def)
next
  case (2 E limit front r rs after ds)
  consider "after \<le> limit" | "limit < after" "tl_content_mode r \<noteq> RawContent" | "limit < after" "tl_content_mode r = RawContent"
    by linarith
  then show ?case
  proof cases
    case 1
    then show ?thesis using 2(3) by (auto simp: summarize_all_def)
  next
    case 2
    then obtain ts where "out = (front @ [r]) @ ts" "list_all2 result_kept rs ts" "\<exists>cs. ds' = ds @ cs"
      "limit < n \<longrightarrow> ts = summarize_all rs" "E out = Inr n \<or> ts = rs \<and> n = after"
      using \<open>_ \<Longrightarrow> _ \<Longrightarrow> compress_results E limit (front @ [r]) rs after ds = Inr (out, n, ds') \<Longrightarrow> _\<close> "2.prems" by fastforce
    then show ?thesis using 2 by (intro exI [of _ "r # ts"]) (auto simp: summarize_all_def)
  next
    case 3
    then obtain m where m: "E (front @ summarize_result r # rs) = Inr m"
      "compress_results E limit (front @ [summarize_result r]) rs m (ds @ [tl_content_sha256 r]) = Inr (out, n, ds')"
      using "2.prems" by (auto simp: rbind_Inr_iff)
    have lim: "\<not> after \<le> limit" "\<not> tl_content_mode r \<noteq> RawContent" using 3 by simp_all
    obtain ts where "out = (front @ [summarize_result r]) @ ts" "list_all2 result_kept rs ts" "\<exists>cs. ds' = (ds @ [tl_content_sha256 r]) @ cs"
      "limit < n \<longrightarrow> ts = summarize_all rs" "E out = Inr n \<or> ts = rs \<and> n = m"
      using "2.IH"(2) [OF lim m(2)] by blast
    moreover have "result_kept r (summarize_result r)" using 3 by (simp add: result_kept_def)
    ultimately show ?thesis using 3 m(1) by (intro exI [of _ "summarize_result r # ts"]) (auto simp: summarize_all_def)
  qed
qed

lemma compress_groups_spec:
  assumes "compress_groups E limit front gs after ds = Inr (out, n, ds')"
  shows "\<exists>hs. out = front @ hs \<and> list_all2 group_kept gs hs \<and> (\<exists>cs. ds' = ds @ cs \<and> (after \<le> limit \<longrightarrow> cs = []))
    \<and> (after \<le> limit \<longrightarrow> hs = gs \<and> n = after) \<and> (limit < n \<longrightarrow> hs = map summarize_group gs)
    \<and> (E out = Inr n \<or> hs = gs \<and> n = after)"
  using assms
proof (induction gs arbitrary: front after ds)
  case Nil
  then show ?case by simp
next
  case (Cons g gs)
  show ?case
  proof (cases "after \<le> limit")
    case True
    then show ?thesis using Cons.prems by auto
  next
    case False
    show ?thesis
    proof (cases g)
      case (AssistantTurn r)
      then have "compress_groups E limit (front @ [g]) gs after ds = Inr (out, n, ds')" using Cons.prems False by simp
      from Cons.IH [OF this] obtain hs where "out = (front @ [g]) @ hs" "list_all2 group_kept gs hs" "\<exists>cs. ds' = ds @ cs"
        "limit < n \<longrightarrow> hs = map summarize_group gs" "E out = Inr n \<or> hs = gs \<and> n = after" by blast
      then show ?thesis using False AssistantTurn
        by (intro exI [of _ "g # hs"]) (auto simp: summarize_group_def)
    next
      case (ToolExchange x)
      then obtain rs m ds1 where m: "compress_results (\<lambda>rs. E (front @ ToolExchange (x\<lparr>xg_tool_results := rs\<rparr>) # gs)) limit []
          (xg_tool_results x) after ds = Inr (rs, m, ds1)"
        "compress_groups E limit (front @ [ToolExchange (x\<lparr>xg_tool_results := rs\<rparr>)]) gs m ds1 = Inr (out, n, ds')"
        using Cons.prems False by (auto simp: rbind_Inr_iff)
      note r = compress_results_spec [OF m(1)]
      have kept: "group_kept g (ToolExchange (x\<lparr>xg_tool_results := rs\<rparr>))" using r ToolExchange by (auto simp: group_kept_def)
      obtain hs where hs: "out = (front @ [ToolExchange (x\<lparr>xg_tool_results := rs\<rparr>)]) @ hs" "list_all2 group_kept gs hs"
        "\<exists>cs. ds' = ds1 @ cs" "m \<le> limit \<longrightarrow> hs = gs \<and> n = m" "limit < n \<longrightarrow> hs = map summarize_group gs"
        "E out = Inr n \<or> hs = gs \<and> n = m" using Cons.IH [OF m(2)] by blast
      have all: "ToolExchange (x\<lparr>xg_tool_results := rs\<rparr>) = summarize_group g" if "limit < n"
      proof -
        have "limit < m" using that hs(4) by force
        then show ?thesis using r ToolExchange by (simp add: summarize_group_def)
      qed
      have same: "E out = Inr n \<or> ToolExchange (x\<lparr>xg_tool_results := rs\<rparr>) # hs = g # gs \<and> n = after"
        using hs(1,6) r ToolExchange by auto
      obtain cs where cs: "ds' = ds @ cs" using hs(3) r by auto
      moreover have "limit < n \<longrightarrow> ToolExchange (x\<lparr>xg_tool_results := rs\<rparr>) # hs = map summarize_group (g # gs)"
        using hs(5) all by simp
      moreover have "list_all2 group_kept (g # gs) (ToolExchange (x\<lparr>xg_tool_results := rs\<rparr>) # hs)"
        using kept hs(2) by simp
      moreover have "out = front @ ToolExchange (x\<lparr>xg_tool_results := rs\<rparr>) # hs" using hs(1) by simp
      ultimately show ?thesis
        using False same by (intro exI [of _ "ToolExchange (x\<lparr>xg_tool_results := rs\<rparr>) # hs"] conjI) simp_all
    qed
  qed
qed

lemma keep_last_spec:
  "keep_last ds = (kept, removed) \<Longrightarrow>
     set (map identity_of kept) = set (map identity_of ds) \<and> distinct (map identity_of kept)
     \<and> (\<forall>d \<in> set kept. \<exists>xs ys. ds = xs @ d # ys \<and> identity_of d \<notin> set (map identity_of ys))
     \<and> length kept + length removed = length ds"
proof (induction ds arbitrary: kept removed)
  case (Cons d ds)
  obtain k r where k: "keep_last ds = (k, r)" by (rule prod.exhaust)
  note ih = Cons.IH [OF k]
  then have last: "\<forall>d \<in> set k. \<exists>xs ys. ds = xs @ d # ys \<and> identity_of d \<notin> set (map identity_of ys)" by (elim conjE)
  have old: "\<exists>xs ys. d # ds = xs @ e # ys \<and> identity_of e \<notin> set (map identity_of ys)" if "e \<in> set k" for e
  proof -
    have "\<exists>xs ys. ds = xs @ e # ys \<and> identity_of e \<notin> set (map identity_of ys)" by (rule bspec [OF last that])
    then obtain xs ys where "ds = xs @ e # ys" "identity_of e \<notin> set (map identity_of ys)" by (elim exE conjE)
    then show ?thesis by (intro exI [of _ "d # xs"] exI [of _ ys]) simp
  qed
  show ?case
  proof (cases "identity_of d \<in> set (map identity_of ds)")
    case True
    then have "kept = k" "removed = dt_digest d # r" using Cons.prems k by auto
    then show ?thesis using ih old True by auto
  next
    case False
    then have kd: "kept = d # k" "removed = r" using Cons.prems k by auto
    moreover have "\<exists>xs ys. d # ds = xs @ d # ys \<and> identity_of d \<notin> set (map identity_of ys)"
      using False by (intro exI [of _ "[]"] exI [of _ ds]) simp
    ultimately show ?thesis using ih old False by auto
  qed
qed simp

subsection \<open>A built context\<close>

definition built_from ::
    "context_builder \<Rightarrow> context_request \<Rightarrow> prompt_bundle \<Rightarrow> run_profile \<Rightarrow> inference_rule \<Rightarrow> string \<Rightarrow> int \<Rightarrow> trimmed
       \<Rightarrow> (string \<times> string) \<Rightarrow> tool_definition list \<Rightarrow> bool" where
  "built_from B q b p rule hash before t policies tools \<longleftrightarrow>
     validate_context B q = Inr p \<and> rule_for p (cr_step q) = Some rule
     \<and> compute_config_hash (bu_externals B) p (bu_requested_model B) = Some hash \<and> rs_config_hash (cr_run_scope q) = hash
     \<and> candidate_tokens B q p (ir_inference rule) hash (cr_history q) (cr_evidence q) = Inr before
     \<and> trim_context (bu_externals B) (candidate_tokens B q p (ir_inference rule) hash) p (cr_history q) (cr_evidence q) before = Inr t
     \<and> policy_for (bu_registry B) (pf_key p) = Some policies
     \<and> tools_for_step (bu_registry B) (pf_key p) (cr_step q) = Some tools
     \<and> b = bundle_of B q p hash policies (draft_request B q p (ir_inference rule) hash policies tools (tm_history t) (tm_evidence t))
         t (summary_of_trim q before t)
     \<and> request_fields_ok (draft_request B q p (ir_inference rule) hash policies tools (tm_history t) (tm_evidence t))
     \<and> estimate_of B p (pu_model_request b) = Inr (tm_after t) \<and> valid_prompt_bundle b"

lemma build_contextE:
  assumes "build_context B q = Inr b"
  obtains p rule hash before t policies tools where "built_from B q b p rule hash before t policies tools"
proof -
  obtain p where p: "validate_context B q = Inr p" using assms by (auto simp: build_context_def rbind_Inr_iff)
  obtain rule where r: "rule_for p (cr_step q) = Some rule"
    using assms p by (auto simp: build_context_def split: option.splits)
  obtain hash where h: "compute_config_hash (bu_externals B) p (bu_requested_model B) = Some hash"
    "rs_config_hash (cr_run_scope q) = hash" using assms p r by (auto simp: build_context_def split: option.splits if_splits)
  obtain before t where t: "candidate_tokens B q p (ir_inference rule) hash (cr_history q) (cr_evidence q) = Inr before"
    "trim_context (bu_externals B) (candidate_tokens B q p (ir_inference rule) hash) p (cr_history q) (cr_evidence q) before = Inr t"
    "finish_build B q p (ir_inference rule) hash before t = Inr b"
    using assms p r h by (auto simp: build_context_def rbind_Inr_iff)
  obtain draft policies where d: "model_request_of B q p (ir_inference rule) hash (tm_history t) (tm_evidence t) = Inr draft"
    "policy_for (bu_registry B) (pf_key p) = Some policies"
    "b = bundle_of B q p hash policies draft t (summary_of_trim q before t)"
    "estimate_of B p (pu_model_request b) = Inr (tm_after t)" "valid_prompt_bundle b"
    using t(3) by (auto simp: finish_build_def rbind_Inr_iff Let_def split: option.splits if_splits)
  obtain tools where "tools_for_step (bu_registry B) (pf_key p) (cr_step q) = Some tools"
    "draft = draft_request B q p (ir_inference rule) hash policies tools (tm_history t) (tm_evidence t)" "request_fields_ok draft"
    using d(1,2) by (auto simp: model_request_of_def Let_def split: option.splits if_splits)
  then have "built_from B q b p rule hash before t policies tools"
    using p r h t(1,2) d(2-5) by (simp add: built_from_def)
  then show ?thesis by (rule that)
qed

lemma built_fromD:
  assumes "built_from B q b p rule hash before t policies tools"
  shows "validate_context B q = Inr p" "rule_for p (cr_step q) = Some rule"
    "trim_context (bu_externals B) (candidate_tokens B q p (ir_inference rule) hash) p (cr_history q) (cr_evidence q) before = Inr t"
    "policy_for (bu_registry B) (pf_key p) = Some policies" "tools_for_step (bu_registry B) (pf_key p) (cr_step q) = Some tools"
    "b = bundle_of B q p hash policies (draft_request B q p (ir_inference rule) hash policies tools (tm_history t) (tm_evidence t))
         t (summary_of_trim q before t)"
    "estimate_of B p (pu_model_request b) = Inr (tm_after t)" "valid_prompt_bundle b"
  using assms unfolding built_from_def by - (elim conjE, assumption)+

lemma bundle_request:
  "mq_history (pu_model_request (bundle_of B q p hash policies draft t s)) = mq_history draft"
  "mq_messages (pu_model_request (bundle_of B q p hash policies draft t s)) = mq_messages draft"
  "mq_tools (pu_model_request (bundle_of B q p hash policies draft t s)) = mq_tools draft"
  "mq_sequence (pu_model_request (bundle_of B q p hash policies draft t s)) = mq_sequence draft"
  "mq_run_scope (pu_model_request (bundle_of B q p hash policies draft t s)) = mq_run_scope draft"
  "mq_attempt_id (pu_model_request (bundle_of B q p hash policies draft t s)) = mq_attempt_id draft"
  "mq_inference (pu_model_request (bundle_of B q p hash policies draft t s)) = mq_inference draft"
  "mq_capability_revision (pu_model_request (bundle_of B q p hash policies draft t s)) = mq_capability_revision draft"
  "pu_trimming (bundle_of B q p hash policies draft t s) = s"
  "pu_profile (bundle_of B q p hash policies draft t s) = pf_key p"
  "pu_estimated_input_tokens (bundle_of B q p hash policies draft t s) = tm_after t"
  "pu_rendered_prompt_hash (bundle_of B q p hash policies draft t s)
     = compute_rendered_prompt_hash (bu_externals B) (mq_messages draft)"
  by (simp_all add: bundle_of_def Let_def)

lemma draft_simps:
  "mq_history (draft_request B q p i h ps ts hs ev) = hs" "mq_messages (draft_request B q p i h ps ts hs ev) = messages_of ps q ev"
  "mq_tools (draft_request B q p i h ps ts hs ev) = ts" "mq_sequence (draft_request B q p i h ps ts hs ev) = cr_sequence q"
  "mq_run_scope (draft_request B q p i h ps ts hs ev) = cr_run_scope q"
  "mq_attempt_id (draft_request B q p i h ps ts hs ev) = cr_attempt_id q"
  "mq_inference (draft_request B q p i h ps ts hs ev) = i"
  "mq_capability_revision (draft_request B q p i h ps ts hs ev) = pf_capability_revision p"
  by (simp_all add: draft_request_def)

text \<open>What the three stages kept of a history and its evidence.\<close>

definition trimmed_from ::
    "gateway_externals \<Rightarrow> run_profile \<Rightarrow> conversation_group list \<Rightarrow> context_datum list \<Rightarrow> int \<Rightarrow> trimmed \<Rightarrow> bool" where
  "trimmed_from X p history evidence before t \<longleftrightarrow>
     (\<exists>k \<le> length history. list_all2 group_kept (drop k history) (tm_history t)
        \<and> tm_removed t = map (group_digest X) (take k history)
        \<and> (0 < k \<longrightarrow> pf_input_token_limit p < before \<and> pf_minimum_recent_groups p \<le> length (tm_history t))
        \<and> (tm_history t \<noteq> drop k history \<longrightarrow> length (tm_history t) \<le> pf_minimum_recent_groups p)
        \<and> (tm_evidence t = evidence \<or> tm_evidence t = fst (keep_last evidence)
             \<and> tm_history t = map summarize_group (drop k history) \<and> length (tm_history t) \<le> pf_minimum_recent_groups p)
        \<and> tm_after t \<le> pf_input_token_limit p)"

lemma summarized_length: "list_all2 group_kept gs hs \<Longrightarrow> length hs = length gs"
  by (simp add: list_all2_lengthD)

lemma trim_context_spec:
  assumes "trim_context X E p history evidence before = Inr t"
  shows "trimmed_from X p history evidence before t"
    and "before \<le> pf_input_token_limit p \<Longrightarrow> tm_history t = history \<and> tm_evidence t = evidence \<and> tm_after t = before"
proof -
  define limit keep where "limit = pf_input_token_limit p" and "keep = pf_minimum_recent_groups p"
  obtain h1 n1 removed h2 n2 compressed ev n3 removed_ev where
    s1: "trim_groups X (\<lambda>h. E h evidence) limit keep history before [] = Inr (h1, n1, removed)" and
    s2: "compress_groups (\<lambda>h. E h evidence) limit [] h1 n1 [] = Inr (h2, n2, compressed)" and
    s3: "trim_evidence (E h2) limit evidence n2 = Inr (ev, n3, removed_ev)" and
    ok: "n3 \<le> limit" and
    t: "tm_history t = h2" "tm_evidence t = ev" "tm_after t = n3" "tm_removed t = removed"
    using assms by (auto simp: trim_context_def rbind_Inr_iff limit_def keep_def split: if_splits)
  obtain k where k: "k \<le> length history" "h1 = drop k history" "removed = map (group_digest X) (take k history)"
    "k = 0 \<and> n1 = before \<or> 0 < k \<and> keep \<le> length h1 \<and> limit < before" "n1 \<le> limit \<or> length h1 \<le> keep"
    using trim_groups_spec [OF s1] by (elim exE conjE) (rule that; force)
  have c: "list_all2 group_kept h1 h2" "n1 \<le> limit \<longrightarrow> h2 = h1 \<and> n2 = n1" "limit < n2 \<longrightarrow> h2 = map summarize_group h1"
    using compress_groups_spec [OF s2] by auto
  have e: "ev = evidence \<and> n2 \<le> limit \<and> n3 = n2 \<or> limit < n2 \<and> ev = fst (keep_last evidence)"
    using s3 by (cases "keep_last evidence") (auto simp: trim_evidence_def rbind_Inr_iff split: if_splits)
  have len: "length h2 = length h1" using summarized_length [OF c(1)] .
  show "trimmed_from X p history evidence before t"
    unfolding trimmed_from_def t limit_def [symmetric] keep_def [symmetric]
    using k c e len ok by (intro exI [of _ k] conjI) auto
  show "tm_history t = history \<and> tm_evidence t = evidence \<and> tm_after t = before" if "before \<le> pf_input_token_limit p"
    using that k c e t by (auto simp: limit_def)
qed

lemma trimmed_evidence:
  assumes "trimmed_from X p history evidence before t"
  shows "tm_evidence t = evidence
    \<or> set (map identity_of (tm_evidence t)) = set (map identity_of evidence) \<and> distinct (map identity_of (tm_evidence t))
      \<and> (\<forall>d \<in> set (tm_evidence t). \<exists>xs ys. evidence = xs @ d # ys \<and> identity_of d \<notin> set (map identity_of ys))
      \<and> (\<exists>k \<le> length history. tm_history t = map summarize_group (drop k history))"
proof -
  obtain kept removed where k: "keep_last evidence = (kept, removed)" by (rule prod.exhaust)
  show ?thesis using assms keep_last_spec [OF k] unfolding trimmed_from_def k fst_conv by metis
qed

text \<open>
  C32: A built context keeps what it must. The messages are the two policies and one canonical JSON text of the records:
  the current input, every confirmed fact and the retained evidence, each with its kind, namespace, source, revision,
  digest and whole content, and the latest error when there is one. The history is a suffix of the given one with raw
  results at most summarised, cut and summarised only over budget and never below the minimum of recent groups. The
  retained evidence is complete, or it is the last datum of every identity, once each, and that only once every retained
  raw result is summarised. Within budget nothing is cut at all.
\<close>

theorem built_context_keeps:
  assumes "build_context B q = Inr b"
  shows "\<exists>p t common_policy profile_policy. validate_context B q = Inr p
    \<and> policy_for (bu_registry B) (pf_key p) = Some (common_policy, profile_policy)
    \<and> trimmed_from (bu_externals B) p (cr_history q) (cr_evidence q) (tr_estimated_before (pu_trimming b)) t
    \<and> mq_history (pu_model_request b) = tm_history t
    \<and> mq_messages (pu_model_request b) =
        [\<lparr>cm_role = ''system'', cm_content = common_policy\<rparr>, \<lparr>cm_role = ''system'', cm_content = profile_policy\<rparr>,
         \<lparr>cm_role = ''user'', cm_content = dumps (JObj [(''records'', JList (
            map (\<lambda>d. JObj [(''record_type'', JStr (datum_kind_value (dt_kind d))),
                  (''namespace'', JStr (data_namespace_value (dt_namespace d))), (''source_ref'', JStr (dt_source_ref d)),
                  (''revision'', case dt_revision d of None \<Rightarrow> JNull | Some r \<Rightarrow> JStr r), (''digest'', JStr (dt_digest d)),
                  (''content'', JStr (dt_content d))])
              (cr_current_input q # cr_confirmed_facts q @ tm_evidence t)
            @ (case cr_latest_error q of None \<Rightarrow> []
               | Some e \<Rightarrow> [JObj [(''record_type'', JStr ''error''), (''namespace'', JStr ''runtime_error''),
                    (''source_ref'', JStr (te_error_type e)), (''revision'', JNull), (''digest'', JStr (te_digest e)),
                    (''content'', JStr (te_message e)), (''reason_code'', JStr (te_reason_code e)),
                    (''retryable'', JBool (te_retryable e))]])))])\<rparr>]
    \<and> (tm_evidence t = cr_evidence q
        \<or> set (map identity_of (tm_evidence t)) = set (map identity_of (cr_evidence q)) \<and> distinct (map identity_of (tm_evidence t))
          \<and> (\<forall>d \<in> set (tm_evidence t). \<exists>xs ys. cr_evidence q = xs @ d # ys \<and> identity_of d \<notin> set (map identity_of ys))
          \<and> (\<exists>k \<le> length (cr_history q). tm_history t = map summarize_group (drop k (cr_history q))))
    \<and> tr_removed_group_digests (pu_trimming b) = tm_removed t
    \<and> (tr_estimated_before (pu_trimming b) \<le> pf_input_token_limit p
         \<longrightarrow> mq_history (pu_model_request b) = cr_history q \<and> tm_evidence t = cr_evidence q)"
proof -
  obtain p rule hash before t policies tools where f: "built_from B q b p rule hash before t policies tools"
    using build_contextE [OF assms] .
  obtain common_policy profile_policy where pol: "policies = (common_policy, profile_policy)" by (rule prod.exhaust)
  note v = built_fromD [OF f]
  have before: "tr_estimated_before (pu_trimming b) = before" "tr_removed_group_digests (pu_trimming b) = tm_removed t"
    by (simp_all add: v(6) bundle_request summary_of_trim_def)
  have history: "mq_history (pu_model_request b) = tm_history t" by (simp add: v(6) bundle_request draft_simps)
  have messages: "mq_messages (pu_model_request b) = messages_of (common_policy, profile_policy) q (tm_evidence t)"
    by (simp add: v(6) bundle_request draft_simps pol)
  have datum: "datum_json = (\<lambda>d. JObj [(''record_type'', JStr (datum_kind_value (dt_kind d))),
      (''namespace'', JStr (data_namespace_value (dt_namespace d))), (''source_ref'', JStr (dt_source_ref d)),
      (''revision'', case dt_revision d of None \<Rightarrow> JNull | Some r \<Rightarrow> JStr r), (''digest'', JStr (dt_digest d)),
      (''content'', JStr (dt_content d))])"
    by (rule ext) (simp add: datum_json_def opt_text_json_def)
  have records: "records_text q ev = dumps (JObj [(''records'', JList (map datum_json (cr_current_input q # cr_confirmed_facts q @ ev)
      @ (case cr_latest_error q of None \<Rightarrow> [] | Some e \<Rightarrow> [JObj [(''record_type'', JStr ''error''), (''namespace'', JStr ''runtime_error''),
          (''source_ref'', JStr (te_error_type e)), (''revision'', JNull), (''digest'', JStr (te_digest e)),
          (''content'', JStr (te_message e)), (''reason_code'', JStr (te_reason_code e)), (''retryable'', JBool (te_retryable e))]])))])" for ev
    by (cases "cr_latest_error q") (simp_all add: records_text_def error_json_def)
  note kept = trim_context_spec [OF v(3)]
  show ?thesis
    unfolding messages messages_of_def records datum before history fst_conv snd_conv
    by (rule exI [of _ p], rule exI [of _ t], rule exI [of _ common_policy], rule exI [of _ profile_policy])
      (intro conjI impI refl v(1) v(4) [unfolded pol] kept(1) trimmed_evidence [OF kept(1)]; drule kept(2); simp)
qed

text \<open>
  C33: A built context is within budget: the estimator reads the very request of the bundle at the recorded number of
  tokens, which is at most the limit of the profile, and the hashes of the bundle are those of its request.
\<close>

theorem built_context_within_budget:
  assumes "build_context B q = Inr b"
  shows "\<exists>p. validate_context B q = Inr p
    \<and> bu_estimate B (pu_model_request b) = Some (pu_estimated_input_tokens b, pf_estimator_revision p)
    \<and> pu_estimated_input_tokens b \<le> pf_input_token_limit p \<and> valid_prompt_bundle b"
proof -
  obtain p rule hash before t policies tools where f: "built_from B q b p rule hash before t policies tools"
    using build_contextE [OF assms] .
  note v = built_fromD [OF f]
  have "tm_after t \<le> pf_input_token_limit p" using trim_context_spec(1) [OF v(3)] by (auto simp: trimmed_from_def)
  moreover have "pu_estimated_input_tokens b = tm_after t" by (simp add: v(6) bundle_request)
  ultimately show ?thesis using v(1,7,8) by (auto simp: estimate_of_def split: option.splits if_splits)
qed

subsection \<open>A sample build\<close>

text \<open>The estimator of the sample counts six tokens for every group, so that one of two groups fits into ten.\<close>

definition hex_digest_sample :: string where "hex_digest_sample = replicate 64 (CHR ''a'')"

definition sample_profile :: run_profile where
  "sample_profile = \<lparr>pf_key = RetailKey, pf_revision = ''p'', pf_prompt_policy_revision = ''retail-policy-v2'',
     pf_tool_catalog_revision = ''t'', pf_allowed_namespaces = namespaces_of RetailKey,
     pf_inference_rules = map (\<lambda>s. \<lparr>ir_step = s,
       ir_inference = Thinking \<lparr>th_effort = EffortHigh, th_max_output_tokens = 100\<rparr>, ir_tool_names = []\<rparr>) (steps_of RetailKey),
     pf_input_token_limit = 10, pf_tool_result_max_bytes = 100, pf_minimum_recent_groups = 1, pf_stop_reason_rules = map (\<lambda>t. \<lparr>sr_trigger = t, sr_stop_kind = ''stop''\<rparr>)
       [ModelBudget, ToolBudget, RepeatDigest, UnsafeFinish, IncompleteFinish, ExhaustedInfrastructure],
     pf_capability_revision = ''r'', pf_estimator_revision = ''e'', pf_canonicalization_revision = ''c''\<rparr>"

definition sample_registry :: registry where
  "sample_registry = \<lparr>rg_profiles = [sample_profile], rg_policies = [(''common-envelope-v1'', ''a''), (''retail-policy-v2'', ''b'')],
     rg_tools = (\<lambda>_. [\<lparr>td_name = ''ask'', td_description = ''d'', td_parameters_json = ''{}'',
       td_catalog_revision = ''t'', td_capability_sha256 = hex_digest_sample\<rparr>])\<rparr>"

definition sample_builder :: context_builder where
  "sample_builder = \<lparr>bu_externals = sample_gateway_externals, bu_registry = sample_registry,
     bu_estimate = (\<lambda>r. Some (6 * int (length (mq_history r)), ''e'')), bu_estimator_revision = ''e'',
     bu_requested_model = ''m'', bu_timeout_seconds = Dec False 60 0, bu_provider_user_id = replicate 32 (CHR ''a'')\<rparr>"

definition sample_group :: "int \<Rightarrow> conversation_group" where
  "sample_group n = AssistantTurn \<lparr>tf_turn_id = 1, tf_scope_digest = hex_digest_sample, tf_attempt_id = 2, tf_sequence = n,
     tf_payload_sha256 = hex_digest_sample, tf_expected_tool_call_ids = [], tf_token_weight = 1, tf_expires_at = Aware 0 0\<rparr>"

definition sample_datum :: context_datum where
  "sample_datum = \<lparr>dt_kind = KUserInput, dt_namespace = NUserInput, dt_source_ref = ''s'', dt_revision = None,
     dt_content = ''q'', dt_digest = hex_digest_sample\<rparr>"

definition sample_context :: context_request where
  "sample_context = \<lparr>cr_run_scope = \<lparr>rs_run_id = 1, rs_track = ''retail'', rs_mode = ''retail'', rs_subject_id = ''s'',
       rs_experiment_id = ''e'', rs_config_hash = hex_digest_sample\<rparr>,
     cr_attempt_id = 2, cr_sequence = 5, cr_profile = sample_profile, cr_step = RetailReport, cr_current_input = sample_datum,
     cr_confirmed_facts = [], cr_evidence = [], cr_latest_error = None, cr_history = [sample_group 0, sample_group 1]\<rparr>"

lemma hex_digest_sample_ok: "hex64 hex_digest_sample" "gx_sha sample_gateway_externals b = hex_digest_sample"
  by (simp_all add: hex_digest_sample_def sample_hex_ok)

lemma sample_context_valid: "validate_context sample_builder sample_context = Inr sample_profile"
proof -
  have p: "profile_of sample_registry RetailKey = Some sample_profile"
    by (simp add: profile_of_def sample_registry_def sample_profile_def)
  have d: "valid_context_datum (gx_sha sample_gateway_externals) sample_datum"
    by (simp add: valid_context_datum_def sample_datum_def len_ok_def hex_digest_sample_ok del: sample_sha)
  have n: "dt_namespace sample_datum \<in> set (pf_allowed_namespaces sample_profile)"
    by (simp add: sample_datum_def sample_profile_def common_namespaces_def)
  have g: "valid_conversation_group (canonb sample_gateway_externals) (sample_group 0)"
    "valid_conversation_group (canonb sample_gateway_externals) (sample_group 1)"
    by (simp_all add: valid_conversation_group_def sample_group_def valid_assistant_turn_group_def
        valid_provider_turn_ref_def hex_digest_sample_ok is_aware_def)
  have r: "tf_scope_digest (group_ref (sample_group k)) = hex_digest_sample" "tf_attempt_id (group_ref (sample_group k)) = 2"
    "tf_sequence (group_ref (sample_group k)) = k" for k
    by (simp_all add: sample_group_def group_ref_def)
  have s: "scope_digest (gx_sha sample_gateway_externals) sc = hex_digest_sample" for sc
    by (simp only: scope_digest_def hex_digest_sample_ok)
  have seq: "sorted_list_of_set {0, 1} = [0, 1 :: int]" by code_simp
  have f: "pf_key sample_profile = RetailKey" "map ir_step (pf_inference_rules sample_profile) = steps_of RetailKey"
    "pf_estimator_revision sample_profile = ''e''" by (simp_all add: sample_profile_def)
  show ?thesis
    by (simp add: validate_context_def Let_def sample_builder_def sample_context_def p f d n g r s seq)
qed

lemma sample_records: "length (records_text sample_context []) = 190"
  by code_simp

lemma sample_provider_id: "list_all is_hex (replicate 32 (CHR ''a''))" "dec_lt dec_zero (Dec False 60 0)"
  "dec_le (Dec False 60 0) (dec_of_int 600)"
  by code_simp+

lemma sample_tokens:
  "candidate_tokens sample_builder sample_context sample_profile (Thinking \<lparr>th_effort = EffortHigh, th_max_output_tokens = 100\<rparr>)
     hex_digest_sample hs [] = Inr (6 * int (length hs))"
  "\<exists>r. model_request_of sample_builder sample_context sample_profile (Thinking \<lparr>th_effort = EffortHigh, th_max_output_tokens = 100\<rparr>)
     hex_digest_sample hs [] = Inr r \<and> mq_history r = hs"
proof -
  have p: "policy_for sample_registry RetailKey = Some (''a'', ''b'')" "tools_for_step sample_registry RetailKey RetailReport = Some []"
    by (simp_all add: policy_for_def tools_for_step_def profile_of_def sample_registry_def sample_profile_def rule_for_def)
  have t: "length (records_text sample_context []) = 190" by (rule sample_records)
  have ok: "request_fields_ok (draft_request sample_builder sample_context sample_profile i hex_digest_sample (''a'', ''b'') [] hs [])" for i
    using t sample_provider_id
    by (simp add: request_fields_ok_def draft_request_def sample_builder_def messages_of_def valid_chat_message_def len_ok_def
        hex_digest_sample_ok) (simp add: sample_context_def sample_profile_def)
  have f: "pf_key sample_profile = RetailKey" "pf_estimator_revision sample_profile = ''e''" "cr_step sample_context = RetailReport"
    "bu_registry sample_builder = sample_registry" "bu_estimate sample_builder r = Some (6 * int (length (mq_history r)), ''e'')" for r
    by (simp_all add: sample_profile_def sample_context_def sample_builder_def)
  show "candidate_tokens sample_builder sample_context sample_profile (Thinking \<lparr>th_effort = EffortHigh, th_max_output_tokens = 100\<rparr>)
     hex_digest_sample hs [] = Inr (6 * int (length hs))"
    "\<exists>r. model_request_of sample_builder sample_context sample_profile (Thinking \<lparr>th_effort = EffortHigh, th_max_output_tokens = 100\<rparr>)
     hex_digest_sample hs [] = Inr r \<and> mq_history r = hs"
    using ok by (simp_all add: candidate_tokens_def model_request_of_def Let_def f p estimate_of_def draft_simps)
qed

lemma sample_config_hash:
  "compute_config_hash sample_gateway_externals sample_profile m = Some hex_digest_sample"
proof -
  have "finite_floats (VObj [(''model'', VStr m),
      (''inference_rules'', VList (map (rule_jval sample_gateway_externals) (pf_inference_rules sample_profile))),
      (''budgets'', VObj [(''input_token_limit'', VInt (pf_input_token_limit sample_profile)),
         (''minimum_recent_groups'', VInt (int (pf_minimum_recent_groups sample_profile))),
         (''tool_result_max_bytes'', VInt (pf_tool_result_max_bytes sample_profile))]),
      (''capability_revision'', VStr (pf_capability_revision sample_profile)),
      (''estimator_revision'', VStr (pf_estimator_revision sample_profile)),
      (''retry_revision'', VStr ''deepseek-retry-v1''),
      (''canonicalization_revision'', VStr (pf_canonicalization_revision sample_profile))])"
    by (simp add: sample_profile_def rule_jval_def inference_jval_def)
  then show ?thesis by (simp only: compute_config_hash_def canonical_text_def if_True option.map hex_digest_sample_ok)
qed

lemma sample_built: "\<exists>b. build_context sample_builder sample_context = Inr b \<and> mq_history (pu_model_request b) = [sample_group 1]"
proof -
  let ?i = "Thinking \<lparr>th_effort = EffortHigh, th_max_output_tokens = 100\<rparr>"
  let ?E = "candidate_tokens sample_builder sample_context sample_profile ?i hex_digest_sample"
  have h: "cr_history sample_context = [sample_group 0, sample_group 1]" "cr_evidence sample_context = []"
    "cr_confirmed_facts sample_context = []" "cr_latest_error sample_context = None"
    "rs_config_hash (cr_run_scope sample_context) = hex_digest_sample" "cr_step sample_context = RetailReport"
    "bu_externals sample_builder = sample_gateway_externals" "bu_registry sample_builder = sample_registry"
    "bu_requested_model sample_builder = ''m''"
    by (simp_all add: sample_context_def sample_builder_def)
  have p: "rule_for sample_profile RetailReport = Some \<lparr>ir_step = RetailReport, ir_inference = ?i, ir_tool_names = []\<rparr>"
    "pf_input_token_limit sample_profile = 10" "pf_minimum_recent_groups sample_profile = 1"
    "policy_for sample_registry (pf_key sample_profile) = Some (''a'', ''b'')"
    by (simp_all add: rule_for_def sample_profile_def policy_for_def profile_of_def sample_registry_def)
  define t where "t = \<lparr>tm_history = [sample_group 1], tm_evidence = [], tm_after = 6,
    tm_removed = [group_digest sample_gateway_externals (sample_group 0)], tm_compressed = [], tm_removed_evidence = []\<rparr>"
  have t: "trim_context sample_gateway_externals ?E sample_profile [sample_group 0, sample_group 1] [] 12 = Inr t"
    by (simp add: trim_context_def p sample_tokens(1) trim_evidence_def t_def)
  obtain r where r: "model_request_of sample_builder sample_context sample_profile ?i hex_digest_sample [sample_group 1] [] = Inr r"
    "mq_history r = [sample_group 1]" using sample_tokens(2) by blast
  define b where "b = bundle_of sample_builder sample_context sample_profile hex_digest_sample (''a'', ''b'') r t
    (summary_of_trim sample_context 12 t)"
  have e: "estimate_of sample_builder sample_profile (pu_model_request b) = Inr 6"
    using r(2) by (simp add: b_def estimate_of_def bundle_request sample_builder_def sample_profile_def)
  have "valid_prompt_bundle b"
    by (simp add: b_def bundle_of_def Let_def valid_prompt_bundle_def summary_of_trim_def t_def h compute_prompt_policy_hash_def
        compute_rendered_prompt_hash_def compute_tool_hash_def compute_context_hash_def sha_json_def hex_digest_sample_ok
        del: sample_sha)
  then have "finish_build sample_builder sample_context sample_profile ?i hex_digest_sample 12 t = Inr b"
    using r(1) e by (simp add: finish_build_def p h t_def b_def Let_def)
  then have "build_context sample_builder sample_context = Inr b"
    using t by (simp add: build_context_def sample_context_valid h p sample_config_hash sample_tokens(1))
  moreover have "mq_history (pu_model_request b) = [sample_group 1]" using r(2) by (simp add: b_def bundle_request)
  ultimately show ?thesis by blast
qed

theorem built_context_keeps_witness:
  "\<exists>b t. build_context sample_builder sample_context = Inr b
     \<and> trimmed_from sample_gateway_externals sample_profile [sample_group 0, sample_group 1] [] (tr_estimated_before (pu_trimming b)) t
     \<and> tm_history t = [sample_group 1]"
proof -
  obtain b where b: "build_context sample_builder sample_context = Inr b" "mq_history (pu_model_request b) = [sample_group 1]"
    using sample_built by blast
  have h: "cr_history sample_context = [sample_group 0, sample_group 1]" "cr_evidence sample_context = []"
    "bu_externals sample_builder = sample_gateway_externals" by (simp_all add: sample_context_def sample_builder_def)
  from built_context_keeps [OF b(1)] show ?thesis unfolding h
  proof (elim exE conjE)
    fix p t common_policy profile_policy
    assume "validate_context sample_builder sample_context = Inr p"
      "trimmed_from sample_gateway_externals p [sample_group 0, sample_group 1] [] (tr_estimated_before (pu_trimming b)) t"
      "mq_history (pu_model_request b) = tm_history t"
    with b sample_context_valid show ?thesis by (intro exI [of _ b] exI [of _ t]) simp
  qed
qed

theorem built_context_within_budget_witness:
  "\<exists>b. build_context sample_builder sample_context = Inr b \<and> pu_estimated_input_tokens b \<le> 10 \<and> valid_prompt_bundle b"
proof -
  obtain b where b: "build_context sample_builder sample_context = Inr b" using sample_built by blast
  show ?thesis using built_context_within_budget [OF b] b sample_context_valid by (auto simp: sample_profile_def)
qed

subsection \<open>What validation guarantees\<close>

lemma strict_sequence: "s = sorted_list_of_set (set s) \<longleftrightarrow> sorted_wrt (<) s" for s :: "int list"
  by (metis sorted_list_of_set.idem_if_sorted_distinct strict_sorted_iff strict_sorted_list_of_set)

lemma check_data_ok:
  "check_data X p ds = Inr u \<Longrightarrow> d \<in> set ds \<Longrightarrow> valid_context_datum (gx_sha X) d \<and> dt_namespace d \<in> set (pf_allowed_namespaces p)"
  by (induction X p ds rule: check_data.induct) (auto split: if_splits)

lemma check_groups_ok:
  "check_groups X digest a gs = Inr u \<Longrightarrow> g \<in> set gs \<Longrightarrow> valid_conversation_group (canonb X) g
     \<and> tf_scope_digest (group_ref g) = digest \<and> tf_attempt_id (group_ref g) = a"
  by (induction X digest a gs rule: check_groups.induct) (auto split: if_splits)

lemma validate_context_ok:
  assumes "validate_context B q = Inr p"
  shows "profile_of (bu_registry B) (pf_key (cr_profile q)) = Some p"
    "(rs_track (cr_run_scope q), rs_mode (cr_run_scope q)) = expected_scope (pf_key p)"
    "\<And>d. d \<in> set (cr_current_input q # cr_confirmed_facts q @ cr_evidence q) \<Longrightarrow> dt_namespace d \<in> set (pf_allowed_namespaces p)
       \<and> valid_context_datum (gx_sha (bu_externals B)) d"
    "\<And>g. g \<in> set (cr_history q) \<Longrightarrow> tf_scope_digest (group_ref g) = scope_digest (gx_sha (bu_externals B)) (cr_run_scope q)
       \<and> tf_attempt_id (group_ref g) = cr_attempt_id q \<and> valid_conversation_group (canonb (bu_externals B)) g"
    "sorted_wrt (<) (map (\<lambda>g. tf_sequence (group_ref g)) (cr_history q))"
    "\<And>g. g \<in> set (cr_history q) \<Longrightarrow> tf_sequence (group_ref g) < cr_sequence q"
proof -
  have v: "profile_of (bu_registry B) (pf_key (cr_profile q)) = Some p
    \<and> (rs_track (cr_run_scope q), rs_mode (cr_run_scope q)) = expected_scope (pf_key p)
    \<and> check_data (bu_externals B) p (cr_current_input q # cr_confirmed_facts q @ cr_evidence q) = Inr ()
    \<and> check_groups (bu_externals B) (scope_digest (gx_sha (bu_externals B)) (cr_run_scope q)) (cr_attempt_id q) (cr_history q) = Inr ()
    \<and> sorted_wrt (<) (map (\<lambda>g. tf_sequence (group_ref g)) (cr_history q))
    \<and> \<not> list_ex (\<lambda>n. cr_sequence q \<le> n) (map (\<lambda>g. tf_sequence (group_ref g)) (cr_history q))"
    using assms unfolding validate_context_def Let_def strict_sequence [symmetric]
    by (auto simp: rbind_Inr_iff simp del: check_data.simps split: option.splits if_splits)
  show "profile_of (bu_registry B) (pf_key (cr_profile q)) = Some p"
    "(rs_track (cr_run_scope q), rs_mode (cr_run_scope q)) = expected_scope (pf_key p)"
    "sorted_wrt (<) (map (\<lambda>g. tf_sequence (group_ref g)) (cr_history q))" using v by auto
  show "dt_namespace d \<in> set (pf_allowed_namespaces p) \<and> valid_context_datum (gx_sha (bu_externals B)) d"
    if "d \<in> set (cr_current_input q # cr_confirmed_facts q @ cr_evidence q)" for d
    using check_data_ok [OF _ that] v by blast
  show "tf_scope_digest (group_ref g) = scope_digest (gx_sha (bu_externals B)) (cr_run_scope q)
       \<and> tf_attempt_id (group_ref g) = cr_attempt_id q \<and> valid_conversation_group (canonb (bu_externals B)) g"
    if "g \<in> set (cr_history q)" for g
    using check_groups_ok [OF _ that] v by blast
  show "tf_sequence (group_ref g) < cr_sequence q" if "g \<in> set (cr_history q)" for g
    using v that by (auto simp: list_ex_iff)
qed

text \<open>
  C34: A built request passes the gateway. Whatever was trimmed, the request of a bundle is accepted by the validation of a
  gateway with the capability revision it names, as long as that gateway supports its output limit, tools and effort: the
  kept turns are of its scope and attempt and in order.
\<close>

theorem built_request_accepted:
  assumes "build_context B q = Inr b" and G: "cs_revision (gw_capability G) = mq_capability_revision (pu_model_request b)"
    "output_limit (mq_inference (pu_model_request b)) \<le> cs_output_token_limit (gw_capability G)"
    "effort_supported (gw_capability G) (mq_inference (pu_model_request b))" "cs_tool_calling (gw_capability G)"
  shows "validate_request G (bu_externals B) (pu_model_request b) = Inr ()"
proof -
  obtain p rule hash before t policies tools where f: "built_from B q b p rule hash before t policies tools"
    using build_contextE [OF assms(1)] .
  note v = built_fromD [OF f]
  obtain k where k: "list_all2 group_kept (drop k (cr_history q)) (tm_history t)"
    using trim_context_spec(1) [OF v(3)] by (auto simp: trimmed_from_def)
  have refs: "map group_ref (tm_history t) = drop k (map group_ref (cr_history q))"
    using groups_kept_refs [OF k] by (simp add: drop_map)
  note ok = validate_context_ok [OF v(1)]
  have mem: "\<exists>g \<in> set (cr_history q). r = group_ref g" if "r \<in> set (map group_ref (tm_history t))" for r
    using in_set_dropD [OF that [unfolded refs]] by auto
  have seq: "sorted_wrt (<) (map tf_sequence (map group_ref (tm_history t)))"
    using ok(5) unfolding refs by (simp add: drop_map [symmetric] comp_def sorted_wrt_drop)
  have req: "mq_history (pu_model_request b) = tm_history t" "mq_sequence (pu_model_request b) = cr_sequence q"
    "mq_run_scope (pu_model_request b) = cr_run_scope q" "mq_attempt_id (pu_model_request b) = cr_attempt_id q"
    by (simp_all add: v(6) bundle_request draft_simps)
  have "\<not> list_ex (\<lambda>r. tf_scope_digest r \<noteq> scope_digest (gx_sha (bu_externals B)) (cr_run_scope q)
      \<or> tf_attempt_id r \<noteq> cr_attempt_id q) (map group_ref (tm_history t))"
    using mem ok(4) unfolding list_ex_iff by metis
  moreover have "\<not> list_ex (\<lambda>n. cr_sequence q \<le> n) (map tf_sequence (map group_ref (tm_history t)))"
    using mem ok(6) by (fastforce simp: list_ex_iff)
  ultimately show ?thesis
    using G seq [folded strict_sequence]
    unfolding validate_request_def Let_def req by (simp add: comp_def)
qed

theorem built_request_accepted_witness:
  "\<exists>b. build_context sample_builder sample_context = Inr b
     \<and> validate_request sample_gateway sample_gateway_externals (pu_model_request b) = Inr ()"
proof -
  obtain b where b: "build_context sample_builder sample_context = Inr b" using sample_built by blast
  obtain p rule hash before t policies tools where f: "built_from sample_builder sample_context b p rule hash before t policies tools"
    using build_contextE [OF b] .
  note v = built_fromD [OF f]
  have p: "p = sample_profile" using v(1) sample_context_valid by simp
  then have "ir_inference rule = Thinking \<lparr>th_effort = EffortHigh, th_max_output_tokens = 100\<rparr>"
    using v(2) by (auto simp: rule_for_def sample_profile_def sample_context_def)
  then have "mq_inference (pu_model_request b) = Thinking \<lparr>th_effort = EffortHigh, th_max_output_tokens = 100\<rparr>"
    "mq_capability_revision (pu_model_request b) = ''r''"
    using p by (simp_all add: v(6) bundle_request draft_simps sample_profile_def)
  then have "validate_request sample_gateway (bu_externals sample_builder) (pu_model_request b) = Inr ()"
    by (intro built_request_accepted [OF b])
       (simp_all add: sample_gateway_def sample_capability_def output_limit_def effort_supported_def)
  then show ?thesis using b by (simp add: sample_builder_def)
qed

text \<open>
  C35: Tracks stay apart. With a registry whose references are consistent, every datum of a built context is of a namespace
  registered for its profile, a BIRD profile never reads retail data and the retail profile never reads BIRD data, the run
  scope is the one of the profile, and the tools offered are those of the profile's catalogue.
\<close>

theorem built_context_isolated:
  assumes "build_context B q = Inr b" "cross_references_ok (bu_registry B)"
    "d \<in> set (cr_current_input q # cr_confirmed_facts q @ cr_evidence q)"
  shows "dt_namespace d \<in> set (namespaces_of (pu_profile b))
    \<and> (pu_profile b \<noteq> RetailKey \<longrightarrow> dt_namespace d \<notin> {NOlistSchema, NRetailKnowledge, NBusinessValue, NProductQueryResult})
    \<and> (pu_profile b = RetailKey \<longrightarrow> dt_namespace d \<notin> {NBirdSchema, NBirdOfficialFeedback, NBirdAToolResult, NBirdCPhase})
    \<and> (rs_track (mq_run_scope (pu_model_request b)), rs_mode (mq_run_scope (pu_model_request b))) = expected_scope (pu_profile b)
    \<and> set (mq_tools (pu_model_request b)) \<subseteq> set (rg_tools (bu_registry B) (pu_profile b))"
proof -
  obtain p rule hash before t policies tools where f: "built_from B q b p rule hash before t policies tools"
    using build_contextE [OF assms(1)] .
  note v = built_fromD [OF f]
  note ok = validate_context_ok [OF v(1)]
  have b: "pu_profile b = pf_key p" "mq_run_scope (pu_model_request b) = cr_run_scope q" "mq_tools (pu_model_request b) = tools"
    by (simp_all add: v(6) bundle_request draft_simps)
  have "p \<in> set (rg_profiles (bu_registry B))" using ok(1) by (auto simp: profile_of_def find_Some_iff)
  then have "set (pf_allowed_namespaces p) = set (namespaces_of (pf_key p))"
    using assms(2) by (auto simp: cross_references_ok_def list_all_iff profile_referenced_def)
  then have n: "dt_namespace d \<in> set (namespaces_of (pf_key p))" using ok(3) [OF assms(3)] by simp
  have "x \<in> set ys \<Longrightarrow> those (map (\<lambda>n. find (P n) zs) ns) = Some ys \<Longrightarrow> x \<in> set zs" for x :: tool_definition and ys zs P ns
    by (induction ns arbitrary: ys) (auto split: option.splits simp: find_Some_iff)
  then have "set tools \<subseteq> set (rg_tools (bu_registry B) (pf_key p))"
    using v(5) by (fastforce simp: tools_for_step_def bind_eq_Some_conv)
  then show ?thesis using n ok(2) unfolding b by (cases "pf_key p") (auto simp: common_namespaces_def)
qed

theorem built_context_isolated_witness:
  "\<exists>b. build_context sample_builder sample_context = Inr b \<and> pu_profile b = RetailKey
     \<and> dt_namespace sample_datum \<in> set (namespaces_of RetailKey)
     \<and> dt_namespace sample_datum \<notin> {NBirdSchema, NBirdOfficialFeedback, NBirdAToolResult, NBirdCPhase}"
proof -
  obtain b where b: "build_context sample_builder sample_context = Inr b" using sample_built by blast
  obtain p rule hash before t policies tools where f: "built_from sample_builder sample_context b p rule hash before t policies tools"
    using build_contextE [OF b] .
  note v = built_fromD [OF f]
  have k: "pu_profile b = RetailKey"
  proof -
    have "p = sample_profile" using v(1) sample_context_valid by simp
    then show ?thesis unfolding v(6) bundle_request by (simp add: sample_profile_def)
  qed
  have c: "cross_references_ok (bu_registry sample_builder)"
    by (simp add: cross_references_ok_def sample_builder_def sample_registry_def profile_referenced_def sample_profile_def)
  have d: "sample_datum \<in> set (cr_current_input sample_context # cr_confirmed_facts sample_context @ cr_evidence sample_context)"
    by (simp add: sample_context_def)
  show ?thesis using built_context_isolated [OF b c d] k b by simp
qed

end
