(* ===== verification/Context_Estimate.thy ===== *)
theory Context_Estimate
  imports Context_Builder
begin

text \<open>
  The estimator protocol of the context builder as an interface, the builder's lemmas over it, and its provider, the
  provisioned estimator of \<open>_tokens.py\<close>; what the trimming achieves with that provider.
\<close>

subsection \<open>The interface\<close>

text \<open>
  An estimator has one revision, never counts below zero and sees only what goes over the wire: the messages, the
  tools and the history, none of the audit hashes.
\<close>

locale token_estimator =
  fixes estimate :: "model_request \<Rightarrow> (int \<times> string) option" and revision :: string
  assumes estimate_revision: "estimate r = Some (n, v) \<Longrightarrow> v = revision"
    and estimate_nonneg: "estimate r = Some (n, v) \<Longrightarrow> 0 \<le> n"
    and wire_only: "mq_messages r = mq_messages s \<Longrightarrow> mq_tools r = mq_tools s \<Longrightarrow> mq_history r = mq_history s
      \<Longrightarrow> estimate r = estimate s"
begin

lemma bundle_estimate:
  "bu_estimate B = estimate \<Longrightarrow> estimate_of B p (pu_model_request (bundle_of B q p hash policies draft t s)) = estimate_of B p draft"
  using wire_only [of "pu_model_request (bundle_of B q p hash policies draft t s)" draft]
  by (simp add: estimate_of_def bundle_request)

lemma finished_estimate:
  assumes "bu_estimate B = estimate"
    and "candidate_tokens B q p i hash (tm_history t) (tm_evidence t) = Inr (tm_after t)"
  shows "finish_build B q p i hash before t \<noteq> Inl (IntegrityError ''estimate_changed_after_hashing'')"
proof -
  obtain draft where d: "model_request_of B q p i hash (tm_history t) (tm_evidence t) = Inr draft"
    "estimate_of B p draft = Inr (tm_after t)"
    using assms(2) by (auto simp: candidate_tokens_def rbind_Inr_iff)
  then show ?thesis
    using bundle_estimate [OF assms(1)] by (auto simp: finish_build_def Let_def split: option.splits)
qed

end

subsection \<open>The estimate of the trimmed context\<close>

lemma trim_context_estimate:
  assumes "trim_context X E p history evidence before = Inr t" "E history evidence = Inr before"
  shows "E (tm_history t) (tm_evidence t) = Inr (tm_after t)"
proof -
  define limit keep where "limit = pf_input_token_limit p" and "keep = pf_minimum_recent_groups p"
  obtain h1 n1 removed h2 n2 compressed ev n3 removed_ev where
    s1: "trim_groups X (\<lambda>h. E h evidence) limit keep history before [] = Inr (h1, n1, removed)" and
    s2: "compress_groups (\<lambda>h. E h evidence) limit [] h1 n1 [] = Inr (h2, n2, compressed)" and
    s3: "trim_evidence (E h2) limit evidence n2 = Inr (ev, n3, removed_ev)" and
    t: "tm_history t = h2" "tm_evidence t = ev" "tm_after t = n3"
    using assms(1) by (auto simp: trim_context_def rbind_Inr_iff limit_def keep_def split: if_splits)
  have "E h1 evidence = Inr n1" using trim_groups_spec [OF s1] assms(2) by auto
  then have "E h2 evidence = Inr n2" using compress_groups_spec [OF s2] by auto
  then show ?thesis
    using s3 unfolding t by (cases "keep_last evidence") (auto simp: trim_evidence_def rbind_Inr_iff split: if_splits)
qed

lemma no_integrity_rbind:
  "rbind m f = Inl e \<Longrightarrow> m \<noteq> Inl e \<Longrightarrow> \<exists>x. m = Inr x \<and> f x = Inl e"
  by (auto simp: rbind_Inl_iff)

definition no_late_error :: "builder_error + 'a \<Rightarrow> bool" where
  "no_late_error m \<longleftrightarrow> m \<noteq> Inl (IntegrityError ''estimate_changed_after_hashing'')"

lemma no_late_rbind: "no_late_error m \<Longrightarrow> (\<And>x. m = Inr x \<Longrightarrow> no_late_error (f x)) \<Longrightarrow> no_late_error (rbind m f)"
  by (cases m) (auto simp: no_late_error_def)

lemma no_late_simps [simp]:
  "no_late_error (Inr x)" "no_late_error (Inl BuilderValueError)" "no_late_error (Inl RevisionMismatch)"
  "no_late_error (Inl BudgetExceeded)" "no_late_error (Inl NamespaceViolation)" "no_late_error (Inl ToolResultMismatch)"
  "no_late_error (Inl (ProfileMismatch s))" "no_late_error (Inl (IntegrityError ''context_integrity_error''))"
  by (simp_all add: no_late_error_def)

lemma no_late_candidate: "no_late_error (candidate_tokens B q p i h hs ev)"
  by (auto simp: candidate_tokens_def model_request_of_def estimate_of_def Let_def intro!: no_late_rbind split: option.splits)

lemma no_late_trim_groups: "(\<And>h. no_late_error (E h)) \<Longrightarrow> no_late_error (trim_groups X E limit keep h n r)"
  by (induction h arbitrary: n r) (auto intro: no_late_rbind)

lemma no_late_compress_results:
  "(\<And>h. no_late_error (E h)) \<Longrightarrow> no_late_error (compress_results E limit front rs n ds)"
  by (induction E limit front rs n ds rule: compress_results.induct) (auto intro: no_late_rbind)

lemma no_late_compress_groups:
  "(\<And>h. no_late_error (E h)) \<Longrightarrow> no_late_error (compress_groups E limit front gs n ds)"
  by (induction gs arbitrary: front n ds)
     (auto intro!: no_late_rbind no_late_compress_results split: conversation_group.splits)

lemma no_late_trim_context: "(\<And>h e. no_late_error (E h e)) \<Longrightarrow> no_late_error (trim_context X E p history evidence before)"
  by (auto simp: trim_context_def trim_evidence_def split_beta
      intro!: no_late_rbind no_late_trim_groups no_late_compress_groups)

lemma no_late_validate: "no_late_error (validate_context B q)"
proof -
  have "no_late_error (check_data X p ds)" for X p ds by (induction X p ds rule: check_data.induct) auto
  moreover have "no_late_error (check_groups X g a gs)" for X g a gs by (induction X g a gs rule: check_groups.induct) auto
  ultimately show ?thesis
    by (auto simp: validate_context_def Let_def simp del: check_data.simps intro!: no_late_rbind split: option.splits)
qed

context token_estimator
begin

lemma build_no_late_error: "bu_estimate B = estimate \<Longrightarrow> no_late_error (build_context B q)"
  unfolding build_context_def
  by (auto intro!: no_late_rbind no_late_validate no_late_candidate no_late_trim_context
      finished_estimate [folded no_late_error_def] trim_context_estimate split: option.splits)

end

subsection \<open>The provider\<close>

lemma wire_text_cong: "mq_messages r = mq_messages s \<Longrightarrow> mq_tools r = mq_tools s \<Longrightarrow> wire_text X r = wire_text X s"
  by (simp add: wire_text_def)

interpretation provisioned: token_estimator "provisioned_estimate X vocab revision" revision for X vocab revision
proof
  show "v = revision" if "provisioned_estimate X vocab revision r = Some (n, v)" for r n v
    using that by (auto simp: provisioned_estimate_def bind_eq_Some_conv Let_def split: if_splits)
  show "0 \<le> n" if "provisioned_estimate X vocab revision r = Some (n, v)" for r n v
    using that by (auto simp: provisioned_estimate_def bind_eq_Some_conv Let_def split: if_splits)
  show "provisioned_estimate X vocab revision r = provisioned_estimate X vocab revision s"
    if "mq_messages r = mq_messages s" "mq_tools r = mq_tools s" "mq_history r = mq_history s" for r s
    using that wire_text_cong [OF that(1,2)] by (simp add: provisioned_estimate_def private_count_def)
qed

text \<open>
  Hashing never changes the estimate. A builder with the provisioned estimator never refuses its own request with
  estimate_changed_after_hashing: the estimator does not see the audit hashes.
\<close>

theorem hashing_keeps_estimate:
  assumes "bu_estimate B = provisioned_estimate X vocab revision"
  shows "build_context B q \<noteq> Inl (IntegrityError ''estimate_changed_after_hashing'')"
  using provisioned.build_no_late_error [OF assms] by (simp add: no_late_error_def)

theorem hashing_keeps_estimate_witness:
  "build_context (sample_builder\<lparr>bu_estimate := provisioned_estimate sample_gateway_externals [] ''e''\<rparr>) sample_context
     \<noteq> Inl (IntegrityError ''estimate_changed_after_hashing'')"
  by (rule hashing_keeps_estimate) simp

subsection \<open>Summaries do not count\<close>

lemma summarize_group_ref [simp]: "group_ref (summarize_group g) = group_ref g"
  by (cases g) (simp_all add: summarize_group_def group_ref_def)

lemma provisioned_kept:
  "list_all2 group_kept gs hs \<Longrightarrow> provisioned_estimate X vocab v (draft_request B q p i h ps ts hs ev)
     = provisioned_estimate X vocab v (draft_request B q p i h ps ts gs ev)"
proof -
  assume k: "list_all2 group_kept gs hs"
  have "map (\<lambda>g. tf_token_weight (group_ref g)) hs = map (\<lambda>g. tf_token_weight (group_ref g)) gs"
    using arg_cong [OF groups_kept_refs [OF k], of "map tf_token_weight"] by (simp add: comp_def)
  then show ?thesis
    using wire_text_cong [of "draft_request B q p i h ps ts hs ev" "draft_request B q p i h ps ts gs ev" X]
    by (simp add: provisioned_estimate_def private_count_def draft_simps)
qed

lemma candidate_kept:
  assumes "bu_estimate B = provisioned_estimate X vocab v" "list_all2 group_kept gs hs"
  shows "candidate_tokens B q p i h hs ev = candidate_tokens B q p i h gs ev"
proof -
  have "request_fields_ok (draft_request B q p i h ps ts hs ev) = request_fields_ok (draft_request B q p i h ps ts gs ev)" for ps ts
    by (simp add: request_fields_ok_def draft_request_def)
  then show ?thesis
    using provisioned_kept [OF assms(2)] assms(1)
    by (auto simp: candidate_tokens_def model_request_of_def estimate_of_def Let_def split: option.splits)
qed

lemma result_kept_summary: "result_kept r s \<Longrightarrow> tl_content_mode r = RawContent \<Longrightarrow> result_kept r (summarize_result r)"
  by (simp add: result_kept_def)

lemma compress_results_constant:
  assumes "limit < n" and "\<And>ts. list_all2 result_kept (front0 @ rs) ts \<Longrightarrow> E ts = Inr n"
    and "list_all2 result_kept front0 front"
  shows "\<exists>ds'. compress_results E limit front rs n ds = Inr (front @ summarize_all rs, n, ds')"
  using assms(2,3)
proof (induction rs arbitrary: front0 front ds)
  case Nil
  then show ?case by (simp add: summarize_all_def)
next
  case (Cons r rs)
  have lim: "\<not> n \<le> limit" using assms(1) by simp
  show ?case
  proof (cases "tl_content_mode r = RawContent")
    case True
    then have k: "result_kept r (summarize_result r)" by (simp add: result_kept_def)
    have "E (front @ summarize_result r # rs) = Inr n"
      using Cons.prems(2) k by (intro Cons.prems(1) list_all2_appendI) simp_all
    moreover have "\<exists>ds'. compress_results E limit (front @ [summarize_result r]) rs n (ds @ [tl_content_sha256 r])
        = Inr ((front @ [summarize_result r]) @ summarize_all rs, n, ds')"
      using Cons.prems k by (intro Cons.IH [of "front0 @ [r]"]) (auto intro!: list_all2_appendI)
    ultimately show ?thesis using True lim by (simp add: summarize_all_def)
  next
    case False
    have "\<exists>ds'. compress_results E limit (front @ [r]) rs n ds = Inr ((front @ [r]) @ summarize_all rs, n, ds')"
      using Cons.prems by (intro Cons.IH [of "front0 @ [r]"]) (auto intro!: list_all2_appendI)
    then show ?thesis using False lim by (simp add: summarize_all_def)
  qed
qed

lemma compress_groups_constant:
  assumes "limit < n" and "\<And>hs. list_all2 group_kept (front0 @ gs) hs \<Longrightarrow> E hs = Inr n"
    and "list_all2 group_kept front0 front"
  shows "\<exists>ds'. compress_groups E limit front gs n ds = Inr (front @ map summarize_group gs, n, ds')"
  using assms(2,3)
proof (induction gs arbitrary: front0 front ds)
  case Nil
  then show ?case by simp
next
  case (Cons g gs)
  have lim: "\<not> n \<le> limit" using assms(1) by simp
  show ?case
  proof (cases g)
    case (AssistantTurn r)
    have "\<exists>ds'. compress_groups E limit (front @ [g]) gs n ds = Inr ((front @ [g]) @ map summarize_group gs, n, ds')"
      using Cons.prems by (intro Cons.IH [of "front0 @ [g]"]) (auto intro!: list_all2_appendI)
    moreover have "summarize_group g = g" using AssistantTurn by (simp add: summarize_group_def)
    ultimately show ?thesis using AssistantTurn lim by simp
  next
    case (ToolExchange x)
    have kept: "group_kept g (ToolExchange (x\<lparr>xg_tool_results := ts\<rparr>))" if "list_all2 result_kept (xg_tool_results x) ts" for ts
      using that ToolExchange by (auto simp: group_kept_def)
    have "E (front @ ToolExchange (x\<lparr>xg_tool_results := ts\<rparr>) # gs) = Inr n" if "list_all2 result_kept ([] @ xg_tool_results x) ts" for ts
      using kept that Cons.prems(2) by (intro Cons.prems(1) list_all2_appendI) simp_all
    then obtain ds1 where ds1: "compress_results (\<lambda>rs. E (front @ ToolExchange (x\<lparr>xg_tool_results := rs\<rparr>) # gs)) limit []
        (xg_tool_results x) n ds = Inr (summarize_all (xg_tool_results x), n, ds1)"
      using compress_results_constant [OF assms(1), of "[]" "xg_tool_results x"
          "\<lambda>rs. E (front @ ToolExchange (x\<lparr>xg_tool_results := rs\<rparr>) # gs)" "[]" ds] by auto
    have "list_all2 result_kept (xg_tool_results x) (summarize_all (xg_tool_results x))"
      by (auto simp: summarize_all_def list_all2_map2 result_kept_def intro!: list_all2_refl)
    then have g: "group_kept g (summarize_group g)" using kept ToolExchange by (simp add: summarize_group_def)
    have "\<exists>ds'. compress_groups E limit (front @ [summarize_group g]) gs n ds1
        = Inr ((front @ [summarize_group g]) @ map summarize_group gs, n, ds')"
      using Cons.prems g by (intro Cons.IH [of "front0 @ [g]"]) (auto intro!: list_all2_appendI)
    moreover have "summarize_group g = ToolExchange (x\<lparr>xg_tool_results := summarize_all (xg_tool_results x)\<rparr>)"
      using ToolExchange by (simp add: summarize_group_def)
    ultimately show ?thesis using ToolExchange lim ds1 by simp
  qed
qed

text \<open>
  With the provisioned estimator compressing achieves nothing. It counts no tool result, so when a context is over
  budget the second stage replaces every raw result by its summary and the estimate is the same as before.
\<close>

theorem compression_never_helps:
  assumes "bu_estimate B = provisioned_estimate X vocab v" "candidate_tokens B q p i h gs ev = Inr n" "limit < n"
  shows "\<exists>ds. compress_groups (\<lambda>hs. candidate_tokens B q p i h hs ev) limit [] gs n [] = Inr (map summarize_group gs, n, ds)"
  using compress_groups_constant [OF assms(3), of "[]" gs "\<lambda>hs. candidate_tokens B q p i h hs ev" "[]" "[]"]
    candidate_kept [OF assms(1)] assms(2) by simp

definition counting_builder :: context_builder where
  "counting_builder = sample_builder\<lparr>bu_estimate := provisioned_estimate sample_gateway_externals [] ''e''\<rparr>"

definition raw_exchange :: tool_exchange_group where
  "raw_exchange = \<lparr>xg_provider_turn_ref = \<lparr>tf_turn_id = 1, tf_scope_digest = hex_digest_sample, tf_attempt_id = 2, tf_sequence = 0,
       tf_payload_sha256 = hex_digest_sample, tf_expected_tool_call_ids = [''c''], tf_token_weight = 1, tf_expires_at = Aware 0 0\<rparr>,
     xg_tool_calls = [\<lparr>tc_call_id = ''c'', tc_name = ''ask'', tc_arguments_json = ''{}''\<rparr>],
     xg_tool_results = [\<lparr>tl_call_id = ''c'', tl_name = ''ask'', tl_status = ToolSuccess, tl_content_json = ''[1,2,3,4,5,6,7,8,9]'',
       tl_deterministic_summary = ''s'', tl_content_sha256 = hex_digest_sample, tl_source_refs = [], tl_error_class = None,
       tl_content_mode = RawContent\<rparr>]\<rparr>"

lemma token_cost_pos: "0 \<le> token_cost vocab t"
  by (cases "t \<in> set vocab") (simp_all add: token_cost_def le_max_iff_disj)

lemma counted: "\<exists>n. 0 \<le> n \<and> candidate_tokens counting_builder sample_context sample_profile
    (Thinking \<lparr>th_effort = EffortHigh, th_max_output_tokens = 100\<rparr>) hex_digest_sample [ToolExchange raw_exchange] [] = Inr n"
proof -
  let ?i = "Thinking \<lparr>th_effort = EffortHigh, th_max_output_tokens = 100\<rparr>"
  have f: "bu_registry counting_builder = sample_registry" "cr_step sample_context = RetailReport"
    "pf_key sample_profile = RetailKey" "pf_estimator_revision sample_profile = ''e''"
    "bu_estimate counting_builder = provisioned_estimate sample_gateway_externals [] ''e''"
    "policy_for sample_registry RetailKey = Some (''a'', ''b'')" "tools_for_step sample_registry RetailKey RetailReport = Some []"
    by (simp_all add: counting_builder_def sample_builder_def sample_context_def policy_for_def tools_for_step_def
        profile_of_def sample_registry_def sample_profile_def rule_for_def)
  have m: "model_request_of B sample_context sample_profile ?i hex_digest_sample hs []
      = (case (policy_for (bu_registry B) RetailKey, tools_for_step (bu_registry B) RetailKey RetailReport) of
        (Some policies, Some tools) \<Rightarrow>
          (let r = draft_request B sample_context sample_profile ?i hex_digest_sample policies tools hs []
           in if request_fields_ok r then Inr r else Inl BuilderValueError)
      | _ \<Rightarrow> Inl RevisionMismatch)" for B hs
    by (simp add: model_request_of_def f)
  obtain r where r: "model_request_of sample_builder sample_context sample_profile ?i hex_digest_sample [ToolExchange raw_exchange] [] = Inr r"
    using sample_tokens(2) by blast
  have "draft_request counting_builder q p i h ps ts hs ev = draft_request sample_builder q p i h ps ts hs ev" for q p i h ps ts hs ev
    by (simp add: draft_request_def counting_builder_def)
  then have c: "model_request_of counting_builder sample_context sample_profile ?i hex_digest_sample [ToolExchange raw_exchange] [] = Inr r"
    using r unfolding m by (simp add: f sample_builder_def)
  have h: "mq_history r = [ToolExchange raw_exchange]" "mq_tools r = []"
    using r unfolding m by (auto simp: f sample_builder_def Let_def draft_simps split: if_splits)
  have "finite_floats (VObj [(''messages'', VList (map message_json ms)), (''tools'', VList [])])" for ms
    by (simp add: message_json_def list_all_iff)
  then obtain body where w: "wire_text sample_gateway_externals r = Some body"
    by (simp add: wire_text_def h canonical_text_def)
  have "0 \<le> sum_list (map (token_cost []) (visible_tokens body))"
    by (rule sum_list_nonneg) (auto simp: token_cost_pos)
  moreover have "private_count r = 1"
    by (simp add: private_count_def h group_ref_def raw_exchange_def)
  ultimately have e: "provisioned_estimate sample_gateway_externals [] ''e'' r
      = Some (sum_list (map (token_cost []) (visible_tokens body)) + 1, ''e'')"
    by (simp add: provisioned_estimate_def w Let_def len_ok_def)
  have "candidate_tokens counting_builder sample_context sample_profile ?i hex_digest_sample [ToolExchange raw_exchange] []
      = Inr (sum_list (map (token_cost []) (visible_tokens body)) + 1)"
    by (simp add: candidate_tokens_def c estimate_of_def f e)
  with \<open>0 \<le> sum_list (map (token_cost []) (visible_tokens body))\<close> show ?thesis by (intro exI [of _ "_ + 1"]) auto
qed

theorem compression_never_helps_witness:
  "\<exists>n ds. compress_groups (\<lambda>hs. candidate_tokens counting_builder sample_context sample_profile
      (Thinking \<lparr>th_effort = EffortHigh, th_max_output_tokens = 100\<rparr>) hex_digest_sample hs []) (-1) [] [ToolExchange raw_exchange] n []
     = Inr ([summarize_group (ToolExchange raw_exchange)], n, ds) \<and> 0 \<le> n"
proof -
  obtain n where n: "0 \<le> n" "candidate_tokens counting_builder sample_context sample_profile
    (Thinking \<lparr>th_effort = EffortHigh, th_max_output_tokens = 100\<rparr>) hex_digest_sample [ToolExchange raw_exchange] [] = Inr n"
    using counted by blast
  have b: "bu_estimate counting_builder = provisioned_estimate sample_gateway_externals [] ''e''"
    by (simp add: counting_builder_def)
  have "-1 < n" using n(1) by simp
  from compression_never_helps [OF b n(2) this] obtain ds where "compress_groups (\<lambda>hs. candidate_tokens counting_builder
      sample_context sample_profile (Thinking \<lparr>th_effort = EffortHigh, th_max_output_tokens = 100\<rparr>) hex_digest_sample hs [])
      (-1) [] [ToolExchange raw_exchange] n [] = Inr (map summarize_group [ToolExchange raw_exchange], n, ds)" by blast
  then show ?thesis using n(1) unfolding list.map by blast
qed

text \<open>Records too large for one message are refused before any trimming is tried.\<close>

lemma oversized_records_refused:
  assumes "validate_context B q = Inr p" "rule_for p (cr_step q) = Some rule"
    "compute_config_hash (bu_externals B) p (bu_requested_model B) = Some (rs_config_hash (cr_run_scope q))"
    "policy_for (bu_registry B) (pf_key p) = Some ps" "tools_for_step (bu_registry B) (pf_key p) (cr_step q) = Some ts"
    "262144 < length (records_text q (cr_evidence q))"
  shows "build_context B q = Inl BuilderValueError"
  using assms by (simp add: build_context_def candidate_tokens_def model_request_of_def Let_def request_fields_ok_def
      draft_simps messages_of_def valid_chat_message_def len_ok_def)

end
