(* ===== verification/Eval_Runner.thy ===== *)
theory Eval_Runner
  imports Eval_Store
begin

text \<open>
  The evaluation loop (\<open>src/commerce_agent/evaluation/runner.py\<close>, \<open>episode.py\<close>): one asyncio task per
  episode behind a semaphore, a stop event, a grace period after which the rest is marked interrupted.
  asyncio runs one task at a time and switches only at an await, so the stretches between two awaits
  are the atomic steps of \<open>runner_step\<close>: the start of the run with the whole launching loop, an
  episode from the semaphore to its executor, an episode from the executor's answer to its end, the
  stop event, the marking of the abandoned, and the return. The order in which waiting episodes pass
  the semaphore is left open. An executor that is cancelled ends with the cancellation. uuid4 and clock
  readings are inputs of a step, \<open>shuffle\<close> is Random(seed).shuffle; the staging of the compose file
  is not modelled.
\<close>

subsection \<open>Tasks, configuration, outcomes\<close>

record episode_task =
  et_task_id :: string
  et_mode :: bird_mode

definition et_key :: "episode_task \<Rightarrow> task_key" where
  "et_key t = (et_task_id t, et_mode t)"

record runner_config =
  rc_experiment_id :: string
  rc_purpose :: string
  rc_config_hash :: string
  rc_task_list :: "episode_task list"
  rc_concurrency :: nat
  rc_stop_grace_seconds :: nat
  rc_task_order_seed :: int

definition both_modes :: "episode_task list \<Rightarrow> bool" where
  "both_modes ts \<longleftrightarrow> list_ex (\<lambda>t. list_ex (\<lambda>u. et_task_id t = et_task_id u \<and> et_mode t \<noteq> et_mode u) ts) ts"

definition valid_runner_config :: "runner_config \<Rightarrow> bool" where
  "valid_runner_config c \<longleftrightarrow>
     len_ok 1 128 (rc_experiment_id c) \<and> hex64 (rc_config_hash c) \<and> rc_task_list c \<noteq> []
     \<and> list_all (\<lambda>t. len_ok 1 128 (et_task_id t)) (rc_task_list c)
     \<and> 1 \<le> rc_concurrency c \<and> rc_concurrency c \<le> 4 \<and> 1 \<le> rc_stop_grace_seconds c
     \<and> (1 < rc_concurrency c \<longrightarrow> \<not> both_modes (rc_task_list c))"

record episode_outcome =
  eo_status :: task_status
  eo_error_class :: "string option"
  eo_result :: "episode_result option"
  eo_telemetry :: attempt_telemetry

definition valid_episode_outcome :: "episode_outcome \<Rightarrow> bool" where
  "valid_episode_outcome o1 \<longleftrightarrow> opt_ok (len_ok 1 128) (eo_error_class o1) \<and> valid_attempt_telemetry (eo_telemetry o1)
     \<and> opt_ok valid_episode_result (eo_result o1)"

text \<open>What an executor does: it returns an outcome, or raises a state conflict or any other exception.\<close>

datatype exec_result = ExecReturned episode_outcome | ExecConflict string | ExecRaised

definition infrastructure_outcome :: episode_outcome where
  "infrastructure_outcome = \<lparr>eo_status = InfrastructureError, eo_error_class = Some ''executor_exception'',
     eo_result = None, eo_telemetry = empty_telemetry\<rparr>"

subsection \<open>The state of a run\<close>

record eval_event =
  ev_recorded_at :: py_datetime
  ev_run_id :: uuid
  ev_experiment_id :: string
  ev_task_id :: string
  ev_mode :: bird_mode
  ev_attempt_id :: uuid
  ev_attempt_seq :: int
  ev_event :: string
  ev_status :: "task_status option"

definition event_of :: "py_datetime \<Rightarrow> attempt_record \<Rightarrow> string \<Rightarrow> task_status option \<Rightarrow> eval_event" where
  "event_of now r label status =
     \<lparr>ev_recorded_at = now, ev_run_id = ar_run_id r, ev_experiment_id = ar_experiment_id r,
      ev_task_id = ar_task_id r, ev_mode = ar_mode r, ev_attempt_id = ar_attempt_id r,
      ev_attempt_seq = ar_attempt_seq r, ev_event = label, ev_status = status\<rparr>"

datatype job_phase = Waiting | Executing | Ended | Cancelled | Crashed eval_error

record job =
  jb_attempt :: attempt_record
  jb_phase :: job_phase

record run_summary =
  sm_status_counts :: "task_status \<Rightarrow> nat"
  sm_attempted_episodes :: nat
  sm_completed_tasks :: nat
  sm_unfinished_tasks :: nat
  sm_stopped :: bool

datatype main_phase = Created | InFlight | Returned run_summary | Raised eval_error

record runner =
  rn_store :: eval_store
  rn_jobs :: "job list"
  rn_stopped :: bool
  rn_counts :: "task_status \<Rightarrow> nat"
  rn_events :: "eval_event list"
  rn_main :: main_phase

definition new_runner :: "eval_store \<Rightarrow> bool \<Rightarrow> runner" where
  "new_runner st stopped = \<lparr>rn_store = st, rn_jobs = [], rn_stopped = stopped, rn_counts = (\<lambda>_. 0),
     rn_events = [], rn_main = Created\<rparr>"

definition all_statuses :: "task_status list" where
  "all_statuses = [Pending, Running, Succeeded, Failed, InfrastructureError, Interrupted]"

definition total_count :: "(task_status \<Rightarrow> nat) \<Rightarrow> nat" where
  "total_count c = sum_list (map c all_statuses)"

definition count_status :: "task_status \<Rightarrow> (task_status \<Rightarrow> nat) \<Rightarrow> task_status \<Rightarrow> nat" where
  "count_status s c = c(s := c s + 1)"

subsection \<open>Starting\<close>

definition ordered_queue ::
    "(int \<Rightarrow> episode_task list \<Rightarrow> episode_task list) \<Rightarrow> runner_config \<Rightarrow> task_key list \<Rightarrow> episode_task list" where
  "ordered_queue shuffle c exclude =
     (let ordered = sort_key et_key (filter (\<lambda>t. et_key t \<notin> set exclude) (rc_task_list c))
      in if rc_task_order_seed c \<noteq> 0 then shuffle (rc_task_order_seed c) ordered else ordered)"

definition next_sequence :: "attempt_record list \<Rightarrow> task_key \<Rightarrow> int" where
  "next_sequence unfinished k = (case find (\<lambda>r. task_key r = k) unfinished of
       None \<Rightarrow> 1 | Some r \<Rightarrow> ar_attempt_seq r + 1)"

text \<open>The launching loop: every task of the queue gets its attempt, all before an episode runs.\<close>

fun launch :: "uuid \<Rightarrow> string \<Rightarrow> (task_key \<Rightarrow> int) \<Rightarrow> (episode_task \<times> uuid \<times> py_datetime) list \<Rightarrow> job list" where
  "launch run eid next [] = []"
| "launch run eid next ((t, i, now) # ts) =
     \<lparr>jb_attempt = \<lparr>ar_attempt_id = i, ar_run_id = run, ar_experiment_id = eid, ar_task_id = et_task_id t,
        ar_mode = et_mode t, ar_attempt_seq = next (et_key t), ar_status = Pending, ar_error_class = None,
        ar_started_at = now, ar_finished_at = None, ar_telemetry = empty_telemetry\<rparr>,
      jb_phase = Waiting\<rparr>
     # launch run eid (next(et_key t := next (et_key t) + 1)) ts"

definition start_run ::
    "(int \<Rightarrow> episode_task list \<Rightarrow> episode_task list) \<Rightarrow> runner_config \<Rightarrow> uuid \<Rightarrow> (uuid \<times> py_datetime) list
       \<Rightarrow> runner \<Rightarrow> runner" where
  "start_run shuffle c run fresh s =
     (case register_experiment (rc_experiment_id c) (rc_purpose c, rc_config_hash c) (rn_store s) of
        (Inl e, st) \<Rightarrow> s\<lparr>rn_store := st, rn_main := Raised e\<rparr>
      | (Inr _, st) \<Rightarrow>
          let queue = ordered_queue shuffle c (completed_tasks (rc_experiment_id c) st);
              next = next_sequence (unfinished_attempts (rc_experiment_id c) st)
          in s\<lparr>rn_store := st, rn_main := InFlight,
               rn_jobs := if rn_stopped s then []
                 else launch run (rc_experiment_id c) next (zip queue fresh)\<rparr>)"

subsection \<open>One episode\<close>

definition set_phase :: "nat \<Rightarrow> job_phase \<Rightarrow> runner \<Rightarrow> runner" where
  "set_phase k p s = s\<lparr>rn_jobs := (rn_jobs s)[k := (rn_jobs s ! k)\<lparr>jb_phase := p\<rparr>]\<rparr>"

definition executing :: "runner \<Rightarrow> job list" where
  "executing s = filter (\<lambda>j. jb_phase j = Executing) (rn_jobs s)"

definition begin_episode :: "py_datetime \<Rightarrow> nat \<Rightarrow> runner \<Rightarrow> runner" where
  "begin_episode now k s =
     (if rn_stopped s then set_phase k Ended s
      else let r = jb_attempt (rn_jobs s ! k) in
        (case register_attempt r (rn_store s) of
           (Inl e, st) \<Rightarrow> set_phase k (Crashed e) (s\<lparr>rn_store := st\<rparr>)
         | (Inr _, st) \<Rightarrow>
             let s' = s\<lparr>rn_events := rn_events s @ [event_of now r ''attempt_started'' None]\<rparr> in
             (case mark_running (ar_attempt_id r) Pending st of
                (Inl e, st') \<Rightarrow> set_phase k (Crashed e) (s'\<lparr>rn_store := st'\<rparr>)
              | (Inr _, st') \<Rightarrow> set_phase k Executing (s'\<lparr>rn_store := st'\<rparr>))))"

definition settle_episode :: "py_datetime \<Rightarrow> py_datetime \<Rightarrow> episode_outcome \<Rightarrow> nat \<Rightarrow> runner \<Rightarrow> runner" where
  "settle_episode now now' o1 k s =
     (let r = jb_attempt (rn_jobs s ! k) in
      case finish_attempt (ar_attempt_id r) (eo_status o1) (eo_error_class o1) (eo_telemetry o1) (eo_result o1)
             now (rn_store s) of
        (Inl e, st) \<Rightarrow> set_phase k (Crashed e) (s\<lparr>rn_store := st\<rparr>)
      | (Inr _, st) \<Rightarrow> set_phase k Ended (s\<lparr>rn_store := st, rn_counts := count_status (eo_status o1) (rn_counts s),
          rn_events := rn_events s @ [event_of now' r ''attempt_finished'' (Some (eo_status o1))]\<rparr>))"

definition end_episode :: "py_datetime \<Rightarrow> py_datetime \<Rightarrow> exec_result \<Rightarrow> nat \<Rightarrow> runner \<Rightarrow> runner" where
  "end_episode now now' x k s = (case x of
       ExecConflict e \<Rightarrow> set_phase k (Crashed (EvalStateConflict e)) s
     | ExecReturned o1 \<Rightarrow> settle_episode now now' o1 k s
     | ExecRaised \<Rightarrow> settle_episode now now' infrastructure_outcome k s)"

subsection \<open>Abandoning and returning\<close>

definition unfinished_job :: "job \<Rightarrow> bool" where
  "unfinished_job j \<longleftrightarrow> jb_phase j = Waiting \<or> jb_phase j = Executing"

text \<open>One round of the loop in \<open>_mark_abandoned\<close>.\<close>

definition abandon_job :: "py_datetime \<Rightarrow> nat \<Rightarrow> runner \<Rightarrow> runner" where
  "abandon_job now k s =
     (if \<not> unfinished_job (rn_jobs s ! k) then s
      else let r = jb_attempt (rn_jobs s ! k) in
        (case finish_attempt (ar_attempt_id r) Interrupted None empty_telemetry None now (rn_store s) of
           (Inl e, st) \<Rightarrow> set_phase k Cancelled s
         | (Inr _, st) \<Rightarrow> set_phase k Cancelled (s\<lparr>rn_store := st, rn_counts := count_status Interrupted (rn_counts s),
             rn_events := rn_events s @ [event_of now r ''attempt_interrupted'' None]\<rparr>)))"

definition mark_abandoned :: "py_datetime \<Rightarrow> runner \<Rightarrow> runner" where
  "mark_abandoned now s = fold (abandon_job now) [0..<length (rn_jobs s)] s"

fun first_failure :: "job list \<Rightarrow> eval_error option" where
  "first_failure [] = None"
| "first_failure (j # js) = (case jb_phase j of Crashed e \<Rightarrow> Some e | _ \<Rightarrow> first_failure js)"

definition summary_of :: "string \<Rightarrow> runner \<Rightarrow> run_summary" where
  "summary_of eid s = \<lparr>sm_status_counts = rn_counts s, sm_attempted_episodes = total_count (rn_counts s),
     sm_completed_tasks = length (completed_tasks eid (rn_store s)),
     sm_unfinished_tasks = length (unfinished_attempts eid (rn_store s)), sm_stopped = rn_stopped s\<rparr>"

definition return_run :: "string \<Rightarrow> runner \<Rightarrow> runner" where
  "return_run eid s = (case first_failure (rn_jobs s) of
       Some e \<Rightarrow> s\<lparr>rn_main := Raised e\<rparr>
     | None \<Rightarrow> s\<lparr>rn_main := Returned (summary_of eid s)\<rparr>)"

subsection \<open>The run\<close>

text \<open>
  \<open>E\<close> says what the executor may do. A run that has started with \<open>n\<close> tasks draws fresh identifiers
  for all of them; only one run of an experiment writes the store.
\<close>

inductive runner_step ::
    "(exec_result \<Rightarrow> bool) \<Rightarrow> (int \<Rightarrow> episode_task list \<Rightarrow> episode_task list) \<Rightarrow> runner_config \<Rightarrow> uuid \<Rightarrow> runner \<Rightarrow> runner \<Rightarrow> bool"
  for E shuffle c run where
  Start: "rn_main s = Created \<Longrightarrow> length fresh = length (rc_task_list c) \<Longrightarrow> distinct (map fst fresh) \<Longrightarrow>
     fst ` set fresh \<inter> ar_attempt_id ` set (attempts (rn_store s)) = {} \<Longrightarrow>
     runner_step E shuffle c run s (start_run shuffle c run fresh s)"
| StopSet: "\<not> rn_stopped s \<Longrightarrow> rn_main s = InFlight \<Longrightarrow> runner_step E shuffle c run s (s\<lparr>rn_stopped := True\<rparr>)"
| Begin: "rn_main s = InFlight \<Longrightarrow> k < length (rn_jobs s) \<Longrightarrow> jb_phase (rn_jobs s ! k) = Waiting \<Longrightarrow>
     length (executing s) < rc_concurrency c \<Longrightarrow> runner_step E shuffle c run s (begin_episode now k s)"
| End: "rn_main s = InFlight \<Longrightarrow> k < length (rn_jobs s) \<Longrightarrow> jb_phase (rn_jobs s ! k) = Executing \<Longrightarrow> E x \<Longrightarrow>
     (\<And>o1. x = ExecReturned o1 \<Longrightarrow> valid_episode_outcome o1) \<Longrightarrow>
     runner_step E shuffle c run s (end_episode now now' x k s)"
| Abandon: "rn_main s = InFlight \<Longrightarrow> rn_stopped s \<Longrightarrow> list_ex unfinished_job (rn_jobs s) \<Longrightarrow>
     runner_step E shuffle c run s (mark_abandoned now s)"
| Return: "rn_main s = InFlight \<Longrightarrow> \<not> list_ex unfinished_job (rn_jobs s) \<Longrightarrow>
     runner_step E shuffle c run s (return_run (rc_experiment_id c) s)"

inductive_cases runner_stepE: "runner_step E shuffle c run s s'"

subsection \<open>What the calls of one episode do to the store\<close>

lemma attempt_of_append:
  "attempts st' = attempts st @ [r] \<Longrightarrow>
     attempt_of i st' = (case attempt_of i st of None \<Rightarrow> if ar_attempt_id r = i then Some r else None | Some q \<Rightarrow> Some q)"
proof -
  have f: "find P (xs @ [x]) = (case find P xs of None \<Rightarrow> if P x then Some x else None | Some y \<Rightarrow> Some y)"
    for P :: "attempt_record \<Rightarrow> bool" and xs x by (induction xs) auto
  show "attempts st' = attempts st @ [r] \<Longrightarrow>
     attempt_of i st' = (case attempt_of i st of None \<Rightarrow> if ar_attempt_id r = i then Some r else None | Some q \<Rightarrow> Some q)"
    by (simp add: attempt_of_def f)
qed

lemma register_fresh:
  assumes "attempt_of (ar_attempt_id r) st = None" "attempt_key r \<notin> attempt_key ` set (attempts st)"
  shows "register_attempt r st = (Inr (), st\<lparr>attempts := attempts st @ [r]\<rparr>)"
  using assms by (force simp: register_attempt_def list_ex_iff image_iff)

lemma mark_registered:
  assumes "attempt_of (ar_attempt_id r) st = None" "ar_status r = Pending"
  shows "\<exists>st'. mark_running (ar_attempt_id r) Pending (st\<lparr>attempts := attempts st @ [r]\<rparr>) = (Inr (), st')
    \<and> attempts st' = attempts st @ [r\<lparr>ar_status := Running\<rparr>]"
proof -
  have "attempt_of (ar_attempt_id r) (st\<lparr>attempts := attempts st @ [r]\<rparr>) = Some r"
    using assms(1) attempt_of_append [of "st\<lparr>attempts := attempts st @ [r]\<rparr>" st r] by simp
  moreover have "map (\<lambda>q. if ar_attempt_id q = ar_attempt_id r then r\<lparr>ar_status := Running\<rparr> else q) (attempts st) = attempts st"
    using assms(1) by (auto simp: attempt_of_None_iff intro!: map_idI)
  ultimately show ?thesis using assms(2) by (simp add: mark_running_def set_attempt_def)
qed

lemma finish_running:
  assumes "attempt_of i st = Some q" "finish_attempt i status error t result now st = (Inr u, st')"
  shows "ar_status q = Running \<and> attempts st' = attempts (set_attempt (q\<lparr>ar_status := status, ar_error_class := error,
     ar_finished_at := Some now, ar_telemetry := t\<rparr>) st)"
  using assms by (auto simp: finish_attempt_def Let_def split: if_splits option.splits)

lemma finish_refused: "finish_attempt i status error t result now st = (Inl e, st') \<Longrightarrow> st' = st"
  by (auto simp: finish_attempt_def Let_def split: if_splits option.splits)

lemma register_refused: "register_attempt r st = (Inl e, st') \<Longrightarrow> st' = st"
  by (auto simp: register_attempt_def split: if_splits)

lemma set_phase_simps [simp]:
  "rn_store (set_phase k p s) = rn_store s" "rn_stopped (set_phase k p s) = rn_stopped s"
  "rn_counts (set_phase k p s) = rn_counts s" "rn_main (set_phase k p s) = rn_main s"
  "rn_events (set_phase k p s) = rn_events s" "length (rn_jobs (set_phase k p s)) = length (rn_jobs s)"
  by (simp_all add: set_phase_def)

lemma set_phase_attempts [simp]:
  "map jb_attempt (rn_jobs (set_phase k p s)) = map jb_attempt (rn_jobs s)"
  by (cases "k < length (rn_jobs s)") (simp_all add: set_phase_def map_update list_update_same_conv list_update_beyond)

lemma set_phase_nth:
  "k < length (rn_jobs s) \<Longrightarrow> rn_jobs (set_phase k p s) ! l = (if l = k then (rn_jobs s ! k)\<lparr>jb_phase := p\<rparr> else rn_jobs s ! l)"
  by (simp add: set_phase_def)

subsection \<open>The invariant of a run\<close>

definition job_ok :: "bool \<Rightarrow> eval_store \<Rightarrow> job \<Rightarrow> bool" where
  "job_ok settles st j = (let i = ar_attempt_id (jb_attempt j) in case jb_phase j of
       Waiting \<Rightarrow> attempt_of i st = None
     | Executing \<Rightarrow> attempt_of i st = Some ((jb_attempt j)\<lparr>ar_status := Running\<rparr>)
     | Crashed e \<Rightarrow> \<not> settles
     | _ \<Rightarrow> (\<forall>r. attempt_of i st = Some r \<longrightarrow> settles \<longrightarrow> settled (ar_status r)))"

text \<open>The attempts a run draws: fresh, one per task, none for a task the experiment has completed.\<close>

definition plan_ok :: "runner_config \<Rightarrow> uuid \<Rightarrow> eval_store \<Rightarrow> attempt_record list \<Rightarrow> bool" where
  "plan_ok c run st0 rs \<longleftrightarrow>
     distinct (map ar_attempt_id rs) \<and> distinct (map task_key rs)
     \<and> (\<forall>r \<in> set rs. ar_run_id r = run \<and> ar_experiment_id r = rc_experiment_id c \<and> ar_status r = Pending \<and> valid_attempt_record r
          \<and> ar_attempt_id r \<notin> ar_attempt_id ` set (attempts st0) \<and> task_key r \<in> et_key ` set (rc_task_list c)
          \<and> task_key r \<notin> set (completed_tasks (rc_experiment_id c) st0)
          \<and> (\<forall>q \<in> set (attempts st0). ar_experiment_id q = rc_experiment_id c \<longrightarrow> task_key q = task_key r \<longrightarrow>
               ar_attempt_seq q < ar_attempt_seq r))"

definition store_ok :: "eval_store \<Rightarrow> attempt_record list \<Rightarrow> eval_store \<Rightarrow> bool" where
  "store_ok st0 rs st \<longleftrightarrow>
     eval_inv st \<and> set (attempts st0) \<subseteq> set (attempts st)
     \<and> (\<forall>q \<in> set (attempts st). q \<in> set (attempts st0) \<or> (\<exists>r \<in> set rs. same_attempt r q))"

definition lost :: "job \<Rightarrow> nat" where
  "lost j = (case jb_phase j of Executing \<Rightarrow> 1 | Crashed e \<Rightarrow> 1 | _ \<Rightarrow> 0)"

definition run_inv :: "bool \<Rightarrow> runner_config \<Rightarrow> uuid \<Rightarrow> eval_store \<Rightarrow> runner \<Rightarrow> bool" where
  "run_inv settles c run st0 s \<longleftrightarrow>
     plan_ok c run st0 (map jb_attempt (rn_jobs s))
     \<and> store_ok st0 (map jb_attempt (rn_jobs s)) (rn_store s)
     \<and> (\<forall>j \<in> set (rn_jobs s). job_ok settles (rn_store s) j)
     \<and> total_count (rn_counts s) + sum_list (map lost (rn_jobs s)) + length (attempts st0) = length (attempts (rn_store s))
     \<and> length (executing s) \<le> rc_concurrency c"
lemma indicator_update:
  fixes f :: "'a \<Rightarrow> nat"
  assumes "k < length xs"
  shows "sum_list (map f (xs[k := x])) + f (xs ! k) = sum_list (map f xs) + f x"
  using assms
proof (induction xs arbitrary: k)
  case (Cons y ys)
  then show ?case by (cases k) (auto simp: algebra_simps)
qed simp

lemma length_filter_sum: "length (filter P xs) = sum_list (map (\<lambda>x. if P x then 1 else 0) xs)"
  by (induction xs) auto

lemma executing_update:
  assumes "k < length (rn_jobs s)"
  shows "length (executing (set_phase k p s)) + (if jb_phase (rn_jobs s ! k) = Executing then 1 else 0)
    = length (executing s) + (if p = Executing then 1 else 0)"
  using indicator_update [OF assms, of "\<lambda>j. if jb_phase j = Executing then 1 else 0" "(rn_jobs s ! k)\<lparr>jb_phase := p\<rparr>"]
  by (simp add: executing_def length_filter_sum set_phase_def)

lemma run_inv_job:
  assumes "run_inv b c run st0 s" "k < length (rn_jobs s)"
  shows "job_ok b (rn_store s) (rn_jobs s ! k)" "jb_attempt (rn_jobs s ! k) \<in> set (map jb_attempt (rn_jobs s))"
  using assms by (auto simp: run_inv_def)

lemma same_attempt_id: "same_attempt r q \<Longrightarrow> ar_attempt_id q = ar_attempt_id r"
  by (simp add: same_attempt_def)

lemma job_step_inv:
  assumes inv: "run_inv b c run st0 s" and k: "k < length (rn_jobs s)" and j: "rn_jobs s1 = rn_jobs s"
    and r: "r = jb_attempt (rn_jobs s ! k)"
    and st': "eval_inv (rn_store s1)"
    and frame: "\<And>i. i \<noteq> ar_attempt_id r \<Longrightarrow> attempt_of i (rn_store s1) = attempt_of i (rn_store s)"
    and new: "\<And>q. q \<in> set (attempts (rn_store s1)) \<Longrightarrow> q \<in> set (attempts (rn_store s)) \<or> same_attempt r q"
    and ok: "job_ok b (rn_store s1) ((rn_jobs s ! k)\<lparr>jb_phase := p\<rparr>)"
    and cnt: "total_count (rn_counts s1) + lost ((rn_jobs s ! k)\<lparr>jb_phase := p\<rparr>) + length (attempts (rn_store s))
       = total_count (rn_counts s) + lost (rn_jobs s ! k) + length (attempts (rn_store s1))"
    and ex: "p = Executing \<Longrightarrow> length (executing s) < rc_concurrency c"
  shows "run_inv b c run st0 (set_phase k p s1)"
proof -
  let ?rs = "map jb_attempt (rn_jobs s)" and ?j = "(rn_jobs s ! k)\<lparr>jb_phase := p\<rparr>"
  have plan: "plan_ok c run st0 ?rs" and sto: "store_ok st0 ?rs (rn_store s)"
    using inv by (auto simp: run_inv_def)
  have rm: "r \<in> set ?rs" using k r by simp
  have dist: "distinct (map ar_attempt_id ?rs)" using plan by (simp add: plan_ok_def)
  have "q \<in> set (attempts (rn_store s1))" if q: "q \<in> set (attempts st0)" for q
  proof -
    have "q \<in> set (attempts (rn_store s))" "eval_inv (rn_store s)" using sto q by (auto simp: store_ok_def)
    then have "attempt_of (ar_attempt_id q) (rn_store s) = Some q" by (simp add: eval_inv_id)
    moreover have "ar_attempt_id q \<noteq> ar_attempt_id r" using plan rm q unfolding plan_ok_def by (metis image_eqI)
    ultimately have "attempt_of (ar_attempt_id q) (rn_store s1) = Some q" using frame by simp
    then show ?thesis using attempt_of_SomeD by blast
  qed
  moreover have "q \<in> set (attempts st0) \<or> (\<exists>r \<in> set ?rs. same_attempt r q)" if "q \<in> set (attempts (rn_store s1))" for q
    using new [OF that] sto rm by (auto simp: store_ok_def)
  ultimately have s1: "store_ok st0 ?rs (rn_store s1)" using st' by (auto simp: store_ok_def)
  have jobs: "job_ok b (rn_store s1) (rn_jobs (set_phase k p s1) ! l)" if l: "l < length (rn_jobs s)" for l
  proof (cases "l = k")
    case True
    then show ?thesis using ok k j by (simp add: set_phase_nth)
  next
    case False
    have "ar_attempt_id (jb_attempt (rn_jobs s ! l)) \<noteq> ar_attempt_id r"
    proof
      assume "ar_attempt_id (jb_attempt (rn_jobs s ! l)) = ar_attempt_id r"
      then have "map ar_attempt_id ?rs ! l = map ar_attempt_id ?rs ! k" using k l r by simp
      then show False using dist k l False by (metis length_map nth_eq_iff_index_eq)
    qed
    from frame [OF this] have "job_ok b (rn_store s1) (rn_jobs s ! l) = job_ok b (rn_store s) (rn_jobs s ! l)"
      by (simp add: job_ok_def Let_def split: job_phase.split)
    moreover have "job_ok b (rn_store s) (rn_jobs s ! l)" using inv l by (simp add: run_inv_def)
    ultimately show ?thesis using False k j by (simp add: set_phase_nth)
  qed
  have "\<forall>q \<in> set (rn_jobs (set_phase k p s1)). job_ok b (rn_store s1) q"
    using jobs j by (auto simp: in_set_conv_nth)
  moreover have "total_count (rn_counts s1) + sum_list (map lost (rn_jobs (set_phase k p s1))) + length (attempts st0)
      = length (attempts (rn_store s1))"
  proof -
    have "sum_list (map lost (rn_jobs (set_phase k p s1))) + lost (rn_jobs s ! k) = sum_list (map lost (rn_jobs s)) + lost ?j"
      using indicator_update [OF k, of lost ?j] j by (simp add: set_phase_def)
    moreover have "total_count (rn_counts s) + sum_list (map lost (rn_jobs s)) + length (attempts st0) = length (attempts (rn_store s))"
      using inv by (simp add: run_inv_def)
    ultimately show ?thesis using cnt by linarith
  qed
  moreover have "length (executing (set_phase k p s1)) \<le> rc_concurrency c"
  proof -
    have "length (executing s1) = length (executing s)" using j by (simp add: executing_def)
    moreover have "length (executing s) \<le> rc_concurrency c" using inv by (simp add: run_inv_def)
    ultimately show ?thesis using executing_update [of k s1 p] k j ex by (simp split: if_splits)
  qed
  ultimately show ?thesis using plan s1 j by (simp add: run_inv_def)
qed

subsection \<open>Every step keeps the invariant\<close>

lemma total_count_status [simp]: "total_count (count_status x f) = total_count f + 1"
  by (cases x) (simp_all add: total_count_def count_status_def all_statuses_def)

lemma begin_episode_inv:
  assumes inv: "run_inv b c run st0 s" and k: "k < length (rn_jobs s)" and w: "jb_phase (rn_jobs s ! k) = Waiting"
    and room: "length (executing s) < rc_concurrency c" and run: "\<forall>q \<in> set (attempts st0). ar_run_id q \<noteq> run"
  shows "run_inv b c run st0 (begin_episode now k s)"
proof (cases "rn_stopped s")
  case True
  have "run_inv b c run st0 (set_phase k Ended s)"
    using inv k run_inv_job [OF inv k] w
    by (intro job_step_inv [OF inv k refl refl]) (auto simp: run_inv_def store_ok_def job_ok_def Let_def lost_def)
  then show ?thesis using True by (simp add: begin_episode_def)
next
  case False
  define r where "r = jb_attempt (rn_jobs s ! k)"
  have none: "attempt_of (ar_attempt_id r) (rn_store s) = None"
    using run_inv_job(1) [OF inv k] w by (simp add: job_ok_def Let_def r_def)
  have plan: "plan_ok c run st0 (map jb_attempt (rn_jobs s))"
    and sto: "store_ok st0 (map jb_attempt (rn_jobs s)) (rn_store s)" using inv by (auto simp: run_inv_def)
  have rm: "r \<in> set (map jb_attempt (rn_jobs s))" using k by (simp add: r_def)
  have pend: "ar_status r = Pending" "ar_run_id r = run" "valid_attempt_record r"
    using plan rm by (auto simp: plan_ok_def)
  have key: "attempt_key r \<notin> attempt_key ` set (attempts (rn_store s))"
  proof
    assume "attempt_key r \<in> attempt_key ` set (attempts (rn_store s))"
    then obtain q where q: "q \<in> set (attempts (rn_store s))" "attempt_key q = attempt_key r" by force
    then have "ar_run_id q = run" "task_key q = task_key r" using pend by (auto simp: attempt_key_def task_key_def)
    then have "q \<notin> set (attempts st0)" using run by blast
    then obtain r' where r': "r' \<in> set (map jb_attempt (rn_jobs s))" "same_attempt r' q"
      using sto q(1) unfolding store_ok_def by blast
    then have "task_key r' = task_key r" using \<open>task_key q = task_key r\<close>
      by (auto simp: same_attempt_def attempt_key_def task_key_def)
    moreover have "distinct (map task_key (map jb_attempt (rn_jobs s)))" using plan unfolding plan_ok_def by blast
    ultimately have "r' = r" using distinct_key_eq r'(1) rm by metis
    then have "ar_attempt_id q = ar_attempt_id r" using r'(2) by (simp add: same_attempt_def)
    then show False using none q(1) by (auto simp: attempt_of_None_iff)
  qed
  obtain st' where st': "mark_running (ar_attempt_id r) Pending ((rn_store s)\<lparr>attempts := attempts (rn_store s) @ [r]\<rparr>) = (Inr (), st')"
    "attempts st' = attempts (rn_store s) @ [r\<lparr>ar_status := Running\<rparr>]"
    using mark_registered [OF none pend(1)] by blast
  have e: "begin_episode now k s = set_phase k Executing (s\<lparr>rn_events := rn_events s @ [event_of now r ''attempt_started'' None], rn_store := st'\<rparr>)"
    using False st'(1) register_fresh [OF none key] by (simp add: begin_episode_def Let_def r_def)
  have a: "attempt_of i st' = (case attempt_of i (rn_store s) of
      None \<Rightarrow> if ar_attempt_id r = i then Some (r\<lparr>ar_status := Running\<rparr>) else None | Some q \<Rightarrow> Some q)" for i
    using attempt_of_append [OF st'(2)] by simp
  have "eval_inv (rn_store s)" using sto by (simp add: store_ok_def)
  moreover have "eval_step (rn_store s) ((rn_store s)\<lparr>attempts := attempts (rn_store s) @ [r]\<rparr>)"
    using eval_step.Register_attempt [OF pend(3,1) register_fresh [OF none key]] .
  ultimately have inv': "eval_inv st'" using eval_step_inv eval_step.Mark_running [OF st'(1)] by blast
  show ?thesis unfolding e
  proof (rule job_step_inv [OF inv k _ r_def])
    show "job_ok b (rn_store (s\<lparr>rn_events := rn_events s @ [event_of now r ''attempt_started'' None], rn_store := st'\<rparr>))
        ((rn_jobs s ! k)\<lparr>jb_phase := Executing\<rparr>)"
      using a none by (simp add: job_ok_def Let_def r_def)
  qed (use inv' a st'(2) w room in \<open>auto simp: lost_def same_attempt_def attempt_key_def split: option.splits\<close>)
qed
text \<open>An outcome finish_attempt accepts, and executors that only give such outcomes.\<close>

definition outcome_settles :: "episode_outcome \<Rightarrow> bool" where
  "outcome_settles o1 \<longleftrightarrow> settled (eo_status o1) \<and> (eo_error_class o1 = None \<or> eo_status o1 \<noteq> Succeeded)
     \<and> (eo_result o1 = None \<or> eo_status o1 = Succeeded)"

definition well_behaved :: "(exec_result \<Rightarrow> bool) \<Rightarrow> bool" where
  "well_behaved E \<longleftrightarrow> (\<forall>o1. E (ExecReturned o1) \<longrightarrow> outcome_settles o1) \<and> (\<forall>e. \<not> E (ExecConflict e))"

lemma infrastructure_outcome_facts:
  "outcome_settles infrastructure_outcome" "valid_episode_outcome infrastructure_outcome"
  by (simp_all add: outcome_settles_def infrastructure_outcome_def settled_def valid_episode_outcome_def
      opt_ok_def len_ok_def sample_attempt_valid(2))

lemma finish_accepts:
  assumes "eval_inv st" "attempt_of i st = Some q" "ar_status q = Running" "outcome_settles o1"
  shows "\<exists>st'. finish_attempt i (eo_status o1) (eo_error_class o1) (eo_telemetry o1) (eo_result o1) now st = (Inr (), st')"
proof -
  have q: "q \<in> set (attempts st)" "ar_attempt_id q = i" using attempt_of_SomeD [OF assms(2)] by auto
  have "results st i = None"
  proof (rule ccontr)
    assume "results st i \<noteq> None"
    then obtain r where r: "r \<in> set (attempts st)" "ar_attempt_id r = i" "ar_status r = Succeeded"
      using assms(1) by (auto simp: eval_inv_def)
    then have "attempt_of i st = Some r" using eval_inv_id [OF assms(1)] by blast
    then show False using assms(2,3) r(3) by simp
  qed
  then show ?thesis using assms(2-4) by (auto simp: finish_attempt_def Let_def outcome_settles_def split: option.splits)
qed

text \<open>Finishing the attempt of a job, however the job ends, and whatever its new phase.\<close>

lemma finish_step_inv:
  assumes inv: "run_inv b c run st0 s" and k: "k < length (rn_jobs s)" and p: "jb_phase (rn_jobs s ! k) = Executing"
    and f: "finish_attempt (ar_attempt_id (jb_attempt (rn_jobs s ! k))) status error t result now (rn_store s) = (Inr u, st')"
    and v: "valid_attempt_telemetry t" "opt_ok (len_ok 1 128) error" and q: "q \<in> {Ended, Cancelled}"
    and sett: "b \<longrightarrow> settled status"
  shows "run_inv b c run st0 (set_phase k q (s\<lparr>rn_store := st', rn_counts := count_status x (rn_counts s), rn_events := ev\<rparr>))"
proof -
  define r where "r = jb_attempt (rn_jobs s ! k)"
  define r1 where "r1 = r\<lparr>ar_status := status, ar_error_class := error, ar_finished_at := Some now, ar_telemetry := t\<rparr>"
  have a: "attempt_of (ar_attempt_id r) (rn_store s) = Some (r\<lparr>ar_status := Running\<rparr>)"
    using run_inv_job(1) [OF inv k] p by (simp add: job_ok_def Let_def r_def)
  have st': "attempts st' = attempts (set_attempt r1 (rn_store s))"
    using finish_running [OF a f [folded r_def]] by (simp add: r1_def)
  have i: "ar_attempt_id r1 = ar_attempt_id r" by (simp add: r1_def)
  have lk: "attempt_of i st' = (if i = ar_attempt_id r then Some r1 else attempt_of i (rn_store s))" for i
    using attempt_of_set [of i r1 "rn_store s"] a i st' by (simp add: attempt_of_def)
  have ie: "eval_inv (rn_store s)" using inv by (simp add: run_inv_def store_ok_def)
  have inv': "eval_inv st'" by (rule eval_step_inv [OF eval_step.Finish [OF v f] ie])
  have new: "q \<in> set (attempts (rn_store s)) \<or> same_attempt r q" if "q \<in> set (attempts st')" for q
    using that unfolding st' set_attempt_mem by (auto simp: r1_def same_attempt_def attempt_key_def)
  show ?thesis
  proof (rule job_step_inv [OF inv k _ r_def])
    show "job_ok b (rn_store (s\<lparr>rn_store := st', rn_counts := count_status x (rn_counts s), rn_events := ev\<rparr>))
        ((rn_jobs s ! k)\<lparr>jb_phase := q\<rparr>)"
      using lk q sett by (auto simp: job_ok_def Let_def r_def [symmetric] r1_def)
  qed (use inv' lk new st' q p in \<open>auto simp: lost_def\<close>)
qed

lemma settle_episode_inv:
  assumes inv: "run_inv b c run st0 s" and k: "k < length (rn_jobs s)" and p: "jb_phase (rn_jobs s ! k) = Executing"
    and v: "valid_episode_outcome o1" and b: "b \<longrightarrow> outcome_settles o1"
  shows "run_inv b c run st0 (settle_episode now now' o1 k s)"
proof -
  define i where "i = ar_attempt_id (jb_attempt (rn_jobs s ! k))"
  have a: "attempt_of i (rn_store s) = Some ((jb_attempt (rn_jobs s ! k))\<lparr>ar_status := Running\<rparr>)"
    using run_inv_job(1) [OF inv k] p by (simp add: job_ok_def Let_def i_def)
  obtain res st' where f: "finish_attempt i (eo_status o1) (eo_error_class o1) (eo_telemetry o1) (eo_result o1) now (rn_store s) = (res, st')"
    by fastforce
  show ?thesis
  proof (cases res)
    case (Inl e)
    then have st': "st' = rn_store s" using f finish_refused by blast
    have "\<not> b"
    proof
      assume b1: b
      have ie: "eval_inv (rn_store s)" using inv by (simp add: run_inv_def store_ok_def)
      show False using finish_accepts [OF ie a, of o1 now] b b1 f Inl by simp
    qed
    then have "run_inv b c run st0 (set_phase k (Crashed e) s)"
      using inv k p by (intro job_step_inv [OF inv k refl refl]) (auto simp: run_inv_def store_ok_def job_ok_def Let_def lost_def)
    then show ?thesis using f Inl st' by (simp add: settle_episode_def Let_def i_def)
  next
    case (Inr u)
    have "run_inv b c run st0 (set_phase k Ended (s\<lparr>rn_store := st', rn_counts := count_status (eo_status o1) (rn_counts s),
        rn_events := rn_events s @ [event_of now' (jb_attempt (rn_jobs s ! k)) ''attempt_finished'' (Some (eo_status o1))]\<rparr>))"
      using f Inr v b by (intro finish_step_inv [OF inv k p]) (auto simp: i_def valid_episode_outcome_def outcome_settles_def)
    then show ?thesis using f Inr by (simp add: settle_episode_def Let_def i_def)
  qed
qed

lemma end_episode_inv:
  assumes inv: "run_inv b c run st0 s" and k: "k < length (rn_jobs s)" and p: "jb_phase (rn_jobs s ! k) = Executing"
    and v: "\<And>o1. x = ExecReturned o1 \<Longrightarrow> valid_episode_outcome o1" and b: "b \<longrightarrow> well_behaved E" and x: "E x"
  shows "run_inv b c run st0 (end_episode now now' x k s)"
proof (cases x)
  case (ExecReturned o1)
  have "b \<longrightarrow> outcome_settles o1" using b x ExecReturned by (simp add: well_behaved_def)
  from settle_episode_inv [OF inv k p v [OF ExecReturned] this] show ?thesis using ExecReturned by (simp add: end_episode_def)
next
  case (ExecConflict e)
  then have "\<not> b" using b x by (auto simp: well_behaved_def)
  then have "run_inv b c run st0 (set_phase k (Crashed (EvalStateConflict e)) s)"
    using inv p by (intro job_step_inv [OF inv k refl refl]) (auto simp: run_inv_def store_ok_def job_ok_def Let_def lost_def)
  then show ?thesis using ExecConflict by (simp add: end_episode_def)
next
  case ExecRaised
  then show ?thesis
    using settle_episode_inv [OF inv k p infrastructure_outcome_facts(2)] infrastructure_outcome_facts(1) by (simp add: end_episode_def)
qed

lemma abandon_job_inv:
  assumes inv: "run_inv b c run st0 s" and k: "k < length (rn_jobs s)"
  shows "run_inv b c run st0 (abandon_job now k s)"
proof (cases "unfinished_job (rn_jobs s ! k)")
  case True
  define i where "i = ar_attempt_id (jb_attempt (rn_jobs s ! k))"
  obtain res st' where f: "finish_attempt i Interrupted None empty_telemetry None now (rn_store s) = (res, st')" by fastforce
  show ?thesis
  proof (cases res)
    case (Inl e)
    have w: "jb_phase (rn_jobs s ! k) = Waiting"
    proof (rule ccontr)
      assume "jb_phase (rn_jobs s ! k) \<noteq> Waiting"
      then have "jb_phase (rn_jobs s ! k) = Executing" using True by (simp add: unfinished_job_def)
      then show False using run_inv_job(1) [OF inv k] f Inl by (simp add: job_ok_def Let_def i_def finish_attempt_def)
    qed
    have "run_inv b c run st0 (set_phase k Cancelled s)"
      using inv w run_inv_job(1) [OF inv k]
      by (intro job_step_inv [OF inv k refl refl]) (auto simp: run_inv_def store_ok_def job_ok_def Let_def lost_def)
    then show ?thesis using f Inl True by (simp add: abandon_job_def Let_def i_def)
  next
    case (Inr u)
    have p: "jb_phase (rn_jobs s ! k) = Executing"
    proof (rule ccontr)
      assume "jb_phase (rn_jobs s ! k) \<noteq> Executing"
      then have "jb_phase (rn_jobs s ! k) = Waiting" using True by (simp add: unfinished_job_def)
      then show False using run_inv_job(1) [OF inv k] f Inr by (simp add: job_ok_def Let_def i_def finish_attempt_def)
    qed
    have "run_inv b c run st0 (set_phase k Cancelled (s\<lparr>rn_store := st', rn_counts := count_status Interrupted (rn_counts s),
        rn_events := rn_events s @ [event_of now (jb_attempt (rn_jobs s ! k)) ''attempt_interrupted'' None]\<rparr>))"
      using f Inr by (intro finish_step_inv [OF inv k p]) (auto simp: i_def opt_ok_def sample_attempt_valid(2) settled_def)
    then show ?thesis using f Inr True by (simp add: abandon_job_def Let_def i_def)
  qed
qed (use inv in \<open>simp add: abandon_job_def\<close>)

lemma abandon_job_frame [simp]:
  "length (rn_jobs (abandon_job now k s)) = length (rn_jobs s)" "rn_stopped (abandon_job now k s) = rn_stopped s"
  "rn_main (abandon_job now k s) = rn_main s"
  "map jb_attempt (rn_jobs (abandon_job now k s)) = map jb_attempt (rn_jobs s)"
  by (auto simp: abandon_job_def Let_def split: prod.split sum.split)

lemma fold_abandon:
  assumes "run_inv b c run st0 s" "\<forall>k \<in> set ks. k < length (rn_jobs s)"
  shows "run_inv b c run st0 (fold (abandon_job now) ks s) \<and> length (rn_jobs (fold (abandon_job now) ks s)) = length (rn_jobs s)
    \<and> rn_main (fold (abandon_job now) ks s) = rn_main s \<and> rn_stopped (fold (abandon_job now) ks s) = rn_stopped s
    \<and> map jb_attempt (rn_jobs (fold (abandon_job now) ks s)) = map jb_attempt (rn_jobs s)"
  using assms
proof (induction ks arbitrary: s)
  case (Cons k ks)
  have "run_inv b c run st0 (abandon_job now k s)" using Cons.prems by (intro abandon_job_inv) auto
  from Cons.IH [OF this] Cons.prems(2) show ?case by simp
qed simp

lemma mark_abandoned_inv: "run_inv b c run st0 s \<Longrightarrow> run_inv b c run st0 (mark_abandoned now s)"
  using fold_abandon [of b c run st0 s "[0..<length (rn_jobs s)]"] by (simp add: mark_abandoned_def)
subsection \<open>The start of a run\<close>

lemma launch_columns:
  "map (ar_attempt_id \<circ> jb_attempt) (launch run eid next ts) = map (fst \<circ> snd) ts"
  "map (task_key \<circ> jb_attempt) (launch run eid next ts) = map (et_key \<circ> fst) ts"
  by (induction run eid "next" ts rule: launch.induct) (auto simp: task_key_def et_key_def)

lemma launch_mem:
  assumes "distinct (map (et_key \<circ> fst) ts)" "j \<in> set (launch run eid next ts)"
  shows "jb_phase j = Waiting \<and> (\<exists>t i now. (t, i, now) \<in> set ts \<and> task_key (jb_attempt j) = et_key t
    \<and> ar_task_id (jb_attempt j) = et_task_id t
    \<and> ar_attempt_id (jb_attempt j) = i \<and> ar_attempt_seq (jb_attempt j) = next (et_key t))
    \<and> ar_run_id (jb_attempt j) = run \<and> ar_experiment_id (jb_attempt j) = eid \<and> ar_status (jb_attempt j) = Pending
    \<and> ar_telemetry (jb_attempt j) = empty_telemetry \<and> ar_error_class (jb_attempt j) = None"
  using assms
proof (induction run eid "next" ts rule: launch.induct)
  case (2 run eid "next" t i now ts)
  show ?case
  proof (cases "j \<in> set (launch run eid (next(et_key t := next (et_key t) + 1)) ts)")
    case True
    have d: "distinct (map (et_key \<circ> fst) ts)" "et_key t \<notin> et_key ` fst ` set ts"
      using "2.prems"(1) by (auto simp: image_image comp_def)
    from "2.IH" [OF d(1) True] obtain u l w where u: "(u, l, w) \<in> set ts" "task_key (jb_attempt j) = et_key u"
      "ar_task_id (jb_attempt j) = et_task_id u" "ar_attempt_id (jb_attempt j) = l"
      "ar_attempt_seq (jb_attempt j) = (next(et_key t := next (et_key t) + 1)) (et_key u)"
      by blast
    have "et_key u \<in> et_key ` fst ` set ts" using u(1) by (metis fst_conv image_eqI)
    then have "et_key u \<noteq> et_key t" using d(2) by metis
    then have "ar_attempt_seq (jb_attempt j) = next (et_key u)" using u(5) by simp
    then show ?thesis using "2.IH" [OF d(1) True] u by auto
  next
    case False
    then have "j = hd (launch run eid next ((t, i, now) # ts))" using "2.prems"(2) by auto
    then show ?thesis by (auto simp: task_key_def et_key_def)
  qed
qed simp

lemma register_experiment_frame:
  "register_experiment eid ident st = (res, st') \<Longrightarrow> attempts st' = attempts st \<and> results st' = results st"
  by (auto simp: register_experiment_def split: option.splits if_splits)

lemma eval_inv_frame: "attempts st' = attempts st \<Longrightarrow> results st' = results st \<Longrightarrow> eval_inv st' = eval_inv st"
  by (simp add: eval_inv_def)

lemma tasks_frame:
  "attempts st' = attempts st \<Longrightarrow> completed_tasks eid st' = completed_tasks eid st"
  "attempts st' = attempts st \<Longrightarrow> unfinished_attempts eid st' = unfinished_attempts eid st"
  by (simp_all add: completed_tasks_def unfinished_attempts_def)

definition permutes_tasks :: "(int \<Rightarrow> episode_task list \<Rightarrow> episode_task list) \<Rightarrow> bool" where
  "permutes_tasks shuffle \<longleftrightarrow> (\<forall>seed ts. mset (shuffle seed ts) = mset ts)"

lemma ordered_queue_mset:
  "permutes_tasks shuffle \<Longrightarrow> mset (ordered_queue shuffle c done) =
     mset (filter (\<lambda>t. et_key t \<notin> set done) (rc_task_list c))"
  by (simp add: ordered_queue_def Let_def permutes_tasks_def)

lemma ordered_queue_facts:
  assumes "permutes_tasks shuffle"
  shows "set (ordered_queue shuffle c done) = {t \<in> set (rc_task_list c). et_key t \<notin> set done}"
    "distinct (map et_key (rc_task_list c)) \<Longrightarrow> distinct (map et_key (ordered_queue shuffle c done))"
    "length (ordered_queue shuffle c done) \<le> length (rc_task_list c)"
proof -
  note m = ordered_queue_mset [OF assms, of c "done"]
  show "set (ordered_queue shuffle c done) = {t \<in> set (rc_task_list c). et_key t \<notin> set done}"
    using mset_eq_setD [OF m] by auto
  show "length (ordered_queue shuffle c done) \<le> length (rc_task_list c)"
    using mset_eq_length [OF m] by simp
  assume "distinct (map et_key (rc_task_list c))"
  then have "distinct (map et_key (filter (\<lambda>t. et_key t \<notin> set done) (rc_task_list c)))" by (rule distinct_map_filter)
  moreover have "mset (map et_key (ordered_queue shuffle c done)) = mset (map et_key (filter (\<lambda>t. et_key t \<notin> set done) (rc_task_list c)))"
    using m by simp
  ultimately show "distinct (map et_key (ordered_queue shuffle c done))" using mset_eq_imp_distinct_iff by blast
qed

lemma next_sequence_above:
  assumes "q \<in> set (attempts st)" "ar_experiment_id q = eid" "task_key q = k" "k \<notin> set (completed_tasks eid st)"
  shows "ar_attempt_seq q < next_sequence (unfinished_attempts eid st) k"
proof -
  from latest_attempts_max [OF assms(1,2)] assms(3,4) obtain r
    where r: "r \<in> set (unfinished_attempts eid st)" "task_key r = k" by (metis set_unfinished)
  then have "find (\<lambda>r. task_key r = k) (unfinished_attempts eid st) \<noteq> None" by (auto simp: find_None_iff)
  then obtain r' where f: "find (\<lambda>r. task_key r = k) (unfinished_attempts eid st) = Some r'" by blast
  then have "r' \<in> set (unfinished_attempts eid st)" "task_key r' = k" by (auto simp: find_Some_iff)
  then show ?thesis using unfinished_is_max [OF _ assms(1,2)] assms(3) f by (force simp: next_sequence_def)
qed

lemma next_sequence_pos: "eval_inv st \<Longrightarrow> 1 \<le> next_sequence (unfinished_attempts eid st) k"
proof (cases "find (\<lambda>r. task_key r = k) (unfinished_attempts eid st)")
  case (Some r)
  assume i: "eval_inv st"
  have "r \<in> set (unfinished_attempts eid st)" using Some by (auto simp: find_Some_iff)
  then have "r \<in> set (attempts st)" using latest_attempts_mem by (metis set_unfinished)
  then have "1 \<le> ar_attempt_seq r" using i by (simp add: eval_inv_def valid_attempt_record_def)
  then show ?thesis using Some by (simp add: next_sequence_def)
qed (simp add: next_sequence_def)

lemma start_run_inv:
  assumes inv: "eval_inv st0" and perm: "permutes_tasks shuffle" and cfg: "valid_runner_config c"
    and dist: "distinct (map et_key (rc_task_list c))"
    and fresh: "length fresh = length (rc_task_list c)" "distinct (map fst fresh)"
      "fst ` set fresh \<inter> ar_attempt_id ` set (attempts st0) = {}"
    and s: "rn_store s = st0" "rn_jobs s = []" "rn_counts s = (\<lambda>_. 0)" "rn_main s = Created"
  shows "run_inv b c run st0 (start_run shuffle c run fresh s) \<or> (\<exists>e. rn_main (start_run shuffle c run fresh s) = Raised e)"
proof -
  let ?eid = "rc_experiment_id c"
  obtain res st where reg: "register_experiment ?eid (rc_purpose c, rc_config_hash c) st0 = (res, st)"
    by (rule prod.exhaust)
  have fr: "attempts st = attempts st0" "results st = results st0"
    using register_experiment_frame [OF reg] by blast+
  have ist: "eval_inv st" using inv eval_inv_frame [OF fr] by simp
  define queue where "queue = ordered_queue shuffle c (completed_tasks ?eid st)"
  define nx where "nx = next_sequence (unfinished_attempts ?eid st)"
  define jobs where "jobs = (if rn_stopped s then [] else launch run ?eid nx (zip queue fresh))"
  have ql: "length queue \<le> length fresh" using ordered_queue_facts(3) [OF perm] fresh(1) by (simp add: queue_def)
  have cols: "map (et_key \<circ> fst) (zip queue fresh) = map et_key queue"
    using ql by (simp add: map_fst_zip_take flip: map_map)
  have dz: "distinct (map (et_key \<circ> fst) (zip queue fresh))"
    unfolding cols unfolding queue_def by (rule ordered_queue_facts(2) [OF perm dist])
  have mem: "jb_phase j = Waiting \<and> task_key (jb_attempt j) \<in> et_key ` set queue
      \<and> ar_task_id (jb_attempt j) \<in> et_task_id ` set queue
      \<and> ar_attempt_id (jb_attempt j) \<in> fst ` set fresh \<and> ar_attempt_seq (jb_attempt j) = nx (task_key (jb_attempt j))
      \<and> ar_run_id (jb_attempt j) = run \<and> ar_experiment_id (jb_attempt j) = ?eid \<and> ar_status (jb_attempt j) = Pending
      \<and> ar_telemetry (jb_attempt j) = empty_telemetry \<and> ar_error_class (jb_attempt j) = None" if "j \<in> set jobs" for j
  proof -
    have j: "j \<in> set (launch run ?eid nx (zip queue fresh))" using that by (simp add: jobs_def split: if_splits)
    from launch_mem [OF dz this] obtain t i now where t: "(t, i, now) \<in> set (zip queue fresh)"
      "task_key (jb_attempt j) = et_key t" "ar_task_id (jb_attempt j) = et_task_id t" "ar_attempt_id (jb_attempt j) = i"
      "ar_attempt_seq (jb_attempt j) = nx (et_key t)" by blast
    have "t \<in> set queue" "(i, now) \<in> set fresh" using set_zip_leftD [OF t(1)] set_zip_rightD [OF t(1)] by auto
    then show ?thesis using launch_mem [OF dz j] t by force
  qed
  have valid: "valid_attempt_record (jb_attempt j)" if "j \<in> set jobs" for j
  proof -
    have "ar_task_id (jb_attempt j) \<in> et_task_id ` set (rc_task_list c)"
      using mem [OF that] ordered_queue_facts(1) [OF perm] by (auto simp: queue_def)
    then have "len_ok 1 128 (ar_task_id (jb_attempt j))" "len_ok 1 128 ?eid"
      using cfg by (auto simp: valid_runner_config_def list_all_iff)
    moreover have "1 \<le> nx (task_key (jb_attempt j))" using next_sequence_pos [OF ist] by (simp add: nx_def)
    ultimately show ?thesis using mem [OF that] sample_attempt_valid(2)
      by (simp add: valid_attempt_record_def opt_ok_def)
  qed
  have d1: "distinct (map ar_attempt_id (map jb_attempt jobs))"
    using launch_columns(1) [of run ?eid nx "zip queue fresh"] fresh(2) ql
    by (auto simp: jobs_def map_snd_zip_take take_map [symmetric] distinct_take simp flip: map_map)
  have d2: "distinct (map task_key (map jb_attempt jobs))"
    using launch_columns(2) [of run ?eid nx "zip queue fresh"] dz by (simp add: jobs_def comp_def)
  have row: "ar_run_id (jb_attempt j) = run \<and> ar_experiment_id (jb_attempt j) = ?eid \<and> ar_status (jb_attempt j) = Pending
      \<and> valid_attempt_record (jb_attempt j) \<and> ar_attempt_id (jb_attempt j) \<notin> ar_attempt_id ` set (attempts st0)
      \<and> task_key (jb_attempt j) \<in> et_key ` set (rc_task_list c)
      \<and> task_key (jb_attempt j) \<notin> set (completed_tasks ?eid st0)
      \<and> (\<forall>q \<in> set (attempts st0). ar_experiment_id q = ?eid \<longrightarrow> task_key q = task_key (jb_attempt j) \<longrightarrow>
           ar_attempt_seq q < ar_attempt_seq (jb_attempt j))" if j: "j \<in> set jobs" for j
  proof -
    have ndone: "task_key (jb_attempt j) \<notin> set (completed_tasks ?eid st)"
      using mem [OF j] ordered_queue_facts(1) [OF perm] by (auto simp: queue_def)
    moreover have "ar_attempt_id (jb_attempt j) \<notin> ar_attempt_id ` set (attempts st0)" using mem [OF j] fresh(3) by blast
    moreover have "task_key (jb_attempt j) \<in> et_key ` set (rc_task_list c)"
      using mem [OF j] ordered_queue_facts(1) [OF perm] by (auto simp: queue_def)
    ultimately show ?thesis
      using next_sequence_above [of _ st ?eid "task_key (jb_attempt j)"] mem [OF j] valid [OF j] fr(1)
      by (simp add: nx_def tasks_frame(1) [OF fr(1)])
  qed
  have plan: "plan_ok c run st0 (map jb_attempt jobs)"
    using row d1 d2 by (auto simp: plan_ok_def)
  have st: "store_ok st0 (map jb_attempt jobs) st" using ist fr by (simp add: store_ok_def)
  have ok: "job_ok b st j" if "j \<in> set jobs" for j
  proof -
    have "ar_attempt_id (jb_attempt j) \<notin> ar_attempt_id ` set (attempts st)" using mem [OF that] fresh(3) fr(1) by auto
    then have "attempt_of (ar_attempt_id (jb_attempt j)) st = None" by (auto simp: attempt_of_None_iff image_iff)
    then show ?thesis using mem [OF that] by (simp add: job_ok_def Let_def)
  qed
  have zero: "map lost jobs = map (\<lambda>_. 0) jobs" using mem by (simp add: lost_def)
  have idle: "filter (\<lambda>j. jb_phase j = Executing) jobs = []" using mem by (auto simp: filter_empty_conv)
  show ?thesis
  proof (cases res)
    case (Inr u)
    then have "start_run shuffle c run fresh s = s\<lparr>rn_store := st, rn_main := InFlight, rn_jobs := jobs\<rparr>"
      using reg s(1) by (simp add: start_run_def Let_def jobs_def queue_def nx_def)
    moreover have "run_inv b c run st0 (s\<lparr>rn_store := st, rn_main := InFlight, rn_jobs := jobs\<rparr>)"
      using plan st ok zero idle fr(1) s(3) by (simp add: run_inv_def executing_def total_count_def all_statuses_def)
    ultimately show ?thesis by simp
  qed (use reg s(1) in \<open>simp add: start_run_def\<close>)
qed
subsection \<open>Reachable states\<close>

text \<open>A run of the experiment on a store that earlier runs left, with a run identifier of its own.\<close>

definition run_start :: "(int \<Rightarrow> episode_task list \<Rightarrow> episode_task list) \<Rightarrow> runner_config \<Rightarrow> uuid \<Rightarrow> eval_store \<Rightarrow> bool" where
  "run_start shuffle c run st0 \<longleftrightarrow>
     eval_inv st0 \<and> permutes_tasks shuffle \<and> valid_runner_config c \<and> distinct (map et_key (rc_task_list c))
     \<and> (\<forall>q \<in> set (attempts st0). ar_run_id q \<noteq> run)"

definition runner_inv :: "bool \<Rightarrow> runner_config \<Rightarrow> uuid \<Rightarrow> eval_store \<Rightarrow> runner \<Rightarrow> bool" where
  "runner_inv b c run st0 s \<longleftrightarrow> (case rn_main s of
       Created \<Rightarrow> rn_store s = st0 \<and> rn_jobs s = [] \<and> rn_counts s = (\<lambda>_. 0)
     | InFlight \<Rightarrow> run_inv b c run st0 s
     | Returned m \<Rightarrow> run_inv b c run st0 s \<and> \<not> list_ex unfinished_job (rn_jobs s)
         \<and> first_failure (rn_jobs s) = None \<and> m = summary_of (rc_experiment_id c) s
     | Raised e \<Rightarrow> True)"

lemma end_episode_main [simp]:
  "rn_main (begin_episode now k s) = rn_main s" "rn_main (end_episode now now' x k s) = rn_main s"
  by (auto simp: begin_episode_def end_episode_def settle_episode_def Let_def split: sum.split prod.split exec_result.split)

lemma runner_step_inv:
  assumes st: "run_start shuffle c run st0" and step: "runner_step E shuffle c run s s'"
    and inv: "runner_inv b c run st0 s" and b: "b \<longrightarrow> well_behaved E"
  shows "runner_inv b c run st0 s'"
  using step
proof cases
  case (Start fresh)
  then have "run_inv b c run st0 s' \<or> (\<exists>e. rn_main s' = Raised e)"
    using st inv unfolding Start(1) by (intro start_run_inv) (auto simp: run_start_def runner_inv_def)
  moreover have "rn_main s' = InFlight \<or> (\<exists>e. rn_main s' = Raised e)"
    unfolding Start(1) by (auto simp: start_run_def Let_def split: sum.split prod.split)
  ultimately show ?thesis by (auto simp: runner_inv_def)
next
  case StopSet
  then show ?thesis using inv by (auto simp: runner_inv_def run_inv_def executing_def)
next
  case (Begin k now)
  then have "run_inv b c run st0 s'"
    using inv st unfolding Begin(1) by (intro begin_episode_inv) (auto simp: runner_inv_def run_start_def)
  then show ?thesis using Begin(1,2) by (simp add: runner_inv_def)
next
  case (End k x now now')
  then have "run_inv b c run st0 s'"
    using inv b unfolding End(1) by (intro end_episode_inv [where E = E]) (auto simp: runner_inv_def)
  then show ?thesis using End(1,2) by (simp add: runner_inv_def)
next
  case (Abandon now)
  then have r: "run_inv b c run st0 s" using inv by (simp add: runner_inv_def)
  have "rn_main s' = InFlight" using fold_abandon [OF r, of "[0..<length (rn_jobs s)]"] Abandon(2)
    unfolding Abandon(1) by (simp add: mark_abandoned_def)
  then show ?thesis using mark_abandoned_inv [OF r] Abandon(1) by (simp add: runner_inv_def)
next
  case Return
  then show ?thesis using inv
    by (auto simp: runner_inv_def return_run_def run_inv_def executing_def summary_of_def split: option.split)
qed

abbreviation runner_steps where
  "runner_steps E shuffle c run \<equiv> rtranclp (runner_step E shuffle c run)"

lemma runner_steps_inv:
  assumes "runner_steps E shuffle c run (new_runner st0 stopped) s" "run_start shuffle c run st0" "b \<longrightarrow> well_behaved E"
  shows "runner_inv b c run st0 s"
  using assms(1)
proof (induction rule: rtranclp_induct)
  case base
  then show ?case by (simp add: runner_inv_def new_runner_def)
qed (use assms(2,3) runner_step_inv in blast)

lemma run_inv_InFlight: "runner_inv b c run st0 s \<Longrightarrow> rn_main s = InFlight \<Longrightarrow> run_inv b c run st0 s"
  by (simp add: runner_inv_def)

subsection \<open>A completed task never runs again\<close>

lemma run_inv_open_task:
  assumes inv: "run_inv b c run st0 s" and k: "k < length (rn_jobs s)" and w: "jb_phase (rn_jobs s ! k) = Waiting"
    and q: "q \<in> set (attempts (rn_store s))" "task_key q = task_key (jb_attempt (rn_jobs s ! k))"
  shows "q \<in> set (attempts st0)"
proof (rule ccontr)
  let ?r = "jb_attempt (rn_jobs s ! k)" and ?rs = "map jb_attempt (rn_jobs s)"
  have plan: "plan_ok c run st0 ?rs" and sto: "store_ok st0 ?rs (rn_store s)"
    using inv by (auto simp: run_inv_def)
  assume "q \<notin> set (attempts st0)"
  then obtain r' where r': "r' \<in> set ?rs" "same_attempt r' q" using sto q(1) unfolding store_ok_def by blast
  then have "task_key r' = task_key ?r" using q(2) by (auto simp: same_attempt_def attempt_key_def task_key_def)
  moreover have "distinct (map task_key ?rs)" using plan unfolding plan_ok_def by blast
  moreover have "?r \<in> set ?rs" using k by simp
  ultimately have "r' = ?r" using distinct_key_eq r'(1) by metis
  then have "ar_attempt_id q = ar_attempt_id ?r" using r'(2) by (simp add: same_attempt_def)
  moreover have "attempt_of (ar_attempt_id ?r) (rn_store s) = None"
    using run_inv_job(1) [OF inv k] w by (simp add: job_ok_def Let_def)
  ultimately show False using q(1) by (auto simp: attempt_of_None_iff)
qed

text \<open>Only a beginning episode adds an attempt to the store.\<close>

lemma end_episode_ids:
  "map ar_attempt_id (attempts (rn_store (end_episode now now' x k s))) = map ar_attempt_id (attempts (rn_store s))"
proof -
  have f: "finish_attempt i st er t res n w = (y, w') \<Longrightarrow> map ar_attempt_id (attempts w') = map ar_attempt_id (attempts w)"
    for i st er t res n w y w' by (auto simp: finish_attempt_def Let_def split: option.splits if_splits)
  show ?thesis
    by (auto simp: end_episode_def settle_episode_def Let_def split: exec_result.split prod.split sum.split dest: f)
qed

lemma abandon_ids:
  "map ar_attempt_id (attempts (rn_store (fold (abandon_job now) ks s))) = map ar_attempt_id (attempts (rn_store s))"
proof (induction ks arbitrary: s)
  case (Cons k ks)
  have f: "finish_attempt i st er t res n w = (y, w') \<Longrightarrow> map ar_attempt_id (attempts w') = map ar_attempt_id (attempts w)"
    for i st er t res n w y w' by (auto simp: finish_attempt_def Let_def split: option.splits if_splits)
  have "map ar_attempt_id (attempts (rn_store (abandon_job now k s))) = map ar_attempt_id (attempts (rn_store s))"
    by (auto simp: abandon_job_def Let_def split: prod.split sum.split dest: f)
  then show ?case using Cons.IH by simp
qed simp
lemma begin_episode_new:
  assumes "q \<in> set (attempts (rn_store (begin_episode now k s)))" "ar_attempt_id q \<notin> ar_attempt_id ` set (attempts (rn_store s))"
  shows "ar_attempt_id q = ar_attempt_id (jb_attempt (rn_jobs s ! k))"
proof -
  let ?r = "jb_attempt (rn_jobs s ! k)"
  have reg: "register_attempt ?r st = (y, st') \<Longrightarrow> ar_attempt_id ` set (attempts st') \<subseteq> insert (ar_attempt_id ?r) (ar_attempt_id ` set (attempts st))" for st y st'
    by (auto simp: register_attempt_def split: if_splits)
  have ids: "map ar_attempt_id (attempts st') = map ar_attempt_id (attempts st)" if "mark_running i e st = (y, st')" for i e st y st'
    using that by (auto simp: mark_running_def split: option.splits if_splits)
  have mark: "ar_attempt_id ` set (attempts st') = ar_attempt_id ` set (attempts st)" if "mark_running i e st = (y, st')" for i e st y st'
    using ids [OF that] by (metis list.set_map)
  have "ar_attempt_id ` set (attempts (rn_store (begin_episode now k s)))
      \<subseteq> insert (ar_attempt_id ?r) (ar_attempt_id ` set (attempts (rn_store s)))"
  proof (cases "rn_stopped s")
    case False
    obtain y st where r: "register_attempt ?r (rn_store s) = (y, st)" by (rule prod.exhaust)
    obtain z st' where m: "mark_running (ar_attempt_id ?r) Pending st = (z, st')" by (rule prod.exhaust)
    show ?thesis using False r m reg [OF r] mark [OF m]
      by (cases y; cases z) (auto simp: begin_episode_def Let_def)
  qed (auto simp: begin_episode_def)
  then show ?thesis using assms by blast
qed

lemma start_run_attempts: "attempts (rn_store (start_run shuffle c run fresh s)) = attempts (rn_store s)"
  by (auto simp: start_run_def Let_def split: prod.split sum.split dest: register_experiment_frame)

lemma ids_eq_mem: "map f xs = map f ys \<Longrightarrow> x \<in> set xs \<Longrightarrow> f x \<in> f ` set ys"
  by (metis image_eqI list.set_map)

text \<open>An attempt that a step adds is the attempt of a job that was waiting.\<close>

lemma new_attempt_begins:
  assumes "runner_step E shuffle c run s s'" "q \<in> set (attempts (rn_store s'))"
    and "ar_attempt_id q \<notin> ar_attempt_id ` set (attempts (rn_store s))"
  obtains k where "rn_main s = InFlight" "k < length (rn_jobs s)" "jb_phase (rn_jobs s ! k) = Waiting"
    "ar_attempt_id q = ar_attempt_id (jb_attempt (rn_jobs s ! k))" "rn_main s' = InFlight"
    "map jb_attempt (rn_jobs s') = map jb_attempt (rn_jobs s)"
  using assms(1)
proof cases
  case (Start fresh)
  then show ?thesis using assms(2,3) start_run_attempts by (metis image_eqI)
next
  case (Begin k now)
  have "map jb_attempt (rn_jobs s') = map jb_attempt (rn_jobs s)"
    unfolding Begin(1) by (auto simp: begin_episode_def Let_def set_phase_def map_update list_update_same_conv Begin(3)
      split: prod.split sum.split)
  then show ?thesis using begin_episode_new [of q now k s] assms(2,3) Begin that by simp
next
  case (End k x now now')
  then show ?thesis using ids_eq_mem [OF end_episode_ids] assms(2,3) by blast
next
  case (Abandon now)
  then show ?thesis using ids_eq_mem [OF abandon_ids] assms(2,3) by (auto simp: mark_abandoned_def)
next
  case Return
  then show ?thesis using assms(2,3) by (auto simp: return_run_def split: option.splits)
qed (use assms(2,3) in auto)

text \<open>
  C21: A completed task never runs again. The run has a task list that names no task twice and identifiers
  that no earlier attempt has (run_start); earlier runs may have left the store in any consistent state. Whenever a step of the
  run adds an attempt to the store, the attempt is for a task of the run's list that has no succeeded or
  failed attempt in the experiment, and its sequence number exceeds those of all earlier attempts of that task.
\<close>

theorem completed_task_never_reruns:
  assumes "run_start shuffle c run st0" "runner_steps E shuffle c run (new_runner st0 stopped) s"
    and "runner_step E shuffle c run s s'"
    and "r \<in> set (attempts (rn_store s'))" "ar_attempt_id r \<notin> ar_attempt_id ` set (attempts (rn_store s))"
  shows "ar_experiment_id r = rc_experiment_id c \<and> task_key r \<in> et_key ` set (rc_task_list c)
    \<and> task_key r \<notin> set (completed_tasks (rc_experiment_id c) (rn_store s))
    \<and> (\<forall>q \<in> set (attempts (rn_store s)). ar_experiment_id q = rc_experiment_id c \<longrightarrow> task_key q = task_key r \<longrightarrow>
         ar_attempt_seq q < ar_attempt_seq r)"
proof -
  have inv: "runner_inv False c run st0 s" using runner_steps_inv [OF assms(2,1)] by simp
  have inv': "runner_inv False c run st0 s'" using runner_step_inv [OF assms(1,3) inv] by simp
  obtain k where k: "rn_main s = InFlight" "k < length (rn_jobs s)" "jb_phase (rn_jobs s ! k) = Waiting"
    "ar_attempt_id r = ar_attempt_id (jb_attempt (rn_jobs s ! k))" "rn_main s' = InFlight"
    "map jb_attempt (rn_jobs s') = map jb_attempt (rn_jobs s)"
    using new_attempt_begins [OF assms(3-5)] by blast
  let ?a = "jb_attempt (rn_jobs s ! k)" and ?rs = "map jb_attempt (rn_jobs s)"
  have ri: "run_inv False c run st0 s" and ri': "run_inv False c run st0 s'"
    using run_inv_InFlight [OF inv k(1)] run_inv_InFlight [OF inv' k(5)] by auto
  have plan: "plan_ok c run st0 ?rs" and sto: "store_ok st0 ?rs (rn_store s')" and sto0: "store_ok st0 ?rs (rn_store s)"
    using ri ri' k(6) by (auto simp: run_inv_def)
  have am: "?a \<in> set ?rs" using k(2) by simp
  have "r \<notin> set (attempts st0)" using assms(5) sto0 by (auto simp: store_ok_def)
  then obtain r' where r': "r' \<in> set ?rs" "same_attempt r' r" using sto assms(4) unfolding store_ok_def by blast
  have "distinct (map ar_attempt_id ?rs)" using plan by (simp add: plan_ok_def)
  then have "r' = ?a" using distinct_key_eq [OF _ r'(1) am] r'(2) k(4) by (metis same_attempt_id)
  then have same: "task_key r = task_key ?a" "ar_experiment_id r = ar_experiment_id ?a" "ar_attempt_seq r = ar_attempt_seq ?a"
    using r'(2) by (auto simp: same_attempt_def attempt_key_def task_key_def)
  have base: "q \<in> set (attempts st0)" if "q \<in> set (attempts (rn_store s))" "task_key q = task_key r" for q
    using run_inv_open_task [OF ri k(2,3) that(1)] that(2) same by simp
  have pa: "ar_experiment_id ?a = rc_experiment_id c" "task_key ?a \<in> et_key ` set (rc_task_list c)"
    "task_key ?a \<notin> set (completed_tasks (rc_experiment_id c) st0)"
    "\<forall>q \<in> set (attempts st0). ar_experiment_id q = rc_experiment_id c \<longrightarrow> task_key q = task_key ?a \<longrightarrow>
       ar_attempt_seq q < ar_attempt_seq ?a"
    using plan am unfolding plan_ok_def by blast+
  have "task_key r \<notin> set (completed_tasks (rc_experiment_id c) (rn_store s))"
    using base pa(3) same(1) by (auto simp: completed_tasks_iff)
  then show ?thesis using base pa same by auto
qed

text \<open>
  Within a run never more episodes execute than the configured concurrency, and no two that
  execute at the same time share a task identifier, so that their task databases, named after it,
  never meet.
\<close>

theorem executing_episodes_isolated:
  assumes "run_start shuffle c run st0" "runner_steps E shuffle c run (new_runner st0 stopped) s" "rn_main s = InFlight"
  shows "length (executing s) \<le> rc_concurrency c
    \<and> distinct (map (ar_task_id \<circ> jb_attempt) (executing s))"
proof
  have "runner_inv False c run st0 s" using runner_steps_inv [OF assms(2,1)] by simp
  then have ri: "run_inv False c run st0 s" using assms(3) by (rule run_inv_InFlight)
  show le: "length (executing s) \<le> rc_concurrency c" using ri by (simp add: run_inv_def)
  have plan: "plan_ok c run st0 (map jb_attempt (rn_jobs s))" using ri by (simp add: run_inv_def)
  have cfg: "valid_runner_config c" using assms(1) by (simp add: run_start_def)
  show "distinct (map (ar_task_id \<circ> jb_attempt) (executing s))"
  proof (cases "1 < rc_concurrency c")
    case False
    then have "length (executing s) \<le> 1" using le by simp
    then show ?thesis by (cases "executing s") auto
  next
    case True
    have dk: "distinct (map (task_key \<circ> jb_attempt) (executing s))"
      using plan by (auto simp: plan_ok_def executing_def intro: distinct_map_filter)
    have one: "task_key a = task_key b" if ab: "a \<in> set (map jb_attempt (rn_jobs s))" "b \<in> set (map jb_attempt (rn_jobs s))"
      "ar_task_id a = ar_task_id b" for a b
    proof -
      obtain t u where tu: "t \<in> set (rc_task_list c)" "task_key a = et_key t" "u \<in> set (rc_task_list c)" "task_key b = et_key u"
        using plan ab(1,2) unfolding plan_ok_def by blast
      have eq: "et_task_id t = et_task_id u" using tu(2,4) ab(3) by (simp add: task_key_def et_key_def)
      have "\<not> both_modes (rc_task_list c)" using cfg True by (simp add: valid_runner_config_def)
      then have "et_mode t = et_mode u" using tu(1,3) eq unfolding both_modes_def list_ex_iff by blast
      then show ?thesis using tu(2,4) eq by (simp add: et_key_def)
    qed
    show ?thesis
      unfolding distinct_map
    proof
      show "distinct (executing s)" using dk by (simp add: distinct_map)
      show "inj_on (ar_task_id \<circ> jb_attempt) (set (executing s))"
      proof (rule inj_onI)
        fix x y assume x: "x \<in> set (executing s)" "y \<in> set (executing s)" "(ar_task_id \<circ> jb_attempt) x = (ar_task_id \<circ> jb_attempt) y"
        have "x \<in> set (rn_jobs s)" "y \<in> set (rn_jobs s)" using x by (auto simp: executing_def)
        then have "task_key (jb_attempt x) = task_key (jb_attempt y)" using one x(3) by simp
        then show "x = y" using distinct_key_eq [OF dk x(1,2)] by simp
      qed
    qed
  qed
qed
subsection \<open>The end of a run\<close>

lemma lost_ended: "\<not> unfinished_job j \<Longrightarrow> (\<And>e. jb_phase j \<noteq> Crashed e) \<Longrightarrow> lost j = 0"
  by (cases "jb_phase j") (auto simp: lost_def unfinished_job_def)

lemma first_failure_None: "first_failure js = None \<longleftrightarrow> (\<forall>j \<in> set js. \<forall>e. jb_phase j \<noteq> Crashed e)"
  by (induction js) (auto split: job_phase.splits)

text \<open>
  C22: A run that returns has accounted for its attempts. Its summary counts exactly the attempts it
  added to the store, the counts per status add up to it, every attempt of the run has ended
  (succeeded, failed, infrastructure error or interrupted, also when the run was stopped half-way),
  and the numbers of completed and unfinished tasks are those of the store. It needs executors whose
  outcomes the store accepts; such a run never ends with a runner failure.
\<close>

theorem returned_run_accounts:
  assumes "run_start shuffle c run st0" "runner_steps E shuffle c run (new_runner st0 stopped) s"
    and "rn_main s = Returned m" "well_behaved E"
  shows "sm_attempted_episodes m + length (attempts st0) = length (attempts (rn_store s))
    \<and> (\<forall>q \<in> set (attempts (rn_store s)). ar_run_id q = run \<longrightarrow> settled (ar_status q))
    \<and> sm_completed_tasks m = length (completed_tasks (rc_experiment_id c) (rn_store s))
    \<and> sm_attempted_episodes m = sum_list (map (sm_status_counts m) all_statuses)"
proof -
  have "runner_inv True c run st0 s" using runner_steps_inv [OF assms(2,1)] assms(4) by simp
  then have ri: "run_inv True c run st0 s" and d: "\<not> list_ex unfinished_job (rn_jobs s)"
    and nf: "first_failure (rn_jobs s) = None" and m: "m = summary_of (rc_experiment_id c) s"
    using assms(3) by (auto simp: runner_inv_def)
  have sto: "store_ok st0 (map jb_attempt (rn_jobs s)) (rn_store s)" using ri by (simp add: run_inv_def)
  have "lost j = 0" if "j \<in> set (rn_jobs s)" for j
    using that d nf lost_ended by (auto simp: list_ex_iff first_failure_None)
  then have "map lost (rn_jobs s) = map (\<lambda>_. 0) (rn_jobs s)" by simp
  then have z: "sum_list (map lost (rn_jobs s)) = 0" by simp
  have "settled (ar_status q)" if q: "q \<in> set (attempts (rn_store s))" "ar_run_id q = run" for q
  proof -
    have "q \<notin> set (attempts st0)" using assms(1) q(2) by (auto simp: run_start_def)
    then obtain j where j: "j \<in> set (rn_jobs s)" "same_attempt (jb_attempt j) q"
      using sto q(1) by (auto simp: store_ok_def)
    have "attempt_of (ar_attempt_id q) (rn_store s) = Some q" using sto q(1) by (simp add: store_ok_def eval_inv_id)
    then have a: "attempt_of (ar_attempt_id (jb_attempt j)) (rn_store s) = Some q"
      using j(2) by (simp add: same_attempt_def)
    have "job_ok True (rn_store s) j" using ri j(1) by (simp add: run_inv_def)
    moreover have "\<not> unfinished_job j" "\<forall>e. jb_phase j \<noteq> Crashed e"
      using d nf j(1) by (auto simp: list_ex_iff first_failure_None)
    ultimately show ?thesis using a by (cases "jb_phase j") (auto simp: job_ok_def Let_def unfinished_job_def)
  qed
  then show ?thesis using ri z by (auto simp: m summary_of_def run_inv_def total_count_def)
qed

subsection \<open>A run ends\<close>

definition weight :: "job \<Rightarrow> nat" where
  "weight j = (case jb_phase j of Waiting \<Rightarrow> 2 | Executing \<Rightarrow> 1 | _ \<Rightarrow> 0)"

definition rank :: "runner_config \<Rightarrow> runner \<Rightarrow> nat" where
  "rank c s = (case rn_main s of
       Created \<Rightarrow> 2 * length (rc_task_list c) + 3
     | InFlight \<Rightarrow> sum_list (map weight (rn_jobs s)) + (if rn_stopped s then 1 else 2)
     | _ \<Rightarrow> 0)"

lemma weight_set_phase:
  "k < length (rn_jobs s) \<Longrightarrow> sum_list (map weight (rn_jobs (set_phase k p s))) + weight (rn_jobs s ! k)
     = sum_list (map weight (rn_jobs s)) + weight ((rn_jobs s ! k)\<lparr>jb_phase := p\<rparr>)"
  using indicator_update [of k "rn_jobs s" weight] by (simp add: set_phase_def)

lemma set_phase_jobs: "rn_jobs s1 = rn_jobs s \<Longrightarrow> rn_jobs (set_phase k p s1) = rn_jobs (set_phase k p s)"
  by (simp add: set_phase_def)

lemma begin_episode_phase:
  "\<exists>p. p \<noteq> Waiting \<and> rn_jobs (begin_episode now k s) = rn_jobs (set_phase k p s)"
proof (cases "rn_stopped s")
  case True
  then show ?thesis by (intro exI [of _ Ended]) (simp add: begin_episode_def)
next
  case False
  obtain y st where r: "register_attempt (jb_attempt (rn_jobs s ! k)) (rn_store s) = (y, st)" by (rule prod.exhaust)
  show ?thesis
  proof (cases y)
    case (Inl e)
    then show ?thesis using False r by (intro exI [of _ "Crashed e"]) (simp add: begin_episode_def Let_def set_phase_def)
  next
    case (Inr u)
    obtain z st' where m: "mark_running (ar_attempt_id (jb_attempt (rn_jobs s ! k))) Pending st = (z, st')" by (rule prod.exhaust)
    show ?thesis using False r Inr m
      by (cases z) (auto simp: begin_episode_def Let_def set_phase_def intro: exI [of _ "Crashed a" for a] exI [of _ Executing])
  qed
qed

lemma end_episode_phase:
  "\<exists>p. p \<noteq> Waiting \<and> p \<noteq> Executing \<and> rn_jobs (end_episode now now' x k s) = rn_jobs (set_phase k p s)"
proof -
  have s: "\<exists>p. p \<noteq> Waiting \<and> p \<noteq> Executing \<and> rn_jobs (settle_episode now now' o1 k s) = rn_jobs (set_phase k p s)" for o1
  proof -
    obtain y st where f: "finish_attempt (ar_attempt_id (jb_attempt (rn_jobs s ! k))) (eo_status o1) (eo_error_class o1)
        (eo_telemetry o1) (eo_result o1) now (rn_store s) = (y, st)" by (rule prod.exhaust)
    show ?thesis
      by (cases y) (auto simp: settle_episode_def Let_def f set_phase_def intro: exI [of _ "Crashed a" for a] exI [of _ Ended])
  qed
  show ?thesis using s by (cases x) (auto simp: end_episode_def intro: exI [of _ "Crashed a" for a])
qed

lemma abandon_job_phase: "rn_jobs (abandon_job now k s) =
    (if unfinished_job (rn_jobs s ! k) then rn_jobs (set_phase k Cancelled s) else rn_jobs s)"
  by (auto simp: abandon_job_def Let_def set_phase_def split: prod.split sum.split)

lemma fold_abandon_done:
  "\<forall>k \<in> set ks. k < length (rn_jobs s) \<Longrightarrow> l < length (rn_jobs s) \<Longrightarrow>
     rn_jobs (fold (abandon_job now) ks s) ! l =
       (if l \<in> set ks \<and> unfinished_job (rn_jobs s ! l) then (rn_jobs s ! l)\<lparr>jb_phase := Cancelled\<rparr> else rn_jobs s ! l)"
proof (induction ks arbitrary: s)
  case (Cons k ks)
  have "rn_jobs (abandon_job now k s) ! l =
      (if l = k \<and> unfinished_job (rn_jobs s ! l) then (rn_jobs s ! l)\<lparr>jb_phase := Cancelled\<rparr> else rn_jobs s ! l)"
    using Cons.prems by (auto simp: abandon_job_phase set_phase_nth)
  then show ?case using Cons.IH [of "abandon_job now k s"] Cons.prems by (auto simp: unfinished_job_def)
qed simp

lemma weight_cancelled: "weight (j\<lparr>jb_phase := Cancelled\<rparr>) = 0" "\<not> unfinished_job j \<Longrightarrow> weight j = 0"
  "unfinished_job j \<Longrightarrow> 1 \<le> weight j"
  by (cases "jb_phase j"; auto simp: weight_def unfinished_job_def)+

lemma mark_abandoned_weight:
  "sum_list (map weight (rn_jobs (mark_abandoned now s))) = 0" "rn_main (mark_abandoned now s) = rn_main s"
  "rn_stopped (mark_abandoned now s) = rn_stopped s"
proof -
  have fr: "length (rn_jobs (fold (abandon_job now) ks s)) = length (rn_jobs s)
      \<and> rn_main (fold (abandon_job now) ks s) = rn_main s \<and> rn_stopped (fold (abandon_job now) ks s) = rn_stopped s" for ks
    by (induction ks arbitrary: s) auto
  show "rn_main (mark_abandoned now s) = rn_main s" "rn_stopped (mark_abandoned now s) = rn_stopped s"
    using fr by (simp_all add: mark_abandoned_def)
  have "\<forall>j \<in> set (rn_jobs (mark_abandoned now s)). weight j = 0"
    using fold_abandon_done [of "[0..<length (rn_jobs s)]" s _ now] fr [of "[0..<length (rn_jobs s)]"]
    by (auto simp: mark_abandoned_def in_set_conv_nth weight_cancelled)
  then show "sum_list (map weight (rn_jobs (mark_abandoned now s))) = 0" by simp
qed

lemma launch_weight: "sum_list (map weight (launch run eid next ts)) = 2 * length ts"
  by (induction run eid "next" ts rule: launch.induct) (simp_all add: weight_def del: fun_upd_apply)

lemma rank_decreases:
  assumes "runner_step E shuffle c run s s'" "permutes_tasks shuffle"
  shows "rank c s' < rank c s"
  using assms(1)
proof cases
  case (Start fresh)
  have "sum_list (map weight (launch run e n (zip (ordered_queue shuffle c d) fresh))) \<le> 2 * length (rc_task_list c)" for e n d
    using ordered_queue_facts(3) [OF assms(2), of c d] by (simp add: launch_weight)
  then show ?thesis using Start by (auto simp: rank_def start_run_def Let_def le_imp_less_Suc split: prod.split sum.split)
next
  case (Begin k now)
  obtain p where p: "p \<noteq> Waiting" "rn_jobs (begin_episode now k s) = rn_jobs (set_phase k p s)"
    using begin_episode_phase by blast
  have "weight (rn_jobs s ! k) = 2" "weight ((rn_jobs s ! k)\<lparr>jb_phase := p\<rparr>) < 2"
    using Begin(4) p(1) by (cases p; simp add: weight_def)+
  moreover have "rn_stopped (begin_episode now k s) = rn_stopped s"
    by (auto simp: begin_episode_def Let_def split: prod.split sum.split)
  ultimately show ?thesis using weight_set_phase [OF Begin(3), of p] p(2) Begin(1,2) by (auto simp: rank_def)
next
  case (End k x now now')
  obtain p where p: "p \<noteq> Waiting" "p \<noteq> Executing" "rn_jobs (end_episode now now' x k s) = rn_jobs (set_phase k p s)"
    using end_episode_phase by blast
  have "weight (rn_jobs s ! k) = 1" "weight ((rn_jobs s ! k)\<lparr>jb_phase := p\<rparr>) = 0"
    using End(4) p(1,2) by (cases p; simp add: weight_def)+
  moreover have "rn_stopped (end_episode now now' x k s) = rn_stopped s"
    by (auto simp: end_episode_def settle_episode_def Let_def split: prod.split sum.split exec_result.split)
  ultimately show ?thesis using weight_set_phase [OF End(3), of p] p(3) End(1,2) by (auto simp: rank_def)
next
  case (Abandon now)
  then obtain j where j: "j \<in> set (rn_jobs s)" "unfinished_job j" by (auto simp: list_ex_iff)
  then have "1 \<le> sum_list (map weight (rn_jobs s))"
    using weight_cancelled(3) [OF j(2)] member_le_sum_list [of "weight j" "map weight (rn_jobs s)"] by simp
  then show ?thesis using Abandon(1-3) by (simp add: rank_def mark_abandoned_weight)
qed (auto simp: rank_def return_run_def split: option.split)

lemma rank_steps: "(runner_step E shuffle c run ^^ n) s s' \<Longrightarrow> permutes_tasks shuffle \<Longrightarrow> n + rank c s' \<le> rank c s"
proof (induction n arbitrary: s')
  case (Suc n)
  then obtain t where "(runner_step E shuffle c run ^^ n) s t" "runner_step E shuffle c run t s'" by auto
  then show ?case using Suc.IH Suc.prems(2) rank_decreases by fastforce
qed simp

text \<open>A run in flight that nobody stops goes on by its own episodes, each of which has a slot to wait for.\<close>

lemma unstopped_step:
  assumes m: "rn_main s = InFlight" and s: "\<not> rn_stopped s" and c: "1 \<le> rc_concurrency c" and e: "E ExecRaised"
  obtains s' where "runner_step E shuffle c run s s'" "\<not> rn_stopped s'" "rn_main s' \<noteq> Created"
proof (cases "\<exists>k < length (rn_jobs s). jb_phase (rn_jobs s ! k) = Executing")
  case True
  then obtain k where k: "k < length (rn_jobs s)" "jb_phase (rn_jobs s ! k) = Executing" by blast
  have "rn_stopped (end_episode t t' ExecRaised k s) = rn_stopped s \<and> rn_main (end_episode t t' ExecRaised k s) = rn_main s" for t t'
    by (auto simp: end_episode_def settle_episode_def Let_def split: prod.split sum.split)
  then show ?thesis using that [OF runner_step.End [where E = E and x = ExecRaised, OF m k e]] m s by simp
next
  case False
  then have ex: "executing s = []" by (auto simp: executing_def filter_empty_conv in_set_conv_nth)
  show ?thesis
  proof (cases "\<exists>k < length (rn_jobs s). jb_phase (rn_jobs s ! k) = Waiting")
    case True
    then obtain k where k: "k < length (rn_jobs s)" "jb_phase (rn_jobs s ! k) = Waiting" by blast
    have slot: "length (executing s) < rc_concurrency c" using ex c by simp
    have "rn_stopped (begin_episode t k s) = rn_stopped s \<and> rn_main (begin_episode t k s) = rn_main s" for t
      by (auto simp: begin_episode_def Let_def split: prod.split sum.split)
    then show ?thesis using that [OF runner_step.Begin [OF m k slot]] m s by simp
  next
    case nw: False
    then have u: "\<not> list_ex unfinished_job (rn_jobs s)"
      using False by (auto simp: list_ex_iff unfinished_job_def in_set_conv_nth)
    have "rn_stopped (return_run i s) = rn_stopped s \<and> rn_main (return_run i s) \<noteq> Created" for i
      using m by (auto simp: return_run_def split: option.split)
    then show ?thesis using that [OF runner_step.Return [OF m u]] s by simp
  qed
qed

lemma unstopped_completes:
  assumes "rn_main s = InFlight" "\<not> rn_stopped s" "1 \<le> rc_concurrency c" "E ExecRaised" "permutes_tasks shuffle"
  shows "\<exists>s'. runner_steps E shuffle c run s s' \<and> \<not> rn_stopped s'
    \<and> ((\<exists>m. rn_main s' = Returned m) \<or> (\<exists>e. rn_main s' = Raised e))"
  using assms(1,2)
proof (induction "rank c s" arbitrary: s rule: less_induct)
  case less
  obtain t where t: "runner_step E shuffle c run s t" "\<not> rn_stopped t" "rn_main t \<noteq> Created"
    using unstopped_step [where E = E, OF less.prems assms(3,4)] .
  show ?case
  proof (cases "rn_main t = InFlight")
    case True
    then obtain s' where "runner_steps E shuffle c run t s'" "\<not> rn_stopped s'"
      "(\<exists>m. rn_main s' = Returned m) \<or> (\<exists>e. rn_main s' = Raised e)"
      using less.hyps [OF rank_decreases [OF t(1) assms(5)] True t(2)] by blast
    then show ?thesis using converse_rtranclp_into_rtranclp [of "runner_step E shuffle c run", OF t(1)] by blast
  next
    case False
    then have "(\<exists>m. rn_main t = Returned m) \<or> (\<exists>e. rn_main t = Raised e)" using t(3) by (cases "rn_main t") auto
    then show ?thesis using r_into_rtranclp [of "runner_step E shuffle c run", OF t(1)] t(2) by blast
  qed
qed

text \<open>
  C23: A run always ends. A run over n tasks takes at most 2 n + 3 steps altogether: every episode begins and
  ends at most once, the stop event and the abandoning included. And a run in flight that is not told to stop
  can reach its end by itself, without the stop event and without abandoning an episode: its episodes never
  block one another on the concurrency limit. Of the executor it is only assumed that a call can end, at least
  by raising.
\<close>

theorem run_terminates:
  assumes "run_start shuffle c run st0" "(runner_step E shuffle c run ^^ n) (new_runner st0 stopped) s" "E ExecRaised"
  shows "n \<le> 2 * length (rc_task_list c) + 3
    \<and> (rn_main s = InFlight \<and> \<not> rn_stopped s \<longrightarrow>
         (\<exists>s'. runner_steps E shuffle c run s s' \<and> \<not> rn_stopped s'
            \<and> ((\<exists>m. rn_main s' = Returned m) \<or> (\<exists>e. rn_main s' = Raised e))))"
proof -
  have perm: "permutes_tasks shuffle" and conc: "1 \<le> rc_concurrency c"
    using assms(1) by (simp_all add: run_start_def valid_runner_config_def)
  have "n \<le> 2 * length (rc_task_list c) + 3"
    using rank_steps [OF assms(2) perm] by (simp add: rank_def new_runner_def)
  then show ?thesis using unstopped_completes [where E = E, OF _ _ conc assms(3) perm] by blast
qed

subsection \<open>A run\<close>

text \<open>One task, run from an empty store, whose executor raises.\<close>

definition sample_config :: runner_config where
  "sample_config = \<lparr>rc_experiment_id = ''e'', rc_purpose = ''pilot'', rc_config_hash = sample_hex,
     rc_task_list = [\<lparr>et_task_id = ''t'', et_mode = ModeA\<rparr>], rc_concurrency = 2, rc_stop_grace_seconds = 60,
     rc_task_order_seed = 0\<rparr>"

abbreviation "any_exec \<equiv> (\<lambda>x. x = ExecRaised)"
abbreviation "no_shuffle \<equiv> (\<lambda>_ ts. ts)"

definition run0 :: runner where "run0 = new_runner empty_eval_store False"
definition run1 :: runner where "run1 = start_run no_shuffle sample_config 9 [(1, Aware 0 0)] run0"
definition run2 :: runner where "run2 = begin_episode (Aware 1 0) 0 run1"
definition run3 :: runner where "run3 = end_episode (Aware 2 0) (Aware 3 0) ExecRaised 0 run2"
definition run4 :: runner where "run4 = return_run ''e'' run3"

lemma sample_run_start: "run_start no_shuffle sample_config 9 empty_eval_store"
proof -
  have "hex64 sample_hex" by code_simp
  then show ?thesis using eval_inv_empty
    by (simp add: run_start_def permutes_tasks_def valid_runner_config_def sample_config_def len_ok_def
        both_modes_def empty_eval_store_def)
qed

lemma run1_facts:
  "rn_main run1 = InFlight" "rn_jobs run1 = [\<lparr>jb_attempt = sample_attempt, jb_phase = Waiting\<rparr>]"
  "attempts (rn_store run1) = []" "rn_stopped run1 = False"
  by (simp_all add: run1_def run0_def new_runner_def start_run_def register_experiment_def empty_eval_store_def
      sample_config_def Let_def ordered_queue_def completed_tasks_def et_key_def next_sequence_def
      unfinished_attempts_def latest_attempts_def sample_attempt_def)

lemma run2_facts:
  "rn_main run2 = InFlight" "rn_jobs run2 = [\<lparr>jb_attempt = sample_attempt, jb_phase = Executing\<rparr>]"
  "attempts (rn_store run2) = [sample_attempt\<lparr>ar_status := Running\<rparr>]" "rn_stopped run2 = False"
  by (simp_all add: run2_def begin_episode_def run1_facts register_attempt_def attempt_of_def mark_running_def
      set_attempt_def set_phase_def Let_def sample_attempt_def)

lemma run3_facts:
  "rn_main run3 = InFlight" "rn_jobs run3 = [\<lparr>jb_attempt = sample_attempt, jb_phase = Ended\<rparr>]"
  by (simp_all add: run3_def end_episode_def settle_episode_def run2_facts finish_attempt_def attempt_of_def
      set_attempt_def set_phase_def Let_def sample_attempt_def infrastructure_outcome_def)

lemma sample_config_simps: "length (rc_task_list sample_config) = 1" "rc_concurrency sample_config = 2"
  "rc_experiment_id sample_config = ''e''"
  by (simp_all add: sample_config_def)

lemma sample_steps:
  "runner_step any_exec no_shuffle sample_config 9 run0 run1"
  "runner_step any_exec no_shuffle sample_config 9 run1 run2"
  "runner_step any_exec no_shuffle sample_config 9 run2 run3"
  "runner_step any_exec no_shuffle sample_config 9 run3 run4"
proof -
  show "runner_step any_exec no_shuffle sample_config 9 run0 run1"
    unfolding run1_def by (rule runner_step.Start) (simp_all add: run0_def new_runner_def empty_eval_store_def sample_config_simps)
  show "runner_step any_exec no_shuffle sample_config 9 run1 run2"
    unfolding run2_def by (rule runner_step.Begin) (simp_all add: run1_facts executing_def sample_config_simps)
  show "runner_step any_exec no_shuffle sample_config 9 run2 run3"
    unfolding run3_def by (rule runner_step.End) (simp_all add: run2_facts)
  show "runner_step any_exec no_shuffle sample_config 9 run3 run4"
    using runner_step.Return [of run3 any_exec no_shuffle sample_config 9]
    by (simp add: run3_facts unfinished_job_def run4_def sample_config_simps)
qed

lemma sample_reached:
  "runner_steps any_exec no_shuffle sample_config 9 (new_runner empty_eval_store False) run1"
  "runner_steps any_exec no_shuffle sample_config 9 (new_runner empty_eval_store False) run2"
  "runner_steps any_exec no_shuffle sample_config 9 (new_runner empty_eval_store False) run4"
  using sample_steps unfolding run0_def by (meson rtranclp.rtrancl_into_rtrancl rtranclp.rtrancl_refl)+

theorem completed_task_never_reruns_witness:
  "task_key sample_attempt \<notin> set (completed_tasks ''e'' (rn_store run1))"
proof -
  have "sample_attempt\<lparr>ar_status := Running\<rparr> \<in> set (attempts (rn_store run2))"
    "ar_attempt_id (sample_attempt\<lparr>ar_status := Running\<rparr>) \<notin> ar_attempt_id ` set (attempts (rn_store run1))"
    by (simp_all add: run1_facts run2_facts)
  from completed_task_never_reruns [OF sample_run_start sample_reached(1) sample_steps(2) this]
  show ?thesis by (simp add: task_key_def sample_config_simps)
qed

theorem executing_episodes_isolated_witness: "length (executing run2) \<le> 2"
  using executing_episodes_isolated [OF sample_run_start sample_reached(2) run2_facts(1)]
  by (simp add: sample_config_simps)

lemma run4_returned: "rn_main run4 = Returned (summary_of ''e'' run3)"
  by (simp add: run4_def return_run_def run3_facts)

theorem returned_run_accounts_witness:
  "sm_attempted_episodes (summary_of ''e'' run3) = length (attempts (rn_store run4))"
proof -
  have "well_behaved any_exec" by (simp add: well_behaved_def)
  from returned_run_accounts [OF sample_run_start sample_reached(3) run4_returned this]
  show ?thesis by (simp add: empty_eval_store_def)
qed

theorem run_terminates_witness:
  "\<exists>s'. runner_steps any_exec no_shuffle sample_config 9 run1 s' \<and> \<not> rn_stopped s'
     \<and> ((\<exists>m. rn_main s' = Returned m) \<or> (\<exists>e. rn_main s' = Raised e))"
proof -
  have "(runner_step any_exec no_shuffle sample_config 9 ^^ 1) (new_runner empty_eval_store False) run1"
    unfolding relpowp_1 run0_def [symmetric] by (rule sample_steps(1))
  from run_terminates [OF sample_run_start this] show ?thesis by (simp add: run1_facts)
qed

end
