(* ===== verification/Retail_Contracts.thy ===== *)
theory Retail_Contracts
  imports Context_Contracts Op_Contracts
begin

text \<open>
  \<open>orchestration/contracts.py\<close>: the closed contracts of the three orchestration tracks. Each class is a
  record with the predicate of its field constraints and its validator; a literal or an enumeration is a
  datatype or a string from a fixed set. A timestamp of the input may be naive, which the time range refuses.
\<close>

subsection \<open>Stops\<close>

datatype stop_kind = BudgetExhausted | NoProgress | UnsafeStop | InsufficientData | StopCompleted | InfrastructureStop

record stop_outcome =
  so_kind :: stop_kind
  so_reason_code :: string
  so_evidence_digest :: "string option"
  so_retryable :: bool

definition opt_all :: "('a \<Rightarrow> bool) \<Rightarrow> 'a option \<Rightarrow> bool" where
  "opt_all P x = (case x of None \<Rightarrow> True | Some y \<Rightarrow> P y)"

definition valid_stop_outcome :: "stop_outcome \<Rightarrow> bool" where
  "valid_stop_outcome s \<longleftrightarrow> reason_code_ok (so_reason_code s) \<and> opt_all hex64 (so_evidence_digest s)"

subsection \<open>The request\<close>

record retail_run_request =
  rq_run_scope :: run_scope
  rq_attempt_id :: uuid
  rq_current_input :: context_datum
  rq_confirmed_facts :: "context_datum list"
  rq_evidence :: "context_datum list"
  rq_latest_error :: "typed_error_datum option"

text \<open>The three request classes have the same fields; each fixes its track and mode.\<close>

definition valid_request_for :: "string \<times> string \<Rightarrow> (bytes \<Rightarrow> string) \<Rightarrow> retail_run_request \<Rightarrow> bool" where
  "valid_request_for track_mode sha q \<longleftrightarrow>
     valid_run_scope (rq_run_scope q) \<and> (rs_track (rq_run_scope q), rs_mode (rq_run_scope q)) = track_mode
     \<and> valid_context_datum sha (rq_current_input q) \<and> list_all (valid_context_datum sha) (rq_confirmed_facts q)
     \<and> list_all (valid_context_datum sha) (rq_evidence q) \<and> opt_all (valid_typed_error_datum sha) (rq_latest_error q)"

definition valid_retail_run_request :: "(bytes \<Rightarrow> string) \<Rightarrow> retail_run_request \<Rightarrow> bool" where
  "valid_retail_run_request = valid_request_for (''retail'', ''retail'')"

subsection \<open>Clarifications\<close>

datatype clarification_slot =
    GmvMetricDefinition | ValidOrderStatuses | TimeField | TimeRange | AnalysisGrain | MinimumOrderCount
  | AnomalyThreshold | BusinessValue

record clarification_item =
  ci_slot :: clarification_slot
  ci_question :: string
  ci_allowed_values :: "string list"

definition valid_clarification_item :: "clarification_item \<Rightarrow> bool" where
  "valid_clarification_item i \<longleftrightarrow>
     len_ok 1 1000 (ci_question i) \<and> length (ci_allowed_values i) \<le> 32 \<and> distinct (ci_allowed_values i)"

record clarification_request =
  cl_conversation_id :: string
  cl_request_id :: uuid
  cl_items :: "clarification_item list"

definition valid_clarification_request :: "clarification_request \<Rightarrow> bool" where
  "valid_clarification_request q \<longleftrightarrow>
     len_ok 1 128 (cl_conversation_id q) \<and> len_ok 1 8 (cl_items q) \<and> list_all valid_clarification_item (cl_items q)
     \<and> distinct (map ci_slot (cl_items q))"

subsection \<open>Investigation plans\<close>

record investigation_time_range =
  ir_started_at :: py_datetime
  ir_ended_at :: py_datetime

definition valid_investigation_time_range :: "investigation_time_range \<Rightarrow> bool" where
  "valid_investigation_time_range r \<longleftrightarrow>
     is_aware (ir_started_at r) \<and> is_aware (ir_ended_at r) \<and> to_instant (ir_started_at r) < to_instant (ir_ended_at r)"

record confirmed_investigation_facts =
  cf_gmv_metric_definition :: string
  cf_valid_order_statuses :: "string list"
  cf_time_field :: string
  cf_time_range :: investigation_time_range
  cf_analysis_grain :: string
  cf_minimum_order_count :: int
  cf_anomaly_threshold :: decimal
  cf_business_value_refs :: "string list"

definition valid_confirmed_investigation_facts :: "confirmed_investigation_facts \<Rightarrow> bool" where
  "valid_confirmed_investigation_facts f \<longleftrightarrow>
     cf_gmv_metric_definition f \<in> {''item_amount'', ''payment_amount''} \<and> len_ok 1 16 (cf_valid_order_statuses f)
     \<and> cf_time_field f \<in> {''order_purchase_timestamp'', ''order_approved_at'', ''order_delivered_customer_date''}
     \<and> valid_investigation_time_range (cf_time_range f) \<and> ident_ok is_lower code_char 1 63 (cf_analysis_grain f)
     \<and> 0 < cf_minimum_order_count f \<and> cf_minimum_order_count f \<le> 1000000000
     \<and> ratio6 (cf_anomaly_threshold f) \<and> length (cf_business_value_refs f) \<le> 32"

datatype plan_step_kind = Baseline | Drilldown

record query_plan_step =
  qs_step_id :: string
  qs_kind :: plan_step_kind
  qs_question :: string
  qs_measures :: "string list"
  qs_grains :: "string list"
  qs_evidence_refs :: "string list"
  qs_reconciliation_rule_refs :: "string list"

text \<open>\<open>^[a-z][a-z0-9_.-]{1,127}$\<close>.\<close>

definition step_id_ok :: "string \<Rightarrow> bool" where
  "step_id_ok s = ident_ok is_lower ref_char 1 127 s"

definition valid_query_plan_step :: "query_plan_step \<Rightarrow> bool" where
  "valid_query_plan_step s \<longleftrightarrow>
     step_id_ok (qs_step_id s) \<and> len_ok 1 1000 (qs_question s) \<and> len_ok 1 16 (qs_measures s) \<and> len_ok 1 8 (qs_grains s)
     \<and> len_ok 1 32 (qs_evidence_refs s) \<and> len_ok 1 16 (qs_reconciliation_rule_refs s)"

record investigation_plan =
  ip_conversation_id :: string
  ip_plan_id :: uuid
  ip_confirmed_facts :: confirmed_investigation_facts
  ip_steps :: "query_plan_step list"
  ip_evidence_refs :: "string list"
  ip_reconciliation_rule_refs :: "string list"
  ip_stop_conditions :: "string list"

definition valid_investigation_plan :: "investigation_plan \<Rightarrow> bool" where
  "valid_investigation_plan p \<longleftrightarrow>
     len_ok 1 128 (ip_conversation_id p) \<and> valid_confirmed_investigation_facts (ip_confirmed_facts p)
     \<and> len_ok 2 12 (ip_steps p) \<and> list_all valid_query_plan_step (ip_steps p) \<and> len_ok 1 64 (ip_evidence_refs p)
     \<and> len_ok 1 32 (ip_reconciliation_rule_refs p) \<and> len_ok 1 16 (ip_stop_conditions p)
     \<and> length (filter (\<lambda>s. qs_kind s = Baseline) (ip_steps p)) = 1
     \<and> list_ex (\<lambda>s. qs_kind s = Drilldown) (ip_steps p) \<and> distinct (map qs_step_id (ip_steps p))
     \<and> list_all (\<lambda>s. set (qs_evidence_refs s) \<subseteq> set (ip_evidence_refs p)) (ip_steps p)
     \<and> list_all (\<lambda>s. set (qs_reconciliation_rule_refs s) \<subseteq> set (ip_reconciliation_rule_refs p)) (ip_steps p)"

subsection \<open>Reports\<close>

text \<open>\<open>colon_char\<close> is the class \<open>[a-z0-9_.:-]\<close> of evidence identifiers.\<close>

definition colon_char :: "char \<Rightarrow> bool" where
  "colon_char c \<longleftrightarrow> ref_char c \<or> c = CHR '':''"

record investigation_evidence =
  iv_evidence_id :: string
  iv_kind :: string
  iv_summary :: string
  iv_digest :: string

definition valid_investigation_evidence :: "investigation_evidence \<Rightarrow> bool" where
  "valid_investigation_evidence e \<longleftrightarrow>
     ident_ok is_lower colon_char 2 255 (iv_evidence_id e)
     \<and> iv_kind e \<in> {''knowledge'', ''query'', ''reconciliation'', ''operation''}
     \<and> len_ok 1 2000 (iv_summary e) \<and> hex64 (iv_digest e)"

record investigation_claim =
  ic_claim_id :: string
  ic_text :: string
  ic_evidence_refs :: "string list"

definition valid_investigation_claim :: "investigation_claim \<Rightarrow> bool" where
  "valid_investigation_claim c \<longleftrightarrow>
     step_id_ok (ic_claim_id c) \<and> len_ok 1 2000 (ic_text c) \<and> len_ok 1 32 (ic_evidence_refs c)"

record investigation_limitation =
  il_code :: string
  il_summary :: string

definition valid_investigation_limitation :: "investigation_limitation \<Rightarrow> bool" where
  "valid_investigation_limitation l \<longleftrightarrow> reason_code_ok (il_code l) \<and> len_ok 1 1000 (il_summary l)"

record sensitivity_comparison =
  sc_all_sellers_evidence_ref :: string
  sc_selected_risk_evidence_ref :: string
  sc_summary :: string

definition valid_sensitivity_comparison :: "sensitivity_comparison \<Rightarrow> bool" where
  "valid_sensitivity_comparison s \<longleftrightarrow>
     len_ok 1 256 (sc_all_sellers_evidence_ref s) \<and> len_ok 1 256 (sc_selected_risk_evidence_ref s)
     \<and> len_ok 1 2000 (sc_summary s)"

record investigation_report =
  rp_conversation_id :: string
  rp_report_id :: uuid
  rp_claims :: "investigation_claim list"
  rp_available_evidence :: "investigation_evidence list"
  rp_limitations :: "investigation_limitation list"
  rp_reconciliation_refs :: "string list"
  rp_proposal_refs :: "proposal_ref list"
  rp_selected_risk_status :: "risk_disposition option"
  rp_sensitivity_comparison :: "sensitivity_comparison option"

definition valid_investigation_report :: "investigation_report \<Rightarrow> bool" where
  "valid_investigation_report r \<longleftrightarrow>
     (let evidence_ids = set (map iv_evidence_id (rp_available_evidence r)) in
     len_ok 1 128 (rp_conversation_id r) \<and> len_ok 1 32 (rp_claims r) \<and> list_all valid_investigation_claim (rp_claims r)
     \<and> len_ok 1 64 (rp_available_evidence r) \<and> list_all valid_investigation_evidence (rp_available_evidence r)
     \<and> length (rp_limitations r) \<le> 16 \<and> list_all valid_investigation_limitation (rp_limitations r)
     \<and> len_ok 1 32 (rp_reconciliation_refs r)
     \<and> length (rp_proposal_refs r) \<le> 8 \<and> list_all valid_proposal_ref (rp_proposal_refs r)
     \<and> opt_all valid_sensitivity_comparison (rp_sensitivity_comparison r)
     \<and> list_all (\<lambda>c. set (ic_evidence_refs c) \<subseteq> evidence_ids) (rp_claims r)
     \<and> set (rp_reconciliation_refs r) \<subseteq> evidence_ids
     \<and> (rp_selected_risk_status r \<noteq> None \<longrightarrow> rp_sensitivity_comparison r \<noteq> None)
     \<and> opt_all (\<lambda>s. {sc_all_sellers_evidence_ref s, sc_selected_risk_evidence_ref s} \<subseteq> evidence_ids)
         (rp_sensitivity_comparison r))"

subsection \<open>Outcomes\<close>

datatype retail_terminal = Clarification clarification_request | Report investigation_report

datatype retail_status = NeedsInput | RunCompleted | RunStopped

record graph_hashes =
  gh_prompt_policy_hash :: string
  gh_rendered_prompt_hash :: string
  gh_tool_hash :: string
  gh_context_hash :: string
  gh_config_hash :: string

definition valid_graph_hashes :: "graph_hashes \<Rightarrow> bool" where
  "valid_graph_hashes h \<longleftrightarrow> hex64 (gh_prompt_policy_hash h) \<and> hex64 (gh_rendered_prompt_hash h)
     \<and> hex64 (gh_tool_hash h) \<and> hex64 (gh_context_hash h) \<and> hex64 (gh_config_hash h)"

record retail_run_outcome =
  ro_status :: retail_status
  ro_terminal :: "retail_terminal option"
  ro_stop :: "stop_outcome option"
  ro_model_calls :: int
  ro_tool_calls :: int
  ro_hashes :: graph_hashes
  ro_attempt_id :: uuid

definition valid_retail_run_outcome :: "retail_run_outcome \<Rightarrow> bool" where
  "valid_retail_run_outcome r \<longleftrightarrow>
     opt_all valid_stop_outcome (ro_stop r) \<and> 0 \<le> ro_model_calls r \<and> 0 \<le> ro_tool_calls r \<and> valid_graph_hashes (ro_hashes r)
     \<and> (ro_status r = NeedsInput \<longrightarrow> (case ro_terminal r of Some (Clarification q) \<Rightarrow> True | _ \<Rightarrow> False))
     \<and> (ro_status r = RunCompleted \<longrightarrow> (case ro_terminal r of Some (Report p) \<Rightarrow> True | _ \<Rightarrow> False))
     \<and> (ro_status r = RunStopped \<longrightarrow> ro_stop r \<noteq> None \<and> ro_terminal r = None)
     \<and> (ro_status r \<noteq> RunStopped \<longrightarrow> ro_stop r = None)"

end
