(* ===== verification/Effects.thy ===== *)
theory Effects
  imports Prelude
begin

text \<open>
  Calls that can fail and that act on the outside world: a port takes the world and gives a result
  (\<open>Inl\<close> the raised exception) and the world after it. \<open>sbind\<close> sequences two calls,
  \<open>handling\<close> is \<open>except E as e: raise f(e)\<close>, \<open>ensuring\<close> is \<open>try ... finally\<close>: the clean-up runs
  after both outcomes and an exception of its own replaces the outcome.
\<close>

type_synonym ('w, 'e, 'a) action = "'w \<Rightarrow> ('e + 'a) \<times> 'w"

definition sreturn :: "'a \<Rightarrow> ('w, 'e, 'a) action" where
  "sreturn x w = (Inr x, w)"

definition sraise :: "'e \<Rightarrow> ('w, 'e, 'a) action" where
  "sraise e w = (Inl e, w)"

definition sresult :: "'e + 'a \<Rightarrow> ('w, 'e, 'a) action" where
  "sresult r w = (r, w)"

definition sbind :: "('w, 'e, 'a) action \<Rightarrow> ('a \<Rightarrow> ('w, 'e, 'b) action) \<Rightarrow> ('w, 'e, 'b) action" where
  "sbind m f w = (case m w of (Inl e, w') \<Rightarrow> (Inl e, w') | (Inr x, w') \<Rightarrow> f x w')"

definition handling :: "('e \<Rightarrow> 'f) \<Rightarrow> ('w, 'e, 'a) action \<Rightarrow> ('w, 'f, 'a) action" where
  "handling f m w = (case m w of (Inl e, w') \<Rightarrow> (Inl (f e), w') | (Inr x, w') \<Rightarrow> (Inr x, w'))"

definition ensuring :: "('w, 'e, 'a) action \<Rightarrow> ('w, 'e, unit) action \<Rightarrow> ('w, 'e, 'a) action" where
  "ensuring m cleanup w = (case m w of (r, w') \<Rightarrow>
     (case cleanup w' of (Inl e, w'') \<Rightarrow> (Inl e, w'') | (Inr _, w'') \<Rightarrow> (r, w'')))"

text \<open>\<open>for x in xs: await f(x)\<close>.\<close>

primrec each :: "('a \<Rightarrow> ('w, 'e, unit) action) \<Rightarrow> 'a list \<Rightarrow> ('w, 'e, unit) action" where
  "each f [] = sreturn ()"
| "each f (x # xs) = sbind (f x) (\<lambda>_. each f xs)"

lemma effect_simps [simp, result_simps]:
  "sreturn x w = (Inr x, w)" "sraise e w = (Inl e, w)" "sresult r w = (r, w)"
  by (simp_all add: sreturn_def sraise_def sresult_def)

lemma sbind_simps [simp, result_simps]:
  "m w = (Inl e, w') \<Longrightarrow> sbind m f w = (Inl e, w')"
  "m w = (Inr x, w') \<Longrightarrow> sbind m f w = f x w'"
  by (simp_all add: sbind_def)

lemma sbind_inline [simp, result_simps]:
  "sbind (sreturn x) f = f x" "sbind (sraise e) f = sraise e" "sbind (sresult (Inr x)) f = f x"
  "sbind (sresult (Inl e)) f = sraise e"
  by (rule ext, simp add: sbind_def)+

lemma sbind_Inr_iff:
  "sbind m f w = (Inr y, w'') \<longleftrightarrow> (\<exists>x w'. m w = (Inr x, w') \<and> f x w' = (Inr y, w''))"
  by (auto simp: sbind_def split: prod.splits sum.splits)

lemma sbind_Inl_iff:
  "sbind m f w = (Inl e, w'') \<longleftrightarrow> m w = (Inl e, w'') \<or> (\<exists>x w'. m w = (Inr x, w') \<and> f x w' = (Inl e, w''))"
  by (auto simp: sbind_def split: prod.splits sum.splits)

lemma handling_Inr_iff [simp]: "handling f m w = (Inr x, w') \<longleftrightarrow> m w = (Inr x, w')"
  by (auto simp: handling_def split: prod.splits sum.splits)

lemma handling_Inl_iff: "handling f m w = (Inl e, w') \<longleftrightarrow> (\<exists>d. m w = (Inl d, w') \<and> e = f d)"
  by (auto simp: handling_def split: prod.splits sum.splits)

lemma ensuring_Inr_iff:
  "ensuring m c w = (Inr x, w'') \<longleftrightarrow> (\<exists>w'. m w = (Inr x, w') \<and> c w' = (Inr (), w''))"
  by (auto simp: ensuring_def split: prod.splits sum.splits)

text \<open>An invariant of the world that both parts keep.\<close>

definition keeps :: "('w \<Rightarrow> bool) \<Rightarrow> ('w, 'e, 'a) action \<Rightarrow> bool" where
  "keeps I m \<longleftrightarrow> (\<forall>w. I w \<longrightarrow> I (snd (m w)))"

lemma keeps_intros [intro]:
  "keeps I (sreturn x)" "keeps I (sraise e)" "keeps I (sresult r)"
  by (simp_all add: keeps_def)

lemma keeps_sbind: "keeps I m \<Longrightarrow> (\<And>x. keeps I (f x)) \<Longrightarrow> keeps I (sbind m f)"
  by (auto simp: keeps_def sbind_def split: prod.splits sum.splits)

lemma keeps_each: "(\<And>x. keeps I (f x)) \<Longrightarrow> keeps I (each f xs)"
  by (induction xs) (auto intro!: keeps_sbind)

end
