(* ===== verification/Sql_Reasoning.thy ===== *)
theory Sql_Reasoning
  imports Effects Ast_Policy Context_Builder
begin

text \<open>
  \<open>sql_reasoning/contracts.py\<close> and \<open>sql_reasoning/reasoner.py\<close>: one constrained model call that submits a
  SQL candidate for a plan step, its fingerprints and the no-progress test. sqlglot is the record
  \<open>sql_printer\<close> over the expressions of \<open>Ast_Policy\<close>; the gateway is a port on the world; pydantic's typed
  reading of the tool arguments is \<open>sr_decode\<close>, whose result the field constraints then judge.
\<close>

subsection \<open>Exceptions of a run\<close>

datatype run_error =
    ToolContractError string
  | ToolInfrastructureError string
  | CheckpointIncompatible string
  | CheckpointInfrastructureError string
  | SqlReasoningContractError string
  | SqlNoProgress
  | ContextError builder_error
  | GatewayFailure gateway_error
  | ValidationError
  | OtherFailure string

subsection \<open>Contracts\<close>

record product_db_error =
  pe_source :: string
  pe_reason_code :: string
  pe_retryable :: bool
  pe_evidence_digest :: string

definition valid_product_db_error :: "product_db_error \<Rightarrow> bool" where
  "valid_product_db_error e \<longleftrightarrow> pe_source e \<in> {''postgres'', ''query_engine''} \<and> reason_code_ok (pe_reason_code e)
     \<and> hex64 (pe_evidence_digest e)"

record sql_fingerprint =
  fp_kind :: string
  fp_digest :: string
  fp_algorithm_version :: string
  fp_parser_version :: string

definition valid_sql_fingerprint :: "sql_fingerprint \<Rightarrow> bool" where
  "valid_sql_fingerprint f \<longleftrightarrow> fp_kind f \<in> {''structural'', ''execution''} \<and> hex64 (fp_digest f)
     \<and> fp_algorithm_version f = ''sql-fingerprint-v1'' \<and> len_ok 1 64 (fp_parser_version f)"

text \<open>\<open>^[a-z][a-z0-9_.-]{1,127}$\<close>.\<close>

definition candidate_step_ok :: "string \<Rightarrow> bool" where
  "candidate_step_ok s = ident_ok is_lower ref_char 1 127 s"

record sql_candidate =
  ca_sql :: string
  ca_step_id :: string
  ca_repair_number :: int
  ca_evidence_refs :: "string list"
  ca_structural_fingerprint :: sql_fingerprint
  ca_execution_fingerprint :: sql_fingerprint
  ca_usage :: usage
  ca_cost :: cost
  ca_attempts :: "model_attempt_summary list"

definition valid_sql_candidate :: "sql_candidate \<Rightarrow> bool" where
  "valid_sql_candidate c \<longleftrightarrow>
     len_ok 1 100000 (ca_sql c) \<and> candidate_step_ok (ca_step_id c)
     \<and> 0 \<le> ca_repair_number c \<and> ca_repair_number c \<le> 3 \<and> len_ok 1 32 (ca_evidence_refs c)
     \<and> valid_sql_fingerprint (ca_structural_fingerprint c) \<and> valid_sql_fingerprint (ca_execution_fingerprint c)
     \<and> valid_usage (ca_usage c) \<and> valid_cost (ca_cost c) \<and> len_ok 1 3 (ca_attempts c)
     \<and> list_all valid_model_attempt_summary (ca_attempts c)
     \<and> fp_kind (ca_structural_fingerprint c) = ''structural'' \<and> fp_kind (ca_execution_fingerprint c) = ''execution''
     \<and> distinct (ca_evidence_refs c)"

record sql_reasoning_request =
  sq_run_scope :: run_scope
  sq_attempt_id :: uuid
  sq_sequence :: int
  sq_step_id :: string
  sq_current_input :: context_datum
  sq_confirmed_facts :: "context_datum list"
  sq_evidence :: "context_datum list"
  sq_repair_number :: int
  sq_latest_error :: "product_db_error option"
  sq_previous :: "sql_candidate option"

text \<open>The constraints that are not those of a nested contract, and the validator of the repair state.\<close>

definition valid_sql_reasoning_request :: "sql_reasoning_request \<Rightarrow> bool" where
  "valid_sql_reasoning_request q \<longleftrightarrow>
     0 \<le> sq_sequence q \<and> candidate_step_ok (sq_step_id q) \<and> len_ok 1 64 (sq_evidence q)
     \<and> 0 \<le> sq_repair_number q \<and> sq_repair_number q \<le> 3
     \<and> (sq_latest_error q = None \<longrightarrow> sq_repair_number q = 0 \<and> sq_previous q = None)
     \<and> (sq_latest_error q \<noteq> None \<longrightarrow> sq_repair_number q \<noteq> 0 \<and> sq_previous q \<noteq> None)"

subsection \<open>Fingerprints\<close>

text \<open>
  \<open>sp_parse_one\<close> is \<open>parse_one(sql, read="postgres", error_level=RAISE)\<close>, \<open>sp_text\<close> is
  \<open>statement.sql(dialect="postgres", pretty=False, unsupported_level=RAISE)\<close>, \<open>sp_transform\<close> applies a
  function to every node of a copy.
\<close>

record sql_printer =
  sp_parse_one :: "string \<Rightarrow> sql_exception + node"
  sp_isinstance :: "node \<Rightarrow> string \<Rightarrow> bool"
  sp_find :: "node \<Rightarrow> string \<Rightarrow> node option"
  sp_text :: "node \<Rightarrow> sql_exception + string"
  sp_transform :: "(node \<Rightarrow> node) \<Rightarrow> node \<Rightarrow> node"
  sp_version :: string

definition fingerprint :: "sql_printer \<Rightarrow> (bytes \<Rightarrow> string) \<Rightarrow> string \<Rightarrow> string \<Rightarrow> sql_fingerprint" where
  "fingerprint S sha label sql =
     \<lparr>fp_kind = label, fp_digest = sha (utf8 sql), fp_algorithm_version = ''sql-fingerprint-v1'',
      fp_parser_version = sp_version S\<rparr>"

definition replace_literal :: "sql_printer \<Rightarrow> node \<Rightarrow> node" where
  "replace_literal S n =
     (if sp_isinstance S n ''Literal''
      then if truthy (get_arg n ''is_string'')
           then Node ''Literal'' [(''this'', AText ''__string_literal__''), (''is_string'', AFlag True)]
           else Node ''Literal'' [(''this'', AText ''0''), (''is_string'', AFlag False)]
      else if sp_isinstance S n ''Boolean'' then Node ''Boolean'' [(''this'', AFlag False)]
      else n)"

definition forbidden_intents :: "string list" where
  "forbidden_intents = [''Insert'', ''Update'', ''Delete'', ''Create'', ''Drop'', ''Alter'', ''Merge'', ''Command'']"

text \<open>
  \<open>except (ParseError, ValueError, TypeError)\<close>, by the name of the exception's class: ValueError has the Unicode errors
  as subclasses, TypeError has none in the standard library. Another exception of sqlglot escapes.
\<close>

definition parse_failure :: "sql_exception \<Rightarrow> run_error" where
  "parse_failure e = (case e of ParseError \<Rightarrow> SqlReasoningContractError ''sql_parse_failed''
     | OtherSqlError n \<Rightarrow> if n \<in> {''ValueError'', ''UnicodeError'', ''UnicodeDecodeError'', ''UnicodeEncodeError'', ''UnicodeTranslateError'',
                                   ''TypeError''} then SqlReasoningContractError ''sql_parse_failed''
                          else OtherFailure n)"

definition sql_result :: "sql_exception + 'a \<Rightarrow> run_error + 'a" where
  "sql_result r = (case r of Inl e \<Rightarrow> Inl (parse_failure e) | Inr x \<Rightarrow> Inr x)"

text \<open>A version string that the contract refuses raises a ValidationError, outside the try block.\<close>

definition fingerprints :: "sql_printer \<Rightarrow> (bytes \<Rightarrow> string) \<Rightarrow> string \<Rightarrow> run_error + (sql_fingerprint \<times> sql_fingerprint)" where
  "fingerprints S sha sql =
     rbind (sql_result (sp_parse_one S sql)) (\<lambda>statement.
     if \<not> sp_isinstance S statement ''Query'' then Inl (SqlReasoningContractError ''sql_readonly_required'')
     else if list_ex (\<lambda>k. sp_find S statement k \<noteq> None) forbidden_intents
     then Inl (SqlReasoningContractError ''sql_write_intent_forbidden'')
     else
       rbind (sql_result (sp_text S statement)) (\<lambda>execution.
       rbind (sql_result (sp_text S (sp_transform S (replace_literal S) statement))) (\<lambda>structural.
       let s = fingerprint S sha ''structural'' structural; e = fingerprint S sha ''execution'' execution
       in if valid_sql_fingerprint s \<and> valid_sql_fingerprint e then Inr (s, e) else Inl ValidationError)))"

subsection \<open>Generation\<close>

record submitted_sql =
  su_type :: string
  su_evidence_refs :: "string list"
  su_sql :: string
  su_step_id :: string

definition valid_submitted_sql :: "submitted_sql \<Rightarrow> bool" where
  "valid_submitted_sql s \<longleftrightarrow> su_type s = ''submit_sql_candidate'' \<and> len_ok 1 32 (su_evidence_refs s)
     \<and> len_ok 1 100000 (su_sql s) \<and> candidate_step_ok (su_step_id s)"

record 'w reasoner =
  sr_builder :: context_builder
  sr_profiles :: registry
  sr_complete :: "model_request \<Rightarrow> ('w, run_error, model_response) action"
  sr_decode :: "string \<Rightarrow> submitted_sql option"
  sr_printer :: sql_printer

definition parse_submission :: "'w reasoner \<Rightarrow> model_output \<Rightarrow> sql_reasoning_request \<Rightarrow> run_error + submitted_sql" where
  "parse_submission R out q = (case out of
       ToolCallOutput [call] \<Rightarrow>
         if tc_name call \<noteq> ''submit_sql_candidate'' then Inl (SqlReasoningContractError ''sql_candidate_tool_invalid'')
         else (case sr_decode R (tc_arguments_json call) of
             None \<Rightarrow> Inl (SqlReasoningContractError ''sql_candidate_payload_invalid'')
           | Some s \<Rightarrow>
               if \<not> valid_submitted_sql s then Inl (SqlReasoningContractError ''sql_candidate_payload_invalid'')
               else if su_step_id s \<noteq> sq_step_id q then Inl (SqlReasoningContractError ''sql_step_mismatch'')
               else if \<not> set (su_evidence_refs s) \<subseteq> set (map dt_source_ref (sq_evidence q))
               then Inl (SqlReasoningContractError ''sql_evidence_mismatch'')
               else Inr s)
     | _ \<Rightarrow> Inl (SqlReasoningContractError ''sql_candidate_output_invalid''))"

definition rejected_message :: string where
  "rejected_message = ''The Product database rejected the prior candidate.''"

text \<open>The typed error of a repair; building it validates it.\<close>

definition repair_error :: "(bytes \<Rightarrow> string) \<Rightarrow> product_db_error option \<Rightarrow> run_error + typed_error_datum option" where
  "repair_error sha last_error = (case last_error of
       None \<Rightarrow> Inr None
     | Some e \<Rightarrow>
         let d = \<lparr>te_error_type = ''ProductDbError'', te_reason_code = pe_reason_code e, te_retryable = pe_retryable e,
                  te_message = rejected_message, te_digest = sha (utf8 rejected_message)\<rparr>
         in if valid_typed_error_datum sha d then Inr (Some d) else Inl ValidationError)"

definition reasoning_context :: "run_profile \<Rightarrow> sql_reasoning_request \<Rightarrow> typed_error_datum option \<Rightarrow> context_request" where
  "reasoning_context p q last_error =
     \<lparr>cr_run_scope = sq_run_scope q, cr_attempt_id = sq_attempt_id q, cr_sequence = sq_sequence q, cr_profile = p,
      cr_step = (if sq_latest_error q \<noteq> None then RetailSqlRepair else RetailSqlGenerate),
      cr_current_input = sq_current_input q, cr_confirmed_facts = sq_confirmed_facts q, cr_evidence = sq_evidence q,
      cr_latest_error = last_error, cr_history = []\<rparr>"

definition candidate_of :: "sql_reasoning_request \<Rightarrow> submitted_sql \<Rightarrow> sql_fingerprint \<times> sql_fingerprint \<Rightarrow> model_response \<Rightarrow> sql_candidate" where
  "candidate_of q s fps resp =
     \<lparr>ca_sql = su_sql s, ca_step_id = su_step_id s, ca_repair_number = sq_repair_number q,
      ca_evidence_refs = su_evidence_refs s, ca_structural_fingerprint = fst fps, ca_execution_fingerprint = snd fps,
      ca_usage = ms_usage resp, ca_cost = ms_cost resp, ca_attempts = ms_attempts resp\<rparr>"

definition repeats :: "sql_candidate option \<Rightarrow> sql_candidate \<Rightarrow> bool" where
  "repeats previous c = (case previous of None \<Rightarrow> False
     | Some p \<Rightarrow> ca_execution_fingerprint p = ca_execution_fingerprint c \<and> ca_evidence_refs p = ca_evidence_refs c)"

text \<open>What is made of the response: an error, or the candidate.\<close>

definition accept_response :: "'w reasoner \<Rightarrow> sql_reasoning_request \<Rightarrow> model_response \<Rightarrow> run_error + sql_candidate" where
  "accept_response R q resp =
     rbind (parse_submission R (ms_output resp) q) (\<lambda>s.
     rbind (fingerprints (sr_printer R) (gx_sha (bu_externals (sr_builder R))) (su_sql s)) (\<lambda>fps.
     let c = candidate_of q s fps resp in
     if \<not> valid_sql_candidate c then Inl ValidationError
     else if repeats (sq_previous q) c then Inl SqlNoProgress
     else Inr c))"

definition generate :: "'w reasoner \<Rightarrow> sql_reasoning_request \<Rightarrow> ('w, run_error, sql_candidate) action" where
  "generate R q =
     sbind (sresult (repair_error (gx_sha (bu_externals (sr_builder R))) (sq_latest_error q))) (\<lambda>last_error.
     case profile_of (sr_profiles R) RetailKey of
       None \<Rightarrow> sraise (ContextError RevisionMismatch)
     | Some p \<Rightarrow>
         (case build_context (sr_builder R) (reasoning_context p q last_error) of
            Inl e \<Rightarrow> sraise (ContextError e)
          | Inr bundle \<Rightarrow>
              sbind (sr_complete R (pu_model_request bundle)) (\<lambda>resp. sresult (accept_response R q resp))))"

subsection \<open>What a candidate is\<close>

lemma parse_submission_Inr:
  "parse_submission R out q = Inr s \<Longrightarrow> valid_submitted_sql s \<and> su_step_id s = sq_step_id q
     \<and> set (su_evidence_refs s) \<subseteq> set (map dt_source_ref (sq_evidence q))"
  by (auto simp: parse_submission_def split: model_output.splits list.splits option.splits if_splits)

lemma fingerprints_Inr:
  assumes "fingerprints S sha sql = Inr fps"
  obtains statement where "sp_parse_one S sql = Inr statement" "sp_isinstance S statement ''Query''"
    "\<forall>k \<in> set forbidden_intents. sp_find S statement k = None"
  using assms by (auto simp: fingerprints_def sql_result_def rbind_Inr_iff list_ex_iff split: sum.splits if_splits)

text \<open>
  C37: a SQL candidate that SqlReasoner.generate returns answers the requested plan step, cites only evidence
  of the request and cites it once, comes from a statement that parses to a query without write intent,
  satisfies its contract, and is not the candidate the database has just rejected.
\<close>

theorem generated_candidate_sound:
  assumes "generate R q w = (Inr c, w')"
  shows "ca_step_id c = sq_step_id q \<and> ca_repair_number c = sq_repair_number q
    \<and> distinct (ca_evidence_refs c) \<and> set (ca_evidence_refs c) \<subseteq> set (map dt_source_ref (sq_evidence q))
    \<and> valid_sql_candidate c \<and> \<not> repeats (sq_previous q) c
    \<and> (\<exists>statement. sp_parse_one (sr_printer R) (ca_sql c) = Inr statement \<and> sp_isinstance (sr_printer R) statement ''Query''
          \<and> (\<forall>k \<in> set forbidden_intents. sp_find (sr_printer R) statement k = None))"
proof -
  obtain last_error where e: "repair_error (gx_sha (bu_externals (sr_builder R))) (sq_latest_error q) = Inr last_error"
    using assms by (auto simp: generate_def sbind_Inr_iff)
  obtain p where p: "profile_of (sr_profiles R) RetailKey = Some p"
    using assms e by (cases "profile_of (sr_profiles R) RetailKey") (auto simp: generate_def)
  obtain b where b: "build_context (sr_builder R) (reasoning_context p q last_error) = Inr b"
    using assms e p by (cases "build_context (sr_builder R) (reasoning_context p q last_error)") (auto simp: generate_def)
  obtain resp where "accept_response R q resp = Inr c"
    using assms by (auto simp: generate_def e p b sbind_Inr_iff)
  then obtain s fps where
    s: "parse_submission R (ms_output resp) q = Inr s" and
    f: "fingerprints (sr_printer R) (gx_sha (bu_externals (sr_builder R))) (su_sql s) = Inr fps" and
    c: "c = candidate_of q s fps resp" and v: "valid_sql_candidate c" "\<not> repeats (sq_previous q) c"
    unfolding accept_response_def rbind_Inr_iff Let_def by (auto split: if_splits)
  obtain statement where "sp_parse_one (sr_printer R) (su_sql s) = Inr statement"
    "sp_isinstance (sr_printer R) statement ''Query''" "\<forall>k \<in> set forbidden_intents. sp_find (sr_printer R) statement k = None"
    using fingerprints_Inr [OF f] .
  moreover have "distinct (ca_evidence_refs c)" using v(1) by (simp add: valid_sql_candidate_def)
  ultimately show ?thesis using parse_submission_Inr [OF s] v c by (auto simp: candidate_of_def)
qed

subsection \<open>A sample generation\<close>

definition sample_sql_request :: sql_reasoning_request where
  "sample_sql_request =
     \<lparr>sq_run_scope = cr_run_scope sample_context, sq_attempt_id = 2, sq_sequence = 1, sq_step_id = ''base'',
      sq_current_input = sample_datum, sq_confirmed_facts = [], sq_evidence = [sample_datum], sq_repair_number = 0,
      sq_latest_error = None, sq_previous = None\<rparr>"

definition sample_submission :: submitted_sql where
  "sample_submission = \<lparr>su_type = ''submit_sql_candidate'', su_evidence_refs = [''s''], su_sql = ''q'', su_step_id = ''base''\<rparr>"

definition sample_printer :: sql_printer where
  "sample_printer =
     \<lparr>sp_parse_one = (\<lambda>_. Inr (Node ''Select'' [])), sp_isinstance = (\<lambda>n c. c = ''Query''), sp_find = (\<lambda>_ _. None),
      sp_text = (\<lambda>_. Inr ''q''), sp_transform = (\<lambda>f n. f n), sp_version = ''30''\<rparr>"

definition sample_sql_response :: model_response where
  "sample_sql_response = sample_response\<lparr>ms_output := ToolCallOutput [\<lparr>tc_call_id = ''c'', tc_name = ''submit_sql_candidate'',
     tc_arguments_json = ''{}''\<rparr>]\<rparr>"

definition sample_reasoner :: "unit reasoner" where
  "sample_reasoner = \<lparr>sr_builder = sample_builder, sr_profiles = sample_registry, sr_complete = (\<lambda>_. sreturn sample_sql_response),
     sr_decode = (\<lambda>_. Some sample_submission), sr_printer = sample_printer\<rparr>"

definition sample_sql_context :: context_request where
  "sample_sql_context = reasoning_context sample_profile sample_sql_request None"

lemma sample_sql_context_fields:
  "cr_history sample_sql_context = []" "cr_evidence sample_sql_context = [sample_datum]" "cr_confirmed_facts sample_sql_context = []"
  "cr_latest_error sample_sql_context = None" "rs_config_hash (cr_run_scope sample_sql_context) = hex_digest_sample"
  "cr_step sample_sql_context = RetailSqlGenerate" "cr_profile sample_sql_context = sample_profile"
  "cr_current_input sample_sql_context = sample_datum" "cr_sequence sample_sql_context = 1"
  "rs_track (cr_run_scope sample_sql_context) = ''retail''" "rs_mode (cr_run_scope sample_sql_context) = ''retail''"
  by (simp_all add: sample_sql_context_def reasoning_context_def sample_sql_request_def sample_context_def)

lemma sample_sql_valid: "validate_context sample_builder sample_sql_context = Inr sample_profile"
proof -
  have p: "profile_of sample_registry RetailKey = Some sample_profile"
    by (simp add: profile_of_def sample_registry_def sample_profile_def)
  have d: "valid_context_datum (gx_sha sample_gateway_externals) sample_datum"
    by (simp add: valid_context_datum_def sample_datum_def len_ok_def hex_digest_sample_ok del: sample_sha)
  have n: "dt_namespace sample_datum \<in> set (pf_allowed_namespaces sample_profile)"
    by (simp add: sample_datum_def sample_profile_def common_namespaces_def)
  have f: "pf_key sample_profile = RetailKey" "map ir_step (pf_inference_rules sample_profile) = steps_of RetailKey"
    "pf_estimator_revision sample_profile = ''e''" by (simp_all add: sample_profile_def)
  show ?thesis
    by (simp add: validate_context_def Let_def sample_builder_def sample_sql_context_fields p f d n)
qed

lemma sample_sql_records: "1 \<le> length (records_text sample_sql_context [sample_datum])"
  "length (records_text sample_sql_context [sample_datum]) \<le> 1000"
  by code_simp+

lemma sample_sql_built: "\<exists>b. build_context sample_builder sample_sql_context = Inr b"
proof -
  let ?i = "Thinking \<lparr>th_effort = EffortHigh, th_max_output_tokens = 100\<rparr>"
  have p: "rule_for sample_profile RetailSqlGenerate = Some \<lparr>ir_step = RetailSqlGenerate, ir_inference = ?i, ir_tool_names = []\<rparr>"
    "pf_input_token_limit sample_profile = 10" "pf_minimum_recent_groups sample_profile = 1" "pf_key sample_profile = RetailKey"
    "policy_for sample_registry RetailKey = Some (''a'', ''b'')" "pf_estimator_revision sample_profile = ''e''"
    "tools_for_step sample_registry RetailKey RetailSqlGenerate = Some []"
    by (simp_all add: rule_for_def sample_profile_def policy_for_def profile_of_def sample_registry_def tools_for_step_def)
  have h: "bu_externals sample_builder = sample_gateway_externals" "bu_registry sample_builder = sample_registry"
    "bu_requested_model sample_builder = ''m''" "bu_estimate sample_builder r = Some (6 * int (length (mq_history r)), ''e'')" for r
    by (simp_all add: sample_builder_def)
  define r where "r = draft_request sample_builder sample_sql_context sample_profile ?i hex_digest_sample (''a'', ''b'') [] [] [sample_datum]"
  have ok: "request_fields_ok r"
    using sample_provider_id sample_sql_records
    by (simp add: r_def request_fields_ok_def draft_request_def sample_builder_def messages_of_def valid_chat_message_def len_ok_def
        hex_digest_sample_ok sample_sql_context_fields) (simp add: sample_profile_def)
  have q: "mq_history r = []" by (simp add: r_def draft_request_def)
  have m: "model_request_of sample_builder sample_sql_context sample_profile ?i hex_digest_sample [] [sample_datum] = Inr r"
    using ok by (simp add: model_request_of_def Let_def h p sample_sql_context_fields r_def)
  have c: "candidate_tokens sample_builder sample_sql_context sample_profile ?i hex_digest_sample [] [sample_datum] = Inr 0"
    by (simp add: candidate_tokens_def m estimate_of_def h p q)
  define t where "t = \<lparr>tm_history = [], tm_evidence = [sample_datum], tm_after = 0,
    tm_removed = [], tm_compressed = [], tm_removed_evidence = []\<rparr>"
  let ?E = "candidate_tokens sample_builder sample_sql_context sample_profile ?i hex_digest_sample"
  have t: "trim_context sample_gateway_externals ?E sample_profile [] [sample_datum] 0 = Inr t"
    by (simp add: trim_context_def p trim_evidence_def t_def)
  define b where "b = bundle_of sample_builder sample_sql_context sample_profile hex_digest_sample (''a'', ''b'') r t
    (summary_of_trim sample_sql_context 0 t)"
  have e: "estimate_of sample_builder sample_profile (pu_model_request b) = Inr 0"
    using q by (simp add: b_def estimate_of_def bundle_request h p)
  have "valid_prompt_bundle b"
    by (simp add: b_def bundle_of_def Let_def valid_prompt_bundle_def summary_of_trim_def t_def h compute_prompt_policy_hash_def
        compute_rendered_prompt_hash_def compute_tool_hash_def compute_context_hash_def sha_json_def hex_digest_sample_ok
        del: sample_sha)
  then have "finish_build sample_builder sample_sql_context sample_profile ?i hex_digest_sample 0 t = Inr b"
    using m e by (simp add: finish_build_def p h t_def b_def Let_def)
  then have "build_context sample_builder sample_sql_context = Inr b"
    using t c by (simp add: build_context_def sample_sql_valid h p sample_config_hash sample_sql_context_fields)
  then show ?thesis by blast
qed

definition sample_candidate :: sql_candidate where
  "sample_candidate =
     \<lparr>ca_sql = ''q'', ca_step_id = ''base'', ca_repair_number = 0, ca_evidence_refs = [''s''],
      ca_structural_fingerprint = \<lparr>fp_kind = ''structural'', fp_digest = hex_digest_sample, fp_algorithm_version = ''sql-fingerprint-v1'',
        fp_parser_version = ''30''\<rparr>,
      ca_execution_fingerprint = \<lparr>fp_kind = ''execution'', fp_digest = hex_digest_sample, fp_algorithm_version = ''sql-fingerprint-v1'',
        fp_parser_version = ''30''\<rparr>,
      ca_usage = ms_usage sample_response, ca_cost = ms_cost sample_response, ca_attempts = ms_attempts sample_response\<rparr>"

lemma sample_candidate_valid: "valid_sql_candidate sample_candidate"
  by (simp add: sample_candidate_def valid_sql_candidate_def valid_sql_fingerprint_def hex_digest_sample_ok len_ok_def
      candidate_step_ok_def) code_simp

lemma sample_generated: "generate sample_reasoner sample_sql_request w = (Inr sample_candidate, w)"
proof -
  obtain b where b: "build_context sample_builder (reasoning_context sample_profile sample_sql_request None) = Inr b"
    using sample_sql_built by (auto simp: sample_sql_context_def)
  have p: "profile_of sample_registry RetailKey = Some sample_profile"
    by (simp add: profile_of_def sample_registry_def sample_profile_def)
  have s: "parse_submission sample_reasoner (ms_output sample_sql_response) sample_sql_request = Inr sample_submission"
    by (simp add: parse_submission_def sample_reasoner_def sample_sql_response_def sample_submission_def valid_submitted_sql_def
        len_ok_def candidate_step_ok_def sample_sql_request_def sample_datum_def) code_simp
  have f: "fingerprints sample_printer (gx_sha sample_gateway_externals) ''q''
      = Inr (ca_structural_fingerprint sample_candidate, ca_execution_fingerprint sample_candidate)"
    by (simp add: fingerprints_def sample_printer_def sql_result_def forbidden_intents_def fingerprint_def valid_sql_fingerprint_def
        hex_digest_sample_ok len_ok_def sample_candidate_def Let_def del: sample_sha)
  have c: "candidate_of sample_sql_request sample_submission (ca_structural_fingerprint sample_candidate, ca_execution_fingerprint sample_candidate)
      sample_sql_response = sample_candidate"
    by (simp add: candidate_of_def sample_sql_request_def sample_submission_def sample_candidate_def sample_sql_response_def)
  have a: "accept_response sample_reasoner sample_sql_request sample_sql_response = Inr sample_candidate"
    using f c sample_candidate_valid
    by (simp add: accept_response_def s Let_def) (simp add: sample_reasoner_def sample_submission_def sample_builder_def
        sample_sql_request_def repeats_def)
  show ?thesis
    using a b p by (simp add: generate_def repair_error_def sbind_def) (simp add: sample_reasoner_def sample_sql_request_def)
qed

theorem generated_candidate_sound_witness:
  "distinct (ca_evidence_refs sample_candidate) \<and> valid_sql_candidate sample_candidate
    \<and> sp_isinstance sample_printer (Node ''Select'' []) ''Query''"
  using generated_candidate_sound [OF sample_generated [of "()"]] by (auto simp: sample_reasoner_def sample_printer_def)

end
