(* ===== verification/Query_Executor.thy ===== *)
theory Query_Executor
  imports Effects Ast_Policy Gateway
begin

text \<open>
  \<open>query_engine/contracts.py\<close>, \<open>query_engine/_postgres.py\<close> and \<open>QueryEngine.execute\<close>: the read-only
  execution of a validated query. The driver is the record \<open>pg\<close> of ports on a world \<open>'w\<close>; each port
  answers or raises psycopg.Error. A column value is a \<open>db_value\<close> (a date, a timestamp or a UUID by its
  text, a float by its exact value), \<open>DBOther\<close> any other Python type the driver can produce, among
  them the timedelta of an interval.
\<close>

subsection \<open>Contracts\<close>

datatype query_scalar = QNull | QStr string | QInt int | QFloat decimal | QBool bool

type_synonym query_row = "(string \<times> query_scalar) list"

record explain_summary =
  ex_total_cost :: decimal
  ex_plan_rows :: int

definition valid_explain_summary :: "explain_summary \<Rightarrow> bool" where
  "valid_explain_summary e \<longleftrightarrow> dec_le dec_zero (ex_total_cost e) \<and> 0 \<le> ex_plan_rows e"

record query_result =
  qr_columns :: "string list"
  qr_rows :: "query_row list"
  qr_explain :: "explain_summary option"
  qr_truncated :: bool

definition row_count :: "query_result \<Rightarrow> nat" where
  "row_count r = length (qr_rows r)"

datatype query_error =
    SqlPolicyViolation string
  | SqlPlanRejected string
  | SqlExecutionError string
  | SqlResultLimitExceeded string
  | QueryInfrastructureError string
  | ReconciliationContractError string
  | EscapedError string

text \<open>The exceptions that are a \<open>QueryEngineError\<close>, with their reason code.\<close>

fun engine_reason :: "query_error \<Rightarrow> string option" where
  "engine_reason (EscapedError _) = None"
| "engine_reason (SqlPolicyViolation c) = Some c"
| "engine_reason (SqlPlanRejected c) = Some c"
| "engine_reason (SqlExecutionError c) = Some c"
| "engine_reason (SqlResultLimitExceeded c) = Some c"
| "engine_reason (QueryInfrastructureError c) = Some c"
| "engine_reason (ReconciliationContractError c) = Some c"

text \<open>\<open>^[a-z][a-z0-9_.:-]{1,127}$\<close>; the rows of an evidence result have its columns as keys.\<close>

definition evidence_id_char :: "char \<Rightarrow> bool" where
  "evidence_id_char c \<longleftrightarrow> ref_char c \<or> c = CHR '':''"

record evidence_result =
  ev_evidence_id :: string
  ev_columns :: "string list"
  ev_rows :: "query_row list"
  ev_query_fingerprint :: string

definition valid_evidence_result :: "evidence_result \<Rightarrow> bool" where
  "valid_evidence_result e \<longleftrightarrow>
     ident_ok is_lower evidence_id_char 1 127 (ev_evidence_id e) \<and> hex64 (ev_query_fingerprint e)
     \<and> distinct (ev_columns e) \<and> list_all (\<lambda>row. set (map fst row) = set (ev_columns e)) (ev_rows e)"

record reconciliation_check =
  rk_rule_type :: string
  rk_passed :: bool
  rk_reason_code :: string
  rk_actual_digest :: string
  rk_expected_digest :: string

definition valid_reconciliation_check :: "reconciliation_check \<Rightarrow> bool" where
  "valid_reconciliation_check c \<longleftrightarrow>
     rk_rule_type c \<in> {''total'', ''grain'', ''set'', ''null'', ''decimal_tolerance''}
     \<and> reason_code_ok (rk_reason_code c) \<and> hex64 (rk_actual_digest c) \<and> hex64 (rk_expected_digest c)"

record reconciliation_result =
  rr_passed :: bool
  rr_checks :: "reconciliation_check list"

definition valid_reconciliation_result :: "reconciliation_result \<Rightarrow> bool" where
  "valid_reconciliation_result r \<longleftrightarrow>
     len_ok 1 64 (rr_checks r) \<and> list_all valid_reconciliation_check (rr_checks r)
     \<and> rr_passed r = list_all rk_passed (rr_checks r)"

subsection \<open>Scalars\<close>

datatype db_value =
    DBNull | DBStr string | DBInt int | DBFloat decimal | DBBool bool
  | DBDecimal decimal | DBDate string | DBUuid string | DBJson jval | DBOther

definition normalize_scalar :: "(decimal \<Rightarrow> string) \<Rightarrow> db_value \<Rightarrow> query_error + query_scalar" where
  "normalize_scalar dec_str v = (case v of
       DBNull \<Rightarrow> Inr QNull
     | DBStr s \<Rightarrow> Inr (QStr s)
     | DBInt i \<Rightarrow> Inr (QInt i)
     | DBFloat d \<Rightarrow> Inr (QFloat d)
     | DBBool b \<Rightarrow> Inr (QBool b)
     | DBDecimal d \<Rightarrow> Inr (QStr (dec_str d))
     | DBDate s \<Rightarrow> Inr (QStr s)
     | DBUuid s \<Rightarrow> Inr (QStr s)
     | DBJson _ \<Rightarrow> Inl (EscapedError ''TypeError'')
     | DBOther \<Rightarrow> Inl (EscapedError ''TypeError''))"

definition scalar_jval :: "(decimal \<Rightarrow> string) \<Rightarrow> query_scalar \<Rightarrow> jval" where
  "scalar_jval float_str v = (case v of
       QNull \<Rightarrow> VNull | QStr s \<Rightarrow> VStr s | QInt i \<Rightarrow> VInt i | QFloat d \<Rightarrow> VFloat (float_str d) | QBool b \<Rightarrow> VBool b)"

text \<open>\<open>len(json.dumps(row, ensure_ascii=False).encode("utf-8"))\<close>.\<close>

definition row_bytes :: "(decimal \<Rightarrow> string) \<Rightarrow> query_row \<Rightarrow> nat" where
  "row_bytes float_str row = length (utf8 (line_text (VObj (map (map_prod id (scalar_jval float_str)) row))))"

fun normalize_row :: "(decimal \<Rightarrow> string) \<Rightarrow> string list \<Rightarrow> db_value list \<Rightarrow> query_error + query_row" where
  "normalize_row dec_str [] [] = Inr []"
| "normalize_row dec_str (c # cs) (v # vs) =
     rbind (normalize_scalar dec_str v) (\<lambda>x. rbind (normalize_row dec_str cs vs) (\<lambda>row. Inr ((c, x) # row)))"
| "normalize_row dec_str _ _ = Inl (EscapedError ''ValueError'')"

subsection \<open>The plan\<close>

text \<open>
  \<open>qx_float\<close> and \<open>qx_int\<close> are Python's \<open>float(v)\<close> and \<open>int(v)\<close> on a JSON value, with the name of the
  exception they raise; \<open>qx_dec_str\<close> is \<open>str\<close> of a Decimal, \<open>qx_float_str\<close> \<open>repr\<close> of a float.
\<close>

record query_externals =
  qx_loads :: "string \<Rightarrow> jval option"
  qx_float :: "jval \<Rightarrow> string + decimal"
  qx_int :: "jval \<Rightarrow> string + int"
  qx_dec_str :: "decimal \<Rightarrow> string"
  qx_float_str :: "decimal \<Rightarrow> string"

definition explain_shape :: query_error where
  "explain_shape = QueryInfrastructureError ''explain_shape''"

text \<open>\<open>except (KeyError, TypeError, ValueError)\<close>; a ValidationError is a ValueError.\<close>

definition plan_exception :: "string \<Rightarrow> query_error" where
  "plan_exception e = (if e \<in> {''KeyError'', ''TypeError'', ''ValueError''} then explain_shape else EscapedError e)"

definition extract_explain_summary :: "query_externals \<Rightarrow> db_value \<Rightarrow> query_error + explain_summary" where
  "extract_explain_summary Q payload =
     rbind (case payload of
         DBStr s \<Rightarrow> (case qx_loads Q s of None \<Rightarrow> Inl explain_shape | Some v \<Rightarrow> Inr (DBJson v))
       | _ \<Rightarrow> Inr payload) (\<lambda>decoded.
     case decoded of
       DBJson (VList [VObj document]) \<Rightarrow>
         (case map_of document ''Plan'' of
            Some (VObj plan) \<Rightarrow>
              (case map_of plan ''Total Cost'' of None \<Rightarrow> Inl explain_shape
               | Some cost \<Rightarrow>
                 (case qx_float Q cost of Inl e \<Rightarrow> Inl (plan_exception e)
                  | Inr c \<Rightarrow>
                    (case map_of plan ''Plan Rows'' of None \<Rightarrow> Inl explain_shape
                     | Some rows \<Rightarrow>
                       (case qx_int Q rows of Inl e \<Rightarrow> Inl (plan_exception e)
                        | Inr n \<Rightarrow>
                          (let s = \<lparr>ex_total_cost = c, ex_plan_rows = n\<rparr>
                           in if valid_explain_summary s then Inr s else Inl explain_shape)))))
          | _ \<Rightarrow> Inl explain_shape)
     | _ \<Rightarrow> Inl explain_shape)"

definition enforce_plan_limits :: "explain_summary \<Rightarrow> query_error + unit" where
  "enforce_plan_limits s =
     (if dec_lt (dec_of_int 1000000) (ex_total_cost s) then Inl (SqlPlanRejected ''plan_cost'')
      else if 1000000 < ex_plan_rows s then Inl (SqlPlanRejected ''plan_rows'')
      else Inr ())"

subsection \<open>The executor\<close>

text \<open>
  \<open>pg_next\<close> fetches from the named cursor, in the transaction that \<open>pg_execute\<close> began; \<open>pg_open\<close> runs
  the query through the cursor and gives \<open>cursor.description\<close>. A port that answers \<open>Inl ()\<close> raised
  psycopg.Error.
\<close>

record 'w pg =
  pg_connect :: "('w, unit, unit) action"
  pg_execute :: "string \<Rightarrow> ('w, unit, unit) action"
  pg_fetchone :: "('w, unit, db_value list option) action"
  pg_open :: "string \<Rightarrow> ('w, unit, string list option) action"
  pg_next :: "('w, unit, db_value list option) action"
  pg_rollback :: "('w, unit, unit) action"
  pg_close :: "('w, unit, unit) action"

definition set_local_statements :: "string list" where
  "set_local_statements =
     [''SET LOCAL statement_timeout = '' @ [CHR 0x27] @ ''5s'' @ [CHR 0x27],
      ''SET LOCAL lock_timeout = '' @ [CHR 0x27] @ ''1s'' @ [CHR 0x27],
      ''SET LOCAL idle_in_transaction_session_timeout = '' @ [CHR 0x27] @ ''10s'' @ [CHR 0x27],
      ''SET LOCAL work_mem = '' @ [CHR 0x27] @ ''16MB'' @ [CHR 0x27],
      ''SET LOCAL max_parallel_workers_per_gather = 0'',
      ''SET LOCAL search_path = retail, ops_read'']"

definition postgres_error :: "unit \<Rightarrow> query_error" where
  "postgres_error _ = SqlExecutionError ''postgres_error''"

definition begin_guarded_transaction :: "'w pg \<Rightarrow> ('w, query_error, unit) action" where
  "begin_guarded_transaction P = handling postgres_error
     (sbind (pg_execute P ''BEGIN READ ONLY'') (\<lambda>_. each (pg_execute P) set_local_statements))"

definition byte_limit :: nat where "byte_limit = 5 * 1024 * 1024"

text \<open>The row loop; \<open>fuel\<close> is the room left below the row limit, so the loop ends whatever the server streams.\<close>

primrec read_rows ::
    "'w pg \<Rightarrow> query_externals \<Rightarrow> string list \<Rightarrow> nat \<Rightarrow> nat \<Rightarrow> ('w, query_error, query_row list) action" where
  "read_rows P Q columns 0 sofar =
     sbind (handling postgres_error (pg_next P)) (\<lambda>fetched. case fetched of
       None \<Rightarrow> sreturn []
     | Some _ \<Rightarrow> sraise (SqlResultLimitExceeded ''row_limit''))"
| "read_rows P Q columns (Suc fuel) sofar =
     sbind (handling postgres_error (pg_next P)) (\<lambda>fetched. case fetched of
       None \<Rightarrow> sreturn []
     | Some raw \<Rightarrow>
         sbind (sresult (normalize_row (qx_dec_str Q) columns raw)) (\<lambda>row.
           let sofar' = sofar + row_bytes (qx_float_str Q) row in
           if byte_limit < sofar' then sraise (SqlResultLimitExceeded ''byte_limit'')
           else sbind (read_rows P Q columns fuel sofar') (\<lambda>rows. sreturn (row # rows))))"

definition explain_summary_of :: "query_externals \<Rightarrow> db_value list option \<Rightarrow> query_error + explain_summary" where
  "explain_summary_of Q explain_row = (case explain_row of
       None \<Rightarrow> Inl explain_shape
     | Some [] \<Rightarrow> Inl (EscapedError ''IndexError'')
     | Some (v # _) \<Rightarrow> extract_explain_summary Q v)"

definition explain_statement :: "string \<Rightarrow> string" where
  "explain_statement sql = ''EXPLAIN (FORMAT JSON) '' @ sql"

definition query_body :: "'w pg \<Rightarrow> query_externals \<Rightarrow> string \<Rightarrow> ('w, query_error, query_result) action" where
  "query_body P Q sql =
     sbind (begin_guarded_transaction P) (\<lambda>_.
     sbind (handling postgres_error (pg_execute P (explain_statement sql))) (\<lambda>_.
     sbind (handling postgres_error (pg_fetchone P)) (\<lambda>explain_row.
     sbind (sresult (explain_summary_of Q explain_row)) (\<lambda>summary.
     sbind (sresult (enforce_plan_limits summary)) (\<lambda>_.
     sbind (handling postgres_error (pg_open P sql)) (\<lambda>description.
     case description of
       None \<Rightarrow> sraise (QueryInfrastructureError ''result_shape'')
     | Some columns \<Rightarrow>
         if \<not> distinct columns then sraise (SqlExecutionError ''duplicate_columns'')
         else sbind (read_rows P Q columns 1000 0) (\<lambda>rows.
           sreturn \<lparr>qr_columns = columns, qr_rows = rows, qr_explain = Some summary, qr_truncated = False\<rparr>)))))))"

text \<open>\<open>finally\<close>: roll back, then close even when that raised; an exception here is psycopg's own.\<close>

definition release :: "'w pg \<Rightarrow> ('w, query_error, unit) action" where
  "release P = handling (\<lambda>_. EscapedError ''psycopg.Error'') (ensuring (pg_rollback P) (pg_close P))"

definition postgres_execute :: "'w pg \<Rightarrow> query_externals \<Rightarrow> validated_query \<Rightarrow> ('w, query_error, query_result) action" where
  "postgres_execute P Q q =
     sbind (handling (\<lambda>_. QueryInfrastructureError ''connection_failed'') (pg_connect P)) (\<lambda>_.
       ensuring (query_body P Q (vq_sql q)) (release P))"

definition query_exception :: "policy_error \<Rightarrow> query_error" where
  "query_exception e = (case e of Violation c \<Rightarrow> SqlPolicyViolation c | Escaped _ \<Rightarrow> EscapedError ''SqlglotError'')"

definition engine_execute ::
    "sqlglot \<Rightarrow> 'w pg \<Rightarrow> query_externals \<Rightarrow> string \<Rightarrow> ('w, query_error, query_result) action" where
  "engine_execute G P Q sql =
     (case validate_sql G sql of
        Inl e \<Rightarrow> sraise (query_exception e)
      | Inr q \<Rightarrow> postgres_execute P Q q)"

subsection \<open>What a result promises\<close>

lemma normalize_row_keys: "normalize_row dec_str cs vs = Inr row \<Longrightarrow> map fst row = cs"
  by (induction dec_str cs vs arbitrary: row rule: normalize_row.induct) (auto simp: rbind_Inr_iff)

definition rows_bytes :: "query_externals \<Rightarrow> query_row list \<Rightarrow> nat" where
  "rows_bytes Q rows = sum_list (map (row_bytes (qx_float_str Q)) rows)"

lemma read_rows_spec:
  "read_rows P Q columns fuel sofar w = (Inr rows, w') \<Longrightarrow> sofar \<le> byte_limit \<Longrightarrow>
     length rows \<le> fuel \<and> sofar + rows_bytes Q rows \<le> byte_limit \<and> (\<forall>row \<in> set rows. map fst row = columns)"
proof (induction fuel arbitrary: sofar w rows w')
  case 0
  then show ?case by (auto simp: sbind_Inr_iff rows_bytes_def split: option.splits)
next
  case (Suc fuel)
  obtain fetched w1 where f: "pg_next P w = (Inr fetched, w1)"
    using Suc.prems(1) by (auto simp: sbind_Inr_iff)
  show ?case
  proof (cases fetched)
    case None
    then show ?thesis using Suc.prems f by (auto simp: sbind_Inr_iff rows_bytes_def)
  next
    case (Some raw)
    then obtain row rest w2 where
      row: "normalize_row (qx_dec_str Q) columns raw = Inr row" and
      ok: "sofar + row_bytes (qx_float_str Q) row \<le> byte_limit" and
      rest: "read_rows P Q columns fuel (sofar + row_bytes (qx_float_str Q) row) w1 = (Inr rest, w2)" and
      rows: "rows = row # rest"
      using Suc.prems(1) f by (auto simp: sbind_Inr_iff Let_def split: if_splits)
    show ?thesis using Suc.IH [OF rest ok] normalize_row_keys [OF row] rows by (auto simp: rows_bytes_def)
  qed
qed

definition bounded_result :: "query_externals \<Rightarrow> query_result \<Rightarrow> bool" where
  "bounded_result Q r \<longleftrightarrow> distinct (qr_columns r) \<and> row_count r \<le> 1000 \<and> rows_bytes Q (qr_rows r) \<le> byte_limit
     \<and> (\<forall>row \<in> set (qr_rows r). map fst row = qr_columns r) \<and> \<not> qr_truncated r
     \<and> (\<exists>e. qr_explain r = Some e \<and> valid_explain_summary e \<and> ex_plan_rows e \<le> 1000000
           \<and> \<not> dec_lt (dec_of_int 1000000) (ex_total_cost e))"

lemma extract_explain_valid:
  assumes "extract_explain_summary Q v = Inr s"
  shows "valid_explain_summary s"
proof -
  have "valid_explain_summary t" if "(if valid_explain_summary t then Inr t else Inl explain_shape) = (Inr t' :: query_error + _)" for t t'
    using that by (auto split: if_splits)
  then show ?thesis
    using assms unfolding extract_explain_summary_def Let_def rbind_Inr_iff
    by (elim exE conjE) (simp split: db_value.split_asm jval.split_asm list.split_asm option.split_asm sum.split_asm if_split_asm)
qed

lemma query_body_bounded:
  assumes "query_body P Q sql w = (Inr r, w')"
  shows "bounded_result Q r"
proof -
  obtain explain_row summary columns rows w1 w2 where
    s: "explain_summary_of Q explain_row = Inr summary" and l: "enforce_plan_limits summary = Inr ()" and d: "distinct columns" and
    rows: "read_rows P Q columns 1000 0 w1 = (Inr rows, w2)" and
    r: "r = \<lparr>qr_columns = columns, qr_rows = rows, qr_explain = Some summary, qr_truncated = False\<rparr>"
    using assms unfolding query_body_def sbind_Inr_iff
    by (elim exE conjE) (simp split: option.split_asm if_split_asm add: sbind_Inr_iff, blast)
  have v: "valid_explain_summary summary"
    using s extract_explain_valid by (auto simp: explain_summary_of_def split: option.splits list.splits)
  have b: "length rows \<le> 1000 \<and> 0 + rows_bytes Q rows \<le> byte_limit \<and> (\<forall>row \<in> set rows. map fst row = columns)"
    by (rule read_rows_spec [OF rows]) simp
  show ?thesis using v b d l by (auto simp: bounded_result_def row_count_def r enforce_plan_limits_def split: if_splits)
qed

lemma engine_execute_bounded:
  assumes "engine_execute G P Q sql w = (Inr r, w')"
  shows "(\<exists>q. validate_sql G sql = Inr q \<and> vq_sql q = sql) \<and> bounded_result Q r"
proof -
  obtain q where q: "validate_sql G sql = Inr q" and e: "postgres_execute P Q q w = (Inr r, w')"
    using assms by (auto simp: engine_execute_def split: sum.splits)
  have "vq_sql q = sql" using q by (auto simp: validate_sql_def rbind_Inr_iff Let_def split: if_splits sum.splits)
  moreover have "bounded_result Q r"
    using e query_body_bounded by (auto simp: postgres_execute_def sbind_Inr_iff ensuring_Inr_iff)
  ultimately show ?thesis using q by blast
qed

text \<open>
  A query result that QueryEngine.execute returns is of a query the SQL policy accepted, its plan was
  within the cost and row limits, it has at most 1000 rows and 5 MB of JSON, unique column names, and every
  row has exactly the declared columns in order.
\<close>

theorem executed_query_bounded:
  assumes "engine_execute G P Q sql w = (Inr r, w')"
  shows "(\<exists>q. validate_sql G sql = Inr q \<and> vq_sql q = sql) \<and> bounded_result Q r"
  using assms by (rule engine_execute_bounded)

subsection \<open>Release of the connection\<close>

lemma snd_ensuring: "snd (ensuring m c w) = snd (c (snd (m w)))"
  by (auto simp: ensuring_def split: prod.splits sum.splits)

lemma snd_handling: "snd (handling f m w) = snd (m w)"
  by (auto simp: handling_def split: prod.splits sum.splits)

lemma fst_ensuring: "fst (ensuring m c w) = (case fst (c (snd (m w))) of Inl e \<Rightarrow> Inl e | Inr _ \<Rightarrow> fst (m w))"
  by (auto simp: ensuring_def split: prod.splits sum.splits)

text \<open>
  C36: once the connection is open, PostgresExecutor.execute ends with a rollback followed by a close,
  whatever the query did and also when the rollback raises; the caller gets the query's own outcome
  exactly when neither of the two raised, and else a bare driver error that is not a QueryEngineError.
\<close>

theorem connection_always_released:
  assumes "pg_connect P w = (Inr (), w1)"
  shows "snd (postgres_execute P Q q w) = snd (pg_close P (snd (pg_rollback P (snd (query_body P Q (vq_sql q) w1)))))
    \<and> fst (postgres_execute P Q q w) =
        (if is_ok (fst (release P (snd (query_body P Q (vq_sql q) w1)))) then fst (query_body P Q (vq_sql q) w1)
         else Inl (EscapedError ''psycopg.Error''))
    \<and> engine_reason (EscapedError ''psycopg.Error'') = None"
proof -
  have e: "postgres_execute P Q q w = ensuring (query_body P Q (vq_sql q)) (release P) w1"
    using assms(1) by (simp add: postgres_execute_def handling_def)
  have r: "d = EscapedError ''psycopg.Error''" if "fst (release P v) = Inl d" for d v
    using that by (auto simp: release_def handling_def split: prod.splits sum.splits)
  have "snd (postgres_execute P Q q w) = snd (pg_close P (snd (pg_rollback P (snd (query_body P Q (vq_sql q) w1)))))"
    by (simp add: e snd_ensuring release_def snd_handling)
  moreover have "fst (postgres_execute P Q q w) =
        (if is_ok (fst (release P (snd (query_body P Q (vq_sql q) w1)))) then fst (query_body P Q (vq_sql q) w1)
         else Inl (EscapedError ''psycopg.Error''))"
    using r by (auto simp: e fst_ensuring split: sum.splits)
  ultimately show ?thesis by simp
qed

text \<open>
  A row with a value of an unsupported type (an interval, an array) raises TypeError out of the executor:
  the error is not a QueryEngineError, so no caller that repairs rejected queries handles it.
\<close>

definition unsupported :: "db_value \<Rightarrow> bool" where
  "unsupported v = (case v of DBOther \<Rightarrow> True | DBJson _ \<Rightarrow> True | _ \<Rightarrow> False)"

lemma normalize_unsupported:
  "length cs = length vs \<Longrightarrow> \<exists>v \<in> set vs. unsupported v \<Longrightarrow> normalize_row dec_str cs vs = Inl (EscapedError ''TypeError'')"
  by (induction dec_str cs vs rule: normalize_row.induct)
    (auto simp: unsupported_def normalize_scalar_def split: db_value.splits)

theorem unsupported_column_escapes:
  assumes "pg_next P w = (Inr (Some raw), w')" "length columns = length raw" "\<exists>v \<in> set raw. unsupported v"
  shows "read_rows P Q columns (Suc n) sofar w = (Inl (EscapedError ''TypeError''), w')
    \<and> engine_reason (EscapedError ''TypeError'') = None"
proof -
  have "handling postgres_error (pg_next P) w = (Inr (Some raw), w')" using assms(1) by (simp add: handling_def)
  then show ?thesis by (simp add: normalize_unsupported [OF assms(2,3)])
qed

subsection \<open>A sample query\<close>

text \<open>The world counts the calls; one row is streamed, then the end.\<close>

definition sample_pg :: "nat pg" where
  "sample_pg =
     \<lparr>pg_connect = (\<lambda>n. (Inr (), Suc n)), pg_execute = (\<lambda>_ n. (Inr (), Suc n)),
      pg_fetchone = (\<lambda>n. (Inr (Some [DBJson (VList [VObj [(''Plan'', VObj [(''Total Cost'', VInt 5), (''Plan Rows'', VInt 1)])]])]), Suc n)),
      pg_open = (\<lambda>_ n. (Inr (Some [''n'']), 0)),
      pg_next = (\<lambda>n. (Inr (if n = 0 then Some [DBInt 7] else None), Suc n)),
      pg_rollback = (\<lambda>n. (Inr (), Suc n)), pg_close = (\<lambda>n. (Inr (), Suc n))\<rparr>"

definition sample_query_externals :: query_externals where
  "sample_query_externals =
     \<lparr>qx_loads = (\<lambda>_. None), qx_float = (\<lambda>v. case v of VInt i \<Rightarrow> Inr (dec_of_int i) | _ \<Rightarrow> Inl ''TypeError''),
      qx_int = (\<lambda>v. case v of VInt i \<Rightarrow> Inr i | _ \<Rightarrow> Inl ''TypeError''), qx_dec_str = (\<lambda>_. []), qx_float_str = (\<lambda>_. [])\<rparr>"

definition sample_query_result :: query_result where
  "sample_query_result = \<lparr>qr_columns = [''n''], qr_rows = [[(''n'', QInt 7)]],
     qr_explain = Some \<lparr>ex_total_cost = dec_of_int 5, ex_plan_rows = 1\<rparr>, qr_truncated = False\<rparr>"

lemma sample_explain_summary:
  "explain_summary_of sample_query_externals (Some [DBJson (VList [VObj [(''Plan'', VObj [(''Total Cost'', VInt 5), (''Plan Rows'', VInt 1)])]])])
     = Inr \<lparr>ex_total_cost = dec_of_int 5, ex_plan_rows = 1\<rparr>"
  "enforce_plan_limits \<lparr>ex_total_cost = dec_of_int 5, ex_plan_rows = 1\<rparr> = Inr ()"
  by code_simp+

lemma sample_pg_simps:
  "pg_connect sample_pg n = (Inr (), Suc n)" "pg_execute sample_pg t n = (Inr (), Suc n)"
  "pg_fetchone sample_pg n = (Inr (Some [DBJson (VList [VObj [(''Plan'', VObj [(''Total Cost'', VInt 5), (''Plan Rows'', VInt 1)])]])]), Suc n)"
  "pg_open sample_pg t n = (Inr (Some [''n'']), 0)" "pg_next sample_pg n = (Inr (if n = 0 then Some [DBInt 7] else None), Suc n)"
  "pg_rollback sample_pg n = (Inr (), Suc n)" "pg_close sample_pg n = (Inr (), Suc n)"
  by (simp_all add: sample_pg_def)

lemma sample_rows_any:
  assumes "\<not> byte_limit < row_bytes (qx_float_str sample_query_externals) [(''n'', QInt 7)]"
  shows "read_rows sample_pg sample_query_externals [''n''] (Suc (Suc k)) 0 0 = (Inr [[(''n'', QInt 7)]], 2)"
  using assms by (simp add: sample_pg_simps handling_def sbind_def normalize_scalar_def)

lemma sample_row_bytes: "row_bytes (qx_float_str sample_query_externals) [(''n'', QInt 7)] = 8"
  by code_simp

lemma sample_rows: "read_rows sample_pg sample_query_externals [''n''] 1000 0 0 = (Inr [[(''n'', QInt 7)]], 2)"
proof -
  have "\<not> byte_limit < row_bytes (qx_float_str sample_query_externals) [(''n'', QInt 7)]"
    by (simp add: sample_row_bytes byte_limit_def)
  from sample_rows_any [OF this, of 998] show ?thesis by simp
qed

lemma sample_query_body: "\<exists>n. query_body sample_pg sample_query_externals ''q'' m = (Inr sample_query_result, n)"
proof -
  obtain n where n: "begin_guarded_transaction sample_pg m = (Inr (), n)"
    by (simp add: begin_guarded_transaction_def set_local_statements_def sample_pg_simps handling_def sbind_def)
  show ?thesis
    using sample_rows sample_explain_summary
    by (simp add: query_body_def n sbind_def handling_def sample_pg_simps sample_query_result_def)
qed

lemma sample_query_executed: "\<exists>n. engine_execute sample_sqlglot sample_pg sample_query_externals ''q'' 0 = (Inr sample_query_result, n)"
proof -
  obtain n where "query_body sample_pg sample_query_externals ''q'' 1 = (Inr sample_query_result, n)" using sample_query_body by blast
  then show ?thesis
    by (simp add: engine_execute_def sample_validates postgres_execute_def sbind_def handling_def ensuring_def release_def
        sample_pg_simps)
qed

theorem executed_query_bounded_witness:
  "\<exists>n. engine_execute sample_sqlglot sample_pg sample_query_externals ''q'' 0 = (Inr sample_query_result, n)
     \<and> bounded_result sample_query_externals sample_query_result"
proof -
  obtain n where "engine_execute sample_sqlglot sample_pg sample_query_externals ''q'' 0 = (Inr sample_query_result, n)"
    using sample_query_executed by blast
  with executed_query_bounded [OF this] show ?thesis by blast
qed

theorem connection_always_released_witness:
  "snd (postgres_execute sample_pg sample_query_externals \<lparr>vq_sql = ''q'', vq_is_aggregate = False\<rparr> 0)
     = snd (pg_close sample_pg (snd (pg_rollback sample_pg (snd (query_body sample_pg sample_query_externals ''q'' 1)))))"
proof -
  have "pg_connect sample_pg 0 = (Inr (), 1)" by (simp add: sample_pg_simps)
  from connection_always_released [OF this] show ?thesis by simp
qed

end
