(* ===== verification/Retail_Checkpoint.thy ===== *)
theory Retail_Checkpoint
  imports Retail_Contracts Sql_Reasoning Query_Executor
begin

text \<open>
  \<open>orchestration/_checkpoint.py\<close> and the state of \<open>orchestration/retail_graph.py\<close>: what one checkpoint of a
  retail attempt holds, the identity it is bound to, and the test that a persisted state may be resumed.
  A field that the code keeps as JSON text of a contract is kept here as the contract's value (pydantic's
  dump and validation are inverse on valid values); the fields that no node changes (confirmed facts,
  provider history, revisions, evidence summaries and the unused plain SQL candidate) are left out. The
  saver is the map from thread identifiers to states.
\<close>

subsection \<open>The state\<close>

datatype graph_node =
    PrepareContext | CallModel | RouteOutput | ValidateTools | ExecuteTools | CloseExchange
  | PreparePlanStep | ExecuteQuery | SqlReason | PrepareReport | CreateProposal | Finalize | CompleteNode

fun graph_node_value :: "graph_node \<Rightarrow> string" where
  "graph_node_value PrepareContext = ''prepare_context''"
| "graph_node_value CallModel = ''call_model''"
| "graph_node_value RouteOutput = ''route_output''"
| "graph_node_value ValidateTools = ''validate_tools''"
| "graph_node_value ExecuteTools = ''execute_tools''"
| "graph_node_value CloseExchange = ''close_exchange''"
| "graph_node_value PreparePlanStep = ''prepare_plan_step''"
| "graph_node_value ExecuteQuery = ''execute_query''"
| "graph_node_value SqlReason = ''sql_reason''"
| "graph_node_value PrepareReport = ''prepare_report''"
| "graph_node_value CreateProposal = ''create_proposal''"
| "graph_node_value Finalize = ''finalize''"
| "graph_node_value CompleteNode = ''complete''"

text \<open>\<open>pending_tool_batch_json\<close> holds a batch of the tool loop or one call of the report loop.\<close>

datatype pending_json = PendingBatch pending_tool_batch | PendingCall tool_call

record retail_state =
  gs_state_schema_revision :: string
  gs_node_revision :: string
  gs_run_scope :: run_scope
  gs_attempt_id :: uuid
  gs_current_node :: graph_node
  gs_clarification_count :: int
  gs_replan_count :: int
  gs_repair_count :: int
  gs_model_call_count :: int
  gs_tool_call_count :: int
  gs_plan :: "investigation_plan option"
  gs_pending_steps :: "string list"
  gs_candidate :: "sql_candidate option"
  gs_evidence :: "evidence_result list"
  gs_reconciliation :: "reconciliation_result option"
  gs_proposal_refs :: "string list"
  gs_terminal :: "retail_terminal option"
  gs_pending_batch :: "pending_json option"
  gs_latest_error :: "product_db_error option"
  gs_stop :: "stop_outcome option"
  gs_hashes :: graph_hashes
  gs_history :: "conversation_group list"
  gs_final_output :: "model_output option"
  gs_request :: retail_run_request
  gs_model_request :: "model_request option"
  gs_tool_results :: "tool_result list"
  gs_last_evidence_digest :: "string option"
  gs_cleanup_complete :: bool

definition retail_state_schema_revision :: string where
  "retail_state_schema_revision = ''retail-state-v2''"

definition retail_node_revision :: string where
  "retail_node_revision = ''retail-nodes-v2''"

definition zero_digest :: string where
  "zero_digest = replicate 64 CHR ''0''"

definition zero_hashes :: "retail_run_request \<Rightarrow> graph_hashes" where
  "zero_hashes q = \<lparr>gh_prompt_policy_hash = zero_digest, gh_rendered_prompt_hash = zero_digest, gh_tool_hash = zero_digest,
     gh_context_hash = zero_digest, gh_config_hash = rs_config_hash (rq_run_scope q)\<rparr>"

definition initial_state :: "retail_run_request \<Rightarrow> retail_state" where
  "initial_state q =
     \<lparr>gs_state_schema_revision = retail_state_schema_revision, gs_node_revision = retail_node_revision,
      gs_run_scope = rq_run_scope q, gs_attempt_id = rq_attempt_id q, gs_current_node = PrepareContext,
      gs_clarification_count = 0, gs_replan_count = 0, gs_repair_count = 0, gs_model_call_count = 0,
      gs_tool_call_count = 0, gs_plan = None, gs_pending_steps = [], gs_candidate = None, gs_evidence = [],
      gs_reconciliation = None, gs_proposal_refs = [], gs_terminal = None, gs_pending_batch = None,
      gs_latest_error = None, gs_stop = None, gs_hashes = zero_hashes q, gs_history = [], gs_final_output = None,
      gs_request = q, gs_model_request = None, gs_tool_results = [], gs_last_evidence_digest = None,
      gs_cleanup_complete = False\<rparr>"

subsection \<open>Identity and compatibility\<close>

definition run_scope_json :: "run_scope \<Rightarrow> json" where
  "run_scope_json s = JObj [(''run_id'', JStr (uuid_str (rs_run_id s))), (''track'', JStr (rs_track s)),
     (''mode'', JStr (rs_mode s)), (''subject_id'', JStr (rs_subject_id s)),
     (''experiment_id'', JStr (rs_experiment_id s)), (''config_hash'', JStr (rs_config_hash s))]"

definition derive_thread_id :: "(bytes \<Rightarrow> string) \<Rightarrow> run_scope \<Rightarrow> uuid \<Rightarrow> string" where
  "derive_thread_id sha s a =
     sha (utf8 (dumps (JObj [(''attempt_id'', JStr (uuid_str a)), (''run_scope'', run_scope_json s)])))"

definition assert_checkpoint_compatible :: "retail_state \<Rightarrow> string \<Rightarrow> run_scope \<Rightarrow> uuid \<Rightarrow> run_error + unit" where
  "assert_checkpoint_compatible st config_hash scope attempt =
     (if gs_state_schema_revision st \<noteq> retail_state_schema_revision
      then Inl (CheckpointIncompatible ''state_schema_mismatch'')
      else if gs_node_revision st \<noteq> retail_node_revision then Inl (CheckpointIncompatible ''node_revision_mismatch'')
      else if gh_config_hash (gs_hashes st) \<noteq> config_hash then Inl (CheckpointIncompatible ''config_hash_mismatch'')
      else if gs_run_scope st \<noteq> scope then Inl (CheckpointIncompatible ''run_scope_mismatch'')
      else if gs_attempt_id st \<noteq> attempt then Inl (CheckpointIncompatible ''attempt_id_mismatch'')
      else Inr ())"

text \<open>The walk of \<open>canonical_checkpoint_json\<close> over a JSON value: no mapping at any depth has a forbidden key.\<close>

definition forbidden_keys :: "string list" where
  "forbidden_keys = [''grant'', ''nonce'', ''signature'', ''hmac'', ''dsn'', ''seller_id'', ''reasoning_content'']"

primrec checkpoint_safe :: "json \<Rightarrow> bool" where
  "checkpoint_safe JNull = True"
| "checkpoint_safe (JBool _) = True"
| "checkpoint_safe (JInt _) = True"
| "checkpoint_safe (JStr _) = True"
| "checkpoint_safe (JList vs) = list_all id (map checkpoint_safe vs)"
| "checkpoint_safe (JObj kvs) = list_all (\<lambda>(k, ok). lower k \<notin> set forbidden_keys \<and> ok) (map (map_prod id checkpoint_safe) kvs)"

definition canonical_checkpoint_json :: "json \<Rightarrow> run_error + string" where
  "canonical_checkpoint_json v =
     (if checkpoint_safe v then Inr (dumps v) else Inl (CheckpointIncompatible ''sensitive_checkpoint_field''))"

text \<open>
  The state as the mapping that is checked: \<open>D k st\<close> is the JSON text in field \<open>k\<close>, or nothing. The walk
  sees these texts as plain strings.
\<close>

definition text_fields :: "string list" where
  "text_fields = [''state_schema_revision'', ''node_revision'', ''run_scope_json'', ''attempt_id'', ''confirmed_facts_json'',
     ''investigation_plan_json'', ''sql_candidate_json'', ''query_evidence_json'', ''reconciliation_json'',
     ''proposal_refs_json'', ''terminal_json'', ''pending_tool_batch_json'', ''provider_history_json'', ''revisions_json'',
     ''latest_error_json'', ''stop_reason_json'', ''prompt_policy_hash'', ''rendered_prompt_hash'', ''tool_hash'',
     ''context_hash'', ''config_hash'', ''history_json'', ''sql_candidate'', ''final_output_json'', ''request_json'',
     ''model_request_json'', ''tool_results_json'', ''last_evidence_digest'']"

type_synonym field_dump = "string \<Rightarrow> retail_state \<Rightarrow> string option"

definition state_json :: "field_dump \<Rightarrow> retail_state \<Rightarrow> json" where
  "state_json D st = JObj (map (\<lambda>k. (k, opt_text_json (D k st))) text_fields @
     [(''current_node'', JStr (graph_node_value (gs_current_node st))),
      (''clarification_count'', JInt (gs_clarification_count st)), (''replan_count'', JInt (gs_replan_count st)),
      (''repair_count'', JInt (gs_repair_count st)), (''model_call_count'', JInt (gs_model_call_count st)),
      (''tool_call_count'', JInt (gs_tool_call_count st)), (''pending_plan_step_ids'', strings_json (gs_pending_steps st)),
      (''evidence_summaries'', JList []), (''cleanup_complete'', JBool (gs_cleanup_complete st))])"

lemma checkpoint_safe_texts [simp]: "checkpoint_safe (opt_text_json t)" "checkpoint_safe (strings_json ss)"
  by (auto simp: opt_text_json_def strings_json_def list_all_iff split: option.splits)

lemma field_names_allowed:
  "list_all (\<lambda>k. lower k \<notin> set forbidden_keys) text_fields"
  "list_all (\<lambda>k. lower k \<notin> set forbidden_keys) [''current_node'', ''clarification_count'', ''replan_count'', ''repair_count'',
     ''model_call_count'', ''tool_call_count'', ''pending_plan_step_ids'', ''evidence_summaries'', ''cleanup_complete'']"
  by code_simp+

text \<open>
  The guard of the saver never fires: a state's own field names are allowed, and what its texts hold, a
  seller identifier or a signature among it, is not looked at.
\<close>

lemma saved_state_never_refused [simp]:
  "canonical_checkpoint_json (state_json D st) = Inr (dumps (state_json D st))"
proof -
  have "checkpoint_safe (state_json D st)"
    using field_names_allowed by (simp add: state_json_def list_all_iff)
  then show ?thesis by (simp add: canonical_checkpoint_json_def)
qed

lemma initial_state_compatible [simp]:
  "assert_checkpoint_compatible (initial_state q) (rs_config_hash (rq_run_scope q)) (rq_run_scope q) (rq_attempt_id q) = Inr ()"
  by (simp add: assert_checkpoint_compatible_def initial_state_def zero_hashes_def)

end
