(* ===== verification/Retail_Flow.thy ===== *)
theory Retail_Flow
  imports Retail_Checkpoint
begin

text \<open>
  The product flow of \<open>orchestration/retail_graph.py\<close> (\<open>RetailGraph._run_day4\<close>): decide, one SQL candidate and
  query per plan step with repairs, reconciliation, reports and proposals, the terminal outcome and the
  clean-up of private turns, with a checkpoint after every step. The context builder is that of
  \<open>Context_Builder\<close>; the gateway, the reasoner, the query engine, the dispatcher and the turn store are ports
  on the world \<open>'w\<close>. The local variables \<open>evidence_results\<close>, \<open>pending_step_ids\<close> and \<open>proposal_refs\<close> always
  equal the fields of the state, which the code writes back in the same update, and are read from it.
\<close>

subsection \<open>Dependencies and world\<close>

record retail_loop_policy =
  lp_max_model_calls :: int
  lp_max_tool_calls :: int
  lp_max_replans :: int
  lp_max_repairs :: int
  lp_max_clarifications :: int

definition valid_retail_loop_policy :: "retail_loop_policy \<Rightarrow> bool" where
  "valid_retail_loop_policy p \<longleftrightarrow>
     1 \<le> lp_max_model_calls p \<and> lp_max_model_calls p \<le> 6 \<and> 1 \<le> lp_max_tool_calls p \<and> lp_max_tool_calls p \<le> 12
     \<and> 0 \<le> lp_max_replans p \<and> lp_max_replans p \<le> 2 \<and> 0 \<le> lp_max_repairs p \<and> lp_max_repairs p \<le> 3
     \<and> 0 \<le> lp_max_clarifications p \<and> lp_max_clarifications p \<le> 2"

text \<open>
  A decoder is pydantic's typed reading of argument JSON, before the constraints of the contract;
  \<open>rd_scalar\<close> is its dump of a row value. \<open>rd_dump\<close> gives the JSON texts of a state.
\<close>

record 'w retail_deps =
  rd_builder :: context_builder
  rd_profile :: run_profile
  rd_complete :: "model_request \<Rightarrow> ('w, run_error, model_response) action"
  rd_generate :: "(sql_reasoning_request \<Rightarrow> ('w, run_error, sql_candidate) action) option"
  rd_query :: "(string \<Rightarrow> ('w, query_error, query_result) action) option"
  rd_dispatch :: "(run_scope \<Rightarrow> uuid \<Rightarrow> tool_call \<Rightarrow> prompt_step option \<Rightarrow> ('w, run_error, tool_result) action) option"
  rd_delete_attempt :: "attempt_ref \<Rightarrow> ('w, run_error, unit) action"
  rd_decode_clarification :: "string \<Rightarrow> clarification_request option"
  rd_decode_plan :: "string \<Rightarrow> investigation_plan option"
  rd_decode_report :: "string \<Rightarrow> investigation_report option"
  rd_scalar :: "query_scalar \<Rightarrow> jval"
  rd_dump :: field_dump
  rd_policy :: retail_loop_policy
  rd_interrupt_after :: "string list"

record 'w day4 =
  dw_checkpoints :: "string \<rightharpoonup> retail_state"
  dw_interrupted :: "string list"
  dw_world :: 'w

type_synonym ('w, 'a) flow = "('w day4, run_error, 'a) action"

definition on_world :: "('w, 'e, 'a) action \<Rightarrow> ('w day4, 'e, 'a) action" where
  "on_world m d = (case m (dw_world d) of (r, w) \<Rightarrow> (r, d\<lparr>dw_world := w\<rparr>))"

definition deps_sha :: "'w retail_deps \<Rightarrow> bytes \<Rightarrow> string" where
  "deps_sha R = gx_sha (bu_externals (rd_builder R))"

definition checkpoint_key :: "'w retail_deps \<Rightarrow> retail_run_request \<Rightarrow> string" where
  "checkpoint_key R q = derive_thread_id (deps_sha R) (rq_run_scope q) (rq_attempt_id q)"

definition validated :: "('a \<Rightarrow> bool) \<Rightarrow> 'a option \<Rightarrow> run_error + 'a" where
  "validated P x = (case x of None \<Rightarrow> Inl ValidationError | Some v \<Rightarrow> if P v then Inr v else Inl ValidationError)"

subsection \<open>Outcomes\<close>

definition day4_outcome ::
    "retail_run_request \<Rightarrow> retail_status \<Rightarrow> retail_terminal option \<Rightarrow> stop_outcome option \<Rightarrow> int \<Rightarrow> int \<Rightarrow> graph_hashes
       \<Rightarrow> run_error + retail_run_outcome" where
  "day4_outcome q status terminal stop model_calls tool_calls hashes = validated valid_retail_run_outcome (Some
     \<lparr>ro_status = status, ro_terminal = terminal, ro_stop = stop, ro_model_calls = model_calls,
      ro_tool_calls = tool_calls, ro_hashes = hashes, ro_attempt_id = rq_attempt_id q\<rparr>)"

definition ends_with :: "string \<Rightarrow> string \<Rightarrow> bool" where
  "ends_with suffix s \<longleftrightarrow> drop (length s - length suffix) s = suffix"

definition contains :: "string \<Rightarrow> string \<Rightarrow> bool" where
  "contains sub s \<longleftrightarrow> list_ex (\<lambda>i. take (length sub) (drop i s) = sub) [0..<Suc (length s)]"

definition stop_kind_of :: "string \<Rightarrow> bool \<Rightarrow> stop_kind" where
  "stop_kind_of reason retry_ok =
     (if ends_with ''_limit'' reason then BudgetExhausted
      else if retry_ok \<or> contains ''unavailable'' reason \<or> contains ''cleanup'' reason then InfrastructureStop
      else NoProgress)"

definition stopped_day4 ::
    "retail_run_request \<Rightarrow> string \<Rightarrow> int \<Rightarrow> int \<Rightarrow> graph_hashes \<Rightarrow> bool \<Rightarrow> run_error + retail_run_outcome" where
  "stopped_day4 q reason model_calls tool_calls hashes retry_ok =
     day4_outcome q RunStopped None
       (Some \<lparr>so_kind = stop_kind_of reason retry_ok, so_reason_code = reason, so_evidence_digest = None, so_retryable = retry_ok\<rparr>)
       model_calls tool_calls hashes"

definition restore_day4_outcome :: "retail_run_request \<Rightarrow> retail_state \<Rightarrow> run_error + retail_run_outcome" where
  "restore_day4_outcome q st =
     day4_outcome q
       (if gs_stop st \<noteq> None then RunStopped
        else case gs_terminal st of Some (Clarification _) \<Rightarrow> NeedsInput | _ \<Rightarrow> RunCompleted)
       (gs_terminal st) (gs_stop st) (gs_model_call_count st) (gs_tool_call_count st) (gs_hashes st)"

subsection \<open>Checkpoints, interrupts and the end of a run\<close>

definition save_day4_state :: "'w retail_deps \<Rightarrow> retail_run_request \<Rightarrow> retail_state \<Rightarrow> ('w, unit) flow" where
  "save_day4_state R q st =
     sbind (sresult (canonical_checkpoint_json (state_json (rd_dump R) st))) (\<lambda>_ d.
       (Inr (), d\<lparr>dw_checkpoints := (dw_checkpoints d)(checkpoint_key R q \<mapsto> st)\<rparr>))"

text \<open>The interrupt hook: a boundary is taken once per graph instance.\<close>

definition interrupt_day4 ::
    "'w retail_deps \<Rightarrow> retail_run_request \<Rightarrow> retail_state \<Rightarrow> string \<Rightarrow> ('w, retail_run_outcome option) flow" where
  "interrupt_day4 R q st boundary d =
     (if boundary \<notin> set (rd_interrupt_after R) \<or> boundary \<in> set (dw_interrupted d) then (Inr None, d)
      else (case stopped_day4 q ''checkpoint_interrupt'' (gs_model_call_count st) (gs_tool_call_count st) (gs_hashes st) True of
          Inl e \<Rightarrow> (Inl e, d\<lparr>dw_interrupted := boundary # dw_interrupted d\<rparr>)
        | Inr out \<Rightarrow> (Inr (Some out), d\<lparr>dw_interrupted := boundary # dw_interrupted d\<rparr>)))"

definition attempt_ref_of :: "'w retail_deps \<Rightarrow> retail_run_request \<Rightarrow> attempt_ref" where
  "attempt_ref_of R q =
     \<lparr>at_scope_digest = scope_digest (deps_sha R) (rq_run_scope q), at_attempt_id = rq_attempt_id q\<rparr>"

text \<open>\<open>aupdate_state\<close> with two fields merges them into the stored state.\<close>

definition mark_complete :: "'w retail_deps \<Rightarrow> retail_run_request \<Rightarrow> ('w, unit) flow" where
  "mark_complete R q d =
     (Inr (), d\<lparr>dw_checkpoints := (dw_checkpoints d)(checkpoint_key R q :=
        map_option (\<lambda>st. st\<lparr>gs_cleanup_complete := True, gs_current_node := CompleteNode\<rparr>)
          (dw_checkpoints d (checkpoint_key R q)))\<rparr>)"

definition finish_day4 :: "'w retail_deps \<Rightarrow> retail_run_request \<Rightarrow> retail_run_outcome \<Rightarrow> ('w, retail_run_outcome) flow" where
  "finish_day4 R q desired d =
     (case on_world (rd_delete_attempt R (attempt_ref_of R q)) d of
        (Inl _, d') \<Rightarrow> (stopped_day4 q ''private_turn_cleanup_failed'' (ro_model_calls desired) (ro_tool_calls desired)
                          (ro_hashes desired) True, d')
      | (Inr _, d') \<Rightarrow> sbind (mark_complete R q) (\<lambda>_. sreturn desired) d')"

definition persisted_outcome :: "retail_run_outcome \<Rightarrow> retail_state \<Rightarrow> retail_state" where
  "persisted_outcome desired st =
     st\<lparr>gs_current_node := Finalize, gs_model_call_count := ro_model_calls desired,
        gs_tool_call_count := ro_tool_calls desired, gs_hashes := ro_hashes desired,
        gs_terminal := ro_terminal desired, gs_stop := ro_stop desired, gs_cleanup_complete := False\<rparr>"

definition cache_and_finish ::
    "'w retail_deps \<Rightarrow> retail_run_request \<Rightarrow> retail_run_outcome \<Rightarrow> retail_state \<Rightarrow> ('w, retail_run_outcome) flow" where
  "cache_and_finish R q desired st =
     (let persisted = persisted_outcome desired st in
      sbind (save_day4_state R q persisted) (\<lambda>_.
      sbind (interrupt_day4 R q persisted ''commit_terminal'') (\<lambda>interrupted.
      case interrupted of Some out \<Rightarrow> sreturn out | None \<Rightarrow> finish_day4 R q desired)))"

text \<open>\<open>desired = self._stopped_day4(...); return await self._cache_and_finish(...)\<close>.\<close>

definition stop_with ::
    "'w retail_deps \<Rightarrow> retail_run_request \<Rightarrow> string \<Rightarrow> int \<Rightarrow> int \<Rightarrow> retail_state \<Rightarrow> ('w, retail_run_outcome) flow" where
  "stop_with R q reason model_calls tool_calls st =
     sbind (sresult (stopped_day4 q reason model_calls tool_calls (gs_hashes st) False)) (\<lambda>desired.
       cache_and_finish R q desired st)"

subsection \<open>The model\<close>

definition bundle_hashes :: "prompt_bundle \<Rightarrow> graph_hashes" where
  "bundle_hashes b = \<lparr>gh_prompt_policy_hash = pu_prompt_policy_hash b, gh_rendered_prompt_hash = pu_rendered_prompt_hash b,
     gh_tool_hash = pu_tool_hash b, gh_context_hash = pu_context_hash b, gh_config_hash = pu_config_hash b\<rparr>"

definition bound_to :: "(bytes \<Rightarrow> string) \<Rightarrow> run_scope \<Rightarrow> uuid \<Rightarrow> int \<Rightarrow> model_response \<Rightarrow> bool" where
  "bound_to sha scope attempt sequence resp \<longleftrightarrow>
     tf_scope_digest (ms_provider_turn_ref resp) = scope_digest sha scope
     \<and> tf_attempt_id (ms_provider_turn_ref resp) = attempt \<and> tf_sequence (ms_provider_turn_ref resp) = sequence"

definition day4_context :: "'w retail_deps \<Rightarrow> retail_run_request \<Rightarrow> prompt_step \<Rightarrow> context_datum list \<Rightarrow> int \<Rightarrow> context_request" where
  "day4_context R q step evidence sequence =
     \<lparr>cr_run_scope = rq_run_scope q, cr_attempt_id = rq_attempt_id q, cr_sequence = sequence, cr_profile = rd_profile R,
      cr_step = step, cr_current_input = rq_current_input q, cr_confirmed_facts = rq_confirmed_facts q,
      cr_evidence = evidence, cr_latest_error = None, cr_history = []\<rparr>"

definition call_day4_model ::
    "'w retail_deps \<Rightarrow> retail_run_request \<Rightarrow> prompt_step \<Rightarrow> context_datum list \<Rightarrow> int \<Rightarrow> ('w, model_output \<times> graph_hashes) flow" where
  "call_day4_model R q step evidence sequence =
     (case build_context (rd_builder R) (day4_context R q step evidence sequence) of
        Inl e \<Rightarrow> sraise (ContextError e)
      | Inr bundle \<Rightarrow>
          sbind (on_world (rd_complete R (pu_model_request bundle))) (\<lambda>resp.
            if \<not> bound_to (deps_sha R) (rq_run_scope q) (rq_attempt_id q) sequence resp
            then sraise (ToolContractError ''model_response_binding_mismatch'')
            else sreturn (ms_output resp, bundle_hashes bundle)))"

definition one_tool_call :: "'w retail_deps \<Rightarrow> model_output \<Rightarrow> prompt_step \<Rightarrow> run_error + tool_call" where
  "one_tool_call R out step = (case out of
       ToolCallOutput [call] \<Rightarrow>
         (case rule_for (rd_profile R) step of
            None \<Rightarrow> Inl (OtherFailure ''RuntimeError'')
          | Some rule \<Rightarrow> if tc_name call \<notin> set (ir_tool_names rule)
              then Inl (ToolContractError ''tool_not_allowed_for_step'') else Inr call)
     | _ \<Rightarrow> Inl (ToolContractError ''typed_retail_action_required''))"

subsection \<open>Deciding\<close>

text \<open>\<open>except (ValidationError, ValueError)\<close>.\<close>

definition decide_exception :: "run_error \<Rightarrow> run_error" where
  "decide_exception e =
     (if e \<in> {ValidationError, ContextError BuilderValueError, GatewayFailure ValueErrorRaised,
              GatewayFailure (StateFailure TurnContractError), OtherFailure ''ValueError''}
      then ToolContractError ''invalid_tool_arguments'' else e)"

definition planned_state :: "retail_run_request \<Rightarrow> investigation_plan \<Rightarrow> graph_hashes \<Rightarrow> retail_state" where
  "planned_state q plan hashes = (initial_state q)
     \<lparr>gs_current_node := PreparePlanStep, gs_model_call_count := 1, gs_tool_call_count := 1, gs_plan := Some plan,
      gs_pending_steps := map qs_step_id (ip_steps plan), gs_hashes := hashes\<rparr>"

text \<open>The first call: an outcome (a clarification is asked for), or the planned state.\<close>

definition act_on_decision ::
    "'w retail_deps \<Rightarrow> retail_run_request \<Rightarrow> tool_call \<Rightarrow> graph_hashes \<Rightarrow> ('w, retail_run_outcome + retail_state) flow" where
  "act_on_decision R q call hashes =
     (if tc_name call = ''request_clarification''
      then sbind (sresult (validated valid_clarification_request (rd_decode_clarification R (tc_arguments_json call)))) (\<lambda>c.
           sbind (sresult (day4_outcome q NeedsInput (Some (Clarification c)) None 1 1 hashes)) (\<lambda>desired.
           sbind (cache_and_finish R q desired (initial_state q)) (\<lambda>out. sreturn (Inl out))))
      else if tc_name call \<noteq> ''submit_investigation_plan'' then sraise (ToolContractError ''investigation_plan_required'')
      else sbind (sresult (validated valid_investigation_plan (rd_decode_plan R (tc_arguments_json call)))) (\<lambda>plan.
           sreturn (Inr (planned_state q plan hashes))))"

definition decide_day4 :: "'w retail_deps \<Rightarrow> retail_run_request \<Rightarrow> ('w, retail_run_outcome + retail_state) flow" where
  "decide_day4 R q = handling decide_exception
     (sbind (call_day4_model R q RetailDecide (rq_evidence q) 0) (\<lambda>(out, hashes).
      sbind (sresult (one_tool_call R out RetailDecide)) (\<lambda>call. act_on_decision R q call hashes)))"

subsection \<open>Plan steps\<close>

definition query_evidence_id :: "string \<Rightarrow> string" where
  "query_evidence_id step = ''query:'' @ step"

definition evidence_of :: "string \<Rightarrow> query_result \<Rightarrow> sql_candidate \<Rightarrow> evidence_result" where
  "evidence_of step r c = \<lparr>ev_evidence_id = query_evidence_id step, ev_columns = qr_columns r, ev_rows = qr_rows r,
     ev_query_fingerprint = fp_digest (ca_execution_fingerprint c)\<rparr>"

definition evidence_jval :: "(query_scalar \<Rightarrow> jval) \<Rightarrow> evidence_result \<Rightarrow> jval" where
  "evidence_jval scalar e = VObj [(''evidence_id'', VStr (ev_evidence_id e)), (''columns'', VList (map VStr (ev_columns e))),
     (''rows'', VList (map (\<lambda>row. VObj (map (map_prod id scalar) row)) (ev_rows e))),
     (''query_fingerprint'', VStr (ev_query_fingerprint e))]"

text \<open>\<open>_canonical_json\<close>: \<open>allow_nan=False\<close> raises ValueError on a value that is not finite.\<close>

definition canonical_json_of :: "jval \<Rightarrow> run_error + string" where
  "canonical_json_of v = (case canonical_text v of None \<Rightarrow> Inl (OtherFailure ''ValueError'') | Some s \<Rightarrow> Inr s)"

definition evidence_list_json :: "'w retail_deps \<Rightarrow> evidence_result list \<Rightarrow> run_error + string" where
  "evidence_list_json R es = canonical_json_of (VList (map (evidence_jval (rd_scalar R)) es))"

definition queried_state :: "retail_state \<Rightarrow> evidence_result \<Rightarrow> retail_state" where
  "queried_state st e = st\<lparr>gs_current_node := PreparePlanStep, gs_tool_call_count := gs_tool_call_count st + 1,
     gs_pending_steps := tl (gs_pending_steps st), gs_candidate := None, gs_latest_error := None,
     gs_evidence := gs_evidence st @ [e]\<rparr>"

definition repair_state :: "retail_state \<Rightarrow> product_db_error \<Rightarrow> retail_state" where
  "repair_state st e = st\<lparr>gs_current_node := SqlReason, gs_tool_call_count := gs_tool_call_count st + 1,
     gs_repair_count := gs_repair_count st + 1, gs_latest_error := Some e\<rparr>"

text \<open>The execution half of a turn: an outcome (\<open>Inl\<close>) or the state the loop goes on with.\<close>

definition execute_candidate ::
    "'w retail_deps \<Rightarrow> retail_run_request \<Rightarrow> (string \<Rightarrow> ('w, query_error, query_result) action) \<Rightarrow> string \<Rightarrow> sql_candidate
       \<Rightarrow> retail_state \<Rightarrow> ('w, retail_run_outcome + retail_state) flow" where
  "execute_candidate R q query step c st d =
     (case on_world (query (ca_sql c)) d of
        (Inr r, d') \<Rightarrow>
          (let e = evidence_of step r c; st' = queried_state st e in
           if \<not> valid_evidence_result e then (Inl ValidationError, d')
           else sbind (sresult (evidence_list_json R (gs_evidence st'))) (\<lambda>_.
                sbind (save_day4_state R q st') (\<lambda>_.
                sbind (interrupt_day4 R q st' ''execute_query'') (\<lambda>interrupted.
                sreturn (case interrupted of Some out \<Rightarrow> Inl out | None \<Rightarrow> Inr st')))) d')
      | (Inl e, d') \<Rightarrow>
          (case engine_reason e of
             None \<Rightarrow> (Inl (OtherFailure (case e of EscapedError n \<Rightarrow> n | _ \<Rightarrow> [])), d')
           | Some reason \<Rightarrow>
               if lp_max_repairs (rd_policy R) \<le> ca_repair_number c \<or> lp_max_repairs (rd_policy R) \<le> gs_repair_count st
               then sbind (stop_with R q ''sql_repair_limit'' (gs_model_call_count st) (gs_tool_call_count st + 1) st)
                      (\<lambda>out. sreturn (Inl out)) d'
               else sbind (sresult (validated valid_product_db_error (Some
                      \<lparr>pe_source = ''query_engine'', pe_reason_code = reason, pe_retryable = True,
                       pe_evidence_digest = fp_digest (ca_execution_fingerprint c)\<rparr>))) (\<lambda>latest.
                    sbind (save_day4_state R q (repair_state st latest)) (\<lambda>_.
                    sreturn (Inr (repair_state st latest)))) d'))"

definition reasoning_request :: "retail_run_request \<Rightarrow> query_plan_step \<Rightarrow> retail_state \<Rightarrow> sql_reasoning_request" where
  "reasoning_request q step st =
     \<lparr>sq_run_scope = rq_run_scope q, sq_attempt_id = rq_attempt_id q, sq_sequence = gs_model_call_count st,
      sq_step_id = qs_step_id step, sq_current_input = rq_current_input q, sq_confirmed_facts = rq_confirmed_facts q,
      sq_evidence = rq_evidence q,
      sq_repair_number = (if gs_latest_error st \<noteq> None then ca_repair_number (the (gs_candidate st)) + 1 else 0),
      sq_latest_error = gs_latest_error st, sq_previous = gs_candidate st\<rparr>"

definition candidate_state :: "retail_state \<Rightarrow> sql_candidate \<Rightarrow> retail_state" where
  "candidate_state st c = st\<lparr>gs_current_node := ExecuteQuery, gs_model_call_count := gs_model_call_count st + 1,
     gs_candidate := Some c\<rparr>"

definition find_step :: "retail_state \<Rightarrow> string \<Rightarrow> query_plan_step option" where
  "find_step st i = (case gs_plan st of None \<Rightarrow> None | Some p \<Rightarrow> find (\<lambda>s. qs_step_id s = i) (ip_steps p))"

definition candidate_turn ::
    "'w retail_deps \<Rightarrow> retail_run_request \<Rightarrow> (sql_reasoning_request \<Rightarrow> ('w, run_error, sql_candidate) action)
       \<Rightarrow> (string \<Rightarrow> ('w, query_error, query_result) action) \<Rightarrow> query_plan_step \<Rightarrow> retail_state
       \<Rightarrow> ('w, retail_run_outcome + retail_state) flow" where
  "candidate_turn R q gen query step st d =
     (if lp_max_model_calls (rd_policy R) \<le> gs_model_call_count st
      then sbind (stop_with R q ''model_call_limit'' (gs_model_call_count st) (gs_tool_call_count st) st) (\<lambda>out. sreturn (Inl out)) d
      else if gs_latest_error st \<noteq> None \<and> gs_candidate st = None then (Inl (OtherFailure ''AttributeError''), d)
      else if \<not> valid_sql_reasoning_request (reasoning_request q step st) then (Inl ValidationError, d)
      else (case on_world (gen (reasoning_request q step st)) d of
          (Inl SqlNoProgress, d') \<Rightarrow>
            sbind (stop_with R q ''sql_no_progress'' (gs_model_call_count st + 1) (gs_tool_call_count st) st) (\<lambda>out. sreturn (Inl out)) d'
        | (Inl e, d') \<Rightarrow> (Inl e, d')
        | (Inr c, d') \<Rightarrow>
            (let st' = candidate_state st c in
             sbind (save_day4_state R q st') (\<lambda>_.
             sbind (interrupt_day4 R q st' ''checkpoint_candidate'') (\<lambda>interrupted.
             case interrupted of Some out \<Rightarrow> sreturn (Inl out)
             | None \<Rightarrow> execute_candidate R q query (qs_step_id step) c st')) d')))"

text \<open>One turn of \<open>while pending_step_ids\<close>.\<close>

definition plan_turn ::
    "'w retail_deps \<Rightarrow> retail_run_request \<Rightarrow> (sql_reasoning_request \<Rightarrow> ('w, run_error, sql_candidate) action)
       \<Rightarrow> (string \<Rightarrow> ('w, query_error, query_result) action) \<Rightarrow> retail_state \<Rightarrow> ('w, retail_run_outcome + retail_state) flow" where
  "plan_turn R q gen query st =
     (case find_step st (hd (gs_pending_steps st)) of
        None \<Rightarrow> sraise (CheckpointIncompatible ''plan_step_missing'')
      | Some step \<Rightarrow>
          (case (gs_current_node st, gs_candidate st) of
             (ExecuteQuery, Some c) \<Rightarrow> execute_candidate R q query (qs_step_id step) c st
           | _ \<Rightarrow> candidate_turn R q gen query step st))"

definition plan_measure :: "'w retail_deps \<Rightarrow> retail_state \<Rightarrow> nat" where
  "plan_measure R st = 2 * nat (lp_max_model_calls (rd_policy R) - gs_model_call_count st)
     + (if gs_current_node st = ExecuteQuery \<and> gs_candidate st \<noteq> None then 1 else 0)"

lemma on_world_simps [simp]:
  "m (dw_world d) = (r, w) \<Longrightarrow> on_world m d = (r, d\<lparr>dw_world := w\<rparr>)"
  by (simp add: on_world_def)

lemma execute_candidate_next:
  assumes "execute_candidate R q query step c st d = (Inr (Inr st'), d')"
  shows "gs_model_call_count st' = gs_model_call_count st
    \<and> ((\<exists>e. st' = queried_state st e) \<or> (\<exists>e. st' = repair_state st e))"
  using assms by (auto simp: execute_candidate_def Let_def sbind_Inr_iff queried_state_def repair_state_def
      split: prod.splits sum.splits option.splits if_splits)

lemma plan_turn_decreases:
  assumes "plan_turn R q gen query st d = (Inr (Inr st'), d')"
  shows "plan_measure R st' < plan_measure R st"
proof -
  obtain step where f: "find_step st (hd (gs_pending_steps st)) = Some step"
    using assms by (auto simp: plan_turn_def split: option.splits)
  have exec: "plan_measure R s' < plan_measure R s"
    if "execute_candidate R q query i c s e = (Inr (Inr s'), e')" "gs_current_node s = ExecuteQuery" "gs_candidate s = Some c"
    for i c s s' e e'
    using execute_candidate_next [OF that(1)] that(2,3) by (auto simp: plan_measure_def queried_state_def repair_state_def)
  show ?thesis
  proof (cases "gs_current_node st = ExecuteQuery \<and> gs_candidate st \<noteq> None")
    case True
    then obtain c where c: "gs_current_node st = ExecuteQuery" "gs_candidate st = Some c" by auto
    then have "execute_candidate R q query (qs_step_id step) c st d = (Inr (Inr st'), d')"
      using assms f by (simp add: plan_turn_def)
    then show ?thesis using exec c by blast
  next
    case False
    then have "candidate_turn R q gen query step st d = (Inr (Inr st'), d')"
      using assms f by (auto simp: plan_turn_def split: graph_node.splits option.splits)
    then obtain c e where lt: "\<not> lp_max_model_calls (rd_policy R) \<le> gs_model_call_count st" and
      x: "execute_candidate R q query (qs_step_id step) c (candidate_state st c) e = (Inr (Inr st'), d')"
      by (auto simp: candidate_turn_def Let_def sbind_Inr_iff split: prod.splits sum.splits option.splits if_splits run_error.splits)
    have "plan_measure R st' < plan_measure R (candidate_state st c)"
      by (rule exec [OF x]) (simp_all add: candidate_state_def)
    also have "plan_measure R (candidate_state st c) \<le> plan_measure R st"
      using lt False by (auto simp: plan_measure_def candidate_state_def)
    finally show ?thesis .
  qed
qed

function plan_loop ::
    "'w retail_deps \<Rightarrow> retail_run_request \<Rightarrow> (sql_reasoning_request \<Rightarrow> ('w, run_error, sql_candidate) action)
       \<Rightarrow> (string \<Rightarrow> ('w, query_error, query_result) action) \<Rightarrow> retail_state \<Rightarrow> ('w, retail_run_outcome + retail_state) flow" where
  "plan_loop R q gen query st d =
     (if gs_pending_steps st = [] then (Inr (Inr st), d)
      else (case plan_turn R q gen query st d of
          (Inr (Inr st'), d') \<Rightarrow> plan_loop R q gen query st' d'
        | (Inr (Inl out), d') \<Rightarrow> (Inr (Inl out), d')
        | (Inl e, d') \<Rightarrow> (Inl e, d')))"
  by pat_completeness auto
termination
  by (relation "measure (\<lambda>(R, q, gen, query, st, d). plan_measure R st)") (auto intro: plan_turn_decreases [OF sym])

declare plan_loop.simps [simp del]

subsection \<open>Reconciliation and the report's evidence\<close>

text \<open>The one check that is recorded, passed whatever the evidence holds.\<close>

definition assumed_reconciliation :: "string \<Rightarrow> reconciliation_result" where
  "assumed_reconciliation digest = \<lparr>rr_passed = True, rr_checks =
     [\<lparr>rk_rule_type = ''null'', rk_passed = True, rk_reason_code = ''reconciled'', rk_actual_digest = digest,
       rk_expected_digest = digest\<rparr>]\<rparr>"

definition reconciled_state :: "retail_state \<Rightarrow> reconciliation_result \<Rightarrow> retail_state" where
  "reconciled_state st r = st\<lparr>gs_current_node := PrepareReport, gs_reconciliation := Some r\<rparr>"

definition reconcile_day4 :: "'w retail_deps \<Rightarrow> retail_run_request \<Rightarrow> retail_state \<Rightarrow> ('w, reconciliation_result \<times> retail_state) flow" where
  "reconcile_day4 R q st = (case gs_reconciliation st of
       Some r \<Rightarrow> sreturn (r, st)
     | None \<Rightarrow>
         sbind (sresult (evidence_list_json R (gs_evidence st))) (\<lambda>t.
         sbind (sresult (validated valid_reconciliation_result (Some (assumed_reconciliation (deps_sha R (utf8 t)))))) (\<lambda>r.
         sbind (save_day4_state R q (reconciled_state st r)) (\<lambda>_.
         sreturn (r, reconciled_state st r)))))"

definition tool_datum :: "(bytes \<Rightarrow> string) \<Rightarrow> string \<Rightarrow> string \<Rightarrow> string \<Rightarrow> run_error + context_datum" where
  "tool_datum sha source revision content = validated (valid_context_datum sha) (Some
     \<lparr>dt_kind = KToolResult, dt_namespace = NProductQueryResult, dt_source_ref = source, dt_revision = Some revision,
      dt_content = content, dt_digest = sha (utf8 content)\<rparr>)"

definition query_evidence_datum :: "'w retail_deps \<Rightarrow> evidence_result \<Rightarrow> run_error + context_datum" where
  "query_evidence_datum R e = rbind (canonical_json_of (evidence_jval (rd_scalar R) e)) (\<lambda>content.
     tool_datum (deps_sha R) (ev_evidence_id e) ''query-evidence-v1'' content)"

definition check_jval :: "reconciliation_check \<Rightarrow> jval" where
  "check_jval c = VObj [(''rule_type'', VStr (rk_rule_type c)), (''passed'', VBool (rk_passed c)),
     (''reason_code'', VStr (rk_reason_code c)), (''actual_digest'', VStr (rk_actual_digest c)),
     (''expected_digest'', VStr (rk_expected_digest c))]"

definition reconciliation_text :: "reconciliation_result \<Rightarrow> string" where
  "reconciliation_text r = compact (VObj [(''passed'', VBool (rr_passed r)), (''checks'', VList (map check_jval (rr_checks r)))])"

primrec traverse :: "('a \<Rightarrow> 'e + 'b) \<Rightarrow> 'a list \<Rightarrow> 'e + 'b list" where
  "traverse f [] = Inr []"
| "traverse f (x # xs) = rbind (f x) (\<lambda>y. rbind (traverse f xs) (\<lambda>ys. Inr (y # ys)))"

definition report_evidence :: "'w retail_deps \<Rightarrow> retail_state \<Rightarrow> reconciliation_result \<Rightarrow> run_error + context_datum list" where
  "report_evidence R st r =
     rbind (traverse (query_evidence_datum R) (gs_evidence st)) (\<lambda>datums.
     rbind (tool_datum (deps_sha R) ''reconciliation:plan'' ''reconciliation-v1'' (reconciliation_text r)) (\<lambda>d.
     Inr (datums @ [d])))"

subsection \<open>Reports and proposals\<close>

definition counted_state :: "retail_state \<Rightarrow> graph_hashes \<Rightarrow> retail_state" where
  "counted_state st h = st\<lparr>gs_model_call_count := gs_model_call_count st + 1,
     gs_tool_call_count := gs_tool_call_count st + 1, gs_hashes := h\<rparr>"

definition proposing_state :: "retail_state \<Rightarrow> tool_call \<Rightarrow> retail_state" where
  "proposing_state st call = st\<lparr>gs_current_node := CreateProposal, gs_pending_batch := Some (PendingCall call)\<rparr>"

definition proposed_state :: "retail_state \<Rightarrow> string list \<Rightarrow> retail_state" where
  "proposed_state st refs = st\<lparr>gs_current_node := PrepareReport, gs_pending_batch := None,
     gs_proposal_refs := gs_proposal_refs st @ refs\<rparr>"

definition proposals_declared :: "string list \<Rightarrow> investigation_report \<Rightarrow> bool" where
  "proposals_declared refs r \<longleftrightarrow>
     list_all (\<lambda>ref. list_ex (\<lambda>p. contains (uuid_str (proposal_id p)) ref) (rp_proposal_refs r)) refs"

text \<open>What follows the choice of a call: the state holds the counts after the call.\<close>

definition act_on_call ::
    "'w retail_deps \<Rightarrow> retail_run_request \<Rightarrow> tool_call \<Rightarrow> retail_state \<Rightarrow> ('w, retail_run_outcome + retail_state) flow" where
  "act_on_call R q call st =
     (if tc_name call = ''propose_operation''
      then (case rd_dispatch R of
          None \<Rightarrow> sbind (stop_with R q ''operation_workflow_unavailable'' (gs_model_call_count st) (gs_tool_call_count st) st)
                    (\<lambda>out. sreturn (Inl out))
        | Some dispatch \<Rightarrow>
            sbind (save_day4_state R q (proposing_state st call)) (\<lambda>_.
            sbind (on_world (dispatch (rq_run_scope q) (rq_attempt_id q) call (Some RetailReport))) (\<lambda>result.
            let st' = proposed_state st (tl_source_refs result) in
            sbind (save_day4_state R q st') (\<lambda>_.
            sbind (interrupt_day4 R q st' ''create_proposal'') (\<lambda>interrupted.
            sreturn (case interrupted of Some out \<Rightarrow> Inl out | None \<Rightarrow> Inr st'))))))
      else if tc_name call \<noteq> ''submit_investigation_report'' then sraise (ToolContractError ''investigation_report_required'')
      else (case validated valid_investigation_report (rd_decode_report R (tc_arguments_json call)) of
          Inl _ \<Rightarrow> sraise (ToolContractError ''invalid_tool_arguments'')
        | Inr report \<Rightarrow>
            if \<not> proposals_declared (gs_proposal_refs st) report
            then sraise (ToolContractError ''proposal_reference_mismatch'')
            else sbind (sresult (day4_outcome q RunCompleted (Some (Report report)) None (gs_model_call_count st)
                     (gs_tool_call_count st) (gs_hashes st))) (\<lambda>desired.
                 sbind (cache_and_finish R q desired st) (\<lambda>out. sreturn (Inl out)))))"

text \<open>One turn of \<open>while True\<close>: a saved call is acted on again, else the model is asked.\<close>

definition report_turn ::
    "'w retail_deps \<Rightarrow> retail_run_request \<Rightarrow> context_datum list \<Rightarrow> retail_state \<Rightarrow> ('w, retail_run_outcome + retail_state) flow" where
  "report_turn R q evidence st =
     (case (gs_current_node st, gs_pending_batch st) of
        (CreateProposal, Some (PendingCall call)) \<Rightarrow> act_on_call R q call st
      | (CreateProposal, Some (PendingBatch _)) \<Rightarrow> sraise ValidationError
      | _ \<Rightarrow>
          if lp_max_model_calls (rd_policy R) \<le> gs_model_call_count st
          then sbind (stop_with R q ''model_call_limit'' (gs_model_call_count st) (gs_tool_call_count st) st) (\<lambda>out. sreturn (Inl out))
          else sbind (call_day4_model R q RetailReport evidence (gs_model_call_count st)) (\<lambda>(out, hashes).
               sbind (sresult (one_tool_call R out RetailReport)) (\<lambda>call.
               act_on_call R q call (counted_state st hashes))))"

definition report_measure :: "'w retail_deps \<Rightarrow> retail_state \<Rightarrow> nat" where
  "report_measure R st = 2 * nat (lp_max_model_calls (rd_policy R) - gs_model_call_count st)
     + (if gs_current_node st = CreateProposal \<and> gs_pending_batch st \<noteq> None then 1 else 0)"

lemma act_on_call_next:
  assumes "act_on_call R q call st d = (Inr (Inr st'), d')"
  shows "\<exists>refs. st' = proposed_state st refs"
  using assms by (auto simp: act_on_call_def Let_def sbind_Inr_iff split: if_splits option.splits sum.splits)

lemma report_turn_decreases:
  assumes "report_turn R q evidence st d = (Inr (Inr st'), d')"
  shows "report_measure R st' < report_measure R st"
proof -
  have acted: "report_measure R s' = 2 * nat (lp_max_model_calls (rd_policy R) - gs_model_call_count s)"
    if "act_on_call R q call s e = (Inr (Inr s'), e')" for call s s' e e'
    using act_on_call_next [OF that] by (auto simp: report_measure_def proposed_state_def)
  show ?thesis
  proof (cases "gs_current_node st = CreateProposal \<and> gs_pending_batch st \<noteq> None")
    case True
    then obtain call where "gs_current_node st = CreateProposal" "gs_pending_batch st = Some (PendingCall call)"
      "act_on_call R q call st d = (Inr (Inr st'), d')"
      using assms by (auto simp: report_turn_def split: pending_json.splits)
    then show ?thesis using acted by (auto simp: report_measure_def)
  next
    case False
    then obtain call hashes e where lt: "\<not> lp_max_model_calls (rd_policy R) \<le> gs_model_call_count st" and
      a: "act_on_call R q call (counted_state st hashes) e = (Inr (Inr st'), d')"
      using assms by (auto simp: report_turn_def sbind_Inr_iff split: graph_node.splits option.splits if_splits prod.splits)
    show ?thesis using acted [OF a] lt by (simp add: report_measure_def counted_state_def)
  qed
qed

function report_loop ::
    "'w retail_deps \<Rightarrow> retail_run_request \<Rightarrow> context_datum list \<Rightarrow> retail_state \<Rightarrow> ('w, retail_run_outcome) flow" where
  "report_loop R q evidence st d =
     (case report_turn R q evidence st d of
        (Inr (Inr st'), d') \<Rightarrow> report_loop R q evidence st' d'
      | (Inr (Inl out), d') \<Rightarrow> (Inr out, d')
      | (Inl e, d') \<Rightarrow> (Inl e, d'))"
  by pat_completeness auto
termination
  by (relation "measure (\<lambda>(R, q, evidence, st, d). report_measure R st)") (auto intro: report_turn_decreases [OF sym])

declare report_loop.simps [simp del]

subsection \<open>The run\<close>

text \<open>From a planned state to the outcome.\<close>

definition report_phase :: "'w retail_deps \<Rightarrow> retail_run_request \<Rightarrow> retail_state \<Rightarrow> ('w, retail_run_outcome) flow" where
  "report_phase R q st =
     sbind (reconcile_day4 R q st) (\<lambda>(r, st').
     sbind (sresult (report_evidence R st' r)) (\<lambda>evidence. report_loop R q evidence st'))"

definition work_day4 :: "'w retail_deps \<Rightarrow> retail_run_request \<Rightarrow> retail_state \<Rightarrow> ('w, retail_run_outcome) flow" where
  "work_day4 R q st = (case (rd_generate R, rd_query R) of
       (Some gen, Some query) \<Rightarrow>
         (case gs_plan st of
            None \<Rightarrow> sraise (CheckpointIncompatible ''investigation_plan_missing'')
          | Some plan \<Rightarrow>
              sbind (plan_loop R q gen query st) (\<lambda>next. case next of
                Inl out \<Rightarrow> sreturn out | Inr st' \<Rightarrow> report_phase R q st'))
     | _ \<Rightarrow> stop_with R q ''product_query_capability_unavailable'' (gs_model_call_count st) (gs_tool_call_count st) st)"

definition resume_day4 :: "'w retail_deps \<Rightarrow> retail_run_request \<Rightarrow> retail_state \<Rightarrow> ('w, retail_run_outcome) flow" where
  "resume_day4 R q st =
     sbind (sresult (assert_checkpoint_compatible st (rs_config_hash (rq_run_scope q)) (rq_run_scope q) (rq_attempt_id q))) (\<lambda>_.
     if gs_request st \<noteq> q then sraise (CheckpointIncompatible ''request_mismatch'')
     else if gs_terminal st \<noteq> None \<or> gs_stop st \<noteq> None
     then sbind (sresult (restore_day4_outcome q st)) (\<lambda>desired.
            if gs_cleanup_complete st then sreturn desired else finish_day4 R q desired)
     else work_day4 R q st)"

definition run_day4 :: "'w retail_deps \<Rightarrow> retail_run_request \<Rightarrow> ('w, retail_run_outcome) flow" where
  "run_day4 R q d = (case dw_checkpoints d (checkpoint_key R q) of
       Some st \<Rightarrow> resume_day4 R q st d
     | None \<Rightarrow>
         sbind (decide_day4 R q) (\<lambda>decided. case decided of
           Inl out \<Rightarrow> sreturn out
         | Inr st \<Rightarrow> sbind (save_day4_state R q st) (\<lambda>_. work_day4 R q st)) d)"

end
