(* ===== verification/Retail_Runs.thy ===== *)
theory Retail_Runs
  imports Retail_Flow
begin

text \<open>
  What the product flow guarantees over all its steps and all restarts. Every state that a run saves is
  \<open>held\<close>: bound to the request, within the model-call limit, with one model call accounted for every
  finished plan step, every repair and every report call. The lemmas go through the flow with \<open>yields\<close>,
  a rule per combinator: the invariant of the checkpoint is kept whatever a port answers or raises, and
  the returned value has the stated property.
\<close>

subsection \<open>Invariants of a checkpoint\<close>

text \<open>The call limits: every step, repair and report call has its own model call.\<close>

definition work_done :: "retail_state \<Rightarrow> int" where
  "work_done st = 1 + int (length (gs_evidence st)) + gs_repair_count st"

definition reported :: "retail_state \<Rightarrow> bool" where
  "reported st \<longleftrightarrow> gs_pending_steps st = [] \<and> work_done st + 1 \<le> gs_model_call_count st"

definition plan_progress :: "retail_state \<Rightarrow> bool" where
  "plan_progress st \<longleftrightarrow> (case gs_plan st of
       None \<Rightarrow> gs_evidence st = [] \<and> gs_pending_steps st = []
     | Some p \<Rightarrow> map ev_evidence_id (gs_evidence st) @ map query_evidence_id (gs_pending_steps st)
           = map (query_evidence_id \<circ> qs_step_id) (ip_steps p)
         \<and> work_done st + (if gs_current_node st = ExecuteQuery then 1 else 0) \<le> gs_model_call_count st)"

definition calls_accounted :: "'w retail_deps \<Rightarrow> retail_state \<Rightarrow> bool" where
  "calls_accounted R st \<longleftrightarrow>
     0 \<le> gs_tool_call_count st \<and> gs_tool_call_count st \<le> gs_model_call_count st
     \<and> gs_model_call_count st \<le> lp_max_model_calls (rd_policy R) \<and> 0 \<le> gs_repair_count st \<and> plan_progress st
     \<and> (gs_current_node st = ExecuteQuery \<longrightarrow> gs_tool_call_count st < gs_model_call_count st)
     \<and> (gs_current_node st = CreateProposal \<longrightarrow> reported st)
     \<and> (\<forall>r. gs_terminal st = Some (Report r) \<longrightarrow> gs_plan st \<noteq> None \<and> reported st)"

definition identified :: "retail_run_request \<Rightarrow> retail_state \<Rightarrow> bool" where
  "identified q st \<longleftrightarrow> gs_request st = q
     \<and> assert_checkpoint_compatible st (rs_config_hash (rq_run_scope q)) (rq_run_scope q) (rq_attempt_id q) = Inr ()"

definition held :: "'w retail_deps \<Rightarrow> retail_run_request \<Rightarrow> retail_state \<Rightarrow> bool" where
  "held R q st \<longleftrightarrow> identified q st \<and> calls_accounted R st"

definition working :: "'w retail_deps \<Rightarrow> retail_run_request \<Rightarrow> retail_state \<Rightarrow> bool" where
  "working R q st \<longleftrightarrow> held R q st \<and> gs_terminal st = None \<and> gs_stop st = None"

definition sound_world :: "'w retail_deps \<Rightarrow> retail_run_request \<Rightarrow> 'w day4 \<Rightarrow> bool" where
  "sound_world R q d \<longleftrightarrow> (\<forall>st. dw_checkpoints d (checkpoint_key R q) = Some st \<longrightarrow> held R q st)"

text \<open>What a returned outcome promises: its counts, and that a finished one is what the checkpoint holds.\<close>

definition finished :: "'w retail_deps \<Rightarrow> retail_run_request \<Rightarrow> retail_run_outcome \<Rightarrow> 'w day4 \<Rightarrow> bool" where
  "finished R q out d \<longleftrightarrow>
     0 \<le> ro_tool_calls out \<and> ro_tool_calls out \<le> ro_model_calls out
     \<and> ro_model_calls out \<le> lp_max_model_calls (rd_policy R) \<and> valid_retail_run_outcome out
     \<and> (ro_status out \<noteq> RunStopped \<longrightarrow> (\<exists>st. dw_checkpoints d (checkpoint_key R q) = Some st \<and> held R q st
          \<and> gs_terminal st = ro_terminal out \<and> gs_stop st = None \<and> gs_model_call_count st = ro_model_calls out
          \<and> gs_cleanup_complete st))"

subsection \<open>Rules\<close>

definition yields :: "('w day4 \<Rightarrow> bool) \<Rightarrow> ('w, 'a) flow \<Rightarrow> ('a \<Rightarrow> 'w day4 \<Rightarrow> bool) \<Rightarrow> bool" where
  "yields I m Q \<longleftrightarrow> (\<forall>d. I d \<longrightarrow> I (snd (m d)) \<and> (\<forall>x. fst (m d) = Inr x \<longrightarrow> Q x (snd (m d))))"

lemma yieldsD: "yields I m Q \<Longrightarrow> I d \<Longrightarrow> m d = (Inr x, d') \<Longrightarrow> I d' \<and> Q x d'"
  by (auto simp: yields_def)

lemma yields_error: "yields I m Q \<Longrightarrow> I d \<Longrightarrow> m d = (r, d') \<Longrightarrow> I d'"
  by (auto simp: yields_def)

lemma yieldsI:
  assumes "\<And>d r d'. I d \<Longrightarrow> m d = (r, d') \<Longrightarrow> I d' \<and> (\<forall>x. r = Inr x \<longrightarrow> Q x d')"
  shows "yields I m Q"
  unfolding yields_def using assms [OF _ prod.collapse [symmetric]] by simp

lemma yields_return: "(\<And>d. I d \<Longrightarrow> Q x d) \<Longrightarrow> yields I (sreturn x) Q"
  by (simp add: yields_def)

lemma yields_raise: "yields I (sraise e) Q"
  by (simp add: yields_def)

lemma yields_result: "(\<And>x d. r = Inr x \<Longrightarrow> I d \<Longrightarrow> Q x d) \<Longrightarrow> yields I (sresult r) Q"
  by (simp add: yields_def)

lemma yields_bind:
  assumes "yields I m (\<lambda>x d. A x)" "\<And>x. A x \<Longrightarrow> yields I (f x) Q"
  shows "yields I (sbind m f) Q"
proof (rule yieldsI)
  fix d r d' assume I: "I d" and s: "sbind m f d = (r, d')"
  show "I d' \<and> (\<forall>x. r = Inr x \<longrightarrow> Q x d')"
  proof (cases "m d")
    case (Pair x d1)
    show ?thesis
    proof (cases x)
      case (Inl e)
      then show ?thesis using s Pair yields_error [OF assms(1) I Pair] by (auto simp: sbind_def)
    next
      case (Inr y)
      then have "I d1" "A y" using yieldsD [OF assms(1) I] Pair by auto
      moreover have "f y d1 = (r, d')" using s Pair Inr by (simp add: sbind_def)
      ultimately show ?thesis using assms(2) [of y] yields_error [of I "f y" Q d1 r d'] yieldsD [of I "f y" Q d1 _ d'] by blast
    qed
  qed
qed

lemma yields_weaken: "yields I m A \<Longrightarrow> (\<And>x d. I d \<Longrightarrow> A x d \<Longrightarrow> Q x d) \<Longrightarrow> yields I m Q"
  by (auto simp: yields_def)

lemma yields_handling: "yields I m Q \<Longrightarrow> yields I (handling f m) Q"
  by (rule yieldsI) (auto simp: yields_def handling_def split: prod.splits sum.splits)

text \<open>A call to the outside does not reach the checkpoints.\<close>

lemma on_world_checkpoints [simp]: "dw_checkpoints (snd (on_world m d)) = dw_checkpoints d"
  by (simp add: on_world_def split: prod.splits)

lemma yields_on_world: "yields (sound_world R q) (on_world m) (\<lambda>_ _. True)"
  by (simp add: yields_def sound_world_def)

lemma save_day4_simp [simp]:
  "save_day4_state R q st d = (Inr (), d\<lparr>dw_checkpoints := (dw_checkpoints d)(checkpoint_key R q \<mapsto> st)\<rparr>)"
  by (simp add: save_day4_state_def)

lemma yields_save: "held R q st \<Longrightarrow> yields (sound_world R q) (save_day4_state R q st) (\<lambda>_ _. True)"
  by (simp add: yields_def sound_world_def)

text \<open>Steps that change no field of the identity.\<close>

lemma identified_update:
  "identified q st \<Longrightarrow> gs_request st' = gs_request st \<Longrightarrow> gs_state_schema_revision st' = gs_state_schema_revision st
     \<Longrightarrow> gs_node_revision st' = gs_node_revision st \<Longrightarrow> gs_run_scope st' = gs_run_scope st \<Longrightarrow> gs_attempt_id st' = gs_attempt_id st
     \<Longrightarrow> gh_config_hash (gs_hashes st') = rs_config_hash (rq_run_scope q) \<Longrightarrow> identified q st'"
  unfolding identified_def assert_checkpoint_compatible_def by (simp split: if_split_asm)

lemma identified_config: "identified q st \<Longrightarrow> gh_config_hash (gs_hashes st) = rs_config_hash (rq_run_scope q)"
  by (auto simp: identified_def assert_checkpoint_compatible_def split: if_splits)

lemma built_config_hash: "build_context B c = Inr b \<Longrightarrow> pu_config_hash b = rs_config_hash (cr_run_scope c)"
  by (erule build_contextE) (auto simp: built_from_def bundle_of_def Let_def)

subsection \<open>Outcomes\<close>

definition counts_ok :: "'w retail_deps \<Rightarrow> int \<Rightarrow> int \<Rightarrow> bool" where
  "counts_ok R mc tc \<longleftrightarrow> 0 \<le> tc \<and> tc \<le> mc \<and> mc \<le> lp_max_model_calls (rd_policy R)"

lemma calls_accounted_counts: "calls_accounted R st \<Longrightarrow> counts_ok R (gs_model_call_count st) (gs_tool_call_count st)"
  by (simp add: calls_accounted_def counts_ok_def)

lemma day4_outcome_Inr:
  "day4_outcome q status terminal stop mc tc h = Inr out \<longleftrightarrow>
     out = \<lparr>ro_status = status, ro_terminal = terminal, ro_stop = stop, ro_model_calls = mc, ro_tool_calls = tc,
            ro_hashes = h, ro_attempt_id = rq_attempt_id q\<rparr> \<and> valid_retail_run_outcome out"
  by (auto simp: day4_outcome_def validated_def)

lemma stopped_fields:
  "stopped_day4 q reason mc tc h b = Inr out \<Longrightarrow> ro_status out = RunStopped \<and> ro_model_calls out = mc \<and> ro_tool_calls out = tc
     \<and> ro_hashes out = h \<and> ro_terminal out = None \<and> ro_stop out \<noteq> None \<and> valid_retail_run_outcome out"
  by (auto simp: stopped_day4_def day4_outcome_Inr)

lemma stopped_finished: "stopped_day4 q reason mc tc h b = Inr out \<Longrightarrow> counts_ok R mc tc \<Longrightarrow> finished R q out d"
  by (auto simp: finished_def counts_ok_def dest!: stopped_fields)

lemma yields_interrupt:
  assumes "calls_accounted R st"
  shows "yields (sound_world R q) (interrupt_day4 R q st boundary) (\<lambda>x d. \<forall>out d. x = Some out \<longrightarrow> finished R q out d)"
proof (rule yieldsI)
  fix d :: "'a day4" and r d'
  assume "sound_world R q d" "interrupt_day4 R q st boundary d = (r, d')"
  then show "sound_world R q d' \<and> (\<forall>x. r = Inr x \<longrightarrow> (\<forall>out d. x = Some out \<longrightarrow> finished R q out d))"
    using stopped_finished [OF _ calls_accounted_counts [OF assms]]
    by (auto simp: interrupt_day4_def sound_world_def split: if_split_asm sum.split_asm)
qed

lemma finish_day4_finished:
  assumes "finish_day4 R q desired d = (r, d')" "sound_world R q d"
    and "dw_checkpoints d (checkpoint_key R q) = Some st" "held R q st" "gs_model_call_count st = ro_model_calls desired"
    and "gs_terminal st = ro_terminal desired" "ro_status desired \<noteq> RunStopped \<longrightarrow> gs_stop st = None"
    and "counts_ok R (ro_model_calls desired) (ro_tool_calls desired)" "valid_retail_run_outcome desired"
  shows "sound_world R q d' \<and> (\<forall>x. r = Inr x \<longrightarrow> finished R q x d')"
proof -
  obtain a d1 where w: "on_world (rd_delete_attempt R (attempt_ref_of R q)) d = (a, d1)" by force
  have d1: "dw_checkpoints d1 = dw_checkpoints d" using arg_cong [OF w, of "\<lambda>p. dw_checkpoints (snd p)"] by simp
  show ?thesis
  proof (cases a)
    case (Inl e)
    then have "r = stopped_day4 q ''private_turn_cleanup_failed'' (ro_model_calls desired) (ro_tool_calls desired) (ro_hashes desired) True"
      "d' = d1" using assms(1) w by (auto simp: finish_day4_def)
    then show ?thesis using stopped_finished [OF _ assms(8)] assms(2) d1 by (auto simp: sound_world_def)
  next
    case (Inr u)
    define st' where "st' = st\<lparr>gs_cleanup_complete := True, gs_current_node := CompleteNode\<rparr>"
    have r: "r = Inr desired" and d': "dw_checkpoints d' (checkpoint_key R q) = Some st'"
      using assms(1,3) w Inr d1 by (auto simp: finish_day4_def mark_complete_def sbind_def st'_def)
    have "work_done st' = work_done st" "reported st' = reported st"
      by (simp_all add: work_done_def reported_def st'_def)
    moreover have "identified q st'"
      by (rule identified_update [of q st]) (use assms(4) in \<open>auto simp: held_def st'_def identified_config\<close>)
    moreover have "plan_progress st'"
      using assms(4) by (auto simp: held_def calls_accounted_def plan_progress_def st'_def work_done_def split: option.splits if_splits)
    ultimately have "held R q st'"
      using assms(4) by (simp add: held_def calls_accounted_def) (simp add: st'_def)
    then show ?thesis
      using assms(5-9) r d' by (auto simp: finished_def sound_world_def counts_ok_def st'_def)
  qed
qed

lemma held_persisted:
  assumes "held R q st" "gs_model_call_count st \<le> ro_model_calls out" "counts_ok R (ro_model_calls out) (ro_tool_calls out)"
    and "gh_config_hash (ro_hashes out) = rs_config_hash (rq_run_scope q)"
    and "\<And>r. ro_terminal out = Some (Report r) \<Longrightarrow> gs_plan st \<noteq> None \<and> gs_pending_steps st = [] \<and> work_done st + 1 \<le> ro_model_calls out"
  shows "held R q (persisted_outcome out st)"
proof -
  have "identified q (persisted_outcome out st)"
    by (rule identified_update [of q st]) (use assms(1,4) in \<open>auto simp: held_def persisted_outcome_def\<close>)
  moreover have w: "work_done (persisted_outcome out st) = work_done st" by (simp add: work_done_def persisted_outcome_def)
  moreover have "plan_progress (persisted_outcome out st)"
    using assms(1,2) w by (auto simp: held_def calls_accounted_def plan_progress_def persisted_outcome_def split: option.splits if_splits)
  ultimately show ?thesis
    using assms(1,3,5) by (auto simp: held_def calls_accounted_def counts_ok_def reported_def persisted_outcome_def)
qed

lemma yields_cache:
  assumes "held R q (persisted_outcome out st)" "counts_ok R (ro_model_calls out) (ro_tool_calls out)"
    and "valid_retail_run_outcome out"
  shows "yields (sound_world R q) (cache_and_finish R q out st) (\<lambda>x d. finished R q x d)"
proof (rule yieldsI)
  fix d :: "'a day4" and r d'
  let ?p = "persisted_outcome out st" and ?k = "checkpoint_key R q"
  assume I: "sound_world R q d" and c: "cache_and_finish R q out st d = (r, d')"
  define d1 where "d1 = d\<lparr>dw_checkpoints := (dw_checkpoints d)(?k \<mapsto> ?p)\<rparr>"
  obtain x d2 where i: "interrupt_day4 R q ?p ''commit_terminal'' d1 = (x, d2)" by force
  have I1: "sound_world R q d1" using assms(1) by (simp add: d1_def sound_world_def)
  have k2: "dw_checkpoints d2 ?k = Some ?p"
    using i by (auto simp: interrupt_day4_def d1_def split: if_split_asm sum.split_asm)
  have y: "yields (sound_world R q) (interrupt_day4 R q ?p ''commit_terminal'') (\<lambda>x d. \<forall>out d. x = Some out \<longrightarrow> finished R q out d)"
    by (rule yields_interrupt) (use assms(1) in \<open>simp add: held_def\<close>)
  have c': "(r, d') = (case x of Inl e \<Rightarrow> (Inl e, d2) | Inr None \<Rightarrow> finish_day4 R q out d2 | Inr (Some o') \<Rightarrow> (Inr o', d2))"
    using c i by (auto simp: cache_and_finish_def Let_def sbind_def d1_def split: sum.splits option.splits)
  have "ro_status out \<noteq> RunStopped \<longrightarrow> ro_stop out = None" using assms(3) by (simp add: valid_retail_run_outcome_def)
  then have f: "sound_world R q d' \<and> (\<forall>x. r = Inr x \<longrightarrow> finished R q x d')" if "finish_day4 R q out d2 = (r, d')"
    by (intro finish_day4_finished [OF that yields_error [OF y I1 i] k2 assms(1) _ _ _ assms(2,3)])
      (simp_all add: persisted_outcome_def)
  show "sound_world R q d' \<and> (\<forall>x. r = Inr x \<longrightarrow> finished R q x d')"
  proof (cases x)
    case (Inl e)
    then show ?thesis using c' yields_error [OF y I1 i] by simp
  next
    case (Inr a)
    then show ?thesis using c' f yieldsD [OF y I1] i by (cases a) auto
  qed
qed

lemma yields_stop_with:
  assumes "held R q st" "gs_model_call_count st \<le> mc" "counts_ok R mc tc"
  shows "yields (sound_world R q) (stop_with R q reason mc tc st) (\<lambda>x d. finished R q x d)"
  unfolding stop_with_def
proof (rule yields_bind)
  let ?A = "\<lambda>out. stopped_day4 q reason mc tc (gs_hashes st) False = Inr out"
  show "yields (sound_world R q) (sresult (stopped_day4 q reason mc tc (gs_hashes st) False)) (\<lambda>out _. ?A out)"
    by (rule yields_result)
  fix out assume a: "?A out"
  note f = stopped_fields [OF a]
  have "gh_config_hash (gs_hashes st) = rs_config_hash (rq_run_scope q)" using assms(1) by (auto simp: held_def intro: identified_config)
  then have "held R q (persisted_outcome out st)" by (intro held_persisted [OF assms(1)]) (use f assms in auto)
  then show "yields (sound_world R q) (cache_and_finish R q out st) (\<lambda>x d. finished R q x d)"
    by (rule yields_cache) (use f assms(3) in auto)
qed
subsection \<open>Deciding\<close>

lemma yields_model:
  "yields (sound_world R q) (call_day4_model R q step evidence n)
     (\<lambda>x d. gh_config_hash (snd x) = rs_config_hash (rq_run_scope q))"
proof (cases "build_context (rd_builder R) (day4_context R q step evidence n)")
  case (Inl e)
  then show ?thesis by (simp add: call_day4_model_def yields_raise)
next
  case (Inr b)
  have h: "gh_config_hash (bundle_hashes b) = rs_config_hash (rq_run_scope q)"
    using built_config_hash [OF Inr] by (simp add: bundle_hashes_def day4_context_def)
  show ?thesis
    unfolding call_day4_model_def Inr sum.case
    by (rule yields_bind [where A = "\<lambda>_. True", OF yields_on_world]) (auto intro: yields_return yields_raise simp: h)
qed

lemma held_initial: "0 \<le> lp_max_model_calls (rd_policy R) \<Longrightarrow> held R q (initial_state q)"
  by (simp add: held_def identified_def calls_accounted_def plan_progress_def initial_state_def [of q] assert_checkpoint_compatible_def
      zero_hashes_def)

lemma working_planned:
  assumes "1 \<le> lp_max_model_calls (rd_policy R)" "gh_config_hash h = rs_config_hash (rq_run_scope q)"
  shows "working R q (planned_state q plan h)"
  using assms by (simp add: working_def held_def identified_def assert_checkpoint_compatible_def calls_accounted_def plan_progress_def
      work_done_def planned_state_def initial_state_def)

text \<open>The result of a turn: an outcome, or a working state.\<close>

definition turned :: "'w retail_deps \<Rightarrow> retail_run_request \<Rightarrow> retail_run_outcome + retail_state \<Rightarrow> 'w day4 \<Rightarrow> bool" where
  "turned R q x d \<longleftrightarrow> (case x of Inl out \<Rightarrow> finished R q out d | Inr st \<Rightarrow> working R q st)"

lemma yields_outcome:
  assumes "yields I m (\<lambda>x d. finished R q x d)"
  shows "yields I (sbind m (\<lambda>out. sreturn (Inl out))) (turned R q)"
  using assms unfolding yields_def turned_def sbind_def
  by (auto split: prod.splits sum.splits dest: spec)

lemma yields_decision:
  assumes "1 \<le> lp_max_model_calls (rd_policy R)" "gh_config_hash h = rs_config_hash (rq_run_scope q)"
  shows "yields (sound_world R q) (act_on_decision R q call h) (turned R q)"
proof -
  have c: "yields (sound_world R q) (sbind (cache_and_finish R q desired (initial_state q)) (\<lambda>out. sreturn (Inl out))) (turned R q)"
    if d: "day4_outcome q NeedsInput (Some (Clarification c)) None 1 1 h = Inr desired" for c desired
  proof (rule yields_outcome, rule yields_cache)
    show "held R q (persisted_outcome desired (initial_state q))"
      by (rule held_persisted [OF held_initial])
        (use assms d in \<open>auto simp: day4_outcome_Inr counts_ok_def initial_state_def\<close>)
  qed (use assms d in \<open>auto simp: day4_outcome_Inr counts_ok_def\<close>)
  have o: "yields (sound_world R q) (sbind (sresult (day4_outcome q NeedsInput (Some (Clarification c)) None 1 1 h)) (\<lambda>desired.
           sbind (cache_and_finish R q desired (initial_state q)) (\<lambda>out. sreturn (Inl out)))) (turned R q)" for c
    by (rule yields_bind [where A = "\<lambda>x. day4_outcome q NeedsInput (Some (Clarification c)) None 1 1 h = Inr x", OF yields_result])
      (auto intro: c)
  show ?thesis
    unfolding act_on_decision_def
    using working_planned [OF assms]
    by (auto intro!: yields_raise yields_return yields_bind [where A = "\<lambda>_. True", OF yields_result] o simp: turned_def)
qed

lemma yields_decide:
  assumes "1 \<le> lp_max_model_calls (rd_policy R)"
  shows "yields (sound_world R q) (decide_day4 R q) (turned R q)"
  unfolding decide_day4_def
  by (rule yields_handling, rule yields_bind [OF yields_model])
    (auto intro!: yields_bind [where A = "\<lambda>_. True", OF yields_result] yields_decision [OF assms])
subsection \<open>Plan steps\<close>

lemma sound_on_world: "sound_world R q d \<Longrightarrow> on_world m d = (a, d1) \<Longrightarrow> sound_world R q d1"
  using on_world_checkpoints [of m d] by (simp add: sound_world_def)

lemma turned_simps [simp]: "turned R q (Inl out) d = finished R q out d" "turned R q (Inr st) d = working R q st"
  by (simp_all add: turned_def)

lemma working_calls: "working R q st \<Longrightarrow> calls_accounted R st"
  by (simp add: working_def held_def)

lemma working_updated:
  assumes "working R q st" "calls_accounted R st'" "gs_request st' = gs_request st" "gs_terminal st' = None" "gs_stop st' = None"
    and "gs_state_schema_revision st' = gs_state_schema_revision st" "gs_node_revision st' = gs_node_revision st"
    and "gs_run_scope st' = gs_run_scope st" "gs_attempt_id st' = gs_attempt_id st"
    and "gh_config_hash (gs_hashes st') = rs_config_hash (rq_run_scope q)"
  shows "working R q st'"
  using assms by (auto simp: working_def held_def intro: identified_update)

lemma working_config: "working R q st \<Longrightarrow> gh_config_hash (gs_hashes st) = rs_config_hash (rq_run_scope q)"
  by (simp add: working_def held_def identified_config)

lemma working_queried:
  assumes "working R q st" "gs_current_node st = ExecuteQuery" "gs_pending_steps st = step # rest"
    and "ev_evidence_id e = query_evidence_id step"
  shows "working R q (queried_state st e)"
proof (rule working_updated [OF assms(1)])
  show "calls_accounted R (queried_state st e)"
    using working_calls [OF assms(1)] assms(1,2-4)
    by (auto simp: calls_accounted_def plan_progress_def work_done_def queried_state_def working_def reported_def split: option.splits)
qed (use assms(1) in \<open>auto simp: queried_state_def working_config working_def\<close>)

lemma working_repair:
  assumes "working R q st" "gs_current_node st = ExecuteQuery"
  shows "working R q (repair_state st e)"
proof (rule working_updated [OF assms(1)])
  show "calls_accounted R (repair_state st e)"
    using working_calls [OF assms(1)] assms(1,2)
    by (auto simp: calls_accounted_def plan_progress_def work_done_def repair_state_def working_def reported_def split: option.splits)
qed (use assms(1) in \<open>auto simp: repair_state_def working_config working_def\<close>)

lemma working_candidate:
  assumes "working R q st" "\<not> lp_max_model_calls (rd_policy R) \<le> gs_model_call_count st"
    and "gs_current_node st \<noteq> ExecuteQuery \<or> gs_candidate st = None"
  shows "working R q (candidate_state st c)"
proof (rule working_updated [OF assms(1)])
  show "calls_accounted R (candidate_state st c)"
    using working_calls [OF assms(1)] assms(1-3)
    by (auto simp: calls_accounted_def plan_progress_def work_done_def candidate_state_def working_def reported_def split: option.splits if_splits)
qed (use assms(1) in \<open>auto simp: candidate_state_def working_config working_def\<close>)

lemma yields_choice:
  assumes "working R q st"
  shows "yields (sound_world R q) (sbind (interrupt_day4 R q st boundary)
     (\<lambda>i. sreturn (case i of Some out \<Rightarrow> Inl out | None \<Rightarrow> Inr st))) (turned R q)"
  by (rule yields_bind [OF yields_weaken [OF yields_interrupt [OF working_calls [OF assms]]]])
    (auto intro!: yields_return simp: turned_def assms split: option.splits)

lemma yields_execute:
  assumes w: "working R q st" and n: "gs_current_node st = ExecuteQuery" and p: "gs_pending_steps st = step # rest"
  shows "yields (sound_world R q) (execute_candidate R q query step c st) (turned R q)"
proof (rule yieldsI)
  fix d :: "'a day4" and r d'
  assume I: "sound_world R q d" and x: "execute_candidate R q query step c st d = (r, d')"
  obtain a d1 where a: "on_world (query (ca_sql c)) d = (a, d1)" by force
  have I1: "sound_world R q d1" using sound_on_world [OF I a] .
  have acc: "calls_accounted R st" using working_calls [OF w] .
  have go: "sound_world R q d' \<and> (\<forall>x. r = Inr x \<longrightarrow> turned R q x d')"
    if "yields (sound_world R q) m (turned R q)" "m d1 = (r, d')" for m
    using that I1 by (auto simp: yields_def dest!: spec [of _ d1])
  show "sound_world R q d' \<and> (\<forall>x. r = Inr x \<longrightarrow> turned R q x d')"
  proof (cases a)
    case (Inr res)
    let ?e = "evidence_of step res c"
    have wq: "working R q (queried_state st ?e)" by (rule working_queried [OF w n p]) (simp add: evidence_of_def)
    show ?thesis
    proof (cases "valid_evidence_result ?e")
      case True
      have y: "yields (sound_world R q) (sbind (sresult (evidence_list_json R (gs_evidence (queried_state st ?e)))) (\<lambda>_.
                sbind (save_day4_state R q (queried_state st ?e)) (\<lambda>_.
                sbind (interrupt_day4 R q (queried_state st ?e) ''execute_query'') (\<lambda>interrupted.
                sreturn (case interrupted of Some out \<Rightarrow> Inl out | None \<Rightarrow> Inr (queried_state st ?e)))))) (turned R q)"
        by (rule yields_bind [where A = "\<lambda>_. True", OF yields_result], simp,
            rule yields_bind [where A = "\<lambda>_. True", OF yields_save],
            use wq in \<open>simp add: working_def\<close>, rule yields_choice [OF wq])
      show ?thesis by (rule go [OF y]) (use x a Inr True in \<open>simp add: execute_candidate_def Let_def\<close>)
    qed (use x a Inr I1 in \<open>auto simp: execute_candidate_def Let_def\<close>)
  next
    case (Inl err)
    show ?thesis
    proof (cases "engine_reason err")
      case None
      then show ?thesis using x a Inl I1 by (auto simp: execute_candidate_def)
    next
      case (Some reason)
      show ?thesis
      proof (cases "lp_max_repairs (rd_policy R) \<le> ca_repair_number c \<or> lp_max_repairs (rd_policy R) \<le> gs_repair_count st")
        case True
        have y: "yields (sound_world R q) (sbind (stop_with R q ''sql_repair_limit'' (gs_model_call_count st) (gs_tool_call_count st + 1) st)
             (\<lambda>out. sreturn (Inl out))) (turned R q)"
          by (rule yields_outcome, rule yields_stop_with)
            (use w n acc in \<open>auto simp: working_def counts_ok_def calls_accounted_def\<close>)
        show ?thesis by (rule go [OF y]) (use x a Inl Some True in \<open>simp add: execute_candidate_def\<close>)
      next
        case False
        have y: "yields (sound_world R q) (sbind (sresult (validated valid_product_db_error (Some
                      \<lparr>pe_source = ''query_engine'', pe_reason_code = reason, pe_retryable = True,
                       pe_evidence_digest = fp_digest (ca_execution_fingerprint c)\<rparr>))) (\<lambda>latest.
                    sbind (save_day4_state R q (repair_state st latest)) (\<lambda>_.
                    sreturn (Inr (repair_state st latest))))) (turned R q)"
          using working_repair [OF w n]
          by (auto intro!: yields_bind [where A = "\<lambda>_. True", OF yields_result] yields_bind [where A = "\<lambda>_. True", OF yields_save]
              yields_return simp: turned_def working_def)
        show ?thesis by (rule go [OF y]) (use x a Inl Some False in \<open>simp add: execute_candidate_def\<close>)
      qed
    qed
  qed
qed

lemma yields_candidate:
  assumes w: "working R q st" and n: "gs_current_node st \<noteq> ExecuteQuery \<or> gs_candidate st = None"
    and p: "gs_pending_steps st = qs_step_id step # rest"
  shows "yields (sound_world R q) (candidate_turn R q gen query step st) (turned R q)"
proof (rule yieldsI)
  fix d :: "'a day4" and r d'
  assume I: "sound_world R q d" and x: "candidate_turn R q gen query step st d = (r, d')"
  let ?rq = "reasoning_request q step st" and ?m = "gs_model_call_count st" and ?t = "gs_tool_call_count st"
  have acc: "calls_accounted R st" using working_calls [OF w] .
  have go: "sound_world R q d' \<and> (\<forall>x. r = Inr x \<longrightarrow> turned R q x d')"
    if "yields (sound_world R q) m (turned R q)" "sound_world R q d1" "m d1 = (r, d')" for m d1
    using that by (auto simp: yields_def dest!: spec [of _ d1])
  have stop: "yields (sound_world R q) (sbind (stop_with R q reason mc ?t st) (\<lambda>out. sreturn (Inl out))) (turned R q)"
    if "?m \<le> mc" "mc \<le> lp_max_model_calls (rd_policy R)" for reason mc
    by (rule yields_outcome, rule yields_stop_with) (use w acc that in \<open>auto simp: working_def counts_ok_def calls_accounted_def\<close>)
  show "sound_world R q d' \<and> (\<forall>x. r = Inr x \<longrightarrow> turned R q x d')"
  proof (cases "lp_max_model_calls (rd_policy R) \<le> ?m")
    case True
    have "?m \<le> lp_max_model_calls (rd_policy R)" using acc by (simp add: calls_accounted_def)
    then show ?thesis by (intro go [OF stop I]) (use x True in \<open>simp_all add: candidate_turn_def\<close>)
  next
    case lt: False
    show ?thesis
    proof (cases "gs_latest_error st \<noteq> None \<and> gs_candidate st = None \<or> \<not> valid_sql_reasoning_request ?rq")
      case True
      then show ?thesis using x lt I by (auto simp: candidate_turn_def split: if_splits)
    next
      case ok: False
      obtain a d1 where a: "on_world (gen ?rq) d = (a, d1)" by force
      have I1: "sound_world R q d1" using sound_on_world [OF I a] .
      show ?thesis
      proof (cases a)
        case (Inl e)
        show ?thesis
        proof (cases "e = SqlNoProgress")
          case True
          show ?thesis by (rule go [OF stop [of "?m + 1"] I1]) (use x a Inl lt ok True in \<open>auto simp: candidate_turn_def\<close>)
        next
          case False
          then have "(r, d') = (Inl e, d1)" using x a Inl lt ok by (auto simp: candidate_turn_def split: run_error.split_asm)
          then show ?thesis using I1 by simp
        qed
      next
        case (Inr c)
        let ?s = "candidate_state st c"
        have ws: "working R q ?s" by (rule working_candidate [OF w lt n])
        have f: "gs_current_node ?s = ExecuteQuery" "gs_pending_steps ?s = qs_step_id step # rest"
          using p by (simp_all add: candidate_state_def)
        have y: "yields (sound_world R q) (sbind (save_day4_state R q ?s) (\<lambda>_.
             sbind (interrupt_day4 R q ?s ''checkpoint_candidate'') (\<lambda>interrupted.
             case interrupted of Some out \<Rightarrow> sreturn (Inl out)
             | None \<Rightarrow> execute_candidate R q query (qs_step_id step) c ?s))) (turned R q)"
          by (rule yields_bind [where A = "\<lambda>_. True", OF yields_save], use ws in \<open>simp add: working_def\<close>,
              rule yields_bind [OF yields_weaken [OF yields_interrupt [OF working_calls [OF ws]]]])
            (auto intro!: yields_return yields_execute [OF ws f] split: option.splits)
        show ?thesis by (rule go [OF y I1]) (use x a Inr lt ok in \<open>auto simp: candidate_turn_def Let_def\<close>)
      qed
    qed
  qed
qed

lemma yields_plan_turn:
  assumes w: "working R q st" and p: "gs_pending_steps st \<noteq> []"
  shows "yields (sound_world R q) (plan_turn R q gen query st) (turned R q)"
proof (cases "find_step st (hd (gs_pending_steps st))")
  case None
  then show ?thesis by (simp add: plan_turn_def yields_raise)
next
  case (Some step)
  then have s: "qs_step_id step = hd (gs_pending_steps st)"
    by (auto simp: find_step_def find_Some_iff split: option.splits)
  then have q: "gs_pending_steps st = qs_step_id step # tl (gs_pending_steps st)" using p by simp
  show ?thesis
  proof (cases "gs_current_node st = ExecuteQuery \<and> gs_candidate st \<noteq> None")
    case True
    then obtain c where "gs_current_node st = ExecuteQuery" "gs_candidate st = Some c" by auto
    then show ?thesis using yields_execute [OF w _ q] Some by (simp add: plan_turn_def)
  next
    case False
    then have "plan_turn R q gen query st = candidate_turn R q gen query step st"
      using Some by (auto simp: plan_turn_def split: graph_node.splits option.splits)
    then show ?thesis using yields_candidate [OF w _ q] False by auto
  qed
qed

definition planned_out :: "'w retail_deps \<Rightarrow> retail_run_request \<Rightarrow> retail_run_outcome + retail_state \<Rightarrow> 'w day4 \<Rightarrow> bool" where
  "planned_out R q x d \<longleftrightarrow> turned R q x d \<and> (case x of Inl _ \<Rightarrow> True | Inr st \<Rightarrow> gs_pending_steps st = [])"

lemma plan_loop_invariant:
  "working R q st \<Longrightarrow> sound_world R q d \<Longrightarrow> plan_loop R q gen query st d = (r, d')
     \<Longrightarrow> sound_world R q d' \<and> (\<forall>x. r = Inr x \<longrightarrow> planned_out R q x d')"
proof (induction R q gen query st d arbitrary: r d' rule: plan_loop.induct)
  case (1 R q gen query st d)
  show ?case
  proof (cases "gs_pending_steps st = []")
    case True
    then show ?thesis using "1.prems" by (subst (asm) plan_loop.simps) (auto simp: planned_out_def turned_def)
  next
    case False
    obtain a d1 where t: "plan_turn R q gen query st d = (a, d1)" by force
    note y = yields_plan_turn [OF "1.prems"(1) False, of gen query]
    have I1: "sound_world R q d1" by (rule yields_error [OF y "1.prems"(2) t])
    show ?thesis
    proof (cases "\<exists>st'. a = Inr (Inr st')")
      case True
      then obtain st' where st': "a = Inr (Inr st')" by blast
      then have "working R q st'" using yieldsD [OF y "1.prems"(2)] t by (simp add: turned_def)
      moreover have "plan_loop R q gen query st' d1 = (r, d')"
        using "1.prems"(3) False t st' by (subst (asm) plan_loop.simps) simp
      ultimately show ?thesis using "1.IH" [OF False t [symmetric] st'] I1 by blast
    next
      case stop: False
      then have "(\<exists>e. a = Inl e \<and> r = Inl e \<and> d' = d1) \<or> (\<exists>out. a = Inr (Inl out) \<and> r = Inr (Inl out) \<and> d' = d1)"
        using "1.prems"(3) False t by (subst (asm) plan_loop.simps) (auto split: sum.splits)
      then show ?thesis using I1 yieldsD [OF y "1.prems"(2)] t by (auto simp: planned_out_def turned_def)
    qed
  qed
qed
subsection \<open>Reports\<close>

definition reporting :: "'w retail_deps \<Rightarrow> retail_run_request \<Rightarrow> retail_state \<Rightarrow> bool" where
  "reporting R q st \<longleftrightarrow> working R q st \<and> gs_plan st \<noteq> None \<and> gs_pending_steps st = []"

lemma reporting_working: "reporting R q st \<Longrightarrow> working R q st"
  by (simp add: reporting_def)

lemma reporting_reconciled:
  assumes "reporting R q st"
  shows "reporting R q (reconciled_state st r)"
proof -
  note w = reporting_working [OF assms]
  have "working R q (reconciled_state st r)"
  proof (rule working_updated [OF w])
    show "calls_accounted R (reconciled_state st r)"
      using working_calls [OF w] w
      by (auto simp: calls_accounted_def plan_progress_def work_done_def reconciled_state_def working_def reported_def split: option.splits if_splits)
  qed (use w in \<open>auto simp: reconciled_state_def working_config working_def\<close>)
  then show ?thesis using assms by (simp add: reporting_def reconciled_state_def)
qed

lemma reporting_counted:
  assumes "reporting R q st" "\<not> lp_max_model_calls (rd_policy R) \<le> gs_model_call_count st"
    and "gh_config_hash h = rs_config_hash (rq_run_scope q)"
  shows "reporting R q (counted_state st h) \<and> reported (counted_state st h)"
proof -
  note w = reporting_working [OF assms(1)]
  have r: "reported (counted_state st h)"
    using working_calls [OF w] assms(1)
    by (auto simp: calls_accounted_def plan_progress_def work_done_def counted_state_def reporting_def reported_def split: option.splits if_splits)
  have "working R q (counted_state st h)"
  proof (rule working_updated [OF w])
    show "calls_accounted R (counted_state st h)"
      using working_calls [OF w] w r assms(2)
      by (auto simp: calls_accounted_def plan_progress_def work_done_def counted_state_def working_def split: option.splits if_splits)
  qed (use w assms(3) in \<open>auto simp: counted_state_def working_def\<close>)
  then show ?thesis using assms(1) r by (simp add: reporting_def counted_state_def)
qed

lemma reporting_acted:
  assumes "reporting R q st" "reported st"
  shows "reporting R q (proposing_state st call)" "reporting R q (proposed_state st refs)"
proof -
  note w = reporting_working [OF assms(1)]
  have a: "calls_accounted R (proposing_state st call)" "calls_accounted R (proposed_state st refs)"
    using working_calls [OF w] w assms(2)
    by (auto simp: calls_accounted_def plan_progress_def work_done_def proposing_state_def proposed_state_def working_def reported_def
        split: option.splits if_splits)
  have "working R q (proposing_state st call)"
    by (rule working_updated [OF w a(1)]) (use w in \<open>auto simp: proposing_state_def working_config working_def\<close>)
  then show "reporting R q (proposing_state st call)" using assms(1) by (simp add: reporting_def proposing_state_def)
  have "working R q (proposed_state st refs)"
    by (rule working_updated [OF w a(2)]) (use w in \<open>auto simp: proposed_state_def working_config working_def\<close>)
  then show "reporting R q (proposed_state st refs)" using assms(1) by (simp add: reporting_def proposed_state_def)
qed

text \<open>The result of a report turn.\<close>

definition told :: "'w retail_deps \<Rightarrow> retail_run_request \<Rightarrow> retail_run_outcome + retail_state \<Rightarrow> 'w day4 \<Rightarrow> bool" where
  "told R q x d \<longleftrightarrow> (case x of Inl out \<Rightarrow> finished R q out d | Inr st \<Rightarrow> reporting R q st)"

lemma told_simps [simp]: "told R q (Inl out) d = finished R q out d" "told R q (Inr st) d = reporting R q st"
  by (simp_all add: told_def)

lemma yields_told_outcome:
  assumes "yields I m (\<lambda>x d. finished R q x d)"
  shows "yields I (sbind m (\<lambda>out. sreturn (Inl out))) (told R q)"
  using assms unfolding yields_def told_def sbind_def
  by (auto split: prod.splits sum.splits dest: spec)

lemma held_reporting: "reporting R q st \<Longrightarrow> held R q st"
  by (simp add: reporting_def working_def)

lemma yields_act:
  assumes r: "reporting R q st" "reported st"
  shows "yields (sound_world R q) (act_on_call R q call st) (told R q)"
proof -
  note w = reporting_working [OF r(1)]
  note acc = working_calls [OF w]
  have stop: "yields (sound_world R q) (sbind (stop_with R q reason (gs_model_call_count st) (gs_tool_call_count st) st)
      (\<lambda>out. sreturn (Inl out))) (told R q)" for reason
    by (rule yields_told_outcome, rule yields_stop_with) (use w acc in \<open>auto simp: working_def counts_ok_def calls_accounted_def\<close>)
  have choice: "yields (sound_world R q) (sbind (interrupt_day4 R q (proposed_state st refs) b)
      (\<lambda>i. sreturn (case i of Some out \<Rightarrow> Inl out | None \<Rightarrow> Inr (proposed_state st refs)))) (told R q)" for refs b
    by (rule yields_bind [OF yields_weaken [OF yields_interrupt [OF working_calls [OF reporting_working [OF reporting_acted(2) [OF r]]]]]])
      (auto intro!: yields_return simp: reporting_acted(2) [OF r] split: option.splits)
  have propose: "yields (sound_world R q) (sbind (save_day4_state R q (proposing_state st call)) (\<lambda>_.
            sbind (on_world (dispatch (rq_run_scope q) (rq_attempt_id q) call (Some RetailReport))) (\<lambda>result.
            let st' = proposed_state st (tl_source_refs result) in
            sbind (save_day4_state R q st') (\<lambda>_.
            sbind (interrupt_day4 R q st' ''create_proposal'') (\<lambda>interrupted.
            sreturn (case interrupted of Some out \<Rightarrow> Inl out | None \<Rightarrow> Inr st')))))) (told R q)" for dispatch
    unfolding Let_def
    by (rule yields_bind [where A = "\<lambda>_. True", OF yields_save [OF held_reporting [OF reporting_acted(1) [OF r]]]],
        rule yields_bind [where A = "\<lambda>_. True", OF yields_on_world],
        rule yields_bind [where A = "\<lambda>_. True", OF yields_save [OF held_reporting [OF reporting_acted(2) [OF r]]]], rule choice)
  have report: "yields (sound_world R q) (sbind (sresult (day4_outcome q RunCompleted (Some (Report rep)) None (gs_model_call_count st)
                     (gs_tool_call_count st) (gs_hashes st))) (\<lambda>desired.
                 sbind (cache_and_finish R q desired st) (\<lambda>out. sreturn (Inl out)))) (told R q)" for rep
  proof (rule yields_bind [where A = "\<lambda>o'. day4_outcome q RunCompleted (Some (Report rep)) None (gs_model_call_count st)
                     (gs_tool_call_count st) (gs_hashes st) = Inr o'", OF yields_result])
    fix desired assume d: "day4_outcome q RunCompleted (Some (Report rep)) None (gs_model_call_count st)
                     (gs_tool_call_count st) (gs_hashes st) = Inr desired"
    show "yields (sound_world R q) (sbind (cache_and_finish R q desired st) (\<lambda>out. sreturn (Inl out))) (told R q)"
    proof (rule yields_told_outcome, rule yields_cache)
      show "held R q (persisted_outcome desired st)"
        by (rule held_persisted)
          (use w r acc d in \<open>auto simp: day4_outcome_Inr calls_accounted_counts working_config reported_def reporting_def held_reporting working_def\<close>)
    qed (use acc d in \<open>auto simp: day4_outcome_Inr calls_accounted_counts\<close>)
  qed
  show ?thesis
    unfolding act_on_call_def by (auto intro!: stop propose report yields_raise split: option.splits sum.splits)
qed

lemma yields_report_turn:
  assumes r: "reporting R q st"
  shows "yields (sound_world R q) (report_turn R q evidence st) (told R q)"
proof -
  note w = reporting_working [OF r]
  note acc = working_calls [OF w]
  have stop: "yields (sound_world R q) (sbind (stop_with R q reason (gs_model_call_count st) (gs_tool_call_count st) st)
      (\<lambda>out. sreturn (Inl out))) (told R q)" for reason
    by (rule yields_told_outcome, rule yields_stop_with) (use w acc in \<open>auto simp: working_def counts_ok_def calls_accounted_def\<close>)
  have again: "yields (sound_world R q) (act_on_call R q call st) (told R q)" if "gs_current_node st = CreateProposal" for call
    by (rule yields_act [OF r]) (use acc that in \<open>simp add: calls_accounted_def\<close>)
  have ask: "yields (sound_world R q) (sbind (call_day4_model R q RetailReport evidence (gs_model_call_count st)) (\<lambda>(out, hashes).
               sbind (sresult (one_tool_call R out RetailReport)) (\<lambda>call.
               act_on_call R q call (counted_state st hashes)))) (told R q)"
    if lt: "\<not> lp_max_model_calls (rd_policy R) \<le> gs_model_call_count st"
    by (rule yields_bind [OF yields_model])
      (auto intro!: yields_bind [where A = "\<lambda>_. True", OF yields_result] yields_act simp: reporting_counted [OF r lt])
  show ?thesis
    unfolding report_turn_def
    by (auto intro!: stop again ask yields_raise split: graph_node.splits option.splits pending_json.splits)
qed

lemma report_loop_invariant:
  "reporting R q st \<Longrightarrow> sound_world R q d \<Longrightarrow> report_loop R q evidence st d = (r, d')
     \<Longrightarrow> sound_world R q d' \<and> (\<forall>x. r = Inr x \<longrightarrow> finished R q x d')"
proof (induction R q evidence st d arbitrary: r d' rule: report_loop.induct)
  case (1 R q evidence st d)
  obtain a d1 where t: "report_turn R q evidence st d = (a, d1)" by force
  note y = yields_report_turn [OF "1.prems"(1), of evidence]
  have I1: "sound_world R q d1" by (rule yields_error [OF y "1.prems"(2) t])
  show ?case
  proof (cases "\<exists>st'. a = Inr (Inr st')")
    case True
    then obtain st' where st': "a = Inr (Inr st')" by blast
    then have "reporting R q st'" using yieldsD [OF y "1.prems"(2)] t by simp
    moreover have "report_loop R q evidence st' d1 = (r, d')"
      using "1.prems"(3) t st' by (subst (asm) report_loop.simps) simp
    ultimately show ?thesis using "1.IH" [OF t [symmetric] st'] I1 by blast
  next
    case False
    then have "(\<exists>e. a = Inl e \<and> r = Inl e \<and> d' = d1) \<or> (\<exists>out. a = Inr (Inl out) \<and> r = Inr out \<and> d' = d1)"
      using "1.prems"(3) t by (subst (asm) report_loop.simps) (auto split: sum.splits)
    then show ?thesis using I1 yieldsD [OF y "1.prems"(2)] t by auto
  qed
qed

lemma yields_report_phase:
  assumes r: "reporting R q st"
  shows "yields (sound_world R q) (report_phase R q st) (\<lambda>x d. finished R q x d)"
proof -
  have loop: "yields (sound_world R q) (report_loop R q evidence st') (\<lambda>x d. finished R q x d)"
    if "reporting R q st'" for st' evidence
    by (rule yieldsI) (use report_loop_invariant [OF that] in blast)
  have reconcile: "yields (sound_world R q) (reconcile_day4 R q st) (\<lambda>x d. reporting R q (snd x))"
    using r reporting_reconciled [OF r] held_reporting
    by (auto simp: reconcile_day4_def split: option.splits intro!: yields_return
        yields_bind [where A = "\<lambda>_. True", OF yields_result] yields_bind [where A = "\<lambda>_. True", OF yields_save])
  show ?thesis
    unfolding report_phase_def
    by (rule yields_bind [OF reconcile]) (auto intro!: yields_bind [where A = "\<lambda>_. True", OF yields_result] loop)
qed

subsection \<open>Runs\<close>

lemma plan_loop_yields:
  assumes "working R q st"
  shows "yields (sound_world R q) (plan_loop R q gen query st) (planned_out R q)"
  by (rule yieldsI) (use plan_loop_invariant [OF assms] in blast)

lemma plan_turn_plan:
  assumes "plan_turn R q gen query st d = (Inr (Inr st'), d')"
  shows "gs_plan st' = gs_plan st"
proof -
  have x: "gs_plan s' = gs_plan s" if "execute_candidate R q query i c s e = (Inr (Inr s'), e')" for i c s s' e e'
    using execute_candidate_next [OF that] by (auto simp: queried_state_def repair_state_def)
  show ?thesis
    using assms by (auto simp: plan_turn_def candidate_turn_def Let_def sbind_Inr_iff candidate_state_def dest!: x
        split: option.splits graph_node.splits if_splits prod.splits sum.splits run_error.splits)
qed

lemma plan_loop_plan: "plan_loop R q gen query st d = (Inr (Inr st'), d') \<Longrightarrow> gs_plan st' = gs_plan st"
proof (induction R q gen query st d rule: plan_loop.induct)
  case (1 R q gen query st d)
  show ?case
  proof (cases "gs_pending_steps st = []")
    case True
    then show ?thesis using "1.prems" by (subst (asm) plan_loop.simps) simp
  next
    case False
    then obtain s1 d1 where t: "plan_turn R q gen query st d = (Inr (Inr s1), d1)"
      "plan_loop R q gen query s1 d1 = (Inr (Inr st'), d')"
      using "1.prems" by (subst (asm) plan_loop.simps) (auto split: prod.splits sum.splits)
    then show ?thesis using "1.IH" [OF False t(1) [symmetric] refl refl t(2)] plan_turn_plan by simp
  qed
qed

lemma yields_work:
  assumes w: "working R q st"
  shows "yields (sound_world R q) (work_day4 R q st) (\<lambda>x d. finished R q x d)"
proof -
  have stop: "yields (sound_world R q) (stop_with R q reason (gs_model_call_count st) (gs_tool_call_count st) st) (\<lambda>x d. finished R q x d)" for reason
    by (rule yields_stop_with) (use w working_calls [OF w] in \<open>auto simp: working_def calls_accounted_counts\<close>)
  have go: "yields (sound_world R q) (sbind (plan_loop R q gen query st) (\<lambda>next. case next of
                Inl out \<Rightarrow> sreturn out | Inr st' \<Rightarrow> report_phase R q st')) (\<lambda>x d. finished R q x d)"
    if "gs_plan st = Some p" for gen query p
  proof (rule yieldsI)
    fix d :: "'a day4" and r d'
    assume I: "sound_world R q d" and s: "sbind (plan_loop R q gen query st) (\<lambda>next. case next of
                Inl out \<Rightarrow> sreturn out | Inr st' \<Rightarrow> report_phase R q st') d = (r, d')"
    obtain a d1 where l: "plan_loop R q gen query st d = (a, d1)" by force
    have i: "sound_world R q d1" "\<And>x. a = Inr x \<Longrightarrow> planned_out R q x d1"
      using plan_loop_invariant [OF w I l] by auto
    consider (err) e where "a = Inl e" | (out) out where "a = Inr (Inl out)" | (st) st' where "a = Inr (Inr st')"
      by (metis sum.exhaust)
    then show "sound_world R q d' \<and> (\<forall>x. r = Inr x \<longrightarrow> finished R q x d')"
    proof cases
      case err
      then show ?thesis using s l i by (auto simp: sbind_def)
    next
      case out
      then show ?thesis using s l i by (auto simp: sbind_def planned_out_def)
    next
      case (st st')
      then have r: "reporting R q st'" "report_phase R q st' d1 = (r, d')"
        using s l i(2) [OF st] plan_loop_plan [of R q gen query st d st' d1] that by (auto simp: sbind_def planned_out_def reporting_def)
      note y = yields_report_phase [OF r(1)]
      show ?thesis using yields_error [OF y i(1) r(2)] yieldsD [OF y i(1)] r(2) by auto
    qed
  qed
  show ?thesis
    unfolding work_day4_def by (auto intro!: stop go yields_raise split: option.splits)
qed
lemma restored_fields:
  "restore_day4_outcome q st = Inr out \<Longrightarrow> ro_model_calls out = gs_model_call_count st \<and> ro_tool_calls out = gs_tool_call_count st
     \<and> ro_terminal out = gs_terminal st \<and> ro_stop out = gs_stop st \<and> ro_hashes out = gs_hashes st
     \<and> (ro_status out \<noteq> RunStopped \<longrightarrow> gs_stop st = None) \<and> valid_retail_run_outcome out"
  by (auto simp: restore_day4_outcome_def day4_outcome_Inr)

lemma resume_invariant:
  assumes I: "sound_world R q d" and k: "dw_checkpoints d (checkpoint_key R q) = Some st" and x: "resume_day4 R q st d = (r, d')"
  shows "sound_world R q d' \<and> (\<forall>out. r = Inr out \<longrightarrow> finished R q out d')"
proof -
  have h: "held R q st" using I k by (simp add: sound_world_def)
  then have i: "identified q st" and acc: "calls_accounted R st" by (simp_all add: held_def)
  show ?thesis
  proof (cases "gs_terminal st \<noteq> None \<or> gs_stop st \<noteq> None")
    case False
    then have "working R q st" "work_day4 R q st d = (r, d')"
      using h i x by (auto simp: working_def resume_day4_def identified_def)
    then show ?thesis using yields_error [OF yields_work I] yieldsD [OF yields_work I] by (metis sum.exhaust)
  next
    case True
    show ?thesis
    proof (cases "restore_day4_outcome q st")
      case (Inl e)
      then show ?thesis using i x True I by (auto simp: resume_day4_def identified_def)
    next
      case (Inr out)
      note f = restored_fields [OF Inr]
      show ?thesis
      proof (cases "gs_cleanup_complete st")
        case c: True
        then have "(r, d') = (Inr out, d)" using i x True Inr by (auto simp: resume_day4_def identified_def)
        then show ?thesis using I k h f c calls_accounted_counts [OF acc] by (auto simp: finished_def counts_ok_def)
      next
        case False
        then have "finish_day4 R q out d = (r, d')" using i x True Inr by (auto simp: resume_day4_def identified_def)
        then show ?thesis
          by (rule finish_day4_finished [OF _ I k h]) (use f calls_accounted_counts [OF acc] in auto)
      qed
    qed
  qed
qed

lemma run_invariant:
  assumes p: "valid_retail_loop_policy (rd_policy R)" and I: "sound_world R q d" and x: "run_day4 R q d = (r, d')"
  shows "sound_world R q d' \<and> (\<forall>out. r = Inr out \<longrightarrow> finished R q out d')"
proof (cases "dw_checkpoints d (checkpoint_key R q)")
  case (Some st)
  then show ?thesis using resume_invariant [OF I Some] x by (simp add: run_day4_def)
next
  case None
  have m: "1 \<le> lp_max_model_calls (rd_policy R)" using p by (simp add: valid_retail_loop_policy_def)
  have "yields (sound_world R q) (sbind (save_day4_state R q st) (\<lambda>_. work_day4 R q st)) (\<lambda>x d. finished R q x d)"
    if "working R q st" for st
    by (rule yields_bind [where A = "\<lambda>_. True", OF yields_save]) (use that yields_work in \<open>auto simp: working_def\<close>)
  then have after: "yields (sound_world R q) (case y of Inl out \<Rightarrow> sreturn out
      | Inr st \<Rightarrow> sbind (save_day4_state R q st) (\<lambda>_. work_day4 R q st)) (\<lambda>x d. finished R q x d)"
    if "y = Inr st" "working R q st" for y st using that by simp
  obtain a d1 where dc: "decide_day4 R q d = (a, d1)" by force
  note y = yields_decide [OF m, of q]
  have i: "sound_world R q d1" "\<And>z. a = Inr z \<Longrightarrow> turned R q z d1"
    using yields_error [OF y I dc] yieldsD [OF y I] dc by auto
  consider (err) e where "a = Inl e" | (out) out where "a = Inr (Inl out)" | (st) st where "a = Inr (Inr st)"
    by (metis sum.exhaust)
  then show ?thesis
  proof cases
    case err
    then show ?thesis using x None dc i by (auto simp: run_day4_def sbind_def)
  next
    case out
    then show ?thesis using x None dc i(1) i(2) [OF out] by (auto simp: run_day4_def sbind_def)
  next
    case (st st)
    then have "working R q st" using i(2) by fastforce
    note ya = after [OF refl this]
    have "(case Inr st of Inl out \<Rightarrow> sreturn out | Inr st \<Rightarrow> sbind (save_day4_state R q st) (\<lambda>_. work_day4 R q st)) d1 = (r, d')"
      using x None dc st by (simp add: run_day4_def)
    then show ?thesis using yields_error [OF ya i(1)] yieldsD [OF ya i(1)] by (cases r) auto
  qed
qed

text \<open>
  C9: the call budget of the product flow. Whatever the ports answer or raise, and however often a run is
  interrupted and started again, every checkpoint stays within the model-call limit and counts no more
  tool calls than model calls, a returned outcome satisfies its contract with the same bounds, and a run
  that was answered with a clarification or a report has its terminal and its clean-up in the checkpoint.
\<close>

theorem retail_run_accounts:
  assumes "valid_retail_loop_policy (rd_policy R)"
    and "sound_world R q d"
    and "run_day4 R q d = (r, d')"
  shows "sound_world R q d' \<and> (\<forall>out. r = Inr out \<longrightarrow>
    0 \<le> ro_tool_calls out \<and> ro_tool_calls out \<le> ro_model_calls out \<and> ro_model_calls out \<le> 6 \<and> valid_retail_run_outcome out
    \<and> (ro_status out \<noteq> RunStopped \<longrightarrow> (\<exists>st. dw_checkpoints d' (checkpoint_key R q) = Some st
          \<and> gs_terminal st = ro_terminal out \<and> gs_model_call_count st = ro_model_calls out \<and> gs_cleanup_complete st)))"
  using run_invariant [OF assms] assms(1) by (fastforce simp: finished_def valid_retail_loop_policy_def)

text \<open>
  C10: a completed run has gathered the evidence of every step of its plan, in plan order, and each step,
  each repair and each report call took its own model call. With the limit of six calls a plan of five or
  more steps, which the plan contract allows up to twelve, can never complete.
\<close>

theorem completed_run_covers_plan:
  assumes "valid_retail_loop_policy (rd_policy R)"
    and "sound_world R q d"
    and "run_day4 R q d = (Inr out, d')"
    and "ro_status out = RunCompleted"
  shows "\<exists>st p. dw_checkpoints d' (checkpoint_key R q) = Some st \<and> gs_plan st = Some p
    \<and> map ev_evidence_id (gs_evidence st) = map (query_evidence_id \<circ> qs_step_id) (ip_steps p)
    \<and> int (length (ip_steps p)) + gs_repair_count st + 2 \<le> ro_model_calls out \<and> length (ip_steps p) \<le> 4"
proof -
  have f: "finished R q out d'" using run_invariant [OF assms(1-3)] by blast
  then obtain st where k: "dw_checkpoints d' (checkpoint_key R q) = Some st" and h: "held R q st"
    and t: "gs_terminal st = ro_terminal out" and m: "gs_model_call_count st = ro_model_calls out"
    using assms(4) by (auto simp: finished_def)
  have "valid_retail_run_outcome out" using f by (simp add: finished_def)
  then obtain rep where "ro_terminal out = Some (Report rep)"
    using assms(4) by (auto simp: valid_retail_run_outcome_def split: option.splits retail_terminal.splits)
  then obtain p where p: "gs_plan st = Some p" and r: "reported st" using h t by (auto simp: held_def calls_accounted_def)
  have e: "map ev_evidence_id (gs_evidence st) = map (query_evidence_id \<circ> qs_step_id) (ip_steps p)"
    using h p r by (auto simp: held_def calls_accounted_def plan_progress_def reported_def)
  have l: "length (gs_evidence st) = length (ip_steps p)" using arg_cong [OF e, of length] by simp
  have "work_done st + 1 \<le> ro_model_calls out" using r m by (simp add: reported_def)
  moreover have "ro_model_calls out \<le> 6" "0 \<le> gs_repair_count st"
    using f h assms(1) by (auto simp: finished_def held_def calls_accounted_def valid_retail_loop_policy_def)
  ultimately show ?thesis using k p e l by (auto simp: work_done_def)
qed
subsection \<open>A concrete run\<close>

definition sample_retail_request :: retail_run_request where
  "sample_retail_request =
     \<lparr>rq_run_scope = \<lparr>rs_run_id = 1, rs_track = ''retail'', rs_mode = ''retail'', rs_subject_id = ''s'',
        rs_experiment_id = ''e'', rs_config_hash = sample_hex\<rparr>,
      rq_attempt_id = 2, rq_current_input = sample_datum, rq_confirmed_facts = [], rq_evidence = [sample_datum],
      rq_latest_error = None\<rparr>"

definition sample_plan_step :: "string \<Rightarrow> plan_step_kind \<Rightarrow> query_plan_step" where
  "sample_plan_step i k = \<lparr>qs_step_id = i, qs_kind = k, qs_question = ''q'', qs_measures = [''gmv''], qs_grains = [''day''],
     qs_evidence_refs = [''e''], qs_reconciliation_rule_refs = [''r'']\<rparr>"

definition sample_plan :: investigation_plan where
  "sample_plan =
     \<lparr>ip_conversation_id = ''c'', ip_plan_id = 3,
      ip_confirmed_facts = \<lparr>cf_gmv_metric_definition = ''item_amount'', cf_valid_order_statuses = [''delivered''],
        cf_time_field = ''order_approved_at'', cf_time_range = \<lparr>ir_started_at = Aware 0 0, ir_ended_at = Aware 1 0\<rparr>,
        cf_analysis_grain = ''seller'', cf_minimum_order_count = 1, cf_anomaly_threshold = dec_one, cf_business_value_refs = []\<rparr>,
      ip_steps = [sample_plan_step ''base'' Baseline, sample_plan_step ''drill'' Drilldown],
      ip_evidence_refs = [''e''], ip_reconciliation_rule_refs = [''r''], ip_stop_conditions = [''s'']\<rparr>"

lemma sample_plan_valid: "valid_investigation_plan sample_plan"
  by code_simp

definition sample_step_evidence :: "string \<Rightarrow> evidence_result" where
  "sample_step_evidence i = \<lparr>ev_evidence_id = query_evidence_id i, ev_columns = [], ev_rows = [], ev_query_fingerprint = sample_hex\<rparr>"

definition sample_investigation_report :: investigation_report where
  "sample_investigation_report =
     \<lparr>rp_conversation_id = ''c'', rp_report_id = 4,
      rp_claims = [\<lparr>ic_claim_id = ''c1'', ic_text = ''t'', ic_evidence_refs = [''query:base'']\<rparr>],
      rp_available_evidence = [\<lparr>iv_evidence_id = ''query:base'', iv_kind = ''query'', iv_summary = ''s'', iv_digest = sample_hex\<rparr>],
      rp_limitations = [], rp_reconciliation_refs = [''query:base''], rp_proposal_refs = [], rp_selected_risk_status = None,
      rp_sensitivity_comparison = None\<rparr>"

lemma sample_investigation_report_valid: "valid_investigation_report sample_investigation_report"
  by code_simp

definition sample_retail_deps :: "unit retail_deps" where
  "sample_retail_deps =
     \<lparr>rd_builder = sample_builder, rd_profile = sample_profile, rd_complete = (\<lambda>_. sraise (OtherFailure ''offline'')),
      rd_generate = None, rd_query = None, rd_dispatch = None, rd_delete_attempt = (\<lambda>_. sreturn ()),
      rd_decode_clarification = (\<lambda>_. None), rd_decode_plan = (\<lambda>_. None), rd_decode_report = (\<lambda>_. None),
      rd_scalar = scalar_jval (\<lambda>_. []), rd_dump = (\<lambda>_ _. None),
      rd_policy = \<lparr>lp_max_model_calls = 6, lp_max_tool_calls = 12, lp_max_replans = 2, lp_max_repairs = 3, lp_max_clarifications = 2\<rparr>,
      rd_interrupt_after = []\<rparr>"

text \<open>A run whose report was persisted, with the private turns not yet deleted.\<close>

definition sample_reported_state :: retail_state where
  "sample_reported_state = (initial_state sample_retail_request)
     \<lparr>gs_current_node := Finalize, gs_model_call_count := 4, gs_tool_call_count := 4, gs_plan := Some sample_plan,
      gs_evidence := [sample_step_evidence ''base'', sample_step_evidence ''drill''],
      gs_terminal := Some (Report sample_investigation_report)\<rparr>"

definition sample_day4 :: "unit day4" where
  "sample_day4 = \<lparr>dw_checkpoints = [checkpoint_key sample_retail_deps sample_retail_request \<mapsto> sample_reported_state],
     dw_interrupted = [], dw_world = ()\<rparr>"

definition sample_outcome :: retail_run_outcome where
  "sample_outcome = \<lparr>ro_status = RunCompleted, ro_terminal = Some (Report sample_investigation_report), ro_stop = None,
     ro_model_calls = 4, ro_tool_calls = 4, ro_hashes = zero_hashes sample_retail_request, ro_attempt_id = 2\<rparr>"

lemma sample_outcome_valid: "valid_retail_run_outcome sample_outcome"
  by code_simp

lemma sample_policy_valid: "valid_retail_loop_policy (rd_policy sample_retail_deps)"
  by (simp add: sample_retail_deps_def valid_retail_loop_policy_def)

lemma sample_world_sound: "sound_world sample_retail_deps sample_retail_request sample_day4"
  by (auto simp: sound_world_def sample_day4_def held_def identified_def assert_checkpoint_compatible_def calls_accounted_def
      plan_progress_def work_done_def reported_def sample_reported_state_def initial_state_def zero_hashes_def sample_plan_def
      sample_plan_step_def sample_step_evidence_def sample_retail_deps_def)

lemma sample_day4_run:
  obtains d' where "run_day4 sample_retail_deps sample_retail_request sample_day4 = (Inr sample_outcome, d')"
proof -
  have i: "assert_checkpoint_compatible sample_reported_state sample_hex (rq_run_scope sample_retail_request) 2 = Inr ()"
    by (simp add: assert_checkpoint_compatible_def sample_reported_state_def initial_state_def zero_hashes_def sample_retail_request_def)
  have q: "gs_request sample_reported_state = sample_retail_request" "gs_terminal sample_reported_state \<noteq> None"
    "\<not> gs_cleanup_complete sample_reported_state" "rs_config_hash (rq_run_scope sample_retail_request) = sample_hex"
    "rq_attempt_id sample_retail_request = 2"
    by (simp_all add: sample_reported_state_def initial_state_def sample_retail_request_def)
  have r: "restore_day4_outcome sample_retail_request sample_reported_state = Inr sample_outcome"
    using sample_outcome_valid
    by (simp add: restore_day4_outcome_def day4_outcome_Inr sample_reported_state_def initial_state_def sample_outcome_def q(5))
  have f: "\<exists>d'. finish_day4 sample_retail_deps sample_retail_request sample_outcome d = (Inr sample_outcome, d')" for d
    by (simp add: finish_day4_def sample_retail_deps_def on_world_def mark_complete_def sbind_def)
  have "resume_day4 sample_retail_deps sample_retail_request sample_reported_state sample_day4
      = finish_day4 sample_retail_deps sample_retail_request sample_outcome sample_day4"
    using i q r by (simp add: resume_day4_def)
  then have "run_day4 sample_retail_deps sample_retail_request sample_day4
      = finish_day4 sample_retail_deps sample_retail_request sample_outcome sample_day4"
    by (simp add: run_day4_def sample_day4_def)
  then show ?thesis using f that by metis
qed

theorem retail_run_accounts_witness:
  "\<exists>d'. run_day4 sample_retail_deps sample_retail_request sample_day4 = (Inr sample_outcome, d')
     \<and> sound_world sample_retail_deps sample_retail_request d' \<and> ro_model_calls sample_outcome \<le> 6"
proof -
  obtain d' where r: "run_day4 sample_retail_deps sample_retail_request sample_day4 = (Inr sample_outcome, d')"
    by (rule sample_day4_run)
  show ?thesis using retail_run_accounts [OF sample_policy_valid sample_world_sound r] r by blast
qed

theorem completed_run_covers_plan_witness:
  "\<exists>d' st p. run_day4 sample_retail_deps sample_retail_request sample_day4 = (Inr sample_outcome, d')
     \<and> dw_checkpoints d' (checkpoint_key sample_retail_deps sample_retail_request) = Some st \<and> gs_plan st = Some p
     \<and> length (ip_steps p) \<le> 4"
proof -
  obtain d' where r: "run_day4 sample_retail_deps sample_retail_request sample_day4 = (Inr sample_outcome, d')"
    by (rule sample_day4_run)
  have "ro_status sample_outcome = RunCompleted" by (simp add: sample_outcome_def)
  from completed_run_covers_plan [OF sample_policy_valid sample_world_sound r this] r show ?thesis by blast
qed

end
