(* ===== verification/Value_Resolver.thy ===== *)
theory Value_Resolver
  imports Effects Json Complex_Main "HOL-Library.List_Lexorder" "HOL-Library.Product_Lexorder"
begin

text \<open>
  The business-value resolver (\<open>value_resolver/contracts.py\<close>, \<open>_store.py\<close>, \<open>_matching.py\<close>,
  \<open>resolver.py\<close>): deterministic matching of a user's text or identifier prefix against the stored values of
  a domain. The Unicode tables (NFKC, NFKD, casefold, combining, white space) are the record
  \<open>unicode_data\<close>, the store is a record of ports on the world. A trigram score is an exact rational: the
  double the code computes is the correctly rounded quotient of two counts, so it compares with another
  score and with 0.35 and 0.70 as the quotient does for texts shorter than ten million characters.
\<close>

subsection \<open>Contracts\<close>

datatype value_domain =
    CustomerState | SellerState | OrderStatus | PaymentType | ProductCategory | CustomerCity | SellerCity
  | SellerId | OrderId

fun value_domain_value :: "value_domain \<Rightarrow> string" where
  "value_domain_value CustomerState = ''customer_state''"
| "value_domain_value SellerState = ''seller_state''"
| "value_domain_value OrderStatus = ''order_status''"
| "value_domain_value PaymentType = ''payment_type''"
| "value_domain_value ProductCategory = ''product_category''"
| "value_domain_value CustomerCity = ''customer_city''"
| "value_domain_value SellerCity = ''seller_city''"
| "value_domain_value SellerId = ''seller_id''"
| "value_domain_value OrderId = ''order_id''"

datatype resolution_status = Resolved | Ambiguous | NotFound | TooBroad

datatype match_method = ExactMatch | NormalizedExactMatch | AliasMatch | PrefixMatch | TrigramMatch

datatype match_confidence = HighConfidence | MediumConfidence | LowConfidence

record unicode_data =
  un_nfkc :: "string \<Rightarrow> string"
  un_nfkd :: "string \<Rightarrow> string"
  un_casefold :: "string \<Rightarrow> string"
  un_combining :: "char \<Rightarrow> bool"
  un_space :: "char \<Rightarrow> bool"

definition strip_text :: "unicode_data \<Rightarrow> string \<Rightarrow> string" where
  "strip_text U s = rev (dropWhile (un_space U) (rev (dropWhile (un_space U) s)))"

record value_resolution_request =
  vr_domain :: value_domain
  vr_raw_text :: string

definition is_id_domain :: "value_domain \<Rightarrow> bool" where
  "is_id_domain d \<longleftrightarrow> d = SellerId \<or> d = OrderId"

definition valid_value_resolution_request :: "unicode_data \<Rightarrow> value_resolution_request \<Rightarrow> bool" where
  "valid_value_resolution_request U q \<longleftrightarrow>
     len_ok 1 256 (vr_raw_text q)
     \<and> (let normalized = un_casefold U (strip_text U (vr_raw_text q)) in
        normalized \<noteq> [] \<and> (is_id_domain (vr_domain q) \<longrightarrow> len_ok 1 32 normalized \<and> list_all is_hex normalized))"

text \<open>\<open>^value:[a-z_]+:[0-9a-f]{16}$\<close>.\<close>

definition value_ref_ok :: "string \<Rightarrow> bool" where
  "value_ref_ok s =
     (let rest = drop 6 s; dom = takeWhile (\<lambda>c. is_lower c \<or> c = CHR ''_'') rest; tail = drop (length dom) rest
      in take 6 s = ''value:'' \<and> dom \<noteq> [] \<and> take 1 tail = '':'' \<and> length (drop 1 tail) = 16 \<and> list_all is_hex (drop 1 tail))"

record value_candidate =
  vc_canonical_value :: string
  vc_display_label :: string
  vc_match_method :: match_method
  vc_confidence :: match_confidence
  vc_support_count :: int
  vc_evidence_ref :: string

definition valid_value_candidate :: "value_candidate \<Rightarrow> bool" where
  "valid_value_candidate c \<longleftrightarrow>
     vc_canonical_value c \<noteq> [] \<and> vc_display_label c \<noteq> [] \<and> 1 \<le> vc_support_count c \<and> value_ref_ok (vc_evidence_ref c)"

record value_resolution_result =
  vx_status :: resolution_status
  vx_domain :: value_domain
  vx_normalized_input :: string
  vx_candidates :: "value_candidate list"
  vx_data_manifest_sha256 :: string
  vx_catalog_revision :: string

definition candidate_shape_ok :: "resolution_status \<Rightarrow> nat \<Rightarrow> bool" where
  "candidate_shape_ok s n = (case s of
       Resolved \<Rightarrow> n = 1 | Ambiguous \<Rightarrow> 1 \<le> n \<and> n \<le> 10 | NotFound \<Rightarrow> n = 0 | TooBroad \<Rightarrow> n = 0)"

definition valid_value_resolution_result :: "value_resolution_result \<Rightarrow> bool" where
  "valid_value_resolution_result r \<longleftrightarrow>
     list_all valid_value_candidate (vx_candidates r) \<and> length (vx_candidates r) \<le> 10 \<and> hex64 (vx_data_manifest_sha256 r)
     \<and> len_ok 1 128 (vx_catalog_revision r) \<and> candidate_shape_ok (vx_status r) (length (vx_candidates r))"

datatype resolver_error =
    ValueDomainUnavailable string
  | ValueResolutionInfrastructureError string
  | ValueResolutionDataError string
  | InvalidResolution

subsection \<open>The store\<close>

record stored_revision =
  sv_data_manifest_sha256 :: string
  sv_catalog_revision :: string

record stored_value =
  sv_canonical_value :: string
  sv_display_label :: string
  sv_support_count :: int

record stored_alias =
  sa_normalized_alias :: string
  sa_canonical_value :: string
  sa_display_label :: string

record text_domain_snapshot =
  td_values :: "stored_value list"
  td_aliases :: "stored_alias list"
  td_revision :: stored_revision

record id_lookup =
  il_values :: "stored_value list"
  il_exceeded_limit :: bool
  il_revision :: stored_revision

record 'w value_store =
  vs_load_revision :: "('w, resolver_error, stored_revision) action"
  vs_load_text_domain :: "value_domain \<Rightarrow> ('w, resolver_error, text_domain_snapshot) action"
  vs_lookup_id :: "value_domain \<Rightarrow> string \<Rightarrow> bool \<Rightarrow> nat \<Rightarrow> ('w, resolver_error, id_lookup) action"

subsection \<open>Matching\<close>

text \<open>\<open>re.sub(r"\s+", " ", s)\<close>.\<close>

fun collapse_spaces :: "unicode_data \<Rightarrow> string \<Rightarrow> string" where
  "collapse_spaces U [] = []"
| "collapse_spaces U [c] = [if un_space U c then CHR '' '' else c]"
| "collapse_spaces U (c # d # s) =
     (if un_space U c then (if un_space U d then collapse_spaces U (d # s) else CHR '' '' # collapse_spaces U (d # s))
      else c # collapse_spaces U (d # s))"

definition normalize_text :: "unicode_data \<Rightarrow> string \<Rightarrow> string" where
  "normalize_text U s = strip_text U (collapse_spaces U (un_casefold U (un_nfkc U s)))"

definition normalize_city :: "unicode_data \<Rightarrow> string \<Rightarrow> string" where
  "normalize_city U s = filter (\<lambda>c. \<not> un_combining U c) (un_nfkd U (normalize_text U s))"

definition trigrams :: "string \<Rightarrow> string set" where
  "trigrams v = (let padded = ''  '' @ v @ ''  '' in set (map (\<lambda>i. take 3 (drop i padded)) [0..<length padded - 2]))"

definition trigram_dice :: "string \<Rightarrow> string \<Rightarrow> rat" where
  "trigram_dice l r =
     (if l = r then 1 else if l = [] \<or> r = [] then 0
      else of_nat (2 * card (trigrams l \<inter> trigrams r)) / of_nat (card (trigrams l) + card (trigrams r)))"

subsection \<open>The resolver\<close>

definition value_ref :: "(bytes \<Rightarrow> string) \<Rightarrow> value_domain \<Rightarrow> string \<Rightarrow> string" where
  "value_ref sha d v = ''value:'' @ value_domain_value d @ '':'' @ take 16 (sha (utf8 v))"

definition value_candidate_of ::
    "(bytes \<Rightarrow> string) \<Rightarrow> value_domain \<Rightarrow> match_method \<Rightarrow> match_confidence \<Rightarrow> stored_value \<Rightarrow> value_candidate" where
  "value_candidate_of sha d m c v =
     \<lparr>vc_canonical_value = sv_canonical_value v, vc_display_label = sv_display_label v, vc_match_method = m,
      vc_confidence = c, vc_support_count = sv_support_count v, vc_evidence_ref = value_ref sha d (sv_canonical_value v)\<rparr>"

text \<open>The candidates are built, and so validated, before the result.\<close>

definition resolution ::
    "value_domain \<Rightarrow> string \<Rightarrow> resolution_status \<Rightarrow> value_candidate list \<Rightarrow> stored_revision \<Rightarrow> resolver_error + value_resolution_result" where
  "resolution d input status cs rv =
     (let r = \<lparr>vx_status = status, vx_domain = d, vx_normalized_input = input, vx_candidates = cs,
               vx_data_manifest_sha256 = sv_data_manifest_sha256 rv, vx_catalog_revision = sv_catalog_revision rv\<rparr>
      in if valid_value_resolution_result r then Inr r else Inl InvalidResolution)"

definition resolve_id ::
    "unicode_data \<Rightarrow> (bytes \<Rightarrow> string) \<Rightarrow> 'w value_store \<Rightarrow> value_resolution_request \<Rightarrow> ('w, resolver_error, value_resolution_result) action"
where
  "resolve_id U sha V q =
     (let d = vr_domain q; input = normalize_text U (vr_raw_text q) in
      if length input < 6
      then sbind (vs_load_revision V) (\<lambda>rv. sresult (resolution d input TooBroad [] rv))
      else
       (let prefix = length input < 32 in
        sbind (vs_lookup_id V d input prefix (if prefix then 11 else 2)) (\<lambda>lookup.
        sresult (
          if prefix \<and> (il_exceeded_limit lookup \<or> 10 < length (il_values lookup))
          then resolution d input TooBroad [] (il_revision lookup)
          else if il_values lookup = [] then resolution d input NotFound [] (il_revision lookup)
          else if \<not> prefix \<and> (il_exceeded_limit lookup \<or> length (il_values lookup) \<noteq> 1)
          then Inl (ValueResolutionDataError ''id_cardinality'')
          else resolution d input (if prefix then Ambiguous else Resolved)
                 (map (value_candidate_of sha d (if prefix then PrefixMatch else ExactMatch) HighConfidence) (take 10 (il_values lookup)))
                 (il_revision lookup)))))"

definition by_support :: "stored_value \<Rightarrow> int \<times> string" where
  "by_support v = (- sv_support_count v, sv_canonical_value v)"

definition matched_result ::
    "(bytes \<Rightarrow> string) \<Rightarrow> value_domain \<Rightarrow> string \<Rightarrow> stored_value list \<Rightarrow> match_method \<Rightarrow> stored_revision
       \<Rightarrow> resolver_error + value_resolution_result" where
  "matched_result sha d input values m rv =
     (let ordered = sort_key by_support values in
      resolution d input (if length ordered = 1 then Resolved else Ambiguous)
        (map (value_candidate_of sha d m HighConfidence) (take 10 ordered)) rv)"

definition normalizer :: "unicode_data \<Rightarrow> value_domain \<Rightarrow> string \<Rightarrow> string" where
  "normalizer U d = (if d = CustomerCity \<or> d = SellerCity then normalize_city U else normalize_text U)"

definition scored_values :: "unicode_data \<Rightarrow> value_domain \<Rightarrow> string \<Rightarrow> stored_value list \<Rightarrow> (rat \<times> stored_value) list" where
  "scored_values U d input values =
     filter (\<lambda>(score, _). 35 / 100 \<le> score)
       (map (\<lambda>v. (trigram_dice input (normalizer U d (sv_canonical_value v)), v)) values)"

definition by_score :: "rat \<times> stored_value \<Rightarrow> rat \<times> int \<times> string" where
  "by_score p = (- fst p, by_support (snd p))"

definition trigram_confidence :: "rat \<Rightarrow> match_confidence" where
  "trigram_confidence score = (if 70 / 100 \<le> score then MediumConfidence else LowConfidence)"

definition alias_result ::
    "(bytes \<Rightarrow> string) \<Rightarrow> value_domain \<Rightarrow> string \<Rightarrow> stored_alias list \<Rightarrow> text_domain_snapshot
       \<Rightarrow> resolver_error + value_resolution_result" where
  "alias_result sha d input aliases snap =
     (if card (set (map sa_canonical_value aliases)) \<noteq> 1 then Inl (ValueResolutionDataError ''alias_collision'')
      else case find (\<lambda>v. sv_canonical_value v = sa_canonical_value (hd aliases)) (td_values snap) of
          None \<Rightarrow> Inl (ValueResolutionDataError ''alias_target_missing'')
        | Some v \<Rightarrow> matched_result sha d input [v\<lparr>sv_display_label := sa_display_label (hd aliases)\<rparr>] AliasMatch (td_revision snap))"

definition resolve_in ::
    "unicode_data \<Rightarrow> (bytes \<Rightarrow> string) \<Rightarrow> value_resolution_request \<Rightarrow> text_domain_snapshot \<Rightarrow> resolver_error + value_resolution_result"
where
  "resolve_in U sha q snap =
     (let d = vr_domain q; values = td_values snap; rv = td_revision snap; input = normalizer U d (vr_raw_text q);
          exact = filter (\<lambda>v. sv_canonical_value v = strip_text U (vr_raw_text q)) values;
          normalized = filter (\<lambda>v. normalizer U d (sv_canonical_value v) = input) values;
          aliases = filter (\<lambda>a. normalize_text U (sa_normalized_alias a) = normalize_text U (vr_raw_text q)) (td_aliases snap);
          best = take 10 (sort_key by_score (scored_values U d input values)) in
      if 10000 < length values then Inl (ValueResolutionDataError ''domain_cardinality'')
      else if exact \<noteq> [] then matched_result sha d input exact ExactMatch rv
      else if normalized \<noteq> [] then matched_result sha d input normalized NormalizedExactMatch rv
      else if aliases \<noteq> [] then alias_result sha d input aliases snap
      else resolution d input (if best = [] then NotFound else Ambiguous)
             (map (\<lambda>(score, v). value_candidate_of sha d TrigramMatch (trigram_confidence score) v) best) rv)"

definition resolve_text ::
    "unicode_data \<Rightarrow> (bytes \<Rightarrow> string) \<Rightarrow> 'w value_store \<Rightarrow> value_resolution_request \<Rightarrow> ('w, resolver_error, value_resolution_result) action"
where
  "resolve_text U sha V q = sbind (vs_load_text_domain V (vr_domain q)) (\<lambda>snap. sresult (resolve_in U sha q snap))"

definition resolve_value ::
    "unicode_data \<Rightarrow> (bytes \<Rightarrow> string) \<Rightarrow> 'w value_store \<Rightarrow> value_resolution_request \<Rightarrow> ('w, resolver_error, value_resolution_result) action"
where
  "resolve_value U sha V q = (if is_id_domain (vr_domain q) then resolve_id U sha V q else resolve_text U sha V q)"

subsection \<open>Trigram similarity\<close>

lemma trigrams_nonempty: "trigrams v \<noteq> {}"
  by (simp add: trigrams_def Let_def)

lemma card_trigrams: "0 < card (trigrams v)"
  using trigrams_nonempty by (simp add: card_gt_0_iff trigrams_def)

lemma finite_trigrams [simp]: "finite (trigrams v)"
  by (simp add: trigrams_def Let_def)

lemma trigram_dice_sym: "trigram_dice l r = trigram_dice r l"
  by (simp add: trigram_dice_def Int_commute add.commute)

lemma trigram_dice_range: "0 \<le> trigram_dice l r" "trigram_dice l r \<le> 1"
proof -
  have "card (trigrams l \<inter> trigrams r) \<le> card (trigrams l)" "card (trigrams l \<inter> trigrams r) \<le> card (trigrams r)"
    by (simp_all add: card_mono)
  then have "2 * card (trigrams l \<inter> trigrams r) \<le> card (trigrams l) + card (trigrams r)" by simp
  then have "(of_nat (2 * card (trigrams l \<inter> trigrams r)) :: rat) \<le> of_nat (card (trigrams l) + card (trigrams r))"
    by (simp only: of_nat_le_iff)
  moreover have "0 < (of_nat (card (trigrams l) + card (trigrams r)) :: rat)"
    using card_trigrams [of l] by (simp only: of_nat_0_less_iff add_pos_nonneg)
  ultimately show "0 \<le> trigram_dice l r" "trigram_dice l r \<le> 1" by (simp_all add: trigram_dice_def)
qed

text \<open>
  The similarity of two texts lies between zero and one whatever they are and does not depend on their
  order; equal texts score one and a text against the empty one scores zero. The score compares sets of
  trigrams, so a different text can score one as well: repetitions of a letter do not count.
\<close>

theorem trigram_dice_bounds:
  "0 \<le> trigram_dice l r \<and> trigram_dice l r \<le> 1 \<and> trigram_dice l r = trigram_dice r l \<and> trigram_dice l l = 1
     \<and> trigram_dice [] (c # s) = 0 \<and> trigram_dice ''aaaa'' ''aaaaa'' = 1"
proof -
  have "trigrams ''aaaa'' = trigrams ''aaaaa''" by code_simp
  then have "trigram_dice ''aaaa'' ''aaaaa'' = 1" using card_trigrams [of "''aaaaa''"] by (simp add: trigram_dice_def trigrams_nonempty)
  moreover have "trigram_dice l l = 1" "trigram_dice [] (c # s) = 0" by (simp_all add: trigram_dice_def)
  ultimately show ?thesis using trigram_dice_range [of l r] trigram_dice_sym [of l r] by blast
qed

subsection \<open>Candidates\<close>

lemma value_domain_chars:
  "value_domain_value d \<noteq> [] \<and> list_all (\<lambda>c. is_lower c \<or> c = CHR ''_'') (value_domain_value d)"
  by (cases d) (simp_all add: is_lower_def)

lemma value_ref_valid:
  assumes "hex64 (sha (utf8 v))"
  shows "value_ref_ok (value_ref sha d v)"
proof -
  define tail where "tail = CHR '':'' # take 16 (sha (utf8 v))"
  have t: "takeWhile (\<lambda>c. is_lower c \<or> c = CHR ''_'') (value_domain_value d @ tail) = value_domain_value d"
    using value_domain_chars [of d] by (subst takeWhile_append2) (auto simp: list_all_iff tail_def is_lower_def)
  have "list_all is_hex (take 16 (sha (utf8 v)))" "length (take 16 (sha (utf8 v))) = 16"
    using assms by (auto simp: hex64_def list_all_iff dest: in_set_takeD)
  then show ?thesis
    using t value_domain_chars [of d] by (simp add: value_ref_ok_def value_ref_def Let_def tail_def)
qed

lemma resolution_Inr:
  "resolution d input status cs rv = Inr r \<longleftrightarrow>
     r = \<lparr>vx_status = status, vx_domain = d, vx_normalized_input = input, vx_candidates = cs,
          vx_data_manifest_sha256 = sv_data_manifest_sha256 rv, vx_catalog_revision = sv_catalog_revision rv\<rparr>
     \<and> valid_value_resolution_result r"
  by (auto simp: resolution_def Let_def)

text \<open>A candidate that shows a stored value: its value, its count and the reference to its digest.\<close>

definition shows_value :: "(bytes \<Rightarrow> string) \<Rightarrow> value_domain \<Rightarrow> stored_value list \<Rightarrow> value_candidate \<Rightarrow> bool" where
  "shows_value sha d values c \<longleftrightarrow>
     (\<exists>v \<in> set values. vc_canonical_value c = sv_canonical_value v \<and> vc_support_count c = sv_support_count v
        \<and> vc_evidence_ref c = value_ref sha d (sv_canonical_value v))"

lemma shows_candidate: "v \<in> set values \<Longrightarrow> shows_value sha d values (value_candidate_of sha d m c v)"
  by (auto simp: shows_value_def value_candidate_of_def)

lemma matched_result_sound:
  assumes "matched_result sha d input vs m rv = Inr r" "\<And>v. v \<in> set vs \<Longrightarrow> shows_value sha d values (value_candidate_of sha d m HighConfidence v)"
  shows "valid_value_resolution_result r \<and> vx_domain r = d \<and> vx_normalized_input r = input
    \<and> list_all (shows_value sha d values) (vx_candidates r)
    \<and> list_all (\<lambda>c. vc_match_method c = m \<and> vc_confidence c = HighConfidence) (vx_candidates r)
    \<and> (vx_status r = Resolved \<longrightarrow> length vs = 1)"
  using assms by (auto simp: matched_result_def Let_def resolution_Inr list_all_iff value_candidate_of_def split: if_splits dest!: in_set_takeD)

text \<open>The values that a text can only mean: the tiers of the search in their order.\<close>

definition exact_values :: "unicode_data \<Rightarrow> value_resolution_request \<Rightarrow> text_domain_snapshot \<Rightarrow> stored_value list" where
  "exact_values U q snap = filter (\<lambda>v. sv_canonical_value v = strip_text U (vr_raw_text q)) (td_values snap)"

definition normalized_values :: "unicode_data \<Rightarrow> value_resolution_request \<Rightarrow> text_domain_snapshot \<Rightarrow> stored_value list" where
  "normalized_values U q snap = filter (\<lambda>v. normalizer U (vr_domain q) (sv_canonical_value v)
     = normalizer U (vr_domain q) (vr_raw_text q)) (td_values snap)"

definition matching_aliases :: "unicode_data \<Rightarrow> value_resolution_request \<Rightarrow> text_domain_snapshot \<Rightarrow> stored_alias list" where
  "matching_aliases U q snap = filter (\<lambda>a. normalize_text U (sa_normalized_alias a) = normalize_text U (vr_raw_text q)) (td_aliases snap)"

definition best_values :: "unicode_data \<Rightarrow> value_resolution_request \<Rightarrow> text_domain_snapshot \<Rightarrow> (rat \<times> stored_value) list" where
  "best_values U q snap = take 10 (sort_key by_score
     (scored_values U (vr_domain q) (normalizer U (vr_domain q) (vr_raw_text q)) (td_values snap)))"

lemma exact_values_stored: "v \<in> set (exact_values U q snap) \<Longrightarrow> v \<in> set (td_values snap)"
  by (simp add: exact_values_def)

lemma normalized_values_stored: "v \<in> set (normalized_values U q snap) \<Longrightarrow> v \<in> set (td_values snap)"
  by (simp add: normalized_values_def)

lemma resolve_in_tiers:
  "resolve_in U sha q snap =
     (if 10000 < length (td_values snap) then Inl (ValueResolutionDataError ''domain_cardinality'')
      else if exact_values U q snap \<noteq> []
      then matched_result sha (vr_domain q) (normalizer U (vr_domain q) (vr_raw_text q)) (exact_values U q snap) ExactMatch (td_revision snap)
      else if normalized_values U q snap \<noteq> []
      then matched_result sha (vr_domain q) (normalizer U (vr_domain q) (vr_raw_text q)) (normalized_values U q snap)
             NormalizedExactMatch (td_revision snap)
      else if matching_aliases U q snap \<noteq> []
      then alias_result sha (vr_domain q) (normalizer U (vr_domain q) (vr_raw_text q)) (matching_aliases U q snap) snap
      else resolution (vr_domain q) (normalizer U (vr_domain q) (vr_raw_text q)) (if best_values U q snap = [] then NotFound else Ambiguous)
             (map (\<lambda>(score, v). value_candidate_of sha (vr_domain q) TrigramMatch (trigram_confidence score) v) (best_values U q snap))
             (td_revision snap))"
  by (simp only: resolve_in_def Let_def exact_values_def normalized_values_def matching_aliases_def best_values_def)

lemma best_values_set: "p \<in> set (best_values U q snap) \<Longrightarrow> snd p \<in> set (td_values snap)
  \<and> fst p = trigram_dice (normalizer U (vr_domain q) (vr_raw_text q)) (normalizer U (vr_domain q) (sv_canonical_value (snd p)))
  \<and> 35 / 100 \<le> fst p"
  by (auto simp: best_values_def scored_values_def dest!: in_set_takeD)

lemma alias_result_sound:
  assumes "alias_result sha d input aliases snap = Inr r"
  shows "valid_value_resolution_result r \<and> vx_domain r = d \<and> vx_normalized_input r = input
    \<and> list_all (shows_value sha d (td_values snap)) (vx_candidates r)
    \<and> list_all (\<lambda>c. vc_match_method c = AliasMatch \<and> vc_confidence c = HighConfidence) (vx_candidates r)
    \<and> card (set (map sa_canonical_value aliases)) = 1
    \<and> (\<forall>c \<in> set (vx_candidates r). \<forall>a \<in> set aliases. sa_canonical_value a = vc_canonical_value c)"
proof -
  obtain v where v: "find (\<lambda>v. sv_canonical_value v = sa_canonical_value (hd aliases)) (td_values snap) = Some v"
    and m: "matched_result sha d input [v\<lparr>sv_display_label := sa_display_label (hd aliases)\<rparr>] AliasMatch (td_revision snap) = Inr r"
    and c: "card (set (map sa_canonical_value aliases)) = 1"
    using assms by (auto simp: alias_result_def split: if_splits option.splits)
  have "v \<in> set (td_values snap)" using v by (auto simp: find_Some_iff)
  then have "shows_value sha d (td_values snap) (value_candidate_of sha d AliasMatch HighConfidence (v\<lparr>sv_display_label := sa_display_label (hd aliases)\<rparr>))"
    by (auto simp: shows_value_def value_candidate_of_def)
  then have sound: "valid_value_resolution_result r \<and> vx_domain r = d \<and> vx_normalized_input r = input
    \<and> list_all (shows_value sha d (td_values snap)) (vx_candidates r)
    \<and> list_all (\<lambda>c. vc_match_method c = AliasMatch \<and> vc_confidence c = HighConfidence) (vx_candidates r)"
    using matched_result_sound [OF m, of "td_values snap"] by auto
  have named: "vc_canonical_value x = sa_canonical_value (hd aliases)" if "x \<in> set (vx_candidates r)" for x
    using m v that by (auto simp: matched_result_def Let_def resolution_Inr value_candidate_of_def find_Some_iff)
  have "sa_canonical_value a = sa_canonical_value (hd aliases)" if "a \<in> set aliases" for a
  proof -
    obtain x where "sa_canonical_value ` set aliases = {x}" using c by (auto simp: card_1_singleton_iff)
    moreover have "hd aliases \<in> set aliases" using that by (cases aliases) auto
    ultimately show ?thesis using that by (metis imageI singletonD)
  qed
  then show ?thesis using sound c named by auto
qed

text \<open>
  C15: a text resolves only when one reading is certain, and to what that reading says. The candidates are those
  of the first tier of the search that matches anything: stored values equal to the text, else stored values equal
  to it after normalisation, else the one stored value that every matching alias names, else trigram matches. A
  result is Resolved only for one candidate of high confidence of one of the first three tiers, when that tier
  holds one value; a trigram match never resolves.
\<close>

theorem text_resolution_sound:
  assumes "resolve_in U sha q snap = Inr r"
  shows "valid_value_resolution_result r \<and> vx_domain r = vr_domain q
    \<and> list_all (shows_value sha (vr_domain q) (td_values snap)) (vx_candidates r)
    \<and> list_all (\<lambda>c.
         if exact_values U q snap \<noteq> []
         then vc_match_method c = ExactMatch \<and> shows_value sha (vr_domain q) (exact_values U q snap) c
         else if normalized_values U q snap \<noteq> []
         then vc_match_method c = NormalizedExactMatch \<and> shows_value sha (vr_domain q) (normalized_values U q snap) c
         else if matching_aliases U q snap \<noteq> []
         then vc_match_method c = AliasMatch \<and> (\<forall>a \<in> set (matching_aliases U q snap). sa_canonical_value a = vc_canonical_value c)
         else vc_match_method c = TrigramMatch) (vx_candidates r)
    \<and> (vx_status r = Resolved \<longrightarrow> (\<exists>c. vx_candidates r = [c] \<and> vc_confidence c = HighConfidence
         \<and> (vc_match_method c = ExactMatch \<and> length (exact_values U q snap) = 1
           \<or> vc_match_method c = NormalizedExactMatch \<and> exact_values U q snap = [] \<and> length (normalized_values U q snap) = 1
           \<or> vc_match_method c = AliasMatch \<and> exact_values U q snap = [] \<and> normalized_values U q snap = []
             \<and> card (set (map sa_canonical_value (matching_aliases U q snap))) = 1)))"
proof -
  let ?d = "vr_domain q" and ?i = "normalizer U (vr_domain q) (vr_raw_text q)"
  have one: "\<exists>c. vx_candidates r = [c]" if "valid_value_resolution_result r" "vx_status r = Resolved"
    using that by (auto simp: valid_value_resolution_result_def candidate_shape_ok_def length_Suc_conv)
  have wider: "list_all (shows_value sha ?d (td_values snap)) cs"
    if "list_all (shows_value sha ?d vs) cs" "set vs \<subseteq> set (td_values snap)" for vs cs
    using that by (fastforce simp: list_all_iff shows_value_def)
  consider (exact) "exact_values U q snap \<noteq> []" | (norm) "exact_values U q snap = []" "normalized_values U q snap \<noteq> []"
    | (aliased) "exact_values U q snap = []" "normalized_values U q snap = []" "matching_aliases U q snap \<noteq> []"
    | (tri) "exact_values U q snap = []" "normalized_values U q snap = []" "matching_aliases U q snap = []" by blast
  then show ?thesis
  proof cases
    case exact
    then have "matched_result sha ?d ?i (exact_values U q snap) ExactMatch (td_revision snap) = Inr r"
      using assms by (simp add: resolve_in_tiers split: if_splits)
    note m = matched_result_sound [OF this shows_candidate]
    have "list_all (shows_value sha ?d (td_values snap)) (vx_candidates r)"
      using m exact_values_stored by (intro wider) auto
    then show ?thesis using m one exact by (fastforce simp: list_all_iff)
  next
    case norm
    then have "matched_result sha ?d ?i (normalized_values U q snap) NormalizedExactMatch (td_revision snap) = Inr r"
      using assms by (simp add: resolve_in_tiers split: if_splits)
    note m = matched_result_sound [OF this shows_candidate]
    have "list_all (shows_value sha ?d (td_values snap)) (vx_candidates r)"
      using m normalized_values_stored by (intro wider) auto
    then show ?thesis using m one norm by (fastforce simp: list_all_iff)
  next
    case aliased
    then have "alias_result sha ?d ?i (matching_aliases U q snap) snap = Inr r"
      using assms by (simp add: resolve_in_tiers split: if_splits)
    from alias_result_sound [OF this] aliased show ?thesis using one by (fastforce simp: list_all_iff)
  next
    case tri
    then have "resolution ?d ?i (if best_values U q snap = [] then NotFound else Ambiguous)
        (map (\<lambda>(score, v). value_candidate_of sha ?d TrigramMatch (trigram_confidence score) v) (best_values U q snap)) (td_revision snap) = Inr r"
      using assms by (simp add: resolve_in_tiers split: if_splits)
    then show ?thesis using tri best_values_set [of _ U q snap]
      by (auto simp: resolution_Inr list_all_iff value_candidate_of_def shows_value_def)
  qed
qed

lemma take_sort_key_best:
  assumes "x \<in> set xs"
  shows "x \<in> set (take n (sort_key f xs)) \<or> length (take n (sort_key f xs)) = n \<and> (\<forall>p \<in> set (take n (sort_key f xs)). f p \<le> f x)"
proof (cases "x \<in> set (take n (sort_key f xs))")
  case False
  have s: "take n (sort_key f xs) @ drop n (sort_key f xs) = sort_key f xs" by (rule append_take_drop_id)
  then have x: "x \<in> set (drop n (sort_key f xs))" using assms False by (metis Un_iff set_append set_sort)
  then have "drop n (sort_key f xs) \<noteq> []" by auto
  then have "length (take n (sort_key f xs)) = n" by simp
  moreover have "sorted (map f (take n (sort_key f xs)) @ map f (drop n (sort_key f xs)))"
    by (simp only: s sorted_sort_key flip: map_append)
  then have "\<forall>a \<in> set (map f (take n (sort_key f xs))). \<forall>b \<in> set (map f (drop n (sort_key f xs))). a \<le> b"
    unfolding sorted_append by blast
  ultimately show ?thesis using x by (simp only: set_map ball_simps) blast
qed simp

text \<open>
  Without a certain reading the search offers the best ten values. The candidates are stored values whose
  similarity reaches the threshold, with medium confidence from 0.70 on; a value that reaches the threshold
  and is not offered was displaced by ten others, each at least as similar, and among equals with at least
  its support count, and then not after it in the order of the values.
\<close>

theorem trigram_candidates_best:
  assumes "resolve_in U sha q snap = Inr r"
    and "exact_values U q snap = []" and "normalized_values U q snap = []" and "matching_aliases U q snap = []"
  shows "vx_status r = (if best_values U q snap = [] then NotFound else Ambiguous)
    \<and> vx_candidates r = map (\<lambda>(score, v). value_candidate_of sha (vr_domain q) TrigramMatch
         (if 70 / 100 \<le> score then MediumConfidence else LowConfidence) v) (best_values U q snap)
    \<and> (\<forall>v \<in> set (td_values snap).
         let p = (trigram_dice (normalizer U (vr_domain q) (vr_raw_text q)) (normalizer U (vr_domain q) (sv_canonical_value v)), v) in
         35 / 100 \<le> fst p \<longrightarrow> p \<in> set (best_values U q snap)
           \<or> length (best_values U q snap) = 10 \<and> (\<forall>b \<in> set (best_values U q snap). by_score b \<le> by_score p))"
proof -
  let ?i = "normalizer U (vr_domain q) (vr_raw_text q)"
  have "p \<in> set (best_values U q snap) \<or> length (best_values U q snap) = 10 \<and> (\<forall>b \<in> set (best_values U q snap). by_score b \<le> by_score p)"
    if "v \<in> set (td_values snap)" "p = (trigram_dice ?i (normalizer U (vr_domain q) (sv_canonical_value v)), v)" "35 / 100 \<le> fst p" for p v
    unfolding best_values_def by (rule take_sort_key_best) (use that in \<open>auto simp: scored_values_def\<close>)
  then show ?thesis using assms by (auto simp: resolve_in_tiers resolution_Inr trigram_confidence_def Let_def split: if_splits)
qed

subsection \<open>Errors of the search\<close>

definition well_formed_domain :: "text_domain_snapshot \<Rightarrow> bool" where
  "well_formed_domain snap \<longleftrightarrow>
     list_all (\<lambda>v. sv_canonical_value v \<noteq> [] \<and> sv_display_label v \<noteq> [] \<and> 1 \<le> sv_support_count v) (td_values snap)
     \<and> list_all (\<lambda>a. sa_display_label a \<noteq> []) (td_aliases snap)
     \<and> hex64 (sv_data_manifest_sha256 (td_revision snap)) \<and> len_ok 1 128 (sv_catalog_revision (td_revision snap))"

lemma resolution_total:
  assumes "list_all valid_value_candidate cs" "length cs \<le> 10" "hex64 (sv_data_manifest_sha256 rv)"
    "len_ok 1 128 (sv_catalog_revision rv)" "candidate_shape_ok status (length cs)"
  shows "\<exists>r. resolution d input status cs rv = Inr r"
  using assms by (simp add: resolution_def Let_def valid_value_resolution_result_def)

lemma candidate_valid:
  "sv_canonical_value v \<noteq> [] \<Longrightarrow> sv_display_label v \<noteq> [] \<Longrightarrow> 1 \<le> sv_support_count v \<Longrightarrow> (\<forall>b. hex64 (sha b))
     \<Longrightarrow> valid_value_candidate (value_candidate_of sha d m c v)"
  by (simp add: valid_value_candidate_def value_candidate_of_def value_ref_valid)

lemma matched_result_total:
  assumes "\<forall>b. hex64 (sha b)" "hex64 (sv_data_manifest_sha256 rv)" "len_ok 1 128 (sv_catalog_revision rv)" "vs \<noteq> []"
    and "\<And>v. v \<in> set vs \<Longrightarrow> sv_canonical_value v \<noteq> [] \<and> sv_display_label v \<noteq> [] \<and> 1 \<le> sv_support_count v"
  shows "\<exists>r. matched_result sha d input vs m rv = Inr r"
  unfolding matched_result_def Let_def
  by (rule resolution_total) (use assms in \<open>auto simp: list_all_iff candidate_shape_ok_def Suc_le_eq dest!: in_set_takeD intro!: candidate_valid\<close>)

text \<open>
  On a well-formed domain the search always answers, and fails only for a domain above ten thousand
  values, an alias that names two values, or one whose value is not stored. In particular the candidates it
  builds never violate their own contract.
\<close>

theorem text_resolution_total:
  assumes "well_formed_domain snap" and "\<forall>b. hex64 (sha b)"
  shows "(\<exists>r. resolve_in U sha q snap = Inr r \<and> vx_normalized_input r = normalizer U (vr_domain q) (vr_raw_text q))
    \<or> resolve_in U sha q snap = Inl (ValueResolutionDataError ''domain_cardinality'') \<and> 10000 < length (td_values snap)
    \<or> resolve_in U sha q snap = Inl (ValueResolutionDataError ''alias_collision'')
        \<and> card (set (map sa_canonical_value (matching_aliases U q snap))) \<noteq> 1
    \<or> resolve_in U sha q snap = Inl (ValueResolutionDataError ''alias_target_missing'')
        \<and> sa_canonical_value (hd (matching_aliases U q snap)) \<notin> set (map sv_canonical_value (td_values snap))"
proof (cases "10000 < length (td_values snap)")
  case True
  then show ?thesis by (simp add: resolve_in_tiers)
next
  case False
  let ?d = "vr_domain q" and ?i = "normalizer U (vr_domain q) (vr_raw_text q)" and ?rv = "td_revision snap"
  have w: "sv_canonical_value v \<noteq> [] \<and> sv_display_label v \<noteq> [] \<and> 1 \<le> sv_support_count v" if "v \<in> set (td_values snap)" for v
    using assms(1) that by (auto simp: well_formed_domain_def list_all_iff)
  have rv: "hex64 (sv_data_manifest_sha256 ?rv)" "len_ok 1 128 (sv_catalog_revision ?rv)"
    using assms(1) by (simp_all add: well_formed_domain_def)
  have matched: "\<exists>r. matched_result sha ?d ?i vs m ?rv = Inr r \<and> vx_normalized_input r = ?i"
    if "vs \<noteq> []" "\<And>v. v \<in> set vs \<Longrightarrow> sv_canonical_value v \<noteq> [] \<and> sv_display_label v \<noteq> [] \<and> 1 \<le> sv_support_count v" for vs m
    using matched_result_total [OF assms(2) rv that, of ?d ?i m] by (auto simp: matched_result_def Let_def resolution_Inr)
  consider (exact) "exact_values U q snap \<noteq> []" | (norm) "exact_values U q snap = []" "normalized_values U q snap \<noteq> []"
    | (aliased) "exact_values U q snap = []" "normalized_values U q snap = []" "matching_aliases U q snap \<noteq> []"
    | (tri) "exact_values U q snap = []" "normalized_values U q snap = []" "matching_aliases U q snap = []" by blast
  then show ?thesis
  proof cases
    case exact
    obtain r where "matched_result sha ?d ?i (exact_values U q snap) ExactMatch ?rv = Inr r" "vx_normalized_input r = ?i"
      using matched [of "exact_values U q snap" ExactMatch] w exact exact_values_stored by meson
    then show ?thesis using exact False by (simp add: resolve_in_tiers)
  next
    case norm
    obtain r where "matched_result sha ?d ?i (normalized_values U q snap) NormalizedExactMatch ?rv = Inr r" "vx_normalized_input r = ?i"
      using matched [of "normalized_values U q snap" NormalizedExactMatch] w norm(2) normalized_values_stored by meson
    then show ?thesis using norm False by (simp add: resolve_in_tiers)
  next
    case aliased
    let ?a = "hd (matching_aliases U q snap)"
    have l: "sa_display_label ?a \<noteq> []"
      using aliased(3) assms(1) hd_in_set [OF aliased(3)] by (auto simp: matching_aliases_def well_formed_domain_def list_all_iff)
    show ?thesis
    proof (cases "find (\<lambda>v. sv_canonical_value v = sa_canonical_value ?a) (td_values snap)")
      case None
      then have "sa_canonical_value ?a \<notin> set (map sv_canonical_value (td_values snap))" by (auto simp: find_None_iff)
      then show ?thesis using None aliased False by (simp add: resolve_in_tiers alias_result_def)
    next
      case (Some v)
      then have "v \<in> set (td_values snap)" by (auto simp: find_Some_iff)
      then obtain r where "matched_result sha ?d ?i [v\<lparr>sv_display_label := sa_display_label ?a\<rparr>] AliasMatch ?rv = Inr r"
          "vx_normalized_input r = ?i"
        using matched [of "[v\<lparr>sv_display_label := sa_display_label ?a\<rparr>]" AliasMatch] w [of v] l by auto
      then show ?thesis using aliased False Some by (auto simp: resolve_in_tiers alias_result_def)
    qed
  next
    case tri
    have "list_all valid_value_candidate (map (\<lambda>(score, v). value_candidate_of sha ?d TrigramMatch (trigram_confidence score) v) (best_values U q snap))"
      using w best_values_set [of _ U q snap] assms(2) by (fastforce simp: list_all_iff intro!: candidate_valid)
    moreover have "length (best_values U q snap) \<le> 10" by (simp add: best_values_def)
    moreover have "candidate_shape_ok (if best_values U q snap = [] then NotFound else Ambiguous) (length (best_values U q snap))"
      using calculation(2) by (simp add: candidate_shape_ok_def Suc_le_eq)
    ultimately obtain r where "resolution ?d ?i (if best_values U q snap = [] then NotFound else Ambiguous)
        (map (\<lambda>(score, v). value_candidate_of sha ?d TrigramMatch (trigram_confidence score) v) (best_values U q snap)) ?rv = Inr r"
      using resolution_total [OF _ _ rv] length_map by metis
    then show ?thesis using tri False by (auto simp: resolve_in_tiers resolution_Inr)
  qed
qed

subsection \<open>Identifiers\<close>

text \<open>
  An identifier prefix never resolves. With fewer than six characters the store is not searched at all;
  below the full length of 32 the answer offers at most ten identifiers as ambiguous, even a single one, or
  says too broad or not found; only a full identifier that the store holds exactly once resolves.
\<close>

theorem id_prefix_never_resolves:
  assumes "resolve_id U sha V q w = (Inr r, w')"
  shows "(length (normalize_text U (vr_raw_text q)) < 6 \<longrightarrow> vx_status r = TooBroad \<and> w' = snd (vs_load_revision V w))
    \<and> (length (normalize_text U (vr_raw_text q)) < 32 \<longrightarrow> vx_status r \<noteq> Resolved)
    \<and> (vx_status r = Resolved \<longrightarrow> (\<exists>l v. vs_lookup_id V (vr_domain q) (normalize_text U (vr_raw_text q)) False 2 w = (Inr l, w')
         \<and> il_values l = [v] \<and> \<not> il_exceeded_limit l
         \<and> vx_candidates r = [value_candidate_of sha (vr_domain q) ExactMatch HighConfidence v]))"
  using assms
  by (auto simp: resolve_id_def Let_def sbind_Inr_iff resolution_Inr length_Suc_conv split: if_splits)

subsection \<open>A concrete domain\<close>

definition sample_unicode :: unicode_data where
  "sample_unicode = \<lparr>un_nfkc = id, un_nfkd = id, un_casefold = id, un_combining = (\<lambda>_. False), un_space = (\<lambda>c. c = CHR '' '')\<rparr>"

definition sample_value_sha :: "bytes \<Rightarrow> string" where
  "sample_value_sha b = replicate 64 CHR ''a''"

definition sample_statuses :: text_domain_snapshot where
  "sample_statuses =
     \<lparr>td_values = [\<lparr>sv_canonical_value = ''delivered'', sv_display_label = ''Delivered'', sv_support_count = 90\<rparr>,
                   \<lparr>sv_canonical_value = ''canceled'', sv_display_label = ''Canceled'', sv_support_count = 6\<rparr>],
      td_aliases = [\<lparr>sa_normalized_alias = ''entregue'', sa_canonical_value = ''delivered'', sa_display_label = ''Entregue''\<rparr>],
      td_revision = \<lparr>sv_data_manifest_sha256 = replicate 64 CHR ''b'', sv_catalog_revision = ''retail-catalog-v1''\<rparr>\<rparr>"

definition status_request :: "string \<Rightarrow> value_resolution_request" where
  "status_request s = \<lparr>vr_domain = OrderStatus, vr_raw_text = s\<rparr>"

lemma sample_search:
  "exact_values sample_unicode (status_request ''deliverd'') sample_statuses = []"
  "normalized_values sample_unicode (status_request ''deliverd'') sample_statuses = []"
  "matching_aliases sample_unicode (status_request ''deliverd'') sample_statuses = []"
  by code_simp+

lemma sample_best: "map (sv_canonical_value \<circ> snd) (best_values sample_unicode (status_request ''deliverd'') sample_statuses) = [''delivered'']"
  by code_simp

lemma sample_resolved:
  "\<exists>r. resolve_in sample_unicode sample_value_sha (status_request ''entregue'') sample_statuses = Inr r \<and> vx_status r = Resolved"
proof -
  have "(case resolve_in sample_unicode sample_value_sha (status_request ''entregue'') sample_statuses of
      Inr r \<Rightarrow> vx_status r = Resolved | Inl _ \<Rightarrow> False)"
    by code_simp
  then show ?thesis by (auto split: sum.splits)
qed

lemma sample_offered:
  "\<exists>r. resolve_in sample_unicode sample_value_sha (status_request ''deliverd'') sample_statuses = Inr r"
proof -
  have "is_ok (resolve_in sample_unicode sample_value_sha (status_request ''deliverd'') sample_statuses)" by code_simp
  then show ?thesis by (simp add: is_ok_iff)
qed

lemma sample_statuses_ok: "well_formed_domain sample_statuses" "\<forall>b. hex64 (sample_value_sha b)"
proof -
  show "well_formed_domain sample_statuses" by code_simp
  have "hex64 (replicate 64 CHR ''a'')" by code_simp
  then show "\<forall>b. hex64 (sample_value_sha b)" by (simp add: sample_value_sha_def)
qed

theorem text_resolution_sound_witness:
  "\<exists>r c. resolve_in sample_unicode sample_value_sha (status_request ''entregue'') sample_statuses = Inr r
     \<and> vx_candidates r = [c] \<and> vc_confidence c = HighConfidence"
proof -
  obtain r where r: "resolve_in sample_unicode sample_value_sha (status_request ''entregue'') sample_statuses = Inr r" "vx_status r = Resolved"
    using sample_resolved by blast
  from text_resolution_sound [OF r(1)] r show ?thesis by blast
qed

theorem trigram_candidates_best_witness:
  "\<exists>r. resolve_in sample_unicode sample_value_sha (status_request ''deliverd'') sample_statuses = Inr r
     \<and> vx_status r = Ambiguous"
proof -
  obtain r where r: "resolve_in sample_unicode sample_value_sha (status_request ''deliverd'') sample_statuses = Inr r"
    using sample_offered by blast
  have "best_values sample_unicode (status_request ''deliverd'') sample_statuses \<noteq> []" using sample_best by auto
  then show ?thesis using trigram_candidates_best [OF r sample_search] r by simp
qed

theorem text_resolution_total_witness:
  "\<exists>r. resolve_in sample_unicode sample_value_sha (status_request ''deliverd'') sample_statuses = Inr r
     \<and> vx_normalized_input r = normalizer sample_unicode OrderStatus ''deliverd''"
  using text_resolution_total [OF sample_statuses_ok, of sample_unicode "status_request ''deliverd''"] sample_offered
  by (auto simp: status_request_def)

definition sample_value_store :: "unit value_store" where
  "sample_value_store =
     \<lparr>vs_load_revision = sreturn (td_revision sample_statuses), vs_load_text_domain = (\<lambda>_. sreturn sample_statuses),
      vs_lookup_id = (\<lambda>_ s p n. sreturn \<lparr>il_values = [\<lparr>sv_canonical_value = s, sv_display_label = s, sv_support_count = 1\<rparr>],
        il_exceeded_limit = False, il_revision = td_revision sample_statuses\<rparr>)\<rparr>"

definition sample_id_request :: "nat \<Rightarrow> value_resolution_request" where
  "sample_id_request n = \<lparr>vr_domain = OrderId, vr_raw_text = replicate n CHR ''a''\<rparr>"

lemma sample_id_answer:
  "\<exists>r. resolve_id sample_unicode sample_value_sha sample_value_store (sample_id_request 31) () = (Inr r, ())"
  "\<exists>r. resolve_id sample_unicode sample_value_sha sample_value_store (sample_id_request 32) () = (Inr r, ()) \<and> vx_status r = Resolved"
proof -
  have "is_ok (fst (resolve_id sample_unicode sample_value_sha sample_value_store (sample_id_request 31) ()))" by code_simp
  then show "\<exists>r. resolve_id sample_unicode sample_value_sha sample_value_store (sample_id_request 31) () = (Inr r, ())"
    by (auto simp: is_ok_iff prod_eq_iff)
  have "(case fst (resolve_id sample_unicode sample_value_sha sample_value_store (sample_id_request 32) ()) of
      Inr r \<Rightarrow> vx_status r = Resolved | Inl _ \<Rightarrow> False)" by code_simp
  then show "\<exists>r. resolve_id sample_unicode sample_value_sha sample_value_store (sample_id_request 32) () = (Inr r, ()) \<and> vx_status r = Resolved"
    by (auto simp: prod_eq_iff split: sum.splits)
qed

theorem id_prefix_never_resolves_witness:
  "\<exists>r. resolve_id sample_unicode sample_value_sha sample_value_store (sample_id_request 31) () = (Inr r, ()) \<and> vx_status r \<noteq> Resolved"
proof -
  obtain r where r: "resolve_id sample_unicode sample_value_sha sample_value_store (sample_id_request 31) () = (Inr r, ())"
    using sample_id_answer(1) by blast
  have "length (normalize_text sample_unicode (vr_raw_text (sample_id_request 31))) < 32" by code_simp
  then show ?thesis using id_prefix_never_resolves [OF r] r by blast
qed

end
