(* ===== verification/Knowledge.thy ===== *)
theory Knowledge
  imports Effects Gateway "HOL-Library.Product_Lexorder"
begin

text \<open>
  Product knowledge (\<open>knowledge/contracts.py\<close>, \<open>errors.py\<close>, \<open>_store.py\<close>, \<open>module.py\<close>, \<open>_catalog.py\<close>): the
  fail-closed retrieval of the active revision, and the validation and canonical hash of a checked-in
  catalogue. The store is a port on the world; json.loads with pydantic's typed reading of a catalogue file
  is the parameter \<open>decode\<close> (None: UnicodeDecodeError, JSONDecodeError, TypeError or a type that does not
  fit), whose result the field constraints then judge. The content of a document is an ordered JSON object.
\<close>

subsection \<open>Contracts\<close>

datatype knowledge_kind = TableDoc | ColumnDoc | JoinDoc | MetricDoc | DataQualityDoc | PermissionDoc

fun knowledge_kind_value :: "knowledge_kind \<Rightarrow> string" where
  "knowledge_kind_value TableDoc = ''table''"
| "knowledge_kind_value ColumnDoc = ''column''"
| "knowledge_kind_value JoinDoc = ''join''"
| "knowledge_kind_value MetricDoc = ''metric''"
| "knowledge_kind_value DataQualityDoc = ''data_quality''"
| "knowledge_kind_value PermissionDoc = ''permission''"

fun kind_order :: "knowledge_kind \<Rightarrow> int" where
  "kind_order TableDoc = 0"
| "kind_order ColumnDoc = 1"
| "kind_order JoinDoc = 2"
| "kind_order MetricDoc = 3"
| "kind_order DataQualityDoc = 4"
| "kind_order PermissionDoc = 5"

text \<open>\<open>^[a-z][a-z0-9_.-]{2,127}$\<close>.\<close>

definition doc_id_ok :: "string \<Rightarrow> bool" where
  "doc_id_ok s = ident_ok is_lower ref_char 2 127 s"

record knowledge_evidence =
  ke_doc_id :: string
  ke_revision :: string
  ke_kind :: knowledge_kind
  ke_title :: string
  ke_content :: "(string \<times> jval) list"
  ke_source_type :: string
  ke_source_path :: string
  ke_source_sha256 :: string

definition valid_knowledge_evidence :: "knowledge_evidence \<Rightarrow> bool" where
  "valid_knowledge_evidence e \<longleftrightarrow>
     doc_id_ok (ke_doc_id e) \<and> len_ok 1 128 (ke_revision e) \<and> len_ok 1 200 (ke_title e) \<and> len_ok 1 64 (ke_source_type e)
     \<and> len_ok 1 500 (ke_source_path e) \<and> hex64 (ke_source_sha256 e)"

record knowledge_bundle =
  kb_catalog_revision :: string
  kb_catalog_sha256 :: string
  kb_evidence :: "knowledge_evidence list"

definition valid_knowledge_bundle :: "knowledge_bundle \<Rightarrow> bool" where
  "valid_knowledge_bundle b \<longleftrightarrow>
     len_ok 1 128 (kb_catalog_revision b) \<and> hex64 (kb_catalog_sha256 b) \<and> kb_evidence b \<noteq> []
     \<and> list_all valid_knowledge_evidence (kb_evidence b)"

datatype knowledge_error =
    KnowledgeRevisionUnavailable string
  | KnowledgeCatalogInvalid string
  | KnowledgeInfrastructureError string
  | InvalidKnowledge

record stored_knowledge_catalog =
  sk_revision :: string
  sk_content_sha256 :: string
  sk_evidence :: "knowledge_evidence list"

subsection \<open>Retrieval\<close>

definition gmv_id :: string where "gmv_id = ''metric.gmv''"

text \<open>\<open>content.get("status") != ("clarification_required")\<close>.\<close>

definition requires_clarification :: "(string \<times> jval) list \<Rightarrow> bool" where
  "requires_clarification content \<longleftrightarrow> map_of content ''status'' = Some (VStr ''clarification_required'')"

text \<open>The check of the two readers, on the identifiers and contents of the documents.\<close>

definition check_gmv :: "(string \<times> (string \<times> jval) list) list \<Rightarrow> knowledge_error + unit" where
  "check_gmv docs =
     (let gmv = filter (\<lambda>d. fst d = gmv_id) docs in
      if gmv = [] then Inl (KnowledgeCatalogInvalid ''gmv_missing'')
      else if length gmv \<noteq> 1 \<or> \<not> requires_clarification (snd (hd gmv)) then Inl (KnowledgeCatalogInvalid ''gmv_definition'')
      else Inr ())"

definition evidence_order :: "knowledge_evidence \<Rightarrow> int \<times> string" where
  "evidence_order e = (kind_order (ke_kind e), ke_doc_id e)"

definition bundle_of_catalog :: "stored_knowledge_catalog option \<Rightarrow> knowledge_error + knowledge_bundle" where
  "bundle_of_catalog stored = (case stored of
       None \<Rightarrow> Inl (KnowledgeRevisionUnavailable ''revision_missing'')
     | Some s \<Rightarrow>
         if sk_evidence s = [] then Inl (KnowledgeCatalogInvalid ''evidence_empty'')
         else if list_ex (\<lambda>e. ke_revision e \<noteq> sk_revision s) (sk_evidence s) then Inl (KnowledgeCatalogInvalid ''revision_mismatch'')
         else rbind (check_gmv (map (\<lambda>e. (ke_doc_id e, ke_content e)) (sk_evidence s))) (\<lambda>_.
           let b = \<lparr>kb_catalog_revision = sk_revision s, kb_catalog_sha256 = sk_content_sha256 s,
                    kb_evidence = sort_key evidence_order (sk_evidence s)\<rparr>
           in if valid_knowledge_bundle b then Inr b else Inl InvalidKnowledge))"

definition retrieve_knowledge ::
    "('w, knowledge_error, stored_knowledge_catalog option) action \<Rightarrow> ('w, knowledge_error, knowledge_bundle) action" where
  "retrieve_knowledge load = sbind load (\<lambda>stored. sresult (bundle_of_catalog stored))"

subsection \<open>Catalogue files\<close>

record catalog_document =
  cd_doc_id :: string
  cd_kind :: knowledge_kind
  cd_title :: string
  cd_content :: "(string \<times> jval) list"
  cd_source_type :: string
  cd_source_path :: string
  cd_source_sha256 :: string
  cd_allowed_profiles :: "string list"

definition valid_catalog_document :: "catalog_document \<Rightarrow> bool" where
  "valid_catalog_document d \<longleftrightarrow>
     doc_id_ok (cd_doc_id d) \<and> len_ok 1 200 (cd_title d) \<and> len_ok 1 64 (cd_source_type d) \<and> len_ok 1 500 (cd_source_path d)
     \<and> hex64 (cd_source_sha256 d) \<and> cd_allowed_profiles d \<noteq> [] \<and> list_all (\<lambda>p. p = ''retail'') (cd_allowed_profiles d)"

text \<open>The value domains of \<open>CatalogValueDomain\<close> by their values.\<close>

definition catalog_domains :: "string list" where
  "catalog_domains = [''customer_state'', ''seller_state'', ''order_status'', ''payment_type'', ''product_category'',
     ''customer_city'', ''seller_city'', ''seller_id'', ''order_id'']"

record catalog_alias =
  ca_domain :: string
  ca_normalized_alias :: string
  ca_canonical_value :: string
  ca_display_label :: string
  ca_locale :: string
  ca_source_doc_id :: string

definition valid_catalog_alias :: "catalog_alias \<Rightarrow> bool" where
  "valid_catalog_alias a \<longleftrightarrow>
     ca_domain a \<in> set catalog_domains \<and> len_ok 1 256 (ca_normalized_alias a) \<and> len_ok 1 256 (ca_canonical_value a)
     \<and> len_ok 1 256 (ca_display_label a) \<and> ca_locale a \<in> {''en'', ''pt-BR'', ''zh-CN''} \<and> doc_id_ok (ca_source_doc_id a)"

record catalog_file =
  cf_schema_version :: int
  cf_revision_id :: string
  cf_data_manifest_sha256 :: string
  cf_documents :: "catalog_document list"
  cf_aliases :: "catalog_alias list"

text \<open>\<open>^retail-catalog-v[0-9]+$\<close>.\<close>

definition catalog_revision_ok :: "string \<Rightarrow> bool" where
  "catalog_revision_ok s \<longleftrightarrow> take 16 s = ''retail-catalog-v'' \<and> drop 16 s \<noteq> [] \<and> list_all is_digit (drop 16 s)"

definition valid_catalog_file :: "catalog_file \<Rightarrow> bool" where
  "valid_catalog_file c \<longleftrightarrow>
     cf_schema_version c = 1 \<and> catalog_revision_ok (cf_revision_id c) \<and> hex64 (cf_data_manifest_sha256 c)
     \<and> cf_documents c \<noteq> [] \<and> list_all valid_catalog_document (cf_documents c) \<and> list_all valid_catalog_alias (cf_aliases c)"

definition alias_key :: "catalog_alias \<Rightarrow> string \<times> string" where
  "alias_key a = (ca_domain a, ca_normalized_alias a)"

definition validate_invariants :: "catalog_file \<Rightarrow> knowledge_error + unit" where
  "validate_invariants c =
     (let doc_ids = map cd_doc_id (cf_documents c) in
      if \<not> distinct doc_ids then Inl (KnowledgeCatalogInvalid ''duplicate_doc_id'')
      else if \<not> distinct (map alias_key (cf_aliases c)) then Inl (KnowledgeCatalogInvalid ''duplicate_alias'')
      else if list_ex (\<lambda>a. ca_source_doc_id a \<notin> set doc_ids) (cf_aliases c) then Inl (KnowledgeCatalogInvalid ''alias_source_missing'')
      else check_gmv (map (\<lambda>d. (cd_doc_id d, cd_content d)) (cf_documents c)))"

record validated_catalog =
  vt_catalog :: catalog_file
  vt_source_path :: string

definition load_catalog_bytes :: "(bytes \<Rightarrow> catalog_file option) \<Rightarrow> bytes \<Rightarrow> string \<Rightarrow> knowledge_error + validated_catalog" where
  "load_catalog_bytes decode data source_path = (case decode data of
       None \<Rightarrow> Inl (KnowledgeCatalogInvalid ''catalog_shape'')
     | Some c \<Rightarrow>
         if \<not> valid_catalog_file c then Inl (KnowledgeCatalogInvalid ''catalog_shape'')
         else rbind (validate_invariants c) (\<lambda>_. Inr \<lparr>vt_catalog = c, vt_source_path = source_path\<rparr>))"

definition document_jval :: "catalog_document \<Rightarrow> jval" where
  "document_jval d = VObj [(''doc_id'', VStr (cd_doc_id d)), (''kind'', VStr (knowledge_kind_value (cd_kind d))),
     (''title'', VStr (cd_title d)), (''content'', VObj (cd_content d)), (''source_type'', VStr (cd_source_type d)),
     (''source_path'', VStr (cd_source_path d)), (''source_sha256'', VStr (cd_source_sha256 d)),
     (''allowed_profiles'', VList (map VStr (cd_allowed_profiles d)))]"

definition alias_jval :: "catalog_alias \<Rightarrow> jval" where
  "alias_jval a = VObj [(''domain'', VStr (ca_domain a)), (''normalized_alias'', VStr (ca_normalized_alias a)),
     (''canonical_value'', VStr (ca_canonical_value a)), (''display_label'', VStr (ca_display_label a)),
     (''locale'', VStr (ca_locale a)), (''source_doc_id'', VStr (ca_source_doc_id a))]"

definition catalog_jval :: "catalog_file \<Rightarrow> jval" where
  "catalog_jval c = VObj [(''schema_version'', VInt (cf_schema_version c)), (''revision_id'', VStr (cf_revision_id c)),
     (''data_manifest_sha256'', VStr (cf_data_manifest_sha256 c)), (''documents'', VList (map document_jval (cf_documents c))),
     (''aliases'', VList (map alias_jval (cf_aliases c)))]"

text \<open>Without \<open>allow_nan=False\<close>; the dump of a JsonValue has no float that is not finite, which pydantic writes as null.\<close>

definition canonical_catalog_bytes :: "catalog_file \<Rightarrow> bytes" where
  "canonical_catalog_bytes c = utf8 (compact (sort_keys (catalog_jval c)))"

definition catalog_content_sha256 :: "(bytes \<Rightarrow> string) \<Rightarrow> catalog_file \<Rightarrow> string" where
  "catalog_content_sha256 sha c = sha (canonical_catalog_bytes c)"

subsection \<open>What a bundle promises\<close>

lemma sort_key_empty: "sort_key f xs = [] \<longleftrightarrow> xs = []"
  by (metis length_0_conv length_sort)

lemma check_gmv_ok:
  "check_gmv docs = Inr () \<longleftrightarrow> (\<exists>content. filter (\<lambda>d. fst d = gmv_id) docs = [(gmv_id, content)] \<and> requires_clarification content)"
proof -
  have "fst (hd gmv) = gmv_id" if "filter (\<lambda>d. fst d = gmv_id) docs = gmv" "gmv \<noteq> []" for gmv
    using that by (cases gmv) (auto dest!: filter_eq_ConsD)
  then show ?thesis
    by (cases "filter (\<lambda>d. fst d = gmv_id) docs") (auto simp: check_gmv_def Let_def length_Suc_conv)
qed

text \<open>
  C16: retrieval fails closed. A returned bundle is the stored evidence of exactly the active revision, all of
  it, ordered by kind and identifier, and it defines metric.gmv once, as a metric that has to be clarified.
\<close>

theorem retrieval_fails_closed:
  assumes "retrieve_knowledge load w = (Inr b, w')"
  shows "\<exists>s. load w = (Inr (Some s), w') \<and> mset (kb_evidence b) = mset (sk_evidence s)
    \<and> sorted (map evidence_order (kb_evidence b)) \<and> (\<forall>e \<in> set (kb_evidence b). ke_revision e = kb_catalog_revision b)
    \<and> kb_catalog_sha256 b = sk_content_sha256 s
    \<and> length (filter (\<lambda>e. ke_doc_id e = gmv_id) (kb_evidence b)) = 1
    \<and> (\<forall>e \<in> set (kb_evidence b). ke_doc_id e = gmv_id \<longrightarrow> requires_clarification (ke_content e))"
proof -
  obtain s where s: "load w = (Inr (Some s), w')" and b: "bundle_of_catalog (Some s) = Inr b"
    using assms by (auto simp: retrieve_knowledge_def sbind_Inr_iff bundle_of_catalog_def split: option.splits)
  have rev: "\<forall>e \<in> set (sk_evidence s). ke_revision e = sk_revision s"
    and gmv: "check_gmv (map (\<lambda>e. (ke_doc_id e, ke_content e)) (sk_evidence s)) = Inr ()"
    and e: "b = \<lparr>kb_catalog_revision = sk_revision s, kb_catalog_sha256 = sk_content_sha256 s,
                    kb_evidence = sort_key evidence_order (sk_evidence s)\<rparr>"
    using b by (auto simp: bundle_of_catalog_def rbind_Inr_iff Let_def list_ex_iff split: if_splits)
  obtain content where g: "filter (\<lambda>d. fst d = gmv_id) (map (\<lambda>e. (ke_doc_id e, ke_content e)) (sk_evidence s)) = [(gmv_id, content)]"
    and c: "requires_clarification content" using gmv by (auto simp: check_gmv_ok)
  have "length (filter (\<lambda>e. ke_doc_id e = gmv_id) (sk_evidence s)) = 1"
    using arg_cong [OF g, of length] by (simp add: filter_map comp_def)
  then have one: "size (filter_mset (\<lambda>e. ke_doc_id e = gmv_id) (mset (sk_evidence s))) = 1"
    by (metis mset_filter size_mset)
  have "length (filter (\<lambda>e. ke_doc_id e = gmv_id) (kb_evidence b)) = 1"
    using one by (metis e knowledge_bundle.select_convs(3) mset_filter mset_sort size_mset)
  moreover have "requires_clarification (ke_content x)" if "x \<in> set (sk_evidence s)" "ke_doc_id x = gmv_id" for x
  proof -
    have "(gmv_id, ke_content x) \<in> set (filter (\<lambda>d. fst d = gmv_id) (map (\<lambda>e. (ke_doc_id e, ke_content e)) (sk_evidence s)))"
      using that by force
    then show ?thesis using g c by simp
  qed
  ultimately show ?thesis using s rev e by simp
qed

lemma check_gmv_mset:
  assumes "mset docs = mset docs'"
  shows "check_gmv docs = check_gmv docs'"
proof -
  let ?g = "filter (\<lambda>d. fst d = gmv_id)"
  have m: "mset (?g docs) = mset (?g docs')" using assms by (simp only: mset_filter)
  then have l: "length (?g docs) = length (?g docs')" by (rule mset_eq_length)
  show ?thesis
  proof (cases "length (?g docs) = 1")
    case True
    then obtain x where "?g docs = [x]" by (auto simp: length_Suc_conv)
    moreover from this have "?g docs' = [x]" using m by (metis mset_single_iff_right mset.simps(1) mset.simps(2))
    ultimately show ?thesis by (simp only: check_gmv_def)
  next
    case False
    then show ?thesis using l by (simp only: check_gmv_def Let_def flip: length_0_conv) simp
  qed
qed

text \<open>
  The answer does not depend on the order in which the store returns the rows, as long as no two
  documents of one kind share an identifier.
\<close>

theorem retrieval_order_independent:
  assumes "mset (sk_evidence s) = mset (sk_evidence t)" and "distinct (map evidence_order (sk_evidence s))"
    and "sk_revision s = sk_revision t" and "sk_content_sha256 s = sk_content_sha256 t"
  shows "bundle_of_catalog (Some s) = bundle_of_catalog (Some t)"
proof -
  have set: "set (sk_evidence s) = set (sk_evidence t)" using assms(1) by (rule mset_eq_setD)
  have sorted: "sort_key evidence_order (sk_evidence s) = sort_key evidence_order (sk_evidence t)"
  proof (rule sort_key_inj_key_eq)
    show "mset (sk_evidence s) = mset (sort_key evidence_order (sk_evidence t))" using assms(1) by (simp only: mset_sort)
    show "inj_on evidence_order (set (sk_evidence s))" using assms(2) by (simp only: distinct_map)
  qed simp
  let ?d = "\<lambda>e. (ke_doc_id e, ke_content e)"
  have gmv: "check_gmv (map ?d (sk_evidence s)) = check_gmv (map ?d (sk_evidence t))"
    by (rule check_gmv_mset) (simp only: mset_map assms(1))
  have "sk_evidence s = [] \<longleftrightarrow> sk_evidence t = []" using assms(1) by auto
  then show ?thesis using set sorted gmv assms(3,4) by (simp add: bundle_of_catalog_def list_ex_iff)
qed

text \<open>
  A catalogue that loads has unique document identifiers and alias keys, every alias cites a document of
  the catalogue, and the evidence of its documents passes the gate of retrieval: what the loader accepts the
  module never refuses for its metric.
\<close>

definition catalog_evidence :: "string \<Rightarrow> catalog_document \<Rightarrow> knowledge_evidence" where
  "catalog_evidence revision d = \<lparr>ke_doc_id = cd_doc_id d, ke_revision = revision, ke_kind = cd_kind d, ke_title = cd_title d,
     ke_content = cd_content d, ke_source_type = cd_source_type d, ke_source_path = cd_source_path d,
     ke_source_sha256 = cd_source_sha256 d\<rparr>"

theorem loaded_catalog_retrievable:
  assumes "load_catalog_bytes decode data path = Inr v" and "\<forall>b. hex64 (sha b)"
    and "len_ok 1 128 (cf_revision_id (vt_catalog v))"
  shows "distinct (map cd_doc_id (cf_documents (vt_catalog v))) \<and> distinct (map alias_key (cf_aliases (vt_catalog v)))
    \<and> (\<forall>a \<in> set (cf_aliases (vt_catalog v)). ca_source_doc_id a \<in> set (map cd_doc_id (cf_documents (vt_catalog v))))
    \<and> (\<exists>b. bundle_of_catalog (Some \<lparr>sk_revision = cf_revision_id (vt_catalog v),
           sk_content_sha256 = catalog_content_sha256 sha (vt_catalog v),
           sk_evidence = map (catalog_evidence (cf_revision_id (vt_catalog v))) (cf_documents (vt_catalog v))\<rparr>) = Inr b)"
proof -
  let ?c = "vt_catalog v"
  let ?r = "cf_revision_id ?c"
  have f: "valid_catalog_file ?c" and i: "validate_invariants ?c = Inr ()"
    using assms(1) by (auto simp: load_catalog_bytes_def rbind_Inr_iff split: option.splits if_splits)
  have d: "distinct (map cd_doc_id (cf_documents ?c))" "distinct (map alias_key (cf_aliases ?c))"
    "\<forall>a \<in> set (cf_aliases ?c). ca_source_doc_id a \<in> set (map cd_doc_id (cf_documents ?c))"
    and gmv: "check_gmv (map (\<lambda>d. (cd_doc_id d, cd_content d)) (cf_documents ?c)) = Inr ()"
    using i by (auto simp: validate_invariants_def Let_def list_ex_iff split: if_splits)
  have "(\<lambda>e. (ke_doc_id e, ke_content e)) \<circ> catalog_evidence ?r = (\<lambda>d. (cd_doc_id d, cd_content d))"
    and "ke_revision (catalog_evidence ?r d) = ?r" for d
    by (simp_all add: catalog_evidence_def fun_eq_iff)
  moreover have "valid_knowledge_evidence (catalog_evidence ?r d)" if "d \<in> set (cf_documents ?c)" for d
    using f that assms(3) by (auto simp: valid_catalog_file_def list_all_iff valid_catalog_document_def valid_knowledge_evidence_def catalog_evidence_def)
  ultimately have "\<exists>b. bundle_of_catalog (Some \<lparr>sk_revision = ?r, sk_content_sha256 = catalog_content_sha256 sha ?c,
      sk_evidence = map (catalog_evidence ?r) (cf_documents ?c)\<rparr>) = Inr b"
    using gmv f assms(2,3)
    by (simp add: bundle_of_catalog_def Let_def list_ex_iff valid_knowledge_bundle_def list_all_iff valid_catalog_file_def
        catalog_content_sha256_def sort_key_empty)
  then show ?thesis using d by blast
qed

subsection \<open>A concrete catalogue\<close>

definition sample_gmv_document :: catalog_document where
  "sample_gmv_document = \<lparr>cd_doc_id = gmv_id, cd_kind = MetricDoc, cd_title = ''GMV'',
     cd_content = [(''status'', VStr ''clarification_required'')], cd_source_type = ''spec'', cd_source_path = ''docs/spec.md'',
     cd_source_sha256 = replicate 64 CHR ''a'', cd_allowed_profiles = [''retail'']\<rparr>"

definition sample_table_document :: catalog_document where
  "sample_table_document = sample_gmv_document\<lparr>cd_doc_id := ''table.orders'', cd_kind := TableDoc, cd_content := []\<rparr>"

definition sample_catalog :: catalog_file where
  "sample_catalog = \<lparr>cf_schema_version = 1, cf_revision_id = ''retail-catalog-v1'', cf_data_manifest_sha256 = replicate 64 CHR ''b'',
     cf_documents = [sample_gmv_document, sample_table_document],
     cf_aliases = [\<lparr>ca_domain = ''order_status'', ca_normalized_alias = ''entregue'', ca_canonical_value = ''delivered'',
        ca_display_label = ''Entregue'', ca_locale = ''pt-BR'', ca_source_doc_id = ''table.orders''\<rparr>]\<rparr>"

definition sample_stored_catalog :: "catalog_document list \<Rightarrow> stored_knowledge_catalog" where
  "sample_stored_catalog docs = \<lparr>sk_revision = ''retail-catalog-v1'', sk_content_sha256 = replicate 64 CHR ''c'',
     sk_evidence = map (catalog_evidence ''retail-catalog-v1'') docs\<rparr>"

lemma sample_bundle: "is_ok (bundle_of_catalog (Some (sample_stored_catalog [sample_gmv_document, sample_table_document])))"
  by code_simp

theorem retrieval_fails_closed_witness:
  "\<exists>b. retrieve_knowledge (sreturn (Some (sample_stored_catalog [sample_gmv_document, sample_table_document]))) () = (Inr b, ())
     \<and> length (filter (\<lambda>e. ke_doc_id e = gmv_id) (kb_evidence b)) = 1"
proof -
  obtain b where "bundle_of_catalog (Some (sample_stored_catalog [sample_gmv_document, sample_table_document])) = Inr b"
    using sample_bundle by (auto simp: is_ok_iff)
  then have "retrieve_knowledge (sreturn (Some (sample_stored_catalog [sample_gmv_document, sample_table_document]))) () = (Inr b, ())"
    by (simp add: retrieve_knowledge_def)
  from retrieval_fails_closed [OF this] this show ?thesis by blast
qed

theorem retrieval_order_independent_witness:
  "bundle_of_catalog (Some (sample_stored_catalog [sample_gmv_document, sample_table_document]))
     = bundle_of_catalog (Some (sample_stored_catalog [sample_table_document, sample_gmv_document]))"
proof (rule retrieval_order_independent)
  show "distinct (map evidence_order (sk_evidence (sample_stored_catalog [sample_gmv_document, sample_table_document])))"
    by code_simp
qed (simp_all add: sample_stored_catalog_def)

theorem loaded_catalog_retrievable_witness:
  "\<exists>v. load_catalog_bytes (\<lambda>_. Some sample_catalog) [] ''p'' = Inr v \<and> distinct (map cd_doc_id (cf_documents (vt_catalog v)))"
proof -
  let ?v = "\<lparr>vt_catalog = sample_catalog, vt_source_path = ''p''\<rparr>"
  have "valid_catalog_file sample_catalog" "validate_invariants sample_catalog = Inr ()" by code_simp+
  then have l: "load_catalog_bytes (\<lambda>_. Some sample_catalog) [] ''p'' = Inr ?v" by (simp add: load_catalog_bytes_def)
  have "hex64 (replicate 64 CHR ''a'')" "len_ok 1 128 (cf_revision_id (vt_catalog ?v))" by code_simp+
  then show ?thesis using loaded_catalog_retrievable [OF l, of "\<lambda>_. replicate 64 CHR ''a''"] l by blast
qed

end
