(* ===== verification/Tool_Dispatch.thy ===== *)
theory Tool_Dispatch
  imports Retail_Runs Value_Resolver Knowledge Op_Workflow
begin

text \<open>
  \<open>orchestration/tools.py\<close>: the step-scoped dispatcher of the retail tools over the knowledge module, the
  value resolver, the query engine and the proposal workflow, and the synthetic tool port of the BirdA
  harness. An argument decoder is json.loads with pydantic's typed reading, before the constraints of the
  contract; \<open>model_dump(mode="json")\<close> is written out as a JSON value, with pydantic's texts of a datetime, a
  Decimal and a float as parameters.
\<close>

subsection \<open>Dumps\<close>

record tool_texts =
  tt_datetime :: "py_datetime \<Rightarrow> string"
  tt_instant :: "instant \<Rightarrow> string"
  tt_decimal :: "decimal \<Rightarrow> string"
  tt_float :: "decimal \<Rightarrow> string"

definition strings_jval :: "string list \<Rightarrow> jval" where
  "strings_jval xs = VList (map VStr xs)"

definition knowledge_evidence_jval :: "knowledge_evidence \<Rightarrow> jval" where
  "knowledge_evidence_jval e = VObj [(''doc_id'', VStr (ke_doc_id e)), (''revision'', VStr (ke_revision e)),
     (''kind'', VStr (knowledge_kind_value (ke_kind e))), (''title'', VStr (ke_title e)), (''content'', VObj (ke_content e)),
     (''source_type'', VStr (ke_source_type e)), (''source_path'', VStr (ke_source_path e)),
     (''source_sha256'', VStr (ke_source_sha256 e))]"

definition bundle_jval :: "knowledge_bundle \<Rightarrow> jval" where
  "bundle_jval b = VObj [(''catalog_revision'', VStr (kb_catalog_revision b)), (''catalog_sha256'', VStr (kb_catalog_sha256 b)),
     (''strategy'', VStr ''full_catalog''), (''evidence'', VList (map knowledge_evidence_jval (kb_evidence b)))]"

fun resolution_status_value :: "resolution_status \<Rightarrow> string" where
  "resolution_status_value Resolved = ''resolved''"
| "resolution_status_value Ambiguous = ''ambiguous''"
| "resolution_status_value NotFound = ''not_found''"
| "resolution_status_value TooBroad = ''too_broad''"

fun match_method_value :: "match_method \<Rightarrow> string" where
  "match_method_value ExactMatch = ''exact''"
| "match_method_value NormalizedExactMatch = ''normalized_exact''"
| "match_method_value AliasMatch = ''alias''"
| "match_method_value PrefixMatch = ''prefix''"
| "match_method_value TrigramMatch = ''trigram''"

fun match_confidence_value :: "match_confidence \<Rightarrow> string" where
  "match_confidence_value HighConfidence = ''high''"
| "match_confidence_value MediumConfidence = ''medium''"
| "match_confidence_value LowConfidence = ''low''"

definition candidate_jval :: "value_candidate \<Rightarrow> jval" where
  "candidate_jval c = VObj [(''canonical_value'', VStr (vc_canonical_value c)), (''display_label'', VStr (vc_display_label c)),
     (''match_method'', VStr (match_method_value (vc_match_method c))),
     (''confidence'', VStr (match_confidence_value (vc_confidence c))), (''support_count'', VInt (vc_support_count c)),
     (''evidence_ref'', VStr (vc_evidence_ref c))]"

definition resolution_jval :: "value_resolution_result \<Rightarrow> jval" where
  "resolution_jval r = VObj [(''status'', VStr (resolution_status_value (vx_status r))),
     (''domain'', VStr (value_domain_value (vx_domain r))), (''normalized_input'', VStr (vx_normalized_input r)),
     (''candidates'', VList (map candidate_jval (vx_candidates r))),
     (''data_manifest_sha256'', VStr (vx_data_manifest_sha256 r)), (''catalog_revision'', VStr (vx_catalog_revision r))]"

definition query_result_jval :: "tool_texts \<Rightarrow> query_result \<Rightarrow> jval" where
  "query_result_jval T r = VObj [(''columns'', strings_jval (qr_columns r)),
     (''rows'', VList (map (\<lambda>row. VObj (map (map_prod id (scalar_jval (tt_float T))) row)) (qr_rows r))),
     (''explain'', case qr_explain r of None \<Rightarrow> VNull
        | Some e \<Rightarrow> VObj [(''total_cost'', VFloat (tt_float T (ex_total_cost e))), (''plan_rows'', VInt (ex_plan_rows e))]),
     (''truncated'', VBool (qr_truncated r)), (''row_count'', VInt (int (row_count r)))]"

fun clarification_slot_value :: "clarification_slot \<Rightarrow> string" where
  "clarification_slot_value GmvMetricDefinition = ''gmv_metric_definition''"
| "clarification_slot_value ValidOrderStatuses = ''valid_order_statuses''"
| "clarification_slot_value TimeField = ''time_field''"
| "clarification_slot_value TimeRange = ''time_range''"
| "clarification_slot_value AnalysisGrain = ''analysis_grain''"
| "clarification_slot_value MinimumOrderCount = ''minimum_order_count''"
| "clarification_slot_value AnomalyThreshold = ''anomaly_threshold''"
| "clarification_slot_value BusinessValue = ''business_value''"

definition clarification_jval :: "clarification_request \<Rightarrow> jval" where
  "clarification_jval q = VObj [(''type'', VStr ''clarification_request''), (''conversation_id'', VStr (cl_conversation_id q)),
     (''request_id'', VStr (uuid_str (cl_request_id q))),
     (''items'', VList (map (\<lambda>i. VObj [(''slot'', VStr (clarification_slot_value (ci_slot i))), (''question'', VStr (ci_question i)),
        (''allowed_values'', strings_jval (ci_allowed_values i))]) (cl_items q)))]"

definition facts_jval :: "tool_texts \<Rightarrow> confirmed_investigation_facts \<Rightarrow> jval" where
  "facts_jval T f = VObj [(''gmv_metric_definition'', VStr (cf_gmv_metric_definition f)),
     (''valid_order_statuses'', strings_jval (cf_valid_order_statuses f)), (''time_field'', VStr (cf_time_field f)),
     (''time_range'', VObj [(''started_at'', VStr (tt_datetime T (ir_started_at (cf_time_range f)))),
        (''ended_at'', VStr (tt_datetime T (ir_ended_at (cf_time_range f))))]),
     (''analysis_grain'', VStr (cf_analysis_grain f)), (''minimum_order_count'', VInt (cf_minimum_order_count f)),
     (''anomaly_threshold'', VStr (tt_decimal T (cf_anomaly_threshold f))),
     (''business_value_refs'', strings_jval (cf_business_value_refs f))]"

definition step_jval :: "query_plan_step \<Rightarrow> jval" where
  "step_jval s = VObj [(''step_id'', VStr (qs_step_id s)),
     (''kind'', VStr (case qs_kind s of Baseline \<Rightarrow> ''baseline'' | Drilldown \<Rightarrow> ''drilldown'')),
     (''question'', VStr (qs_question s)), (''measures'', strings_jval (qs_measures s)), (''grains'', strings_jval (qs_grains s)),
     (''evidence_refs'', strings_jval (qs_evidence_refs s)),
     (''reconciliation_rule_refs'', strings_jval (qs_reconciliation_rule_refs s))]"

definition plan_jval :: "tool_texts \<Rightarrow> investigation_plan \<Rightarrow> jval" where
  "plan_jval T p = VObj [(''type'', VStr ''investigation_plan''), (''conversation_id'', VStr (ip_conversation_id p)),
     (''plan_id'', VStr (uuid_str (ip_plan_id p))), (''confirmed_facts'', facts_jval T (ip_confirmed_facts p)),
     (''steps'', VList (map step_jval (ip_steps p))), (''evidence_refs'', strings_jval (ip_evidence_refs p)),
     (''reconciliation_rule_refs'', strings_jval (ip_reconciliation_rule_refs p)),
     (''stop_conditions'', strings_jval (ip_stop_conditions p))]"

definition proposal_ref_jval :: "proposal_ref \<Rightarrow> jval" where
  "proposal_ref_jval p = VObj [(''proposal_id'', VStr (uuid_str (proposal_id p))), (''version'', VInt (pr_version p))]"

definition optional_jval :: "('a \<Rightarrow> jval) \<Rightarrow> 'a option \<Rightarrow> jval" where
  "optional_jval f x = (case x of None \<Rightarrow> VNull | Some y \<Rightarrow> f y)"

definition report_jval :: "investigation_report \<Rightarrow> jval" where
  "report_jval r = VObj [(''type'', VStr ''investigation_report''), (''conversation_id'', VStr (rp_conversation_id r)),
     (''report_id'', VStr (uuid_str (rp_report_id r))),
     (''claims'', VList (map (\<lambda>c. VObj [(''claim_id'', VStr (ic_claim_id c)), (''text'', VStr (ic_text c)),
        (''evidence_refs'', strings_jval (ic_evidence_refs c))]) (rp_claims r))),
     (''available_evidence'', VList (map (\<lambda>e. VObj [(''evidence_id'', VStr (iv_evidence_id e)), (''kind'', VStr (iv_kind e)),
        (''summary'', VStr (iv_summary e)), (''digest'', VStr (iv_digest e))]) (rp_available_evidence r))),
     (''limitations'', VList (map (\<lambda>l. VObj [(''code'', VStr (il_code l)), (''summary'', VStr (il_summary l))]) (rp_limitations r))),
     (''reconciliation_refs'', strings_jval (rp_reconciliation_refs r)),
     (''proposal_refs'', VList (map proposal_ref_jval (rp_proposal_refs r))),
     (''selected_risk_status'', optional_jval (VStr \<circ> risk_disposition_value) (rp_selected_risk_status r)),
     (''sensitivity_comparison'', optional_jval (\<lambda>s. VObj
        [(''all_sellers_evidence_ref'', VStr (sc_all_sellers_evidence_ref s)),
         (''selected_risk_evidence_ref'', VStr (sc_selected_risk_evidence_ref s)), (''summary'', VStr (sc_summary s))])
        (rp_sensitivity_comparison r))]"

fun proposal_status_value :: "proposal_status \<Rightarrow> string" where
  "proposal_status_value PENDING = ''pending''"
| "proposal_status_value APPROVED = ''approved''"
| "proposal_status_value REJECTED = ''rejected''"
| "proposal_status_value EXPIRED = ''expired''"
| "proposal_status_value SUPERSEDED = ''superseded''"

definition snapshot_jval :: "tool_texts \<Rightarrow> proposal_snapshot \<Rightarrow> jval" where
  "snapshot_jval T s = VObj [(''proposal_ref'', proposal_ref_jval (ps_proposal_ref s)),
     (''status'', VStr (proposal_status_value (ps_status s))), (''requester_id'', VStr (uuid_str (ps_requester_id s))),
     (''command_type'', VStr (ps_command_type s)), (''payload_sha256'', VStr (ps_payload_sha256 s)),
     (''preview'', VObj [(''command_type'', VStr (cp_command_type (ps_preview s))), (''title'', VStr (cp_title (ps_preview s))),
        (''public_summary'', VStr (cp_public_summary (ps_preview s))),
        (''target_versions'', VObj (map (map_prod id VInt) (cp_target_versions (ps_preview s)))),
        (''affected_rows'', VInt (cp_affected_rows (ps_preview s)))]),
     (''created_at'', VStr (tt_instant T (ps_created_at s))), (''expires_at'', VStr (tt_instant T (ps_expires_at s)))]"

subsection \<open>Arguments\<close>

datatype 'a parsed = NotJson | IllTyped | Parsed 'a

definition parse_arguments :: "('a \<Rightarrow> bool) \<Rightarrow> 'a parsed \<Rightarrow> run_error + 'a" where
  "parse_arguments valid p = (case p of
       NotJson \<Rightarrow> Inl (ToolContractError ''malformed_arguments_json'')
     | IllTyped \<Rightarrow> Inl (ToolContractError ''invalid_tool_arguments'')
     | Parsed x \<Rightarrow> if valid x then Inr x else Inl (ToolContractError ''invalid_tool_arguments''))"

definition valid_sql_arguments :: "string \<Rightarrow> bool" where
  "valid_sql_arguments sql \<longleftrightarrow> len_ok 1 100000 sql"

record submitted_candidate =
  sm_type :: string
  sm_evidence_refs :: "string list"
  sm_sql :: string
  sm_step_id :: string

definition valid_submitted_candidate :: "submitted_candidate \<Rightarrow> bool" where
  "valid_submitted_candidate s \<longleftrightarrow>
     sm_type s = ''submit_sql_candidate'' \<and> len_ok 1 32 (sm_evidence_refs s) \<and> len_ok 1 100000 (sm_sql s) \<and> step_id_ok (sm_step_id s)"

record propose_arguments =
  pa_command :: operation_command
  pa_evidence_refs :: "evidence_ref list"
  pa_idempotency_key :: string
  pa_revises :: "proposal_ref option"

definition valid_propose_arguments :: "propose_arguments \<Rightarrow> bool" where
  "valid_propose_arguments a \<longleftrightarrow>
     valid_command (pa_command a) \<and> len_ok 1 32 (pa_evidence_refs a) \<and> list_all valid_evidence_ref (pa_evidence_refs a)
     \<and> len_ok 8 128 (pa_idempotency_key a) \<and> opt_all valid_proposal_ref (pa_revises a)"

record tool_decoders =
  jd_knowledge :: "string \<Rightarrow> string parsed"
  jd_resolve :: "string \<Rightarrow> value_resolution_request parsed"
  jd_sql :: "string \<Rightarrow> string parsed"
  jd_submitted :: "string \<Rightarrow> submitted_candidate parsed"
  jd_propose :: "string \<Rightarrow> propose_arguments parsed"
  jd_clarification :: "string \<Rightarrow> clarification_request parsed"
  jd_plan :: "string \<Rightarrow> investigation_plan parsed"
  jd_report :: "string \<Rightarrow> investigation_report parsed"

subsection \<open>Results\<close>

text \<open>\<open>_result\<close> and \<open>_error_result\<close>: canonical content within 64 KB, its digest also in the summary.\<close>

definition max_result_bytes :: nat where "max_result_bytes = 65536"

definition tool_success ::
    "gateway_externals \<Rightarrow> tool_call \<Rightarrow> jval \<Rightarrow> (string \<times> jval) list \<Rightarrow> string list \<Rightarrow> run_error + tool_result" where
  "tool_success X call content summary source_refs =
     rbind (canonical_json_of content) (\<lambda>content_json.
     if max_result_bytes < length (utf8 content_json) then Inl (ToolContractError ''tool_result_too_large'')
     else
      (let digest = gx_sha X (utf8 content_json) in
       rbind (canonical_json_of (VObj (summary @ [(''content_sha256'', VStr digest)]))) (\<lambda>summary_json.
       validated (valid_tool_result (canonb X)) (Some
         \<lparr>tl_call_id = tc_call_id call, tl_name = tc_name call, tl_status = ToolSuccess, tl_content_json = content_json,
          tl_deterministic_summary = summary_json, tl_content_sha256 = digest, tl_source_refs = source_refs,
          tl_error_class = None, tl_content_mode = RawContent\<rparr>))))"

definition tool_failure :: "gateway_externals \<Rightarrow> tool_call \<Rightarrow> string \<Rightarrow> string \<Rightarrow> run_error + tool_result" where
  "tool_failure X call error_name code =
     (let content = [(''reason_code'', VStr code), (''status'', VStr ''error'')] in
      rbind (canonical_json_of (VObj content)) (\<lambda>content_json.
      let digest = gx_sha X (utf8 content_json) in
      rbind (canonical_json_of (VObj (content @ [(''content_sha256'', VStr digest)]))) (\<lambda>summary_json.
      validated (valid_tool_result (canonb X)) (Some
        \<lparr>tl_call_id = tc_call_id call, tl_name = tc_name call, tl_status = ToolError, tl_content_json = content_json,
         tl_deterministic_summary = summary_json, tl_content_sha256 = digest, tl_source_refs = [],
         tl_error_class = Some error_name, tl_content_mode = RawContent\<rparr>))))"

text \<open>
  The \<open>except\<close> clauses around a tool: an infrastructure error is raised as \<open>ToolInfrastructureError\<close>, the
  module's own errors become an error result with their class name, anything else escapes.
\<close>

datatype failure_route = Reported string string | RaisedError run_error

fun knowledge_route :: "knowledge_error \<Rightarrow> failure_route" where
  "knowledge_route (KnowledgeInfrastructureError c) = RaisedError (ToolInfrastructureError c)"
| "knowledge_route (KnowledgeRevisionUnavailable c) = Reported ''KnowledgeRevisionUnavailable'' c"
| "knowledge_route (KnowledgeCatalogInvalid c) = Reported ''KnowledgeCatalogInvalid'' c"
| "knowledge_route InvalidKnowledge = RaisedError run_error.ValidationError"

fun resolver_route :: "resolver_error \<Rightarrow> failure_route" where
  "resolver_route (ValueResolutionInfrastructureError c) = RaisedError (ToolInfrastructureError c)"
| "resolver_route (ValueDomainUnavailable c) = Reported ''ValueDomainUnavailable'' c"
| "resolver_route (ValueResolutionDataError c) = Reported ''ValueResolutionDataError'' c"
| "resolver_route InvalidResolution = RaisedError run_error.ValidationError"

fun query_route :: "query_error \<Rightarrow> failure_route" where
  "query_route (QueryInfrastructureError c) = RaisedError (ToolInfrastructureError c)"
| "query_route (SqlPolicyViolation c) = Reported ''SqlPolicyViolation'' c"
| "query_route (SqlPlanRejected c) = Reported ''SqlPlanRejected'' c"
| "query_route (SqlExecutionError c) = Reported ''SqlExecutionError'' c"
| "query_route (SqlResultLimitExceeded c) = Reported ''SqlResultLimitExceeded'' c"
| "query_route (ReconciliationContractError c) = Reported ''ReconciliationContractError'' c"
| "query_route (EscapedError e) = RaisedError (OtherFailure e)"

text \<open>The proposal tool has no \<open>except\<close> clause: the workflow's errors escape.\<close>

definition workflow_route :: "op_error \<Rightarrow> failure_route" where
  "workflow_route e = RaisedError (case e of
       OpError _ code _ \<Rightarrow> OtherFailure code
     | op_error.ValidationError \<Rightarrow> run_error.ValidationError
     | _ \<Rightarrow> OtherFailure ''OperationFailure'')"

definition answered ::
    "gateway_externals \<Rightarrow> tool_call \<Rightarrow> ('e \<Rightarrow> failure_route) \<Rightarrow> ('w, 'e, 'a) action \<Rightarrow> ('a \<Rightarrow> run_error + tool_result)
       \<Rightarrow> ('w, run_error, tool_result) action" where
  "answered X call route m k w = (case m w of
       (Inr x, w') \<Rightarrow> (k x, w')
     | (Inl e, w') \<Rightarrow> (case route e of Reported n c \<Rightarrow> (tool_failure X call n c, w') | RaisedError r \<Rightarrow> (Inl r, w')))"

subsection \<open>The dispatcher\<close>

record 'w dispatcher =
  ds_externals :: gateway_externals
  ds_texts :: tool_texts
  ds_unicode :: unicode_data
  ds_decoders :: tool_decoders
  ds_knowledge :: "('w, knowledge_error, stored_knowledge_catalog option) action option"
  ds_resolver :: "'w value_store option"
  ds_query :: "(string \<Rightarrow> ('w, query_error, query_result) action) option"
  ds_actor :: "actor_context option"
  ds_workflow :: "(propose_request \<Rightarrow> ('w, op_error, proposal_snapshot) action) option"

definition step_tools :: "prompt_step \<Rightarrow> string list option" where
  "step_tools step = (case step of
       RetailDecide \<Rightarrow> Some [''retrieve_retail_knowledge'', ''resolve_business_value'', ''request_clarification'',
                          ''submit_investigation_plan'']
     | RetailClarify \<Rightarrow> Some [''request_clarification'']
     | RetailSqlGenerate \<Rightarrow> Some [''submit_sql_candidate'']
     | RetailSqlRepair \<Rightarrow> Some [''submit_sql_candidate'']
     | RetailReport \<Rightarrow> Some [''propose_operation'', ''submit_investigation_report'']
     | _ \<Rightarrow> None)"

definition sensitive_result_columns :: "string list" where
  "sensitive_result_columns = [''order_id'', ''customer_id'', ''customer_unique_id'', ''seller_id'', ''review_id'',
     ''review_comment_title'', ''review_comment_message'']"

definition sensitive_result_suffixes :: "string list" where
  "sensitive_result_suffixes = [''_order_id'', ''_customer_id'', ''_seller_id'']"

definition sensitive_column :: "string \<Rightarrow> bool" where
  "sensitive_column c \<longleftrightarrow> c \<in> set sensitive_result_columns \<or> list_ex (\<lambda>s. ends_with s c) sensitive_result_suffixes"

definition validate_query_result :: "unicode_data \<Rightarrow> query_result \<Rightarrow> run_error + unit" where
  "validate_query_result U r =
     (let normalized = map (un_casefold U) (qr_columns r) in
      if \<not> distinct normalized then Inl (ToolContractError ''invalid_query_result_shape'')
      else if list_ex sensitive_column normalized then Inl (ToolContractError ''sensitive_result_column'')
      else if list_ex (\<lambda>row. set (map fst row) \<noteq> set (qr_columns r)) (qr_rows r)
      then Inl (ToolContractError ''invalid_query_result_shape'')
      else Inr ())"

definition retrieve_tool :: "'w dispatcher \<Rightarrow> tool_call \<Rightarrow> ('w, run_error, tool_result) action" where
  "retrieve_tool D call = (case ds_knowledge D of
       None \<Rightarrow> sraise (ToolInfrastructureError ''knowledge_unavailable'')
     | Some load \<Rightarrow>
         sbind (sresult (parse_arguments (len_ok 1 4000) (jd_knowledge (ds_decoders D) (tc_arguments_json call)))) (\<lambda>_.
         answered (ds_externals D) call knowledge_route (retrieve_knowledge load) (\<lambda>b.
           tool_success (ds_externals D) call (bundle_jval b)
             [(''catalog_revision'', VStr (kb_catalog_revision b)), (''evidence_count'', VInt (int (length (kb_evidence b)))),
              (''strategy'', VStr ''full_catalog'')]
             (map (\<lambda>e. ''knowledge:'' @ ke_doc_id e @ '':'' @ ke_revision e) (kb_evidence b)))))"

text \<open>\<open>ValueResolutionRequest\<close> is built inside the \<open>try\<close>, and its ValidationError is none of the resolver's errors.\<close>

definition resolve_tool :: "'w dispatcher \<Rightarrow> tool_call \<Rightarrow> ('w, run_error, tool_result) action" where
  "resolve_tool D call = (case ds_resolver D of
       None \<Rightarrow> sraise (ToolInfrastructureError ''resolver_unavailable'')
     | Some V \<Rightarrow>
         sbind (sresult (parse_arguments (\<lambda>a. len_ok 1 256 (vr_raw_text a)) (jd_resolve (ds_decoders D) (tc_arguments_json call)))) (\<lambda>q.
         sbind (sresult (validated (valid_value_resolution_request (ds_unicode D)) (Some q))) (\<lambda>q.
         answered (ds_externals D) call resolver_route (resolve_value (ds_unicode D) (gx_sha (ds_externals D)) V q) (\<lambda>r.
           tool_success (ds_externals D) call (resolution_jval r)
             [(''candidate_count'', VInt (int (length (vx_candidates r)))), (''catalog_revision'', VStr (vx_catalog_revision r)),
              (''domain'', VStr (value_domain_value (vx_domain r))), (''status'', VStr (resolution_status_value (vx_status r)))]
             (map vc_evidence_ref (vx_candidates r))))))"

definition query_tool :: "'w dispatcher \<Rightarrow> tool_call \<Rightarrow> ('w, run_error, tool_result) action" where
  "query_tool D call = (case ds_query D of
       None \<Rightarrow> sraise (ToolInfrastructureError ''query_engine_unavailable'')
     | Some run_query \<Rightarrow>
         sbind (sresult (parse_arguments valid_sql_arguments (jd_sql (ds_decoders D) (tc_arguments_json call)))) (\<lambda>sql.
         answered (ds_externals D) call query_route (run_query sql) (\<lambda>r.
           rbind (validate_query_result (ds_unicode D) r) (\<lambda>_.
           tool_success (ds_externals D) call (query_result_jval (ds_texts D) r)
             [(''columns'', strings_jval (qr_columns r)), (''row_count'', VInt (int (row_count r))),
              (''truncated'', VBool (qr_truncated r))]
             [''query:'' @ gx_sha (ds_externals D) (utf8 sql)]))))"

definition proposed_request :: "actor_context \<Rightarrow> propose_arguments \<Rightarrow> propose_request" where
  "proposed_request actor a = \<lparr>pq_actor = actor, pq_command = pa_command a, pq_evidence_refs = pa_evidence_refs a,
     pq_idempotency_key = pa_idempotency_key a, pq_revises = pa_revises a\<rparr>"

definition propose_tool :: "'w dispatcher \<Rightarrow> tool_call \<Rightarrow> ('w, run_error, tool_result) action" where
  "propose_tool D call = (case (ds_actor D, ds_workflow D) of
       (Some actor, Some submit) \<Rightarrow>
         sbind (sresult (parse_arguments valid_propose_arguments (jd_propose (ds_decoders D) (tc_arguments_json call)))) (\<lambda>a.
         sbind (sresult (validated valid_propose_request (Some (proposed_request actor a)))) (\<lambda>q.
         answered (ds_externals D) call workflow_route (submit q) (\<lambda>s.
           tool_success (ds_externals D) call (snapshot_jval (ds_texts D) s)
             [(''proposal_status'', VStr (proposal_status_value (ps_status s))), (''status'', VStr ''accepted'')]
             [''proposal:'' @ uuid_str (proposal_id (ps_proposal_ref s)) @ '':'' @ show_int (pr_version (ps_proposal_ref s))])))
     | _ \<Rightarrow> sraise (ToolInfrastructureError ''operation_workflow_unavailable''))"

text \<open>The four tools that only read back their own arguments.\<close>

definition submission_tool :: "'w dispatcher \<Rightarrow> tool_call \<Rightarrow> run_error + tool_result" where
  "submission_tool D call =
     (let X = ds_externals D; J = ds_decoders D; args = tc_arguments_json call in
      if tc_name call = ''request_clarification'' then
        rbind (parse_arguments valid_clarification_request (jd_clarification J args)) (\<lambda>a.
        tool_success X call (clarification_jval a)
          [(''item_count'', VInt (int (length (cl_items a)))), (''status'', VStr ''needs_input'')] [])
      else if tc_name call = ''submit_investigation_plan'' then
        rbind (parse_arguments valid_investigation_plan (jd_plan J args)) (\<lambda>a.
        tool_success X call (plan_jval (ds_texts D) a)
          [(''status'', VStr ''accepted''), (''step_count'', VInt (int (length (ip_steps a))))] (ip_evidence_refs a))
      else if tc_name call = ''submit_sql_candidate'' then
        rbind (parse_arguments valid_submitted_candidate (jd_submitted J args)) (\<lambda>a.
        tool_success X call (VObj [(''type'', VStr (sm_type a)), (''evidence_refs'', strings_jval (sm_evidence_refs a)),
            (''sql'', VStr (sm_sql a)), (''step_id'', VStr (sm_step_id a))])
          [(''status'', VStr ''accepted''), (''step_id'', VStr (sm_step_id a))] (sm_evidence_refs a))
      else if tc_name call = ''submit_investigation_report'' then
        rbind (parse_arguments valid_investigation_report (jd_report J args)) (\<lambda>a.
        tool_success X call (report_jval a)
          [(''claim_count'', VInt (int (length (rp_claims a)))), (''status'', VStr ''completed'')]
          (map iv_evidence_id (rp_available_evidence a)))
      else Inl (ToolContractError ''unknown_tool''))"

text \<open>A step without an entry in the table is a KeyError of the lookup.\<close>

definition dispatch_tool ::
    "'w dispatcher \<Rightarrow> run_scope \<Rightarrow> uuid \<Rightarrow> tool_call \<Rightarrow> prompt_step option \<Rightarrow> ('w, run_error, tool_result) action" where
  "dispatch_tool D scope attempt_id call step =
     (if (rs_track scope, rs_mode scope) \<noteq> (''retail'', ''retail'') then sraise (ToolContractError ''retail_scope_required'')
      else case (case step of None \<Rightarrow> Inr () | Some s \<Rightarrow>
             (case step_tools s of None \<Rightarrow> Inl (OtherFailure ''KeyError'')
              | Some names \<Rightarrow> require (tc_name call \<in> set names) (ToolContractError ''tool_not_allowed_for_step''))) of
        Inl e \<Rightarrow> sraise e
      | Inr _ \<Rightarrow>
          if tc_name call = ''retrieve_retail_knowledge'' then retrieve_tool D call
          else if tc_name call = ''resolve_business_value'' then resolve_tool D call
          else if tc_name call = ''execute_readonly_sql'' then query_tool D call
          else if tc_name call = ''propose_operation'' then propose_tool D call
          else sresult (submission_tool D call))"

subsection \<open>What a result promises\<close>

definition faithful_result :: "gateway_externals \<Rightarrow> tool_call \<Rightarrow> tool_result \<Rightarrow> bool" where
  "faithful_result X call r \<longleftrightarrow> valid_tool_result (canonb X) r \<and> tl_call_id r = tc_call_id call \<and> tl_name r = tc_name call
     \<and> tl_content_sha256 r = gx_sha X (utf8 (tl_content_json r))
     \<and> (tl_status r = ToolSuccess \<longrightarrow> length (utf8 (tl_content_json r)) \<le> max_result_bytes)
     \<and> (tl_status r = ToolError \<longrightarrow> tl_source_refs r = []
          \<and> (\<exists>c. canonical_text (VObj [(''reason_code'', VStr c), (''status'', VStr ''error'')]) = Some (tl_content_json r)))"

lemma validated_Inr: "validated P x = Inr y \<longleftrightarrow> x = Some y \<and> P y"
  by (auto simp: validated_def split: option.splits)

lemma tool_success_faithful:
  "tool_success X call content summary refs = Inr r \<Longrightarrow> faithful_result X call r \<and> tl_status r = ToolSuccess
     \<and> canonical_text content = Some (tl_content_json r) \<and> tl_source_refs r = refs"
  by (auto simp: tool_success_def rbind_Inr_iff validated_Inr faithful_result_def Let_def canonical_json_of_def
      split: if_splits option.splits)

lemma tool_failure_faithful:
  "tool_failure X call n c = Inr r \<Longrightarrow> faithful_result X call r \<and> tl_status r = ToolError"
  by (auto simp: tool_failure_def rbind_Inr_iff validated_Inr faithful_result_def Let_def canonical_json_of_def
      split: option.splits)

lemma answered_faithful:
  assumes "answered X call route m k w = (Inr r, w')" "\<And>x. k x = Inr r \<Longrightarrow> faithful_result X call r"
  shows "faithful_result X call r"
  using assms tool_failure_faithful by (auto simp: answered_def split: prod.splits sum.splits failure_route.splits)

lemma submission_faithful: "submission_tool D call = Inr r \<Longrightarrow> faithful_result (ds_externals D) call r"
  by (auto simp: submission_tool_def Let_def rbind_Inr_iff dest!: tool_success_faithful split: if_splits)

lemma tool_faithful:
  assumes "retrieve_tool D call w = (Inr r, w') \<or> resolve_tool D call w = (Inr r, w') \<or> query_tool D call w = (Inr r, w')
    \<or> propose_tool D call w = (Inr r, w')"
  shows "faithful_result (ds_externals D) call r"
  using assms
  by (auto simp: retrieve_tool_def resolve_tool_def query_tool_def propose_tool_def sbind_Inr_iff rbind_Inr_iff
      split: option.splits dest!: tool_success_faithful elim!: answered_faithful)

lemma dispatch_tool_cases:
  assumes "dispatch_tool D scope attempt_id call step w = (x, w')"
  obtains (refused) c where "x = Inl c" "w' = w" "c = OtherFailure ''KeyError'' \<or> (\<exists>s. c = ToolContractError s)"
  | (tool) "(rs_track scope, rs_mode scope) = (''retail'', ''retail'')"
      "\<forall>s. step = Some s \<longrightarrow> (\<exists>names. step_tools s = Some names \<and> tc_name call \<in> set names)"
      "retrieve_tool D call w = (x, w') \<or> resolve_tool D call w = (x, w') \<or> query_tool D call w = (x, w')
        \<or> propose_tool D call w = (x, w') \<or> (x = submission_tool D call \<and> w' = w)"
  using assms by (auto simp: dispatch_tool_def require_def split: if_splits option.splits)

text \<open>
  C12: whatever the tools and their back ends do, a result that the dispatcher returns is a valid tool result of
  exactly this call, with the digest of its content, and the call was in the retail track and mode and on the
  list of its step. The content of a success has at most 64 KB; the content of an error is the reason code and
  the status and nothing else, and cites no source.
\<close>

theorem dispatched_result_sound:
  assumes "dispatch_tool D scope attempt_id call step w = (Inr r, w')"
  shows "valid_tool_result (canonb (ds_externals D)) r \<and> tl_call_id r = tc_call_id call \<and> tl_name r = tc_name call
    \<and> tl_content_sha256 r = gx_sha (ds_externals D) (utf8 (tl_content_json r))
    \<and> (tl_status r = ToolSuccess \<longrightarrow> length (utf8 (tl_content_json r)) \<le> 65536)
    \<and> (tl_status r = ToolError \<longrightarrow> tl_source_refs r = []
         \<and> (\<exists>c. canonical_text (VObj [(''reason_code'', VStr c), (''status'', VStr ''error'')]) = Some (tl_content_json r)))
    \<and> rs_track scope = ''retail'' \<and> rs_mode scope = ''retail''
    \<and> (\<forall>s. step = Some s \<longrightarrow> (\<exists>names. step_tools s = Some names \<and> tc_name call \<in> set names))"
proof (cases rule: dispatch_tool_cases [OF assms])
  case 1
  then show ?thesis by simp
next
  case 2
  then have "faithful_result (ds_externals D) call r" using tool_faithful [of D call w r w'] submission_faithful [of D call r] by auto
  then show ?thesis using 2 by (simp add: faithful_result_def max_result_bytes_def)
qed

subsection \<open>Refusals\<close>

lemma tool_success_error:
  "tool_success X call content summary refs = Inl e \<Longrightarrow>
     e = OtherFailure ''ValueError'' \<or> e = ToolContractError ''tool_result_too_large'' \<or> e = run_error.ValidationError"
  by (auto simp: tool_success_def rbind_Inl_iff validated_def Let_def canonical_json_of_def split: if_splits option.splits)

lemma tool_failure_error:
  "tool_failure X call n c = Inl e \<Longrightarrow> e = OtherFailure ''ValueError'' \<or> e = run_error.ValidationError"
  by (auto simp: tool_failure_def rbind_Inl_iff validated_def Let_def canonical_json_of_def split: if_splits option.splits)
lemma route_not_contract:
  "knowledge_route e1 \<noteq> RaisedError (ToolContractError c)" "resolver_route e2 \<noteq> RaisedError (ToolContractError c)"
  "query_route e3 \<noteq> RaisedError (ToolContractError c)" "workflow_route e4 \<noteq> RaisedError (ToolContractError c)"
proof -
  show "knowledge_route e1 \<noteq> RaisedError (ToolContractError c)" by (cases e1) simp_all
  show "resolver_route e2 \<noteq> RaisedError (ToolContractError c)" by (cases e2) simp_all
  show "query_route e3 \<noteq> RaisedError (ToolContractError c)" by (cases e3) simp_all
  show "workflow_route e4 \<noteq> RaisedError (ToolContractError c)" by (cases e4) (simp_all add: workflow_route_def)
qed

definition late_refusal :: "string \<Rightarrow> bool" where
  "late_refusal c \<longleftrightarrow> c \<in> {''tool_result_too_large'', ''invalid_query_result_shape'', ''sensitive_result_column''}"

lemma answered_contract_error:
  assumes "answered X call route m k w = (Inl (ToolContractError c), w')" "\<And>e. route e \<noteq> RaisedError (ToolContractError c)"
    and "\<And>x. k x = Inl (ToolContractError c) \<Longrightarrow> late_refusal c"
  shows "late_refusal c"
  using assms by (auto simp: answered_def split: prod.splits sum.splits failure_route.splits dest!: tool_failure_error)

lemma success_contract_error: "tool_success X call content summary refs = Inl (ToolContractError c) \<Longrightarrow> late_refusal c"
  by (auto simp: late_refusal_def dest!: tool_success_error)

lemma query_check_error: "validate_query_result U r = Inl (ToolContractError c) \<Longrightarrow> late_refusal c"
  by (auto simp: validate_query_result_def Let_def late_refusal_def split: if_splits)

lemma tool_contract_error:
  assumes "retrieve_tool D call w = (Inl (ToolContractError c), w') \<or> resolve_tool D call w = (Inl (ToolContractError c), w')
    \<or> query_tool D call w = (Inl (ToolContractError c), w') \<or> propose_tool D call w = (Inl (ToolContractError c), w')"
  shows "w' = w \<or> late_refusal c"
proof -
  show ?thesis using assms
    by (auto simp: retrieve_tool_def resolve_tool_def query_tool_def propose_tool_def sbind_Inl_iff rbind_Inl_iff
        split: option.splits dest!: answered_contract_error [OF _ route_not_contract(1)] answered_contract_error [OF _ route_not_contract(2)]
          answered_contract_error [OF _ route_not_contract(3)] answered_contract_error [OF _ route_not_contract(4)]
        dest: success_contract_error query_check_error)
qed

text \<open>
  C14: a call that the dispatcher refuses for its scope, its step, its name or its arguments has reached no back
  end: the only contract errors after a tool has run are an oversized result and a query result with a
  sensitive or ambiguous column.
\<close>

theorem refused_calls_touch_nothing:
  assumes "dispatch_tool D scope attempt_id call step w = (Inl (ToolContractError c), w')"
    and "c \<notin> {''tool_result_too_large'', ''invalid_query_result_shape'', ''sensitive_result_column''}"
  shows "w' = w"
proof (cases rule: dispatch_tool_cases [OF assms(1)])
  case 2
  then show ?thesis using tool_contract_error [of D call w c w'] assms(2) by (auto simp: late_refusal_def)
qed simp

subsection \<open>Public query results\<close>

text \<open>
  C11: what a query tool call shows to the model. With the query engine behind it, a successful result is the
  canonical text of a result of a query that the SQL policy accepted, within the row, byte and plan limits;
  no column name is one of an order, customer, seller or review identity, nor ends like one, and no two
  columns differ only by case.
\<close>

theorem dispatched_query_public:
  assumes "ds_query D = Some (engine_execute G P Q)" and "tc_name call = ''execute_readonly_sql''"
    and "dispatch_tool D scope attempt_id call step w = (Inr r, w')" and "tl_status r = ToolSuccess"
  shows "\<exists>sql q res. jd_sql (ds_decoders D) (tc_arguments_json call) = Parsed sql \<and> validate_sql G sql = Inr q
    \<and> canonical_text (query_result_jval (ds_texts D) res) = Some (tl_content_json r) \<and> bounded_result Q res
    \<and> distinct (map (un_casefold (ds_unicode D)) (qr_columns res))
    \<and> (\<forall>c \<in> set (qr_columns res). \<not> sensitive_column (un_casefold (ds_unicode D) c))
    \<and> tl_source_refs r = [''query:'' @ gx_sha (ds_externals D) (utf8 sql)]"
proof -
  have "query_tool D call w = (Inr r, w')"
    using assms(2,3) by (auto simp: dispatch_tool_def split: if_splits sum.splits)
  then obtain sql where sql: "jd_sql (ds_decoders D) (tc_arguments_json call) = Parsed sql"
    and a: "answered (ds_externals D) call query_route (engine_execute G P Q sql) (\<lambda>r.
           rbind (validate_query_result (ds_unicode D) r) (\<lambda>_.
           tool_success (ds_externals D) call (query_result_jval (ds_texts D) r)
             [(''columns'', strings_jval (qr_columns r)), (''row_count'', VInt (int (row_count r))),
              (''truncated'', VBool (qr_truncated r))]
             [''query:'' @ gx_sha (ds_externals D) (utf8 sql)])) w = (Inr r, w')"
    using assms(1) by (auto simp: query_tool_def sbind_Inr_iff parse_arguments_def split: parsed.splits if_splits)
  obtain res where e: "engine_execute G P Q sql w = (Inr res, w')"
    and v: "validate_query_result (ds_unicode D) res = Inr ()"
    and t: "tool_success (ds_externals D) call (query_result_jval (ds_texts D) res)
             [(''columns'', strings_jval (qr_columns res)), (''row_count'', VInt (int (row_count res))),
              (''truncated'', VBool (qr_truncated res))]
             [''query:'' @ gx_sha (ds_externals D) (utf8 sql)] = Inr r"
    using a assms(4) by (auto simp: answered_def rbind_Inr_iff split: prod.splits sum.splits failure_route.splits dest!: tool_failure_faithful)
  have "distinct (map (un_casefold (ds_unicode D)) (qr_columns res))"
    "\<forall>c \<in> set (qr_columns res). \<not> sensitive_column (un_casefold (ds_unicode D) c)"
    using v by (auto simp: validate_query_result_def Let_def list_ex_iff split: if_splits)
  then show ?thesis using engine_execute_bounded [OF e] tool_success_faithful [OF t] sql by blast
qed

subsection \<open>Arguments that pass one contract and fail the next\<close>

text \<open>
  The arguments model of the resolver tool only bounds the length of the text, while the request it then
  builds also wants a visible character, and hexadecimal digits for an identifier. Such a text raises a bare
  ValidationError instead of refusing the tool call.
\<close>

theorem unresolvable_text_escapes:
  assumes "rs_track scope = ''retail''" and "rs_mode scope = ''retail''" and "tc_name call = ''resolve_business_value''"
    and "ds_resolver D = Some V" and "jd_resolve (ds_decoders D) (tc_arguments_json call) = Parsed q"
    and "len_ok 1 256 (vr_raw_text q)" and "\<not> valid_value_resolution_request (ds_unicode D) q"
  shows "dispatch_tool D scope attempt_id call (Some RetailDecide) w = (Inl run_error.ValidationError, w)"
  using assms by (simp add: dispatch_tool_def step_tools_def resolve_tool_def parse_arguments_def validated_def)

text \<open>
  The proposal tool on arguments that pass their model but not the request: nothing is called and nothing moves.
\<close>

definition malformed_proposal :: "'w dispatcher \<Rightarrow> tool_call \<Rightarrow> bool" where
  "malformed_proposal D call \<longleftrightarrow> tc_name call = ''propose_operation'' \<and> ds_workflow D \<noteq> None
     \<and> (\<exists>actor a. ds_actor D = Some actor \<and> jd_propose (ds_decoders D) (tc_arguments_json call) = Parsed a
          \<and> valid_propose_arguments a \<and> \<not> valid_propose_request (proposed_request actor a))"

lemma malformed_dispatch:
  assumes "malformed_proposal D call" "rs_track scope = ''retail''" "rs_mode scope = ''retail''"
  shows "dispatch_tool D scope i call (Some RetailReport) w = (Inl run_error.ValidationError, w)"
  using assms
  by (auto simp: malformed_proposal_def dispatch_tool_def step_tools_def propose_tool_def parse_arguments_def validated_def)

definition checkpointed :: "'w retail_deps \<Rightarrow> retail_run_request \<Rightarrow> retail_state \<Rightarrow> 'w day4 \<Rightarrow> 'w day4" where
  "checkpointed R q st d = d\<lparr>dw_checkpoints := (dw_checkpoints d)(checkpoint_key R q \<mapsto> st)\<rparr>"

lemma malformed_act:
  assumes "malformed_proposal D call" "rd_dispatch R = Some (dispatch_tool D)"
    and "rs_track (rq_run_scope q) = ''retail''" "rs_mode (rq_run_scope q) = ''retail''"
  shows "act_on_call R q call st d = (Inl run_error.ValidationError, checkpointed R q (proposing_state st call) d)"
proof -
  have "save_day4_state R q s d = (Inr (), checkpointed R q s d)" for s d by (simp add: save_day4_state_def checkpointed_def)
  then show ?thesis using assms malformed_dispatch [OF assms(1,3,4)]
    by (simp add: act_on_call_def malformed_proposal_def sbind_def on_world_def checkpointed_def)
qed

lemma checkpointed_idem [simp]:
  "checkpointed R q st (checkpointed R q st' d) = checkpointed R q st d"
  "dw_checkpoints (checkpointed R q st d) (checkpoint_key R q) = Some st"
  by (simp_all add: checkpointed_def)

lemma malformed_start:
  assumes "malformed_proposal D call" "rd_dispatch R = Some (dispatch_tool D)"
    and "rs_track (rq_run_scope q) = ''retail''" "rs_mode (rq_run_scope q) = ''retail''"
    and "rd_generate R = Some gen" "rd_query R = Some query"
    and "reporting R q st" "reported st" "gs_reconciliation st = Some c" "report_evidence R st c = Inr evidence"
  shows "run_day4 R q (checkpointed R q (proposing_state st call) d)
    = (Inl run_error.ValidationError, checkpointed R q (proposing_state st call) d)"
proof -
  let ?s = "proposing_state st call" and ?d = "checkpointed R q (proposing_state st call) d"
  have p: "proposing_state ?s call = ?s" by (simp add: proposing_state_def)
  have "reporting R q ?s" by (rule reporting_acted(1) [OF assms(7,8)])
  then have i: "identified q ?s" "gs_terminal ?s = None" "gs_stop ?s = None" "gs_plan ?s \<noteq> None" "gs_pending_steps ?s = []"
    by (simp_all add: reporting_def working_def held_def)
  have "report_turn R q evidence ?s ?d = act_on_call R q call ?s ?d" by (simp add: report_turn_def proposing_state_def)
  then have "report_turn R q evidence ?s ?d = (Inl run_error.ValidationError, ?d)"
    using malformed_act [OF assms(1-4), of ?s] p by simp
  then have "report_loop R q evidence ?s ?d = (Inl run_error.ValidationError, ?d)" by (subst report_loop.simps) simp
  moreover have "gs_reconciliation ?s = Some c" "report_evidence R ?s c = Inr evidence"
    using assms(9,10) by (simp_all add: proposing_state_def report_evidence_def)
  ultimately have "report_phase R q ?s ?d = (Inl run_error.ValidationError, ?d)"
    by (simp add: report_phase_def reconcile_day4_def)
  moreover have "plan_loop R q gen query ?s ?d = (Inr (Inr ?s), ?d)" using i(5) by (subst plan_loop.simps) simp
  moreover obtain plan where "gs_plan ?s = Some plan" using i(4) by auto
  ultimately have "work_day4 R q ?s ?d = (Inl run_error.ValidationError, ?d)"
    using assms(5,6) by (simp add: work_day4_def sbind_def)
  then show ?thesis using i by (simp add: run_day4_def resume_day4_def identified_def)
qed

text \<open>
  C13: the arguments model of the proposal tool accepts an idempotency key with any characters and repeated
  evidence, which the request then refuses with a bare ValidationError. The product flow has saved the call as
  pending before it dispatches it, so acting on the call raises the error with the call in the checkpoint, and every
  later start of the run raises it again and leaves the same checkpoint: the run can never end.
\<close>

theorem malformed_proposal_never_recovers:
  assumes "malformed_proposal D call" "rd_dispatch R = Some (dispatch_tool D)"
    and "rs_track (rq_run_scope q) = ''retail''" "rs_mode (rq_run_scope q) = ''retail''"
    and "rd_generate R = Some gen" "rd_query R = Some query"
    and "reporting R q st" "reported st" "gs_reconciliation st = Some c" "report_evidence R st c = Inr evidence"
    and "d' = d\<lparr>dw_checkpoints := (dw_checkpoints d)(checkpoint_key R q \<mapsto> proposing_state st call)\<rparr>"
  shows "act_on_call R q call st d = (Inl run_error.ValidationError, d')
    \<and> (\<forall>n. run_day4 R q (((\<lambda>x. snd (run_day4 R q x)) ^^ n) d') = (Inl run_error.ValidationError, d'))"
proof -
  have d: "d' = checkpointed R q (proposing_state st call) d" by (simp add: assms(11) checkpointed_def)
  have s: "run_day4 R q d' = (Inl run_error.ValidationError, d')" using malformed_start [OF assms(1-10)] d by simp
  have "((\<lambda>x. snd (run_day4 R q x)) ^^ n) d' = d'" for n by (induction n) (simp_all add: s)
  then show ?thesis using malformed_act [OF assms(1-4)] d s by simp
qed

subsection \<open>Sample calls\<close>

text \<open>Externals that read back exactly one text.\<close>

definition reads_only :: "jval \<Rightarrow> gateway_externals" where
  "reads_only v = sample_gateway_externals\<lparr>gx_value := (\<lambda>s. if canonical_text v = Some s then Some v else None)\<rparr>"

definition sample_texts_of :: tool_texts where
  "sample_texts_of = \<lparr>tt_datetime = (\<lambda>_. ''t''), tt_instant = (\<lambda>_. ''t''), tt_decimal = (\<lambda>_. ''0''), tt_float = (\<lambda>_. ''5.0'')\<rparr>"

definition sample_propose_arguments :: propose_arguments where
  "sample_propose_arguments = \<lparr>pa_command = sample_task, pa_evidence_refs = [sample_evidence],
     pa_idempotency_key = ''key with spaces'', pa_revises = None\<rparr>"

definition sample_tool_actor :: actor_context where
  "sample_tool_actor = \<lparr>actor_id = 1, role = ANALYST, authentication_ref = ''session'', authenticated_at = 0\<rparr>"

definition sample_decoders :: tool_decoders where
  "sample_decoders = \<lparr>jd_knowledge = (\<lambda>_. Parsed ''q''), jd_resolve = (\<lambda>_. Parsed \<lparr>vr_domain = OrderStatus, vr_raw_text = ''  ''\<rparr>),
     jd_sql = (\<lambda>_. Parsed ''q''), jd_submitted = (\<lambda>_. IllTyped), jd_propose = (\<lambda>_. Parsed sample_propose_arguments),
     jd_clarification = (\<lambda>_. NotJson), jd_plan = (\<lambda>_. NotJson), jd_report = (\<lambda>_. NotJson)\<rparr>"

definition sample_tool_call :: "string \<Rightarrow> tool_call" where
  "sample_tool_call name = \<lparr>tc_call_id = ''call'', tc_name = name, tc_arguments_json = ''{}''\<rparr>"

definition sample_query_dispatcher :: "nat dispatcher" where
  "sample_query_dispatcher = \<lparr>ds_externals = reads_only (query_result_jval sample_texts_of sample_query_result),
     ds_texts = sample_texts_of, ds_unicode = sample_unicode, ds_decoders = sample_decoders, ds_knowledge = None, ds_resolver = None,
     ds_query = Some (engine_execute sample_sqlglot sample_pg sample_query_externals), ds_actor = None, ds_workflow = None\<rparr>"

definition sample_dispatcher :: "unit dispatcher" where
  "sample_dispatcher = \<lparr>ds_externals = reads_only VNull,
     ds_texts = sample_texts_of, ds_unicode = sample_unicode, ds_decoders = sample_decoders, ds_knowledge = None,
     ds_resolver = Some sample_value_store, ds_query = None, ds_actor = Some sample_tool_actor,
     ds_workflow = Some (\<lambda>_. sraise op_error.ValueError)\<rparr>"

definition sample_tool_scope :: run_scope where
  "sample_tool_scope = rq_run_scope sample_retail_request"

lemma sample_tool_scope_retail: "rs_track sample_tool_scope = ''retail''" "rs_mode sample_tool_scope = ''retail''"
  by (simp_all add: sample_tool_scope_def sample_retail_request_def)

theorem refused_calls_touch_nothing_witness:
  "\<exists>w'. dispatch_tool sample_query_dispatcher sample_tool_scope 2 (sample_tool_call ''propose_operation'') (Some RetailDecide) 3
       = (Inl (ToolContractError ''tool_not_allowed_for_step''), w') \<and> w' = 3"
proof -
  have r: "dispatch_tool sample_query_dispatcher sample_tool_scope 2 (sample_tool_call ''propose_operation'') (Some RetailDecide) 3
      = (Inl (ToolContractError ''tool_not_allowed_for_step''), 3)"
    by (simp add: dispatch_tool_def sample_tool_scope_retail step_tools_def sample_tool_call_def require_def)
  then show ?thesis using refused_calls_touch_nothing [OF r] r by simp
qed

lemma length_utf8: "length s \<le> length (utf8 s)"
  by (induction s) (auto simp: utf8_def utf8_char_def Let_def)

lemma tool_success_sample:
  assumes "finite_floats v" "length (utf8 (compact (sort_keys v))) \<le> 400" "compact (sort_keys v) \<noteq> []"
    and "finite_floats (VObj (summary @ [(''content_sha256'', VStr (replicate 64 CHR ''a''))]))"
    and "length (compact (sort_keys (VObj (summary @ [(''content_sha256'', VStr (replicate 64 CHR ''a''))])))) \<le> 400"
    and "compact (sort_keys (VObj (summary @ [(''content_sha256'', VStr (replicate 64 CHR ''a''))]))) \<noteq> []"
    and "len_ok 1 128 (tc_call_id call)" "tool_name_ok (tc_name call)"
  shows "\<exists>r. tool_success (reads_only v) call v summary refs = Inr r"
proof -
  let ?t = "compact (sort_keys v)"
  have "length ?t \<le> 400" using assms(2) length_utf8 [of ?t] by linarith
  moreover have "hex64 (replicate 64 CHR ''a'')" by code_simp
  moreover have "1 \<le> length s" if "s \<noteq> []" for s :: string using that by (cases s) simp_all
  moreover have "canonb (reads_only v) ?t" using assms(1) by (simp add: canonb_def reads_only_def canonical_text_def)
  ultimately show ?thesis
    using assms
    by (simp add: tool_success_def canonical_json_of_def canonical_text_def max_result_bytes_def reads_only_def
        sample_gateway_externals_def Let_def validated_def valid_tool_result_def len_ok_def)
qed

lemma sample_tool_name: "tool_name_ok ''execute_readonly_sql''"
  by code_simp

lemma sample_content:
  "finite_floats (query_result_jval sample_texts_of sample_query_result)"
  "length (utf8 (compact (sort_keys (query_result_jval sample_texts_of sample_query_result)))) \<le> 400"
  "compact (sort_keys (query_result_jval sample_texts_of sample_query_result)) \<noteq> []"
  by code_simp+

lemma sample_tool_summary:
  "finite_floats (VObj ([(''columns'', strings_jval (qr_columns sample_query_result)),
     (''row_count'', VInt (int (row_count sample_query_result))), (''truncated'', VBool (qr_truncated sample_query_result))]
     @ [(''content_sha256'', VStr (replicate 64 CHR ''a''))]))"
  "length (compact (sort_keys (VObj ([(''columns'', strings_jval (qr_columns sample_query_result)),
     (''row_count'', VInt (int (row_count sample_query_result))), (''truncated'', VBool (qr_truncated sample_query_result))]
     @ [(''content_sha256'', VStr (replicate 64 CHR ''a''))])))) \<le> 400"
  "compact (sort_keys (VObj ([(''columns'', strings_jval (qr_columns sample_query_result)),
     (''row_count'', VInt (int (row_count sample_query_result))), (''truncated'', VBool (qr_truncated sample_query_result))]
     @ [(''content_sha256'', VStr (replicate 64 CHR ''a''))]))) \<noteq> []"
  by code_simp+

lemma sample_query_dispatched:
  "\<exists>r n. dispatch_tool sample_query_dispatcher sample_tool_scope 2 (sample_tool_call ''execute_readonly_sql'') None 0 = (Inr r, n)
     \<and> tl_status r = ToolSuccess"
proof -
  let ?c = "sample_tool_call ''execute_readonly_sql''" and ?X = "ds_externals sample_query_dispatcher"
  obtain n where n: "engine_execute sample_sqlglot sample_pg sample_query_externals ''q'' 0 = (Inr sample_query_result, n)"
    using sample_query_executed by blast
  have v: "validate_query_result sample_unicode sample_query_result = Inr ()" by code_simp
  have x: "?X = reads_only (query_result_jval sample_texts_of sample_query_result)" by (simp add: sample_query_dispatcher_def)
  have "\<exists>r. tool_success ?X ?c (query_result_jval sample_texts_of sample_query_result)
      [(''columns'', strings_jval (qr_columns sample_query_result)), (''row_count'', VInt (int (row_count sample_query_result))),
       (''truncated'', VBool (qr_truncated sample_query_result))] [''query:'' @ gx_sha ?X (utf8 ''q'')] = Inr r"
    unfolding x by (rule tool_success_sample [OF sample_content sample_tool_summary]) (simp_all add: sample_tool_call_def len_ok_def sample_tool_name)
  then obtain r where r: "tool_success ?X ?c (query_result_jval sample_texts_of sample_query_result)
      [(''columns'', strings_jval (qr_columns sample_query_result)), (''row_count'', VInt (int (row_count sample_query_result))),
       (''truncated'', VBool (qr_truncated sample_query_result))] [''query:'' @ gx_sha ?X (utf8 ''q'')] = Inr r"
    by blast
  have s: "ds_query sample_query_dispatcher = Some (engine_execute sample_sqlglot sample_pg sample_query_externals)"
    "ds_unicode sample_query_dispatcher = sample_unicode" "ds_texts sample_query_dispatcher = sample_texts_of"
    "jd_sql (ds_decoders sample_query_dispatcher) t = Parsed ''q''" for t
    by (simp_all add: sample_query_dispatcher_def sample_decoders_def)
  have "query_tool sample_query_dispatcher ?c 0 = (Inr r, n)"
    using r v n by (simp add: query_tool_def s parse_arguments_def valid_sql_arguments_def len_ok_def answered_def)
  then show ?thesis using tool_success_faithful [OF r] by (auto simp: dispatch_tool_def sample_tool_scope_retail sample_tool_call_def)
qed

theorem dispatched_result_sound_witness:
  "\<exists>r n. dispatch_tool sample_query_dispatcher sample_tool_scope 2 (sample_tool_call ''execute_readonly_sql'') None 0 = (Inr r, n)
     \<and> tl_name r = ''execute_readonly_sql'' \<and> length (utf8 (tl_content_json r)) \<le> 65536"
proof -
  obtain r n where r: "dispatch_tool sample_query_dispatcher sample_tool_scope 2 (sample_tool_call ''execute_readonly_sql'') None 0 = (Inr r, n)"
    and t: "tl_status r = ToolSuccess"
    using sample_query_dispatched by blast
  show ?thesis using dispatched_result_sound [OF r] r t by (auto simp: sample_tool_call_def)
qed

theorem dispatched_query_public_witness:
  "\<exists>r n. dispatch_tool sample_query_dispatcher sample_tool_scope 2 (sample_tool_call ''execute_readonly_sql'') None 0 = (Inr r, n)
     \<and> (\<exists>sql. tl_source_refs r = [''query:'' @ sql])"
proof -
  obtain r n where r: "dispatch_tool sample_query_dispatcher sample_tool_scope 2 (sample_tool_call ''execute_readonly_sql'') None 0 = (Inr r, n)"
    and t: "tl_status r = ToolSuccess"
    using sample_query_dispatched by blast
  have q: "ds_query sample_query_dispatcher = Some (engine_execute sample_sqlglot sample_pg sample_query_externals)"
    "tc_name (sample_tool_call ''execute_readonly_sql'') = ''execute_readonly_sql''"
    by (simp_all add: sample_query_dispatcher_def sample_tool_call_def)
  from dispatched_query_public [OF q r t] r show ?thesis by blast
qed

theorem unresolvable_text_escapes_witness:
  "dispatch_tool sample_dispatcher sample_tool_scope 2 (sample_tool_call ''resolve_business_value'') (Some RetailDecide) ()
     = (Inl run_error.ValidationError, ())"
proof -
  have "\<not> valid_value_resolution_request sample_unicode \<lparr>vr_domain = OrderStatus, vr_raw_text = ''  ''\<rparr>" by code_simp
  then show ?thesis
    by (intro unresolvable_text_escapes)
      (simp_all add: sample_tool_scope_retail sample_tool_call_def sample_dispatcher_def sample_decoders_def len_ok_def)
qed

definition sample_proposal_deps :: "unit retail_deps" where
  "sample_proposal_deps = sample_retail_deps\<lparr>rd_dispatch := Some (dispatch_tool sample_dispatcher),
     rd_generate := Some (\<lambda>_. sraise (OtherFailure ''offline'')), rd_query := Some (\<lambda>_. sraise (EscapedError ''offline''))\<rparr>"

text \<open>A run that has all its evidence and has reconciled it, at its report.\<close>

definition sample_reporting_state :: retail_state where
  "sample_reporting_state = sample_reported_state\<lparr>gs_current_node := PrepareReport, gs_terminal := None,
     gs_reconciliation := Some (assumed_reconciliation sample_hex)\<rparr>"

lemma sample_reporting: "reporting sample_proposal_deps sample_retail_request sample_reporting_state" "reported sample_reporting_state"
proof -
  have p: "map (query_evidence_id \<circ> qs_step_id) (ip_steps sample_plan) = [query_evidence_id ''base'', query_evidence_id ''drill'']"
    by (simp add: sample_plan_def sample_plan_step_def)
  show "reported sample_reporting_state"
    by (simp add: reported_def work_done_def sample_reporting_state_def sample_reported_state_def initial_state_def)
  have "identified sample_retail_request sample_reporting_state"
    by (simp add: identified_def sample_reporting_state_def sample_reported_state_def initial_state_def
        assert_checkpoint_compatible_def zero_hashes_def)
  then show "reporting sample_proposal_deps sample_retail_request sample_reporting_state"
    by (simp add: reporting_def working_def held_def calls_accounted_def plan_progress_def reported_def work_done_def p
        sample_reporting_state_def sample_reported_state_def initial_state_def sample_step_evidence_def
        sample_proposal_deps_def sample_retail_deps_def)
qed

lemma sample_report_evidence:
  "\<exists>evidence. report_evidence sample_proposal_deps sample_reporting_state (assumed_reconciliation sample_hex) = Inr evidence"
proof -
  let ?R = sample_proposal_deps
  have sha: "deps_sha ?R t = sample_hex" for t
    by (simp add: deps_sha_def sample_proposal_deps_def sample_retail_deps_def sample_builder_def sample_gateway_externals_def sample_hex_def)
  have datum: "\<exists>d. tool_datum (deps_sha ?R) source rev t = Inr d"
    if "len_ok 1 128 source" "len_ok 1 128 rev" "len_ok 1 1000 t" for source rev t
    using that by (simp add: tool_datum_def validated_def valid_context_datum_def len_ok_def sha sample_texts)
  have "case canonical_json_of (evidence_jval (scalar_jval (\<lambda>_. [])) (sample_step_evidence i)) of Inr t \<Rightarrow> len_ok 1 1000 t | _ \<Rightarrow> False"
    if "i = ''base'' \<or> i = ''drill''" for i
    using that by (elim disjE; simp only:; code_simp)
  note texts = this
  have scalar: "rd_scalar ?R = scalar_jval (\<lambda>_. [])" by (simp add: sample_proposal_deps_def sample_retail_deps_def)
  have shown: "\<exists>d. query_evidence_datum ?R (sample_step_evidence i) = Inr d" if i: "i = ''base'' \<or> i = ''drill''" for i
  proof -
    obtain t where "canonical_json_of (evidence_jval (scalar_jval (\<lambda>_. [])) (sample_step_evidence i)) = Inr t" "len_ok 1 1000 t"
      using texts [OF i] by (auto split: sum.splits)
    moreover have "len_ok 1 128 (ev_evidence_id (sample_step_evidence i))"
      using i by (auto simp: sample_step_evidence_def query_evidence_id_def len_ok_def)
    ultimately show ?thesis using datum [of _ "''query-evidence-v1''" t] by (simp add: query_evidence_datum_def scalar len_ok_def)
  qed
  have "len_ok 1 1000 (reconciliation_text (assumed_reconciliation sample_hex))" by code_simp
  then obtain d3 where
    "tool_datum (deps_sha ?R) ''reconciliation:plan'' ''reconciliation-v1'' (reconciliation_text (assumed_reconciliation sample_hex)) = Inr d3"
    using datum [of "''reconciliation:plan''" "''reconciliation-v1''" "reconciliation_text (assumed_reconciliation sample_hex)"]
    by (auto simp: len_ok_def)
  moreover obtain d1 where "query_evidence_datum ?R (sample_step_evidence ''base'') = Inr d1" using shown by blast
  moreover obtain d2 where "query_evidence_datum ?R (sample_step_evidence ''drill'') = Inr d2" using shown by blast
  ultimately show ?thesis
    by (simp add: report_evidence_def sample_reporting_state_def sample_reported_state_def)
qed

lemma sample_malformed: "malformed_proposal sample_dispatcher (sample_tool_call ''propose_operation'')"
proof -
  have "valid_propose_arguments sample_propose_arguments" by code_simp
  moreover have "\<not> valid_propose_request (proposed_request sample_tool_actor sample_propose_arguments)" by code_simp
  ultimately show ?thesis by (simp add: malformed_proposal_def sample_tool_call_def sample_dispatcher_def sample_decoders_def)
qed

theorem malformed_proposal_never_recovers_witness:
  "\<exists>d. fst (run_day4 sample_proposal_deps sample_retail_request d) = Inl run_error.ValidationError
     \<and> fst (run_day4 sample_proposal_deps sample_retail_request
         (snd (run_day4 sample_proposal_deps sample_retail_request d))) = Inl run_error.ValidationError"
proof -
  let ?R = sample_proposal_deps and ?q = sample_retail_request and ?c = "sample_tool_call ''propose_operation''"
  define d where "d = sample_day4\<lparr>dw_checkpoints := (dw_checkpoints sample_day4)
     (checkpoint_key ?R ?q \<mapsto> proposing_state sample_reporting_state ?c)\<rparr>"
  obtain evidence where e: "report_evidence ?R sample_reporting_state (assumed_reconciliation sample_hex) = Inr evidence"
    using sample_report_evidence by blast
  have s: "rd_dispatch ?R = Some (dispatch_tool sample_dispatcher)" "rs_track (rq_run_scope ?q) = ''retail''"
    "rs_mode (rq_run_scope ?q) = ''retail''" "rd_generate ?R = Some (\<lambda>_. sraise (OtherFailure ''offline''))"
    "rd_query ?R = Some (\<lambda>_. sraise (EscapedError ''offline''))"
    "gs_reconciliation sample_reporting_state = Some (assumed_reconciliation sample_hex)"
    by (simp_all add: sample_proposal_deps_def sample_retail_request_def sample_reporting_state_def)
  have "\<forall>n. run_day4 ?R ?q (((\<lambda>x. snd (run_day4 ?R ?q x)) ^^ n) d) = (Inl run_error.ValidationError, d)"
    using malformed_proposal_never_recovers [OF sample_malformed s(1-5) sample_reporting s(6) e d_def] by blast
  from this [THEN spec, of 0] show ?thesis by (intro exI [of _ d]) simp
qed

end
