(* ===== verification/Product_Scoring.thy ===== *)
theory Product_Scoring
  imports Spool Decimal "HOL-Library.Multiset"
begin

text \<open>
  \<open>product_eval/scoring.py\<close>: the deterministic comparison of an agent's result with the reference result, up
  to one consistent permutation of the columns, and the digest of reference rows. A cell is one of the Python
  types the two sides hold; \<open>str\<close> of a float and of a Decimal and \<open>Decimal(text)\<close> are the record
  \<open>cell_texts\<close>. quantize raises InvalidOperation, which neither function catches.
\<close>

subsection \<open>Cells\<close>

datatype cell = CNone | CBool bool | CInt int | CFloat decimal | CDecimal decimal | CText string

type_synonym score_row = "(string \<times> cell) list"

datatype score_error = InvalidOperationRaised | KeyErrorRaised | ValueErrorOfZip

record cell_texts =
  ct_float :: "decimal \<Rightarrow> string"
  ct_decimal :: "decimal \<Rightarrow> string"
  ct_parse :: "string \<Rightarrow> decimal option"

definition cell_str :: "cell_texts \<Rightarrow> cell \<Rightarrow> string" where
  "cell_str T v = (case v of
       CNone \<Rightarrow> ''None'' | CBool b \<Rightarrow> if b then ''True'' else ''False'' | CInt i \<Rightarrow> show_int i
     | CFloat d \<Rightarrow> ct_float T d | CDecimal d \<Rightarrow> ct_decimal T d | CText s \<Rightarrow> s)"

definition numeric :: "cell_texts \<Rightarrow> cell \<Rightarrow> decimal option" where
  "numeric T v = ct_parse T (cell_str T v)"

datatype cell_type = BoolCell | NumberCell | TextCell

definition cell_kind :: "cell \<Rightarrow> cell_type" where
  "cell_kind v = (case v of CBool _ \<Rightarrow> BoolCell | CInt _ \<Rightarrow> NumberCell | CFloat _ \<Rightarrow> NumberCell | CDecimal _ \<Rightarrow> NumberCell
     | _ \<Rightarrow> TextCell)"

definition column_kind :: "cell list list \<Rightarrow> nat \<Rightarrow> cell_type option" where
  "column_kind rows i =
     (case map cell_kind (filter (\<lambda>v. v \<noteq> CNone) (map (\<lambda>row. row ! i) rows)) of
        [] \<Rightarrow> Some TextCell
      | k # ks \<Rightarrow> if list_all (\<lambda>x. x = k) ks then Some k else None)"

definition reference_column_kinds :: "cell list list \<Rightarrow> nat \<Rightarrow> cell_type list option" where
  "reference_column_kinds rows width = those (map (column_kind rows) [0..<width])"

text \<open>\<open>format(number.quantize(_QUANT), "f")\<close>.\<close>

definition quantized_text :: "decimal \<Rightarrow> score_error + string" where
  "quantized_text d = (case quantize 6 d of None \<Rightarrow> Inl InvalidOperationRaised | Some q \<Rightarrow> Inr (fixed_str 6 q))"

text \<open>\<open>Inr None\<close> is the \<open>return None\<close> of the code: the row cannot be normalised.\<close>

definition normalize_cell :: "cell_texts \<Rightarrow> cell \<Rightarrow> cell_type \<Rightarrow> score_error + string option option" where
  "normalize_cell T v k =
     (if v = CNone then Inr (Some None)
      else case k of
        NumberCell \<Rightarrow> (case numeric T v of
            None \<Rightarrow> Inr None
          | Some d \<Rightarrow> rbind (quantized_text d) (\<lambda>t. Inr (Some (Some t))))
      | BoolCell \<Rightarrow> (case v of CBool _ \<Rightarrow> Inr (Some (Some (cell_str T v))) | _ \<Rightarrow> Inr None)
      | TextCell \<Rightarrow> Inr (Some (Some (cell_str T v))))"

fun normalize_cells :: "cell_texts \<Rightarrow> cell list \<Rightarrow> cell_type list \<Rightarrow> score_error + string option list option" where
  "normalize_cells T [] [] = Inr (Some [])"
| "normalize_cells T (v # vs) (k # ks) =
     rbind (normalize_cell T v k) (\<lambda>x. case x of
       None \<Rightarrow> Inr None
     | Some c \<Rightarrow> rbind (normalize_cells T vs ks) (\<lambda>r. Inr (map_option ((#) c) r)))"
| "normalize_cells T _ _ = Inl ValueErrorOfZip"

text \<open>The loop over rows, left at the first row that cannot be normalised.\<close>

fun normalize_rows :: "cell_texts \<Rightarrow> cell_type list \<Rightarrow> cell list list \<Rightarrow> score_error + string option list list option" where
  "normalize_rows T ks [] = Inr (Some [])"
| "normalize_rows T ks (row # rows) =
     rbind (normalize_cells T row ks) (\<lambda>x. case x of
       None \<Rightarrow> Inr None
     | Some n \<Rightarrow> rbind (normalize_rows T ks rows) (\<lambda>r. Inr (map_option ((#) n) r)))"

subsection \<open>Matching\<close>

text \<open>\<open>[[row[column] for column in columns] for row in rows]\<close>.\<close>

definition canonical_reference_rows :: "score_row list \<Rightarrow> string list \<Rightarrow> score_error + cell list list" where
  "canonical_reference_rows rows columns =
     (case those (map (\<lambda>row. those (map (map_of row) columns)) rows) of None \<Rightarrow> Inl KeyErrorRaised | Some r \<Rightarrow> Inr r)"

text \<open>\<open>itertools.permutations\<close>, in its order.\<close>

function perms :: "'a list \<Rightarrow> 'a list list" where
  "perms xs = (if xs = [] then [[]] else concat (map (\<lambda>x. map ((#) x) (perms (remove1 x xs))) xs))"
  by pat_completeness auto
termination by (relation "measure length") (auto simp: length_remove1 neq_Nil_conv)

declare perms.simps [simp del]

text \<open>\<open>json.dumps(row, ensure_ascii=False)\<close>.\<close>

definition cell_json :: "string option \<Rightarrow> string" where
  "cell_json c = (case c of None \<Rightarrow> ''null'' | Some s \<Rightarrow> quote s)"

definition row_json :: "string option list \<Rightarrow> string" where
  "row_json row = ''['' @ sep_by '', '' (map cell_json row) @ '']''"

definition rows_equal :: "bool \<Rightarrow> string option list list \<Rightarrow> string option list list \<Rightarrow> bool" where
  "rows_equal is_ordered reference actual \<longleftrightarrow>
     (if is_ordered then reference = actual else sort (map row_json reference) = sort (map row_json actual))"

definition permuted :: "nat list \<Rightarrow> cell list list \<Rightarrow> cell list list" where
  "permuted p rows = map (\<lambda>cells. map (\<lambda>i. cells ! i) p) rows"

fun try_permutations ::
    "cell_texts \<Rightarrow> cell_type list \<Rightarrow> bool \<Rightarrow> string option list list \<Rightarrow> cell list list \<Rightarrow> nat list list \<Rightarrow> score_error + bool" where
  "try_permutations T ks is_ordered reference agent [] = Inr False"
| "try_permutations T ks is_ordered reference agent (p # ps) =
     rbind (normalize_rows T ks (permuted p agent)) (\<lambda>x. case x of
       None \<Rightarrow> try_permutations T ks is_ordered reference agent ps
     | Some n \<Rightarrow> if rows_equal is_ordered reference n then Inr True else try_permutations T ks is_ordered reference agent ps)"

definition results_match :: "cell_texts \<Rightarrow> score_row list \<Rightarrow> score_row list \<Rightarrow> string list \<Rightarrow> bool \<Rightarrow> score_error + bool" where
  "results_match T agent_rows reference_rows columns is_ordered =
     (if reference_rows = [] then Inr (agent_rows = [])
      else if agent_rows = [] then Inr False
      else if length reference_rows \<noteq> length agent_rows then Inr False
      else rbind (canonical_reference_rows reference_rows columns) (\<lambda>reference.
        let agent = map (map snd) agent_rows; width = length columns in
        if list_ex (\<lambda>cells. length cells \<noteq> width) agent then Inr False
        else case reference_column_kinds reference width of
            None \<Rightarrow> Inr False
          | Some ks \<Rightarrow> rbind (normalize_rows T ks reference) (\<lambda>x. case x of
                None \<Rightarrow> Inr False
              | Some n \<Rightarrow> try_permutations T ks is_ordered n agent (perms [0..<width]))))"

subsection \<open>The digest\<close>

text \<open>A bool is an int here; \<open>if number\<close> is False for zero, which keeps its own text.\<close>

definition digest_cell :: "cell_texts \<Rightarrow> cell \<Rightarrow> score_error + string" where
  "digest_cell T v = (case v of
       CDecimal d \<Rightarrow> quantized_text d
     | CNone \<Rightarrow> Inr ''null''
     | CText s \<Rightarrow> Inr s
     | _ \<Rightarrow> (case numeric T v of
           None \<Rightarrow> Inr (cell_str T v)
         | Some d \<Rightarrow> if dec_eq d dec_zero then Inr (cell_str T v) else quantized_text d))"

primrec digest_cells :: "cell_texts \<Rightarrow> cell list \<Rightarrow> score_error + string list" where
  "digest_cells T [] = Inr []"
| "digest_cells T (v # vs) = rbind (digest_cell T v) (\<lambda>t. rbind (digest_cells T vs) (\<lambda>ts. Inr (t # ts)))"

primrec digest_rows :: "cell_texts \<Rightarrow> score_row list \<Rightarrow> score_error + string list list" where
  "digest_rows T [] = Inr []"
| "digest_rows T (row # rows) = rbind (digest_cells T (map snd row)) (\<lambda>r. rbind (digest_rows T rows) (\<lambda>rs. Inr (r # rs)))"

definition text_row_json :: "string \<Rightarrow> string list \<Rightarrow> string" where
  "text_row_json separator row = ''['' @ sep_by separator (map quote row) @ '']''"

definition result_digest :: "cell_texts \<Rightarrow> (bytes \<Rightarrow> string) \<Rightarrow> score_row list \<Rightarrow> score_error + string" where
  "result_digest T sha rows = rbind (digest_rows T rows) (\<lambda>normalized.
     Inr (sha (utf8 (''['' @ sep_by '','' (map (text_row_json '','') (sort_key (text_row_json '', '') normalized)) @ '']''))))"

subsection \<open>The comparison is exact\<close>

lemma quote_not_null [simp]: "quote s @ u \<noteq> CHR ''n'' # v" "CHR ''n'' # v \<noteq> quote s @ u"
  by (simp_all add: quote_def)

lemma cell_json_inject: "cell_json c @ r = cell_json d @ u \<Longrightarrow> c = d \<and> r = u"
  by (cases c; cases d) (auto simp: cell_json_def dest: quote_append_inject)

text \<open>What follows the first cell of a row.\<close>

fun row_rest :: "string option list \<Rightarrow> string" where
  "row_rest [] = '']''"
| "row_rest (c # cs) = '', '' @ cell_json c @ row_rest cs"

lemma sep_by_rest: "sep_by '', '' (map cell_json (c # cs)) @ '']'' = cell_json c @ row_rest cs"
  by (induction cs arbitrary: c) simp_all

lemma row_rest_inject: "row_rest xs = row_rest ys \<Longrightarrow> xs = ys"
proof (induction xs arbitrary: ys)
  case Nil
  then show ?case by (cases ys) simp_all
next
  case (Cons c cs)
  then obtain d ds where ys: "ys = d # ds" by (cases ys) auto
  then have "cell_json c @ row_rest cs = cell_json d @ row_rest ds" using Cons.prems by simp
  then show ?case using cell_json_inject Cons.IH ys by blast
qed

lemma cell_json_no_bracket: "cell_json c @ r \<noteq> CHR '']'' # s"
  by (cases c) (simp_all add: cell_json_def quote_def)

lemma row_json_inject: "row_json xs = row_json ys \<longleftrightarrow> xs = ys"
proof (cases xs; cases ys)
  fix c cs d ds assume x: "xs = c # cs" and y: "ys = d # ds"
  have "row_json (c # cs) = row_json (d # ds) \<longleftrightarrow> cell_json c @ row_rest cs = cell_json d @ row_rest ds"
    by (simp only: row_json_def sep_by_rest) simp
  then show ?thesis using x y by (auto dest: cell_json_inject row_rest_inject)
next
  fix c cs assume x: "xs = c # cs" and y: "ys = []"
  have "row_json xs = ''['' @ cell_json c @ row_rest cs" by (simp only: x row_json_def sep_by_rest)
  then show ?thesis using x y cell_json_no_bracket [of c "row_rest cs" "[]"] by (simp add: row_json_def)
next
  fix d ds assume x: "xs = []" and y: "ys = d # ds"
  have "row_json ys = ''['' @ cell_json d @ row_rest ds" by (simp only: y row_json_def sep_by_rest)
  then show ?thesis using x y cell_json_no_bracket [of d "row_rest ds" "[]"] by (simp add: row_json_def)
qed simp

lemma sort_dumps_iff: "sort (map row_json xs) = sort (map row_json ys) \<longleftrightarrow> mset xs = mset ys"
proof -
  have "inj row_json" by (simp add: inj_def row_json_inject)
  then have i: "inj (image_mset row_json)" by (rule multiset.inj_map)
  have "sort (map row_json xs) = sort (map row_json ys) \<longleftrightarrow> mset (map row_json xs) = mset (map row_json ys)"
  proof
    assume "sort (map row_json xs) = sort (map row_json ys)"
    from arg_cong [OF this, of mset] show "mset (map row_json xs) = mset (map row_json ys)" by (simp only: mset_sort)
  next
    assume m: "mset (map row_json xs) = mset (map row_json ys)"
    show "sort (map row_json xs) = sort (map row_json ys)"
      by (rule properties_for_sort) (simp_all only: mset_sort sorted_sort m)
  qed
  then show ?thesis using i by (simp only: mset_map inj_eq)
qed

lemma mset_perms: "set (perms xs) = {p. mset p = mset xs}"
proof (induction xs rule: perms.induct)
  case (1 xs)
  show ?case
  proof (cases "xs = []")
    case True
    then show ?thesis by (simp add: perms.simps)
  next
    case False
    have "p \<in> set (perms xs) \<longleftrightarrow> mset p = mset xs" for p
    proof (cases p)
      case Nil
      then show ?thesis using False by (subst perms.simps) auto
    next
      case (Cons y ys)
      have "p \<in> set (perms xs) \<longleftrightarrow> y \<in> set xs \<and> ys \<in> set (perms (remove1 y xs))"
        using False Cons by (subst perms.simps) auto
      also have "\<dots> \<longleftrightarrow> y \<in> set xs \<and> mset ys = mset (remove1 y xs)" using 1 [OF False] by auto
      also have "\<dots> \<longleftrightarrow> mset p = mset xs"
      proof
        assume a: "y \<in> set xs \<and> mset ys = mset (remove1 y xs)"
        then have "add_mset y (mset ys) = mset xs" by (simp only: mset_remove1 set_mset_mset insert_DiffM)
        then show "mset p = mset xs" by (simp add: Cons)
      next
        assume "mset p = mset xs"
        then have m: "mset xs = add_mset y (mset ys)" by (simp add: Cons)
        then have "y \<in># mset xs" by (simp only: union_single_eq_member)
        then have "y \<in> set xs" by (simp only: set_mset_mset)
        moreover have "mset (remove1 y xs) = mset ys" by (simp only: mset_remove1 m add_mset_remove_trivial)
        ultimately show "y \<in> set xs \<and> mset ys = mset (remove1 y xs)" by simp
      qed
      finally show ?thesis .
    qed
    then show ?thesis by blast
  qed
qed

text \<open>The specification: some rearrangement of the columns makes the normalised rows equal.\<close>

definition aligned :: "cell_texts \<Rightarrow> cell_type list \<Rightarrow> bool \<Rightarrow> string option list list \<Rightarrow> cell list list \<Rightarrow> nat list \<Rightarrow> bool" where
  "aligned T ks is_ordered reference agent p \<longleftrightarrow>
     (\<exists>n. normalize_rows T ks (permuted p agent) = Inr (Some n) \<and> (if is_ordered then n = reference else mset n = mset reference))"

lemma rows_equal_iff: "rows_equal is_ordered reference n \<longleftrightarrow> (if is_ordered then n = reference else mset n = mset reference)"
  by (auto simp: rows_equal_def sort_dumps_iff)

lemma try_permutations_iff:
  "try_permutations T ks is_ordered reference agent ps = Inr b \<Longrightarrow> b \<longleftrightarrow> (\<exists>p \<in> set ps. aligned T ks is_ordered reference agent p)"
proof (induction ps)
  case (Cons p ps)
  then obtain x where x: "normalize_rows T ks (permuted p agent) = Inr x" by (auto simp: rbind_Inr_iff)
  show ?case
  proof (cases x)
    case None
    then have "try_permutations T ks is_ordered reference agent ps = Inr b" "\<not> aligned T ks is_ordered reference agent p"
      using Cons.prems x by (simp_all add: aligned_def)
    then show ?thesis using Cons.IH by simp
  next
    case (Some n)
    then have "aligned T ks is_ordered reference agent p \<longleftrightarrow> rows_equal is_ordered reference n"
      using x by (simp add: aligned_def rows_equal_iff)
    then show ?thesis using Cons x Some by (auto split: if_splits)
  qed
qed simp

lemma results_match_verdict:
  assumes "results_match T agent reference columns is_ordered = Inr b" and "reference \<noteq> []" and "agent \<noteq> []"
  shows "b \<longleftrightarrow> length reference = length agent \<and> (\<forall>row \<in> set agent. length row = length columns)
    \<and> (\<exists>cells ks n p. canonical_reference_rows reference columns = Inr cells
         \<and> reference_column_kinds cells (length columns) = Some ks \<and> normalize_rows T ks cells = Inr (Some n)
         \<and> mset p = mset [0..<length columns] \<and> aligned T ks is_ordered n (map (map snd) agent) p)"
proof (cases "length reference = length agent")
  case False
  then show ?thesis using assms by (simp add: results_match_def)
next
  case True
  then obtain cells where c: "canonical_reference_rows reference columns = Inr cells"
    using assms by (auto simp: results_match_def rbind_Inr_iff)
  show ?thesis
  proof (cases "\<forall>row \<in> set agent. length row = length columns")
    case False
    then have "list_ex (\<lambda>cells. length cells \<noteq> length columns) (map (map snd) agent)" by (auto simp: list_ex_iff)
    then show ?thesis using assms c True False by (simp add: results_match_def)
  next
    case w: True
    then have l: "\<not> list_ex (\<lambda>cells. length cells \<noteq> length columns) (map (map snd) agent)" by (auto simp: list_ex_iff)
    show ?thesis
    proof (cases "reference_column_kinds cells (length columns)")
      case None
      then show ?thesis using assms c True l by (simp add: results_match_def)
    next
      case k: (Some ks)
      then obtain x where x: "normalize_rows T ks cells = Inr x"
        using assms c True l by (auto simp: results_match_def rbind_Inr_iff Let_def)
      show ?thesis
      proof (cases x)
        case None
        then show ?thesis using assms c True l k x by (simp add: results_match_def)
      next
        case (Some n)
        then have "try_permutations T ks is_ordered n (map (map snd) agent) (perms [0..<length columns]) = Inr b"
          using assms c True l k x by (simp add: results_match_def)
        from try_permutations_iff [OF this]
        have "b \<longleftrightarrow> (\<exists>p. mset p = mset [0..<length columns] \<and> aligned T ks is_ordered n (map (map snd) agent) p)"
          by (simp add: mset_perms)
        then show ?thesis using c k x Some True w by auto
      qed
    qed
  qed
qed

text \<open>
  C19: the comparison of results is exact. When it returns at all, it says yes just when both results have the
  same number of rows, the agent's rows have the width of the reference, the reference columns are of one type
  each, and one rearrangement of the agent's columns makes the normalised rows equal: one by one when the order
  counts, as a multiset otherwise. No dump, sort or early exit of the code changes that verdict.
\<close>

theorem results_match_exact:
  assumes "results_match T agent reference columns is_ordered = Inr b" and "reference \<noteq> []" and "agent \<noteq> []"
  shows "b \<longleftrightarrow> length reference = length agent \<and> (\<forall>row \<in> set agent. length row = length columns)
    \<and> (\<exists>cells ks n p. canonical_reference_rows reference columns = Inr cells
         \<and> reference_column_kinds cells (length columns) = Some ks \<and> normalize_rows T ks cells = Inr (Some n)
         \<and> mset p = mset [0..<length columns] \<and> aligned T ks is_ordered n (map (map snd) agent) p)"
  using results_match_verdict [OF assms] .

subsection \<open>Order of rows, and the reference itself\<close>

lemma normalize_rows_all2:
  "normalize_rows T ks rows = Inr (Some n) \<longleftrightarrow> list_all2 (\<lambda>row c. normalize_cells T row ks = Inr (Some c)) rows n"
proof (induction rows arbitrary: n)
  case Nil
  then show ?case by auto
next
  case (Cons row rows)
  show ?case
    by (cases n) (auto simp: rbind_Inr_iff Cons.IH split: option.splits)
qed

lemma aligned_reordered:
  assumes "mset agent = mset agent'" "aligned T ks False n agent p"
  shows "aligned T ks False n agent' p"
proof -
  obtain m where m: "normalize_rows T ks (permuted p agent) = Inr (Some m)" "mset m = mset n"
    using assms(2) by (auto simp: aligned_def)
  have "mset (permuted p agent') = mset (permuted p agent)" using assms(1) by (simp add: permuted_def)
  from list_all2_reorder_left_invariance [OF m(1) [unfolded normalize_rows_all2] this]
  obtain m' where "normalize_rows T ks (permuted p agent') = Inr (Some m')" "mset m' = mset m"
    by (auto simp: normalize_rows_all2)
  then show ?thesis using m(2) by (simp add: aligned_def)
qed

text \<open>Without an order the verdict does not depend on the order in which the database returned the agent's rows.\<close>

theorem row_order_irrelevant:
  assumes "results_match T agent reference columns False = Inr b" and "results_match T agent' reference columns False = Inr b'"
    and "mset agent = mset agent'"
  shows "b = b'"
proof (cases "reference = [] \<or> agent = []")
  case True
  then show ?thesis using assms by (auto simp: results_match_def split: if_splits)
next
  case False
  then have n: "reference \<noteq> []" "agent \<noteq> []" "agent' \<noteq> []" using assms(3) by auto
  have a: "aligned T ks False n (map (map snd) agent) p \<longleftrightarrow> aligned T ks False n (map (map snd) agent') p" for ks n p
    using aligned_reordered [of "map (map snd) agent" "map (map snd) agent'"]
      aligned_reordered [of "map (map snd) agent'" "map (map snd) agent"] assms(3) by (metis mset_map)
  have "length agent = length agent'" "set agent = set agent'"
    using assms(3) mset_eq_length mset_eq_setD by blast+
  then show ?thesis
    using results_match_verdict [OF assms(1) n(1,2)] results_match_verdict [OF assms(2) n(1,3)] a by simp
qed

lemma perms_head: "\<exists>ps. perms xs = xs # ps"
proof (induction xs)
  case Nil
  then show ?case by (simp add: perms.simps)
next
  case (Cons x xs)
  then obtain ps where "perms xs = xs # ps" by blast
  then show ?case by (subst perms.simps) simp
qed

lemma map_of_columns:
  fixes row :: score_row
  assumes "map fst row = columns" "distinct columns"
  shows "those (map (map_of row) columns) = Some (map snd row)"
proof -
  have "map (map_of row) columns = map Some (map snd row)"
    using assms by (auto simp: list_eq_iff_nth_eq) (metis assms length_map map_of_eq_Some_iff nth_map nth_mem prod.collapse)
  moreover have "those (map Some ys) = Some ys" for ys :: "cell list" by (induction ys) simp_all
  ultimately show ?thesis by (simp only:)
qed

text \<open>A reference whose columns are homogeneous and whose numbers fit always matches itself.\<close>

theorem reference_matches_itself:
  assumes "distinct columns" and "\<forall>row \<in> set rows. map fst row = columns"
    and "reference_column_kinds (map (map snd) rows) (length columns) = Some ks"
    and "normalize_rows T ks (map (map snd) rows) = Inr (Some n)"
  shows "results_match T rows rows columns is_ordered = Inr True"
proof (cases "rows = []")
  case False
  have "those (map (map_of row) columns) = Some (map snd row)" if "row \<in> set rows" for row
    using map_of_columns assms(1,2) that by blast
  then have "map (\<lambda>row. those (map (map_of row) columns)) rows = map Some (map (map snd) rows)" by simp
  moreover have "those (map Some ys) = Some ys" for ys :: "cell list list" by (induction ys) simp_all
  ultimately have "those (map (\<lambda>row. those (map (map_of row) columns)) rows) = Some (map (map snd) rows)" by (simp only:)
  then have c: "canonical_reference_rows rows columns = Inr (map (map snd) rows)"
    by (simp add: canonical_reference_rows_def)
  have w: "length row = length columns" if "row \<in> set rows" for row using assms(2) that by (metis length_map)
  then have l: "\<not> list_ex (\<lambda>cells. length cells \<noteq> length columns) (map (map snd) rows)" by (auto simp: list_ex_iff)
  have "map (\<lambda>i. map snd row ! i) [0..<length columns] = map snd row" if "row \<in> set rows" for row
    using map_nth [of "map snd row"] w [OF that] by simp
  then have p: "permuted [0..<length columns] (map (map snd) rows) = map (map snd) rows" by (simp add: permuted_def)
  obtain ps where "perms [0..<length columns] = [0..<length columns] # ps" using perms_head by blast
  then have "try_permutations T ks is_ordered n (map (map snd) rows) (perms [0..<length columns]) = Inr True"
    using assms(4) p by (simp add: rows_equal_def)
  then show ?thesis using False c l assms(3,4) by (simp add: results_match_def)
qed (simp add: results_match_def)

subsection \<open>Corner cases\<close>

definition sample_cell_texts :: cell_texts where
  "sample_cell_texts = \<lparr>ct_float = (\<lambda>_. ''-1e-07''), ct_decimal = (\<lambda>_. ''0''),
     ct_parse = (\<lambda>s. if s = ''-1e-07'' then Some (Dec True 1 (- 7)) else if s = ''0'' then Some dec_zero
        else if s = ''Infinity'' then Some (DInf False) else None)\<rparr>"

text \<open>
  A tiny negative number is not equal to zero although both are zero to six places: the minus sign stays. An
  infinity or a number of more than 22 integer digits in a numeric column raises out of the scoring instead of
  failing the match. In the digest a null and the text null are the same cell, and the integer zero is not
  quantised while the Decimal zero is.
\<close>

theorem scoring_corner_cases:
  "results_match sample_cell_texts [[(''x'', CFloat (Dec True 1 (- 7)))]] [[(''x'', CInt 0)]] [''x''] False = Inr False
    \<and> results_match sample_cell_texts [[(''x'', CText ''Infinity'')]] [[(''x'', CInt 0)]] [''x''] False = Inl InvalidOperationRaised
    \<and> result_digest sample_cell_texts sha [[(''x'', CNone)]] = result_digest sample_cell_texts sha [[(''x'', CText ''null'')]]
    \<and> digest_cell sample_cell_texts (CInt 0) = Inr ''0'' \<and> digest_cell sample_cell_texts (CDecimal dec_zero) = Inr ''0.000000''"
proof (intro conjI)
  show "results_match sample_cell_texts [[(''x'', CFloat (Dec True 1 (- 7)))]] [[(''x'', CInt 0)]] [''x''] False = Inr False" by code_simp
  show "results_match sample_cell_texts [[(''x'', CText ''Infinity'')]] [[(''x'', CInt 0)]] [''x''] False = Inl InvalidOperationRaised" by code_simp
  show "result_digest sample_cell_texts sha [[(''x'', CNone)]] = result_digest sample_cell_texts sha [[(''x'', CText ''null'')]]"
    by (simp add: result_digest_def digest_cell_def)
  show "digest_cell sample_cell_texts (CInt 0) = Inr ''0''" by code_simp
  show "digest_cell sample_cell_texts (CDecimal dec_zero) = Inr ''0.000000''" by code_simp
qed

definition sample_agent_rows :: "score_row list" where
  "sample_agent_rows = [[(''a'', CText ''u''), (''b'', CInt 0)], [(''a'', CText ''v''), (''b'', CInt 0)]]"

definition sample_reference_rows :: "score_row list" where
  "sample_reference_rows = [[(''n'', CInt 0), (''s'', CText ''v'')], [(''n'', CInt 0), (''s'', CText ''u'')]]"

lemma sample_swapped_match: "results_match sample_cell_texts sample_agent_rows sample_reference_rows [''n'', ''s''] False = Inr True"
  by code_simp

theorem results_match_exact_witness:
  "\<exists>ks n p. aligned sample_cell_texts ks False n (map (map snd) sample_agent_rows) p \<and> mset p = mset [0..<length [''n'', ''s'']]"
proof -
  have "sample_reference_rows \<noteq> []" "sample_agent_rows \<noteq> []" by (simp_all add: sample_reference_rows_def sample_agent_rows_def)
  from results_match_exact [OF sample_swapped_match this] show ?thesis by blast
qed

end
