(* ===== verification/Trace_Stream.thy ===== *)
theory Trace_Stream
  imports Model_Contracts Value_Resolver "HOL-Library.Sublist"
begin

text \<open>
  The product trace and its public stream: \<open>trace/contracts.py\<close>, \<open>trace/module.py\<close>, \<open>trace/_memory.py\<close>, the stored
  summary of \<open>trace/_postgres.py\<close>, \<open>api/events.py\<close> and \<open>api/sse.py\<close>. The rows of the trace view of one run are a
  list in any order; the query of the event source numbers them by (occurred_at, attempt_id, sequence). What a
  poll of the stream sees of the database, and its clock readings, are its inputs.
\<close>

subsection \<open>Contracts\<close>

datatype trace_event_type =
    ClarificationRequested | InvestigationPlanAccepted | SqlGenerated | SqlRepaired | QueryExecuted | QueryReconciled
  | ProposalCreated | DecisionRecorded | ExecutionCompleted | ReportCompleted | RecoveryApplied

fun trace_event_type_value :: "trace_event_type \<Rightarrow> string" where
  "trace_event_type_value ClarificationRequested = ''clarification_requested''"
| "trace_event_type_value InvestigationPlanAccepted = ''investigation_plan_accepted''"
| "trace_event_type_value SqlGenerated = ''sql_generated''"
| "trace_event_type_value SqlRepaired = ''sql_repaired''"
| "trace_event_type_value QueryExecuted = ''query_executed''"
| "trace_event_type_value QueryReconciled = ''query_reconciled''"
| "trace_event_type_value ProposalCreated = ''proposal_created''"
| "trace_event_type_value DecisionRecorded = ''decision_recorded''"
| "trace_event_type_value ExecutionCompleted = ''execution_completed''"
| "trace_event_type_value ReportCompleted = ''report_completed''"
| "trace_event_type_value RecoveryApplied = ''recovery_applied''"

datatype trace_status = TraceStarted | TraceSucceeded | TraceFailed | TraceStopped

fun trace_status_value :: "trace_status \<Rightarrow> string" where
  "trace_status_value TraceStarted = ''started''"
| "trace_status_value TraceSucceeded = ''succeeded''"
| "trace_status_value TraceFailed = ''failed''"
| "trace_status_value TraceStopped = ''stopped''"

record trace_decision_summary =
  tds_code :: string
  tds_text :: string

definition valid_trace_decision_summary :: "trace_decision_summary \<Rightarrow> bool" where
  "valid_trace_decision_summary s \<longleftrightarrow> reason_code_ok (tds_code s) \<and> len_ok 1 2000 (tds_text s)"

record trace_evidence =
  tve_kind :: string
  tve_ref :: string
  tve_digest :: string

definition valid_trace_evidence :: "trace_evidence \<Rightarrow> bool" where
  "valid_trace_evidence e \<longleftrightarrow> ident_ok is_lower ref_char 1 63 (tve_kind e) \<and> len_ok 1 256 (tve_ref e) \<and> hex64 (tve_digest e)"

definition optional_ok :: "('a \<Rightarrow> bool) \<Rightarrow> 'a option \<Rightarrow> bool" where
  "optional_ok P x = (case x of None \<Rightarrow> True | Some y \<Rightarrow> P y)"

record scoped_trace_event =
  ste_run_scope :: run_scope
  ste_attempt_id :: uuid
  ste_phase :: string
  ste_sequence :: int
  ste_occurred_at :: py_datetime
  ste_node :: string
  ste_event_type :: trace_event_type
  ste_status :: trace_status
  ste_decision_summary :: "trace_decision_summary option"
  ste_prompt_policy_hash :: "string option"
  ste_rendered_prompt_hash :: "string option"
  ste_model_hash :: "string option"
  ste_tool_hash :: "string option"
  ste_context_hash :: "string option"
  ste_config_hash :: string
  ste_usage :: "usage option"
  ste_cost :: "cost option"
  ste_evidence :: "trace_evidence list"
  ste_query_fingerprints :: "string list"
  ste_reason_code :: "string option"
  ste_proposal_ref :: "string option"
  ste_execution_ref :: "string option"
  ste_audit_ref :: "string option"

definition valid_scoped_trace_event :: "scoped_trace_event \<Rightarrow> bool" where
  "valid_scoped_trace_event e \<longleftrightarrow>
     valid_run_scope (ste_run_scope e) \<and> ident_ok is_lower code_char 1 63 (ste_phase e) \<and> 0 \<le> ste_sequence e
     \<and> is_aware (ste_occurred_at e) \<and> ident_ok is_lower code_char 1 63 (ste_node e)
     \<and> optional_ok valid_trace_decision_summary (ste_decision_summary e)
     \<and> optional_ok hex64 (ste_prompt_policy_hash e) \<and> optional_ok hex64 (ste_rendered_prompt_hash e)
     \<and> optional_ok hex64 (ste_model_hash e) \<and> optional_ok hex64 (ste_tool_hash e) \<and> optional_ok hex64 (ste_context_hash e)
     \<and> hex64 (ste_config_hash e) \<and> optional_ok valid_usage (ste_usage e) \<and> optional_ok valid_cost (ste_cost e)
     \<and> length (ste_evidence e) \<le> 32 \<and> list_all valid_trace_evidence (ste_evidence e)
     \<and> length (ste_query_fingerprints e) \<le> 16 \<and> distinct (ste_query_fingerprints e) \<and> list_all hex64 (ste_query_fingerprints e)
     \<and> optional_ok reason_code_ok (ste_reason_code e) \<and> optional_ok (len_ok 1 256) (ste_proposal_ref e)
     \<and> optional_ok (len_ok 1 256) (ste_execution_ref e) \<and> optional_ok (len_ok 1 256) (ste_audit_ref e)"

subsection \<open>Appending\<close>

datatype trace_error = TraceContractError string

definition sensitive_markers :: "string list" where
  "sensitive_markers = [''://'', ''password'', ''secret'', ''sk-'', ''raw_seller_id'', ''reasoning_content'', ''approval_nonce'', ''signature'']"

definition has_marker :: "string \<Rightarrow> string \<Rightarrow> bool" where
  "has_marker text marker \<longleftrightarrow> list_ex (\<lambda>i. take (length marker) (drop i text) = marker) [0..<Suc (length text)]"

definition validate_trace_event :: "unicode_data \<Rightarrow> scoped_trace_event \<Rightarrow> trace_error + unit" where
  "validate_trace_event U e = (case ste_decision_summary e of
       None \<Rightarrow> Inr ()
     | Some s \<Rightarrow> require (\<not> list_ex (has_marker (un_casefold U (tds_text s))) sensitive_markers)
                    (TraceContractError ''trace_sensitive_content''))"

type_synonym trace_store = "run_scope \<times> uuid \<Rightarrow> scoped_trace_event list"

definition trace_attempt :: "scoped_trace_event \<Rightarrow> run_scope \<times> uuid" where
  "trace_attempt e = (ste_run_scope e, ste_attempt_id e)"

definition store_append :: "scoped_trace_event \<Rightarrow> trace_store \<Rightarrow> (trace_error + unit) \<times> trace_store" where
  "store_append e st =
     (if ste_sequence e \<noteq> int (length (st (trace_attempt e))) then (Inl (TraceContractError ''trace_sequence_invalid''), st)
      else (Inr (), st(trace_attempt e := st (trace_attempt e) @ [e])))"

definition trace_append :: "unicode_data \<Rightarrow> scoped_trace_event \<Rightarrow> trace_store \<Rightarrow> (trace_error + unit) \<times> trace_store" where
  "trace_append U e st = (case validate_trace_event U e of Inl x \<Rightarrow> (Inl x, st) | Inr _ \<Rightarrow> store_append e st)"

subsection \<open>Public events\<close>

record sse_run_event =
  sse_cursor :: int
  sse_run_id :: uuid
  sse_attempt_id :: uuid
  sse_sequence :: int
  sse_event_type :: string
  sse_status :: string
  sse_occurred_at :: py_datetime
  sse_reason_code :: "string option"
  sse_decision_summary :: "trace_decision_summary option"
  sse_proposal_ref :: "string option"
  sse_execution_ref :: "string option"
  sse_audit_ref :: "string option"
  sse_evidence :: "trace_evidence list"
  sse_query_fingerprints :: "string list"
  sse_usage :: "usage option"
  sse_cost :: "cost option"

definition valid_sse_run_event :: "sse_run_event \<Rightarrow> bool" where
  "valid_sse_run_event e \<longleftrightarrow>
     1 \<le> sse_cursor e \<and> 0 \<le> sse_sequence e \<and> optional_ok valid_trace_decision_summary (sse_decision_summary e)
     \<and> length (sse_evidence e) \<le> 32 \<and> list_all valid_trace_evidence (sse_evidence e) \<and> length (sse_query_fingerprints e) \<le> 16
     \<and> optional_ok valid_usage (sse_usage e) \<and> optional_ok valid_cost (sse_cost e)"

definition sse_run_event_from_trace :: "scoped_trace_event \<Rightarrow> sse_run_event" where
  "sse_run_event_from_trace e =
     \<lparr>sse_cursor = ste_sequence e + 1, sse_run_id = rs_run_id (ste_run_scope e), sse_attempt_id = ste_attempt_id e,
      sse_sequence = ste_sequence e, sse_event_type = trace_event_type_value (ste_event_type e),
      sse_status = trace_status_value (ste_status e), sse_occurred_at = ste_occurred_at e, sse_reason_code = ste_reason_code e,
      sse_decision_summary = ste_decision_summary e, sse_proposal_ref = ste_proposal_ref e,
      sse_execution_ref = ste_execution_ref e, sse_audit_ref = ste_audit_ref e, sse_evidence = ste_evidence e,
      sse_query_fingerprints = ste_query_fingerprints e, sse_usage = ste_usage e, sse_cost = ste_cost e\<rparr>"

text \<open>The JSON text of the event is pydantic's.\<close>

definition format_sse_event :: "(sse_run_event \<Rightarrow> string) \<Rightarrow> sse_run_event \<Rightarrow> string" where
  "format_sse_event json e = ''id: '' @ show_int (sse_cursor e) @ [CHR 0x0A] @ ''event: '' @ sse_event_type e @ [CHR 0x0A]
     @ ''data: '' @ json e @ [CHR 0x0A, CHR 0x0A]"

subsection \<open>Stored rows\<close>

text \<open>The JSON column, as pydantic reads it back.\<close>

record safe_summary =
  sf_audit_ref :: "string option"
  sf_cost :: "cost option"
  sf_decision_summary :: "trace_decision_summary option"
  sf_evidence :: "trace_evidence list"
  sf_execution_ref :: "string option"
  sf_proposal_ref :: "string option"
  sf_query_fingerprints :: "string list"
  sf_usage :: "usage option"

record trace_row =
  tw_run_id :: uuid
  tw_attempt_id :: uuid
  tw_sequence :: int
  tw_event_type :: string
  tw_status :: string
  tw_occurred_at :: py_datetime
  tw_reason_code :: "string option"
  tw_safe_summary :: safe_summary

definition safe_summary_of :: "scoped_trace_event \<Rightarrow> safe_summary" where
  "safe_summary_of e =
     \<lparr>sf_audit_ref = ste_audit_ref e, sf_cost = ste_cost e, sf_decision_summary = ste_decision_summary e,
      sf_evidence = ste_evidence e, sf_execution_ref = ste_execution_ref e, sf_proposal_ref = ste_proposal_ref e,
      sf_query_fingerprints = ste_query_fingerprints e, sf_usage = ste_usage e\<rparr>"

definition row_of_event :: "scoped_trace_event \<Rightarrow> trace_row" where
  "row_of_event e =
     \<lparr>tw_run_id = rs_run_id (ste_run_scope e), tw_attempt_id = ste_attempt_id e, tw_sequence = ste_sequence e,
      tw_event_type = trace_event_type_value (ste_event_type e), tw_status = trace_status_value (ste_status e),
      tw_occurred_at = ste_occurred_at e, tw_reason_code = ste_reason_code e, tw_safe_summary = safe_summary_of e\<rparr>"

definition event_from_row :: "int \<Rightarrow> trace_row \<Rightarrow> sse_run_event" where
  "event_from_row cursor w =
     \<lparr>sse_cursor = cursor, sse_run_id = tw_run_id w, sse_attempt_id = tw_attempt_id w, sse_sequence = tw_sequence w,
      sse_event_type = tw_event_type w, sse_status = tw_status w, sse_occurred_at = tw_occurred_at w,
      sse_reason_code = tw_reason_code w, sse_decision_summary = sf_decision_summary (tw_safe_summary w),
      sse_proposal_ref = sf_proposal_ref (tw_safe_summary w), sse_execution_ref = sf_execution_ref (tw_safe_summary w),
      sse_audit_ref = sf_audit_ref (tw_safe_summary w), sse_evidence = sf_evidence (tw_safe_summary w),
      sse_query_fingerprints = sf_query_fingerprints (tw_safe_summary w), sse_usage = sf_usage (tw_safe_summary w),
      sse_cost = sf_cost (tw_safe_summary w)\<rparr>"

subsection \<open>The event source and the stream\<close>

text \<open>\<open>row_number() OVER (ORDER BY occurred_at, attempt_id, sequence)\<close>, from one.\<close>

definition row_order :: "trace_row \<Rightarrow> int \<times> uuid \<times> int" where
  "row_order w = (to_instant (tw_occurred_at w), tw_attempt_id w, tw_sequence w)"

definition ordered_rows :: "trace_row list \<Rightarrow> trace_row list" where
  "ordered_rows rows = sort_key row_order rows"

definition ranked_events :: "trace_row list \<Rightarrow> sse_run_event list" where
  "ranked_events ws = map (\<lambda>(i, w). event_from_row (int i + 1) w) (enumerate 0 ws)"

definition events_after :: "trace_row list \<Rightarrow> int \<Rightarrow> nat \<Rightarrow> sse_run_event list option" where
  "events_after rows after_sequence limit =
     (let es = take limit (filter (\<lambda>e. after_sequence < sse_cursor e) (ranked_events (ordered_rows rows)))
      in if list_all valid_sse_run_event es then Some es else None)"

definition parse_last_event_id :: "(string \<Rightarrow> int option) \<Rightarrow> string option \<Rightarrow> unit + int" where
  "parse_last_event_id to_int header = (case header of
       None \<Rightarrow> Inr (- 1)
     | Some s \<Rightarrow> (case to_int s of None \<Rightarrow> Inl () | Some i \<Rightarrow> Inr i))"

datatype emission = EventBlock sse_run_event | HeartbeatNote

record sse_state =
  ss_last_sent :: int
  ss_last_activity :: int
  ss_output :: "emission list"

text \<open>One poll: the rows it sees, a clock reading after each event, and the two readings of the idle test.\<close>

record sse_poll_input =
  pi_rows :: "trace_row list"
  pi_send_time :: "nat \<Rightarrow> int"
  pi_idle_time :: int
  pi_beat_time :: int

fun send_events :: "(nat \<Rightarrow> int) \<Rightarrow> nat \<Rightarrow> sse_run_event list \<Rightarrow> sse_state \<Rightarrow> sse_state" where
  "send_events clock n [] s = s"
| "send_events clock n (e # es) s = send_events clock (Suc n) es
     (s\<lparr>ss_last_sent := sse_cursor e, ss_last_activity := clock n, ss_output := ss_output s @ [EventBlock e]\<rparr>)"

text \<open>None: reading or validating the rows raised, which ends the stream. \<open>limit\<close> is 200 in the code.\<close>

definition sse_poll :: "int \<Rightarrow> nat \<Rightarrow> sse_poll_input \<Rightarrow> sse_state \<Rightarrow> sse_state option" where
  "sse_poll heartbeat_interval limit p s =
     (case events_after (pi_rows p) (ss_last_sent s) limit of
        None \<Rightarrow> None
      | Some events \<Rightarrow>
          let s' = send_events (pi_send_time p) 0 events s in
          Some (if events = [] \<and> heartbeat_interval \<le> pi_idle_time p - ss_last_activity s'
                then s'\<lparr>ss_output := ss_output s' @ [HeartbeatNote], ss_last_activity := pi_beat_time p\<rparr> else s'))"

fun sse_stream :: "int \<Rightarrow> nat \<Rightarrow> sse_poll_input list \<Rightarrow> sse_state \<Rightarrow> sse_state option" where
  "sse_stream hb limit [] s = Some s"
| "sse_stream hb limit (p # ps) s = Option.bind (sse_poll hb limit p s) (sse_stream hb limit ps)"

definition opened_stream :: "int \<Rightarrow> int \<Rightarrow> sse_state" where
  "opened_stream last_event_id now = \<lparr>ss_last_sent = last_event_id, ss_last_activity = now, ss_output = []\<rparr>"

fun sent_events :: "emission list \<Rightarrow> sse_run_event list" where
  "sent_events [] = []"
| "sent_events (EventBlock e # es) = e # sent_events es"
| "sent_events (HeartbeatNote # es) = sent_events es"

subsection \<open>What is stored is what is shown\<close>

text \<open>
  The row that a trace event leaves behind reads back as the public projection of that event, but for the
  cursor: hashes, nodes, phases and the run scope never reach the stream.
\<close>

theorem stored_event_projects:
  assumes "valid_scoped_trace_event e" and "1 \<le> n"
  shows "event_from_row n (row_of_event e) = (sse_run_event_from_trace e)\<lparr>sse_cursor := n\<rparr>
    \<and> valid_sse_run_event (event_from_row n (row_of_event e)) \<and> valid_sse_run_event (sse_run_event_from_trace e)"
  using assms
  by (simp add: event_from_row_def row_of_event_def safe_summary_of_def sse_run_event_from_trace_def valid_sse_run_event_def
      valid_scoped_trace_event_def)

text \<open>The events of an attempt are numbered without gaps.\<close>

definition trace_numbered :: "trace_store \<Rightarrow> bool" where
  "trace_numbered st \<longleftrightarrow> (\<forall>k. map ste_sequence (st k) = map int [0..<length (st k)] \<and> list_all (\<lambda>e. trace_attempt e = k) (st k))"

theorem trace_append_numbered: "trace_numbered st \<Longrightarrow> trace_numbered (snd (trace_append U e st))"
  by (auto simp: trace_append_def store_append_def trace_numbered_def split: sum.splits simp del: split_paired_All)

subsection \<open>Exactly once\<close>

lemma sent_events_append [simp]: "sent_events (xs @ ys) = sent_events xs @ sent_events ys"
  by (induction xs rule: sent_events.induct) simp_all

lemma ranked_length [simp]: "length (ranked_events ws) = length ws"
  by (simp add: ranked_events_def)

lemma ranked_nth: "i < length ws \<Longrightarrow> ranked_events ws ! i = event_from_row (int i + 1) (ws ! i)"
  by (simp add: ranked_events_def nth_enumerate_eq)

lemma ranked_cursor: "i < length ws \<Longrightarrow> sse_cursor (ranked_events ws ! i) = int i + 1"
  by (simp add: ranked_nth event_from_row_def)

lemma filter_ranked: "filter (\<lambda>e. l < sse_cursor e) (ranked_events ws) = drop (nat l) (ranked_events ws)"
proof -
  have c: "l < sse_cursor e \<longleftrightarrow> nat l \<le> i" if "i < length ws" "e = ranked_events ws ! i" for e i
    using that ranked_cursor [of i ws] by (auto simp: nat_le_iff)
  have "filter (\<lambda>e. l < sse_cursor e) (take (nat l) (ranked_events ws)) = []"
    using c by (auto simp: filter_empty_conv in_set_conv_nth)
  moreover have "filter (\<lambda>e. l < sse_cursor e) (drop (nat l) (ranked_events ws)) = drop (nat l) (ranked_events ws)"
    using c by (auto simp: filter_id_conv in_set_conv_nth)
  ultimately show ?thesis using filter_append [of _ "take (nat l) (ranked_events ws)" "drop (nat l) (ranked_events ws)"] by simp
qed

lemma ranked_prefix: "prefix ws ws' \<Longrightarrow> prefix (ranked_events ws) (ranked_events ws')"
proof -
  assume "prefix ws ws'"
  then obtain vs where "ws' = ws @ vs" by (auto simp: prefix_def)
  then show ?thesis by (simp add: ranked_events_def enumerate_append_eq)
qed

lemma send_events_fields:
  "ss_output (send_events clock n es s) = ss_output s @ map EventBlock es
   \<and> ss_last_sent (send_events clock n es s) = (if es = [] then ss_last_sent s else sse_cursor (last es))"
  by (induction es arbitrary: n s) auto

lemma sent_blocks [simp]: "sent_events (map EventBlock es) = es"
  by (induction es) simp_all

text \<open>After a poll the stream has sent the events up to its cursor, counted from where it was opened.\<close>

definition in_step :: "nat \<Rightarrow> sse_run_event list \<Rightarrow> sse_state \<Rightarrow> bool" where
  "in_step start es s \<longleftrightarrow> (\<exists>k. sent_events (ss_output s) = take k (drop start es) \<and> nat (ss_last_sent s) = start + k
     \<and> start + k \<le> length es)"

lemma in_step_prefix: "in_step start es s \<Longrightarrow> prefix es es' \<Longrightarrow> in_step start es' s"
  by (auto simp: in_step_def prefix_def)

lemma poll_in_step:
  assumes "sse_poll hb limit p s = Some s'" "in_step start (ranked_events (ordered_rows (pi_rows p))) s"
  shows "in_step start (ranked_events (ordered_rows (pi_rows p))) s'
    \<and> nat (ss_last_sent s') = min (length (pi_rows p)) (nat (ss_last_sent s) + limit)"
proof -
  let ?r = "ranked_events (ordered_rows (pi_rows p))"
  obtain k where k: "sent_events (ss_output s) = take k (drop start ?r)" "nat (ss_last_sent s) = start + k" "start + k \<le> length ?r"
    using assms(2) by (auto simp: in_step_def)
  let ?es = "take limit (drop (start + k) ?r)"
  have out: "sent_events (ss_output s') = take k (drop start ?r) @ ?es"
    and last: "ss_last_sent s' = (if ?es = [] then ss_last_sent s else sse_cursor (last ?es))"
    using assms(1) k send_events_fields [of "pi_send_time p" 0 ?es s]
    by (auto simp: sse_poll_def events_after_def filter_ranked Let_def split: if_splits)
  have t: "take k (drop start ?r) @ ?es = take (k + length ?es) (drop start ?r)"
  proof -
    have "take (length (take limit ys)) ys = take limit ys" for ys :: "sse_run_event list" by (simp add: min_def)
    from this [of "drop (start + k) ?r"] show ?thesis
      using take_add [of k "length ?es" "drop start ?r"] by (simp only: drop_drop add.commute [of k start])
  qed
  have rows: "length ?r = length (pi_rows p)" by (simp add: ordered_rows_def)
  show ?thesis
  proof (cases "?es = []")
    case True
    then show ?thesis using out last k rows by (auto simp: in_step_def)
  next
    case False
    have n: "length ?es = min limit (length ?r - (start + k))" by simp
    let ?i = "start + k + (length ?es - 1)"
    have i: "?i < length (ordered_rows (pi_rows p))" using False n k(3) by auto
    have "last ?es = ?r ! ?i" using False by (auto simp: last_conv_nth)
    then have "sse_cursor (last ?es) = int ?i + 1" using ranked_cursor [OF i] by simp
    then have "nat (ss_last_sent s') = start + (k + length ?es)" using last False by auto
    moreover have "start + (k + length ?es) \<le> length ?r" using n k(3) by auto
    moreover have "start + (k + length ?es) = min (length (pi_rows p)) (nat (ss_last_sent s) + limit)"
      using n k(2,3) rows by linarith
    ultimately show ?thesis using out t by (auto simp: in_step_def)
  qed
qed

lemma in_step_bound: "in_step start (ranked_events (ordered_rows rows)) s \<Longrightarrow> nat (ss_last_sent s) \<le> length rows"
  by (auto simp: in_step_def ordered_rows_def)

definition grows_in_order :: "trace_row list list \<Rightarrow> bool" where
  "grows_in_order rs \<longleftrightarrow> (\<forall>i. Suc i < length rs \<longrightarrow> prefix (ordered_rows (rs ! i)) (ordered_rows (rs ! Suc i)))"

lemma stream_in_step:
  assumes "sse_stream hb limit ps s = Some s'" "grows_in_order (map pi_rows ps)" "ps \<noteq> []"
    and "in_step start (ranked_events (ordered_rows (pi_rows (hd ps)))) s"
  shows "in_step start (ranked_events (ordered_rows (pi_rows (last ps)))) s'"
  using assms
proof (induction ps arbitrary: s)
  case (Cons p ps)
  then obtain s1 where p: "sse_poll hb limit p s = Some s1" and r: "sse_stream hb limit ps s1 = Some s'"
    by (auto simp: bind_eq_Some_conv)
  have i: "in_step start (ranked_events (ordered_rows (pi_rows p))) s1" using poll_in_step [OF p] Cons.prems by simp
  show ?case
  proof (cases ps)
    case Nil
    then show ?thesis using i r by simp
  next
    case (Cons p' ps')
    then have "prefix (ordered_rows (pi_rows p)) (ordered_rows (pi_rows p'))"
      using Cons.prems(2) unfolding grows_in_order_def by (metis length_map list.sel(1) list.simps(9) nth_Cons_0 nth_Cons_Suc Suc_less_eq length_Cons zero_less_Suc)
    then have "in_step start (ranked_events (ordered_rows (pi_rows p'))) s1" using in_step_prefix [OF i ranked_prefix] by blast
    moreover have "grows_in_order (map pi_rows ps)" using Cons.prems(2) by (auto simp: grows_in_order_def)
    ultimately show ?thesis using Cons.IH [OF r] Cons by simp
  qed
qed simp

lemma grows_next:
  assumes "grows_in_order (map pi_rows (p # p' # ps))"
  shows "prefix (ordered_rows (pi_rows p)) (ordered_rows (pi_rows p'))" "grows_in_order (map pi_rows (p' # ps))"
    "length (pi_rows p) \<le> length (pi_rows p')"
proof -
  show g: "prefix (ordered_rows (pi_rows p)) (ordered_rows (pi_rows p'))" using assms by (force simp: grows_in_order_def)
  show "grows_in_order (map pi_rows (p' # ps))" using assms by (fastforce simp: grows_in_order_def)
  from prefix_length_le [OF g] show "length (pi_rows p) \<le> length (pi_rows p')" by (simp add: ordered_rows_def)
qed

text \<open>Every event that a poll could see has been sent once the polls from there on have room for it.\<close>

lemma stream_progress:
  assumes "sse_stream hb limit ps s = Some s'" "grows_in_order (map pi_rows ps)" "j < length ps"
    and "in_step start (ranked_events (ordered_rows (pi_rows (hd ps)))) s"
  shows "min (length (pi_rows (ps ! j))) (nat (ss_last_sent s) + limit * (length ps - j)) \<le> nat (ss_last_sent s')"
  using assms
proof (induction ps arbitrary: s j)
  case (Cons p ps)
  then obtain s1 where p: "sse_poll hb limit p s = Some s1" and r: "sse_stream hb limit ps s1 = Some s'"
    by (auto simp: bind_eq_Some_conv)
  have b: "nat (ss_last_sent s) \<le> length (pi_rows p)" using in_step_bound Cons.prems(4) by simp
  have i: "in_step start (ranked_events (ordered_rows (pi_rows p))) s1"
    and one: "nat (ss_last_sent s1) = min (length (pi_rows p)) (nat (ss_last_sent s) + limit)"
    using poll_in_step [OF p] Cons.prems(4) by simp_all
  show ?case
  proof (cases ps)
    case Nil
    then show ?thesis using one r Cons.prems(3) by simp
  next
    case (Cons p' ps')
    note g = grows_next [OF Cons.prems(2) [unfolded Cons]]
    have i': "in_step start (ranked_events (ordered_rows (pi_rows (hd ps)))) s1"
      using in_step_prefix [OF i ranked_prefix [OF g(1)]] Cons by simp
    have step: "min (length (pi_rows (ps ! m))) (nat (ss_last_sent s1) + limit * (length ps - m)) \<le> nat (ss_last_sent s')"
      if "m < length ps" for m
      using Cons.IH [OF r _ that i'] g(2) Cons by simp
    show ?thesis
    proof (cases j)
      case 0
      have "limit * Suc (length ps) = limit + limit * length ps" by simp
      then show ?thesis using step [of 0] g(3) one 0 Cons by (simp del: mult_Suc_right) linarith
    next
      case (Suc m)
      have "nat (ss_last_sent s) \<le> nat (ss_last_sent s1)" using one b by simp
      then show ?thesis using step [of m] Suc Cons.prems(3) by simp linarith
    qed
  qed
qed simp

text \<open>
  C20: a stream is opened at a cursor within the rows of its first poll (or at the start), and the rows of the run
  only grow at the end of their order. Then what it has sent are the events after the cursor, each once, in order,
  with consecutive cursors and without a gap, up to its own last cursor, whatever heartbeats and empty polls come
  between; and every event that the poll number \<open>j\<close> could see has been sent once the polls from there on have room
  for it, each sending up to \<open>limit\<close> events (200 in the code). Reconnecting with the last cursor continues it.
\<close>

theorem events_delivered_exactly_once:
  assumes "sse_stream hb limit ps (opened_stream last_event_id now) = Some s" and "ps \<noteq> []"
    and "grows_in_order (map pi_rows ps)" and "nat last_event_id \<le> length (pi_rows (hd ps))"
  shows "sent_events (ss_output s) = take (nat (ss_last_sent s) - nat last_event_id)
      (drop (nat last_event_id) (ranked_events (ordered_rows (pi_rows (last ps)))))
    \<and> map sse_cursor (sent_events (ss_output s)) = map int [Suc (nat last_event_id)..<Suc (nat (ss_last_sent s))]
    \<and> (\<forall>j < length ps. min (length (pi_rows (ps ! j))) (nat last_event_id + limit * (length ps - j)) \<le> nat (ss_last_sent s))"
proof -
  let ?r = "ranked_events (ordered_rows (pi_rows (last ps)))" and ?l = "nat last_event_id"
  have "in_step ?l (ranked_events (ordered_rows (pi_rows (hd ps)))) (opened_stream last_event_id now)"
    using assms(4) by (auto simp: in_step_def opened_stream_def ordered_rows_def)
  note opened = this
  have "min (length (pi_rows (ps ! j))) (nat last_event_id + limit * (length ps - j)) \<le> nat (ss_last_sent s)"
    if "j < length ps" for j
    using stream_progress [OF assms(1,3) that opened] by (simp add: opened_stream_def)
  moreover from stream_in_step [OF assms(1,3,2) opened] obtain k where
    k: "sent_events (ss_output s) = take k (drop ?l ?r)" "nat (ss_last_sent s) = ?l + k" "?l + k \<le> length ?r"
    by (auto simp: in_step_def)
  moreover have "map sse_cursor (take k (drop ?l ?r)) = map int [Suc ?l..<Suc (?l + k)]"
  proof (rule nth_equalityI)
    show "length (map sse_cursor (take k (drop ?l ?r))) = length (map int [Suc ?l..<Suc (?l + k)])" using k(3) by simp
    show "map sse_cursor (take k (drop ?l ?r)) ! i = map int [Suc ?l..<Suc (?l + k)] ! i"
      if "i < length (map sse_cursor (take k (drop ?l ?r)))" for i
      using that k(3) ranked_cursor [of "?l + i" "ordered_rows (pi_rows (last ps))"] by (simp del: upt_Suc)
  qed
  ultimately show ?thesis using k by simp
qed

subsection \<open>A late row\<close>

definition sample_trace_row :: "int \<Rightarrow> trace_row" where
  "sample_trace_row t = \<lparr>tw_run_id = 1, tw_attempt_id = 2, tw_sequence = t, tw_event_type = ''sql_generated'', tw_status = ''succeeded'',
     tw_occurred_at = Aware t 0, tw_reason_code = None, tw_safe_summary =
       \<lparr>sf_audit_ref = None, sf_cost = None, sf_decision_summary = None, sf_evidence = [], sf_execution_ref = None,
        sf_proposal_ref = None, sf_query_fingerprints = [], sf_usage = None\<rparr>\<rparr>"

definition sample_poll :: "int list \<Rightarrow> sse_poll_input" where
  "sample_poll ts = \<lparr>pi_rows = map sample_trace_row ts, pi_send_time = (\<lambda>_. 0), pi_idle_time = 0, pi_beat_time = 0\<rparr>"

definition sent_times :: "sse_state option \<Rightarrow> int list" where
  "sent_times s = (case s of None \<Rightarrow> [] | Some t \<Rightarrow> map sse_sequence (sent_events (ss_output t)))"

lemma sample_streams:
  "sent_times (sse_stream 15 200 [sample_poll [20, 10], sample_poll [20, 30, 10]] (opened_stream (- 1) 0)) = [10, 20, 30]"
  "sent_times (sse_stream 15 200 [sample_poll [20, 10], sample_poll [20, 15, 10]] (opened_stream (- 1) 0)) = [10, 20, 20]"
  by code_simp+

lemma sample_growth: "ordered_rows (map sample_trace_row [20, 10]) = map sample_trace_row [10, 20]"
  "ordered_rows (map sample_trace_row [20, 30, 10]) = map sample_trace_row [10, 20, 30]"
  by (simp_all add: ordered_rows_def row_order_def sample_trace_row_def to_instant_def)

theorem events_delivered_exactly_once_witness:
  "\<exists>s. sse_stream 15 200 [sample_poll [20, 10], sample_poll [20, 30, 10]] (opened_stream (- 1) 0) = Some s
     \<and> map sse_cursor (sent_events (ss_output s)) = map int [Suc (nat (- 1))..<Suc (nat (ss_last_sent s))]
     \<and> 3 \<le> ss_last_sent s"
proof -
  obtain s where s: "sse_stream 15 200 [sample_poll [20, 10], sample_poll [20, 30, 10]] (opened_stream (- 1) 0) = Some s"
    using sample_streams(1) by (cases "sse_stream 15 200 [sample_poll [20, 10], sample_poll [20, 30, 10]] (opened_stream (- 1) 0)")
      (simp_all add: sent_times_def)
  have g: "grows_in_order (map pi_rows [sample_poll [20, 10], sample_poll [20, 30, 10]])"
    by (simp add: grows_in_order_def sample_poll_def sample_growth [simplified])
  have "nat (- 1) \<le> length (pi_rows (hd [sample_poll [20, 10], sample_poll [20, 30, 10]]))" by simp
  note d = events_delivered_exactly_once [OF s list.simps(3) g this]
  from d [THEN conjunct2, THEN conjunct2, THEN spec, of 1] have "3 \<le> ss_last_sent s" by (simp add: sample_poll_def)
  then show ?thesis using s d by blast
qed

text \<open>
  The rank is not stable. A row that arrives late, with an earlier time than one already sent, moves the
  later ones: here the event of time 20 is sent twice and the event of time 15 never.
\<close>

theorem late_event_never_sent:
  "sent_times (sse_stream 15 200 [sample_poll [20, 10], sample_poll [20, 15, 10]] (opened_stream (- 1) 0)) = [10, 20, 20]"
  by (rule sample_streams(2))

end
