(* ===== verification/Product_Driver.thy ===== *)
theory Product_Driver
  imports Retail_Runs Tool_Dispatch
begin

text \<open>
  \<open>product_eval/contracts.py\<close> and \<open>product_eval/driver.py\<close>: the scenarios and the serial driver that plays one
  against the retail graph, the operation workflow and the query engine, between two resets. The four are ports
  on a world \<open>'w\<close>; an exception of any of them is a \<open>run_error\<close>. The driver answers an unscripted question
  with a fixed Chinese sentence, whose text is the field \<open>pv_no_information\<close>.
\<close>

subsection \<open>Scenario contracts\<close>

datatype failure_point = BeforeProposalPersist | AfterProposalCommitResponseLost | BeforeExecuteCall | AfterExecuteCommitResponseLost

record scripted_clarification =
  sl_slot :: clarification_slot
  sl_response :: string

definition valid_scripted_clarification :: "scripted_clarification \<Rightarrow> bool" where
  "valid_scripted_clarification c \<longleftrightarrow> len_ok 1 1000 (sl_response c)"

datatype actor_action = ApproveExecute | RejectProposal

record scenario_actor_step =
  st_action :: actor_action
  st_actor_ref :: string
  st_proposal_index :: int

definition valid_scenario_actor_step :: "scenario_actor_step \<Rightarrow> bool" where
  "valid_scenario_actor_step s \<longleftrightarrow> len_ok 1 128 (st_actor_ref s) \<and> 0 \<le> st_proposal_index s \<and> st_proposal_index s \<le> 16"

datatype expected_end = ExpectSucceeded | ExpectRejected

record operation_expectation =
  oe_command_type :: string
  oe_terminal_status :: expected_end
  oe_count :: int

definition valid_operation_expectation :: "operation_expectation \<Rightarrow> bool" where
  "valid_operation_expectation e \<longleftrightarrow> reason_code_ok (oe_command_type e) \<and> 0 \<le> oe_count e \<and> oe_count e \<le> 16"

record readback_expectation =
  re_sql :: string
  re_expected_columns :: "string list"
  re_minimum_rows :: int

definition valid_readback_expectation :: "readback_expectation \<Rightarrow> bool" where
  "valid_readback_expectation e \<longleftrightarrow>
     len_ok 1 100000 (re_sql e) \<and> len_ok 1 32 (re_expected_columns e) \<and> 0 \<le> re_minimum_rows e \<and> re_minimum_rows e \<le> 1000"

record audit_expectation =
  au_event_type :: string
  au_count :: int

definition valid_audit_expectation :: "audit_expectation \<Rightarrow> bool" where
  "valid_audit_expectation e \<longleftrightarrow> au_event_type e = ''operation_executed'' \<and> 0 \<le> au_count e \<and> au_count e \<le> 16"

record scenario_check =
  sk_name :: string
  sk_passed :: bool
  sk_reason_code :: string

definition valid_scenario_check :: "scenario_check \<Rightarrow> bool" where
  "valid_scenario_check c \<longleftrightarrow> reason_code_ok (sk_name c) \<and> reason_code_ok (sk_reason_code c)"

datatype scenario_end = EndCompleted | EndStopped

datatype visibility = DevelopmentSet | RegressionSet

record product_scenario =
  pn_scenario_id :: string
  pn_fixture_revision :: string
  pn_visibility :: visibility
  pn_initial_question :: string
  pn_scripted_clarifications :: "scripted_clarification list"
  pn_analyst_actor_ref :: string
  pn_approver_actor_ref :: string
  pn_actor_steps :: "scenario_actor_step list"
  pn_clock_steps :: "py_datetime list"
  pn_ops_initial_state :: "(string \<times> jval) list"
  pn_reset_manifest_revision :: string
  pn_gold_tables :: "string list"
  pn_gold_columns :: "string list"
  pn_gold_values :: "string list"
  pn_reference_query_assertions :: "readback_expectation list"
  pn_database_assertions :: "scenario_check list"
  pn_required_slots :: "clarification_slot list"
  pn_forbidden_slots :: "clarification_slot list"
  pn_evidence_ids :: "string list"
  pn_operation_expectations :: "operation_expectation list"
  pn_readback_expectations :: "readback_expectation list"
  pn_audit_expectations :: "audit_expectation list"
  pn_allowed_failure_script :: "failure_point list"
  pn_expected_terminal_status :: scenario_end
  pn_decimal_tolerance :: decimal

text \<open>The identifiers: \<open>numbered p\<close> is \<open>p[0-9]+\<close>.\<close>

definition numbered :: "string \<Rightarrow> string \<Rightarrow> bool" where
  "numbered p s \<longleftrightarrow> take (length p) s = p \<and> drop (length p) s \<noteq> [] \<and> list_all is_digit (drop (length p) s)"

definition scenario_char :: "char \<Rightarrow> bool" where
  "scenario_char c \<longleftrightarrow> is_lower c \<or> is_digit c \<or> c = CHR ''-''"

definition scenario_id_ok :: "string \<Rightarrow> bool" where
  "scenario_id_ok s \<longleftrightarrow>
     list_ex (\<lambda>i. ident_ok is_lower scenario_char 2 127 (take i s) \<and> numbered ''-v'' (drop i s)) [0..<Suc (length s)]"

text \<open>The fields' own constraints, then \<open>validate_scenario\<close>.\<close>

definition valid_scenario_fields :: "product_scenario \<Rightarrow> bool" where
  "valid_scenario_fields s \<longleftrightarrow>
     scenario_id_ok (pn_scenario_id s)
     \<and> (numbered ''day4-development-v'' (pn_fixture_revision s) \<or> numbered ''day4-regression-v'' (pn_fixture_revision s))
     \<and> len_ok 1 4000 (pn_initial_question s) \<and> list_all valid_scripted_clarification (pn_scripted_clarifications s)
     \<and> len_ok 1 128 (pn_analyst_actor_ref s) \<and> len_ok 1 128 (pn_approver_actor_ref s)
     \<and> list_all valid_scenario_actor_step (pn_actor_steps s) \<and> len_ok 1 64 (pn_clock_steps s)
     \<and> numbered ''scenario-reset-v'' (pn_reset_manifest_revision s)
     \<and> list_all valid_readback_expectation (pn_reference_query_assertions s)
     \<and> list_all valid_scenario_check (pn_database_assertions s) \<and> pn_evidence_ids s \<noteq> []
     \<and> list_all valid_operation_expectation (pn_operation_expectations s)
     \<and> list_all valid_readback_expectation (pn_readback_expectations s)
     \<and> list_all valid_audit_expectation (pn_audit_expectations s)
     \<and> dec_finite (pn_decimal_tolerance s) \<and> dec_le dec_zero (pn_decimal_tolerance s)"

definition valid_product_scenario :: "product_scenario \<Rightarrow> bool" where
  "valid_product_scenario s \<longleftrightarrow> valid_scenario_fields s
     \<and> (pn_reference_query_assertions s \<noteq> []) \<noteq> (pn_database_assertions s \<noteq> [])
     \<and> set (pn_required_slots s) \<inter> set (pn_forbidden_slots s) = {}
     \<and> distinct (map sl_slot (pn_scripted_clarifications s)) \<and> distinct (pn_allowed_failure_script s)
     \<and> list_all is_aware (pn_clock_steps s)"

datatype scenario_status = ScenarioPassed | ScenarioFailed

record product_scenario_result =
  pz_scenario_id :: string
  pz_status :: scenario_status
  pz_checks :: "scenario_check list"
  pz_asked_slots :: "clarification_slot list"
  pz_invalid_clarification_count :: int
  pz_silent_default_count :: int
  pz_proposal_count :: int
  pz_approval_count :: int
  pz_execution_count :: int
  pz_audit_event_count :: int
  pz_readback_count :: int
  pz_successful_business_write_count :: int
  pz_unauthorized_business_write_count :: int
  pz_successful_execution_audit_count :: int
  pz_sensitivity_comparison_present :: bool
  pz_claims :: "string list"
  pz_unique_proposal_count :: int
  pz_unique_business_write_count :: int
  pz_duplicate_audit_count :: int

definition valid_product_scenario_result :: "product_scenario_result \<Rightarrow> bool" where
  "valid_product_scenario_result r \<longleftrightarrow>
     list_all valid_scenario_check (pz_checks r)
     \<and> list_all (\<lambda>n. 0 \<le> n) [pz_invalid_clarification_count r, pz_silent_default_count r, pz_proposal_count r,
          pz_approval_count r, pz_execution_count r, pz_audit_event_count r, pz_readback_count r,
          pz_successful_business_write_count r, pz_unauthorized_business_write_count r,
          pz_successful_execution_audit_count r, pz_unique_proposal_count r, pz_unique_business_write_count r,
          pz_duplicate_audit_count r]
     \<and> (pz_status r = ScenarioPassed \<longrightarrow> list_all sk_passed (pz_checks r))"

subsection \<open>Requests\<close>

record 'w product_deps =
  pv_run :: "retail_run_request \<Rightarrow> ('w, run_error, retail_run_outcome) action"
  pv_decide :: "decision_request \<Rightarrow> ('w, run_error, decision_receipt) action"
  pv_execute :: "execute_request \<Rightarrow> ('w, run_error, execution_receipt) action"
  pv_query :: "string \<Rightarrow> ('w, run_error, query_result) action"
  pv_resolve :: "string \<Rightarrow> run_error + actor_context"
  pv_reset :: "string \<Rightarrow> string \<Rightarrow> ('w, run_error, unit) action"
  pv_config_hash :: string
  pv_sha :: "bytes \<Rightarrow> string"
  pv_uuid5 :: "string \<Rightarrow> uuid"
  pv_no_information :: string

definition scenario_datum :: "'w product_deps \<Rightarrow> string \<Rightarrow> string \<Rightarrow> run_error + context_datum" where
  "scenario_datum D source content = validated (valid_context_datum (pv_sha D)) (Some
     \<lparr>dt_kind = (if source \<noteq> ''initial_question'' then KConfirmedFact else KUserInput),
      dt_namespace = (if source \<noteq> ''initial_question'' then NConfirmedFact else NUserInput),
      dt_source_ref = ''scenario:'' @ source, dt_revision = None, dt_content = content,
      dt_digest = pv_sha D (utf8 content)\<rparr>)"

definition scenario_scope :: "'w product_deps \<Rightarrow> product_scenario \<Rightarrow> run_scope" where
  "scenario_scope D s = \<lparr>rs_run_id = pv_uuid5 D (''scenario:'' @ pn_scenario_id s), rs_track = ''retail'', rs_mode = ''retail'',
     rs_subject_id = pn_scenario_id s, rs_experiment_id = pn_fixture_revision s, rs_config_hash = pv_config_hash D\<rparr>"

definition scenario_request :: "'w product_deps \<Rightarrow> product_scenario \<Rightarrow> nat \<Rightarrow> context_datum list \<Rightarrow> run_error + retail_run_request" where
  "scenario_request D s attempt confirmed =
     rbind (validated valid_run_scope (Some (scenario_scope D s))) (\<lambda>scope.
     rbind (scenario_datum D ''initial_question'' (pn_initial_question s)) (\<lambda>question.
     validated (valid_retail_run_request (pv_sha D)) (Some
       \<lparr>rq_run_scope = scope,
        rq_attempt_id = pv_uuid5 D (''scenario:'' @ pn_scenario_id s @ '':attempt:'' @ show_int (int attempt)),
        rq_current_input = question, rq_confirmed_facts = confirmed, rq_evidence = [], rq_latest_error = None\<rparr>)))"

subsection \<open>The clarification attempts\<close>

text \<open>The slots asked so far, the unscripted ones among them, the answers given.\<close>

record answers =
  an_asked :: "clarification_slot list"
  an_invalid :: int
  an_confirmed :: "context_datum list"

definition no_answers :: answers where
  "no_answers = \<lparr>an_asked = [], an_invalid = 0, an_confirmed = []\<rparr>"

definition scripted_answer :: "product_scenario \<Rightarrow> clarification_slot \<Rightarrow> string option" where
  "scripted_answer s = map_of (rev (map (\<lambda>c. (sl_slot c, sl_response c)) (pn_scripted_clarifications s)))"

fun answer_items :: "'w product_deps \<Rightarrow> product_scenario \<Rightarrow> clarification_item list \<Rightarrow> answers \<Rightarrow> run_error + answers" where
  "answer_items D s [] a = Inr a"
| "answer_items D s (i # items) a =
     rbind (scenario_datum D (clarification_slot_value (ci_slot i))
              (case scripted_answer s (ci_slot i) of None \<Rightarrow> pv_no_information D | Some r \<Rightarrow> r)) (\<lambda>d.
     answer_items D s items
       \<lparr>an_asked = an_asked a @ [ci_slot i],
        an_invalid = an_invalid a + (if scripted_answer s (ci_slot i) = None then 1 else 0),
        an_confirmed = an_confirmed a @ [d]\<rparr>)"

text \<open>\<open>for attempt_number in range(3)\<close>: the first argument counts the attempts left after this one.\<close>

fun attempts ::
    "nat \<Rightarrow> 'w product_deps \<Rightarrow> product_scenario \<Rightarrow> nat \<Rightarrow> answers \<Rightarrow> ('w, run_error, retail_run_outcome \<times> answers) action" where
  "attempts left D s n a =
     sbind (sresult (scenario_request D s n (an_confirmed a))) (\<lambda>q.
     sbind (pv_run D q) (\<lambda>out.
     case (ro_status out, ro_terminal out) of
       (NeedsInput, Some (Clarification c)) \<Rightarrow>
         sbind (sresult (answer_items D s (cl_items c) a)) (\<lambda>a'.
         case left of 0 \<Rightarrow> sreturn (out, a') | Suc k \<Rightarrow> attempts k D s (n + 1) a')
     | _ \<Rightarrow> sreturn (out, a)))"

subsection \<open>Actor steps and readbacks\<close>

definition the_report :: "retail_run_outcome \<Rightarrow> investigation_report option" where
  "the_report out = (case ro_terminal out of Some (Report r) \<Rightarrow> Some r | _ \<Rightarrow> None)"

definition proposals_of :: "retail_run_outcome \<Rightarrow> proposal_ref list" where
  "proposals_of out = (case the_report out of None \<Rightarrow> [] | Some r \<Rightarrow> rp_proposal_refs r)"

text \<open>The decision of one step and, when it grants, the execution.\<close>

definition actor_step ::
    "'w product_deps \<Rightarrow> proposal_ref \<Rightarrow> scenario_actor_step \<Rightarrow> ('w, run_error, decision_receipt \<times> execution_receipt list) action" where
  "actor_step D ref t =
     sbind (sresult (pv_resolve D (st_actor_ref t))) (\<lambda>who.
     sbind (sresult (validated valid_decision_request (Some
       \<lparr>dr_actor = who, dr_proposal_ref = ref, dr_decision = (if st_action t = ApproveExecute then Approve else Reject),
        dr_reason = Some ''scenario reviewed evidence''\<rparr>))) (\<lambda>q.
     sbind (pv_decide D q) (\<lambda>decided.
     case (st_action t, dc_grant decided) of
       (ApproveExecute, Some g) \<Rightarrow>
         sbind (sresult (validated valid_execute_request (Some \<lparr>xr_actor = who, xr_grant = g\<rparr>))) (\<lambda>x.
         sbind (pv_execute D x) (\<lambda>receipt. sreturn (decided, [receipt])))
     | _ \<Rightarrow> sreturn (decided, []))))"

fun actor_steps ::
    "'w product_deps \<Rightarrow> proposal_ref list \<Rightarrow> scenario_actor_step list
       \<Rightarrow> ('w, run_error, decision_receipt list \<times> execution_receipt list) action" where
  "actor_steps D refs [] = sreturn ([], [])"
| "actor_steps D refs (t # ts) =
     (if int (length refs) \<le> st_proposal_index t then actor_steps D refs ts
      else sbind (actor_step D (refs ! nat (st_proposal_index t)) t) (\<lambda>(decided, receipt).
           sbind (actor_steps D refs ts) (\<lambda>(verdicts, receipts).
           sreturn (decided # verdicts, receipt @ receipts))))"

definition valid_query_request :: "string \<Rightarrow> bool" where
  "valid_query_request sql \<longleftrightarrow> len_ok 1 100000 sql"

fun readbacks :: "'w product_deps \<Rightarrow> readback_expectation list \<Rightarrow> ('w, run_error, query_result list) action" where
  "readbacks D [] = sreturn []"
| "readbacks D (e # es) =
     sbind (sresult (validated valid_query_request (Some (re_sql e)))) (\<lambda>sql.
     sbind (pv_query D sql) (\<lambda>r. sbind (readbacks D es) (\<lambda>rs. sreturn (r # rs))))"

subsection \<open>The checks\<close>

definition check_of :: "string \<Rightarrow> bool \<Rightarrow> string \<Rightarrow> run_error + scenario_check" where
  "check_of name ok reason = validated valid_scenario_check (Some
     \<lparr>sk_name = name, sk_passed = ok, sk_reason_code = (if ok then ''check_passed'' else reason)\<rparr>)"

definition tally :: "('a \<Rightarrow> bool) \<Rightarrow> 'a list \<Rightarrow> int" where
  "tally P xs = int (length (filter P xs))"

definition ended_as :: "scenario_end \<Rightarrow> retail_status \<Rightarrow> bool" where
  "ended_as e status \<longleftrightarrow> status = (case e of EndCompleted \<Rightarrow> RunCompleted | EndStopped \<Rightarrow> RunStopped)"

definition evidence_available :: "retail_run_outcome \<Rightarrow> string set" where
  "evidence_available out = (case the_report out of None \<Rightarrow> {} | Some r \<Rightarrow> set (map iv_evidence_id (rp_available_evidence r)))"

definition operation_observed :: "decision_receipt list \<Rightarrow> execution_receipt list \<Rightarrow> operation_expectation \<Rightarrow> int" where
  "operation_observed verdicts receipts e = (case oe_terminal_status e of
       ExpectSucceeded \<Rightarrow> tally (\<lambda>r. er_command_type r = oe_command_type e) receipts
     | ExpectRejected \<Rightarrow> tally (\<lambda>d. dc_status d = REJECTED) verdicts)"

definition readback_matches :: "readback_expectation \<Rightarrow> query_result \<Rightarrow> bool" where
  "readback_matches e r \<longleftrightarrow> qr_columns r = re_expected_columns e \<and> re_minimum_rows e \<le> int (row_count r)"

definition validate_scenario_run ::
    "product_scenario \<Rightarrow> retail_run_outcome \<Rightarrow> clarification_slot list \<Rightarrow> execution_receipt list \<Rightarrow> query_result list
       \<Rightarrow> decision_receipt list \<Rightarrow> run_error + scenario_check list" where
  "validate_scenario_run s out asked receipts tables verdicts =
     traverse (\<lambda>(name, ok, reason). check_of name ok reason)
       ([(''terminal_status'', ended_as (pn_expected_terminal_status s) (ro_status out), ''terminal_status_mismatch''),
         (''required_clarifications'', set (pn_required_slots s) \<subseteq> set asked, ''required_clarification_missing''),
         (''forbidden_clarifications'', set (pn_forbidden_slots s) \<inter> set asked = {}, ''forbidden_clarification_asked''),
         (''approval_count'', tally (\<lambda>d. dc_status d = APPROVED) verdicts
            = tally (\<lambda>t. st_action t = ApproveExecute) (pn_actor_steps s), ''approval_count_mismatch''),
         (''audit_count'', tally (\<lambda>r. er_audit_ref r \<noteq> []) receipts = sum_list (map au_count (pn_audit_expectations s)),
            ''audit_event_missing''),
         (''evidence_ids'', set (pn_evidence_ids s) \<subseteq> evidence_available out, ''required_evidence_missing'')]
        @ map (\<lambda>e. (''operation_'' @ oe_command_type e, operation_observed verdicts receipts e = oe_count e,
            ''operation_count_mismatch'')) (pn_operation_expectations s)
        @ map (\<lambda>(i, e, r). (''readback_'' @ show_int (int i), readback_matches e r, ''readback_mismatch''))
            (enumerate 0 (zip (pn_readback_expectations s) tables)))"

subsection \<open>The run\<close>

definition scenario_result ::
    "product_scenario \<Rightarrow> retail_run_outcome \<Rightarrow> answers \<Rightarrow> decision_receipt list \<Rightarrow> execution_receipt list
       \<Rightarrow> query_result list \<Rightarrow> scenario_check list \<Rightarrow> product_scenario_result" where
  "scenario_result s out a verdicts receipts tables checks =
     \<lparr>pz_scenario_id = pn_scenario_id s,
      pz_status = (if list_all sk_passed checks then ScenarioPassed else ScenarioFailed), pz_checks = checks,
      pz_asked_slots = an_asked a, pz_invalid_clarification_count = an_invalid a, pz_silent_default_count = 0,
      pz_proposal_count = int (length (proposals_of out)),
      pz_approval_count = tally (\<lambda>d. dc_status d = APPROVED) verdicts, pz_execution_count = int (length receipts),
      pz_audit_event_count = tally (\<lambda>r. er_audit_ref r \<noteq> []) receipts,
      pz_readback_count = sum_list (map (\<lambda>r. int (row_count r)) tables),
      pz_successful_business_write_count = int (length receipts), pz_unauthorized_business_write_count = 0,
      pz_successful_execution_audit_count = tally (\<lambda>r. er_audit_ref r \<noteq> []) receipts,
      pz_sensitivity_comparison_present =
        (case the_report out of None \<Rightarrow> False | Some r \<Rightarrow> rp_sensitivity_comparison r \<noteq> None),
      pz_claims = (case the_report out of None \<Rightarrow> [] | Some r \<Rightarrow> map ic_claim_id (rp_claims r)),
      pz_unique_proposal_count = int (card (set (proposals_of out))),
      pz_unique_business_write_count = int (length receipts),
      pz_duplicate_audit_count = int (length receipts) - int (card (er_audit_ref ` set receipts))\<rparr>"

definition run_after_reset :: "'w product_deps \<Rightarrow> product_scenario \<Rightarrow> ('w, run_error, product_scenario_result) action" where
  "run_after_reset D s =
     sbind (attempts 2 D s 0 no_answers) (\<lambda>(out, a).
     sbind (actor_steps D (proposals_of out) (pn_actor_steps s)) (\<lambda>(verdicts, receipts).
     sbind (readbacks D (pn_readback_expectations s)) (\<lambda>tables.
     sbind (sresult (validate_scenario_run s out (an_asked a) receipts tables verdicts)) (\<lambda>checks.
     sresult (validated valid_product_scenario_result (Some (scenario_result s out a verdicts receipts tables checks)))))))"

definition failed_result :: "product_scenario \<Rightarrow> string \<Rightarrow> run_error + product_scenario_result" where
  "failed_result s reason = rbind (check_of ''reset'' False reason) (\<lambda>c.
     validated valid_product_scenario_result (Some
     \<lparr>pz_scenario_id = pn_scenario_id s, pz_status = ScenarioFailed, pz_checks = [c], pz_asked_slots = [],
      pz_invalid_clarification_count = 0, pz_silent_default_count = 0, pz_proposal_count = 0, pz_approval_count = 0,
      pz_execution_count = 0, pz_audit_event_count = 0, pz_readback_count = 0, pz_successful_business_write_count = 0,
      pz_unauthorized_business_write_count = 0, pz_successful_execution_audit_count = 0,
      pz_sensitivity_comparison_present = False, pz_claims = [], pz_unique_proposal_count = 0,
      pz_unique_business_write_count = 0, pz_duplicate_audit_count = 0\<rparr>))"

text \<open>\<open>model_copy\<close> replaces the status and the checks without validating the copy.\<close>

definition with_cleanup_failure :: "product_scenario_result \<Rightarrow> run_error + product_scenario_result" where
  "with_cleanup_failure r = rbind (check_of ''cleanup'' False ''post_reset_failed'') (\<lambda>c.
     Inr (r\<lparr>pz_status := ScenarioFailed, pz_checks := pz_checks r @ [c]\<rparr>))"

text \<open>
  The reset after a failed run stands in \<open>try ... finally: raise\<close>: when it raises as well, the bare raise
  re-raises the exception of the reset.
\<close>

definition scenario_reset :: "'w product_deps \<Rightarrow> product_scenario \<Rightarrow> ('w, run_error, unit) action" where
  "scenario_reset D s = pv_reset D (pn_scenario_id s) (pn_reset_manifest_revision s)"

definition run_scenario :: "'w product_deps \<Rightarrow> product_scenario \<Rightarrow> ('w, run_error, product_scenario_result) action" where
  "run_scenario D s w = (case scenario_reset D s w of
       (Inl _, w1) \<Rightarrow> (failed_result s ''pre_reset_failed'', w1)
     | (Inr _, w1) \<Rightarrow> (case run_after_reset D s w1 of
           (Inl e, w2) \<Rightarrow> (case scenario_reset D s w2 of (Inl e', w3) \<Rightarrow> (Inl e', w3) | (Inr _, w3) \<Rightarrow> (Inl e, w3))
         | (Inr r, w2) \<Rightarrow> (case scenario_reset D s w2 of
               (Inl _, w3) \<Rightarrow> (with_cleanup_failure r, w3) | (Inr _, w3) \<Rightarrow> (Inr r, w3))))"


subsection \<open>What the checks say\<close>

lemma check_of_passed: "check_of name ok reason = Inr c \<Longrightarrow> sk_passed c = ok"
  by (auto simp: check_of_def validated_def split: if_splits)

lemma check_of_error: "check_of name ok reason = Inl e \<Longrightarrow> e = ValidationError"
  by (auto simp: check_of_def validated_def split: if_splits)

lemma traverse_checks:
  assumes "traverse (\<lambda>(name, ok, reason). check_of name ok reason) xs = Inr checks"
  shows "list_all sk_passed checks \<longleftrightarrow> list_all (\<lambda>(name, ok, reason). ok) xs"
  using assms
proof (induction xs arbitrary: checks)
  case (Cons x xs)
  obtain name ok reason where x: "x = (name, ok, reason)" by (cases x)
  then obtain c cs where "check_of name ok reason = Inr c" "checks = c # cs"
    "traverse (\<lambda>(name, ok, reason). check_of name ok reason) xs = Inr cs"
    using Cons.prems by (auto simp: rbind_Inr_iff)
  then show ?case using Cons.IH x check_of_passed by auto
qed simp

lemma traverse_checks_error:
  assumes "traverse (\<lambda>(name, ok, reason). check_of name ok reason) xs = Inl e"
  shows "e = ValidationError"
  using assms by (induction xs) (auto simp: rbind_Inl_iff dest: check_of_error)

lemma traverse_checks_refused:
  assumes "(name, ok, reason) \<in> set xs" "\<not> reason_code_ok name"
  shows "traverse (\<lambda>(name, ok, reason). check_of name ok reason) xs = Inl ValidationError"
proof (cases "traverse (\<lambda>(name, ok, reason). check_of name ok reason) xs")
  case (Inr checks)
  have "False" using assms Inr
    by (induction xs arbitrary: checks)
      (auto simp: rbind_Inr_iff check_of_def validated_def valid_scenario_check_def split: if_splits)
  then show ?thesis ..
qed (simp add: traverse_checks_error)

lemma list_all_enumerate: "list_all (\<lambda>(i, x). P x) (enumerate n xs) \<longleftrightarrow> list_all P xs"
  by (induction xs arbitrary: n) simp_all

text \<open>What a scenario promises, without the names and the reasons of the checks.\<close>

definition scenario_met ::
    "product_scenario \<Rightarrow> retail_run_outcome \<Rightarrow> clarification_slot list \<Rightarrow> execution_receipt list \<Rightarrow> query_result list
       \<Rightarrow> decision_receipt list \<Rightarrow> bool" where
  "scenario_met s out asked receipts tables verdicts \<longleftrightarrow>
     ended_as (pn_expected_terminal_status s) (ro_status out)
     \<and> set (pn_required_slots s) \<subseteq> set asked \<and> set (pn_forbidden_slots s) \<inter> set asked = {}
     \<and> tally (\<lambda>d. dc_status d = APPROVED) verdicts = tally (\<lambda>t. st_action t = ApproveExecute) (pn_actor_steps s)
     \<and> tally (\<lambda>r. er_audit_ref r \<noteq> []) receipts = sum_list (map au_count (pn_audit_expectations s))
     \<and> set (pn_evidence_ids s) \<subseteq> evidence_available out
     \<and> list_all (\<lambda>e. operation_observed verdicts receipts e = oe_count e) (pn_operation_expectations s)
     \<and> list_all2 readback_matches (pn_readback_expectations s) tables"

lemma validate_scenario_iff:
  assumes "validate_scenario_run s out asked receipts tables verdicts = Inr checks"
    and "length tables = length (pn_readback_expectations s)"
  shows "list_all sk_passed checks \<longleftrightarrow> scenario_met s out asked receipts tables verdicts"
proof -
  have e: "list_all (\<lambda>(name, ok, reason). ok) (map (\<lambda>(i, e, r). (''readback_'' @ show_int (int i), readback_matches e r, m))
       (enumerate 0 xs)) \<longleftrightarrow> list_all (\<lambda>(e, r). readback_matches e r) xs" for xs and m :: string
    using list_all_enumerate [of "\<lambda>(e, r). readback_matches e r" 0 xs] by (simp add: list.pred_map comp_def case_prod_unfold)
  have m: "list_all (\<lambda>(name, ok, reason). ok) (map (\<lambda>e. (f e, g e, c)) xs) \<longleftrightarrow> list_all g xs"
    for f :: "operation_expectation \<Rightarrow> string" and g xs and c :: string
    by (simp add: list.pred_map comp_def)
  have z: "list_all (\<lambda>(e, r). readback_matches e r) (zip (pn_readback_expectations s) tables)
      \<longleftrightarrow> list_all2 readback_matches (pn_readback_expectations s) tables"
    using assms(2) by (auto simp: list_all2_iff list_all_iff)
  show ?thesis
    using traverse_checks [OF assms(1) [unfolded validate_scenario_run_def]]
    by (simp only: list_all_append list.pred_inject prod.case e m z scenario_met_def simp_thms conj_assoc)
qed

lemma readbacks_length: "readbacks D es w = (Inr rs, w') \<Longrightarrow> length rs = length es"
  by (induction es arbitrary: w rs w') (auto simp: sbind_Inr_iff)

subsection \<open>A run between two resets\<close>

lemma run_after_reset_inv:
  assumes "run_after_reset D s w = (Inr r, w')"
  obtains out a w1 verdicts receipts w2 tables checks where
    "attempts 2 D s 0 no_answers w = (Inr (out, a), w1)"
    "actor_steps D (proposals_of out) (pn_actor_steps s) w1 = (Inr (verdicts, receipts), w2)"
    "readbacks D (pn_readback_expectations s) w2 = (Inr tables, w')"
    "validate_scenario_run s out (an_asked a) receipts tables verdicts = Inr checks"
    "r = scenario_result s out a verdicts receipts tables checks"
  using assms by (auto simp: run_after_reset_def sbind_Inr_iff validated_def split: if_splits)

text \<open>
  C17: a scenario passes only when both resets succeeded and everything it promises was observed between them:
  the terminal status, the required and no forbidden clarification, one approval for each approving step, the
  audits, the evidence, the operations and every readback.
\<close>

theorem passed_scenario_sound:
  assumes "run_scenario D s w = (Inr r, w')" "pz_status r = ScenarioPassed"
  shows "\<exists>w1 out a w2 verdicts receipts w3 tables w4.
     scenario_reset D s w = (Inr (), w1) \<and> attempts 2 D s 0 no_answers w1 = (Inr (out, a), w2)
     \<and> actor_steps D (proposals_of out) (pn_actor_steps s) w2 = (Inr (verdicts, receipts), w3)
     \<and> readbacks D (pn_readback_expectations s) w3 = (Inr tables, w4) \<and> scenario_reset D s w4 = (Inr (), w')
     \<and> scenario_met s out (an_asked a) receipts tables verdicts"
proof -
  have "\<exists>w1 w2. scenario_reset D s w = (Inr (), w1) \<and> run_after_reset D s w1 = (Inr r, w2) \<and> scenario_reset D s w2 = (Inr (), w')"
    using assms by (auto simp: run_scenario_def failed_result_def with_cleanup_failure_def rbind_Inr_iff validated_def
        split: prod.splits sum.splits if_splits)
  then obtain w1 w4 where o: "scenario_reset D s w = (Inr (), w1)" "scenario_reset D s w4 = (Inr (), w')"
    and run: "run_after_reset D s w1 = (Inr r, w4)" by blast
  obtain out a w2 verdicts receipts w3 tables checks where
    i: "attempts 2 D s 0 no_answers w1 = (Inr (out, a), w2)"
    "actor_steps D (proposals_of out) (pn_actor_steps s) w2 = (Inr (verdicts, receipts), w3)"
    "readbacks D (pn_readback_expectations s) w3 = (Inr tables, w4)"
    "validate_scenario_run s out (an_asked a) receipts tables verdicts = Inr checks"
    "r = scenario_result s out a verdicts receipts tables checks"
    using run_after_reset_inv [OF run] .
  have "list_all sk_passed checks" using assms(2) i(5) by (simp add: scenario_result_def split: if_splits)
  then have "scenario_met s out (an_asked a) receipts tables verdicts"
    using validate_scenario_iff [OF i(4) readbacks_length [OF i(3)]] by simp
  then show ?thesis using o i(1-3) by blast
qed

text \<open>Whatever the run returns or raises, the last call of the driver is a reset.\<close>

theorem scenario_ends_with_reset:
  "\<exists>w0. snd (run_scenario D s w) = snd (scenario_reset D s w0)"
  by (auto simp: run_scenario_def split: prod.splits sum.splits) (metis snd_conv)+

text \<open>A reset that fails after a failed run hides the exception of the run.\<close>

theorem cleanup_hides_failure:
  assumes "scenario_reset D s w = (Inr u, w1)" "run_after_reset D s w1 = (Inl e, w2)" "scenario_reset D s w2 = (Inl e', w3)"
  shows "run_scenario D s w = (Inl e', w3)"
  using assms by (simp add: run_scenario_def)

subsection \<open>Clarifications\<close>

lemma answer_items_counts:
  assumes "answer_items D s items a = Inr a'"
  shows "an_asked a' = an_asked a @ map ci_slot items
    \<and> an_invalid a' = an_invalid a + tally (\<lambda>x. scripted_answer s x = None) (map ci_slot items)
    \<and> length (an_confirmed a') = length (an_confirmed a) + length items"
  using assms by (induction items arbitrary: a) (auto simp: rbind_Inr_iff tally_def)

declare attempts.simps [simp del]

lemma attempts_counts:
  assumes "attempts k D s n a w = (Inr (out, a'), w')"
    and "an_invalid a = tally (\<lambda>x. scripted_answer s x = None) (an_asked a)"
    and "\<And>q v o' v' c. pv_run D q v = (Inr o', v') \<Longrightarrow> ro_terminal o' = Some (Clarification c) \<Longrightarrow> length (cl_items c) \<le> 8"
  shows "an_invalid a' = tally (\<lambda>x. scripted_answer s x = None) (an_asked a')
    \<and> length (an_asked a') \<le> length (an_asked a) + 8 * Suc k"
  using assms(1,2)
proof (induction k arbitrary: n a w)
  case 0
  then obtain q o' v where q: "scenario_request D s n (an_confirmed a) = Inr q" "pv_run D q w = (Inr o', v)"
    by (subst (asm) attempts.simps) (auto simp: sbind_Inr_iff)
  then show ?case using 0 assms(3) [OF q(2)]
    by (subst (asm) attempts.simps)
      (auto simp: tally_def dest!: answer_items_counts split: retail_status.splits option.splits retail_terminal.splits sum.splits
        simp: sbind_Inr_iff)
next
  case (Suc k)
  then obtain q o' v where q: "scenario_request D s n (an_confirmed a) = Inr q" "pv_run D q w = (Inr o', v)"
    by (subst (asm) attempts.simps) (auto simp: sbind_Inr_iff)
  show ?case
  proof (cases "ro_status o' = NeedsInput \<and> (\<exists>c. ro_terminal o' = Some (Clarification c))")
    case True
    then obtain c a1 where c: "ro_terminal o' = Some (Clarification c)" "answer_items D s (cl_items c) a = Inr a1"
      and next_run: "attempts k D s (n + 1) a1 v = (Inr (out, a'), w')"
      using Suc.prems(1) q by (subst (asm) attempts.simps) (auto simp: sbind_Inr_iff)
    have "an_invalid a1 = tally (\<lambda>x. scripted_answer s x = None) (an_asked a1)"
      using answer_items_counts [OF c(2)] Suc.prems(2) by (simp add: tally_def)
    from Suc.IH [OF next_run this] show ?thesis
      using answer_items_counts [OF c(2)] assms(3) [OF q(2) c(1)] by auto
  next
    case False
    then have "a' = a" using Suc.prems(1) q
      by (subst (asm) attempts.simps) (auto split: retail_status.splits option.splits retail_terminal.splits)
    then show ?thesis using Suc.prems(2) by simp
  qed
qed

text \<open>
  Three attempts at most: a result counts at most 24 questions, and its invalid clarifications are those of them
  the scenario has no answer for.
\<close>

theorem clarifications_bounded:
  assumes "run_after_reset D s w = (Inr r, w')"
    and "\<And>q v o' v' c. pv_run D q v = (Inr o', v') \<Longrightarrow> ro_terminal o' = Some (Clarification c) \<Longrightarrow> length (cl_items c) \<le> 8"
  shows "length (pz_asked_slots r) \<le> 24
    \<and> pz_invalid_clarification_count r = tally (\<lambda>x. scripted_answer s x = None) (pz_asked_slots r)"
proof -
  obtain out a w1 verdicts receipts tables checks where
    i: "attempts 2 D s 0 no_answers w = (Inr (out, a), w1)" "r = scenario_result s out a verdicts receipts tables checks"
    using run_after_reset_inv [OF assms(1)] .
  have "an_invalid no_answers = tally (\<lambda>x. scripted_answer s x = None) (an_asked no_answers)"
    by (simp add: no_answers_def tally_def)
  from attempts_counts [OF i(1) this assms(2)] show ?thesis using i(2) by (simp add: scenario_result_def no_answers_def)
qed

subsection \<open>What the driver does not look at\<close>

text \<open>
  The gold tables, columns and values, both kinds of assertions, the clocks, the initial state of the
  operation tables, the failure script and the tolerance of a scenario are validated and never used: two
  scenarios that agree on the rest have the same run.
\<close>

definition without_gold :: "product_scenario \<Rightarrow> product_scenario" where
  "without_gold s = s\<lparr>pn_visibility := DevelopmentSet, pn_analyst_actor_ref := [], pn_approver_actor_ref := [],
     pn_clock_steps := [], pn_ops_initial_state := [], pn_gold_tables := [], pn_gold_columns := [], pn_gold_values := [],
     pn_reference_query_assertions := [], pn_database_assertions := [], pn_allowed_failure_script := [],
     pn_decimal_tolerance := dec_zero\<rparr>"

lemma without_gold_fields [simp]:
  "pn_scenario_id (without_gold s) = pn_scenario_id s" "pn_fixture_revision (without_gold s) = pn_fixture_revision s"
  "pn_initial_question (without_gold s) = pn_initial_question s"
  "pn_scripted_clarifications (without_gold s) = pn_scripted_clarifications s"
  "pn_actor_steps (without_gold s) = pn_actor_steps s" "pn_required_slots (without_gold s) = pn_required_slots s"
  "pn_forbidden_slots (without_gold s) = pn_forbidden_slots s" "pn_evidence_ids (without_gold s) = pn_evidence_ids s"
  "pn_operation_expectations (without_gold s) = pn_operation_expectations s"
  "pn_readback_expectations (without_gold s) = pn_readback_expectations s"
  "pn_audit_expectations (without_gold s) = pn_audit_expectations s"
  "pn_expected_terminal_status (without_gold s) = pn_expected_terminal_status s"
  "pn_reset_manifest_revision (without_gold s) = pn_reset_manifest_revision s"
  by (simp_all add: without_gold_def)

lemma scenario_request_without_gold [simp]:
  "scenario_request D (without_gold s) = scenario_request D s"
  by (intro ext) (simp add: scenario_request_def scenario_scope_def)

lemma answer_items_without_gold [simp]: "answer_items D (without_gold s) items a = answer_items D s items a"
  by (induction items arbitrary: a) (simp_all add: scripted_answer_def)

lemma attempts_without_gold: "attempts k D (without_gold s) n a = attempts k D s n a"
proof (induction k arbitrary: n a)
  case 0
  show ?case
    by (subst attempts.simps [of _ _ "without_gold s"], subst attempts.simps [of _ _ s])
      (simp cong del: retail_status.case_cong_weak option.case_cong_weak retail_terminal.case_cong_weak nat.case_cong_weak prod.case_cong_weak)
next
  case (Suc k)
  show ?case
    by (subst attempts.simps [of _ _ "without_gold s"], subst attempts.simps [of _ _ s])
      (simp add: Suc.IH cong del: retail_status.case_cong_weak option.case_cong_weak retail_terminal.case_cong_weak nat.case_cong_weak prod.case_cong_weak)
qed

theorem scenario_gold_unused: "run_scenario D (without_gold s) w = run_scenario D s w"
proof -
  have "run_after_reset D (without_gold s) = run_after_reset D s"
    by (simp add: run_after_reset_def attempts_without_gold validate_scenario_run_def scenario_result_def)
  moreover have "scenario_reset D (without_gold s) = scenario_reset D s" by (simp add: scenario_reset_def)
  moreover have "failed_result (without_gold s) r = failed_result s r" for r by (simp add: failed_result_def)
  ultimately show ?thesis by (simp add: run_scenario_def cong del: sum.case_cong_weak prod.case_cong_weak)
qed

text \<open>
  A valid expectation on a command type of more than 118 characters gives a check whose name is too long: the
  validation of the run raises instead of counting.
\<close>

theorem long_command_type_raises:
  assumes "e \<in> set (pn_operation_expectations s)" "118 < length (oe_command_type e)"
  shows "validate_scenario_run s out asked receipts tables verdicts = Inl ValidationError"
proof -
  have "\<not> reason_code_ok (''operation_'' @ oe_command_type e)" using assms(2) by (simp add: reason_code_ok_def len_ok_def)
  then show ?thesis unfolding validate_scenario_run_def
    by (rule traverse_checks_refused [rotated]) (use assms(1) in auto)
qed

subsection \<open>The driver and the retail graph\<close>

lemma stopped_status: "stopped_day4 q reason m t h retry = Inr out \<Longrightarrow> ro_status out = RunStopped"
  by (auto simp: stopped_day4_def day4_outcome_def validated_def split: if_splits)

lemma interrupt_status:
  "interrupt_day4 R q st b d = (Inr (Some out), d') \<Longrightarrow> ro_status out = RunStopped"
  by (auto simp: interrupt_day4_def sbind_Inr_iff dest: stopped_status split: if_splits sum.splits)

lemma finish_status:
  "finish_day4 R q desired d = (Inr out, d') \<Longrightarrow> out = desired \<or> ro_status out = RunStopped"
  by (auto simp: finish_day4_def sbind_Inr_iff dest: stopped_status split: prod.splits sum.splits)

lemma cache_and_finish_status:
  "cache_and_finish R q desired st d = (Inr out, d') \<Longrightarrow> out = desired \<or> ro_status out = RunStopped"
  by (auto simp: cache_and_finish_def Let_def sbind_Inr_iff split: option.splits dest: interrupt_status finish_status)

lemma stop_with_status: "stop_with R q reason m t st d = (Inr out, d') \<Longrightarrow> ro_status out = RunStopped"
  by (auto simp: stop_with_def sbind_Inr_iff dest!: cache_and_finish_status stopped_status)

lemma decided_outcome:
  "decide_day4 R q d = (Inr (Inl out), d') \<Longrightarrow> ro_status out = NeedsInput \<or> ro_status out = RunStopped"
  by (auto simp: decide_day4_def act_on_decision_def sbind_Inr_iff day4_outcome_def validated_def
      split: if_splits option.splits dest!: cache_and_finish_status)

lemma decided_plan:
  "decide_day4 R q d = (Inr (Inr st), d') \<Longrightarrow> \<exists>plan h. st = planned_state q plan h \<and> valid_investigation_plan plan"
  by (auto simp: decide_day4_def act_on_decision_def sbind_Inr_iff validated_def split: if_splits option.splits)

text \<open>The requests of the driver carry no evidence, and the reasoner's request needs some.\<close>

lemma scenario_request_evidence: "scenario_request D s n confirmed = Inr q \<Longrightarrow> rq_evidence q = []"
  by (auto simp: scenario_request_def rbind_Inr_iff validated_def split: if_splits)

lemma planned_turn_raises:
  assumes "rq_evidence q = []" "valid_investigation_plan plan" "\<not> lp_max_model_calls (rd_policy R) \<le> 1"
  shows "plan_loop R q gen query (planned_state q plan h) d = (Inl ValidationError, d)"
proof -
  let ?st = "planned_state q plan h"
  obtain step steps where steps: "ip_steps plan = step # steps"
    using assms(2) by (cases "ip_steps plan") (auto simp: valid_investigation_plan_def len_ok_def)
  then have found: "find_step ?st (hd (gs_pending_steps ?st)) = Some step" "gs_pending_steps ?st \<noteq> []"
    by (simp_all add: find_step_def planned_state_def)
  have node: "gs_current_node ?st = PreparePlanStep" "gs_model_call_count ?st = 1" "gs_latest_error ?st = None"
    by (simp_all add: planned_state_def initial_state_def)
  have "\<not> valid_sql_reasoning_request (reasoning_request q step ?st)"
    using assms(1) by (simp add: valid_sql_reasoning_request_def reasoning_request_def len_ok_def)
  then have "candidate_turn R q gen query step ?st d = (Inl ValidationError, d)"
    using assms(3) node by (simp add: candidate_turn_def)
  then have "plan_turn R q gen query ?st d = (Inl ValidationError, d)"
    using found node by (simp add: plan_turn_def)
  then show ?thesis using found(2) by (subst plan_loop.simps) simp
qed

lemma planned_loop_exhausted:
  assumes "valid_investigation_plan plan" "lp_max_model_calls (rd_policy R) \<le> 1"
    and "plan_loop R q gen query (planned_state q plan h) d = (Inr x, d')"
  shows "\<exists>out. x = Inl out \<and> ro_status out = RunStopped"
proof -
  let ?st = "planned_state q plan h"
  obtain step steps where steps: "ip_steps plan = step # steps"
    using assms(1) by (cases "ip_steps plan") (auto simp: valid_investigation_plan_def len_ok_def)
  then have found: "find_step ?st (hd (gs_pending_steps ?st)) = Some step" "gs_pending_steps ?st \<noteq> []"
    by (simp_all add: find_step_def planned_state_def)
  have node: "gs_current_node ?st = PreparePlanStep" "gs_model_call_count ?st = 1"
    by (simp_all add: planned_state_def initial_state_def)
  have "plan_turn R q gen query ?st d
      = sbind (stop_with R q ''model_call_limit'' (gs_model_call_count ?st) (gs_tool_call_count ?st) ?st) (\<lambda>out. sreturn (Inl out)) d"
    using found node assms(2) by (simp add: plan_turn_def candidate_turn_def)
  then show ?thesis using assms(3) found(2)
    by (subst (asm) plan_loop.simps) (auto simp: sbind_def dest: stop_with_status split: prod.splits sum.splits)
qed

text \<open>
  C18: the requests of the driver carry no evidence, and the graph reasons about a plan step only with evidence. So a
  graph run of a driver's request that starts without a checkpoint never completes: it asks, stops or raises. Once it
  has decided on a plan, with the SQL reasoner and the query engine there and a second model call in the budget, it
  raises a ValidationError.
\<close>

theorem scenario_steps_raise:
  assumes "scenario_request D s n confirmed = Inr q" "dw_checkpoints d (checkpoint_key R q) = None"
    and "run_day4 R q d = (r, d')"
  shows "(\<forall>out. r = Inr out \<longrightarrow> ro_status out \<noteq> RunCompleted)
    \<and> (\<forall>st d1. decide_day4 R q d = (Inr (Inr st), d1) \<and> rd_generate R \<noteq> None \<and> rd_query R \<noteq> None
          \<and> 1 < lp_max_model_calls (rd_policy R) \<longrightarrow> r = Inl ValidationError)"
proof -
  note ev = scenario_request_evidence [OF assms(1)]
  obtain a d1 where dc: "decide_day4 R q d = (a, d1)" by force
  show ?thesis
  proof (cases "\<exists>st. a = Inr (Inr st)")
    case False
    then have "(\<exists>e. a = Inl e) \<or> (\<exists>out. a = Inr (Inl out))" by (metis sum.exhaust)
    then show ?thesis using assms(2,3) dc decided_outcome [of R q d _ d1] by (auto simp: run_day4_def sbind_def)
  next
    case True
    then obtain plan h where a: "a = Inr (Inr (planned_state q plan h))" and plan: "valid_investigation_plan plan"
      using decided_plan dc by blast
    obtain d2 where run: "work_day4 R q (planned_state q plan h) d2 = (r, d')"
      using assms(2,3) dc a by (auto simp: run_day4_def sbind_def save_day4_state_def)
    have has_plan: "gs_plan (planned_state q plan h) = Some plan" by (simp add: planned_state_def)
    show ?thesis
    proof (cases "rd_generate R = None \<or> rd_query R = None")
      case True
      then have "stop_with R q ''product_query_capability_unavailable'' (gs_model_call_count (planned_state q plan h))
          (gs_tool_call_count (planned_state q plan h)) (planned_state q plan h) d2 = (r, d')"
        using run by (auto simp: work_day4_def split: option.splits)
      then show ?thesis using True stop_with_status by (cases r) fastforce+
    next
      case False
      then obtain gen query where cap: "rd_generate R = Some gen" "rd_query R = Some query" by auto
      obtain b d3 where loop: "plan_loop R q gen query (planned_state q plan h) d2 = (b, d3)" by force
      show ?thesis
      proof (cases "lp_max_model_calls (rd_policy R) \<le> 1")
        case True
        then have "(\<exists>e. b = Inl e) \<or> (\<exists>out. b = Inr (Inl out) \<and> ro_status out = RunStopped)"
          using planned_loop_exhausted [OF plan True] loop by (cases b) auto
        then show ?thesis using run cap has_plan loop True by (auto simp: work_day4_def sbind_def)
      next
        case False
        then have "b = Inl ValidationError" using planned_turn_raises [OF ev plan False] loop by simp
        then show ?thesis using run cap has_plan loop by (auto simp: work_day4_def sbind_def)
      qed
    qed
  qed
qed

subsection \<open>A concrete scenario\<close>

definition sample_scenario :: product_scenario where
  "sample_scenario =
     \<lparr>pn_scenario_id = ''late-orders-v1'', pn_fixture_revision = ''day4-development-v1'', pn_visibility = DevelopmentSet,
      pn_initial_question = ''q'', pn_scripted_clarifications = [\<lparr>sl_slot = TimeRange, sl_response = ''2018''\<rparr>],
      pn_analyst_actor_ref = ''analyst'', pn_approver_actor_ref = ''approver'',
      pn_actor_steps = [\<lparr>st_action = ApproveExecute, st_actor_ref = ''approver'', st_proposal_index = 0\<rparr>],
      pn_clock_steps = [Aware 0 0], pn_ops_initial_state = [], pn_reset_manifest_revision = ''scenario-reset-v1'',
      pn_gold_tables = [], pn_gold_columns = [], pn_gold_values = [],
      pn_reference_query_assertions = [\<lparr>re_sql = ''q'', re_expected_columns = [''n''], re_minimum_rows = 1\<rparr>],
      pn_database_assertions = [], pn_required_slots = [TimeRange], pn_forbidden_slots = [BusinessValue],
      pn_evidence_ids = [''query:base''],
      pn_operation_expectations = [\<lparr>oe_command_type = ''create_task'', oe_terminal_status = ExpectSucceeded, oe_count = 1\<rparr>],
      pn_readback_expectations = [\<lparr>re_sql = ''q'', re_expected_columns = [''n''], re_minimum_rows = 1\<rparr>],
      pn_audit_expectations = [\<lparr>au_event_type = ''operation_executed'', au_count = 1\<rparr>],
      pn_allowed_failure_script = [], pn_expected_terminal_status = EndCompleted, pn_decimal_tolerance = dec_zero\<rparr>"

lemma scenario_id_okI: "ident_ok is_lower scenario_char 2 127 p \<Longrightarrow> numbered ''-v'' t \<Longrightarrow> scenario_id_ok (p @ t)"
  unfolding scenario_id_ok_def list_ex_iff by (rule bexI [of _ "length p"]) simp_all

lemma sample_scenario_valid: "valid_product_scenario sample_scenario"
proof -
  have "ident_ok is_lower scenario_char 2 127 ''late-orders''" "numbered ''-v'' ''-v1''" by code_simp+
  from scenario_id_okI [OF this] have "scenario_id_ok ''late-orders-v1''" by simp
  moreover have "numbered ''day4-development-v'' ''day4-development-v1''" "numbered ''scenario-reset-v'' ''scenario-reset-v1''"
    by code_simp+
  moreover have "reason_code_ok ''create_task''" by code_simp
  moreover have "dec_finite dec_zero \<and> dec_le dec_zero dec_zero" by code_simp
  ultimately show ?thesis
    by (simp add: sample_scenario_def valid_product_scenario_def valid_scenario_fields_def valid_scripted_clarification_def
        valid_scenario_actor_step_def valid_operation_expectation_def valid_readback_expectation_def valid_audit_expectation_def
        len_ok_def is_aware_def)
qed

definition sample_asking :: retail_run_outcome where
  "sample_asking = sample_outcome\<lparr>ro_status := NeedsInput, ro_terminal := Some (Clarification
     \<lparr>cl_conversation_id = ''c'', cl_request_id = 5,
      cl_items = [\<lparr>ci_slot = TimeRange, ci_question = ''when'', ci_allowed_values = []\<rparr>]\<rparr>)\<rparr>"

definition sample_proposing :: retail_run_outcome where
  "sample_proposing = sample_outcome\<lparr>ro_terminal := Some (Report
     (sample_investigation_report\<lparr>rp_proposal_refs := [\<lparr>proposal_id = 7, pr_version = 1\<rparr>]\<rparr>))\<rparr>"

definition sample_granted :: decision_receipt where
  "sample_granted = \<lparr>dc_proposal_ref = \<lparr>proposal_id = 7, pr_version = 1\<rparr>, dc_status = APPROVED, dc_approver_id = 2,
     dc_decided_at = 0, dc_reason = None, dc_grant = Some
       \<lparr>eg_proposal_id = 7, eg_proposal_version = 1, eg_payload_sha256 = sample_hex, eg_requester_id = 1,
        eg_approver_id = 2, eg_target_versions = [(''task'', 1)], eg_expires_at = 1, eg_nonce = ''nonce'', eg_key_version = 1, eg_signature = sample_hex\<rparr>\<rparr>"

definition sample_executed :: execution_receipt where
  "sample_executed = \<lparr>er_execution_id = 9, er_proposal_ref = \<lparr>proposal_id = 7, pr_version = 1\<rparr>, er_status = SUCCEEDED,
     er_command_type = ''create_task'', er_before_version = 0, er_after_version = 1, er_committed_at = 0,
     er_public_summary = ''s'', er_audit_ref = ''audit''\<rparr>"

text \<open>The world counts the calls: the graph asks at its first call, the second of the run, and reports at the next.\<close>

definition sample_driver :: "nat product_deps" where
  "sample_driver =
     \<lparr>pv_run = (\<lambda>q n. (Inr (if n = 1 then sample_asking else sample_proposing), n + 1)),
      pv_decide = (\<lambda>q n. (Inr sample_granted, n + 1)), pv_execute = (\<lambda>q n. (Inr sample_executed, n + 1)),
      pv_query = (\<lambda>q n. (Inr sample_query_result, n + 1)),
      pv_resolve = (\<lambda>r. Inr \<lparr>actor_id = 2, role = APPROVER, authentication_ref = r, authenticated_at = 0\<rparr>),
      pv_reset = (\<lambda>i m n. (Inr (), n + 1)), pv_config_hash = sample_hex, pv_sha = (\<lambda>_. sample_hex), pv_uuid5 = (\<lambda>_. 1),
      pv_no_information = ''none''\<rparr>"

lemma sample_hex64: "hex64 sample_hex"
  by code_simp

lemma sample_driver_datum:
  "1 \<le> length content \<Longrightarrow> length content \<le> 1000 \<Longrightarrow> length source \<le> 100
     \<Longrightarrow> \<exists>d. scenario_datum sample_driver source content = Inr d"
  using sample_hex64 by (simp add: scenario_datum_def validated_def valid_context_datum_def sample_driver_def len_ok_def)

lemma scenario_datum_valid: "scenario_datum D source content = Inr d \<Longrightarrow> valid_context_datum (pv_sha D) d"
  by (auto simp: scenario_datum_def validated_def split: if_splits)

lemma sample_scenario_request:
  assumes "list_all (valid_context_datum (pv_sha sample_driver)) ds"
  shows "\<exists>q. scenario_request sample_driver sample_scenario n ds = Inr q"
proof -
  have scope: "valid_run_scope (scenario_scope sample_driver sample_scenario)"
    using sample_hex64 by (simp add: valid_run_scope_def scenario_scope_def sample_scenario_def sample_driver_def len_ok_def)
  have track: "rs_track (scenario_scope sample_driver sample_scenario) = ''retail''"
    "rs_mode (scenario_scope sample_driver sample_scenario) = ''retail''" by (simp_all add: scenario_scope_def)
  obtain d where d: "scenario_datum sample_driver ''initial_question'' (pn_initial_question sample_scenario) = Inr d"
    using sample_driver_datum [of "pn_initial_question sample_scenario" "''initial_question''"] by (auto simp: sample_scenario_def)
  show ?thesis
    using scope track d scenario_datum_valid [OF d] assms
    by (simp add: scenario_request_def validated_def valid_retail_run_request_def valid_request_for_def opt_all_def)
qed

lemma sample_attempts:
  "\<exists>a. attempts 2 sample_driver sample_scenario 0 no_answers 1 = (Inr (sample_proposing, a), 3) \<and> an_asked a = [TimeRange]
     \<and> an_invalid a = 0"
proof -
  obtain q where q: "scenario_request sample_driver sample_scenario 0 [] = Inr q"
    using sample_scenario_request [of "[]" 0] by auto
  have answer: "scripted_answer sample_scenario TimeRange = Some ''2018''"
    by (simp add: scripted_answer_def sample_scenario_def)
  obtain d where d: "scenario_datum sample_driver ''time_range'' ''2018'' = Inr d"
    using sample_driver_datum [of "''2018''" "''time_range''"] by auto
  obtain q' where q': "scenario_request sample_driver sample_scenario 1 [d] = Inr q'"
    using sample_scenario_request [of "[d]" 1] scenario_datum_valid [OF d] by auto
  have asks: "pv_run sample_driver q 1 = (Inr sample_asking, 2)" and reports: "pv_run sample_driver q' 2 = (Inr sample_proposing, 3)"
    by (simp_all add: sample_driver_def)
  have ends: "attempts 1 sample_driver sample_scenario 1 \<lparr>an_asked = [TimeRange], an_invalid = 0, an_confirmed = [d]\<rparr> 2
      = (Inr (sample_proposing, \<lparr>an_asked = [TimeRange], an_invalid = 0, an_confirmed = [d]\<rparr>), 3)"
    by (subst attempts.simps) (use q' reports in \<open>simp add: sbind_def sample_proposing_def sample_outcome_def\<close>)
  have "attempts 2 sample_driver sample_scenario 0 no_answers 1
      = attempts 1 sample_driver sample_scenario 1 \<lparr>an_asked = [TimeRange], an_invalid = 0, an_confirmed = [d]\<rparr> 2"
    by (subst attempts.simps)
      (use q asks answer d in \<open>simp add: sbind_def sample_asking_def no_answers_def numeral_2_eq_2\<close>)
  with ends show ?thesis by simp
qed

lemma sample_actor_steps:
  "actor_steps sample_driver (proposals_of sample_proposing) (pn_actor_steps sample_scenario) 3 = (Inr ([sample_granted], [sample_executed]), 5)"
proof -
  have "valid_execution_grant (the (dc_grant sample_granted))" by code_simp
  then show ?thesis
    by (simp add: sample_scenario_def sample_driver_def proposals_of_def the_report_def sample_proposing_def sbind_def actor_step_def
        validated_def valid_decision_request_def valid_actor_context_def valid_proposal_ref_def optional_reason_ok_def
        valid_execute_request_def len_ok_def sample_granted_def)
qed

lemma sample_readbacks:
  "readbacks sample_driver (pn_readback_expectations sample_scenario) 5 = (Inr [sample_query_result], 6)"
  by (simp add: sample_scenario_def sample_driver_def sbind_def validated_def valid_query_request_def len_ok_def)

lemma sample_checks:
  "\<exists>cs. validate_scenario_run sample_scenario sample_proposing [TimeRange] [sample_executed] [sample_query_result] [sample_granted] = Inr cs
     \<and> list_all sk_passed cs \<and> list_all valid_scenario_check cs"
proof -
  have "case validate_scenario_run sample_scenario sample_proposing [TimeRange] [sample_executed] [sample_query_result] [sample_granted]
     of Inr cs \<Rightarrow> list_all sk_passed cs \<and> list_all valid_scenario_check cs | Inl _ \<Rightarrow> False" by code_simp
  then show ?thesis by (auto split: sum.splits)
qed

lemma sample_scenario_run:
  "\<exists>r. run_scenario sample_driver sample_scenario 0 = (Inr r, 7) \<and> pz_status r = ScenarioPassed"
proof -
  obtain a where a: "attempts 2 sample_driver sample_scenario 0 no_answers 1 = (Inr (sample_proposing, a), 3)" "an_asked a = [TimeRange]"
      "an_invalid a = 0" using sample_attempts by blast
  obtain cs where cs: "validate_scenario_run sample_scenario sample_proposing [TimeRange] [sample_executed] [sample_query_result]
      [sample_granted] = Inr cs" "list_all sk_passed cs" "list_all valid_scenario_check cs" using sample_checks by blast
  let ?r = "scenario_result sample_scenario sample_proposing a [sample_granted] [sample_executed] [sample_query_result] cs"
  have "valid_product_scenario_result ?r"
    using cs a(3) by (simp add: valid_product_scenario_result_def scenario_result_def tally_def)
  then have "run_after_reset sample_driver sample_scenario 1 = (Inr ?r, 6)"
    using a(1,2) sample_actor_steps sample_readbacks cs by (simp add: run_after_reset_def validated_def)
  moreover have "scenario_reset sample_driver sample_scenario n = (Inr (), n + 1)" for n
    by (simp add: scenario_reset_def sample_driver_def)
  ultimately have "run_scenario sample_driver sample_scenario 0 = (Inr ?r, 7)" by (simp add: run_scenario_def)
  moreover have "pz_status ?r = ScenarioPassed" using cs(2) by (simp add: scenario_result_def)
  ultimately show ?thesis by blast
qed

theorem passed_scenario_sound_witness:
  "\<exists>n out (a :: answers) verdicts receipts tables. run_scenario sample_driver sample_scenario 0 = (Inr n, 7)
     \<and> scenario_met sample_scenario out (an_asked a) receipts tables verdicts"
proof -
  obtain r where r: "run_scenario sample_driver sample_scenario 0 = (Inr r, 7)" "pz_status r = ScenarioPassed"
    using sample_scenario_run by blast
  from passed_scenario_sound [OF this] obtain out and a :: answers and verdicts receipts tables where
    "scenario_met sample_scenario out (an_asked a) receipts tables verdicts" by blast
  then show ?thesis using r(1) by blast
qed

subsection \<open>A driver request that gets a plan\<close>

text \<open>The profile of the sample builder with the plan tool at the first step, and a model that submits a plan.\<close>

definition sample_planner :: run_profile where
  "sample_planner = sample_profile\<lparr>pf_inference_rules := map (\<lambda>s. \<lparr>ir_step = s,
     ir_inference = Thinking \<lparr>th_effort = EffortHigh, th_max_output_tokens = 100\<rparr>,
     ir_tool_names = (if s = RetailDecide then [''submit_investigation_plan''] else [])\<rparr>) (steps_of RetailKey)\<rparr>"

definition sample_plan_tool :: tool_definition where
  "sample_plan_tool = \<lparr>td_name = ''submit_investigation_plan'', td_description = ''d'', td_parameters_json = ''{}'',
     td_catalog_revision = ''t'', td_capability_sha256 = hex_digest_sample\<rparr>"

definition sample_planner_builder :: context_builder where
  "sample_planner_builder = sample_builder\<lparr>bu_registry :=
     sample_registry\<lparr>rg_profiles := [sample_planner], rg_tools := (\<lambda>_. [sample_plan_tool])\<rparr>\<rparr>"

definition sample_plan_response :: model_response where
  "sample_plan_response = sample_response\<lparr>
     ms_output := ToolCallOutput [\<lparr>tc_call_id = ''c1'', tc_name = ''submit_investigation_plan'', tc_arguments_json = ''{}''\<rparr>],
     ms_provider_turn_ref := sample_turn_ref [''c1'']\<lparr>tf_attempt_id := 1\<rparr>\<rparr>"

definition sample_planner_deps :: "unit retail_deps" where
  "sample_planner_deps = sample_retail_deps\<lparr>rd_builder := sample_planner_builder, rd_profile := sample_planner,
     rd_complete := (\<lambda>_. sreturn sample_plan_response), rd_decode_plan := (\<lambda>_. Some sample_plan),
     rd_generate := Some (\<lambda>_. sraise (OtherFailure ''offline'')), rd_query := Some (\<lambda>_. sraise (EscapedError ''offline''))\<rparr>"

definition sample_driver_request :: retail_run_request where
  "sample_driver_request =
     \<lparr>rq_run_scope = scenario_scope sample_driver sample_scenario, rq_attempt_id = 1,
      rq_current_input = \<lparr>dt_kind = KUserInput, dt_namespace = NUserInput, dt_source_ref = ''scenario:initial_question'',
        dt_revision = None, dt_content = ''q'', dt_digest = sample_hex\<rparr>,
      rq_confirmed_facts = [], rq_evidence = [], rq_latest_error = None\<rparr>"

lemma sample_driver_requested: "scenario_request sample_driver sample_scenario 0 [] = Inr sample_driver_request"
proof -
  obtain q where q: "scenario_request sample_driver sample_scenario 0 [] = Inr q"
    using sample_scenario_request [of "[]" 0] by auto
  then have "q = sample_driver_request"
    by (auto simp: scenario_request_def rbind_Inr_iff validated_def scenario_datum_def sample_driver_request_def
        sample_driver_def sample_scenario_def split: if_splits)
  with q show ?thesis by simp
qed

definition sample_decide_context :: context_request where
  "sample_decide_context = day4_context sample_planner_deps sample_driver_request RetailDecide [] 0"

lemma sample_decide_fields:
  "cr_history sample_decide_context = []" "cr_evidence sample_decide_context = []" "cr_confirmed_facts sample_decide_context = []"
  "cr_latest_error sample_decide_context = None" "rs_config_hash (cr_run_scope sample_decide_context) = hex_digest_sample"
  "cr_step sample_decide_context = RetailDecide" "cr_profile sample_decide_context = sample_planner"
  "cr_current_input sample_decide_context = rq_current_input sample_driver_request" "cr_sequence sample_decide_context = 0"
  "rs_track (cr_run_scope sample_decide_context) = ''retail''" "rs_mode (cr_run_scope sample_decide_context) = ''retail''"
  by (simp_all add: sample_decide_context_def day4_context_def sample_planner_deps_def sample_driver_request_def scenario_scope_def
      sample_driver_def sample_hex_def hex_digest_sample_def)

lemma sample_planner_parts:
  "rule_for sample_planner RetailDecide = Some \<lparr>ir_step = RetailDecide,
     ir_inference = Thinking \<lparr>th_effort = EffortHigh, th_max_output_tokens = 100\<rparr>, ir_tool_names = [''submit_investigation_plan'']\<rparr>"
  "pf_input_token_limit sample_planner = 10" "pf_minimum_recent_groups sample_planner = 1" "pf_key sample_planner = RetailKey"
  "pf_estimator_revision sample_planner = ''e''" "map ir_step (pf_inference_rules sample_planner) = steps_of RetailKey"
  "pf_allowed_namespaces sample_planner = namespaces_of RetailKey" "len_ok 1 128 (pf_capability_revision sample_planner)"
  by (simp_all add: rule_for_def sample_planner_def sample_profile_def len_ok_def)

lemma sample_planner_builder_parts:
  "bu_externals sample_planner_builder = sample_gateway_externals" "bu_requested_model sample_planner_builder = ''m''"
  "bu_estimator_revision sample_planner_builder = ''e''"
  "bu_estimate sample_planner_builder r = Some (6 * int (length (mq_history r)), ''e'')"
  "profile_of (bu_registry sample_planner_builder) RetailKey = Some sample_planner"
  "policy_for (bu_registry sample_planner_builder) RetailKey = Some (''a'', ''b'')"
  "tools_for_step (bu_registry sample_planner_builder) RetailKey RetailDecide = Some [sample_plan_tool]"
  by (simp_all add: sample_planner_builder_def sample_builder_def profile_of_def policy_for_def tools_for_step_def rule_for_def
      sample_registry_def sample_plan_tool_def sample_planner_def sample_profile_def)

lemma sample_planner_config: "compute_config_hash sample_gateway_externals sample_planner m = Some hex_digest_sample"
proof -
  have "finite_floats (VObj [(''model'', VStr m),
      (''inference_rules'', VList (map (rule_jval sample_gateway_externals) (pf_inference_rules sample_planner))),
      (''budgets'', VObj [(''input_token_limit'', VInt (pf_input_token_limit sample_planner)),
         (''minimum_recent_groups'', VInt (int (pf_minimum_recent_groups sample_planner))),
         (''tool_result_max_bytes'', VInt (pf_tool_result_max_bytes sample_planner))]),
      (''capability_revision'', VStr (pf_capability_revision sample_planner)),
      (''estimator_revision'', VStr (pf_estimator_revision sample_planner)),
      (''retry_revision'', VStr ''deepseek-retry-v1''),
      (''canonicalization_revision'', VStr (pf_canonicalization_revision sample_planner))])"
    by (simp add: sample_planner_def sample_profile_def rule_jval_def inference_jval_def)
  then show ?thesis by (simp only: compute_config_hash_def canonical_text_def if_True option.map hex_digest_sample_ok)
qed

lemma sample_decide_valid: "validate_context sample_planner_builder sample_decide_context = Inr sample_planner"
proof -
  have d: "valid_context_datum (gx_sha sample_gateway_externals) (rq_current_input sample_driver_request)"
    by (simp add: valid_context_datum_def sample_driver_request_def len_ok_def hex_digest_sample_ok hex_digest_sample_def
        sample_hex_def sample_hex_ok)
  have n: "dt_namespace (rq_current_input sample_driver_request) = NUserInput" by (simp add: sample_driver_request_def)
  show ?thesis
    by (simp add: validate_context_def Let_def sample_planner_builder_parts sample_decide_fields sample_planner_parts d n common_namespaces_def)
qed

lemma sample_decide_records: "1 \<le> length (records_text sample_decide_context [])"
  "length (records_text sample_decide_context []) \<le> 1000"
  by code_simp+

lemma sample_decide_built: "\<exists>b. build_context sample_planner_builder sample_decide_context = Inr b"
proof -
  let ?i = "Thinking \<lparr>th_effort = EffortHigh, th_max_output_tokens = 100\<rparr>"
  let ?E = "candidate_tokens sample_planner_builder sample_decide_context sample_planner ?i hex_digest_sample"
  note h = sample_planner_builder_parts sample_planner_parts
  define r where "r = draft_request sample_planner_builder sample_decide_context sample_planner ?i hex_digest_sample (''a'', ''b'')
    [sample_plan_tool] [] []"
  have "request_fields_ok r"
    using sample_provider_id sample_decide_records sample_planner_parts(8)
    by (simp add: r_def request_fields_ok_def draft_request_def messages_of_def valid_chat_message_def len_ok_def
        hex_digest_sample_ok sample_decide_fields) (simp add: sample_planner_builder_def sample_builder_def)
  then have m: "model_request_of sample_planner_builder sample_decide_context sample_planner ?i hex_digest_sample [] [] = Inr r"
    by (simp add: model_request_of_def Let_def h sample_decide_fields r_def)
  have q: "mq_history r = []" by (simp add: r_def draft_request_def)
  have c: "?E [] [] = Inr 0" by (simp add: candidate_tokens_def m estimate_of_def h q)
  define t where "t = \<lparr>tm_history = [], tm_evidence = [], tm_after = 0, tm_removed = [], tm_compressed = [], tm_removed_evidence = []\<rparr>"
  have t: "trim_context sample_gateway_externals ?E sample_planner [] [] 0 = Inr t"
    by (simp add: trim_context_def h trim_evidence_def t_def)
  define b where "b = bundle_of sample_planner_builder sample_decide_context sample_planner hex_digest_sample (''a'', ''b'') r t
    (summary_of_trim sample_decide_context 0 t)"
  have e: "estimate_of sample_planner_builder sample_planner (pu_model_request b) = Inr 0"
    using q by (simp add: b_def estimate_of_def bundle_request h)
  have "valid_prompt_bundle b"
    by (simp add: b_def bundle_of_def Let_def valid_prompt_bundle_def summary_of_trim_def t_def h compute_prompt_policy_hash_def
        compute_rendered_prompt_hash_def compute_tool_hash_def compute_context_hash_def sha_json_def hex_digest_sample_ok
        del: sample_sha)
  then have "finish_build sample_planner_builder sample_decide_context sample_planner ?i hex_digest_sample 0 t = Inr b"
    using m e by (simp add: finish_build_def h t_def b_def Let_def)
  then have "build_context sample_planner_builder sample_decide_context = Inr b"
    using t c by (simp add: build_context_def sample_decide_valid h sample_planner_config sample_decide_fields)
  then show ?thesis by blast
qed

lemma sample_planner_deps_parts:
  "rd_builder sample_planner_deps = sample_planner_builder" "rd_profile sample_planner_deps = sample_planner"
  "rd_complete sample_planner_deps r = sreturn sample_plan_response" "rd_decode_plan sample_planner_deps x = Some sample_plan"
  "rd_generate sample_planner_deps \<noteq> None" "rd_query sample_planner_deps \<noteq> None"
  "1 < lp_max_model_calls (rd_policy sample_planner_deps)"
  by (simp_all add: sample_planner_deps_def sample_retail_deps_def)

lemma sample_decides: "\<exists>st d'. decide_day4 sample_planner_deps sample_driver_request d = (Inr (Inr st), d')"
proof -
  obtain b where b: "build_context sample_planner_builder sample_decide_context = Inr b" using sample_decide_built by blast
  have bound: "bound_to (deps_sha sample_planner_deps) (rq_run_scope sample_driver_request) (rq_attempt_id sample_driver_request) 0
      sample_plan_response"
    by (simp add: bound_to_def deps_sha_def sample_planner_deps_parts sample_planner_builder_parts sample_plan_response_def
        sample_turn_ref_def sample_driver_request_def scope_digest_def sample_hex_def)
  have "\<exists>d'. call_day4_model sample_planner_deps sample_driver_request RetailDecide [] 0 d
      = (Inr (ms_output sample_plan_response, bundle_hashes b), d')"
    using b bound by (simp add: call_day4_model_def sample_decide_context_def [symmetric] sample_planner_deps_parts sbind_def on_world_def)
  moreover have "rq_evidence sample_driver_request = []" by (simp add: sample_driver_request_def)
  moreover have "one_tool_call sample_planner_deps (ms_output sample_plan_response) RetailDecide
      = Inr \<lparr>tc_call_id = ''c1'', tc_name = ''submit_investigation_plan'', tc_arguments_json = ''{}''\<rparr>"
    by (simp add: one_tool_call_def sample_plan_response_def sample_planner_deps_parts sample_planner_parts)
  ultimately show ?thesis
    using sample_plan_valid
    by (auto simp: decide_day4_def sbind_def handling_def act_on_decision_def sample_planner_deps_parts validated_def)
qed

theorem scenario_steps_raise_witness:
  "scenario_request sample_driver sample_scenario 0 [] = Inr sample_driver_request
     \<and> (\<exists>st d1. decide_day4 sample_planner_deps sample_driver_request (sample_day4\<lparr>dw_checkpoints := Map.empty\<rparr>) = (Inr (Inr st), d1))
     \<and> (\<exists>d'. run_day4 sample_planner_deps sample_driver_request (sample_day4\<lparr>dw_checkpoints := Map.empty\<rparr>)
          = (Inl ValidationError, d'))"
proof -
  let ?d = "sample_day4\<lparr>dw_checkpoints := Map.empty\<rparr>"
  obtain r d' where r: "run_day4 sample_planner_deps sample_driver_request ?d = (r, d')" by force
  obtain st d1 where st: "decide_day4 sample_planner_deps sample_driver_request ?d = (Inr (Inr st), d1)"
    using sample_decides by blast
  have "dw_checkpoints ?d (checkpoint_key sample_planner_deps sample_driver_request) = None" by simp
  from scenario_steps_raise [OF sample_driver_requested this r] st sample_planner_deps_parts(5-7)
  have "r = Inl ValidationError" by blast
  then show ?thesis using sample_driver_requested st r by blast
qed

end
