(* ===== verification/Spec2Isabelle.thy ===== *)
theory Spec2Isabelle
  imports Op_References Ast_Policy Context_Estimate Eval_Runner Tool_Dispatch Product_Scoring Trace_Stream Product_Driver
begin

text \<open>
  A verification library of the commerce analyst agent (Python, package
  \<open>src/src/commerce_agent/\<close>). The agent answers questions over a retail database through a read-only
  SQL policy, proposes state-changing operations that a second person approves and that a signed
  grant executes once, talks to a model provider through a gateway with private turn state, and is
  evaluated by a recoverable runner. Each theory opens with what it holds; this is the overview.

  \<^bold>\<open>Shared.\<close> \<open>Prelude\<close>: results as sums (left the raised error), identifiers, instants in
  microseconds, field constraints. \<open>Json\<close>: JSON values and the canonical \<open>json.dumps\<close>, which is
  injective. \<open>Decimal\<close>: decimal.Decimal with quantize under the default context. \<open>Calendar\<close>:
  proleptic Gregorian dates and ISO text. \<open>Base64\<close>: URL-safe base64.

  \<^bold>\<open>Operations\<close> (\<open>operations/\<close>). \<open>Op_Contracts\<close> (errors.py, contracts.py): enumerations, references,
  requests, snapshots, receipts and their validators. \<open>Op_Commands\<close> (commands.py): the command union.
  \<open>Op_Canonical\<close> (_canonical.py): the signed projection of a command; the payload commits to it.
  \<open>Op_Approval\<close> (_approval.py): keyring, grants. \<open>Op_Store\<close> (_store.py, _memory.py): the store protocol
  and the in-memory store. \<open>Op_Workflow\<close> (workflow.py): propose, decide, execute over any store.
  \<open>Op_System\<close> composes the workflow with the store into a step relation with its invariant, and
  \<open>Op_Safety\<close> states what it means: no execution without the approval of another person, exactly
  once, an append-only history. \<open>Op_Backtest\<close> (_backtest.py), \<open>Op_SellerRefs\<close> (_seller_refs.py) and
  \<open>Op_References\<close> (DefaultReferenceValidator) model what a command may refer to.

  \<^bold>\<open>Query policy.\<close> \<open>Ast_Policy\<close> (query_engine/_ast_policy.py): every check of AstPolicy.validate over a
  generic syntax tree; the worklist loops are proved equal to reachability in the tree.
  \<open>Query_Executor\<close> (contracts.py, engine.py, _postgres.py): the guarded read-only transaction over driver
  ports, its limits and the release of the connection.

  \<^bold>\<open>Retail runs.\<close> \<open>Effects\<close>: calls that act on a world and can raise. \<open>Sql_Reasoning\<close> (sql_reasoning/):
  one constrained model call for a SQL candidate. \<open>Retail_Contracts\<close> (orchestration/contracts.py):
  requests, plans, reports, outcomes. \<open>Retail_Checkpoint\<close> (_checkpoint.py): the checkpointed state, its
  identity, the compatibility test. \<open>Retail_Flow\<close> (retail_graph.py, \<open>RetailGraph._run_day4\<close>): decide, query the
  plan steps with repairs, reconcile, report and propose, finish, with a checkpoint after every step and the
  resumption from it; the gateway, the reasoner, the query engine, the dispatcher and the turn store are
  ports. \<open>Retail_Runs\<close>: the invariant of every checkpoint over all steps and restarts.

  \<^bold>\<open>Tools.\<close> \<open>Value_Resolver\<close> (\<open>value_resolver/\<close>): the search for a stored business value, tier by tier, with
  what each answer promises. \<open>Knowledge\<close> (\<open>knowledge/\<close>): the fail-closed retrieval and the catalogue loader.
  \<open>Tool_Dispatch\<close> (orchestration/tools.py): \<open>RetailToolDispatcher\<close> over these two, the query engine and the
  proposal workflow; what a result promises, which refusals reach no back end, and the argument checks
  that pass one contract and crash in the next.

  \<^bold>\<open>Model.\<close> \<open>Model_Contracts\<close> (model/contracts.py): requests, responses, usage and cost records.
  \<open>Turn_Store\<close> (model/_turn_store.py): the provider-private turns with their expiry. \<open>Pricing\<close>
  (_pricing.py) and \<open>Retry\<close> (_retry.py): costs and delays in Decimal arithmetic. \<open>Gateway\<close>
  (gateway.py, errors.py): one completion, from the request to the saved turn, over an environment of
  provider answers; what it accounts for, which errors it raises, what it saves and what it replays.

  \<^bold>\<open>Context.\<close> \<open>Context_Contracts\<close> (context_builder/contracts.py, profiles.py, \<open>_tokens.py\<close>): data,
  profiles, the registry and the token estimator. \<open>Context_Builder\<close> (builder.py, \<open>_canonical.py\<close>): validation,
  trimming in three stages, audit hashes; what is kept, the budget, the separation of the tracks, and
  that the gateway accepts what was built. \<open>Context_Estimate\<close> states the estimator protocol as a locale
  and interprets it by the provisioned estimator.

  \<^bold>\<open>Evaluation\<close> (\<open>evaluation/\<close>). \<open>Eval_Store\<close> (contracts.py, _memory.py): attempts, results, the status
  machine as a refinement of an abstract life cycle. \<open>Eval_Runner\<close> (runner.py, episode.py): the
  asyncio loop as interleaved atomic steps, with its invariant, accounting and termination.
  \<open>Spool\<close> (spool.py): the agent's event file from the writer to the archive. \<open>Spool_Import\<close>
  (spool_importer.py): aggregation of the files, assignment to attempts, the telemetry patch.

  \<^bold>\<open>Trace and scoring.\<close> \<open>Trace_Stream\<close> (trace/contracts.py, module.py, \<open>_memory.py\<close>, api/events.py, api/sse.py): the
  audit trail and its public stream, from the polls to the events that were sent. \<open>Product_Scoring\<close>
  (\<open>product_eval/scoring.py\<close>): the comparison of two results up to a permutation of columns, and its
  specification. \<open>Product_Driver\<close> (\<open>product_eval/contracts.py\<close>, driver.py): a scenario played against the graph,
  the workflow and the engine between two resets, what a pass means, and what its requests do to the graph.

  \<^bold>\<open>State and effects.\<close> A class instance is a record, a method a function from its state to a result and
  the new state, one lock-protected call one step. uuid4, secrets and clock readings are inputs of the
  step. Code outside the repository is a parameter: SHA-256, HMAC, uuid5, pydantic's text of a
  datetime (the record \<open>externals\<close>), sqlglot (\<open>sqlglot\<close>), json.loads, base64 leniency, datetime
  parsing (\<open>codecs\<close>, \<open>json_loads\<close>), pydantic's parsing of one value (\<open>pydantic\<close>),
  Random.shuffle. What a theorem needs of them is a hypothesis of it, and its witness instantiates
  it. Strings are sequences of code points below 256.

  \<^bold>\<open>Loops.\<close> No fuel is used: worklist loops terminate by the size of the tree they hold, the run of the
  evaluation by a rank that every step lowers, the loop of the gateway counts its attempts down (the
  end of the loop is proved unreachable), the two loops of a retail run by the model calls left, and the row
  loop of the executor by its row limit.

  \<^bold>\<open>Not modelled.\<close> PostgreSQL adapters and migrations (SQL text whose semantics is the server's), HTTP
  servers and the LangGraph nodes of the older tool loop, provisioning scripts, and the components the manifest lists as
  not modelled.
\<close>

end
